(* ===== verification/Prelude.thy ===== *)
theory Prelude
  imports Main "HOL-Library.Word"
begin

text \<open>
  What every theory of the development shares: the machine types of
  \<open>include/type.h\<close>, the error numbers the system calls return, the outcome of
  an operation that may block, and generic facts on lists and words.
\<close>

section \<open>Machine types\<close>

type_synonym u8 = "8 word"
type_synonym u16 = "16 word"
type_synonym u32 = "32 word"
type_synonym u64 = "64 word"

text \<open>An \<open>int32_t\<close> and an \<open>int\<close> are 32-bit words read with \<^const>\<open>sint\<close>; a pointer and a
  virtual address are 64-bit words, 0 being \<open>NULL\<close>.\<close>

type_synonym i32 = "32 word"
type_synonym i64 = "64 word"
type_synonym ptr = "64 word"

abbreviation (input) NULL :: ptr where "NULL \<equiv> 0"

section \<open>Error numbers (include/os/errno.h)\<close>

abbreviation (input) EPERM :: int where "EPERM \<equiv> 1"
abbreviation (input) ENOENT :: int where "ENOENT \<equiv> 2"
abbreviation (input) ESRCH :: int where "ESRCH \<equiv> 3"
abbreviation (input) EINTR :: int where "EINTR \<equiv> 4"
abbreviation (input) ENOEXEC :: int where "ENOEXEC \<equiv> 8"
abbreviation (input) EBADF :: int where "EBADF \<equiv> 9"
abbreviation (input) EAGAIN :: int where "EAGAIN \<equiv> 11"
abbreviation (input) ENOMEM :: int where "ENOMEM \<equiv> 12"
abbreviation (input) EFAULT :: int where "EFAULT \<equiv> 14"
abbreviation (input) EISDIR :: int where "EISDIR \<equiv> 21"
abbreviation (input) EINVAL :: int where "EINVAL \<equiv> 22"
abbreviation (input) ENFILE :: int where "ENFILE \<equiv> 23"
abbreviation (input) EMFILE :: int where "EMFILE \<equiv> 24"
abbreviation (input) ESPIPE :: int where "ESPIPE \<equiv> 29"
abbreviation (input) EPIPE :: int where "EPIPE \<equiv> 32"
abbreviation (input) ENOTCONN :: int where "ENOTCONN \<equiv> 107"
abbreviation (input) ECONNREFUSED :: int where "ECONNREFUSED \<equiv> 111"

section \<open>Outcome of an operation that may block\<close>

text \<open>An operation returns (\<open>Ret\<close>), or gives up the processor inside \<open>do_block\<close> or
  \<open>do_scheduler\<close> in the state it leaves behind (\<open>Blocked\<close>: the caller re-enters the
  operation at the head of its loop when it is scheduled again), or runs into an
  \<open>assert(0)\<close> (\<open>Panic\<close>), or calls \<open>do_exit\<close> for the current process (\<open>Exits\<close>), or leaves the
  kernel for a signal handler in user mode (\<open>ToUser\<close>); the last three do not return to
  the caller.\<close>

datatype ('s, 'a) outcome = Ret 's 'a | Blocked 's | Panic 's | Exits 's int | ToUser 's

primrec out_state :: "('s, 'a) outcome \<Rightarrow> 's" where
  "out_state (Ret s _) = s"
| "out_state (Blocked s) = s"
| "out_state (Panic s) = s"
| "out_state (Exits s _) = s"
| "out_state (ToUser s) = s"

text \<open>Sequencing: the continuation runs only when the first operation returns.\<close>

primrec obind :: "('s, 'a) outcome \<Rightarrow> ('s \<Rightarrow> 'a \<Rightarrow> ('s, 'b) outcome) \<Rightarrow> ('s, 'b) outcome" where
  "obind (Ret s x) k = k s x"
| "obind (Blocked s) k = Blocked s"
| "obind (Panic s) k = Panic s"
| "obind (Exits s c) k = Exits s c"
| "obind (ToUser s) k = ToUser s"

lemma obind_Ret_iff: "obind r k = Ret s y \<longleftrightarrow> (\<exists>t x. r = Ret t x \<and> k t x = Ret s y)"
  by (cases r) auto

section \<open>Collections of facts\<close>

named_theorems links_simps \<open>rewrite rules for the links of a doubly linked list\<close>
named_theorems inv_intros \<open>preservation of component invariants\<close>

section \<open>Lists\<close>

lemma remove1_append_Cons:
  "x \<notin> set as \<Longrightarrow> remove1 x (as @ x # bs) = as @ bs"
  by (simp add: remove1_append)

lemma distinct_remove1_filter:
  "distinct xs \<Longrightarrow> remove1 x xs = filter (\<lambda>y. y \<noteq> x) xs"
  by (simp add: distinct_remove1_removeAll removeAll_filter_not_eq eq_commute)

text \<open>The first index from \<open>0\<close> whose element satisfies a test: the shape of every
  table scan in the kernel.\<close>

fun first_index :: "('a \<Rightarrow> bool) \<Rightarrow> 'a list \<Rightarrow> nat option" where
  "first_index P [] = None"
| "first_index P (x # xs) = (if P x then Some 0 else map_option Suc (first_index P xs))"

lemma first_index_None [simp]: "first_index P xs = None \<longleftrightarrow> (\<forall>x\<in>set xs. \<not> P x)"
  by (induction xs) auto

lemma all_less_Suc_iff: "(\<forall>j<Suc k. P j) \<longleftrightarrow> P 0 \<and> (\<forall>j<k. P (Suc j))"
  by (metis less_Suc_eq_0_disj)

lemma first_index_Some:
  "first_index P xs = Some i \<longleftrightarrow> i < length xs \<and> P (xs ! i) \<and> (\<forall>j<i. \<not> P (xs ! j))"
proof (induction xs arbitrary: i)
  case (Cons x xs)
  show ?case
  proof (cases i)
    case 0
    then show ?thesis by simp
  next
    case (Suc k)
    then show ?thesis by (auto simp: Cons.IH all_less_Suc_iff)
  qed
qed simp

lemma first_index_SomeD:
  assumes "first_index P xs = Some i"
  shows "i < length xs" and "P (xs ! i)" and "\<And>j. j < i \<Longrightarrow> \<not> P (xs ! j)"
  using assms by (auto simp: first_index_Some)

section \<open>Words\<close>

text \<open>Conversions between \<open>int32_t\<close> and \<open>size_t\<close> on values that fit.\<close>

lemma scast_of_int_i32:
  "- (2 ^ 31) \<le> k \<Longrightarrow> k < 2 ^ 31 \<Longrightarrow> (scast (of_int k :: i32) :: u64) = of_int k"
  by (simp add: signed_of_int signed_take_bit_int_eq_self)

lemma scast_of_nat_i32: "n < 2 ^ 31 \<Longrightarrow> (scast (of_nat n :: i32) :: u64) = of_nat n"
  using scast_of_int_i32 [of "int n"] by simp

lemma sint_of_nat_i32: "n < 2 ^ 31 \<Longrightarrow> sint (of_nat n :: i32) = int n"
  using signed_of_int [where 'b = 32 and 'a = int, of "int n"]
  by (simp add: signed_take_bit_int_eq_self)

lemma unat_of_nat_i32: "n < 2 ^ 32 \<Longrightarrow> unat (of_nat n :: i32) = n"
  by (simp add: unat_of_nat take_bit_nat_eq_self)

lemma unat_of_nat_u64: "n < 2 ^ 64 \<Longrightarrow> unat (of_nat n :: u64) = n"
  by (simp add: unat_of_nat take_bit_nat_eq_self)

lemma ucast_of_nat_u64: "n < 2 ^ 32 \<Longrightarrow> (ucast (of_nat n :: u64) :: i32) = of_nat n"
  by (simp add: unsigned_of_nat take_bit_nat_eq_self)

lemma less_of_nat_u64: "a < 2 ^ 64 \<Longrightarrow> b < 2 ^ 64 \<Longrightarrow> (of_nat a :: u64) < of_nat b \<longleftrightarrow> a < b"
  by (simp add: word_less_nat_alt unat_of_nat_u64)

lemma mod_of_nat_u64: "a < 2 ^ 64 \<Longrightarrow> b < 2 ^ 64 \<Longrightarrow> (of_nat a :: u64) mod of_nat b = of_nat (a mod b)"
  by (rule word_unat_eq_iff [THEN iffD2])
    (simp add: unat_mod_distrib unat_of_nat_u64 order_le_less_trans [OF mod_less_eq_dividend])

lemma unat_lt_i32: "unat (w :: i32) < 2 ^ 32"
  using unsigned_less [of w] by simp

lemma unat_lt_u64: "unat (w :: u64) < 2 ^ 64"
  using unsigned_less [of w] by simp

lemma unat_ucast_u32: "unat (ucast (r :: u32) :: u64) = unat r"
  using unat_lt_i32 [of r] by (simp add: unsigned_ucast_eq take_bit_nat_eq_self)

lemmas small_words = scast_of_nat_i32 sint_of_nat_i32 unat_of_nat_i32 unat_of_nat_u64
  ucast_of_nat_u64 less_of_nat_u64 mod_of_nat_u64

end
