(* ===== verification/Klist.thy ===== *)
theory Klist
  imports Prelude
begin

text \<open>
  The intrusive circular doubly linked list of \<open>include/os/list.h\<close>, on an explicit
  heap of list nodes: the memory cells \<open>next\<close> and \<open>prev\<close> of every node, by address.
  \<open>dlist h l xs\<close> says that the list with head \<open>l\<close> holds the nodes \<open>xs\<close>, in the
  order of the \<open>next\<close> pointers. Every operation is shown to do on \<open>xs\<close> what its
  name says and to leave every other list alone. The contract is the locale
  \<open>queue_api\<close>; the heap interprets it, and so does the functional queue store the
  other components use.
\<close>

section \<open>The operations of list.h\<close>

record list_node =
  nxt :: ptr
  prv :: ptr

type_synonym list_heap = "ptr \<Rightarrow> list_node"

definition set_next :: "ptr \<Rightarrow> ptr \<Rightarrow> list_heap \<Rightarrow> list_heap" where
  "set_next p v h = h(p := (h p)\<lparr>nxt := v\<rparr>)"

definition set_prev :: "ptr \<Rightarrow> ptr \<Rightarrow> list_heap \<Rightarrow> list_heap" where
  "set_prev p v h = h(p := (h p)\<lparr>prv := v\<rparr>)"

definition init_list :: "ptr \<Rightarrow> list_heap \<Rightarrow> list_heap" where
  "init_list l h = set_prev l l (set_next l l h)"

definition list_add_between :: "ptr \<Rightarrow> ptr \<Rightarrow> ptr \<Rightarrow> list_heap \<Rightarrow> list_heap" where
  "list_add_between node prev next h =
    (let h = set_prev next node h;
         h = set_next node next h;
         h = set_prev node prev h
     in set_next prev node h)"

definition list_del_between :: "ptr \<Rightarrow> ptr \<Rightarrow> list_heap \<Rightarrow> list_heap" where
  "list_del_between prev next h = set_next prev next (set_prev next prev h)"

definition list_del :: "ptr \<Rightarrow> list_heap \<Rightarrow> list_heap" where
  "list_del entry h =
    (if prv (h entry) \<noteq> NULL \<and> nxt (h entry) \<noteq> NULL then
       let h = list_del_between (prv (h entry)) (nxt (h entry)) h;
           h = set_prev entry NULL h
       in set_next entry NULL h
     else h)"

definition list_add :: "ptr \<Rightarrow> ptr \<Rightarrow> list_heap \<Rightarrow> list_heap" where
  "list_add node head h = list_add_between node head (nxt (h head)) h"

definition list_add_tail :: "ptr \<Rightarrow> ptr \<Rightarrow> list_heap \<Rightarrow> list_heap" where
  "list_add_tail node head h = list_add_between node (prv (h head)) head h"

definition list_move :: "ptr \<Rightarrow> ptr \<Rightarrow> list_heap \<Rightarrow> list_heap" where
  "list_move node head h = list_add node head (list_del node h)"

definition list_empty :: "ptr \<Rightarrow> list_heap \<Rightarrow> bool" where
  "list_empty head h \<longleftrightarrow> nxt (h head) = head"

text \<open>\<open>list_for_each_entry_safe(pos, q, head, member)\<close> with the loop body as a function on
  the heap: \<open>q\<close> is read before the body runs. The fuel bounds the number of turns;
  \<open>None\<close> is a loop that has not come back to the head by then.\<close>

fun list_for_each_safe ::
    "nat \<Rightarrow> (ptr \<Rightarrow> 's \<Rightarrow> 's) \<Rightarrow> ('s \<Rightarrow> list_heap) \<Rightarrow> ptr \<Rightarrow> ptr \<Rightarrow> ptr \<Rightarrow> 's \<Rightarrow> 's option" where
  "list_for_each_safe 0 body heap pos q head s = (if pos = head then Some s else None)"
| "list_for_each_safe (Suc n) body heap pos q head s =
    (if pos = head then Some s
     else let s' = body pos s
          in list_for_each_safe n body heap q (nxt (heap s' q)) head s')"

definition list_for_each_entry_safe ::
    "nat \<Rightarrow> (ptr \<Rightarrow> 's \<Rightarrow> 's) \<Rightarrow> ('s \<Rightarrow> list_heap) \<Rightarrow> ptr \<Rightarrow> 's \<Rightarrow> 's option" where
  "list_for_each_entry_safe fuel body heap head s =
    (let pos = nxt (heap s head); q = nxt (heap s pos)
     in list_for_each_safe fuel body heap pos q head s)"

section \<open>The list a heap represents\<close>

fun links :: "list_heap \<Rightarrow> ptr \<Rightarrow> ptr list \<Rightarrow> ptr \<Rightarrow> bool" where
  "links h a [] b \<longleftrightarrow> nxt (h a) = b \<and> prv (h b) = a"
| "links h a (x # xs) b \<longleftrightarrow> nxt (h a) = x \<and> prv (h x) = a \<and> links h x xs b"

definition dlist :: "list_heap \<Rightarrow> ptr \<Rightarrow> ptr list \<Rightarrow> bool" where
  "dlist h l xs \<longleftrightarrow> distinct (l # xs) \<and> NULL \<notin> set (l # xs) \<and> links h l xs l"

lemma nxt_set_next [links_simps]: "nxt (set_next p v h q) = (if q = p then v else nxt (h q))"
  and prv_set_next [links_simps]: "prv (set_next p v h q) = prv (h q)"
  and nxt_set_prev [links_simps]: "nxt (set_prev p v h q) = nxt (h q)"
  and prv_set_prev [links_simps]: "prv (set_prev p v h q) = (if q = p then v else prv (h q))"
  by (simp_all add: set_next_def set_prev_def)

lemma links_append:
  "links h a (xs @ y # ys) b \<longleftrightarrow> links h a xs y \<and> links h y ys b"
  by (induction xs arbitrary: a) auto

lemma links_frame:
  assumes "\<And>p. p \<in> insert a (set xs) \<Longrightarrow> nxt (h' p) = nxt (h p)"
    and "\<And>p. p \<in> insert b (set xs) \<Longrightarrow> prv (h' p) = prv (h p)"
  shows "links h' a xs b \<longleftrightarrow> links h a xs b"
  using assms by (induction xs arbitrary: a) auto

lemma links_next: "links h a xs b \<Longrightarrow> nxt (h a) = hd (xs @ [b])"
  by (cases xs) auto

lemma links_prev: "links h a xs b \<Longrightarrow> prv (h b) = last (a # xs)"
  by (induction xs arbitrary: a) auto

text \<open>The nodes of a list are determined by the heap.\<close>

lemma links_unique:
  assumes "links h a xs b" and "links h a ys b" and "b \<notin> set xs" and "b \<notin> set ys"
  shows "xs = ys"
  using assms
proof (induction xs arbitrary: a ys)
  case Nil
  then show ?case by (cases ys) auto
next
  case (Cons x xs)
  then show ?case by (cases ys) auto
qed

lemma dlist_unique: "dlist h l xs \<Longrightarrow> dlist h l ys \<Longrightarrow> xs = ys"
  unfolding dlist_def by (auto intro: links_unique)

lemma links_set_next [links_simps]:
  "p \<notin> insert a (set xs) \<Longrightarrow> links (set_next p v h) a xs b \<longleftrightarrow> links h a xs b"
  by (rule links_frame) (auto simp: links_simps)

lemma links_set_prev [links_simps]:
  "p \<notin> insert b (set xs) \<Longrightarrow> links (set_prev p v h) a xs b \<longleftrightarrow> links h a xs b"
  by (rule links_frame) (auto simp: links_simps)

section \<open>What the operations do\<close>

lemma dlist_init: "l \<noteq> NULL \<Longrightarrow> dlist (init_list l h) l []"
  by (simp add: dlist_def init_list_def links_simps)

lemma dlist_insert:
  assumes "dlist h l (as @ bs)" and "n \<noteq> NULL" and "n \<notin> set (l # as @ bs)"
  shows "dlist (list_add_between n (last (l # as)) (hd (bs @ [l])) h) l (as @ n # bs)"
  using assms
  by (cases as rule: rev_cases; cases bs)
    (auto simp: dlist_def list_add_between_def links_append links_simps)

lemma dlist_list_add:
  assumes "dlist h l xs" and "n \<noteq> NULL" and "n \<notin> set (l # xs)"
  shows "dlist (list_add n l h) l (n # xs)"
proof -
  have "nxt (h l) = hd (xs @ [l])"
    using assms(1) by (auto simp: dlist_def dest: links_next)
  with dlist_insert [of h l "[]" xs n] assms show ?thesis
    by (simp add: list_add_def)
qed

lemma dlist_list_add_tail:
  assumes "dlist h l xs" and "n \<noteq> NULL" and "n \<notin> set (l # xs)"
  shows "dlist (list_add_tail n l h) l (xs @ [n])"
proof -
  have "prv (h l) = last (l # xs)"
    using assms(1) by (auto simp: dlist_def dest: links_prev)
  with dlist_insert [of h l xs "[]" n] assms show ?thesis
    by (simp add: list_add_tail_def)
qed

text \<open>Around a node in the middle of a list the pointers are those of its neighbours.\<close>

lemma dlist_neighbours:
  assumes "dlist h l (as @ n # bs)"
  shows "prv (h n) = last (l # as)" and "nxt (h n) = hd (bs @ [l])"
  using assms by (auto simp: dlist_def links_append dest: links_next links_prev)

lemma dlist_remove:
  assumes "dlist h l (as @ n # bs)"
  shows "dlist (list_del n h) l (as @ bs)"
    and "nxt (list_del n h n) = NULL" and "prv (list_del n h n) = NULL"
proof -
  have nn: "last (l # as) \<noteq> NULL" "hd (bs @ [l]) \<noteq> NULL"
    using assms by (cases as rule: rev_cases; auto simp: dlist_def)
      (cases bs; use assms in \<open>auto simp: dlist_def\<close>)
  then have del: "list_del n h = set_next n NULL (set_prev n NULL
      (list_del_between (last (l # as)) (hd (bs @ [l])) h))"
    by (simp add: list_del_def dlist_neighbours [OF assms])
  show "nxt (list_del n h n) = NULL" and "prv (list_del n h n) = NULL"
    by (simp_all add: del links_simps)
  show "dlist (list_del n h) l (as @ bs)"
    using assms unfolding del
    by (cases as rule: rev_cases; cases bs)
      (auto simp: dlist_def list_del_between_def links_append links_simps)
qed

lemma dlist_list_del:
  assumes "dlist h l xs" and "n \<in> set xs"
  shows "dlist (list_del n h) l (remove1 n xs)"
    and "nxt (list_del n h n) = NULL" and "prv (list_del n h n) = NULL"
proof -
  obtain as bs where xs: "xs = as @ n # bs" "n \<notin> set as"
    using assms(2) by (meson split_list_first)
  then show "dlist (list_del n h) l (remove1 n xs)"
    and "nxt (list_del n h n) = NULL" and "prv (list_del n h n) = NULL"
    using dlist_remove [of h l as n bs] assms(1) by (simp_all add: remove1_append_Cons)
qed

text \<open>Deleting a node that is on no list (its pointers are \<open>NULL\<close>) changes nothing.\<close>

lemma list_del_detached: "nxt (h n) = NULL \<or> prv (h n) = NULL \<Longrightarrow> list_del n h = h"
  by (auto simp: list_del_def)

lemma dlist_list_empty: "dlist h l xs \<Longrightarrow> list_empty l h \<longleftrightarrow> xs = []"
  by (cases xs) (auto simp: dlist_def list_empty_def)

section \<open>Frame: other lists\<close>

lemma dlist_frame:
  assumes "dlist h l xs" and "\<And>p. p \<in> set (l # xs) \<Longrightarrow> h' p = h p"
  shows "dlist h' l xs"
  using assms links_frame [of l xs h' h l] by (auto simp: dlist_def)

lemma list_add_between_other:
  "p \<notin> {n, a, b} \<Longrightarrow> list_add_between n a b h p = h p"
  by (simp add: list_add_between_def set_next_def set_prev_def Let_def)

lemma list_del_other:
  "p \<notin> {n, prv (h n), nxt (h n)} \<Longrightarrow> list_del n h p = h p"
  by (simp add: list_del_def list_del_between_def set_next_def set_prev_def Let_def)

lemma dlist_ends:
  assumes "dlist h l xs"
  shows "nxt (h l) \<in> set (l # xs)" and "prv (h l) \<in> set (l # xs)"
proof -
  have "nxt (h l) = hd (xs @ [l])" and "prv (h l) = last (l # xs)"
    using assms links_next links_prev unfolding dlist_def by blast+
  moreover have "hd (xs @ [l]) \<in> set (l # xs)"
    by (cases xs) auto
  moreover have "last (l # xs) \<in> set (l # xs)"
    by (rule last_in_set) simp
  ultimately show "nxt (h l) \<in> set (l # xs)" and "prv (h l) \<in> set (l # xs)"
    by simp_all
qed

lemma dlist_neighbours_in:
  assumes "dlist h l xs" and "n \<in> set xs"
  shows "nxt (h n) \<in> set (l # xs)" and "prv (h n) \<in> set (l # xs)"
proof -
  obtain as bs where xs: "xs = as @ n # bs"
    using assms(2) by (meson split_list)
  have "hd (bs @ [l]) \<in> set (l # xs)" and "last (l # as) \<in> set (l # xs)"
    by (cases bs; simp add: xs) (cases as rule: rev_cases; simp add: xs)
  then show "nxt (h n) \<in> set (l # xs)" and "prv (h n) \<in> set (l # xs)"
    using dlist_neighbours [of h l as n bs] assms(1) by (simp_all add: xs)
qed

lemma dlist_add_frame:
  assumes "dlist h l xs" and "dlist h k ys" and "set (l # xs) \<inter> set (k # ys) = {}"
    and "n \<notin> set (k # ys)"
  shows "dlist (list_add n l h) k ys" and "dlist (list_add_tail n l h) k ys"
  using assms dlist_ends [OF assms(1)]
  by (auto simp: list_add_def list_add_tail_def intro!: dlist_frame [OF assms(2)] list_add_between_other)

lemma dlist_del_frame:
  assumes "dlist h l xs" and "dlist h k ys" and "set (l # xs) \<inter> set (k # ys) = {}"
    and "n \<in> set xs"
  shows "dlist (list_del n h) k ys"
  using assms dlist_neighbours_in [OF assms(1,4)]
  by (intro dlist_frame [OF assms(2)] list_del_other) auto

section \<open>Removing while iterating\<close>

text \<open>The body of the loops in \<open>check_sleeping\<close> and \<open>release_wait_deal_son\<close>: the node is
  unlinked and pushed on the list \<open>r\<close> if the test holds.\<close>

definition move_if :: "(ptr \<Rightarrow> bool) \<Rightarrow> ptr \<Rightarrow> ptr \<Rightarrow> list_heap \<Rightarrow> list_heap" where
  "move_if P r n h = (if P n then list_add n r (list_del n h) else h)"

lemma dlist_move_to:
  assumes "dlist h l (as @ n # bs)" and "dlist h r ys"
    and "set (l # as @ n # bs) \<inter> set (r # ys) = {}"
  shows "dlist (list_add n r (list_del n h)) l (as @ bs)"
    and "dlist (list_add n r (list_del n h)) r (n # ys)"
proof -
  have n: "n \<noteq> NULL" "n \<notin> set (l # as @ bs)" "n \<notin> set (r # ys)"
    using assms by (auto simp: dlist_def)
  have l: "dlist (list_del n h) l (as @ bs)"
    using assms(1) by (rule dlist_remove)
  have r: "dlist (list_del n h) r ys"
    using assms by (intro dlist_del_frame [OF assms(1,2)]) auto
  show "dlist (list_add n r (list_del n h)) r (n # ys)"
    using r n by (intro dlist_list_add) auto
  show "dlist (list_add n r (list_del n h)) l (as @ bs)"
    using l r n assms(3) by (intro dlist_add_frame(1) [OF r l]) auto
qed

lemma for_each_safe_moves:
  assumes "dlist h l (kept @ xs)" and "dlist h r ys"
    and "set (l # kept @ xs) \<inter> set (r # ys) = {}"
    and "length xs \<le> fuel"
    and "pos = hd (xs @ [l])" and "xs \<noteq> [] \<Longrightarrow> q = hd (tl xs @ [l])"
  shows "\<exists>h'. list_for_each_safe fuel (move_if P r) (\<lambda>h. h) pos q l h = Some h'
      \<and> dlist h' l (kept @ filter (\<lambda>x. \<not> P x) xs) \<and> dlist h' r (rev (filter P xs) @ ys)"
  using assms
proof (induction xs arbitrary: kept h ys fuel pos q)
  case Nil
  then show ?case by (cases fuel) auto
next
  case (Cons x xs)
  obtain m where fuel: "fuel = Suc m" "length xs \<le> m"
    using Cons.prems(4) by (cases fuel) auto
  have pos: "pos = x" "x \<noteq> l" "q = hd (xs @ [l])"
    using Cons.prems by (auto simp: dlist_def)
  let ?h = "move_if P r x h"
  let ?kept = "if P x then kept else kept @ [x]" and ?ys = "if P x then x # ys else ys"
  have l: "dlist ?h l (?kept @ xs)" and r: "dlist ?h r ?ys"
    using Cons.prems(1,2,3) dlist_move_to [of h l kept x xs r ys] by (auto simp: move_if_def)
  have disj: "set (l # ?kept @ xs) \<inter> set (r # ?ys) = {}"
    using Cons.prems(1,3) by (auto simp: dlist_def)
  have q': "nxt (?h q) = hd (tl xs @ [l])" if "xs \<noteq> []"
  proof -
    obtain y zs where xs: "xs = y # zs"
      using \<open>xs \<noteq> []\<close> list.exhaust by blast
    show ?thesis
      using dlist_neighbours(2) [of ?h l ?kept y zs] l pos(3) by (simp add: xs)
  qed
  from Cons.IH [OF l r disj fuel(2) pos(3) q'] show ?case
    by (auto simp: fuel(1) pos Let_def)
qed

section \<open>The contract of a store of queues\<close>

text \<open>\<open>rep s Q\<close>: the store \<open>s\<close> holds the queues \<open>Q\<close>. \<open>usable Q n\<close>: the node \<open>n\<close> is on
  no queue and may be put on one.\<close>

locale queue_api =
  fixes rep :: "'s \<Rightarrow> ('q \<Rightarrow> 'n list option) \<Rightarrow> bool"
    and usable :: "('q \<Rightarrow> 'n list option) \<Rightarrow> 'n \<Rightarrow> bool"
    and add :: "'n \<Rightarrow> 'q \<Rightarrow> 's \<Rightarrow> 's"
    and add_tail :: "'n \<Rightarrow> 'q \<Rightarrow> 's \<Rightarrow> 's"
    and del :: "'n \<Rightarrow> 's \<Rightarrow> 's"
    and empty :: "'q \<Rightarrow> 's \<Rightarrow> bool"
    and first :: "'q \<Rightarrow> 's \<Rightarrow> 'n"
    and final :: "'q \<Rightarrow> 's \<Rightarrow> 'n"
  assumes rep_add: "rep s Q \<Longrightarrow> usable Q n \<Longrightarrow> Q q = Some xs \<Longrightarrow> rep (add n q s) (Q(q \<mapsto> n # xs))"
    and rep_add_tail:
      "rep s Q \<Longrightarrow> usable Q n \<Longrightarrow> Q q = Some xs \<Longrightarrow> rep (add_tail n q s) (Q(q \<mapsto> xs @ [n]))"
    and rep_del: "rep s Q \<Longrightarrow> Q q = Some xs \<Longrightarrow> n \<in> set xs \<Longrightarrow> rep (del n s) (Q(q \<mapsto> remove1 n xs))"
    and usable_del:
      "rep s Q \<Longrightarrow> Q q = Some xs \<Longrightarrow> n \<in> set xs \<Longrightarrow> usable (Q(q \<mapsto> remove1 n xs)) n"
    and rep_empty: "rep s Q \<Longrightarrow> Q q = Some xs \<Longrightarrow> empty q s \<longleftrightarrow> xs = []"
    and rep_first: "rep s Q \<Longrightarrow> Q q = Some xs \<Longrightarrow> xs \<noteq> [] \<Longrightarrow> first q s = hd xs"
    and rep_final: "rep s Q \<Longrightarrow> Q q = Some xs \<Longrightarrow> xs \<noteq> [] \<Longrightarrow> final q s = last xs"

text \<open>The wake-up loop \<open>while (!list_empty(q)) move(q->next)\<close>, with fuel.\<close>

fun drain :: "nat \<Rightarrow> ('s \<Rightarrow> bool) \<Rightarrow> ('s \<Rightarrow> 'n) \<Rightarrow> ('n \<Rightarrow> 's \<Rightarrow> 's) \<Rightarrow> 's \<Rightarrow> 's option" where
  "drain 0 emp front mv s = (if emp s then Some s else None)"
| "drain (Suc n) emp front mv s =
    (if emp s then Some s else drain n emp front mv (mv (front s) s))"

context queue_api
begin

text \<open>Moving one node: out of its queue, to the front of another.\<close>

lemma rep_move:
  assumes "rep s Q" and "Q q = Some xs" and "n \<in> set xs" and "Q r = Some ys" and "q \<noteq> r"
  shows "rep (add n r (del n s)) (Q(q \<mapsto> remove1 n xs, r \<mapsto> n # ys))"
  using rep_add [OF rep_del usable_del, OF assms(1-3) assms(1-3), of r ys] assms(4,5) by simp

text \<open>The wake-up loop ends after as many turns as there are nodes; the last node woken
  is the first of the target queue.\<close>

lemma drain_all:
  assumes "rep s Q" and "Q q = Some xs" and "Q r = Some ys" and "q \<noteq> r" and "length xs \<le> fuel"
  shows "\<exists>s'. drain fuel (empty q) (first q) (\<lambda>n s. add n r (del n s)) s = Some s'
      \<and> rep s' (Q(q \<mapsto> [], r \<mapsto> rev xs @ ys))"
  using assms
proof (induction xs arbitrary: s Q ys fuel)
  case Nil
  have "Q(q \<mapsto> [], r \<mapsto> rev [] @ ys) = Q"
    using Nil.prems by auto
  moreover have "drain fuel (empty q) (first q) (\<lambda>n s. add n r (del n s)) s = Some s"
    using Nil.prems rep_empty [of s Q q "[]"] by (cases fuel) auto
  ultimately show ?case
    using Nil.prems(1) by metis
next
  case (Cons x xs)
  obtain m where fuel: "fuel = Suc m" "length xs \<le> m"
    using Cons.prems(5) by (cases fuel) auto
  let ?s = "add x r (del x s)" and ?Q = "Q(q \<mapsto> xs, r \<mapsto> x # ys)"
  have "rep ?s ?Q"
    using rep_move [OF Cons.prems(1,2) _ Cons.prems(3,4), of x] by simp
  moreover have "?Q q = Some xs" and "?Q r = Some (x # ys)"
    using Cons.prems(4) by simp_all
  ultimately obtain s' where s': "drain m (empty q) (first q) (\<lambda>n s. add n r (del n s)) ?s = Some s'"
    and "rep s' (?Q(q \<mapsto> [], r \<mapsto> rev xs @ x # ys))"
    using Cons.IH [OF _ _ _ Cons.prems(4) fuel(2)] by blast
  moreover have "?Q(q \<mapsto> [], r \<mapsto> rev xs @ x # ys) = Q(q \<mapsto> [], r \<mapsto> rev (x # xs) @ ys)"
    using Cons.prems(4) by (intro ext) simp
  moreover have "drain fuel (empty q) (first q) (\<lambda>n s. add n r (del n s)) s = Some s'"
    using rep_empty [OF Cons.prems(1,2)] rep_first [OF Cons.prems(1,2)] s' by (simp add: fuel(1))
  ultimately show ?case
    by metis
qed

end

section \<open>The heap of list nodes is a store of queues\<close>

definition heap_rep :: "list_heap \<Rightarrow> (ptr \<Rightarrow> ptr list option) \<Rightarrow> bool" where
  "heap_rep h Q \<longleftrightarrow> (\<forall>l xs. Q l = Some xs \<longrightarrow> dlist h l xs) \<and>
    (\<forall>l k xs ys. Q l = Some xs \<longrightarrow> Q k = Some ys \<longrightarrow> l \<noteq> k \<longrightarrow> set (l # xs) \<inter> set (k # ys) = {})"

definition heap_usable :: "(ptr \<Rightarrow> ptr list option) \<Rightarrow> ptr \<Rightarrow> bool" where
  "heap_usable Q n \<longleftrightarrow> n \<noteq> NULL \<and> (\<forall>l xs. Q l = Some xs \<longrightarrow> n \<notin> set (l # xs))"

abbreviation heap_first :: "ptr \<Rightarrow> list_heap \<Rightarrow> ptr" where
  "heap_first l h \<equiv> nxt (h l)"

abbreviation heap_final :: "ptr \<Rightarrow> list_heap \<Rightarrow> ptr" where
  "heap_final l h \<equiv> prv (h l)"

lemma heap_repD:
  assumes "heap_rep h Q" and "Q l = Some xs"
  shows "dlist h l xs"
    and "\<And>k ys. Q k = Some ys \<Longrightarrow> l \<noteq> k \<Longrightarrow> set (l # xs) \<inter> set (k # ys) = {}"
proof -
  show "dlist h l xs"
    using assms by (simp only: heap_rep_def)
  fix k ys
  assume "Q k = Some ys" and "l \<noteq> k"
  then show "set (l # xs) \<inter> set (k # ys) = {}"
    using assms by (simp only: heap_rep_def not_False_eq_True simp_thms)
qed

text \<open>Changing one queue of a heap, the others framed.\<close>

lemma heap_rep_upd:
  assumes "heap_rep h Q" and "dlist h' l zs"
    and "\<And>k ys. Q k = Some ys \<Longrightarrow> l \<noteq> k \<Longrightarrow> dlist h' k ys \<and> set (l # zs) \<inter> set (k # ys) = {}"
  shows "heap_rep h' (Q(l \<mapsto> zs))"
  unfolding heap_rep_def
proof (intro conjI allI impI)
  fix k ys
  assume "(Q(l \<mapsto> zs)) k = Some ys"
  then show "dlist h' k ys"
    using assms(2) assms(3) [of k ys] by (cases "k = l") simp_all
next
  fix k j xs ys
  assume "(Q(l \<mapsto> zs)) k = Some xs" and "(Q(l \<mapsto> zs)) j = Some ys" and "k \<noteq> j"
  then consider "k = l" "xs = zs" "Q j = Some ys" "l \<noteq> j" | "j = l" "ys = zs" "Q k = Some xs" "l \<noteq> k"
    | "Q k = Some xs" "Q j = Some ys"
    by (cases "k = l"; cases "j = l") simp_all
  then show "set (k # xs) \<inter> set (j # ys) = {}"
  proof cases
    case 1
    then show ?thesis using assms(3) [OF 1(3,4)] by (simp only:)
  next
    case 2
    then show ?thesis using assms(3) [OF 2(3,4)] by (simp only: Int_commute)
  next
    case 3
    then show ?thesis using heap_repD(2) [OF assms(1) 3 \<open>k \<noteq> j\<close>] by simp
  qed
qed

lemma heap_rep_insert:
  assumes rep: "heap_rep h Q" and l: "Q l = Some xs" and n: "heap_usable Q n"
    and zs: "dlist h' l zs" "set zs = insert n (set xs)"
    and frame: "\<And>k ys. dlist h k ys \<Longrightarrow> set (l # xs) \<inter> set (k # ys) = {} \<Longrightarrow> n \<notin> set (k # ys)
      \<Longrightarrow> dlist h' k ys"
  shows "heap_rep h' (Q(l \<mapsto> zs))"
proof (rule heap_rep_upd [OF rep zs(1)])
  fix k ys
  assume k: "Q k = Some ys" "l \<noteq> k"
  have disj: "set (l # xs) \<inter> set (k # ys) = {}"
    by (rule heap_repD(2) [OF rep l k])
  have nk: "n \<notin> set (k # ys)"
    using n k(1) unfolding heap_usable_def by blast
  have "dlist h' k ys"
    by (rule frame [OF heap_repD(1) [OF rep k(1)] disj nk])
  moreover have "set (l # zs) \<inter> set (k # ys) = {}"
    using disj nk zs(2) by auto
  ultimately show "dlist h' k ys \<and> set (l # zs) \<inter> set (k # ys) = {}" ..
qed

interpretation heap: queue_api heap_rep heap_usable list_add list_add_tail list_del list_empty
  heap_first heap_final
proof unfold_locales
  fix h Q n l xs
  assume *: "heap_rep h Q" "heap_usable Q n" "Q l = Some xs"
  have n: "n \<noteq> NULL" "n \<notin> set (l # xs)"
    using *(2,3) unfolding heap_usable_def by blast+
  note l = heap_repD(1) [OF *(1,3)]
  show "heap_rep (list_add n l h) (Q(l \<mapsto> n # xs))"
    by (rule heap_rep_insert [OF *(1,3,2) dlist_list_add [OF l n] _ dlist_add_frame(1) [OF l]]) simp_all
  show "heap_rep (list_add_tail n l h) (Q(l \<mapsto> xs @ [n]))"
    by (rule heap_rep_insert [OF *(1,3,2) dlist_list_add_tail [OF l n] _ dlist_add_frame(2) [OF l]])
      simp_all
next
  fix h Q l xs n
  assume *: "heap_rep h Q" "Q l = Some xs" "n \<in> set xs"
  note l = heap_repD(1) [OF *(1,2)]
  have sub: "set (l # remove1 n xs) \<subseteq> set (l # xs)"
    using set_remove1_subset [of n xs] by auto
  show "heap_rep (list_del n h) (Q(l \<mapsto> remove1 n xs))"
  proof (rule heap_rep_upd [OF *(1) dlist_list_del(1) [OF l *(3)]])
    fix k ys
    assume k: "Q k = Some ys" "l \<noteq> k"
    note disj = heap_repD(2) [OF *(1,2) k]
    show "dlist (list_del n h) k ys \<and> set (l # remove1 n xs) \<inter> set (k # ys) = {}"
      using dlist_del_frame [OF l heap_repD(1) [OF *(1) k(1)] disj *(3)] disj sub by blast
  qed
  have "n \<noteq> NULL" "n \<noteq> l" "n \<notin> set (remove1 n xs)"
    using l *(3) by (auto simp: dlist_def)
  moreover have "n \<notin> set (k # ys)" if "Q k = Some ys" "k \<noteq> l" for k ys
    using heap_repD(2) [OF *(1,2) that(1)] that(2) *(3) by auto
  ultimately show "heap_usable (Q(l \<mapsto> remove1 n xs)) n"
    unfolding heap_usable_def by auto
next
  fix h Q l xs
  assume *: "heap_rep h Q" "Q l = Some (xs :: ptr list)"
  note l = heap_repD(1) [OF *]
  show "list_empty l h \<longleftrightarrow> xs = []"
    by (rule dlist_list_empty [OF l])
  assume "xs \<noteq> []"
  then show "nxt (h l) = hd xs" and "prv (h l) = last xs"
    using l links_next [of h l xs l] links_prev [of h l xs l] by (auto simp: dlist_def)
qed

text \<open>A new list head: \<open>init_list\<close> adds an empty queue to the store.\<close>

lemma heap_rep_init:
  assumes "heap_rep h Q" and "heap_usable Q l"
  shows "heap_rep (init_list l h) (Q(l \<mapsto> []))"
proof -
  have other: "init_list l h p = h p" if "p \<noteq> l" for p
    using that by (simp add: init_list_def set_next_def set_prev_def)
  have k: "l \<notin> set (k # ys)" "dlist (init_list l h) k ys" if "Q k = Some ys" for k ys
  proof -
    show nin: "l \<notin> set (k # ys)"
      using assms(2) that unfolding heap_usable_def by blast
    show "dlist (init_list l h) k ys"
      by (rule dlist_frame [OF heap_repD(1) [OF assms(1) that]]) (use nin in \<open>auto intro: other\<close>)
  qed
  show ?thesis
  proof (rule heap_rep_upd [OF assms(1)])
    show "dlist (init_list l h) l []"
      using assms(2) by (intro dlist_init) (simp add: heap_usable_def)
    show "dlist (init_list l h) j zs \<and> set [l] \<inter> set (j # zs) = {}" if "Q j = Some zs" for j zs
      using k [OF that] by simp
  qed
qed

section \<open>The functional store of queues\<close>

text \<open>The components above use the list operations on a function from queue names to the
  lists of the queued objects: what \<open>heap_rep\<close> relates the pointers to.\<close>

type_synonym ('q, 'n) qstore = "'q \<Rightarrow> 'n list"

definition q_add :: "'n \<Rightarrow> 'q \<Rightarrow> ('q, 'n) qstore \<Rightarrow> ('q, 'n) qstore" where
  "q_add n q S = S(q := n # S q)"

definition q_add_tail :: "'n \<Rightarrow> 'q \<Rightarrow> ('q, 'n) qstore \<Rightarrow> ('q, 'n) qstore" where
  "q_add_tail n q S = S(q := S q @ [n])"

definition q_del :: "'n \<Rightarrow> ('q, 'n) qstore \<Rightarrow> ('q, 'n) qstore" where
  "q_del n S = (\<lambda>q. remove1 n (S q))"

definition q_empty :: "'q \<Rightarrow> ('q, 'n) qstore \<Rightarrow> bool" where
  "q_empty q S \<longleftrightarrow> S q = []"

definition store_inv :: "('q, 'n) qstore \<Rightarrow> bool" where
  "store_inv S \<longleftrightarrow> (\<forall>q. distinct (S q)) \<and> (\<forall>q r. q \<noteq> r \<longrightarrow> set (S q) \<inter> set (S r) = {})"

definition queued :: "'n \<Rightarrow> ('q, 'n) qstore \<Rightarrow> bool" where
  "queued n S \<longleftrightarrow> (\<exists>q. n \<in> set (S q))"

lemma store_invD:
  assumes "store_inv S"
  shows "distinct (S q)" and "n \<in> set (S q) \<Longrightarrow> n \<in> set (S r) \<Longrightarrow> q = r"
  using assms by (auto simp: store_inv_def disjoint_iff)

lemma store_invI:
  assumes "\<And>q. distinct (S q)" and "\<And>n q r. n \<in> set (S q) \<Longrightarrow> n \<in> set (S r) \<Longrightarrow> q = r"
  shows "store_inv S"
  using assms unfolding store_inv_def disjoint_iff by blast

lemma queued_q_add [simp]: "queued m (q_add n q S) \<longleftrightarrow> m = n \<or> queued m S"
  unfolding queued_def q_add_def by (auto split: if_splits)

lemma queued_q_add_tail [simp]: "queued m (q_add_tail n q S) \<longleftrightarrow> m = n \<or> queued m S"
  unfolding queued_def q_add_tail_def by (auto split: if_splits)

lemma set_q_del:
  "store_inv S \<Longrightarrow> set (q_del n S q) = set (S q) - {n}"
  by (simp add: q_del_def store_invD)

lemma queued_q_del [simp]: "store_inv S \<Longrightarrow> queued m (q_del n S) \<longleftrightarrow> m \<noteq> n \<and> queued m S"
  unfolding queued_def by (auto simp: set_q_del)

lemma store_inv_q_add [inv_intros]:
  "store_inv S \<Longrightarrow> \<not> queued n S \<Longrightarrow> store_inv (q_add n q S)"
  by (rule store_invI) (auto simp: q_add_def queued_def store_invD split: if_splits dest: store_invD(2))

lemma store_inv_q_add_tail [inv_intros]:
  "store_inv S \<Longrightarrow> \<not> queued n S \<Longrightarrow> store_inv (q_add_tail n q S)"
  by (rule store_invI)
    (auto simp: q_add_tail_def queued_def store_invD split: if_splits dest: store_invD(2))

lemma store_inv_q_del [inv_intros]: "store_inv S \<Longrightarrow> store_inv (q_del n S)"
  by (rule store_invI) (auto simp: set_q_del dest: store_invD(2), simp add: q_del_def store_invD)

definition store_rep :: "('q, 'n) qstore \<Rightarrow> ('q \<Rightarrow> 'n list option) \<Rightarrow> bool" where
  "store_rep S Q \<longleftrightarrow> store_inv S \<and> Q = (\<lambda>q. Some (S q))"

definition store_usable :: "('q \<Rightarrow> 'n list option) \<Rightarrow> 'n \<Rightarrow> bool" where
  "store_usable Q n \<longleftrightarrow> (\<forall>q xs. Q q = Some xs \<longrightarrow> n \<notin> set xs)"

lemma q_del_eq:
  assumes "store_inv S" and "n \<in> set (S q)"
  shows "q_del n S = S(q := remove1 n (S q))"
proof
  fix r
  show "q_del n S r = (S(q := remove1 n (S q))) r"
    using assms(2) store_invD(2) [OF assms(1), of n q r] remove1_idem [of n "S r"]
    by (cases "r = q") (auto simp: q_del_def)
qed

interpretation store: queue_api store_rep store_usable q_add q_add_tail q_del q_empty
  "\<lambda>q S. hd (S q)" "\<lambda>q S. last (S q)"
proof unfold_locales
  fix S :: "('q, 'n) qstore" and Q n q xs
  assume *: "store_rep S Q" "store_usable Q n" "Q q = Some xs"
  then have "store_inv S" "\<not> queued n S" "xs = S q" "Q = (\<lambda>q. Some (S q))"
    by (auto simp: store_rep_def store_usable_def queued_def)
  then show "store_rep (q_add n q S) (Q(q \<mapsto> n # xs))"
    and "store_rep (q_add_tail n q S) (Q(q \<mapsto> xs @ [n]))"
    by (auto simp: store_rep_def q_add_def [abs_def] q_add_tail_def [abs_def]
        intro: inv_intros [unfolded q_add_def q_add_tail_def])
next
  fix S :: "('q, 'n) qstore" and Q q xs n
  assume *: "store_rep S Q" "Q q = Some xs" "n \<in> set xs"
  then have S: "store_inv S" "xs = S q" "Q = (\<lambda>q. Some (S q))"
    by (auto simp: store_rep_def)
  then have del: "q_del n S = S(q := remove1 n xs)"
    using *(3) by (simp add: q_del_eq)
  then show "store_rep (q_del n S) (Q(q \<mapsto> remove1 n xs))"
    using S store_inv_q_del [of S n] by (auto simp: store_rep_def)
  have "n \<notin> set (q_del n S r)" for r
    by (simp add: set_q_del S(1))
  then show "store_usable (Q(q \<mapsto> remove1 n xs)) n"
    unfolding store_usable_def del S(3) by (metis (mono_tags) fun_upd_apply option.inject)
qed (auto simp: store_rep_def q_empty_def)

section \<open>Sequences of list operations\<close>

datatype list_op =
    ListAdd ptr ptr
  | ListAddTail ptr ptr
  | ListDel ptr ptr
  | ListMove ptr ptr ptr

text \<open>The last argument of \<open>ListDel\<close> and the middle one of \<open>ListMove\<close> name the list the node
  is on; the code does not need it, its contract does.\<close>

primrec heap_exec :: "list_op \<Rightarrow> list_heap \<Rightarrow> list_heap" where
  "heap_exec (ListAdd n l) h = list_add n l h"
| "heap_exec (ListAddTail n l) h = list_add_tail n l h"
| "heap_exec (ListDel n l) h = list_del n h"
| "heap_exec (ListMove n l k) h = list_move n k h"

primrec abs_exec :: "list_op \<Rightarrow> (ptr \<Rightarrow> ptr list option) \<Rightarrow> (ptr \<Rightarrow> ptr list option)" where
  "abs_exec (ListAdd n l) Q = Q(l \<mapsto> n # the (Q l))"
| "abs_exec (ListAddTail n l) Q = Q(l \<mapsto> the (Q l) @ [n])"
| "abs_exec (ListDel n l) Q = Q(l \<mapsto> remove1 n (the (Q l)))"
| "abs_exec (ListMove n l k) Q =
    (let Q = Q(l \<mapsto> remove1 n (the (Q l))) in Q(k \<mapsto> n # the (Q k)))"

primrec legal_op :: "list_op \<Rightarrow> (ptr \<Rightarrow> ptr list option) \<Rightarrow> bool" where
  "legal_op (ListAdd n l) Q \<longleftrightarrow> Q l \<noteq> None \<and> heap_usable Q n"
| "legal_op (ListAddTail n l) Q \<longleftrightarrow> Q l \<noteq> None \<and> heap_usable Q n"
| "legal_op (ListDel n l) Q \<longleftrightarrow> Q l \<noteq> None \<and> n \<in> set (the (Q l))"
| "legal_op (ListMove n l k) Q \<longleftrightarrow> Q l \<noteq> None \<and> n \<in> set (the (Q l)) \<and> Q k \<noteq> None"

fun legal_ops :: "list_op list \<Rightarrow> (ptr \<Rightarrow> ptr list option) \<Rightarrow> bool" where
  "legal_ops [] Q \<longleftrightarrow> True"
| "legal_ops (c # cs) Q \<longleftrightarrow> legal_op c Q \<and> legal_ops cs (abs_exec c Q)"

lemma heap_exec_step:
  assumes "heap_rep h Q" and "legal_op c Q"
  shows "heap_rep (heap_exec c h) (abs_exec c Q)"
proof (cases c)
  case (ListMove n l k)
  then obtain xs where l: "Q l = Some xs" "n \<in> set xs" and k: "Q k \<noteq> None"
    using assms(2) by auto
  show ?thesis
    using heap.rep_add [OF heap.rep_del heap.usable_del, OF assms(1) l assms(1) l] k ListMove l(1)
    by (auto simp: list_move_def Let_def)
qed (use assms heap.rep_add heap.rep_add_tail heap.rep_del in auto)

text \<open>C1: Any sequence of \<open>list_add\<close>, \<open>list_add_tail\<close>, \<open>list_del\<close> and \<open>list_move\<close> on the
  pointer heap does to the represented lists what the same sequence does to lists of nodes:
  additions go to the named end of the named list, a deletion takes the node out of its list,
  every other list keeps its nodes and their order, and all lists stay well formed, as long
  as a node is added only when it is on no list and deleted only from a list it is on.\<close>

theorem list_ops_refine:
  assumes "heap_rep h Q" and "legal_ops cs Q"
  shows "heap_rep (fold heap_exec cs h) (fold abs_exec cs Q)"
  using assms
proof (induction cs arbitrary: h Q)
  case (Cons c cs)
  then show ?case using heap_exec_step [of h Q c] by simp
qed simp

theorem list_ops_refine_witness:
  "heap_rep (fold heap_exec [ListAdd 16 1, ListAddTail 32 1, ListMove 16 1 2, ListDel 32 1]
      (init_list 2 (init_list 1 (\<lambda>_. \<lparr>nxt = 0, prv = 0\<rparr>))))
    (fold abs_exec [ListAdd 16 1, ListAddTail 32 1, ListMove 16 1 2, ListDel 32 1] [1 \<mapsto> [], 2 \<mapsto> []])"
proof (rule list_ops_refine)
  have "heap_rep (init_list 1 (\<lambda>_. \<lparr>nxt = 0, prv = 0\<rparr>)) [1 \<mapsto> []]"
    by (rule heap_rep_init) (simp_all add: heap_rep_def heap_usable_def)
  then show "heap_rep (init_list 2 (init_list 1 (\<lambda>_. \<lparr>nxt = 0, prv = 0\<rparr>))) [1 \<mapsto> [], 2 \<mapsto> []]"
    by (rule heap_rep_init) (simp add: heap_usable_def)
  show "legal_ops [ListAdd 16 1, ListAddTail 32 1, ListMove 16 1 2, ListDel 32 1] [1 \<mapsto> [], 2 \<mapsto> []]"
    by (auto simp: heap_usable_def Let_def)
qed

text \<open>C25: \<open>list_for_each_entry_safe\<close> with a body that unlinks the visited node when a test holds
  and pushes it on another list (the wake-up loops of the kernel) visits every node once and
  ends within as many turns as there are nodes: the nodes that fail the test stay in order,
  the others are on the other list, last visited first.\<close>

theorem list_for_each_safe_moves:
  assumes "dlist h l xs" and "dlist h r ys" and "set (l # xs) \<inter> set (r # ys) = {}"
    and "length xs \<le> fuel"
  shows "\<exists>h'. list_for_each_entry_safe fuel (move_if P r) (\<lambda>h. h) l h = Some h'
      \<and> dlist h' l (filter (\<lambda>x. \<not> P x) xs) \<and> dlist h' r (rev (filter P xs) @ ys)"
proof -
  have pos: "nxt (h l) = hd (xs @ [l])"
    using assms(1) by (auto simp: dlist_def dest: links_next)
  have q: "nxt (h (nxt (h l))) = hd (tl xs @ [l])" if "xs \<noteq> []"
    using that assms(1) dlist_neighbours(2) [of h l "[]" "hd xs" "tl xs"] pos by (cases xs) auto
  show ?thesis
    using for_each_safe_moves [of h l "[]" xs r ys fuel "nxt (h l)" "nxt (h (nxt (h l)))" P]
      assms pos q
    by (simp add: list_for_each_entry_safe_def Let_def)
qed

theorem list_for_each_safe_moves_witness:
  "\<exists>h'. list_for_each_entry_safe 3 (move_if (\<lambda>x. x \<noteq> 32) 2) (\<lambda>h. h) 1
      (list_add 16 1 (list_add 32 1 (list_add 48 1 (init_list 2 (init_list 1 (\<lambda>_. \<lparr>nxt = 0, prv = 0\<rparr>))))))
      = Some h' \<and> dlist h' 1 [32] \<and> dlist h' 2 [48, 16]"
proof -
  let ?h = "list_add 16 1 (list_add 32 1 (list_add 48 1 (init_list 2 (init_list 1 (\<lambda>_. \<lparr>nxt = 0, prv = 0\<rparr>)))))"
  have "dlist ?h 1 [16, 32, 48]" and "dlist ?h 2 []"
    by (simp_all add: dlist_def links_simps list_add_def list_add_between_def init_list_def)
  from list_for_each_safe_moves [OF this, of 3 "\<lambda>x. x \<noteq> 32"] show ?thesis by simp
qed

end
