(* ===== verification/PageTable.thy ===== *)
theory PageTable
  imports Prelude
begin

text \<open>
  Sv39 page tables: \<open>arch/riscv/include/pgtable.h\<close>. Physical and kernel virtual addresses,
  the fields of a page table entry, and the three-level walks, on a memory of 64-bit words
  indexed by their address. A PTE is the word itself; the functions that change a PTE through
  a pointer return the new word.
\<close>

unbundle bit_operations_syntax

section \<open>Addresses\<close>

type_synonym mem64 = "u64 \<Rightarrow> u64"

abbreviation (input) SATP_MODE_SV39 :: u32 where "SATP_MODE_SV39 \<equiv> 8"
abbreviation (input) NORMAL_PAGE_SIZE :: u64 where "NORMAL_PAGE_SIZE \<equiv> 4096"

definition is_kva :: "u64 \<Rightarrow> bool" where
  "is_kva addr \<longleftrightarrow> addr AND push_bit 38 (-1) = push_bit 38 (-1)"

definition kva2pa :: "u64 \<Rightarrow> u64" where
  "kva2pa kva = (let mask = drop_bit 32 (-1) in kva AND mask)"

definition pa2kva :: "u64 \<Rightarrow> u64" where
  "pa2kva pa = (let mask = push_bit 38 (-1) in (pa AND 0xffffffff) OR mask)"

definition get_satp :: "u32 \<Rightarrow> u32 \<Rightarrow> u64 \<Rightarrow> u64" where
  "get_satp mode asid ppn = push_bit 60 (ucast mode) OR push_bit 44 (ucast asid) OR ppn"

text \<open>\<open>get_pgdir\<close> as a function of the value of the \<open>satp\<close> register.\<close>

definition get_pgdir :: "u64 \<Rightarrow> u64" where
  "get_pgdir satp = pa2kva (push_bit 12 (satp AND mask 44))"

section \<open>Page table entries\<close>

abbreviation (input) PAGE_PRESENT :: u64 where "PAGE_PRESENT \<equiv> 1"
abbreviation (input) PAGE_READ :: u64 where "PAGE_READ \<equiv> 2"
abbreviation (input) PAGE_WRITE :: u64 where "PAGE_WRITE \<equiv> 4"
abbreviation (input) PAGE_EXEC :: u64 where "PAGE_EXEC \<equiv> 8"
abbreviation (input) PAGE_USER :: u64 where "PAGE_USER \<equiv> 16"
abbreviation (input) PAGE_GLOBAL :: u64 where "PAGE_GLOBAL \<equiv> 32"
abbreviation (input) PAGE_ACCESSED :: u64 where "PAGE_ACCESSED \<equiv> 64"
abbreviation (input) PAGE_DIRTY :: u64 where "PAGE_DIRTY \<equiv> 128"
abbreviation (input) PAGE_SOFT :: u64 where "PAGE_SOFT \<equiv> 256"
abbreviation (input) PAGE_SD :: u64 where "PAGE_SD \<equiv> 512"

definition get_pa :: "u64 \<Rightarrow> u64" where
  "get_pa entry = (let mask = drop_bit 10 (-1) in push_bit 12 (drop_bit 10 (entry AND mask)))"

definition get_pfn :: "u64 \<Rightarrow> u64" where
  "get_pfn entry = (let mask = drop_bit 10 (-1) in drop_bit 10 (entry AND mask))"

definition set_pfn :: "u64 \<Rightarrow> u64 \<Rightarrow> u64" where
  "set_pfn entry pfn = (entry AND drop_bit 54 (-1)) OR push_bit 10 pfn"

definition get_attribute :: "u64 \<Rightarrow> u64" where
  "get_attribute entry = (let mask = drop_bit 54 (-1) in entry AND mask)"

definition set_attribute :: "u64 \<Rightarrow> u64 \<Rightarrow> u64" where
  "set_attribute entry bits = (entry AND push_bit 10 (-1)) OR bits"

definition check_attribute :: "u64 \<Rightarrow> u64 \<Rightarrow> bool" where
  "check_attribute entry bits \<longleftrightarrow> entry AND bits \<noteq> 0"

definition clear_attribute :: "u64 \<Rightarrow> u64 \<Rightarrow> u64" where
  "clear_attribute entry bits = entry AND NOT bits"

definition add_attribute :: "u64 \<Rightarrow> u64 \<Rightarrow> u64" where
  "add_attribute entry bits = entry OR bits"

section \<open>Walking the tables\<close>

text \<open>\<open>vpn[n]\<close> of the walks, and the table an entry points to.\<close>

definition vpn :: "nat \<Rightarrow> u64 \<Rightarrow> u64" where
  "vpn n va = drop_bit (12 + 9 * n) va AND NOT (push_bit 9 (-1))"

definition pte_at :: "mem64 \<Rightarrow> u64 \<Rightarrow> u64 \<Rightarrow> u64" where
  "pte_at m base i = m (base + 8 * i)"

definition table_of :: "u64 \<Rightarrow> u64" where
  "table_of entry = pa2kva (push_bit 12 (get_pfn entry))"

definition page_offset :: "u64 \<Rightarrow> u64" where
  "page_offset va = va AND NOT (push_bit 12 (-1))"

definition get_pa_of :: "mem64 \<Rightarrow> u64 \<Rightarrow> u64 \<Rightarrow> u64" where
  "get_pa_of m va pgdir_va =
    (if va AND 0xffffffc000000000 \<noteq> 0 then kva2pa va
     else let page_base = pgdir_va in
       if pte_at m page_base (vpn 2 va) = 0 then NULL
       else let second_page = table_of (pte_at m page_base (vpn 2 va)) in
         if pte_at m second_page (vpn 1 va) = 0 then NULL
         else let third_page = table_of (pte_at m second_page (vpn 1 va)) in
           if pte_at m third_page (vpn 0 va) = 0 then NULL
           else push_bit 12 (get_pfn (pte_at m third_page (vpn 0 va))) OR page_offset va)"

definition get_kva_of :: "mem64 \<Rightarrow> u64 \<Rightarrow> u64 \<Rightarrow> u64" where
  "get_kva_of m va pgdir_va =
    (if va AND 0xffffffc000000000 \<noteq> 0 then va
     else let page_base = pgdir_va in
       if pte_at m page_base (vpn 2 va) = 0 then NULL
       else let second_page = table_of (pte_at m page_base (vpn 2 va)) in
         if pte_at m second_page (vpn 1 va) = 0 then NULL
         else let third_page = table_of (pte_at m second_page (vpn 1 va)) in
           if pte_at m third_page (vpn 0 va) = 0 then NULL
           else pa2kva (push_bit 12 (get_pfn (pte_at m third_page (vpn 0 va))) OR page_offset va))"

definition get_pfn_of :: "mem64 \<Rightarrow> u64 \<Rightarrow> u64 \<Rightarrow> u64" where
  "get_pfn_of m va pgdir_va =
    (let page_base = pgdir_va in
       if pte_at m page_base (vpn 2 va) = 0 then NULL
       else let second_page = table_of (pte_at m page_base (vpn 2 va)) in
         if pte_at m second_page (vpn 1 va) = 0 then NULL
         else let third_page = table_of (pte_at m second_page (vpn 1 va)) in
           if pte_at m third_page (vpn 0 va) = 0 then NULL
           else table_of (pte_at m third_page (vpn 0 va)))"

text \<open>The address of the leaf entry, or \<open>NULL\<close>.\<close>

definition get_PTE_of :: "mem64 \<Rightarrow> u64 \<Rightarrow> u64 \<Rightarrow> u64" where
  "get_PTE_of m va pgdir_va =
    (let page_base = pgdir_va in
       if pte_at m page_base (vpn 2 va) = 0 then NULL
       else let second_page = table_of (pte_at m page_base (vpn 2 va)) in
         if pte_at m second_page (vpn 1 va) = 0 then NULL
         else let third_page = table_of (pte_at m second_page (vpn 1 va)) in
           if pte_at m third_page (vpn 0 va) = 0 \<or> pte_at m third_page (vpn 0 va) AND PAGE_PRESENT = 0
           then NULL
           else third_page + 8 * vpn 0 va)"

text \<open>\<open>clear_page\<close> and \<open>clear_pgdir\<close>: 512 words from the page address on.\<close>

definition clear_pgdir :: "u64 \<Rightarrow> mem64 \<Rightarrow> mem64" where
  "clear_pgdir page_addr m = fold (\<lambda>i m. m(page_addr + 8 * of_nat i := 0)) [0..<512] m"

section \<open>Fields of an entry\<close>

lemma mask_64_10: "drop_bit 54 (- 1 :: u64) = mask 10" "drop_bit 10 (- 1 :: u64) = mask 54"
  by (intro bit_eqI; auto simp: bit_simps)+

text \<open>A PTE splits into page frame number and attribute bits, and setting the one keeps
  the other.\<close>

lemma get_pfn_set_pfn: "pfn AND mask 44 = pfn \<Longrightarrow> get_pfn (set_pfn e pfn) = pfn"
  unfolding get_pfn_def set_pfn_def mask_64_10 Let_def
  by (drule sym, erule ssubst, intro bit_eqI) (auto simp: bit_simps)

lemma get_attribute_set_pfn: "get_attribute (set_pfn e pfn) = get_attribute e"
  unfolding get_attribute_def set_pfn_def mask_64_10 Let_def
  by (intro bit_eqI) (auto simp: bit_simps)

lemma get_attribute_set_attribute: "bits AND mask 10 = bits \<Longrightarrow> get_attribute (set_attribute e bits) = bits"
  unfolding get_attribute_def set_attribute_def mask_64_10 Let_def
  by (drule sym, erule ssubst, intro bit_eqI) (auto simp: bit_simps)

lemma get_pfn_set_attribute: "bits AND mask 10 = bits \<Longrightarrow> get_pfn (set_attribute e bits) = get_pfn e"
  unfolding get_pfn_def set_attribute_def mask_64_10 Let_def
  by (drule sym, erule ssubst, intro bit_eqI) (auto simp: bit_simps)

lemma low_32: "0xffffffff = (mask 32 :: u64)"
  by (simp add: mask_eq_exp_minus_1)

lemma kva2pa_pa2kva: "pa AND mask 32 = pa \<Longrightarrow> kva2pa (pa2kva pa) = pa"
  unfolding kva2pa_def pa2kva_def Let_def low_32
  by (drule sym, erule ssubst, intro bit_eqI) (auto simp: bit_simps)

text \<open>The kernel window: the addresses \<^const>\<open>pa2kva\<close> yields.\<close>

definition in_window :: "u64 \<Rightarrow> bool" where
  "in_window k \<longleftrightarrow> pa2kva (kva2pa k) = k"

lemma in_window_pa2kva [simp]: "in_window (pa2kva pa)"
  unfolding in_window_def kva2pa_def pa2kva_def Let_def low_32
  by (intro bit_eqI) (auto simp: bit_simps)

lemma in_window_is_kva: "in_window k \<Longrightarrow> is_kva k"
  unfolding in_window_def is_kva_def pa2kva_def Let_def
  by (drule sym, erule ssubst, intro bit_eqI) (auto simp: bit_simps)

lemma pa2kva_nonzero [simp]: "pa2kva pa \<noteq> 0"
proof
  assume "pa2kva pa = 0"
  then have "\<not> bit (pa2kva pa) 63" by simp
  then show False by (simp add: pa2kva_def Let_def bit_simps)
qed

text \<open>\<open>do_scheduler\<close> compares \<open>get_pgdir()\<close>, a kernel virtual address, with a physical address:
  the two are never equal.\<close>

lemma get_pgdir_not_pa: "get_pgdir satp \<noteq> kva2pa pgdir"
proof
  assume "get_pgdir satp = kva2pa pgdir"
  then have "bit (get_pgdir satp) 63 = bit (kva2pa pgdir) 63" by (rule arg_cong)
  then show False by (simp add: get_pgdir_def pa2kva_def kva2pa_def Let_def bit_simps)
qed

section \<open>Pages and slots\<close>

definition page_aligned :: "u64 \<Rightarrow> bool" where
  "page_aligned a \<longleftrightarrow> a AND mask 12 = 0"

definition kpage :: "u64 \<Rightarrow> bool" where
  "kpage k \<longleftrightarrow> in_window k \<and> page_aligned k"

abbreviation slot :: "u64 \<Rightarrow> bool" where
  "slot i \<equiv> i AND mask 9 = i"

lemma slot_vpn [simp]: "vpn n va AND mask 9 = vpn n va"
  unfolding vpn_def by (intro bit_eqI) (auto simp: bit_simps)

lemma kpage_table_of [simp]: "kpage (table_of e)"
  unfolding kpage_def table_of_def page_aligned_def
  by (simp, unfold pa2kva_def Let_def low_32, intro bit_eqI) (auto simp: bit_simps)

lemma table_of_set:
  assumes "kpage k" and "flags AND mask 10 = flags"
  shows "table_of (set_attribute (set_pfn e (drop_bit 12 (kva2pa k))) flags) = k"
proof -
  have "drop_bit 12 (kva2pa k) AND mask 44 = drop_bit 12 (kva2pa k)"
    unfolding kva2pa_def Let_def by (intro bit_eqI) (auto simp: bit_simps)
  then have "table_of (set_attribute (set_pfn e (drop_bit 12 (kva2pa k))) flags)
      = pa2kva (push_bit 12 (drop_bit 12 (kva2pa k)))"
    by (simp add: table_of_def get_pfn_set_attribute [OF assms(2)] get_pfn_set_pfn)
  also have "push_bit 12 (drop_bit 12 (kva2pa k)) = kva2pa k"
  proof (rule bit_eqI)
    fix n
    have "\<not> bit (k AND mask 12) n"
      using assms(1) by (simp add: kpage_def page_aligned_def)
    then show "bit (push_bit 12 (drop_bit 12 (kva2pa k))) n = bit (kva2pa k) n"
      by (auto simp: bit_simps kva2pa_def Let_def)
  qed
  also have "pa2kva (kva2pa k) = k"
    using assms(1) by (simp add: kpage_def in_window_def)
  finally show ?thesis .
qed

lemma slot_addr:
  assumes "page_aligned b" and "slot i"
  shows "b + 8 * i = b OR push_bit 3 i"
proof -
  have "\<not> bit b n \<or> \<not> bit (push_bit 3 i) n" for n
  proof (cases "n < 12")
    case True
    have "\<not> bit (b AND mask 12) n"
      using assms(1) by (simp add: page_aligned_def)
    with True show ?thesis by (auto simp: bit_simps)
  next
    case False
    have "bit i (n - 3) \<Longrightarrow> bit (i AND mask 9) (n - 3)"
      using assms(2) by simp
    with False show ?thesis by (auto simp: bit_simps)
  qed
  then have "b + push_bit 3 i = b OR push_bit 3 i"
    by (simp add: disjunctive_add)
  then show ?thesis
    by (simp add: push_bit_eq_mult mult.commute)
qed

lemma slot_addr_page:
  assumes "page_aligned b" and "slot i"
  shows "(b + 8 * i) AND NOT (mask 12) = b" and "drop_bit 3 ((b + 8 * i) AND mask 12) = i"
proof -
  have b: "\<not> bit (b AND mask 12) n" and i: "bit (i AND mask 9) n = bit i n" for n
    using assms by (simp_all add: page_aligned_def)
  show "(b + 8 * i) AND NOT (mask 12) = b"
    unfolding slot_addr [OF assms]
  proof (rule bit_word_eqI)
    fix n :: nat
    assume "n < LENGTH(64)"
    then show "bit ((b OR push_bit 3 i) AND NOT (mask 12)) n = bit b n"
      using b [of n] i [of "n - 3"] by (auto simp: bit_simps)
  qed
  show "drop_bit 3 ((b + 8 * i) AND mask 12) = i"
    unfolding slot_addr [OF assms]
  proof (rule bit_word_eqI)
    fix n :: nat
    assume "n < LENGTH(64)"
    then show "bit (drop_bit 3 ((b OR push_bit 3 i) AND mask 12)) n = bit i n"
      using b [of "n + 3"] i [of n] by (auto simp: bit_simps add.commute)
  qed
qed

text \<open>Two slots of page-aligned tables coincide only if the tables and the indices do.\<close>

lemma slot_addr_inject:
  assumes "page_aligned b" "slot i" "page_aligned c" "slot j"
  shows "b + 8 * i = c + 8 * j \<longleftrightarrow> b = c \<and> i = j"
  using slot_addr_page [OF assms(1,2)] slot_addr_page [OF assms(3,4)] by metis

end
