(* ===== verification/Pcb.thy ===== *)
theory Pcb
  imports Klist PageTable
begin

text \<open>
  Process control blocks (\<open>include/os/sched.h\<close>) and the part of the kernel state the scheduler
  works on. The kernel state is a record that the later theories extend; the intrusive
  lists a PCB can be on are the queues of \<open>queues\<close>, indexed by the list head, with the
  operations of the functional store of \<open>Klist\<close>.
\<close>

section \<open>Data\<close>

datatype task_status = TASK_BLOCKED | TASK_RUNNING | TASK_READY | TASK_ZOMBIE | TASK_EXITED

datatype spawn_mode = ENTER_ZOMBIE_ON_EXIT | AUTO_CLEANUP_ON_EXIT

datatype task_type = KERNEL_PROCESS | KERNEL_THREAD | USER_PROCESS | USER_THREAD

abbreviation (input) NUM_MAX_TASK :: nat where "NUM_MAX_TASK \<equiv> 100"

text \<open>A pointer to a PCB: an element of the array \<open>pcb\<close> or one of the two idle PCBs.\<close>

datatype pcb_ref = PCB nat | pid0_pcb_master | pid0_pcb_slave

record regs_context =
  regs :: "nat \<Rightarrow> u64"
  sstatus :: u64
  sepc :: u64
  sbadaddr :: u64
  scause :: u64
  sscratch :: u64
  f_regs :: "nat \<Rightarrow> u64"
  core_id :: u64

record switchto_context =
  sw_regs :: "nat \<Rightarrow> u64"

record timeval =
  tv_sec :: u64
  tv_usec :: u64

record itimerval =
  it_interval :: timeval
  it_value :: timeval

record timer =
  set_itime :: itimerval
  add_tick :: i64
  last_send_tick :: i64
  value_valid :: i32

record ELF_info =
  text_begin :: u64
  phoff :: u64
  phent :: u64
  phnum :: u64
  entry :: u64
  elf_edata :: u64

record rlimit =
  rlim_cur :: u64
  rlim_max :: u64

text \<open>The members \<open>list\<close> and \<open>wait_list\<close> are in the queue store; a pointer into a static table
  (\<open>pfd\<close>, \<open>sigactions\<close>) is the index of the table's element.\<close>

record pcb =
  kernel_sp :: u64
  user_sp :: u64
  preempt_count :: u64
  pgdir :: u64
  is_handle_signal :: u64
  kernel_stack_top :: u64
  kernel_stack_base :: u64
  user_stack_top :: u64
  user_stack_base :: u64
  used :: u64
  pname :: "u8 list"
  save_context :: ptr
  switch_context :: ptr
  pid :: i32
  ppid :: i32
  tid :: i32
  clear_ctid :: ptr
  parent :: "pcb_ref option"
  parent_flag :: u32
  ptype :: task_type
  status :: task_status
  exit_status :: i32
  flag :: u32
  spawnmode :: spawn_mode
  end_time :: u64
  stime :: u64
  utime :: u64
  elf :: ELF_info
  pfd :: nat
  fd_limit :: rlimit
  cpu_mask :: u32
  ctx_pipe_array :: ptr
  priority :: u64
  edata :: u64
  pre_time :: u64
  pge_num :: u32
  exe_load :: ptr
  execve :: u32
  sigactions :: nat
  sig_recv :: u64
  sig_pend :: u64
  sig_mask :: u64
  prev_mask :: u64
  itimer :: timer

text \<open>The list heads on which a PCB can be linked by its member \<open>list\<close>: the ready queue, the
  free list of \<open>available_queue\<close>, and the lists of processes that wait for something.\<close>

datatype wait_queue =
    pcb_wait_list pcb_ref
  | available_wait_list
  | page_wait_list
  | timer_master
  | timer_slave
  | pipe_r_list nat
  | pipe_w_list nat
  | futex_block_queue nat
  | mutex_block_queue ptr
  | sleep_queue ptr

datatype queue_id = ready_queue | available_queue | WaitQ wait_queue

record kernel =
  pcb_tab :: "pcb_ref \<Rightarrow> pcb"
  queues :: "(queue_id, pcb_ref) qstore"
  current_running_master :: pcb_ref
  current_running_slave :: pcb_ref
  tp :: pcb_ref
  contexts :: "ptr \<Rightarrow> regs_context"
  switch_contexts :: "ptr \<Rightarrow> switchto_context"
  satp :: u64
  ticks :: u64
  process_id :: i32

section \<open>Access\<close>

definition upd_pcb :: "pcb_ref \<Rightarrow> (pcb \<Rightarrow> pcb) \<Rightarrow> 'a kernel_scheme \<Rightarrow> 'a kernel_scheme" where
  "upd_pcb r f s = s\<lparr>pcb_tab := (pcb_tab s)(r := f (pcb_tab s r))\<rparr>"

definition klist_add :: "pcb_ref \<Rightarrow> queue_id \<Rightarrow> 'a kernel_scheme \<Rightarrow> 'a kernel_scheme" where
  "klist_add r q s = s\<lparr>queues := q_add r q (queues s)\<rparr>"

definition klist_add_tail :: "pcb_ref \<Rightarrow> queue_id \<Rightarrow> 'a kernel_scheme \<Rightarrow> 'a kernel_scheme" where
  "klist_add_tail r q s = s\<lparr>queues := q_add_tail r q (queues s)\<rparr>"

definition klist_del :: "pcb_ref \<Rightarrow> 'a kernel_scheme \<Rightarrow> 'a kernel_scheme" where
  "klist_del r s = s\<lparr>queues := q_del r (queues s)\<rparr>"

definition klist_empty :: "queue_id \<Rightarrow> 'a kernel_scheme \<Rightarrow> bool" where
  "klist_empty q s \<longleftrightarrow> queues s q = []"

text \<open>\<open>list_entry(q.next, pcb_t, list)\<close> and \<open>q.prev\<close> of a queue that is not empty.\<close>

abbreviation klist_first :: "queue_id \<Rightarrow> 'a kernel_scheme \<Rightarrow> pcb_ref" where
  "klist_first q s \<equiv> hd (queues s q)"

abbreviation klist_last :: "queue_id \<Rightarrow> 'a kernel_scheme \<Rightarrow> pcb_ref" where
  "klist_last q s \<equiv> last (queues s q)"

text \<open>\<open>get_current_running\<close> (\<open>arch/riscv/kernel/smp.S\<close>) returns the thread pointer.\<close>

definition get_current_running :: "'a kernel_scheme \<Rightarrow> pcb_ref" where
  "get_current_running s = tp s"

abbreviation cur_pcb :: "'a kernel_scheme \<Rightarrow> pcb" where
  "cur_pcb s \<equiv> pcb_tab s (get_current_running s)"

definition get_current_cpu_id :: "'a kernel_scheme \<Rightarrow> u64" where
  "get_current_cpu_id s = core_id (contexts s (save_context (cur_pcb s)))"

definition get_ticks :: "'a kernel_scheme \<Rightarrow> u64" where
  "get_ticks s = ticks s"

lemma upd_pcb_simps [simp]:
  "pcb_tab (upd_pcb r f s) = (pcb_tab s)(r := f (pcb_tab s r))"
  "queues (upd_pcb r f s) = queues s"
  "current_running_master (upd_pcb r f s) = current_running_master s"
  "current_running_slave (upd_pcb r f s) = current_running_slave s"
  "tp (upd_pcb r f s) = tp s" "contexts (upd_pcb r f s) = contexts s"
  "switch_contexts (upd_pcb r f s) = switch_contexts s"
  "satp (upd_pcb r f s) = satp s" "ticks (upd_pcb r f s) = ticks s"
  "process_id (upd_pcb r f s) = process_id s"
  "kernel.more (upd_pcb r f s) = kernel.more s"
  by (simp_all add: upd_pcb_def)

lemma klist_simps [simp]:
  "pcb_tab (klist_add r q s) = pcb_tab s" "queues (klist_add r q s) = q_add r q (queues s)"
  "pcb_tab (klist_add_tail r q s) = pcb_tab s"
  "queues (klist_add_tail r q s) = q_add_tail r q (queues s)"
  "pcb_tab (klist_del r s) = pcb_tab s" "queues (klist_del r s) = q_del r (queues s)"
  "tp (klist_add r q s) = tp s" "tp (klist_add_tail r q s) = tp s" "tp (klist_del r s) = tp s"
  "current_running_master (klist_add r q s) = current_running_master s"
  "current_running_master (klist_add_tail r q s) = current_running_master s"
  "current_running_master (klist_del r s) = current_running_master s"
  "current_running_slave (klist_add r q s) = current_running_slave s"
  "current_running_slave (klist_add_tail r q s) = current_running_slave s"
  "current_running_slave (klist_del r s) = current_running_slave s"
  "contexts (klist_add r q s) = contexts s" "contexts (klist_add_tail r q s) = contexts s"
  "contexts (klist_del r s) = contexts s"
  "ticks (klist_add r q s) = ticks s" "ticks (klist_add_tail r q s) = ticks s"
  "ticks (klist_del r s) = ticks s"
  "kernel.more (klist_add r q s) = kernel.more s"
  "kernel.more (klist_add_tail r q s) = kernel.more s"
  "kernel.more (klist_del r s) = kernel.more s"
  by (simp_all add: klist_add_def klist_add_tail_def klist_del_def)

end
