(* ===== verification/Sched.thy ===== *)
theory Sched
  imports Pcb
begin

text \<open>
  The scheduler and its queues: the operations of \<open>kernel/sched/sched.c\<close> that move processes
  between the ready queue, the processor and the wait queues. The invariant says that a
  process is on at most one queue, and on the one its status calls for; \<open>do_scheduler\<close> is a
  first-in first-out round robin.
\<close>

section \<open>Operations\<close>

text \<open>The configured scheduler is \<open>NO_PRIORITY\<close>. \<open>get_higher_process\<close> scans from the tail of
  the queue; a score is an \<open>int\<close>. No process with a positive score leaves the result
  undefined (\<open>None\<close>).\<close>

definition get_score :: "u64 \<Rightarrow> pcb \<Rightarrow> i32" where
  "get_score t p = ucast (priority p * 4 + ((t - pre_time p) div 6000) * 1)"

fun higher_scan :: "('a kernel_scheme) \<Rightarrow> u64 \<Rightarrow> pcb_ref list \<Rightarrow> i32 \<Rightarrow> pcb_ref option \<Rightarrow> pcb_ref option" where
  "higher_scan s t [] score best = best"
| "higher_scan s t (r # rs) score best =
    (let g = get_score t (pcb_tab s r)
     in if sint g > sint score then higher_scan s t rs g (Some r) else higher_scan s t rs score best)"

definition get_higher_process :: "queue_id \<Rightarrow> u64 \<Rightarrow> 'a kernel_scheme \<Rightarrow> pcb_ref option" where
  "get_higher_process q t s = higher_scan s t (rev (queues s q)) 0 None"

definition set_current :: "u64 \<Rightarrow> pcb_ref \<Rightarrow> 'a kernel_scheme \<Rightarrow> 'a kernel_scheme" where
  "set_current cpu_id r s =
    (if cpu_id \<noteq> 0 then s\<lparr>current_running_slave := r\<rparr> else s\<lparr>current_running_master := r\<rparr>)"

text \<open>Loading the page table of the next process.\<close>

definition switch_pgdir :: "pcb_ref \<Rightarrow> 'a kernel_scheme \<Rightarrow> 'a kernel_scheme" where
  "switch_pgdir r s =
    (if get_pgdir (satp s) = kva2pa (pgdir (pcb_tab s r)) then s
     else s\<lparr>satp := get_satp SATP_MODE_SV39 (pid (pcb_tab s r)) (drop_bit 12 (kva2pa (pgdir (pcb_tab s r))))\<rparr>)"

text \<open>\<open>switch_to\<close> (\<open>arch/riscv/kernel/entry.S\<close>): the thread pointer becomes the next PCB.\<close>

definition switch_to :: "pcb_ref \<Rightarrow> pcb_ref \<Rightarrow> 'a kernel_scheme \<Rightarrow> 'a kernel_scheme" where
  "switch_to prev next s = (if prev = next then s else s\<lparr>tp := next\<rparr>)"

text \<open>The choice of the next process: the head of the ready queue, the idle PCB of the
  processor, or the process that runs.\<close>

definition pick_next :: "u64 \<Rightarrow> pcb_ref \<Rightarrow> 'a kernel_scheme \<Rightarrow> pcb_ref \<times> 'a kernel_scheme" where
  "pick_next cpu_id cur s =
    (if \<not> klist_empty ready_queue s then
       let next = klist_first ready_queue s
       in (next, set_current cpu_id next (klist_del next s))
     else if status (pcb_tab s cur) \<noteq> TASK_RUNNING then
       let next = (if cpu_id = 0 then pid0_pcb_master else pid0_pcb_slave)
       in (next, set_current cpu_id next s)
     else (cur, s))"

definition requeue :: "pcb_ref \<Rightarrow> 'a kernel_scheme \<Rightarrow> 'a kernel_scheme" where
  "requeue cur s =
    (if status (pcb_tab s cur) = TASK_RUNNING \<and> pid (pcb_tab s cur) \<noteq> 0
     then klist_add_tail cur ready_queue (upd_pcb cur (\<lambda>p. p\<lparr>status := TASK_READY\<rparr>) s)
     else s)"

definition copy_core_id :: "pcb_ref \<Rightarrow> pcb_ref \<Rightarrow> 'a kernel_scheme \<Rightarrow> 'a kernel_scheme" where
  "copy_core_id prev cur s =
    s\<lparr>contexts := (contexts s)(save_context (pcb_tab s cur) :=
        (contexts s (save_context (pcb_tab s cur)))
          \<lparr>core_id := core_id (contexts s (save_context (pcb_tab s prev)))\<rparr>)\<rparr>"

text \<open>A process whose \<open>execve\<close> flag is set does not return through \<open>switch_to\<close> but through
  \<open>ret_from_exception\<close>, which leaves the thread pointer as it is.\<close>

definition resume :: "pcb_ref \<Rightarrow> pcb_ref \<Rightarrow> 'a kernel_scheme \<Rightarrow> 'a kernel_scheme" where
  "resume prev cur s =
    (let s = copy_core_id prev cur (switch_pgdir cur s);
         s = upd_pcb cur (\<lambda>p. p\<lparr>status := TASK_RUNNING\<rparr>) s
     in if execve (pcb_tab s cur) \<noteq> 0
        then upd_pcb cur (\<lambda>p. p\<lparr>execve := 0\<rparr>) s
        else switch_to prev cur s)"

definition do_scheduler :: "'a kernel_scheme \<Rightarrow> 'a kernel_scheme" where
  "do_scheduler s =
    (let cpu_id = get_current_cpu_id s;
         prev_running = (if cpu_id = 0 then current_running_master s else current_running_slave s);
         s = requeue prev_running s;
         (cur, s) = pick_next cpu_id prev_running s
     in resume prev_running cur s)"

definition do_priori :: "u64 \<Rightarrow> nat \<Rightarrow> 'a kernel_scheme \<Rightarrow> 'a kernel_scheme" where
  "do_priori priori pcb_id s =
    (if pcb_id \<noteq> 0 then
       let now = get_ticks s;
           s = upd_pcb (PCB pcb_id) (\<lambda>p. p\<lparr>priority := priori, status := TASK_READY, pre_time := now\<rparr>) s
       in klist_add (PCB pcb_id) ready_queue s
     else s)"

text \<open>The part of \<open>do_block\<close> after its call of \<open>handle_signal\<close>.\<close>

definition block_on :: "pcb_ref \<Rightarrow> queue_id \<Rightarrow> 'a kernel_scheme \<Rightarrow> 'a kernel_scheme" where
  "block_on r q s =
    (let current_running = get_current_running s;
         s = klist_add r q s;
         s = upd_pcb current_running (\<lambda>p. p\<lparr>status := TASK_BLOCKED\<rparr>) s
     in do_scheduler s)"

definition do_unblock :: "pcb_ref \<Rightarrow> 'a kernel_scheme \<Rightarrow> 'a kernel_scheme" where
  "do_unblock r s =
    (let s = klist_del r s;
         s = upd_pcb r (\<lambda>p. p\<lparr>status := TASK_READY\<rparr>) s
     in klist_add r ready_queue s)"

lemma do_unblock_simps [simp]:
  "queues (do_unblock r s) = q_add r ready_queue (q_del r (queues s))"
  "pcb_tab (do_unblock r s) = (pcb_tab s)(r := (pcb_tab s r)\<lparr>status := TASK_READY\<rparr>)"
  "tp (do_unblock r s) = tp s"
  "current_running_master (do_unblock r s) = current_running_master s"
  "current_running_slave (do_unblock r s) = current_running_slave s"
  "contexts (do_unblock r s) = contexts s"
  "ticks (do_unblock r s) = ticks s"
  "kernel.more (do_unblock r s) = kernel.more s"
  by (simp_all add: do_unblock_def)

text \<open>The wake-up loop \<open>while (!list_empty(q)) do_unblock(q->next)\<close> of the sleep locks, the
  sleep lists and the pipes.\<close>

function wake_all :: "wait_queue \<Rightarrow> 'a kernel_scheme \<Rightarrow> 'a kernel_scheme" where
  "wake_all w s =
    (if klist_empty (WaitQ w) s then s
     else wake_all w (do_unblock (klist_first (WaitQ w) s) s))"
  by pat_completeness auto

termination wake_all
  by (relation "measure (\<lambda>(w, s). length (queues s (WaitQ w)))")
    (auto simp: klist_empty_def q_add_def q_del_def length_remove1 split: if_splits)

declare wake_all.simps [simp del]

section \<open>Invariant\<close>

lemma in_set_tlD: "x \<in> set (tl xs) \<Longrightarrow> x \<in> set xs"
  by (cases xs) auto

text \<open>\<open>running s\<close> is the process of the processor that executes, \<open>idle s\<close> its idle PCB,
  \<open>other s\<close> the process of the other processor.\<close>

definition running :: "'a kernel_scheme \<Rightarrow> pcb_ref" where
  "running s = (if get_current_cpu_id s = 0 then current_running_master s else current_running_slave s)"

definition other :: "'a kernel_scheme \<Rightarrow> pcb_ref" where
  "other s = (if get_current_cpu_id s = 0 then current_running_slave s else current_running_master s)"

definition idle :: "'a kernel_scheme \<Rightarrow> pcb_ref" where
  "idle s = (if get_current_cpu_id s = 0 then pid0_pcb_master else pid0_pcb_slave)"

text \<open>The ready queue \<open>do_scheduler\<close> chooses from, and its choice.\<close>

definition requeues :: "'a kernel_scheme \<Rightarrow> bool" where
  "requeues s \<longleftrightarrow> status (pcb_tab s (tp s)) = TASK_RUNNING \<and> pid (pcb_tab s (tp s)) \<noteq> 0"

definition candidates :: "'a kernel_scheme \<Rightarrow> pcb_ref list" where
  "candidates s = queues s ready_queue @ (if requeues s then [tp s] else [])"

definition next_running :: "'a kernel_scheme \<Rightarrow> pcb_ref" where
  "next_running s =
    (if candidates s \<noteq> [] then hd (candidates s)
     else if status (pcb_tab s (tp s)) = TASK_RUNNING then tp s else idle s)"

text \<open>Every process is on at most one queue, the ready ones on the ready queue, the blocked ones
  on wait queues; the idle PCBs and the process of the other processor are on none, and the
  running process is on none while its status is \<open>TASK_RUNNING\<close>. The \<open>execve\<close> flag is set at
  most for the running process, and then it is the one that will run next.\<close>

definition sched_wf :: "'a kernel_scheme \<Rightarrow> bool" where
  "sched_wf s \<longleftrightarrow> store_inv (queues s)
    \<and> (\<forall>p \<in> set (queues s ready_queue). status (pcb_tab s p) = TASK_READY)
    \<and> (\<forall>w. \<forall>p \<in> set (queues s (WaitQ w)). status (pcb_tab s p) = TASK_BLOCKED)
    \<and> (\<forall>p \<in> {pid0_pcb_master, pid0_pcb_slave}. \<not> queued p (queues s) \<and> pid (pcb_tab s p) = 0)
    \<and> tp s = running s \<and> other s \<noteq> tp s \<and> other s \<noteq> idle s \<and> \<not> queued (other s) (queues s)
    \<and> (status (pcb_tab s (tp s)) = TASK_RUNNING \<longrightarrow> \<not> queued (tp s) (queues s))
    \<and> (\<forall>p. execve (pcb_tab s p) \<noteq> 0 \<longrightarrow> p = tp s \<and> p = next_running s)"

definition sched_inv :: "'a kernel_scheme \<Rightarrow> bool" where
  "sched_inv s \<longleftrightarrow> sched_wf s \<and> status (pcb_tab s (tp s)) = TASK_RUNNING
    \<and> (\<forall>p. execve (pcb_tab s p) = 0)"

lemma sched_wfD:
  assumes "sched_wf s"
  shows "store_inv (queues s)"
    and "p \<in> set (queues s ready_queue) \<Longrightarrow> status (pcb_tab s p) = TASK_READY"
    and "p \<in> set (queues s (WaitQ w)) \<Longrightarrow> status (pcb_tab s p) = TASK_BLOCKED"
    and "\<not> queued pid0_pcb_master (queues s)" and "\<not> queued pid0_pcb_slave (queues s)"
    and "pid (pcb_tab s pid0_pcb_master) = 0" and "pid (pcb_tab s pid0_pcb_slave) = 0"
    and "tp s = running s" and "other s \<noteq> tp s" and "other s \<noteq> idle s"
    and "\<not> queued (other s) (queues s)"
    and "status (pcb_tab s (tp s)) = TASK_RUNNING \<Longrightarrow> \<not> queued (tp s) (queues s)"
    and "execve (pcb_tab s p) \<noteq> 0 \<Longrightarrow> p = tp s \<and> p = next_running s"
  using assms unfolding sched_wf_def by auto

lemma sched_wfI:
  assumes "store_inv (queues s)"
    and "\<And>p. p \<in> set (queues s ready_queue) \<Longrightarrow> status (pcb_tab s p) = TASK_READY"
    and "\<And>p w. p \<in> set (queues s (WaitQ w)) \<Longrightarrow> status (pcb_tab s p) = TASK_BLOCKED"
    and "\<not> queued pid0_pcb_master (queues s)" and "\<not> queued pid0_pcb_slave (queues s)"
    and "pid (pcb_tab s pid0_pcb_master) = 0" and "pid (pcb_tab s pid0_pcb_slave) = 0"
    and "tp s = running s" and "other s \<noteq> tp s" and "other s \<noteq> idle s"
    and "\<not> queued (other s) (queues s)"
    and "status (pcb_tab s (tp s)) = TASK_RUNNING \<Longrightarrow> \<not> queued (tp s) (queues s)"
    and "\<And>p. execve (pcb_tab s p) \<noteq> 0 \<Longrightarrow> p = tp s \<and> p = next_running s"
  shows "sched_wf s"
  using assms unfolding sched_wf_def by blast

text \<open>The state of the queues after the running process has been put back.\<close>

lemma requeue_store:
  assumes "sched_wf s"
  shows "store_inv ((queues s)(ready_queue := candidates s))"
proof (cases "requeues s")
  case True
  then have "store_inv (q_add_tail (tp s) ready_queue (queues s))"
    using sched_wfD(1,12) [OF assms] by (intro inv_intros) (auto simp: requeues_def)
  with True show ?thesis
    by (simp add: candidates_def q_add_tail_def)
next
  case False
  then show ?thesis
    using sched_wfD(1) [OF assms] by (simp add: candidates_def)
qed

lemma pick_store:
  assumes "sched_wf s" and "candidates s \<noteq> []"
  shows "q_del (hd (candidates s)) ((queues s)(ready_queue := candidates s))
    = (queues s)(ready_queue := tl (candidates s))"
proof -
  have "hd (candidates s) \<in> set (((queues s)(ready_queue := candidates s)) ready_queue)"
    using assms(2) by simp
  from q_del_eq [OF requeue_store [OF assms(1)] this] show ?thesis
    using assms(2) by (cases "candidates s") (simp_all del: fun_upd_apply add: fun_upd_same)
qed

lemma candidates_set:
  assumes wf: "sched_wf s" and p: "p \<in> set (candidates s)"
  shows "p \<noteq> other s" and "p \<noteq> pid0_pcb_master" and "p \<noteq> pid0_pcb_slave"
    and "p = tp s \<and> requeues s \<or> p \<in> set (queues s ready_queue)"
proof -
  show cases: "p = tp s \<and> requeues s \<or> p \<in> set (queues s ready_queue)"
    using p by (auto simp: candidates_def split: if_splits)
  show "p \<noteq> other s" and "p \<noteq> pid0_pcb_master" and "p \<noteq> pid0_pcb_slave"
    using cases sched_wfD(4-7,9,11) [OF wf] by (auto simp: queued_def requeues_def)
qed

lemma next_running_other:
  assumes "sched_wf s"
  shows "next_running s \<noteq> other s"
proof (cases "candidates s = []")
  case True
  then show ?thesis
    using sched_wfD(9,10) [OF assms] by (auto simp: next_running_def)
next
  case False
  then show ?thesis
    using candidates_set(1) [OF assms, of "hd (candidates s)"] by (simp add: next_running_def)
qed

text \<open>What the three phases do to the scheduling state.\<close>

lemma requeue_effect:
  "queues (requeue (tp s) s) = (queues s)(ready_queue := candidates s)"
  "pcb_tab (requeue (tp s) s) p =
    (if p = tp s \<and> requeues s then (pcb_tab s p)\<lparr>status := TASK_READY\<rparr> else pcb_tab s p)"
  "tp (requeue r s) = tp s" "contexts (requeue r s) = contexts s"
  "current_running_master (requeue r s) = current_running_master s"
  "current_running_slave (requeue r s) = current_running_slave s"
  "ticks (requeue r s) = ticks s" "kernel.more (requeue r s) = kernel.more s"
  by (auto simp: requeue_def requeues_def candidates_def q_add_tail_def)

lemma resume_effect:
  "queues (resume r n s) = queues s"
  "pcb_tab (resume r n s) p = (if p = n then (pcb_tab s p)\<lparr>status := TASK_RUNNING, execve := 0\<rparr> else pcb_tab s p)"
  "current_running_master (resume r n s) = current_running_master s"
  "current_running_slave (resume r n s) = current_running_slave s"
  "ticks (resume r n s) = ticks s" "kernel.more (resume r n s) = kernel.more s"
  "contexts (resume r n s) = contexts (copy_core_id r n s)"
  "tp (resume r n s) = (if execve (pcb_tab s n) = 0 \<and> n \<noteq> r then n else tp s)"
  by (auto simp: resume_def Let_def copy_core_id_def switch_pgdir_def switch_to_def)

lemma set_current_simps [simp]:
  "pcb_tab (set_current c r s) = pcb_tab s" "queues (set_current c r s) = queues s"
  "tp (set_current c r s) = tp s" "contexts (set_current c r s) = contexts s"
  "ticks (set_current c r s) = ticks s" "kernel.more (set_current c r s) = kernel.more s"
  by (simp_all add: set_current_def)

lemma pick_next_effect:
  assumes wf: "sched_wf s"
  shows "fst (pick_next (get_current_cpu_id s) (tp s) (requeue (tp s) s)) = next_running s"
    and "queues (snd (pick_next (get_current_cpu_id s) (tp s) (requeue (tp s) s)))
      = (queues s)(ready_queue := tl (candidates s))"
  using pick_store [OF wf]
  by (auto simp: pick_next_def Let_def klist_empty_def requeue_effect next_running_def idle_def
      candidates_def requeues_def split: if_splits)

lemma pick_next_frame:
  "pcb_tab (snd (pick_next c r s)) = pcb_tab s" "tp (snd (pick_next c r s)) = tp s"
  "contexts (snd (pick_next c r s)) = contexts s" "ticks (snd (pick_next c r s)) = ticks s"
  "kernel.more (snd (pick_next c r s)) = kernel.more s"
  by (auto simp: pick_next_def Let_def)

lemma pick_next_current:
  assumes "r = (if c = 0 then current_running_master s else current_running_slave s)"
  shows "c = 0 \<Longrightarrow> current_running_master (snd (pick_next c r s)) = fst (pick_next c r s)
      \<and> current_running_slave (snd (pick_next c r s)) = current_running_slave s"
    and "c \<noteq> 0 \<Longrightarrow> current_running_slave (snd (pick_next c r s)) = fst (pick_next c r s)
      \<and> current_running_master (snd (pick_next c r s)) = current_running_master s"
  using assms by (auto simp: pick_next_def Let_def set_current_def klist_del_def)

lemma do_scheduler_unfold:
  assumes "sched_wf s"
  shows "do_scheduler s = resume (tp s) (next_running s)
    (snd (pick_next (get_current_cpu_id s) (tp s) (requeue (tp s) s)))"
  using sched_wfD(8) [OF assms] pick_next_effect(1) [OF assms]
  by (simp add: do_scheduler_def running_def Let_def split_beta)

text \<open>The complete effect of \<open>do_scheduler\<close> on the scheduling state.\<close>

lemma do_scheduler_effect:
  assumes wf: "sched_wf s"
  shows "tp (do_scheduler s) = next_running s"
    and "queues (do_scheduler s) = (queues s)(ready_queue := tl (candidates s))"
    and "pcb_tab (do_scheduler s) p =
      (if p = next_running s then (pcb_tab s p)\<lparr>status := TASK_RUNNING, execve := 0\<rparr>
       else if p = tp s \<and> requeues s then (pcb_tab s p)\<lparr>status := TASK_READY\<rparr> else pcb_tab s p)"
    and "kernel.more (do_scheduler s) = kernel.more s"
    and "ticks (do_scheduler s) = ticks s"
    and "get_current_cpu_id (do_scheduler s) = get_current_cpu_id s"
proof -
  have tp: "tp (resume (tp s) (next_running s) s') = next_running s"
    if "tp s' = tp s" "\<And>p. execve (pcb_tab s' p) = execve (pcb_tab s p)" for s' :: "'a kernel_scheme"
    using that sched_wfD(13) [OF wf, of "next_running s"]
    by (cases "execve (pcb_tab s (next_running s)) = 0") (auto simp: resume_effect)
  show tp': "tp (do_scheduler s) = next_running s"
    unfolding do_scheduler_unfold [OF wf]
    by (rule tp) (auto simp: pick_next_frame requeue_effect)
  show "queues (do_scheduler s) = (queues s)(ready_queue := tl (candidates s))"
    unfolding do_scheduler_unfold [OF wf] by (simp add: resume_effect pick_next_effect [OF wf])
  show "pcb_tab (do_scheduler s) p =
      (if p = next_running s then (pcb_tab s p)\<lparr>status := TASK_RUNNING, execve := 0\<rparr>
       else if p = tp s \<and> requeues s then (pcb_tab s p)\<lparr>status := TASK_READY\<rparr> else pcb_tab s p)" for p
    unfolding do_scheduler_unfold [OF wf]
    by (simp add: resume_effect pick_next_frame requeue_effect)
  show "kernel.more (do_scheduler s) = kernel.more s" and "ticks (do_scheduler s) = ticks s"
    unfolding do_scheduler_unfold [OF wf]
    by (simp_all add: resume_effect pick_next_frame requeue_effect)
  have ctx: "save_context (pcb_tab (do_scheduler s) p) = save_context (pcb_tab s p)" for p
    unfolding do_scheduler_unfold [OF wf]
    by (simp add: resume_effect pick_next_frame requeue_effect)
  show "get_current_cpu_id (do_scheduler s) = get_current_cpu_id s"
    unfolding get_current_cpu_id_def get_current_running_def ctx tp'
    unfolding do_scheduler_unfold [OF wf]
    by (simp add: resume_effect copy_core_id_def pick_next_frame requeue_effect)
qed

lemma do_scheduler_current:
  assumes wf: "sched_wf s"
  shows "running (do_scheduler s) = next_running s" and "other (do_scheduler s) = other s"
    and "idle (do_scheduler s) = idle s"
proof -
  let ?c = "get_current_cpu_id s" and ?s = "requeue (tp s) s"
  have "tp s = (if ?c = 0 then current_running_master ?s else current_running_slave ?s)"
    using sched_wfD(8) [OF wf] by (simp add: running_def requeue_effect)
  note cur = pick_next_current [OF this]
  show "running (do_scheduler s) = next_running s" and "other (do_scheduler s) = other s"
    unfolding running_def other_def do_scheduler_effect(6) [OF wf]
    unfolding do_scheduler_unfold [OF wf]
    using cur pick_next_effect(1) [OF wf] by (auto simp: resume_effect requeue_effect)
  show "idle (do_scheduler s) = idle s"
    by (simp add: idle_def do_scheduler_effect(6) [OF wf])
qed

text \<open>The scheduler establishes the invariant.\<close>

lemma sched_inv_do_scheduler [inv_intros]:
  assumes wf: "sched_wf s"
  shows "sched_inv (do_scheduler s)"
proof -
  let ?n = "next_running s" and ?s = "do_scheduler s"
  note eff = do_scheduler_effect [OF wf] and cur = do_scheduler_current [OF wf]
  note D = sched_wfD [OF wf]
  have inv: "store_inv (queues ?s)"
    using store_inv_q_del [OF requeue_store [OF wf]] pick_store [OF wf] requeue_store [OF wf]
    by (cases "candidates s = []") (simp_all add: eff(2), metis)
  have nq: "\<not> queued ?n (queues ?s)"
  proof (cases "candidates s = []")
    case True
    then have "?n = tp s \<and> status (pcb_tab s (tp s)) = TASK_RUNNING \<or> ?n = idle s"
      by (simp add: next_running_def)
    with True D(4,5,12) show ?thesis
      by (auto simp: eff(2) queued_def idle_def split: if_splits)
  next
    case False
    then have "queues ?s = q_del ?n ((queues s)(ready_queue := candidates s))"
      using pick_store [OF wf] by (simp add: eff(2) next_running_def)
    then show ?thesis
      using requeue_store [OF wf] by simp
  qed
  have wait: "queues ?s (WaitQ w) = queues s (WaitQ w)" for w
    by (simp add: eff(2))
  have ready: "status (pcb_tab ?s p) = TASK_READY" if p: "p \<in> set (queues ?s ready_queue)" for p
  proof -
    have "p \<in> set (candidates s)"
      using p by (auto simp: eff(2) intro: in_set_tlD)
    moreover have "p \<noteq> ?n"
      using p nq unfolding queued_def by blast
    ultimately show ?thesis
      using candidates_set(4) [OF wf] D(2) by (auto simp: eff(3))
  qed
  have blocked: "status (pcb_tab ?s p) = TASK_BLOCKED" if p: "p \<in> set (queues s (WaitQ w))" for p w
  proof -
    have "p \<noteq> ?n"
      using p nq unfolding queued_def wait [symmetric] by blast
    moreover have "\<not> (p = tp s \<and> requeues s)"
      using D(3) [OF p] by (auto simp: requeues_def)
    ultimately show ?thesis
      using D(3) [OF p] by (simp add: eff(3))
  qed
  have q: "\<not> queued p (queues ?s)" if "\<not> queued p (queues s)" "p \<notin> set (candidates s)" for p
    using that by (auto simp: eff(2) queued_def split: if_splits dest: in_set_tlD)
  have ex: "execve (pcb_tab ?s p) = 0" for p
    using D(13) [of p] by (auto simp: eff(3))
  have pids: "pid (pcb_tab ?s p) = pid (pcb_tab s p)" for p
    by (simp add: eff(3))
  have "sched_wf ?s"
  proof (rule sched_wfI)
    show "\<not> queued pid0_pcb_master (queues ?s)" "\<not> queued pid0_pcb_slave (queues ?s)"
      "\<not> queued (other ?s) (queues ?s)"
      using q D(4,5,11) candidates_set(1-3) [OF wf] unfolding cur by blast+
    show "\<not> queued (tp ?s) (queues ?s)"
      using nq by (simp add: eff(1))
    show "other ?s \<noteq> tp ?s"
      using next_running_other [OF wf] by (simp add: cur eff(1))
  qed (use inv ready blocked wait ex pids D(6,7,10) in \<open>simp_all add: cur eff(1)\<close>)
  then show ?thesis
    by (simp add: sched_inv_def ex) (simp add: eff)
qed

text \<open>Blocking the running process on a wait queue, and waking a waiting process.\<close>

lemma sched_invD:
  assumes "sched_inv s"
  shows "sched_wf s" and "status (pcb_tab s (tp s)) = TASK_RUNNING"
    and "execve (pcb_tab s p) = 0" and "\<not> queued (tp s) (queues s)"
  using assms sched_wfD(12) [of s] by (auto simp: sched_inv_def)

lemma cpu_frame [simp]:
  "(\<And>p. save_context (f p) = save_context p) \<Longrightarrow> get_current_cpu_id (upd_pcb r f s) = get_current_cpu_id s"
  "get_current_cpu_id (klist_add r q s) = get_current_cpu_id s"
  "get_current_cpu_id (klist_add_tail r q s) = get_current_cpu_id s"
  "get_current_cpu_id (klist_del r s) = get_current_cpu_id s"
  "get_current_cpu_id (do_unblock r s) = get_current_cpu_id s"
  by (auto simp: get_current_cpu_id_def get_current_running_def)

lemma current_frame:
  assumes "get_current_cpu_id s' = get_current_cpu_id s"
    and "current_running_master s' = current_running_master s"
    and "current_running_slave s' = current_running_slave s"
  shows "running s' = running s" and "other s' = other s" and "idle s' = idle s"
  using assms by (simp_all add: running_def other_def idle_def)

lemmas current_frames [simp] =
  current_frame [of "upd_pcb r f s" s for r f s] current_frame [of "klist_add r q s" s for r q s]
  current_frame [of "klist_add_tail r q s" s for r q s] current_frame [of "klist_del r s" s for r s]
  current_frame [of "do_unblock r s" s for r s]

lemma block_wf:
  assumes inv: "sched_inv s" and idle: "tp s \<notin> {pid0_pcb_master, pid0_pcb_slave}"
  shows "sched_wf (upd_pcb (tp s) (\<lambda>p. p\<lparr>status := TASK_BLOCKED\<rparr>) (klist_add (tp s) (WaitQ w) s))"
    (is "sched_wf ?s")
proof -
  note D = sched_wfD [OF sched_invD(1) [OF inv]] and nq = sched_invD(4) [OF inv]
  have inv': "store_inv (q_add (tp s) (WaitQ w) (queues s))"
    using D(1) nq by (intro inv_intros)
  have tp: "tp s \<notin> set (queues s q)" for q
    using nq by (auto simp: queued_def)
  show ?thesis
    using D(1-11) inv' tp idle sched_invD(3) [OF inv]
    by (intro sched_wfI) (auto simp: q_add_def queued_def split: if_splits)
qed

lemma sched_inv_block_on [inv_intros]:
  assumes "sched_inv s" and "tp s \<notin> {pid0_pcb_master, pid0_pcb_slave}"
  shows "sched_inv (block_on (tp s) (WaitQ w) s)"
  using sched_inv_do_scheduler [OF block_wf [OF assms]]
  by (simp add: block_on_def get_current_running_def)

lemma sched_inv_do_unblock [inv_intros]:
  assumes inv: "sched_inv s" and p: "p \<in> set (queues s (WaitQ w))"
  shows "sched_inv (do_unblock p s)"
proof -
  note D = sched_wfD [OF sched_invD(1) [OF inv]] and nq = sched_invD(4) [OF inv]
  have qp: "queued p (queues s)"
    using p by (auto simp: queued_def)
  then have ne: "p \<noteq> tp s" "p \<noteq> other s" "p \<noteq> pid0_pcb_master" "p \<noteq> pid0_pcb_slave"
    using nq D(4,5,11) by auto
  have inv': "store_inv (q_add p ready_queue (q_del p (queues s)))"
    using D(1) by (intro inv_intros) simp_all
  have sets: "set (q_add p ready_queue (q_del p (queues s)) q)
      = (if q = ready_queue then insert p (set (queues s q) - {p}) else set (queues s q) - {p})" for q
    by (simp add: q_add_def set_q_del D(1))
  have "sched_wf (do_unblock p s)"
  proof (rule sched_wfI)
    show "status (pcb_tab (do_unblock p s) r) = TASK_READY"
      if "r \<in> set (queues (do_unblock p s) ready_queue)" for r
      using that D(2) by (auto simp: sets)
    show "status (pcb_tab (do_unblock p s) r) = TASK_BLOCKED"
      if "r \<in> set (queues (do_unblock p s) (WaitQ v))" for r v
      using that D(3) by (auto simp: sets)
  qed (use inv' ne nq D(1,4-11) sched_invD(3) [OF inv] in \<open>auto split: if_splits\<close>)
  then show ?thesis
    using ne sched_invD(2,3) [OF inv] by (auto simp: sched_inv_def)
qed

text \<open>The wake-up loop is the draining loop of the queue contract.\<close>

lemma wake_all_drain:
  "length (queues s (WaitQ w)) \<le> n \<Longrightarrow>
    drain n (q_empty (WaitQ w)) (\<lambda>S. hd (S (WaitQ w))) (\<lambda>p S. q_add p ready_queue (q_del p S)) (queues s)
      = Some (queues (wake_all w s))"
proof (induction n arbitrary: s)
  case 0
  then show ?case
    by (simp add: wake_all.simps [of w s] klist_empty_def q_empty_def)
next
  case (Suc n)
  show ?case
  proof (cases "queues s (WaitQ w) = []")
    case True
    then show ?thesis
      by (simp add: wake_all.simps [of w s] klist_empty_def q_empty_def)
  next
    case False
    let ?s = "do_unblock (klist_first (WaitQ w) s) s"
    have "length (queues ?s (WaitQ w)) \<le> n"
      using False Suc.prems by (simp add: q_add_def q_del_def length_remove1)
    from Suc.IH [OF this] False show ?thesis
      by (simp add: wake_all.simps [of w s] klist_empty_def q_empty_def)
  qed
qed

lemma wake_all_queues:
  assumes "store_inv (queues s)"
  shows "queues (wake_all w s) =
    (queues s)(WaitQ w := [], ready_queue := rev (queues s (WaitQ w)) @ queues s ready_queue)"
proof -
  have "store_rep (queues s) (\<lambda>q. Some (queues s q))"
    using assms by (simp add: store_rep_def)
  from store.drain_all [OF this, of "WaitQ w" _ ready_queue, OF refl refl _ order_refl]
  obtain S where "drain (length (queues s (WaitQ w))) (q_empty (WaitQ w)) (\<lambda>S. hd (S (WaitQ w)))
      (\<lambda>p S. q_add p ready_queue (q_del p S)) (queues s) = Some S"
    and "store_rep S ((\<lambda>q. Some (queues s q))(WaitQ w \<mapsto> [],
      ready_queue \<mapsto> rev (queues s (WaitQ w)) @ queues s ready_queue))"
    by auto
  then have "(\<lambda>q. Some (queues (wake_all w s) q)) = (\<lambda>q. Some (queues s q))(WaitQ w \<mapsto> [],
      ready_queue \<mapsto> rev (queues s (WaitQ w)) @ queues s ready_queue)"
    using wake_all_drain [of s w, OF order_refl] by (simp add: store_rep_def)
  then show ?thesis
    by (auto simp: fun_eq_iff split: if_splits)
qed

lemma sched_inv_wake_all [inv_intros]:
  "sched_inv s \<Longrightarrow> sched_inv (wake_all w s)"
proof (induction w s rule: wake_all.induct)
  case (1 w s)
  show ?case
  proof (cases "klist_empty (WaitQ w) s")
    case False
    then have "klist_first (WaitQ w) s \<in> set (queues s (WaitQ w))"
      by (simp add: klist_empty_def)
    from 1(1) [OF False sched_inv_do_unblock [OF 1(2) this]] False show ?thesis
      by (simp add: wake_all.simps [of w s])
  qed (use 1 in \<open>simp add: wake_all.simps [of w s]\<close>)
qed

lemma wake_all_frame:
  "tp (wake_all w s) = tp s" "kernel.more (wake_all w s) = kernel.more s"
  "ticks (wake_all w s) = ticks s" "get_current_cpu_id (wake_all w s) = get_current_cpu_id s"
  "pcb_tab (wake_all w s) r\<lparr>status := st\<rparr> = pcb_tab s r\<lparr>status := st\<rparr>"
  by (induction w s rule: wake_all.induct;
      subst wake_all.simps; auto simp: get_current_cpu_id_def get_current_running_def)+

text \<open>The invariant depends on the scheduling state only, not on what other components add to
  the kernel state.\<close>

lemma sched_inv_cong:
  fixes s :: "'a kernel_scheme" and t :: "'b kernel_scheme"
  assumes "pcb_tab t = pcb_tab s" and "queues t = queues s" and "tp t = tp s"
    and "current_running_master t = current_running_master s"
    and "current_running_slave t = current_running_slave s" and "contexts t = contexts s"
  shows "sched_inv t \<longleftrightarrow> sched_inv s"
proof -
  have "get_current_cpu_id t = get_current_cpu_id s"
    using assms by (simp add: get_current_cpu_id_def get_current_running_def)
  then have "running t = running s" "other t = other s" "idle t = idle s"
    using assms by (simp_all add: running_def other_def idle_def)
  then show ?thesis
    using assms by (simp add: sched_inv_def sched_wf_def next_running_def candidates_def requeues_def)
qed

section \<open>Runs of the scheduler\<close>

text \<open>The processes the scheduler is responsible for: running, ready or waiting.\<close>

definition tasks :: "'a kernel_scheme \<Rightarrow> pcb_ref set" where
  "tasks s = {p. (\<exists>q. q \<noteq> available_queue \<and> p \<in> set (queues s q)) \<or> p = tp s}
    - {pid0_pcb_master, pid0_pcb_slave}"

definition pids_ok :: "'a kernel_scheme \<Rightarrow> bool" where
  "pids_ok s \<longleftrightarrow> (\<forall>p \<in> tasks s. pid (pcb_tab s p) \<noteq> 0)"

text \<open>One scheduling event: the time slice ends or the processor is given up, the running
  process blocks, a waiting process is woken, or all processes of a queue are.\<close>

inductive sched_step :: "'a kernel_scheme \<Rightarrow> 'a kernel_scheme \<Rightarrow> bool" where
  preempt: "sched_step s (do_scheduler s)"
| block: "tp s \<notin> {pid0_pcb_master, pid0_pcb_slave} \<Longrightarrow> sched_step s (block_on (tp s) (WaitQ w) s)"
| wake: "p \<in> set (queues s (WaitQ w)) \<Longrightarrow> sched_step s (do_unblock p s)"
| wake_everyone: "sched_step s (wake_all w s)"

inductive_cases sched_stepE: "sched_step s t"

lemma tasks_iff:
  "p \<in> tasks s \<longleftrightarrow> (p \<in> set (queues s ready_queue) \<or> (\<exists>w. p \<in> set (queues s (WaitQ w))) \<or> p = tp s)
    \<and> p \<notin> {pid0_pcb_master, pid0_pcb_slave}"
proof -
  have "(\<exists>q. q \<noteq> available_queue \<and> p \<in> set (queues s q))
      \<longleftrightarrow> p \<in> set (queues s ready_queue) \<or> (\<exists>w. p \<in> set (queues s (WaitQ w)))"
    by (metis queue_id.distinct(1,5) queue_id.exhaust)
  then show ?thesis
    unfolding tasks_def by blast
qed

lemma tasks_do_scheduler:
  assumes wf: "sched_wf s"
    and tp: "requeues s \<or> (\<exists>w. tp s \<in> set (queues s (WaitQ w))) \<or> tp s \<in> {pid0_pcb_master, pid0_pcb_slave}"
  shows "tasks (do_scheduler s) = tasks s"
proof -
  note eff = do_scheduler_effect [OF wf]
  have nb: "status (pcb_tab s (tp s)) = TASK_RUNNING \<Longrightarrow> tp s \<notin> set (queues s (WaitQ w))" for w
    using sched_wfD(3) [OF wf, of "tp s" w] by auto
  have new: "p \<in> set (tl (candidates s)) \<or> p = next_running s \<or> p \<in> {pid0_pcb_master, pid0_pcb_slave}
    \<longleftrightarrow> p \<in> set (queues s ready_queue) \<or> (requeues s \<and> p = tp s) \<or> p \<in> {pid0_pcb_master, pid0_pcb_slave}" for p
  proof (cases "candidates s")
    case Nil
    then show ?thesis
      using tp nb by (auto simp: next_running_def candidates_def idle_def split: if_splits)
  next
    case (Cons c cs)
    have "p \<in> set (candidates s) \<longleftrightarrow> p \<in> set (queues s ready_queue) \<or> (requeues s \<and> p = tp s)"
      by (auto simp: candidates_def)
    then show ?thesis
      by (simp add: next_running_def Cons) blast
  qed
  have "p \<in> tasks (do_scheduler s) \<longleftrightarrow> p \<in> tasks s" for p
    using new [of p] tp unfolding tasks_iff by (auto simp: eff(1,2))
  then show ?thesis by blast
qed

lemma tasks_do_unblock:
  assumes "store_inv (queues s)" and "p \<in> set (queues s (WaitQ w))"
  shows "tasks (do_unblock p s) = tasks s"
proof -
  have sets: "set (queues (do_unblock p s) q)
      = (if q = ready_queue then insert p (set (queues s q) - {p}) else set (queues s q) - {p})" for q
    by (simp add: q_add_def set_q_del assms(1))
  have "r \<in> tasks (do_unblock p s) \<longleftrightarrow> r \<in> tasks s" for r
    using assms(2) unfolding tasks_iff sets by (cases "r = p") auto
  then show ?thesis by blast
qed

lemma tasks_wake_all:
  assumes "store_inv (queues s)"
  shows "tasks (wake_all w s) = tasks s"
proof -
  have ready: "queues (wake_all w s) ready_queue = rev (queues s (WaitQ w)) @ queues s ready_queue"
    and wait: "\<And>v. queues (wake_all w s) (WaitQ v) = (if v = w then [] else queues s (WaitQ v))"
    by (simp_all add: wake_all_queues [OF assms])
  have "r \<in> tasks (wake_all w s) \<longleftrightarrow> r \<in> tasks s" for r
    unfolding tasks_iff ready wait wake_all_frame(1) by (auto split: if_splits)
  then show ?thesis by blast
qed

lemma pid_frame [simp]:
  "pid (pcb_tab (wake_all w s) p) = pid (pcb_tab s p)"
  using arg_cong [OF wake_all_frame(5) [where w = w and s = s and r = p], of pid] by simp

lemma sched_step_inv:
  assumes step: "sched_step s t" and inv: "sched_inv s" and pids: "pids_ok s"
  shows "sched_inv t \<and> tasks t = tasks s \<and> pids_ok t"
proof -
  note wf = sched_invD(1) [OF inv]
  from step have "sched_inv t \<and> tasks t = tasks s \<and> (\<forall>p. pid (pcb_tab t p) = pid (pcb_tab s p))"
  proof cases
    case preempt
    have "requeues s \<or> tp s \<in> {pid0_pcb_master, pid0_pcb_slave}"
      using pids sched_invD(2) [OF inv] by (auto simp: requeues_def pids_ok_def tasks_def)
    then show ?thesis
      using tasks_do_scheduler [OF wf] sched_inv_do_scheduler [OF wf]
      by (auto simp: preempt do_scheduler_effect(3) [OF wf])
  next
    case (block w)
    let ?s = "upd_pcb (tp s) (\<lambda>p. p\<lparr>status := TASK_BLOCKED\<rparr>) (klist_add (tp s) (WaitQ w) s)"
    have t: "t = do_scheduler ?s" and wf': "sched_wf ?s"
      using block block_wf [OF inv] by (simp_all add: block_on_def get_current_running_def)
    have "tp ?s \<in> set (queues ?s (WaitQ w))"
      by (simp add: q_add_def)
    then have "tasks (do_scheduler ?s) = tasks ?s"
      by (intro tasks_do_scheduler [OF wf']) blast
    also have "tasks ?s = tasks s"
      by (rule set_eqI) (auto simp: tasks_iff q_add_def split: if_splits)
    finally show ?thesis
      using sched_inv_do_scheduler [OF wf'] by (auto simp: t do_scheduler_effect(3) [OF wf'])
  next
    case (wake p w)
    then show ?thesis
      using sched_inv_do_unblock [OF inv] tasks_do_unblock [OF sched_wfD(1) [OF wf]] by auto
  next
    case (wake_everyone w)
    then show ?thesis
      using sched_inv_wake_all [OF inv] tasks_wake_all [OF sched_wfD(1) [OF wf]] by auto
  qed
  then show ?thesis
    using pids by (auto simp: pids_ok_def)
qed

text \<open>A kernel with three processes, for the witnesses: \<open>PCB 1\<close> runs on processor 0, \<open>PCB 2\<close>
  is ready, \<open>PCB 3\<close> waits for a page.\<close>

definition demo_pcb :: "task_status \<Rightarrow> i32 \<Rightarrow> ptr \<Rightarrow> pcb" where
  "demo_pcb st n ctx = \<lparr>kernel_sp = 0, user_sp = 0, preempt_count = 0, pgdir = 0, is_handle_signal = 0,
    kernel_stack_top = 0, kernel_stack_base = 0, user_stack_top = 0, user_stack_base = 0, used = 1,
    pname = [], save_context = ctx, switch_context = ctx, pid = n, ppid = 0, tid = n, clear_ctid = 0,
    parent = None, parent_flag = 0, ptype = USER_PROCESS, status = st, exit_status = 0, flag = 0,
    spawnmode = AUTO_CLEANUP_ON_EXIT, end_time = 0, stime = 0, utime = 0,
    elf = \<lparr>text_begin = 0, phoff = 0, phent = 0, phnum = 0, entry = 0, elf_edata = 0\<rparr>,
    pfd = 0, fd_limit = \<lparr>rlim_cur = 110, rlim_max = 110\<rparr>, cpu_mask = 3, ctx_pipe_array = 0,
    priority = 3, edata = 0, pre_time = 0, pge_num = 0, exe_load = 0, execve = 0, sigactions = 0,
    sig_recv = 0, sig_pend = 0, sig_mask = 0, prev_mask = 0,
    itimer = \<lparr>set_itime = \<lparr>it_interval = \<lparr>tv_sec = 0, tv_usec = 0\<rparr>,
      it_value = \<lparr>tv_sec = 0, tv_usec = 0\<rparr>\<rparr>, add_tick = 0, last_send_tick = 0, value_valid = 0\<rparr>\<rparr>"

definition demo_tab :: "pcb_ref \<Rightarrow> pcb" where
  "demo_tab p = (case p of
      PCB n \<Rightarrow> demo_pcb (if n = 1 then TASK_RUNNING else if n = 2 then TASK_READY else TASK_BLOCKED)
        (of_nat n) (of_nat n)
    | pid0_pcb_master \<Rightarrow> demo_pcb TASK_READY 0 0
    | pid0_pcb_slave \<Rightarrow> demo_pcb TASK_READY 0 0)"

definition demo_queues :: "(queue_id, pcb_ref) qstore" where
  "demo_queues q = (if q = ready_queue then [PCB 2] else if q = WaitQ page_wait_list then [PCB 3] else [])"

definition demo_context :: regs_context where
  "demo_context = \<lparr>regs = (\<lambda>_. 0), sstatus = 0, sepc = 0, sbadaddr = 0, scause = 0, sscratch = 0,
    f_regs = (\<lambda>_. 0), core_id = 0\<rparr>"

definition demo_kernel :: kernel where
  "demo_kernel = \<lparr>pcb_tab = demo_tab, queues = demo_queues, current_running_master = PCB 1,
    current_running_slave = pid0_pcb_slave, tp = PCB 1, contexts = (\<lambda>_. demo_context),
    switch_contexts = (\<lambda>_. \<lparr>sw_regs = (\<lambda>_. 0)\<rparr>), satp = 0, ticks = 0, process_id = 4\<rparr>"

lemmas demo_simps = demo_kernel_def demo_tab_def demo_pcb_def demo_queues_def demo_context_def

lemma demo_inv: "sched_inv demo_kernel" "pids_ok demo_kernel"
proof -
  have "store_inv demo_queues"
    by (rule store_invI) (auto simp: demo_queues_def split: if_splits)
  then have "sched_wf demo_kernel"
    by (intro sched_wfI)
      (auto simp: demo_simps queued_def running_def other_def idle_def get_current_cpu_id_def
        get_current_running_def split: if_splits pcb_ref.splits)
  then show "sched_inv demo_kernel"
    by (auto simp: sched_inv_def demo_simps split: pcb_ref.splits)
  show "pids_ok demo_kernel"
    by (auto simp: pids_ok_def tasks_iff demo_simps split: if_splits)
qed

section \<open>Properties\<close>

text \<open>C2: Whatever the order of time slices, blocking calls and wake-ups, every process stays on at
  most one queue and on the one its status calls for, exactly the thread pointer's process
  runs on the processor, and no process is lost or duplicated: the set of running, ready and
  waiting processes is the same after any run.\<close>

theorem sched_runs_safe:
  assumes "sched_step\<^sup>*\<^sup>* s t" and "sched_inv s" and "pids_ok s"
  shows "sched_inv t \<and> tasks t = tasks s"
proof -
  from assms(1) have "sched_inv t \<and> tasks t = tasks s \<and> pids_ok t"
  proof (induction rule: rtranclp_induct)
    case base
    show ?case using assms(2,3) by simp
  next
    case (step y z)
    then show ?case using sched_step_inv [of y z] by auto
  qed
  then show ?thesis by simp
qed

theorem sched_runs_safe_witness:
  "sched_inv (do_scheduler (do_unblock (PCB 3) (block_on (PCB 1) (WaitQ (pipe_r_list 0)) demo_kernel)))
    \<and> tasks (do_scheduler (do_unblock (PCB 3) (block_on (PCB 1) (WaitQ (pipe_r_list 0)) demo_kernel)))
      = tasks demo_kernel"
proof -
  let ?s1 = "block_on (PCB 1) (WaitQ (pipe_r_list 0)) demo_kernel" and ?w = "WaitQ page_wait_list"
  have tp: "tp demo_kernel = PCB 1"
    by (simp add: demo_kernel_def)
  have s1: "sched_step demo_kernel ?s1"
    using sched_step.block [of demo_kernel "pipe_r_list 0"] by (simp add: tp)
  have "queues ?s1 ?w = [PCB 3]"
    using do_scheduler_effect(2) [OF block_wf [OF demo_inv(1)], of "pipe_r_list 0"]
    by (simp add: block_on_def get_current_running_def tp q_add_def) (simp add: demo_simps)
  then have s2: "sched_step ?s1 (do_unblock (PCB 3) ?s1)"
    by (intro wake [of _ _ page_wait_list]) simp
  have "sched_step\<^sup>*\<^sup>* demo_kernel (do_scheduler (do_unblock (PCB 3) ?s1))"
    using s1 s2 preempt by (meson r_into_rtranclp rtranclp.rtrancl_into_rtrancl)
  then show ?thesis
    by (rule sched_runs_safe) (rule demo_inv)+
qed

text \<open>C14: \<open>do_scheduler\<close> is a first-in first-out round robin: the process at position \<open>i\<close> of the ready
  queue gets the processor after exactly \<open>i + 1\<close> time slices, if nobody is woken meanwhile.\<close>

theorem do_scheduler_round_robin:
  assumes "sched_inv s" and "pids_ok s" and "i < length (queues s ready_queue)"
  shows "tp ((do_scheduler ^^ Suc i) s) = queues s ready_queue ! i"
  using assms
proof (induction i arbitrary: s)
  case 0
  then show ?case
    using do_scheduler_effect(1) [OF sched_invD(1) [OF 0(1)]]
    by (auto simp: next_running_def candidates_def hd_append hd_conv_nth)
next
  case (Suc i)
  note wf = sched_invD(1) [OF Suc.prems(1)]
  have step: "sched_inv (do_scheduler s)" "pids_ok (do_scheduler s)"
    using sched_step_inv [OF preempt Suc.prems(1,2)] by simp_all
  obtain c cs where ready: "queues s ready_queue = c # cs" "i < length cs"
    using Suc.prems(3) by (cases "queues s ready_queue") auto
  have "queues (do_scheduler s) ready_queue = cs @ (if requeues s then [tp s] else [])"
    by (simp add: do_scheduler_effect(2) [OF wf] candidates_def ready)
  with Suc.IH [OF step] ready show ?case
    by (simp add: funpow_swap1 nth_append)
qed

theorem do_scheduler_round_robin_witness: "tp (do_scheduler demo_kernel) = PCB 2"
  using do_scheduler_round_robin [OF demo_inv, of 0] by (simp add: demo_simps)

text \<open>A process that blocks on a wait queue gives up the processor and is found on that queue;
  once it is woken, it is the first of the ready queue and the next call of
  \<open>do_scheduler\<close> runs it.\<close>

theorem block_then_wake:
  assumes "sched_inv s" and "tp s \<notin> {pid0_pcb_master, pid0_pcb_slave}"
  shows "tp (block_on (tp s) (WaitQ w) s) \<noteq> tp s
    \<and> tp s \<in> set (queues (block_on (tp s) (WaitQ w) s) (WaitQ w))
    \<and> tp (do_scheduler (do_unblock (tp s) (block_on (tp s) (WaitQ w) s))) = tp s"
proof -
  let ?s = "upd_pcb (tp s) (\<lambda>p. p\<lparr>status := TASK_BLOCKED\<rparr>) (klist_add (tp s) (WaitQ w) s)"
  let ?b = "block_on (tp s) (WaitQ w) s"
  note wf = block_wf [OF assms, of w]
  have b: "?b = do_scheduler ?s"
    by (simp add: block_on_def get_current_running_def)
  have q: "tp s \<in> set (queues ?b (WaitQ w))"
    by (simp add: b do_scheduler_effect(2) [OF wf] q_add_def)
  have inv: "sched_inv ?b"
    by (rule sched_inv_block_on [OF assms])
  have "tp ?b \<noteq> tp s"
    using sched_invD(4) [OF inv] q by (auto simp: queued_def)
  moreover have "tp (do_scheduler (do_unblock (tp s) ?b)) = tp s"
    using do_scheduler_effect(1) [OF sched_invD(1) [OF sched_inv_do_unblock [OF inv q]]]
    by (simp add: next_running_def candidates_def q_add_def)
  ultimately show ?thesis
    using q by simp
qed

theorem block_then_wake_witness:
  "tp (block_on (PCB 1) (WaitQ timer_master) demo_kernel) \<noteq> PCB 1
    \<and> PCB 1 \<in> set (queues (block_on (PCB 1) (WaitQ timer_master) demo_kernel) (WaitQ timer_master))
    \<and> tp (do_scheduler (do_unblock (PCB 1) (block_on (PCB 1) (WaitQ timer_master) demo_kernel))) = PCB 1"
  using block_then_wake [OF demo_inv(1), of timer_master] by (simp add: demo_kernel_def)

text \<open>When the chosen process has its \<open>execve\<close> flag set and is not the one that called
  \<open>do_scheduler\<close>, the processor's current process and the thread pointer part: the trap frame
  restored is that of the caller. \<open>do_execve\<close> sets the flag, puts the process in front of the
  ready queue and then frees pages, which can put a process that waits for one before it.\<close>

lemma execve_flag_keeps_tp:
  assumes "status (pcb_tab s (tp s)) \<noteq> TASK_RUNNING" and "tp s = running s"
    and "queues s ready_queue = p # rest" and "p \<noteq> tp s" and "execve (pcb_tab s p) \<noteq> 0"
  shows "tp (do_scheduler s) = tp s"
    and "(if get_current_cpu_id s = 0 then current_running_master (do_scheduler s)
          else current_running_slave (do_scheduler s)) = p"
proof -
  let ?s = "set_current (get_current_cpu_id s) p (klist_del p s)"
  have "requeue (running s) s = s" and "pick_next (get_current_cpu_id s) (running s) s = (p, ?s)"
    using assms(1-3) by (simp_all add: requeue_def pick_next_def klist_empty_def)
  then have sched: "do_scheduler s = resume (tp s) p ?s"
    using assms(2) by (simp add: do_scheduler_def running_def [symmetric] Let_def)
  show "tp (do_scheduler s) = tp s"
    using assms(4,5) by (simp add: sched resume_effect)
  show "(if get_current_cpu_id s = 0 then current_running_master (do_scheduler s)
      else current_running_slave (do_scheduler s)) = p"
    by (simp add: sched resume_effect set_current_def)
qed

end
