(* ===== verification/Signal.thy ===== *)
theory Signal
  imports Sched
begin

text \<open>
  Signals: \<open>kernel/sched/signal.c\<close>, \<open>include/os/signal.h\<close>, the \<open>kill\<close> calls of
  \<open>kernel/sched/sched.c\<close>, and \<open>do_block\<close>, which delivers signals before it blocks. The
  signal sets are 64-bit words; the saved register frames are in the context maps of the
  kernel state, indexed by their address on the kernel stack.
\<close>

section \<open>Data\<close>

abbreviation (input) SIG_BLOCK :: i32 where "SIG_BLOCK \<equiv> 0"
abbreviation (input) SIG_UNBLOCK :: i32 where "SIG_UNBLOCK \<equiv> 1"
abbreviation (input) SIG_SETMASK :: i32 where "SIG_SETMASK \<equiv> 2"
abbreviation (input) MAX_SIGNAL_NUM :: nat where "MAX_SIGNAL_NUM \<equiv> 100"
abbreviation (input) NUM_SIG :: nat where "NUM_SIG \<equiv> 33"
abbreviation (input) SIGKILL :: nat where "SIGKILL \<equiv> 9"
abbreviation (input) SIGSEGV :: nat where "SIGSEGV \<equiv> 11"
abbreviation (input) SIGALRM :: nat where "SIGALRM \<equiv> 14"
abbreviation (input) SIGCHLD :: nat where "SIGCHLD \<equiv> 17"
abbreviation (input) SIGCANCEL :: nat where "SIGCANCEL \<equiv> 33"
abbreviation (input) SIG_DFL :: u64 where "SIG_DFL \<equiv> 0"
abbreviation (input) SIG_IGN :: u64 where "SIG_IGN \<equiv> 1"

record sigaction =
  handler :: u64
  sa_flags :: u64
  restorer :: u64
  sa_mask :: u64

record sigaction_table =
  st_used :: i32
  st_num :: i32
  st_actions :: "nat \<Rightarrow> sigaction"

record sigkernel = kernel +
  sig_table :: "nat \<Rightarrow> sigaction_table"

text \<open>\<open>sizeof(regs_context_t)\<close>, \<open>sizeof(switchto_context_t)\<close>, and the user address of the
  code that issues \<open>sigreturn\<close>, \<open>USER_STACK_ADDR - SIZE_RESTORE\<close>.\<close>

abbreviation (input) OFFSET_SIZE :: u64 where "OFFSET_SIZE \<equiv> 560"
abbreviation (input) SWITCH_TO_SIZE :: u64 where "SWITCH_TO_SIZE \<equiv> 112"
abbreviation (input) RESTORE_ADDR :: u64 where "RESTORE_ADDR \<equiv> 0xf00010000 - 8"

definition zero_action :: sigaction where
  "zero_action = \<lparr>handler = 0, sa_flags = 0, restorer = 0, sa_mask = 0\<rparr>"

section \<open>Masks\<close>

definition sig_bit :: "nat \<Rightarrow> u64" where
  "sig_bit signum = push_bit (signum - 1) 1"

definition ISSET_SIG :: "nat \<Rightarrow> pcb \<Rightarrow> bool" where
  "ISSET_SIG signum p \<longleftrightarrow> sig_recv p AND sig_bit signum \<noteq> 0"

definition CLEAR_SIG :: "nat \<Rightarrow> pcb \<Rightarrow> pcb" where
  "CLEAR_SIG signum p = p\<lparr>sig_recv := sig_recv p AND NOT (sig_bit signum)\<rparr>"

definition trans_pended_signal_to_recv :: "pcb \<Rightarrow> pcb" where
  "trans_pended_signal_to_recv p =
    (if sig_pend p \<noteq> 0 then
       let prev_recv = sig_recv p;
           p = p\<lparr>sig_recv := sig_recv p OR (sig_pend p AND NOT (sig_mask p))\<rparr>
       in p\<lparr>sig_pend := sig_pend p AND NOT (prev_recv XOR sig_recv p)\<rparr>
     else p)"

definition change_signal_mask :: "pcb \<Rightarrow> u64 \<Rightarrow> pcb" where
  "change_signal_mask p newmask = trans_pended_signal_to_recv (p\<lparr>sig_mask := newmask\<rparr>)"

text \<open>\<open>do_rt_sigprocmask\<close>: \<open>newset\<close> and \<open>oldset\<close> are user pointers; \<open>None\<close> is \<open>NULL\<close>. The result
  is the return value and what is stored in \<open>*oldset\<close>; with both pointers \<open>NULL\<close> the code reads
  through a null pointer (\<open>Panic\<close>), and so does an unknown \<open>how\<close> by its \<open>assert(0)\<close>.\<close>

definition do_rt_sigprocmask ::
    "i32 \<Rightarrow> u64 option \<Rightarrow> bool \<Rightarrow> 'a kernel_scheme \<Rightarrow> ('a kernel_scheme, i32 \<times> u64 option) outcome" where
  "do_rt_sigprocmask how newset oldset s =
    (let cur = get_current_running s;
         old = (if oldset then Some (sig_mask (pcb_tab s cur)) else None)
     in case newset of
       None \<Rightarrow> (case old of None \<Rightarrow> Panic s | Some m \<Rightarrow> Ret s (ucast m, old))
     | Some v \<Rightarrow>
         if how = SIG_BLOCK then
           Ret (upd_pcb cur (\<lambda>p. p\<lparr>sig_mask := sig_mask p OR v\<rparr>) s) (0, old)
         else if how = SIG_UNBLOCK then
           Ret (upd_pcb cur (\<lambda>p. p\<lparr>sig_mask := sig_mask p AND NOT v\<rparr>) s) (0, old)
         else if how = SIG_SETMASK then
           Ret (upd_pcb cur (\<lambda>p. p\<lparr>sig_mask := v\<rparr>) s) (0, old)
         else Panic s)"

section \<open>Actions\<close>

definition sig_action :: "'a sigkernel_scheme \<Rightarrow> pcb_ref \<Rightarrow> nat \<Rightarrow> sigaction" where
  "sig_action s r i = st_actions (sig_table s (sigactions (pcb_tab s r))) i"

definition set_sig_action :: "nat \<Rightarrow> nat \<Rightarrow> sigaction \<Rightarrow> 'a sigkernel_scheme \<Rightarrow> 'a sigkernel_scheme" where
  "set_sig_action t i a s = s\<lparr>sig_table := (sig_table s)(t :=
    (sig_table s t)\<lparr>st_actions := (st_actions (sig_table s t))(i := a)\<rparr>)\<rparr>"

text \<open>For \<open>1 \<le> signum\<close>; the result is the return value and \<open>*oldact\<close>. A number above
  \<open>NUM_SIG\<close> returns without a value.\<close>

definition do_rt_sigaction ::
    "nat \<Rightarrow> sigaction option \<Rightarrow> bool \<Rightarrow> 'a sigkernel_scheme \<Rightarrow>
      'a sigkernel_scheme \<times> i32 option \<times> sigaction option" where
  "do_rt_sigaction signum act oldact s =
    (if signum > NUM_SIG then (s, None, None)
     else let cur = get_current_running s;
              old = (if oldact then Some (sig_action s cur (signum - 1)) else None);
              s = (case act of None \<Rightarrow> s
                   | Some a \<Rightarrow> set_sig_action (sigactions (pcb_tab s cur)) (signum - 1) a s)
          in (s, Some 0, old))"

definition init_sig_table :: "'a sigkernel_scheme \<Rightarrow> 'a sigkernel_scheme" where
  "init_sig_table s = s\<lparr>sig_table := (\<lambda>i. if i < MAX_SIGNAL_NUM
    then \<lparr>st_used = 0, st_num = 0, st_actions = (\<lambda>j. if j < NUM_SIG then zero_action else st_actions (sig_table s i) j)\<rparr>
    else sig_table s i)\<rparr>"

definition alloc_sig_table :: "'a sigkernel_scheme \<Rightarrow> ('a sigkernel_scheme, nat) outcome" where
  "alloc_sig_table s =
    (case first_index (\<lambda>i. st_used (sig_table s i) = 0) [0..<MAX_SIGNAL_NUM] of
       None \<Rightarrow> Panic s
     | Some i \<Rightarrow> Ret (s\<lparr>sig_table := (sig_table s)(i := (sig_table s i)\<lparr>st_used := 1, st_num := 1\<rparr>)\<rparr>) i)"

definition free_sig_table :: "nat \<Rightarrow> 'a sigkernel_scheme \<Rightarrow> 'a sigkernel_scheme" where
  "free_sig_table t s =
    (let st = (sig_table s t)\<lparr>st_num := st_num (sig_table s t) - 1\<rparr>;
         st = (if st_num st = 0
               then st\<lparr>st_used := 0, st_actions := (\<lambda>j. if j < NUM_SIG then zero_action else st_actions st j)\<rparr>
               else st)
     in s\<lparr>sig_table := (sig_table s)(t := st)\<rparr>)"

section \<open>Sending\<close>

definition send_signal :: "nat \<Rightarrow> pcb_ref \<Rightarrow> 'a kernel_scheme \<Rightarrow> 'a kernel_scheme" where
  "send_signal signum r s =
    (if signum = 0 then s
     else let sig_value = sig_bit signum;
              s = (if sig_value AND sig_mask (pcb_tab s r) \<noteq> 0
                   then upd_pcb r (\<lambda>p. p\<lparr>sig_pend := sig_pend p OR sig_value\<rparr>) s
                   else upd_pcb r (\<lambda>p. p\<lparr>sig_recv := sig_recv p OR sig_value\<rparr>) s)
          in if status (pcb_tab s r) = TASK_BLOCKED then do_unblock r s else s)"

text \<open>\<open>get_sig_num\<close>: the highest signal number in the set, pending ones first; -1 if none.\<close>

fun highest_sig :: "nat \<Rightarrow> u64 \<Rightarrow> u64 option" where
  "highest_sig 0 v = None"
| "highest_sig (Suc i) v = (if v AND push_bit i 1 \<noteq> 0 then Some (of_nat (Suc i)) else highest_sig i v)"

definition get_sig_num :: "pcb \<Rightarrow> u64 \<Rightarrow> u64" where
  "get_sig_num p v =
    (case (if v AND sig_pend p \<noteq> 0 then highest_sig NUM_SIG (v AND sig_pend p) else None) of
       Some i \<Rightarrow> i
     | None \<Rightarrow>
         (case (if v AND sig_recv p \<noteq> 0 then highest_sig NUM_SIG (v AND sig_recv p) else None) of
            Some i \<Rightarrow> i | None \<Rightarrow> -1))"

definition do_rt_sigtimedwait :: i32 where
  "do_rt_sigtimedwait = 1"

text \<open>The loop of \<open>do_kill\<close> over the PCB table.\<close>

fun kill_loop :: "i32 \<Rightarrow> nat \<Rightarrow> nat list \<Rightarrow> 'a kernel_scheme \<Rightarrow> 'a kernel_scheme" where
  "kill_loop p sig [] s = s"
| "kill_loop p sig (i # is) s =
    (if 0 < sint p \<and> pid (pcb_tab s (PCB i)) = p \<or> sint p < -1 \<and> pid (pcb_tab s (PCB i)) = - p
     then send_signal sig (PCB i) s
     else if p = 0 \<and> status (cur_pcb s) \<noteq> TASK_EXITED
     then send_signal sig (get_current_running s) s
     else if p = -1 \<and> status (pcb_tab s (PCB i)) \<noteq> TASK_EXITED
     then kill_loop p sig is (send_signal sig (PCB i) s)
     else kill_loop p sig is s)"

definition do_kill :: "i32 \<Rightarrow> nat \<Rightarrow> 'a kernel_scheme \<Rightarrow> 'a kernel_scheme \<times> i32" where
  "do_kill p sig s = (kill_loop p sig [0..<NUM_MAX_TASK] s, 0)"

section \<open>Delivery\<close>

text \<open>\<open>pcb->kernel_sp\<close> in the source is the stack pointer of \<open>pcb[0]\<close>, not of the current
  process. \<open>set_signal_trampoline\<close> (\<open>kernel/sched/Signal.S\<close>) copies the two buffers to the
  new top of the kernel stack and returns to user mode.\<close>

definition push_signal_frame :: "nat \<Rightarrow> u64 \<Rightarrow> 'a kernel_scheme \<Rightarrow> 'a kernel_scheme" where
  "push_signal_frame i h s =
    (let cur = get_current_running s;
         context_buf = (contexts s (save_context (pcb_tab s cur)))
           \<lparr>regs := (regs (contexts s (save_context (pcb_tab s cur))))(10 := of_nat (i + 1), 1 := RESTORE_ADDR),
            sepc := h\<rparr>;
         offset = OFFSET_SIZE + SWITCH_TO_SIZE;
         switch_buf = (switch_contexts s (switch_context (pcb_tab s cur)))
           \<lparr>sw_regs := (sw_regs (switch_contexts s (switch_context (pcb_tab s cur))))
             (1 := kernel_sp (pcb_tab s (PCB 0)) - offset)\<rparr>;
         s = upd_pcb cur (\<lambda>p. p\<lparr>kernel_sp := kernel_sp p - offset,
               save_context := save_context p - offset, switch_context := switch_context p - offset\<rparr>) s;
         sp = kernel_sp (pcb_tab s cur)
     in s\<lparr>switch_contexts := (switch_contexts s)(sp := switch_buf),
          contexts := (contexts s)(sp + SWITCH_TO_SIZE := context_buf)\<rparr>)"

text \<open>One signal: \<open>i\<close> is the number minus one.\<close>

definition deliver :: "nat \<Rightarrow> 'a sigkernel_scheme \<Rightarrow> ('a sigkernel_scheme, unit) outcome" where
  "deliver i s =
    (let cur = get_current_running s;
         act = sig_action s cur i;
         s = upd_pcb cur (\<lambda>p. let p = CLEAR_SIG (i + 1) p; p = p\<lparr>prev_mask := sig_mask p\<rparr>
                               in change_signal_mask p (sa_mask act)) s
     in if handler act = SIG_IGN then Ret s ()
        else if handler act = SIG_DFL then
          if i + 1 \<in> {SIGKILL, SIGSEGV, SIGALRM} then
            Exits (upd_pcb cur (\<lambda>p. p\<lparr>is_handle_signal := 0\<rparr>) s) 1
          else if i + 1 \<in> {SIGCHLD, SIGCANCEL} then
            Ret (upd_pcb cur (\<lambda>p. change_signal_mask (p\<lparr>is_handle_signal := 0\<rparr>) (prev_mask p)) s) ()
          else Panic s
        else ToUser (push_signal_frame i (handler act) s))"

definition handle_signal :: "'a sigkernel_scheme \<Rightarrow> ('a sigkernel_scheme, unit) outcome" where
  "handle_signal s =
    (let cur = get_current_running s in
     if sig_recv (pcb_tab s cur) = 0 \<or> is_handle_signal (pcb_tab s cur) \<noteq> 0 then Ret s ()
     else let s = upd_pcb cur (\<lambda>p. p\<lparr>is_handle_signal := 1\<rparr>) s in
       case first_index (\<lambda>i. ISSET_SIG (i + 1) (pcb_tab s cur)) [0..<NUM_SIG] of
         None \<Rightarrow> Ret s ()
       | Some i \<Rightarrow> deliver i s)"

definition do_rt_sigreturn :: "'a kernel_scheme \<Rightarrow> ('a kernel_scheme, unit) outcome" where
  "do_rt_sigreturn s =
    (let cur = get_current_running s;
         s = upd_pcb cur (\<lambda>p. (change_signal_mask p (prev_mask p))\<lparr>is_handle_signal := 0\<rparr>) s;
         offset = OFFSET_SIZE + SWITCH_TO_SIZE;
         core = core_id (contexts s (save_context (pcb_tab s cur)));
         s = upd_pcb cur (\<lambda>p. p\<lparr>kernel_sp := kernel_sp p + offset,
               save_context := save_context p + offset, switch_context := switch_context p + offset\<rparr>) s;
         ctx = save_context (pcb_tab s cur)
     in ToUser (s\<lparr>contexts := (contexts s)(ctx := (contexts s ctx)\<lparr>core_id := core\<rparr>)\<rparr>))"

section \<open>Blocking\<close>

text \<open>\<open>do_block\<close> handles signals first; the process may exit or go to a handler there.\<close>

definition do_block :: "pcb_ref \<Rightarrow> wait_queue \<Rightarrow> 'a sigkernel_scheme \<Rightarrow> ('a sigkernel_scheme, unit) outcome" where
  "do_block r q s = obind (handle_signal s) (\<lambda>s _. Blocked (block_on r (WaitQ q) s))"

section \<open>No signal is lost\<close>

text \<open>The signals a process has been sent and not yet handled.\<close>

definition outstanding :: "pcb \<Rightarrow> u64" where
  "outstanding p = sig_recv p OR sig_pend p"

lemma trans_pended_outstanding:
  "outstanding (trans_pended_signal_to_recv p) = outstanding p"
  unfolding outstanding_def trans_pended_signal_to_recv_def Let_def
  by (intro bit_eqI) (auto simp: bit_simps)

lemma trans_pended_masked:
  "sig_pend (trans_pended_signal_to_recv p) AND NOT (sig_mask p) AND NOT (sig_recv p) = 0"
  unfolding trans_pended_signal_to_recv_def Let_def
  by (intro bit_eqI) (auto simp: bit_simps)

lemma trans_pended_frame [simp]:
  "sig_mask (trans_pended_signal_to_recv p) = sig_mask p"
  "prev_mask (trans_pended_signal_to_recv p) = prev_mask p"
  "is_handle_signal (trans_pended_signal_to_recv p) = is_handle_signal p"
  "kernel_sp (trans_pended_signal_to_recv p) = kernel_sp p"
  "save_context (trans_pended_signal_to_recv p) = save_context p"
  "switch_context (trans_pended_signal_to_recv p) = switch_context p"
  "sigactions (trans_pended_signal_to_recv p) = sigactions p"
  "status (trans_pended_signal_to_recv p) = status p"
  "pid (trans_pended_signal_to_recv p) = pid p"
  "execve (trans_pended_signal_to_recv p) = execve p"
  by (auto simp: trans_pended_signal_to_recv_def Let_def)

lemma change_signal_mask_frame [simp]:
  "sig_mask (change_signal_mask p m) = m"
  "prev_mask (change_signal_mask p m) = prev_mask p"
  "is_handle_signal (change_signal_mask p m) = is_handle_signal p"
  "kernel_sp (change_signal_mask p m) = kernel_sp p"
  "save_context (change_signal_mask p m) = save_context p"
  "switch_context (change_signal_mask p m) = switch_context p"
  "sigactions (change_signal_mask p m) = sigactions p"
  "status (change_signal_mask p m) = status p"
  "pid (change_signal_mask p m) = pid p"
  "execve (change_signal_mask p m) = execve p"
  by (simp_all add: change_signal_mask_def)

lemma change_signal_mask_outstanding: "outstanding (change_signal_mask p m) = outstanding p"
  by (simp add: change_signal_mask_def trans_pended_outstanding outstanding_def [of "sig_mask_update _ _"])
    (simp add: outstanding_def)

lemma CLEAR_SIG_frame [simp]:
  "sig_mask (CLEAR_SIG i p) = sig_mask p" "sig_pend (CLEAR_SIG i p) = sig_pend p"
  "prev_mask (CLEAR_SIG i p) = prev_mask p" "is_handle_signal (CLEAR_SIG i p) = is_handle_signal p"
  "kernel_sp (CLEAR_SIG i p) = kernel_sp p" "save_context (CLEAR_SIG i p) = save_context p"
  "switch_context (CLEAR_SIG i p) = switch_context p" "status (CLEAR_SIG i p) = status p"
  "sigactions (CLEAR_SIG i p) = sigactions p" "pid (CLEAR_SIG i p) = pid p"
  "execve (CLEAR_SIG i p) = execve p"
  "sig_recv (CLEAR_SIG i p) = sig_recv p AND NOT (sig_bit i)"
  by (simp_all add: CLEAR_SIG_def)


lemma send_signal_other: "r' \<noteq> r \<Longrightarrow> pcb_tab (send_signal n r s) r' = pcb_tab s r'"
  by (auto simp: send_signal_def Let_def)

lemma send_signal_queues:
  "queues (send_signal n r s) =
    (if n \<noteq> 0 \<and> status (pcb_tab s r) = TASK_BLOCKED then q_add r ready_queue (q_del r (queues s)) else queues s)"
  by (auto simp: send_signal_def Let_def)


lemma do_block_quiet:
  "sig_recv (cur_pcb s) = 0 \<or> is_handle_signal (cur_pcb s) \<noteq> 0 \<Longrightarrow>
    do_block r q s = Blocked (block_on r (WaitQ q) s)"
  by (simp add: do_block_def handle_signal_def Let_def)

lemma handle_signal_deliver:
  assumes "is_handle_signal (cur_pcb s) = 0"
    and "first_index (\<lambda>i. ISSET_SIG (i + 1) (cur_pcb s)) [0..<NUM_SIG] = Some i"
  shows "handle_signal s = deliver i (upd_pcb (tp s) (\<lambda>p. p\<lparr>is_handle_signal := 1\<rparr>) s)"
proof -
  have "ISSET_SIG (i + 1) (cur_pcb s)"
    using first_index_SomeD(1,2) [OF assms(2)] by simp
  then have "sig_recv (cur_pcb s) \<noteq> 0"
    by (auto simp: ISSET_SIG_def)
  then show ?thesis
    using assms by (simp add: handle_signal_def Let_def get_current_running_def ISSET_SIG_def)
qed

lemma deliver_user:
  assumes "handler (sig_action s (tp s) i) \<notin> {SIG_IGN, SIG_DFL}"
  shows "deliver i s = ToUser (push_signal_frame i (handler (sig_action s (tp s) i))
    (upd_pcb (tp s) (\<lambda>p. change_signal_mask ((CLEAR_SIG (i + 1) p)\<lparr>prev_mask := sig_mask p\<rparr>)
      (sa_mask (sig_action s (tp s) i))) s))"
  using assms by (simp add: deliver_def Let_def get_current_running_def)

text \<open>The layout of the kernel stack: the switch frame at the stack pointer, the trap frame
  above it.\<close>

definition frame_ok :: "pcb \<Rightarrow> bool" where
  "frame_ok p \<longleftrightarrow> switch_context p = kernel_sp p \<and> save_context p = kernel_sp p + SWITCH_TO_SIZE"

lemma change_signal_mask_stack:
  "change_signal_mask (p\<lparr>kernel_sp := a, save_context := b, switch_context := c\<rparr>) m
    = (change_signal_mask p m)\<lparr>kernel_sp := a, save_context := b, switch_context := c\<rparr>"
  by (simp add: change_signal_mask_def trans_pended_signal_to_recv_def Let_def)

lemma sigreturn_pops:
  fixes s :: "'a kernel_scheme"
  assumes "frame_ok (cur_pcb s)"
  shows "\<exists>u. do_rt_sigreturn (push_signal_frame i h s) = ToUser u
    \<and> cur_pcb u = (change_signal_mask (cur_pcb s) (prev_mask (cur_pcb s)))\<lparr>is_handle_signal := 0\<rparr>
    \<and> contexts u (save_context (cur_pcb s)) = contexts s (save_context (cur_pcb s))
    \<and> tp u = tp s"
proof -
  let ?p = "pcb_tab s (tp s)"
  let ?off = "OFFSET_SIZE + SWITCH_TO_SIZE"
  let ?t = "push_signal_frame i h s"
  have t: "tp ?t = tp s" "pcb_tab ?t (tp s) = ?p\<lparr>kernel_sp := kernel_sp ?p - ?off,
      save_context := save_context ?p - ?off, switch_context := switch_context ?p - ?off\<rparr>"
    "contexts ?t (save_context ?p) = contexts s (save_context ?p)"
    "core_id (contexts ?t (save_context ?p - 672)) = core_id (contexts s (save_context ?p))"
    using assms by (simp_all add: push_signal_frame_def Let_def get_current_running_def frame_ok_def)
  have p: "(change_signal_mask (?p\<lparr>kernel_sp := a, save_context := b, switch_context := c\<rparr>) m)
      \<lparr>is_handle_signal := 0, kernel_sp := kernel_sp ?p, save_context := save_context ?p,
       switch_context := switch_context ?p\<rparr> = (change_signal_mask ?p m)\<lparr>is_handle_signal := 0\<rparr>" for a b c m
    unfolding change_signal_mask_stack by (rule pcb.equality) simp_all
  show ?thesis
    using p by (simp add: do_rt_sigreturn_def Let_def get_current_running_def t)
qed

section \<open>Properties\<close>



text \<open>C16: Delivering a signal to a user handler and returning from it with \<open>sigreturn\<close> is a round
  trip: the kernel stack, the interrupted register frame and the signal mask are what they
  were, signals can be delivered again, and of the outstanding signals exactly the delivered
  one has been consumed.\<close>

theorem signal_handler_round_trip:
  assumes "frame_ok (cur_pcb s)" and "is_handle_signal (cur_pcb s) = 0"
    and "first_index (\<lambda>i. ISSET_SIG (i + 1) (cur_pcb s)) [0..<NUM_SIG] = Some i"
    and "handler (sig_action s (tp s) i) \<notin> {SIG_IGN, SIG_DFL}"
  shows "\<exists>t u. handle_signal s = ToUser t \<and> sepc (contexts t (save_context (cur_pcb t))) = handler (sig_action s (tp s) i)
    \<and> do_rt_sigreturn t = ToUser u \<and> tp u = tp s
    \<and> kernel_sp (cur_pcb u) = kernel_sp (cur_pcb s) \<and> save_context (cur_pcb u) = save_context (cur_pcb s)
    \<and> contexts u (save_context (cur_pcb u)) = contexts s (save_context (cur_pcb s))
    \<and> sig_mask (cur_pcb u) = sig_mask (cur_pcb s) \<and> is_handle_signal (cur_pcb u) = 0
    \<and> outstanding (cur_pcb u) = (sig_recv (cur_pcb s) AND NOT (sig_bit (i + 1))) OR sig_pend (cur_pcb s)"
proof -
  let ?act = "sig_action s (tp s) i"
  let ?s = "upd_pcb (tp s) (\<lambda>p. change_signal_mask ((CLEAR_SIG (i + 1) p)\<lparr>prev_mask := sig_mask p\<rparr>) (sa_mask ?act))
    (upd_pcb (tp s) (\<lambda>p. p\<lparr>is_handle_signal := 1\<rparr>) s)"
  let ?t = "push_signal_frame i (handler ?act) ?s"
  have act: "sig_action (upd_pcb (tp s) (\<lambda>p. p\<lparr>is_handle_signal := 1\<rparr>) s) (tp s) i = ?act"
    by (simp add: sig_action_def) (simp add: upd_pcb_def)
  have t: "handle_signal s = ToUser ?t"
    using deliver_user [of "upd_pcb (tp s) (\<lambda>p. p\<lparr>is_handle_signal := 1\<rparr>) s" i] assms(4)
    by (simp add: handle_signal_deliver [OF assms(2,3)] act)
  have "frame_ok (cur_pcb ?s)"
    using assms(1) by (simp add: frame_ok_def get_current_running_def)
  from sigreturn_pops [OF this, of i "handler ?act"] obtain u where u: "do_rt_sigreturn ?t = ToUser u"
    "cur_pcb u = (change_signal_mask (cur_pcb ?s) (prev_mask (cur_pcb ?s)))\<lparr>is_handle_signal := 0\<rparr>"
    "contexts u (save_context (cur_pcb ?s)) = contexts ?s (save_context (cur_pcb ?s))" "tp u = tp ?s"
    by blast
  have sepc: "sepc (contexts ?t (save_context (cur_pcb ?t))) = handler ?act"
    using assms(1) by (simp add: push_signal_frame_def Let_def get_current_running_def frame_ok_def)
  have "outstanding (cur_pcb u) = outstanding (change_signal_mask (cur_pcb ?s) (prev_mask (cur_pcb ?s)))"
    by (simp add: u(2) outstanding_def)
  also have "\<dots> = outstanding (cur_pcb ?s)"
    by (rule change_signal_mask_outstanding)
  also have "\<dots> = outstanding ((CLEAR_SIG (i + 1) ((cur_pcb s)\<lparr>is_handle_signal := 1\<rparr>))\<lparr>prev_mask := sig_mask (cur_pcb s)\<rparr>)"
    by (simp add: get_current_running_def change_signal_mask_outstanding)
  finally have out: "outstanding (cur_pcb u)
      = (sig_recv (cur_pcb s) AND NOT (sig_bit (i + 1))) OR sig_pend (cur_pcb s)"
    by (simp add: outstanding_def)
  show ?thesis
    apply (rule exI [of _ ?t], rule exI [of _ u])
    using t u sepc out by (simp add: get_current_running_def outstanding_def)
qed

text \<open>A process with signal 10 received, and what it does with it.\<close>

definition demo_sig :: "u64 \<Rightarrow> sigkernel" where
  "demo_sig h = \<lparr>pcb_tab = demo_tab(PCB 1 := (demo_tab (PCB 1))\<lparr>sig_recv := 0x200, kernel_sp := 0x10000,
      save_context := 0x10070, switch_context := 0x10000\<rparr>),
    queues = demo_queues, current_running_master = PCB 1, current_running_slave = pid0_pcb_slave,
    tp = PCB 1, contexts = (\<lambda>_. demo_context), switch_contexts = (\<lambda>_. \<lparr>sw_regs = (\<lambda>_. 0)\<rparr>),
    satp = 0, ticks = 0, process_id = 4,
    sig_table = (\<lambda>_. \<lparr>st_used = 1, st_num = 1, st_actions = (\<lambda>_. zero_action\<lparr>handler := h\<rparr>)\<rparr>)\<rparr>"

lemma demo_sig_facts:
  "frame_ok (cur_pcb (demo_sig h))" "is_handle_signal (cur_pcb (demo_sig h)) = 0"
  "handler (sig_action (demo_sig h) (tp (demo_sig h)) i) = h"
  "first_index (\<lambda>i. ISSET_SIG (i + 1) (cur_pcb (demo_sig h))) [0..<NUM_SIG] = Some 9"
  by (simp_all add: demo_sig_def frame_ok_def get_current_running_def demo_tab_def demo_pcb_def
      sig_action_def zero_action_def ISSET_SIG_def sig_bit_def upt_rec)

theorem signal_handler_round_trip_witness:
  "\<exists>t u. handle_signal (demo_sig 0x8000) = ToUser t
    \<and> sepc (contexts t (save_context (cur_pcb t))) = 0x8000
    \<and> do_rt_sigreturn t = ToUser u \<and> kernel_sp (cur_pcb u) = 0x10000 \<and> save_context (cur_pcb u) = 0x10070
    \<and> is_handle_signal (cur_pcb u) = 0 \<and> outstanding (cur_pcb u) = 0"
proof -
  have "handler (sig_action (demo_sig 0x8000) (tp (demo_sig 0x8000)) 9) \<notin> {SIG_IGN, SIG_DFL}"
    by (simp add: demo_sig_facts)
  from signal_handler_round_trip [OF demo_sig_facts(1,2,4) this] show ?thesis
    by (simp add: demo_sig_facts)
      (auto simp: demo_sig_def get_current_running_def demo_tab_def demo_pcb_def sig_bit_def)
qed

text \<open>C26: An ignored signal switches signal delivery off: after a signal whose action is
  \<open>SIG_IGN\<close> the process is left with its \<open>is_handle_signal\<close> mark set, and no signal sent to it
  afterwards, \<open>SIGKILL\<close> included, is delivered by \<open>handle_signal\<close>.\<close>

theorem ignored_signal_stops_delivery:
  assumes "is_handle_signal (cur_pcb s) = 0"
    and "first_index (\<lambda>i. ISSET_SIG (i + 1) (cur_pcb s)) [0..<NUM_SIG] = Some i"
    and "handler (sig_action s (tp s) i) = SIG_IGN"
  shows "\<exists>t. handle_signal s = Ret t () \<and> is_handle_signal (cur_pcb t) \<noteq> 0
    \<and> (\<forall>n. handle_signal (send_signal n (tp s) t) = Ret (send_signal n (tp s) t) ())"
proof -
  let ?s = "upd_pcb (tp s) (\<lambda>p. p\<lparr>is_handle_signal := 1\<rparr>) s"
  let ?t = "upd_pcb (tp s) (\<lambda>p. change_signal_mask ((CLEAR_SIG (i + 1) p)\<lparr>prev_mask := sig_mask p\<rparr>)
      (sa_mask (sig_action ?s (tp s) i))) ?s"
  have act: "sig_action ?s (tp s) i = sig_action s (tp s) i"
    by (simp add: sig_action_def) (simp add: upd_pcb_def)
  have t: "handle_signal s = Ret ?t ()"
    using assms(3) by (simp add: handle_signal_deliver [OF assms(1,2)] deliver_def Let_def
        get_current_running_def act)
  have h: "is_handle_signal (cur_pcb ?t) \<noteq> 0"
    by (simp add: get_current_running_def)
  have "is_handle_signal (cur_pcb (send_signal n (tp s) ?t)) \<noteq> 0" for n
    by (simp add: send_signal_def Let_def get_current_running_def)
  then have "handle_signal (send_signal n (tp s) ?t) = Ret (send_signal n (tp s) ?t) ()" for n
    by (simp add: handle_signal_def Let_def)
  with t h show ?thesis by blast
qed

theorem ignored_signal_stops_delivery_witness:
  "\<exists>t. handle_signal (demo_sig SIG_IGN) = Ret t ()
    \<and> handle_signal (send_signal SIGKILL (PCB 1) t) = Ret (send_signal SIGKILL (PCB 1) t) ()"
  using ignored_signal_stops_delivery [OF demo_sig_facts(2,4), of SIG_IGN, OF demo_sig_facts(3)]
  by (auto simp: demo_sig_def)

end
