(* ===== verification/Locks.thy ===== *)
theory Locks
  imports Signal
begin

text \<open>
  Blocking locks: the mutex of \<open>kernel/locking/lock.c\<close> and the sleep lock and sleep list of
  \<open>kernel/smp/sleeplock.c\<close>. A lock is known by its address, which also names its queue of
  blocked processes. The contract of a lock is the locale \<open>blocking_lock\<close>; that a release makes
  the lock available again is \<open>releasing_lock\<close>, which the sleep lock keeps and the mutex
  does not.
\<close>

section \<open>Operations\<close>

abbreviation (input) UNLOCKED :: u64 where "UNLOCKED \<equiv> 0"
abbreviation (input) LOCKED :: u64 where "LOCKED \<equiv> 1"

record mutex_lock =
  mx_pid :: u64
  mx_status :: u64

record sleeplock =
  sl_locked :: u32
  sl_pid :: i32

record lockkernel = sigkernel +
  mutexes :: "ptr \<Rightarrow> mutex_lock"
  sleeplocks :: "ptr \<Rightarrow> sleeplock"

definition do_mutex_lock_init :: "ptr \<Rightarrow> 'a lockkernel_scheme \<Rightarrow> 'a lockkernel_scheme" where
  "do_mutex_lock_init l s = s\<lparr>queues := (queues s)(WaitQ (mutex_block_queue l) := []),
    mutexes := (mutexes s)(l := \<lparr>mx_pid = 0, mx_status = UNLOCKED\<rparr>)\<rparr>"

text \<open>\<open>while (lock->status == LOCKED) do_block(...)\<close>: the test is repeated each time the
  process runs again, by re-entering the operation.\<close>

definition do_mutex_lock_acquire :: "ptr \<Rightarrow> 'a lockkernel_scheme \<Rightarrow> ('a lockkernel_scheme, unit) outcome" where
  "do_mutex_lock_acquire l s =
    (let cur = get_current_running s in
     if mx_status (mutexes s l) = LOCKED then do_block cur (mutex_block_queue l) s
     else Ret (s\<lparr>mutexes := (mutexes s)(l := \<lparr>mx_pid = scast (pid (pcb_tab s cur)), mx_status = LOCKED\<rparr>)\<rparr>) ())"

definition do_mutex_lock_release :: "ptr \<Rightarrow> 'a lockkernel_scheme \<Rightarrow> 'a lockkernel_scheme" where
  "do_mutex_lock_release l s =
    (if \<not> klist_empty (WaitQ (mutex_block_queue l)) s
     then do_unblock (klist_last (WaitQ (mutex_block_queue l)) s) s
     else s\<lparr>mutexes := (mutexes s)(l := (mutexes s l)\<lparr>mx_status := UNLOCKED, mx_pid := 0\<rparr>)\<rparr>)"

definition sleep_on :: "ptr \<Rightarrow> 'a sigkernel_scheme \<Rightarrow> ('a sigkernel_scheme, unit) outcome" where
  "sleep_on l s = do_block (get_current_running s) (sleep_queue l) s"

definition wakeup :: "ptr \<Rightarrow> 'a kernel_scheme \<Rightarrow> 'a kernel_scheme" where
  "wakeup l s = wake_all (sleep_queue l) s"

definition initsleeplock :: "ptr \<Rightarrow> 'a lockkernel_scheme \<Rightarrow> 'a lockkernel_scheme" where
  "initsleeplock l s = s\<lparr>queues := (queues s)(WaitQ (sleep_queue l) := []),
    sleeplocks := (sleeplocks s)(l := \<lparr>sl_locked = 0, sl_pid = 0\<rparr>)\<rparr>"

definition acquiresleep :: "ptr \<Rightarrow> 'a lockkernel_scheme \<Rightarrow> ('a lockkernel_scheme, unit) outcome" where
  "acquiresleep l s =
    (let cur = get_current_running s in
     if sl_locked (sleeplocks s l) \<noteq> 0 then do_block cur (sleep_queue l) s
     else Ret (s\<lparr>sleeplocks := (sleeplocks s)(l := \<lparr>sl_locked = 1, sl_pid = pid (pcb_tab s cur)\<rparr>)\<rparr>) ())"

definition releasesleep :: "ptr \<Rightarrow> 'a lockkernel_scheme \<Rightarrow> 'a lockkernel_scheme" where
  "releasesleep l s =
    wake_all (sleep_queue l) (s\<lparr>sleeplocks := (sleeplocks s)(l := \<lparr>sl_locked = 0, sl_pid = 0\<rparr>)\<rparr>)"

section \<open>The contract\<close>

locale blocking_lock =
  fixes locked :: "'s \<Rightarrow> bool"
    and acquire :: "'s \<Rightarrow> ('s, unit) outcome"
  assumes acquire_returns: "acquire s = Ret t () \<Longrightarrow> \<not> locked s \<and> locked t"
    and acquire_free: "\<not> locked s \<Longrightarrow> \<exists>t. acquire s = Ret t ()"
begin

text \<open>Mutual exclusion: once acquired, the lock is not acquired again, in whatever state it is
  still held.\<close>

lemma exclusive:
  assumes "acquire s = Ret t ()" and "locked u = locked t"
  shows "acquire u \<noteq> Ret v ()"
  using acquire_returns [OF assms(1)] acquire_returns [of u v] assms(2) by blast

lemma returns_iff: "(\<exists>t. acquire s = Ret t ()) \<longleftrightarrow> \<not> locked s"
  using acquire_returns acquire_free by blast

end

locale releasing_lock = blocking_lock +
  fixes release :: "'s \<Rightarrow> 's"
  assumes release_unlocks: "\<not> locked (release s)"
begin

lemma released_can_be_acquired: "\<exists>t. acquire (release s) = Ret t () \<and> locked t"
  using acquire_free [OF release_unlocks] acquire_returns by blast

end

lemma do_block_not_Ret: "do_block r q s \<noteq> Ret t x"
  by (cases "handle_signal s") (simp_all add: do_block_def)

interpretation mutex: blocking_lock "\<lambda>s :: 'a lockkernel_scheme. mx_status (mutexes s l) = LOCKED"
  "do_mutex_lock_acquire l" for l
  by unfold_locales (auto simp: do_mutex_lock_acquire_def Let_def do_block_not_Ret split: if_splits)

lemma lock_fields_do_unblock [simp]:
  "mutexes (do_unblock r s) = mutexes s" "sleeplocks (do_unblock r s) = sleeplocks s"
  "sig_table (do_unblock r s) = sig_table s"
  by (simp_all add: do_unblock_def klist_del_def klist_add_def upd_pcb_def)

lemma lock_fields_wake_all [simp]:
  "mutexes (wake_all w s) = mutexes s" "sleeplocks (wake_all w s) = sleeplocks s"
  by (induction w s rule: wake_all.induct; subst wake_all.simps; simp)+

interpretation sleeplock: releasing_lock "\<lambda>s :: 'a lockkernel_scheme. sl_locked (sleeplocks s l) \<noteq> 0"
  "acquiresleep l" "releasesleep l" for l
  by unfold_locales
    (auto simp: acquiresleep_def releasesleep_def Let_def do_block_not_Ret split: if_splits)

section \<open>Properties\<close>

text \<open>C17: Releasing a sleep lock wakes every process that waits for it, leaves the lock free and the
  scheduler's invariant intact; the first of them to run acquires it, and then nobody else
  does as long as it is held.\<close>

theorem sleeplock_handover:
  fixes s :: "'a lockkernel_scheme"
  assumes "sched_inv s"
  shows "sched_inv (releasesleep l s)
    \<and> queues (releasesleep l s) = (queues s)(WaitQ (sleep_queue l) := [],
        ready_queue := rev (queues s (WaitQ (sleep_queue l))) @ queues s ready_queue)
    \<and> (\<exists>t. acquiresleep l (releasesleep l s) = Ret t ()
        \<and> (\<forall>(u :: 'a lockkernel_scheme) v. sl_locked (sleeplocks u l) = sl_locked (sleeplocks t l) \<longrightarrow> acquiresleep l u \<noteq> Ret v ()))"
proof -
  let ?s = "s\<lparr>sleeplocks := (sleeplocks s)(l := \<lparr>sl_locked = 0, sl_pid = 0\<rparr>)\<rparr>"
  have inv: "sched_inv ?s"
    using assms by (subst sched_inv_cong [of _ s]) simp_all
  have "sched_inv (releasesleep l s)"
    unfolding releasesleep_def by (rule sched_inv_wake_all [OF inv])
  moreover have "queues (releasesleep l s) = (queues s)(WaitQ (sleep_queue l) := [],
      ready_queue := rev (queues s (WaitQ (sleep_queue l))) @ queues s ready_queue)"
    using wake_all_queues [OF sched_wfD(1) [OF sched_invD(1) [OF inv]], of "sleep_queue l"]
    by (simp add: releasesleep_def)
  moreover obtain t where "acquiresleep l (releasesleep l s) = Ret t ()"
    using sleeplock.released_can_be_acquired by blast
  moreover have "acquiresleep l u \<noteq> Ret v ()" if "sl_locked (sleeplocks u l) = sl_locked (sleeplocks t l)"
    for u v :: "'a lockkernel_scheme"
    by (rule sleeplock.exclusive [OF \<open>acquiresleep l (releasesleep l s) = Ret t ()\<close>]) (simp add: that)
  ultimately show ?thesis
    by blast
qed

definition demo_lock :: lockkernel where
  "demo_lock = \<lparr>pcb_tab = demo_tab,
    queues = (\<lambda>q. if q = ready_queue then [PCB 2] else if q = WaitQ (sleep_queue 64) then [PCB 3]
      else if q = WaitQ (mutex_block_queue 32) then [PCB 4] else []),
    current_running_master = PCB 1, current_running_slave = pid0_pcb_slave,
    tp = PCB 1, contexts = (\<lambda>_. demo_context), switch_contexts = (\<lambda>_. \<lparr>sw_regs = (\<lambda>_. 0)\<rparr>),
    satp = 0, ticks = 0, process_id = 5,
    sig_table = (\<lambda>_. \<lparr>st_used = 1, st_num = 1, st_actions = (\<lambda>_. zero_action)\<rparr>),
    mutexes = (\<lambda>_. \<lparr>mx_pid = 1, mx_status = LOCKED\<rparr>), sleeplocks = (\<lambda>_. \<lparr>sl_locked = 1, sl_pid = 1\<rparr>)\<rparr>"

lemma demo_lock_inv: "sched_inv demo_lock"
proof -
  have "store_inv (queues demo_lock)"
    by (rule store_invI) (auto simp: demo_lock_def split: if_splits)
  then have "sched_wf demo_lock"
    by (intro sched_wfI)
      (auto simp: demo_lock_def demo_tab_def demo_pcb_def demo_context_def queued_def running_def other_def
        idle_def get_current_cpu_id_def get_current_running_def split: if_splits pcb_ref.splits)
  then show ?thesis
    by (auto simp: sched_inv_def demo_lock_def demo_tab_def demo_pcb_def split: pcb_ref.splits)
qed

theorem sleeplock_handover_witness:
  "queues (releasesleep 64 demo_lock) ready_queue = [PCB 3, PCB 2]
    \<and> queues (releasesleep 64 demo_lock) (WaitQ (sleep_queue 64)) = []
    \<and> (\<exists>t. acquiresleep 64 (releasesleep 64 demo_lock) = Ret t ())"
  using sleeplock_handover [OF demo_lock_inv, of 64] by (auto simp: demo_lock_def)

text \<open>What the processes do with the mutex \<open>l\<close> after a release, whatever the order: the scheduler works, processes try to
  acquire \<open>l\<close> and block, or acquire it, and the one that has acquired it, and no other, releases it; they use other locks
  as they like. The second component says that some process has acquired \<open>l\<close> and not released it yet.\<close>

inductive mutex_step :: "ptr \<Rightarrow> 'a lockkernel_scheme \<times> bool \<Rightarrow> 'a lockkernel_scheme \<times> bool \<Rightarrow> bool" for l where
  slice: "sched_step s t \<Longrightarrow> mutex_step l (s, h) (t, h)"
| attempt: "do_mutex_lock_acquire l s = Blocked t \<Longrightarrow> mutex_step l (s, h) (t, h)"
| success: "do_mutex_lock_acquire l s = Ret t () \<Longrightarrow> mutex_step l (s, h) (t, True)"
| release: "mutex_step l (s, True) (do_mutex_lock_release l s, False)"
| other_acquire: "k \<noteq> l \<Longrightarrow> do_mutex_lock_acquire k s = Ret t () \<or> do_mutex_lock_acquire k s = Blocked t \<Longrightarrow> mutex_step l (s, h) (t, h)"
| other_release: "k \<noteq> l \<Longrightarrow> mutex_step l (s, h) (do_mutex_lock_release k s, h)"
| sleep_acquire: "acquiresleep k s = Ret t () \<or> acquiresleep k s = Blocked t \<Longrightarrow> mutex_step l (s, h) (t, h)"
| sleep_release: "mutex_step l (s, h) (releasesleep k s, h)"

lemma mutexes_more: "kernel.more s = kernel.more t \<Longrightarrow> mutexes s = mutexes t"
  by (cases s, cases t) (simp add: kernel.defs)

lemma do_scheduler_more: "kernel.more (do_scheduler s) = kernel.more s"
  by (simp add: do_scheduler_def Let_def case_prod_beta resume_effect(6) pick_next_frame(5) requeue_effect(8))

lemma block_on_more: "kernel.more (block_on r q s) = kernel.more s"
  by (simp add: block_on_def Let_def do_scheduler_more)

lemma handle_signal_more: "handle_signal s = Ret t x \<Longrightarrow> kernel.more t = kernel.more s"
  by (auto simp: handle_signal_def deliver_def Let_def split: if_splits option.splits)

lemma handle_signal_not_Blocked: "handle_signal s \<noteq> Blocked t"
  by (auto simp: handle_signal_def deliver_def Let_def split: option.splits)

lemma do_block_mutexes:
  fixes s :: "'a lockkernel_scheme"
  shows "do_block r q s = Blocked t \<Longrightarrow> mutexes t = mutexes s"
proof (rule mutexes_more)
  assume "do_block r q s = Blocked t"
  then show "kernel.more t = kernel.more s"
    unfolding do_block_def by (cases "handle_signal s") (auto simp: block_on_more handle_signal_more handle_signal_not_Blocked)
qed

lemma sched_step_mutexes:
  fixes s :: "'a lockkernel_scheme"
  assumes "sched_step s t"
  shows "mutexes t = mutexes s"
  using assms by (elim sched_stepE) (auto intro!: mutexes_more simp: do_scheduler_more block_on_more)

lemma mutex_step_locked:
  assumes "mutex_step l x y" and "mx_status (mutexes (fst x) l) = LOCKED" and "\<not> snd x"
  shows "mx_status (mutexes (fst y) l) = LOCKED \<and> \<not> snd y"
  using assms
proof cases
  case (success s t h)
  then show ?thesis
    using assms(2) mutex.acquire_returns [of l s t] by simp
qed (auto simp: sched_step_mutexes do_mutex_lock_acquire_def acquiresleep_def releasesleep_def do_mutex_lock_release_def Let_def do_block_not_Ret
    dest!: do_block_mutexes split: if_splits)

text \<open>C27: \<open>do_mutex_lock_release\<close> with a waiting process wakes it but leaves the lock in state \<open>LOCKED\<close>, though
  nobody holds it. From then on, whatever the processes do, in every order of their time slices and of their uses of
  this and other locks in which only a process that has acquired the mutex releases it, the mutex stays \<open>LOCKED\<close> and
  nobody, the woken process included, ever acquires it.\<close>

theorem mutex_release_deadlock:
  assumes "mx_status (mutexes s l) = LOCKED" and "queues s (WaitQ (mutex_block_queue l)) \<noteq> []"
    and "(mutex_step l)\<^sup>*\<^sup>* (do_mutex_lock_release l s, False) (t, h)"
  shows "mx_status (mutexes t l) = LOCKED \<and> \<not> h \<and> (\<forall>u. do_mutex_lock_acquire l t \<noteq> Ret u ())"
proof -
  have "mx_status (mutexes (fst (t, h)) l) = LOCKED \<and> \<not> snd (t, h)"
    using assms(3)
  proof (induction rule: rtranclp_induct)
    case base
    then show ?case
      using assms(1,2) by (simp add: do_mutex_lock_release_def klist_empty_def)
  next
    case (step y z)
    then show ?case
      using mutex_step_locked by blast
  qed
  then show ?thesis
    using mutex.acquire_returns by fastforce
qed

text \<open>After the release the running process tries to acquire the mutex again and the woken process gets its turn.\<close>

theorem mutex_release_deadlock_witness:
  "do_mutex_lock_acquire 32 (do_mutex_lock_release 32 demo_lock) =
      Blocked (block_on (PCB 1) (WaitQ (mutex_block_queue 32)) (do_mutex_lock_release 32 demo_lock))
    \<and> mx_status (mutexes (block_on (PCB 1) (WaitQ (mutex_block_queue 32)) (do_mutex_lock_release 32 demo_lock)) 32) = LOCKED
    \<and> (\<forall>u. do_mutex_lock_acquire 32 (block_on (PCB 1) (WaitQ (mutex_block_queue 32)) (do_mutex_lock_release 32 demo_lock)) \<noteq> Ret u ())"
proof -
  let ?r = "do_mutex_lock_release 32 demo_lock"
  have d: "mx_status (mutexes demo_lock 32) = LOCKED" "queues demo_lock (WaitQ (mutex_block_queue 32)) \<noteq> []"
    by (simp_all add: demo_lock_def)
  have "tp ?r = PCB 1" "sig_recv (pcb_tab ?r (PCB 1)) = 0" "mx_status (mutexes ?r 32) = LOCKED"
    by (simp_all add: do_mutex_lock_release_def klist_empty_def demo_lock_def do_unblock_def klist_del_def klist_add_def upd_pcb_def
        demo_tab_def demo_pcb_def)
  then have a: "do_mutex_lock_acquire 32 ?r = Blocked (block_on (PCB 1) (WaitQ (mutex_block_queue 32)) ?r)"
    by (simp add: do_mutex_lock_acquire_def do_block_quiet get_current_running_def)
  then have "(mutex_step 32)\<^sup>*\<^sup>* (?r, False) (block_on (PCB 1) (WaitQ (mutex_block_queue 32)) ?r, False)"
    by (intro r_into_rtranclp mutex_step.attempt)
  from mutex_release_deadlock [OF d this] a show ?thesis by blast
qed

end
