(* ===== verification/RingBuffer.thy ===== *)
theory RingBuffer
  imports Locks
begin

text \<open>
  The ring buffer of \<open>include/os/ring_buffer.h\<close> and \<open>kernel/system/ring_buffer.c\<close>, with its
  mixed \<open>int32_t\<close> and \<open>size_t\<close> arithmetic. Under its invariant it is a first-in first-out
  queue of at most 4094 bytes (locale \<open>byte_fifo\<close>, interpreted by it).
\<close>

section \<open>Operations\<close>

abbreviation (input) RING_BUFFER_SIZE :: u64 where "RING_BUFFER_SIZE \<equiv> 4095"

record ring_buffer =
  rb_size :: u64
  rb_head :: i32
  rb_tail :: i32
  rb_buf :: "u8 list"

text \<open>\<open>init_ring_buffer\<close> clears the structure; the mutex is set up by its caller's
  \<^const>\<open>do_mutex_lock_init\<close>. The buffer pointer is \<open>NULL\<close> afterwards (no bytes).\<close>

definition init_ring_buffer :: ring_buffer where
  "init_ring_buffer = \<lparr>rb_size = RING_BUFFER_SIZE, rb_head = 0, rb_tail = 0, rb_buf = []\<rparr>"

definition ring_buffer_used :: "ring_buffer \<Rightarrow> i32" where
  "ring_buffer_used rb = ucast ((scast (rb_tail rb - rb_head rb) + rb_size rb) mod rb_size rb)"

definition ring_buffer_free :: "ring_buffer \<Rightarrow> i32" where
  "ring_buffer_free rb = ucast (rb_size rb - scast (ring_buffer_used rb) - 1)"

definition ring_buffer_empty :: "ring_buffer \<Rightarrow> bool" where
  "ring_buffer_empty rb \<longleftrightarrow> ring_buffer_used rb = 0"

definition ring_buffer_full :: "ring_buffer \<Rightarrow> bool" where
  "ring_buffer_full rb \<longleftrightarrow> ring_buffer_free rb = 0"

text \<open>\<open>min(x, sz)\<close> of an \<open>int\<close> and a \<open>size_t\<close>, assigned to an \<open>int32_t\<close>.\<close>

definition min_int_size :: "i32 \<Rightarrow> u64 \<Rightarrow> i32" where
  "min_int_size x sz = (if scast x < sz then x else ucast sz)"

text \<open>\<open>kmemcpy\<close> of a part of the buffer, and into it.\<close>

definition bslice :: "u8 list \<Rightarrow> nat \<Rightarrow> nat \<Rightarrow> u8 list" where
  "bslice bs off len = take len (drop off bs)"

definition put_slice :: "u8 list \<Rightarrow> nat \<Rightarrow> u8 list \<Rightarrow> u8 list" where
  "put_slice bs off d = take off bs @ d @ drop (off + length d) bs"

text \<open>The body of \<open>read_ring_buffer\<close> between acquiring and releasing the mutex: the new
  structure and the bytes copied out; \<open>None\<close> is \<open>assert(0)\<close>.\<close>

definition rb_read :: "ring_buffer \<Rightarrow> u64 \<Rightarrow> (ring_buffer \<times> u8 list) option" where
  "rb_read rb sz =
    (let len = min_int_size (ring_buffer_used rb) sz in
     if 0 < sint len then
       let bytes =
         (if scast (rb_head rb + len) > rb_size rb then
            let right = ucast (rb_size rb - scast (rb_head rb)) :: i32; left = len - right
            in bslice (rb_buf rb) (unat (rb_head rb)) (unat right) @ bslice (rb_buf rb) 0 (unat left)
          else bslice (rb_buf rb) (unat (rb_head rb)) (unat len))
       in Some (rb\<lparr>rb_head := ucast (scast (rb_head rb + len) mod rb_size rb)\<rparr>, bytes)
     else if sint len < 0 then None
     else Some (rb, []))"

text \<open>The body of \<open>write_ring_buffer\<close>: the new structure and the number of bytes taken.\<close>

definition rb_write :: "ring_buffer \<Rightarrow> u8 list \<Rightarrow> u64 \<Rightarrow> (ring_buffer \<times> i32) option" where
  "rb_write rb d sz =
    (let len = min_int_size (ring_buffer_free rb) sz in
     if 0 < sint len then
       let buf =
         (if scast (rb_tail rb + len) > rb_size rb then
            let right = ucast (rb_size rb - scast (rb_tail rb)) :: i32; left = len - right;
                buf = put_slice (rb_buf rb) (unat (rb_tail rb)) (bslice d 0 (unat right))
            in if 0 < sint left then put_slice buf 0 (bslice d (unat right) (unat left)) else buf
          else put_slice (rb_buf rb) (unat (rb_tail rb)) (bslice d 0 (unat len)))
       in Some (rb\<lparr>rb_buf := buf, rb_tail := ucast (scast (rb_tail rb + len) mod rb_size rb)\<rparr>, len)
     else if sint len < 0 then None
     else Some (rb, len))"

text \<open>The operation with its mutex \<open>l\<close>; \<open>read_ring_buffer\<close> first takes a page fault on the
  destination and follows with the pipes.\<close>

definition write_ring_buffer ::
    "ptr \<Rightarrow> ring_buffer \<Rightarrow> u8 list \<Rightarrow> u64 \<Rightarrow> 'a lockkernel_scheme \<Rightarrow>
      ('a lockkernel_scheme, ring_buffer \<times> i32) outcome" where
  "write_ring_buffer l rb d sz s =
    obind (do_mutex_lock_acquire l s) (\<lambda>s _.
      case rb_write rb d sz of
        None \<Rightarrow> Panic s
      | Some r \<Rightarrow> Ret (do_mutex_lock_release l s) r)"

text \<open>One turn of the waiting loops: 0 when the buffer is ready, 1 on timeout; otherwise the
  processor is given up and the loop is entered again.\<close>

definition wait_ring_buffer_read :: "ring_buffer \<Rightarrow> u64 \<Rightarrow> 'a kernel_scheme \<Rightarrow> ('a kernel_scheme, i32) outcome" where
  "wait_ring_buffer_read rb final_ticks s =
    (if ring_buffer_empty rb then
       if final_ticks < get_ticks s then Ret s 1 else Blocked (do_scheduler s)
     else Ret s 0)"

definition wait_ring_buffer_write :: "ring_buffer \<Rightarrow> u64 \<Rightarrow> 'a kernel_scheme \<Rightarrow> ('a kernel_scheme, i32) outcome" where
  "wait_ring_buffer_write rb final_ticks s =
    (if ring_buffer_full rb then
       if final_ticks < get_ticks s then Ret s 1 else Blocked (do_scheduler s)
     else Ret s 0)"

section \<open>Invariant and contents\<close>

abbreviation head_n :: "ring_buffer \<Rightarrow> nat" where "head_n rb \<equiv> unat (rb_head rb)"
abbreviation tail_n :: "ring_buffer \<Rightarrow> nat" where "tail_n rb \<equiv> unat (rb_tail rb)"

definition rb_inv :: "ring_buffer \<Rightarrow> bool" where
  "rb_inv rb \<longleftrightarrow> rb_size rb = RING_BUFFER_SIZE \<and> head_n rb < 4095 \<and> tail_n rb < 4095
    \<and> 4095 \<le> length (rb_buf rb)"

definition used_n :: "ring_buffer \<Rightarrow> nat" where
  "used_n rb = (tail_n rb + 4095 - head_n rb) mod 4095"

definition contents :: "ring_buffer \<Rightarrow> u8 list" where
  "contents rb = map (\<lambda>i. rb_buf rb ! ((head_n rb + i) mod 4095)) [0..<used_n rb]"

lemma used_n_less: "used_n rb < 4095"
  by (simp add: used_n_def)

lemma length_contents [simp]: "length (contents rb) = used_n rb"
  by (simp add: contents_def)

lemma rb_invD:
  assumes "rb_inv rb"
  shows "rb_size rb = of_nat 4095" and "rb_head rb = of_nat (head_n rb)" and "head_n rb < 4095"
    and "rb_tail rb = of_nat (tail_n rb)" and "tail_n rb < 4095" and "4095 \<le> length (rb_buf rb)"
  using assms by (simp_all add: rb_inv_def)

lemma diff_words:
  assumes "h < 4095" and "t < 4095"
  shows "(scast (of_nat t - of_nat h :: i32) :: u64) + of_nat 4095 = of_nat (t + 4095 - h)"
proof -
  have "(of_nat t - of_nat h :: i32) = of_int (int t - int h)"
    by simp
  then have "(scast (of_nat t - of_nat h :: i32) :: u64) = of_int (int t - int h)"
    using scast_of_int_i32 [of "int t - int h"] assms by simp
  moreover have "int t - int h + 4095 = int (t + 4095 - h)"
    using assms by simp
  ultimately have "(scast (of_nat t - of_nat h :: i32) :: u64) + of_int 4095 = of_int (int (t + 4095 - h))"
    by (metis of_int_add)
  then show ?thesis by simp
qed

lemma used_eq:
  assumes "rb_inv rb"
  shows "ring_buffer_used rb = of_nat (used_n rb)"
proof -
  note D = rb_invD [OF assms]
  have "ring_buffer_used rb = ucast (of_nat (tail_n rb + 4095 - head_n rb) mod of_nat 4095 :: u64)"
    unfolding ring_buffer_used_def using diff_words [OF D(3,5)] D(1,2,4) by metis
  also have "\<dots> = of_nat (used_n rb)"
    using D(3,5) used_n_less [of rb] unfolding used_n_def
    by (subst mod_of_nat_u64, simp, simp, subst ucast_of_nat_u64) simp_all
  finally show ?thesis .
qed

lemma free_eq:
  assumes "rb_inv rb"
  shows "ring_buffer_free rb = of_nat (4094 - used_n rb)"
proof -
  let ?u = "used_n rb"
  have "rb_size rb - scast (ring_buffer_used rb) - 1 = (of_nat 4095 - of_nat ?u - 1 :: u64)"
    unfolding used_eq [OF assms] rb_invD(1) [OF assms] using used_n_less [of rb]
    by (subst scast_of_nat_i32) simp_all
  also have "\<dots> = of_nat (4094 - ?u)"
    using used_n_less [of rb] by (simp add: of_nat_diff)
  finally have "ring_buffer_free rb = ucast (of_nat (4094 - ?u) :: u64)"
    by (simp only: ring_buffer_free_def)
  also have "\<dots> = of_nat (4094 - ?u)"
    by (rule ucast_of_nat_u64) simp
  finally show ?thesis .
qed

lemma min_int_size_eq:
  assumes "n < 2 ^ 31"
  shows "min_int_size (of_nat n) sz = of_nat (min n (unat sz))"
proof (cases "n < unat sz")
  case True
  then have "(of_nat n :: u64) < sz"
    using assms by (simp add: word_less_nat_alt unat_of_nat_u64)
  with True show ?thesis
    using assms by (simp add: min_int_size_def small_words)
next
  case False
  then have "\<not> (of_nat n :: u64) < sz"
    using assms by (simp add: word_less_nat_alt unat_of_nat_u64)
  with False show ?thesis
    using assms ucast_of_nat_u64 [of "unat sz"] by (simp add: min_int_size_def small_words min_def)
qed

text \<open>The bytes at \<open>n\<close> consecutive ring positions from \<open>p\<close> on.\<close>

definition ring_bytes :: "u8 list \<Rightarrow> nat \<Rightarrow> nat \<Rightarrow> u8 list" where
  "ring_bytes buf p n = map (\<lambda>i. buf ! ((p + i) mod 4095)) [0..<n]"

lemma ring_bytes_slice:
  assumes "p < 4095" and "n \<le> 4095" and "4095 \<le> length buf"
  shows "(if p + n > 4095 then bslice buf p (4095 - p) @ bslice buf 0 (n - (4095 - p)) else bslice buf p n)
    = ring_bytes buf p n"
proof (rule nth_equalityI)
  have [simp]: "min (length buf - p) (4095 - p) = 4095 - p"
    using assms by simp
  fix i
  assume i: "i < length (if p + n > 4095 then bslice buf p (4095 - p) @ bslice buf 0 (n - (4095 - p)) else bslice buf p n)"
  then have "i < n"
    using assms by (auto simp: bslice_def split: if_splits)
  moreover have "(p + i) mod 4095 = (if p + i < 4095 then p + i else p + i - 4095)"
    using \<open>i < n\<close> assms by (simp add: mod_if)
  ultimately show "(if p + n > 4095 then bslice buf p (4095 - p) @ bslice buf 0 (n - (4095 - p)) else bslice buf p n) ! i
      = ring_bytes buf p n ! i"
    using assms by (auto simp: bslice_def ring_bytes_def nth_append add.commute)
qed (use assms in \<open>auto simp: bslice_def ring_bytes_def\<close>)

lemma contents_ring_bytes: "contents rb = ring_bytes (rb_buf rb) (head_n rb) (used_n rb)"
  by (simp add: contents_def ring_bytes_def)

lemma take_ring_bytes: "n \<le> m \<Longrightarrow> take n (ring_bytes buf p m) = ring_bytes buf p n"
  by (simp add: ring_bytes_def take_map)

lemma drop_ring_bytes: "n \<le> m \<Longrightarrow> drop n (ring_bytes buf p m) = ring_bytes buf ((p + n) mod 4095) (m - n)"
  by (rule nth_equalityI) (auto simp: ring_bytes_def mod_simps add.assoc)

section \<open>What the operations do\<close>

text \<open>The positions advance modulo the size.\<close>

lemma scast_sum: "p < 4095 \<Longrightarrow> n < 4095 \<Longrightarrow> (scast (of_nat p + of_nat n :: i32) :: u64) = of_nat (p + n)"
  using scast_of_nat_i32 [of "p + n"] by simp

lemma advance:
  assumes "p < 4095" and "n < 4095"
  shows "(ucast (scast (of_nat p + of_nat n :: i32) mod of_nat 4095 :: u64) :: i32) = of_nat ((p + n) mod 4095)"
proof -
  have "(scast (of_nat p + of_nat n :: i32) mod of_nat 4095 :: u64) = of_nat ((p + n) mod 4095)"
    unfolding scast_sum [OF assms] using assms by (intro mod_of_nat_u64) simp_all
  also have "(ucast \<dots> :: i32) = of_nat ((p + n) mod 4095)"
    by (rule ucast_of_nat_u64) (rule order_less_trans [OF mod_less_divisor], simp_all)
  finally show ?thesis .
qed

lemma right_part:
  assumes "p < 4095"
  shows "(ucast (of_nat 4095 - scast (of_nat p :: i32) :: u64) :: i32) = of_nat (4095 - p)"
proof -
  have "(of_nat 4095 - scast (of_nat p :: i32) :: u64) = of_nat (4095 - p)"
    using assms by (subst scast_of_nat_i32) (simp_all add: of_nat_diff)
  also have "(ucast \<dots> :: i32) = of_nat (4095 - p)"
    by (rule ucast_of_nat_u64) simp
  finally show ?thesis .
qed

lemma wraps:
  assumes "p < 4095" and "n < 4095"
  shows "(scast (of_nat p + of_nat n :: i32) :: u64) > of_nat 4095 \<longleftrightarrow> p + n > 4095"
    and "unat (of_nat (4095 - p) :: i32) = 4095 - p"
    and "p + n > 4095 \<Longrightarrow> (of_nat n - of_nat (4095 - p) :: i32) = of_nat (n - (4095 - p))"
proof -
  show "(scast (of_nat p + of_nat n :: i32) :: u64) > of_nat 4095 \<longleftrightarrow> p + n > 4095"
    unfolding scast_sum [OF assms] using assms by (intro less_of_nat_u64) simp_all
  show "unat (of_nat (4095 - p) :: i32) = 4095 - p"
    by (rule unat_of_nat_i32) simp
  show "p + n > 4095 \<Longrightarrow> (of_nat n - of_nat (4095 - p) :: i32) = of_nat (n - (4095 - p))"
    using assms by (subst of_nat_diff) simp_all
qed

lemma rb_read_eq:
  assumes "rb_inv rb"
  shows "rb_read rb sz = (let n = min (used_n rb) (unat sz) in
    Some (rb\<lparr>rb_head := of_nat ((head_n rb + n) mod 4095)\<rparr>, take n (contents rb)))"
proof -
  define h where "h = head_n rb"
  define n where "n = min (used_n rb) (unat sz)"
  note D = rb_invD [OF assms]
  have n: "n < 4095" "n \<le> used_n rb"
    using used_n_less [of rb] by (simp_all add: n_def)
  have len: "min_int_size (ring_buffer_used rb) sz = of_nat n"
    unfolding used_eq [OF assms] n_def using used_n_less [of rb] by (intro min_int_size_eq) simp
  have sl: "sint (of_nat n :: i32) = int n"
    using n by (intro sint_of_nat_i32) simp
  have h: "rb_head rb = of_nat h" "h < 4095"
    using D(2,3) by (simp_all add: h_def)
  have "(if h + n > 4095 then bslice (rb_buf rb) h (4095 - h) @ bslice (rb_buf rb) 0 (n - (4095 - h))
      else bslice (rb_buf rb) h n) = ring_bytes (rb_buf rb) h n"
    using h n D(6) by (intro ring_bytes_slice) simp_all
  then have bytes: "(if h + n > 4095 then bslice (rb_buf rb) h (4095 - h) @ bslice (rb_buf rb) 0 (n - (4095 - h))
      else bslice (rb_buf rb) h n) = take n (contents rb)"
    using n(2) by (simp only: contents_ring_bytes take_ring_bytes h_def)
  have left: "unat (of_nat (n - (4095 - h)) :: i32) = n - (4095 - h)" and un: "unat (of_nat n :: i32) = n"
    and uh: "unat (of_nat h :: i32) = h"
    using n h by (intro unat_of_nat_i32; simp)+
  have zero: "rb\<lparr>rb_head := of_nat (h mod 4095)\<rparr> = rb"
    using h by simp
  show ?thesis
    unfolding rb_read_def len sl Let_def D(1) h(1) n_def [symmetric] advance [OF h(2) n(1)] right_part [OF h(2)]
      wraps(1) [OF h(2) n(1)] uh
    using bytes wraps(2,3) [OF h(2) n(1)] left un zero
    by (cases "n = 0") auto
qed

text \<open>Writing \<open>n\<close> bytes at the ring positions from \<open>p\<close> on.\<close>

definition ring_put :: "u8 list \<Rightarrow> nat \<Rightarrow> u8 list \<Rightarrow> u8 list" where
  "ring_put buf p d =
    (if p + length d > 4095
     then put_slice (put_slice buf p (take (4095 - p) d)) 0 (drop (4095 - p) d)
     else put_slice buf p d)"

lemma length_put_slice [simp]: "off + length d \<le> length bs \<Longrightarrow> length (put_slice bs off d) = length bs"
  by (simp add: put_slice_def)

lemma nth_put_slice:
  "off + length d \<le> length bs \<Longrightarrow> i < length bs \<Longrightarrow>
    put_slice bs off d ! i = (if off \<le> i \<and> i < off + length d then d ! (i - off) else bs ! i)"
  by (auto simp: put_slice_def nth_append)

lemma length_ring_put:
  "p < 4095 \<Longrightarrow> length d < 4095 \<Longrightarrow> 4095 \<le> length buf \<Longrightarrow> length (ring_put buf p d) = length buf"
  by (simp add: ring_put_def)

lemma nth_ring_put:
  assumes "p < 4095" and "length d < 4095" and "4095 \<le> length buf" and "i < 4095"
  shows "ring_put buf p d ! ((p + i) mod 4095) = (if i < length d then d ! i else buf ! ((p + i) mod 4095))"
proof -
  have "(p + i) mod 4095 = (if p + i < 4095 then p + i else p + i - 4095)"
    using assms by (simp add: mod_if)
  then show ?thesis
    using assms by (auto simp: ring_put_def nth_put_slice)
qed

lemma rb_write_eq:
  assumes "rb_inv rb" and "unat sz \<le> length d"
  shows "rb_write rb d sz = (let n = min (4094 - used_n rb) (unat sz) in
    Some (rb\<lparr>rb_buf := ring_put (rb_buf rb) (tail_n rb) (take n d),
             rb_tail := of_nat ((tail_n rb + n) mod 4095)\<rparr>, of_nat n))"
proof -
  define t where "t = tail_n rb"
  define n where "n = min (4094 - used_n rb) (unat sz)"
  note D = rb_invD [OF assms(1)]
  have n: "n < 4095" "n \<le> length d"
    using assms(2) by (simp_all add: n_def)
  have len: "min_int_size (ring_buffer_free rb) sz = of_nat n"
    unfolding free_eq [OF assms(1)] n_def by (intro min_int_size_eq) simp
  have t: "rb_tail rb = of_nat t" "t < 4095"
    using D(4,5) by (simp_all add: t_def)
  have sl: "sint (of_nat n :: i32) = int n"
    and sl': "t + n > 4095 \<Longrightarrow> sint (of_nat (n - (4095 - t)) :: i32) = int (n - (4095 - t))"
    using n t by (intro sint_of_nat_i32; simp)+
  have left: "unat (of_nat (n - (4095 - t)) :: i32) = n - (4095 - t)" and un: "unat (of_nat n :: i32) = n"
    and ut: "unat (of_nat t :: i32) = t"
    using n t by (intro unat_of_nat_i32; simp)+
  have put: "ring_put (rb_buf rb) t (take n d) =
    (if t + n > 4095 then put_slice (put_slice (rb_buf rb) t (bslice d 0 (4095 - t))) 0
        (bslice d (4095 - t) (n - (4095 - t)))
     else put_slice (rb_buf rb) t (bslice d 0 n))"
    using n t by (auto simp: ring_put_def bslice_def min_def drop_take)
  have zero: "rb\<lparr>rb_buf := put_slice (rb_buf rb) t [], rb_tail := of_nat (t mod 4095)\<rparr> = rb"
    using t by (simp add: put_slice_def)
  note step = rb_write_def len sl Let_def D(1) t(1) n_def [symmetric] advance [OF t(2) n(1)]
    right_part [OF t(2)] wraps(1) [OF t(2) n(1)] ut put
  show ?thesis
  proof (cases "n = 0")
    case True
    then show ?thesis
      unfolding step using zero t(2) by (simp add: bslice_def)
  next
    case False
    then show ?thesis
      unfolding step using wraps(2,3) [OF t(2) n(1)] left un sl' by (auto simp: bslice_def)
  qed
qed

lemma used_n_cases:
  "rb_inv rb \<Longrightarrow> used_n rb = (if head_n rb \<le> tail_n rb then tail_n rb - head_n rb else tail_n rb + 4095 - head_n rb)"
  by (auto simp: used_n_def rb_inv_def mod_if)

lemma mod_4095_step:
  fixes p n :: nat
  shows "p < 4095 \<Longrightarrow> n < 4095 \<Longrightarrow> (p + n) mod 4095 = (if p + n < 4095 then p + n else p + n - 4095)"
  by (simp add: mod_if)

text \<open>Reading drops bytes from the front.\<close>

lemma rb_read_contents:
  assumes inv: "rb_inv rb" and n: "n \<le> used_n rb"
  defines "rb' \<equiv> rb\<lparr>rb_head := of_nat ((head_n rb + n) mod 4095)\<rparr>"
  shows "rb_inv rb'" and "contents rb' = drop n (contents rb)"
proof -
  note D = rb_invD [OF inv]
  have n': "n < 4095"
    using n used_n_less [of rb] by simp
  have h: "head_n rb' = (head_n rb + n) mod 4095"
    unfolding rb'_def by simp (rule unat_of_nat_i32, rule order_less_trans [OF mod_less_divisor], simp_all)
  show inv': "rb_inv rb'"
    using inv h by (simp add: rb_inv_def) (simp add: rb'_def)
  have "used_n rb' = used_n rb - n"
    using n used_n_cases [OF inv] used_n_cases [OF inv'] D(3,5) n' h mod_4095_step [OF D(3) n']
    by (auto simp: rb'_def split: if_splits)
  then show "contents rb' = drop n (contents rb)"
    using n by (simp add: contents_ring_bytes drop_ring_bytes h) (simp add: rb'_def)
qed

text \<open>Writing appends bytes at the end.\<close>

lemma rb_write_contents:
  assumes inv: "rb_inv rb" and d: "length d \<le> 4094 - used_n rb"
  defines "rb' \<equiv> rb\<lparr>rb_buf := ring_put (rb_buf rb) (tail_n rb) d,
    rb_tail := of_nat ((tail_n rb + length d) mod 4095)\<rparr>"
  shows "rb_inv rb'" and "contents rb' = contents rb @ d"
proof -
  note D = rb_invD [OF inv]
  let ?n = "length d" and ?h = "head_n rb" and ?t = "tail_n rb" and ?u = "used_n rb"
  have n': "?n < 4095"
    using d by simp
  have t: "tail_n rb' = (?t + ?n) mod 4095" and h: "head_n rb' = ?h"
    unfolding rb'_def by simp_all (rule unat_of_nat_i32, rule order_less_trans [OF mod_less_divisor], simp_all)
  have buf: "rb_buf rb' = ring_put (rb_buf rb) ?t d"
    by (simp add: rb'_def)
  show inv': "rb_inv rb'"
    using inv t h n' length_ring_put [OF D(5) n' D(6)] by (simp add: rb_inv_def buf) (simp add: rb'_def)
  have u: "used_n rb' = ?u + ?n"
    using d used_n_less [of rb] used_n_cases [OF inv] used_n_cases [OF inv'] D(3,5) n' t h mod_4095_step [OF D(5) n']
    by (auto split: if_splits)
  show "contents rb' = contents rb @ d"
  proof (rule nth_equalityI)
    show "length (contents rb') = length (contents rb @ d)"
      by (simp add: u)
    fix i
    assume "i < length (contents rb')"
    then have i: "i < ?u + ?n" and i': "i < 4095"
      using d used_n_less [of rb] by (simp_all add: u)
    have new: "contents rb' ! i = ring_put (rb_buf rb) ?t d ! ((?h + i) mod 4095)"
      using i by (simp add: contents_def u buf h)
    have tail: "?t = (?h + ?u) mod 4095"
      using used_n_cases [OF inv] D(3,5) mod_4095_step [OF D(3) used_n_less [of rb]] by (auto split: if_splits)
    show "contents rb' ! i = (contents rb @ d) ! i"
    proof (cases "i < ?u")
      case True
      have "(?t + (i + 4095 - ?u)) mod 4095 = (?h + ?u + (i + 4095 - ?u)) mod 4095"
        unfolding tail by (rule mod_add_left_eq)
      also have "?h + ?u + (i + 4095 - ?u) = ?h + i + 4095"
        using used_n_less [of rb] by simp
      finally have pos: "(?t + (i + 4095 - ?u)) mod 4095 = (?h + i) mod 4095"
        by simp
      have "i + 4095 - ?u < 4095" "\<not> i + 4095 - ?u < ?n"
        using True d used_n_less [of rb] by simp_all
      then show ?thesis
        using nth_ring_put [OF D(5) n' D(6), of "i + 4095 - ?u"] True
        by (simp add: new pos nth_append) (simp add: contents_def)
    next
      case False
      have "(?t + (i - ?u)) mod 4095 = (?h + ?u + (i - ?u)) mod 4095"
        unfolding tail by (rule mod_add_left_eq)
      then have pos: "(?t + (i - ?u)) mod 4095 = (?h + i) mod 4095"
        using False by simp
      show ?thesis
        using nth_ring_put [OF D(5) n' D(6), of "i - ?u", unfolded pos] False i i'
        by (simp add: new nth_append less_diff_conv2)
    qed
  qed
qed

section \<open>A first-in first-out queue of bytes\<close>

datatype fifo_op = Put "u8 list" | Get u64

fun legal_fifo_op :: "fifo_op \<Rightarrow> bool" where
  "legal_fifo_op (Put d) \<longleftrightarrow> length d < 2 ^ 64"
| "legal_fifo_op (Get sz) \<longleftrightarrow> True"

text \<open>A sequence of writes and reads, by whichever processes: the final queue, the bytes the
  writes took and the bytes the reads delivered.\<close>

fun fifo_run ::
    "('q \<Rightarrow> u64 \<Rightarrow> ('q \<times> u8 list) option) \<Rightarrow> ('q \<Rightarrow> u8 list \<Rightarrow> u64 \<Rightarrow> ('q \<times> i32) option) \<Rightarrow>
      fifo_op list \<Rightarrow> 'q \<Rightarrow> ('q \<times> u8 list \<times> u8 list) option" where
  "fifo_run rd wr [] q = Some (q, [], [])"
| "fifo_run rd wr (Put d # ops) q =
    (case wr q d (of_nat (length d)) of
      None \<Rightarrow> None
    | Some (q, n) \<Rightarrow>
        map_option (\<lambda>(q, acc, got). (q, take (unat n) d @ acc, got)) (fifo_run rd wr ops q))"
| "fifo_run rd wr (Get sz # ops) q =
    (case rd q sz of
      None \<Rightarrow> None
    | Some (q, d) \<Rightarrow> map_option (\<lambda>(q, acc, got). (q, acc, d @ got)) (fifo_run rd wr ops q))"

text \<open>The same on a list of at most \<open>cap\<close> bytes.\<close>

fun fifo_spec :: "nat \<Rightarrow> fifo_op list \<Rightarrow> u8 list \<Rightarrow> u8 list \<times> u8 list \<times> u8 list" where
  "fifo_spec cap [] xs = (xs, [], [])"
| "fifo_spec cap (Put d # ops) xs =
    (let a = take (cap - length xs) d; (ys, acc, got) = fifo_spec cap ops (xs @ a) in (ys, a @ acc, got))"
| "fifo_spec cap (Get sz # ops) xs =
    (let (ys, acc, got) = fifo_spec cap ops (drop (unat sz) xs) in (ys, acc, take (unat sz) xs @ got))"

lemma fifo_spec_order: "fifo_spec cap ops xs = (ys, acc, got) \<Longrightarrow> xs @ acc = got @ ys"
proof (induction cap ops xs arbitrary: ys acc got rule: fifo_spec.induct)
  case (3 cap sz ops xs)
  then obtain got' where "fifo_spec cap ops (drop (unat sz) xs) = (ys, acc, got')" "got = take (unat sz) xs @ got'"
    by (auto simp: Let_def split: prod.splits)
  with 3 have "take (unat sz) xs @ drop (unat sz) xs @ acc = got @ ys"
    by (metis append_assoc)
  then show ?case
    by (simp only: append_assoc [symmetric] append_take_drop_id)
qed (auto simp: Let_def split: prod.splits)

locale byte_fifo =
  fixes invar :: "'q \<Rightarrow> bool"
    and abs :: "'q \<Rightarrow> u8 list"
    and rd :: "'q \<Rightarrow> u64 \<Rightarrow> ('q \<times> u8 list) option"
    and wr :: "'q \<Rightarrow> u8 list \<Rightarrow> u64 \<Rightarrow> ('q \<times> i32) option"
    and cap :: nat
  assumes cap_small: "cap < 2 ^ 31"
    and abs_cap: "invar q \<Longrightarrow> length (abs q) \<le> cap"
    and rd_law: "invar q \<Longrightarrow> \<exists>q'. rd q sz = Some (q', take (unat sz) (abs q)) \<and> invar q'
      \<and> abs q' = drop (unat sz) (abs q)"
    and wr_law: "invar q \<Longrightarrow> unat sz = length d \<Longrightarrow>
      \<exists>q'. wr q d sz = Some (q', of_nat (min (cap - length (abs q)) (length d))) \<and> invar q'
      \<and> abs q' = abs q @ take (cap - length (abs q)) d"
begin

lemma run_refines:
  assumes "invar q" and "\<forall>op \<in> set ops. legal_fifo_op op" and "fifo_spec cap ops (abs q) = (ys, acc, got)"
  shows "\<exists>q'. fifo_run rd wr ops q = Some (q', acc, got) \<and> invar q' \<and> abs q' = ys"
  using assms
proof (induction ops arbitrary: q ys acc got)
  case (Cons op ops)
  show ?case
  proof (cases op)
    case (Put d)
    let ?a = "take (cap - length (abs q)) d"
    obtain acc' where spec: "fifo_spec cap ops (abs q @ ?a) = (ys, acc', got)" and acc: "acc = ?a @ acc'"
      using Cons.prems(3) Put by (auto simp: Let_def split: prod.splits)
    have "unat (of_nat (length d) :: u64) = length d"
      using Cons.prems(2) Put by (simp add: unat_of_nat take_bit_nat_eq_self)
    from wr_law [OF Cons.prems(1) this] obtain q1 where
      q1: "wr q d (of_nat (length d)) = Some (q1, of_nat (min (cap - length (abs q)) (length d)))"
        "invar q1" "abs q1 = abs q @ ?a"
      by blast
    have n: "unat (of_nat (min (cap - length (abs q)) (length d)) :: i32) = min (cap - length (abs q)) (length d)"
      using cap_small by (intro unat_of_nat_i32) simp
    have "take (min (cap - length (abs q)) (length d)) d = ?a"
      by (simp add: min_def)
    with Cons.IH [OF q1(2), of ys acc' got] Cons.prems(2) spec acc Put q1 n show ?thesis
      by auto
  next
    case (Get sz)
    from rd_law [OF Cons.prems(1), of sz] obtain q1 where
      q1: "rd q sz = Some (q1, take (unat sz) (abs q))" "invar q1" "abs q1 = drop (unat sz) (abs q)"
      by blast
    obtain got' where "fifo_spec cap ops (abs q1) = (ys, acc, got')" and "got = take (unat sz) (abs q) @ got'"
      using Cons.prems(3) Get q1(3) by (auto simp: Let_def split: prod.splits)
    with Cons.IH [OF q1(2)] Cons.prems(2) Get q1(1) show ?thesis
      by fastforce
  qed
qed simp

end

interpretation ring: byte_fifo rb_inv contents rb_read rb_write 4094
proof
  show "rb_inv q \<Longrightarrow> length (contents q) \<le> 4094" for q
    using used_n_less [of q] by simp
  show "\<exists>q'. rb_read q sz = Some (q', take (unat sz) (contents q)) \<and> rb_inv q'
      \<and> contents q' = drop (unat sz) (contents q)" if "rb_inv q" for q sz
    using rb_read_contents [OF that, of "min (used_n q) (unat sz)"] rb_read_eq [OF that, of sz]
    by (auto simp: min_def Let_def)
  show "\<exists>q'. rb_write q d sz = Some (q', of_nat (min (4094 - length (contents q)) (length d))) \<and> rb_inv q'
      \<and> contents q' = contents q @ take (4094 - length (contents q)) d"
    if "rb_inv q" and "unat sz = length d" for q d sz
  proof -
    have "take (min (4094 - used_n q) (length d)) d = take (4094 - used_n q) d"
      by (simp add: min_def)
    then show ?thesis
      using rb_write_contents [OF that(1), of "take (4094 - used_n q) d"] rb_write_eq [OF that(1), of sz d] that(2)
      by (simp add: Let_def min.commute)
  qed
qed simp

text \<open>C8: A ring buffer is a byte queue of capacity 4094. Any sequence of writes and reads runs
  without reaching the assertion, delivers and accepts exactly the bytes the list specification
  does, and the bytes delivered followed by those left are the initial bytes followed by those
  accepted: nothing is lost, duplicated or reordered across the wrap-around.\<close>

theorem ring_buffer_fifo:
  assumes "rb_inv rb" and "\<forall>op \<in> set ops. legal_fifo_op op"
  shows "\<exists>rb' acc got. fifo_run rb_read rb_write ops rb = Some (rb', acc, got) \<and> rb_inv rb'
    \<and> fifo_spec 4094 ops (contents rb) = (contents rb', acc, got)
    \<and> contents rb @ acc = got @ contents rb'"
proof -
  obtain ys acc got where spec: "fifo_spec 4094 ops (contents rb) = (ys, acc, got)"
    by (cases "fifo_spec 4094 ops (contents rb)") auto
  from ring.run_refines [OF assms spec] fifo_spec_order [OF spec] spec show ?thesis
    by auto
qed

definition demo_ring :: ring_buffer where
  "demo_ring = init_ring_buffer\<lparr>rb_head := 4093, rb_tail := 4093, rb_buf := replicate 4096 0\<rparr>"

theorem ring_buffer_fifo_witness:
  "\<exists>rb'. fifo_run rb_read rb_write [Put [1, 2, 3, 4], Get 3] demo_ring = Some (rb', [1, 2, 3, 4], [1, 2, 3])
    \<and> contents rb' = [4]"
proof -
  have "rb_inv demo_ring" and c: "contents demo_ring = []"
    by (simp_all add: rb_inv_def demo_ring_def init_ring_buffer_def contents_def used_n_def)
  from ring_buffer_fifo [OF this(1), of "[Put [1, 2, 3, 4], Get 3]"] c show ?thesis
    by auto
qed

end
