(* ===== verification/Mm.thy ===== *)
theory Mm
  imports Locks "HOL-Library.Multiset"
begin

text \<open>
  Physical pages and the mapping of pages into an address space: \<open>kernel/mm/mm.c\<close>. The pages are
  the elements of the array \<open>pageRecyc\<close>, each on one of the lists of free, used and swappable pages;
  the words of the pages are in the memory \<open>mem\<close>. The allocator is shown to count references
  (\<open>mm_inv\<close>, \<open>page_refs\<close>).
\<close>

section \<open>State\<close>

abbreviation (input) PAGE_SIZE :: u64 where "PAGE_SIZE \<equiv> 4096"
abbreviation (input) FREEMEM :: u64 where "FREEMEM \<equiv> 0xffffffc080102000"
abbreviation (input) FREEHEAP :: u64 where "FREEHEAP \<equiv> 0xffffffc080800000"
abbreviation (input) NUM_REC :: nat where "NUM_REC \<equiv> 1790"
abbreviation (input) MAP_KERNEL :: u64 where "MAP_KERNEL \<equiv> 1"
abbreviation (input) MAP_USER :: u64 where "MAP_USER \<equiv> 2"
text \<open>\<open>mm.h\<close> defines \<open>LOAD\<close> as 0, but \<open>elf.h\<close>, which \<open>sched.h\<close> includes after it, defines it again as 1; that
  is the value in \<open>mm.c\<close>, \<open>mmirq.c\<close> and \<open>irq.c\<close>.\<close>

abbreviation (input) LOAD :: i32 where "LOAD \<equiv> 1"
abbreviation (input) STORE :: i32 where "STORE \<equiv> 1"
abbreviation (input) NO_ALLOC :: u32 where "NO_ALLOC \<equiv> 0"
abbreviation (input) ALLOC_NO_AD :: u32 where "ALLOC_NO_AD \<equiv> 1"
abbreviation (input) IN_SD :: u32 where "IN_SD \<equiv> 2"
abbreviation (input) IN_SD_NO_W :: u32 where "IN_SD_NO_W \<equiv> 3"
abbreviation (input) NO_W :: u32 where "NO_W \<equiv> 4"

record page_node =
  page_pte :: ptr
  kva_begin :: u64
  sd_sec :: u64
  share_num :: u8
  is_share :: u8

text \<open>The list heads a page can be linked on by its member \<open>list\<close>; \<open>preElfList i\<close> is \<open>pre_elf[i].list\<close>.\<close>

datatype page_list = free_source_list | usedPageList | swapPageList | bioPageList | extendPageList | preElfList nat

record mmkernel = lockkernel +
  pageRecyc :: "nat \<Rightarrow> page_node"
  page_lists :: "(page_list, nat) qstore"
  source_num :: u64
  mem :: mem64
  status_ctx :: u64

definition GET_MEM_NODE :: "u64 \<Rightarrow> nat" where
  "GET_MEM_NODE baseAddr = unat ((baseAddr - FREEMEM) div NORMAL_PAGE_SIZE)"

definition upd_page :: "nat \<Rightarrow> (page_node \<Rightarrow> page_node) \<Rightarrow> 'a mmkernel_scheme \<Rightarrow> 'a mmkernel_scheme" where
  "upd_page i f s = s\<lparr>pageRecyc := (pageRecyc s)(i := f (pageRecyc s i))\<rparr>"

section \<open>The page allocator\<close>

definition krand :: "'a kernel_scheme \<Rightarrow> u64" where
  "krand s = (0x5deece66d * get_ticks s + 0xb) AND 0x7fffffff"

definition init_page :: "nat \<Rightarrow> 'a mmkernel_scheme \<times> u64 \<Rightarrow> 'a mmkernel_scheme \<times> u64" where
  "init_page i = (\<lambda>(s, memBegin).
    (upd_page i (\<lambda>p. p\<lparr>kva_begin := memBegin, share_num := 0, is_share := 0\<rparr>)
       (s\<lparr>page_lists := q_add_tail i free_source_list (page_lists s)\<rparr>),
     memBegin + NORMAL_PAGE_SIZE))"

text \<open>\<open>init_mem\<close>; \<open>init_list\<close> empties the list of free pages and the list of waiting processes.\<close>

definition init_mem :: "'a mmkernel_scheme \<Rightarrow> 'a mmkernel_scheme" where
  "init_mem s =
    (let s = s\<lparr>page_lists := (page_lists s)(free_source_list := []),
               queues := (queues s)(WaitQ page_wait_list := [])\<rparr>;
         s = fst (fold init_page [0..<NUM_REC] (s, FREEMEM))
     in s\<lparr>source_num := of_nat NUM_REC\<rparr>)"

text \<open>\<open>allocPage\<close> returns the top of the page. With no page left the process blocks and tries again.\<close>

definition allocPage :: "'a mmkernel_scheme \<Rightarrow> ('a mmkernel_scheme, u64) outcome" where
  "allocPage s =
    (if \<not> q_empty free_source_list (page_lists s) then
       let new = hd (page_lists s free_source_list);
           s = upd_page new (\<lambda>p. p\<lparr>share_num := share_num p + 1\<rparr>) s;
           s = s\<lparr>page_lists := q_add_tail new usedPageList (q_del new (page_lists s))\<rparr>;
           s = s\<lparr>source_num := source_num s - 1\<rparr>;
           s = s\<lparr>mem := clear_pgdir (kva_begin (pageRecyc s new)) (mem s)\<rparr>
       in Ret s (kva_begin (pageRecyc s new) + PAGE_SIZE)
     else obind (do_block (get_current_running s) page_wait_list s) (\<lambda>s _. Blocked s))"

text \<open>The end of \<open>freePage\<close>: one waiting process is woken.\<close>

definition wake_page_waiter :: "'a kernel_scheme \<Rightarrow> 'a kernel_scheme" where
  "wake_page_waiter s =
    (if \<not> klist_empty (WaitQ page_wait_list) s then do_unblock (klist_first (WaitQ page_wait_list) s) s else s)"

definition freePage :: "u64 \<Rightarrow> 'a mmkernel_scheme \<Rightarrow> 'a mmkernel_scheme" where
  "freePage baseAddr s =
    (let i = GET_MEM_NODE baseAddr;
         s = upd_page i (\<lambda>p. p\<lparr>share_num := share_num p - 1\<rparr>) s
     in if share_num (pageRecyc s i) \<noteq> 0 then s
        else
          let s = s\<lparr>page_lists := q_add i free_source_list (q_del i (page_lists s))\<rparr>;
              s = s\<lparr>source_num := source_num s + 1\<rparr>
          in wake_page_waiter s)"

definition freePage_voilence :: "u64 \<Rightarrow> 'a mmkernel_scheme \<Rightarrow> 'a mmkernel_scheme" where
  "freePage_voilence baseAddr s =
    (let i = GET_MEM_NODE baseAddr;
         s = upd_page i (\<lambda>p. p\<lparr>share_num := 0\<rparr>) s;
         s = s\<lparr>page_lists := q_add_tail i free_source_list (q_del i (page_lists s))\<rparr>;
         s = s\<lparr>source_num := source_num s + 1\<rparr>
     in wake_page_waiter s)"

text \<open>\<open>kmalloc\<close> serves requests of exactly one page; any other size is \<open>assert(0)\<close>.\<close>

definition kmalloc :: "u64 \<Rightarrow> 'a mmkernel_scheme \<Rightarrow> ('a mmkernel_scheme, u64) outcome" where
  "kmalloc sz s =
    (if sz \<noteq> NORMAL_PAGE_SIZE then Panic s
     else obind (allocPage s) (\<lambda>s p. Ret s (p - NORMAL_PAGE_SIZE)))"

definition kfree :: "u64 \<Rightarrow> 'a mmkernel_scheme \<Rightarrow> 'a mmkernel_scheme" where
  "kfree p s = (if p > FREEHEAP then s else if p < FREEMEM then s else freePage p s)"

definition kfree_voilence :: "u64 \<Rightarrow> 'a mmkernel_scheme \<Rightarrow> 'a mmkernel_scheme" where
  "kfree_voilence p s = (if p > FREEHEAP then s else if p < FREEMEM then s else freePage_voilence p s)"

definition share_add :: "u64 \<Rightarrow> 'a mmkernel_scheme \<Rightarrow> 'a mmkernel_scheme" where
  "share_add baseAddr s = upd_page (GET_MEM_NODE baseAddr) (\<lambda>p. p\<lparr>share_num := share_num p + 1\<rparr>) s"

definition share_sub :: "u64 \<Rightarrow> 'a mmkernel_scheme \<Rightarrow> 'a mmkernel_scheme" where
  "share_sub baseAddr s = upd_page (GET_MEM_NODE baseAddr) (\<lambda>p. p\<lparr>share_num := share_num p - 1\<rparr>) s"

section \<open>Mapping pages\<close>

text \<open>\<open>share_pgtable\<close>: \<open>kmemcpy\<close> of a page, as 512 words of two page-aligned addresses.\<close>

definition copy_page :: "u64 \<Rightarrow> u64 \<Rightarrow> mem64 \<Rightarrow> mem64" where
  "copy_page dest src m = fold (\<lambda>i m. m(dest + 8 * of_nat i := m (src + 8 * of_nat i))) [0..<512] m"

definition share_pgtable :: "u64 \<Rightarrow> u64 \<Rightarrow> 'a mmkernel_scheme \<Rightarrow> 'a mmkernel_scheme" where
  "share_pgtable dest_pgdir src_pgdir s = s\<lparr>mem := copy_page dest_pgdir src_pgdir (mem s)\<rparr>"

definition upd_mem :: "u64 \<Rightarrow> (u64 \<Rightarrow> u64) \<Rightarrow> 'a mmkernel_scheme \<Rightarrow> 'a mmkernel_scheme" where
  "upd_mem a f s = s\<lparr>mem := (mem s)(a := f (mem s a))\<rparr>"

definition check_page_set_flag :: "u64 \<Rightarrow> u64 \<Rightarrow> u64 \<Rightarrow> 'a mmkernel_scheme \<Rightarrow> ('a mmkernel_scheme, u64) outcome" where
  "check_page_set_flag page i flg s =
    (if pte_at (mem s) page i AND PAGE_PRESENT \<noteq> 0
     then Ret s (pa2kva (push_bit 12 (get_pfn (pte_at (mem s) page i))))
     else obind (allocPage s) (\<lambda>s top.
       let newpage = top - PAGE_SIZE;
           s = s\<lparr>mem := clear_pgdir newpage (mem s)\<rparr>;
           s = upd_mem (page + 8 * i) (\<lambda>e. set_pfn e (drop_bit 12 (kva2pa newpage))) s;
           s = upd_mem (page + 8 * i) (\<lambda>e. set_attribute e flg) s
       in Ret s newpage))"

definition leaf_flags :: "u64 \<Rightarrow> u64" where
  "leaf_flags mode = PAGE_PRESENT OR PAGE_READ OR PAGE_WRITE OR PAGE_EXEC OR
    (if mode = MAP_KERNEL then PAGE_ACCESSED OR PAGE_DIRTY else PAGE_USER)"

text \<open>In the special context the page remembers the entry that maps it.\<close>

definition note_pte :: "u64 \<Rightarrow> ptr \<Rightarrow> 'a mmkernel_scheme \<Rightarrow> 'a mmkernel_scheme" where
  "note_pte kva pte s =
    (if status_ctx s \<noteq> 0 then upd_page (GET_MEM_NODE kva) (\<lambda>p. p\<lparr>sd_sec := 0, page_pte := pte\<rparr>) s else s)"

definition alloc_page_helper :: "u64 \<Rightarrow> u64 \<Rightarrow> u64 \<Rightarrow> 'a mmkernel_scheme \<Rightarrow> ('a mmkernel_scheme, u64) outcome" where
  "alloc_page_helper va pgd mode s =
    obind (check_page_set_flag pgd (vpn 2 va) PAGE_PRESENT s) (\<lambda>s second_page.
    obind (check_page_set_flag second_page (vpn 1 va) PAGE_PRESENT s) (\<lambda>s third_page.
    obind (check_page_set_flag third_page (vpn 0 va) (leaf_flags mode) s) (\<lambda>s page.
      let final_page = page OR (va AND 0x0fff)
      in Ret (note_pte final_page (third_page + 8 * vpn 0 va) s) final_page)))"

definition alloc_page_point_phyc :: "u64 \<Rightarrow> u64 \<Rightarrow> u64 \<Rightarrow> u64 \<Rightarrow> 'a mmkernel_scheme \<Rightarrow> ('a mmkernel_scheme, ptr) outcome" where
  "alloc_page_point_phyc va pgd kva mode s =
    obind (check_page_set_flag pgd (vpn 2 va) PAGE_PRESENT s) (\<lambda>s second_page.
    obind (check_page_set_flag second_page (vpn 1 va) PAGE_PRESENT s) (\<lambda>s third_page.
      let pte = third_page + 8 * vpn 0 va;
          s = upd_mem pte (\<lambda>e. set_pfn e (drop_bit 12 (kva2pa kva))) s;
          s = upd_mem pte (\<lambda>e. set_attribute e (leaf_flags mode)) s
      in Ret (note_pte kva pte s) pte))"

text \<open>\<open>check_W_SD_and_set_AD\<close>: first its part on the leaf entry at address \<open>a\<close>, where the return
  value \<open>-1\<close> is that nothing was to be done.\<close>

definition check_leaf :: "u64 \<Rightarrow> i32 \<Rightarrow> 'a mmkernel_scheme \<Rightarrow> 'a mmkernel_scheme \<times> u32" where
  "check_leaf a mode s =
    (if mem s a AND PAGE_SD \<noteq> 0 then
       if mem s a AND PAGE_WRITE = 0 \<and> mode = STORE
       then (upd_mem a (\<lambda>e. e OR (PAGE_PRESENT OR PAGE_ACCESSED OR PAGE_DIRTY)) s, IN_SD_NO_W)
       else (upd_mem a (\<lambda>e. e OR (PAGE_PRESENT OR PAGE_ACCESSED OR (if mode = STORE then PAGE_DIRTY else 0))) s, IN_SD)
     else if mem s a AND PAGE_PRESENT \<noteq> 0 then
       if mem s a AND PAGE_WRITE = 0 \<and> mode = STORE
       then (upd_mem a (\<lambda>e. e OR (PAGE_PRESENT OR PAGE_ACCESSED OR PAGE_DIRTY)) s, NO_W)
       else if mode = LOAD \<and> mem s a AND PAGE_ACCESSED \<noteq> 0
         \<or> mode = STORE \<and> mem s a AND (PAGE_ACCESSED OR PAGE_DIRTY) \<noteq> 0
       then (s, -1)
       else (upd_mem a (\<lambda>e. e OR (PAGE_ACCESSED OR (if mode = STORE then PAGE_DIRTY else 0))) s, ALLOC_NO_AD)
     else (s, NO_ALLOC))"

definition check_W_SD_and_set_AD :: "u64 \<Rightarrow> u64 \<Rightarrow> i32 \<Rightarrow> 'a mmkernel_scheme \<Rightarrow> 'a mmkernel_scheme \<times> u32" where
  "check_W_SD_and_set_AD va pgd mode s =
    (let a2 = pgd + 8 * vpn 2 va in
     if mem s a2 AND PAGE_PRESENT = 0 then (s, NO_ALLOC)
     else
       let s = upd_mem a2 (\<lambda>e. e OR PAGE_ACCESSED) s;
           second_page = pa2kva (push_bit 12 (get_pfn (mem s a2)));
           a1 = second_page + 8 * vpn 1 va
       in if mem s a1 AND PAGE_PRESENT = 0 then (s, NO_ALLOC)
       else
         let s = upd_mem a1 (\<lambda>e. e OR PAGE_ACCESSED) s;
             third_page = pa2kva (push_bit 12 (get_pfn (mem s a1)))
         in check_leaf (third_page + 8 * vpn 0 va) mode s)"

text \<open>\<open>free_page_helper\<close>: \<open>x & _PAGE_PRESENT == 0\<close> is \<open>x & (_PAGE_PRESENT == 0)\<close>, which is 0, so
  neither early return is ever taken.\<close>

definition free_page_helper :: "u64 \<Rightarrow> u64 \<Rightarrow> 'a mmkernel_scheme \<Rightarrow> 'a mmkernel_scheme \<times> u64" where
  "free_page_helper va pgd s =
    (let second_page = pa2kva (push_bit 12 (get_pfn (pte_at (mem s) pgd (vpn 2 va))));
         third_page = pa2kva (push_bit 12 (get_pfn (pte_at (mem s) second_page (vpn 1 va))));
         s = freePage (get_kva_of (mem s) va pgd) s;
         s = upd_mem (third_page + 8 * vpn 0 va) (\<lambda>_. 0) s
     in (s, 0))"

section \<open>Pages are counted by their references\<close>

lemma upd_page_simps [simp]:
  "pageRecyc (upd_page i f s) = (pageRecyc s)(i := f (pageRecyc s i))"
  "page_lists (upd_page i f s) = page_lists s" "source_num (upd_page i f s) = source_num s"
  "mem (upd_page i f s) = mem s" "status_ctx (upd_page i f s) = status_ctx s"
  "queues (upd_page i f s) = queues s" "pcb_tab (upd_page i f s) = pcb_tab s" "tp (upd_page i f s) = tp s"
  by (simp_all add: upd_page_def)

lemma upd_mem_simps [simp]:
  "mem (upd_mem a f s) = (mem s)(a := f (mem s a))"
  "pageRecyc (upd_mem a f s) = pageRecyc s" "page_lists (upd_mem a f s) = page_lists s"
  "source_num (upd_mem a f s) = source_num s" "status_ctx (upd_mem a f s) = status_ctx s"
  by (simp_all add: upd_mem_def)

lemma mm_do_unblock [simp]:
  "pageRecyc (do_unblock r s) = pageRecyc s" "page_lists (do_unblock r s) = page_lists s"
  "source_num (do_unblock r s) = source_num s" "mem (do_unblock r s) = mem s"
  "status_ctx (do_unblock r s) = status_ctx s"
  by (simp_all add: do_unblock_def klist_del_def klist_add_def upd_pcb_def)

lemma wake_page_waiter_simps [simp]:
  "pageRecyc (wake_page_waiter s) = pageRecyc s" "page_lists (wake_page_waiter s) = page_lists s"
  "source_num (wake_page_waiter s) = source_num s" "mem (wake_page_waiter s) = mem s"
  "status_ctx (wake_page_waiter s) = status_ctx s"
  by (simp_all add: wake_page_waiter_def)

text \<open>Every page is on one list, is where the array says, and is free exactly when nobody refers
  to it.\<close>

definition mm_inv :: "'a mmkernel_scheme \<Rightarrow> bool" where
  "mm_inv s \<longleftrightarrow> store_inv (page_lists s) \<and> (\<forall>i. queued i (page_lists s) \<longleftrightarrow> i < NUM_REC)
    \<and> (\<forall>i < NUM_REC. kva_begin (pageRecyc s i) = FREEMEM + NORMAL_PAGE_SIZE * of_nat i)
    \<and> (\<forall>i < NUM_REC. i \<in> set (page_lists s free_source_list) \<longleftrightarrow> share_num (pageRecyc s i) = 0)
    \<and> source_num s = of_nat (length (page_lists s free_source_list))"

lemma mm_invI [intro?]:
  assumes "store_inv (page_lists s)" and "\<And>i. queued i (page_lists s) \<longleftrightarrow> i < NUM_REC"
    and "\<And>i. i < NUM_REC \<Longrightarrow> kva_begin (pageRecyc s i) = FREEMEM + NORMAL_PAGE_SIZE * of_nat i"
    and "\<And>i. i < NUM_REC \<Longrightarrow> i \<in> set (page_lists s free_source_list) \<longleftrightarrow> share_num (pageRecyc s i) = 0"
    and "source_num s = of_nat (length (page_lists s free_source_list))"
  shows "mm_inv s"
  using assms by (simp add: mm_inv_def)

lemma mm_invD:
  assumes "mm_inv s"
  shows "store_inv (page_lists s)" and "queued i (page_lists s) \<longleftrightarrow> i < NUM_REC"
    and "i < NUM_REC \<Longrightarrow> kva_begin (pageRecyc s i) = FREEMEM + NORMAL_PAGE_SIZE * of_nat i"
    and "i < NUM_REC \<Longrightarrow> i \<in> set (page_lists s free_source_list) \<longleftrightarrow> share_num (pageRecyc s i) = 0"
    and "source_num s = of_nat (length (page_lists s free_source_list))"
  using assms by (simp_all add: mm_inv_def)

text \<open>The address of page \<open>i\<close>.\<close>

definition page_addr :: "nat \<Rightarrow> u64" where
  "page_addr i = FREEMEM + NORMAL_PAGE_SIZE * of_nat i"

lemma GET_MEM_NODE_page_addr: "i < NUM_REC \<Longrightarrow> GET_MEM_NODE (page_addr i) = i"
proof -
  assume i: "i < NUM_REC"
  have "page_addr i - FREEMEM = of_nat (4096 * i)"
    by (simp add: page_addr_def)
  then have "GET_MEM_NODE (page_addr i) = unat (of_nat (4096 * i) div (of_nat 4096) :: u64)"
    by (simp add: GET_MEM_NODE_def)
  also have "\<dots> = 4096 * i div 4096"
    unfolding unat_div_distrib using i by (subst (1 2) unat_of_nat_u64) simp_all
  finally show ?thesis by simp
qed

lemma page_addr_top: "page_addr i + 4096 - 4096 = page_addr i"
  by simp

text \<open>What \<^const>\<open>allocPage\<close> does when it returns.\<close>

lemma allocPage_effect:
  assumes inv: "mm_inv s" and ret: "allocPage s = Ret t p"
  obtains i where "i < NUM_REC" and "p = page_addr i + PAGE_SIZE" and "share_num (pageRecyc s i) = 0"
    and "pageRecyc t = (pageRecyc s)(i := (pageRecyc s i)\<lparr>share_num := 1\<rparr>)"
    and "mem t = clear_pgdir (page_addr i) (mem s)" and "status_ctx t = status_ctx s"
    and "page_lists t free_source_list = tl (page_lists s free_source_list)" and "mm_inv t"
proof -
  note D = mm_invD [OF inv]
  have ne: "page_lists s free_source_list \<noteq> []"
    using ret by (cases "do_block (get_current_running s) page_wait_list s")
      (auto simp: allocPage_def q_empty_def split: if_splits)
  define i where "i = hd (page_lists s free_source_list)"
  have i: "i \<in> set (page_lists s free_source_list)"
    using ne by (simp add: i_def)
  then have n: "i < NUM_REC"
    using D(2) [of i] unfolding queued_def by blast
  have sh: "share_num (pageRecyc s i) = 0"
    using D(4) [OF n] i by blast
  have kva: "kva_begin (pageRecyc s i) = page_addr i"
    using D(3) [OF n] by (simp add: page_addr_def)
  let ?L = "q_add_tail i usedPageList (q_del i (page_lists s))"
  have t: "t = (upd_page i (\<lambda>p. p\<lparr>share_num := share_num p + 1\<rparr>) s)\<lparr>page_lists := ?L,
      source_num := source_num s - 1, mem := clear_pgdir (page_addr i) (mem s)\<rparr>"
    and p: "p = page_addr i + PAGE_SIZE"
    using ret ne by (simp_all add: allocPage_def q_empty_def Let_def kva flip: i_def)
  have del: "q_del i (page_lists s) free_source_list = tl (page_lists s free_source_list)"
    using ne by (cases "page_lists s free_source_list") (simp_all add: q_del_def i_def)
  have L: "store_inv ?L"
    by (intro inv_intros D(1)) (simp add: D(1))
  have free: "?L free_source_list = tl (page_lists s free_source_list)"
    using del by (simp add: q_add_tail_def)
  have "mm_inv t"
  proof
    show "store_inv (page_lists t)"
      using L by (simp add: t)
    show "queued j (page_lists t) \<longleftrightarrow> j < NUM_REC" for j
      using D(2) [of j] n by (auto simp: t D(1))
    show "kva_begin (pageRecyc t j) = FREEMEM + NORMAL_PAGE_SIZE * of_nat j" if "j < NUM_REC" for j
      using D(3) [OF that] by (auto simp: t)
    show "j \<in> set (page_lists t free_source_list) \<longleftrightarrow> share_num (pageRecyc t j) = 0" if "j < NUM_REC" for j
    proof -
      have "j \<in> set (page_lists t free_source_list) \<longleftrightarrow> j \<in> set (page_lists s free_source_list) - {i}"
        unfolding free [symmetric] set_q_del [OF D(1), symmetric] by (simp add: t q_add_tail_def)
      then show ?thesis
        using D(4) [OF that] sh by (auto simp: t)
    qed
    show "source_num t = of_nat (length (page_lists t free_source_list))"
      using D(5) ne free by (cases "page_lists s free_source_list") (simp_all add: t)
  qed
  then show thesis
    using that [OF n p sh] free sh by (simp add: t upd_page_def)
qed

lemma allocPage_returns: "page_lists s free_source_list \<noteq> [] \<Longrightarrow> \<exists>t p. allocPage s = Ret t p"
  by (simp add: allocPage_def q_empty_def Let_def)

lemma mm_inv_freePage:
  assumes inv: "mm_inv s" and i: "i < NUM_REC" and held: "share_num (pageRecyc s i) \<noteq> 0"
  shows "mm_inv (freePage (page_addr i) s)"
    and "pageRecyc (freePage (page_addr i) s) = (pageRecyc s)(i := (pageRecyc s i)\<lparr>share_num := share_num (pageRecyc s i) - 1\<rparr>)"
proof -
  note D = mm_invD [OF inv]
  let ?t = "freePage (page_addr i) s" and ?n = "share_num (pageRecyc s i) - 1"
  show rec: "pageRecyc ?t = (pageRecyc s)(i := (pageRecyc s i)\<lparr>share_num := ?n\<rparr>)"
    by (simp add: freePage_def Let_def GET_MEM_NODE_page_addr [OF i])
  have nf: "i \<notin> set (page_lists s free_source_list)"
    using D(4) [OF i] held by blast
  have lists: "page_lists ?t = (if ?n \<noteq> 0 then page_lists s else q_add i free_source_list (q_del i (page_lists s)))"
    and num: "source_num ?t = (if ?n \<noteq> 0 then source_num s else source_num s + 1)"
    by (simp_all add: freePage_def Let_def GET_MEM_NODE_page_addr [OF i])
  have free: "page_lists ?t free_source_list =
      (if ?n \<noteq> 0 then page_lists s free_source_list else i # page_lists s free_source_list)"
    using nf by (simp add: lists q_add_def q_del_def remove1_idem)
  show "mm_inv ?t"
  proof
    show "store_inv (page_lists ?t)"
      using D(1) by (auto simp: lists intro!: inv_intros)
    show "queued j (page_lists ?t) \<longleftrightarrow> j < NUM_REC" for j
      using D(2) [of j] D(2) [of i] i by (auto simp: lists D(1))
    show "kva_begin (pageRecyc ?t j) = FREEMEM + NORMAL_PAGE_SIZE * of_nat j" if "j < NUM_REC" for j
      using D(3) [OF that] by (auto simp: rec)
    show "j \<in> set (page_lists ?t free_source_list) \<longleftrightarrow> share_num (pageRecyc ?t j) = 0" if "j < NUM_REC" for j
      using D(4) [OF that] nf by (auto simp: rec free)
    show "source_num ?t = of_nat (length (page_lists ?t free_source_list))"
      using D(5) by (simp add: free num)
  qed
qed

lemma mm_inv_share_add:
  assumes inv: "mm_inv s" and i: "i < NUM_REC" and held: "share_num (pageRecyc s i) \<noteq> 0"
    and room: "share_num (pageRecyc s i) \<noteq> 255"
  shows "mm_inv (share_add (page_addr i) s)"
    and "pageRecyc (share_add (page_addr i) s) = (pageRecyc s)(i := (pageRecyc s i)\<lparr>share_num := share_num (pageRecyc s i) + 1\<rparr>)"
proof -
  note D = mm_invD [OF inv]
  have ne: "share_num (pageRecyc s i) + 1 \<noteq> 0"
  proof
    assume "share_num (pageRecyc s i) + 1 = 0"
    then have "share_num (pageRecyc s i) = - 1"
      by (simp add: eq_neg_iff_add_eq_0)
    with room show False by simp
  qed
  show "pageRecyc (share_add (page_addr i) s) = (pageRecyc s)(i := (pageRecyc s i)\<lparr>share_num := share_num (pageRecyc s i) + 1\<rparr>)"
    by (simp add: share_add_def GET_MEM_NODE_page_addr [OF i])
  show "mm_inv (share_add (page_addr i) s)"
    by (rule mm_invI) (use D held ne in \<open>auto simp: share_add_def GET_MEM_NODE_page_addr [OF i]\<close>)
qed

text \<open>The loop of \<^const>\<open>init_mem\<close>.\<close>

lemma init_pages:
  assumes "page_lists s free_source_list = []"
  shows "page_lists (fst (fold init_page [0..<n] (s, FREEMEM))) = (page_lists s)(free_source_list := [0..<n])
    \<and> snd (fold init_page [0..<n] (s, FREEMEM)) = page_addr n
    \<and> (\<forall>i < n. kva_begin (pageRecyc (fst (fold init_page [0..<n] (s, FREEMEM))) i) = page_addr i
        \<and> share_num (pageRecyc (fst (fold init_page [0..<n] (s, FREEMEM))) i) = 0)"
proof (induction n)
  case 0
  show ?case using assms by (auto simp: page_addr_def)
next
  case (Suc n)
  let ?r = "fold init_page [0..<n] (s, FREEMEM)"
  have step: "fold init_page [0..<Suc n] (s, FREEMEM) = init_page n ?r"
    by simp
  obtain u b where r: "?r = (u, b)"
    by (cases ?r)
  have "page_addr n + NORMAL_PAGE_SIZE = page_addr (Suc n)"
    by (simp add: page_addr_def algebra_simps)
  then show ?case
    unfolding step r using Suc.IH [unfolded r]
    by (auto simp: init_page_def q_add_tail_def less_Suc_eq)
qed

lemma mm_inv_init_mem:
  assumes "\<forall>q. q \<noteq> free_source_list \<longrightarrow> page_lists s q = []"
  shows "mm_inv (init_mem s)" and "\<And>i. i < NUM_REC \<Longrightarrow> share_num (pageRecyc (init_mem s) i) = 0"
    and "page_lists (init_mem s) free_source_list = [0..<NUM_REC]"
proof -
  let ?s = "s\<lparr>page_lists := (page_lists s)(free_source_list := []), queues := (queues s)(WaitQ page_wait_list := [])\<rparr>"
  have empty: "page_lists ?s free_source_list = []"
    by simp
  note I = init_pages [OF empty, of NUM_REC]
  have t: "init_mem s = (fst (fold init_page [0..<NUM_REC] (?s, FREEMEM)))\<lparr>source_num := of_nat NUM_REC\<rparr>"
    by (simp only: init_mem_def Let_def)
  have lists: "page_lists (init_mem s) = (page_lists s)(free_source_list := [0..<NUM_REC])"
    using I by (simp add: t)
  have only: "page_lists (init_mem s) q = (if q = free_source_list then [0..<NUM_REC] else [])" for q
    by (cases q) (simp_all add: lists assms)
  show free: "page_lists (init_mem s) free_source_list = [0..<NUM_REC]"
    by (simp add: only)
  show zero: "share_num (pageRecyc (init_mem s) i) = 0" if "i < NUM_REC" for i
    using I that by (simp add: t)
  show "mm_inv (init_mem s)"
  proof
    show "store_inv (page_lists (init_mem s))"
      by (rule store_invI) (auto simp: only split: if_splits)
    show "queued i (page_lists (init_mem s)) \<longleftrightarrow> i < NUM_REC" for i
      unfolding queued_def only by auto
    show "kva_begin (pageRecyc (init_mem s) i) = FREEMEM + NORMAL_PAGE_SIZE * of_nat i" if "i < NUM_REC" for i
      using I that by (simp add: t page_addr_def)
    show "i \<in> set (page_lists (init_mem s) free_source_list) \<longleftrightarrow> share_num (pageRecyc (init_mem s) i) = 0"
      if "i < NUM_REC" for i
      using that zero [OF that] by (simp add: free)
    show "source_num (init_mem s) = of_nat (length (page_lists (init_mem s) free_source_list))"
      unfolding free by (simp add: t)
  qed
qed

text \<open>A use of the allocator: pages are taken, shared by those who hold them and given back by those
  who hold them. \<open>R\<close> counts the references that are out.\<close>

inductive page_step :: "'a mmkernel_scheme \<times> nat multiset \<Rightarrow> 'a mmkernel_scheme \<times> nat multiset \<Rightarrow> bool" where
  alloc: "allocPage s = Ret t p \<Longrightarrow> page_step (s, R) (t, add_mset (GET_MEM_NODE (p - PAGE_SIZE)) R)"
| share: "i \<in># R \<Longrightarrow> count R i < 255 \<Longrightarrow> page_step (s, R) (share_add (page_addr i) s, add_mset i R)"
| free: "i \<in># R \<Longrightarrow> page_step (s, R) (freePage (page_addr i) s, R - {#i#})"

definition page_refs :: "'a mmkernel_scheme \<Rightarrow> nat multiset \<Rightarrow> bool" where
  "page_refs s R \<longleftrightarrow> mm_inv s \<and> (\<forall>i \<in># R. i < NUM_REC)
    \<and> (\<forall>i < NUM_REC. unat (share_num (pageRecyc s i)) = count R i)"

lemma page_step_refs:
  assumes "page_step c d" and "page_refs (fst c) (snd c)"
  shows "page_refs (fst d) (snd d)"
  using assms
proof (induction rule: page_step.cases)
  case (alloc s t p R)
  then have inv: "mm_inv s" and R: "\<forall>i \<in># R. i < NUM_REC"
    and cnt: "\<forall>i < NUM_REC. unat (share_num (pageRecyc s i)) = count R i"
    by (auto simp: page_refs_def)
  from allocPage_effect [OF inv alloc(3)] obtain i where i: "i < NUM_REC" "p = page_addr i + PAGE_SIZE"
      "share_num (pageRecyc s i) = 0" "pageRecyc t = (pageRecyc s)(i := (pageRecyc s i)\<lparr>share_num := 1\<rparr>)" "mm_inv t"
    by metis
  then have "GET_MEM_NODE (p - PAGE_SIZE) = i"
    by (simp add: GET_MEM_NODE_page_addr)
  with alloc i R cnt show ?case
    by (auto simp: page_refs_def)
next
  case (share i R s)
  then have i: "i < NUM_REC" and inv: "mm_inv s"
    and cnt: "unat (share_num (pageRecyc s i)) = count R i"
    by (auto simp: page_refs_def)
  have ne: "share_num (pageRecyc s i) \<noteq> 0" "share_num (pageRecyc s i) \<noteq> 255"
    using cnt share(3,4) by (auto simp: count_eq_zero_iff)
  have "unat (share_num (pageRecyc s i) + 1) = count R i + 1"
    using cnt share(4) by (simp add: unat_word_ariths)
  with share mm_inv_share_add [OF inv i ne] show ?case
    by (auto simp: page_refs_def)
next
  case (free i R s)
  then have i: "i < NUM_REC" and inv: "mm_inv s"
    and cnt: "unat (share_num (pageRecyc s i)) = count R i"
    by (auto simp: page_refs_def)
  have ne: "share_num (pageRecyc s i) \<noteq> 0"
    using cnt free(3) by (auto simp: count_eq_zero_iff)
  then have "unat (share_num (pageRecyc s i) - 1) = count R i - 1"
    using cnt by (simp add: unat_minus_one)
  with free mm_inv_freePage [OF inv i ne] show ?case
    by (auto simp: page_refs_def dest: in_diffD)
qed

lemma page_steps_refs:
  "page_step\<^sup>*\<^sup>* c d \<Longrightarrow> page_refs (fst c) (snd c) \<Longrightarrow> page_refs (fst d) (snd d)"
  by (induction rule: rtranclp_induct) (auto intro: page_step_refs)

lemma page_refs_init:
  "\<forall>q. q \<noteq> free_source_list \<longrightarrow> page_lists s q = [] \<Longrightarrow> page_refs (init_mem s) {#}"
  using mm_inv_init_mem [of s] by (simp add: page_refs_def)

lemma free_pages:
  assumes "page_refs s R"
  shows "set (page_lists s free_source_list) = {..<NUM_REC} - set_mset R"
    and "length (page_lists s free_source_list) = NUM_REC - card (set_mset R)"
proof -
  have inv: "mm_inv s" and R: "\<forall>i \<in># R. i < NUM_REC"
    and cnt: "\<forall>i < NUM_REC. unat (share_num (pageRecyc s i)) = count R i"
    using assms by (auto simp: page_refs_def)
  note D = mm_invD [OF inv]
  have "i < NUM_REC" if "i \<in> set (page_lists s free_source_list)" for i
    using D(2) [of i] that by (auto simp: queued_def)
  then show free: "set (page_lists s free_source_list) = {..<NUM_REC} - set_mset R"
    using D(4) cnt by (auto simp: unat_eq_0 [symmetric] count_eq_zero_iff)
  have "length (page_lists s free_source_list) = card (set (page_lists s free_source_list))"
    using D(1) by (simp add: distinct_card store_invD(1))
  also have "\<dots> = NUM_REC - card (set_mset R)"
    unfolding free using R by (subst card_Diff_subset) auto
  finally show "length (page_lists s free_source_list) = NUM_REC - card (set_mset R)" .
qed

text \<open>C5: From the initial state on, whatever sequence of allocations, sharings and releases by
  holders runs, the share counter of every page is the number of references to it, the number of
  free pages is the number of pages without a reference, an allocation succeeds as long as there
  is one, and it yields a page nobody refers to.\<close>

theorem page_allocator_counts:
  assumes "\<forall>q. q \<noteq> free_source_list \<longrightarrow> page_lists s0 q = []"
    and "page_step\<^sup>*\<^sup>* (init_mem s0, {#}) (s, R)"
  shows "(\<forall>i < NUM_REC. unat (share_num (pageRecyc s i)) = count R i)
    \<and> source_num s = of_nat (NUM_REC - card (set_mset R))
    \<and> (card (set_mset R) < NUM_REC \<longrightarrow> (\<exists>t p. allocPage s = Ret t p))
    \<and> (\<forall>t p. allocPage s = Ret t p \<longrightarrow> (\<exists>i < NUM_REC. p = page_addr i + PAGE_SIZE \<and> i \<notin># R))"
proof -
  have refs: "page_refs s R"
    using page_steps_refs [OF assms(2)] page_refs_init [OF assms(1)] by simp
  then have inv: "mm_inv s" and cnt: "\<forall>i < NUM_REC. unat (share_num (pageRecyc s i)) = count R i"
    by (auto simp: page_refs_def)
  note free = free_pages [OF refs]
  have "\<exists>t p. allocPage s = Ret t p" if "card (set_mset R) < NUM_REC"
    by (rule allocPage_returns) (use free(2) that in auto)
  moreover have "\<exists>i < NUM_REC. p = page_addr i + PAGE_SIZE \<and> i \<notin># R" if "allocPage s = Ret t p" for t p
  proof -
    from allocPage_effect [OF inv that] obtain i where "i < NUM_REC" "p = page_addr i + PAGE_SIZE"
        "share_num (pageRecyc s i) = 0"
      by metis
    moreover have "i \<notin># R"
      using cnt calculation by (auto simp: count_eq_zero_iff [symmetric])
    ultimately show ?thesis by blast
  qed
  ultimately show ?thesis
    using cnt mm_invD(5) [OF inv] free(2) by auto
qed

definition demo_mm :: mmkernel where
  "demo_mm = lockkernel.extend demo_lock
    \<lparr>pageRecyc = (\<lambda>_. \<lparr>page_pte = 0, kva_begin = 0, sd_sec = 0, share_num = 0, is_share = 0\<rparr>),
     page_lists = (\<lambda>_. []), source_num = 0, mem = (\<lambda>_. 0), status_ctx = 0\<rparr>"

theorem page_allocator_counts_witness:
  "\<exists>t i. page_step\<^sup>*\<^sup>* (init_mem demo_mm, {#}) (t, {#i#}) \<and> source_num t = 1789 \<and> share_num (pageRecyc t i) = 1"
proof -
  have e: "\<forall>q. q \<noteq> free_source_list \<longrightarrow> page_lists demo_mm q = []"
    by (simp_all add: demo_mm_def lockkernel.defs)
  from page_allocator_counts [OF e rtranclp.rtrancl_refl] obtain t p i
    where a: "allocPage (init_mem demo_mm) = Ret t p" "i < NUM_REC" "p = page_addr i + PAGE_SIZE"
    by force
  then have "page_step (init_mem demo_mm, {#}) (t, {#i#})"
    using page_step.alloc [OF a(1), of "{#}"] by (simp add: GET_MEM_NODE_page_addr)
  then have run: "page_step\<^sup>*\<^sup>* (init_mem demo_mm, {#}) (t, {#i#})"
    by (rule r_into_rtranclp)
  from page_allocator_counts [OF e run] a(2) have "source_num t = 1789" "unat (share_num (pageRecyc t i)) = 1"
    by auto
  then show ?thesis
    using run by (metis unat_1 word_unat_eq_iff)
qed

end
