(* ===== verification/Vm.thy ===== *)
theory Vm
  imports Mm
begin

text \<open>
  Address spaces: the page tables of one process as a tree of pages. The invariant \<open>pt_inv\<close> says
  that the tables reached from the root are different pages in use; under it
  \<open>alloc_page_helper\<close>, \<open>alloc_page_point_phyc\<close>, \<open>check_W_SD_and_set_AD\<close> and \<open>free_page_helper\<close> of
  \<open>kernel/mm/mm.c\<close> change the mapping of one page and of no other.
\<close>

section \<open>Pages in memory\<close>

lemma slot_of_nat: "slot i \<Longrightarrow> \<exists>k < 512. i = of_nat k"
proof -
  assume "slot i"
  then have "unat i = unat (i AND mask 9)" by simp
  also have "\<dots> < 2 ^ 9"
    unfolding take_bit_eq_mask [symmetric] unsigned_take_bit_eq by (rule take_bit_nat_less_exp)
  finally have "unat i < 512" by simp
  then show ?thesis
    by (intro exI [of _ "unat i"]) simp
qed

lemma of_nat_slot: "k < 512 \<Longrightarrow> slot (of_nat k :: u64)"
  by (simp add: word_unat_eq_iff unsigned_take_bit_eq unat_of_nat_u64 take_bit_nat_eq_self flip: take_bit_eq_mask)

lemma clear_pgdir_apply:
  "clear_pgdir n m x = (if \<exists>k < 512. x = n + 8 * of_nat k then 0 else m x)"
proof -
  have "fold (\<lambda>i m. m(n + 8 * of_nat i := 0)) [0..<K] m x = (if \<exists>k < K. x = n + 8 * of_nat k then 0 else m x)" for K
    by (induction K) (auto simp: less_Suc_eq)
  then show ?thesis
    by (simp add: clear_pgdir_def)
qed

lemma pte_at_clear:
  assumes "page_aligned n" "page_aligned t" "slot i"
  shows "pte_at (clear_pgdir n m) t i = (if t = n then 0 else pte_at m t i)"
proof -
  have "(\<exists>k < 512. t + 8 * i = n + 8 * of_nat k) \<longleftrightarrow> t = n"
    using slot_addr_inject [OF assms(2,3,1)] of_nat_slot slot_of_nat [OF assms(3)] by metis
  then show ?thesis
    by (simp add: pte_at_def clear_pgdir_apply)
qed

lemma pte_at_upd:
  assumes "page_aligned t" "slot i" "page_aligned u" "slot j"
  shows "pte_at (m(t + 8 * i := v)) u j = (if u = t \<and> j = i then v else pte_at m u j)"
  using slot_addr_inject [OF assms(3,4,1,2)] by (simp add: pte_at_def)

lemma kpage_page_addr:
  assumes "k < NUM_REC"
  shows "kpage (page_addr k)"
proof -
  define w :: u64 where "w = of_nat (0x80102000 + 4096 * k)"
  have w: "w = take_bit 32 w"
    using assms by (simp add: w_def word_unat_eq_iff unsigned_take_bit_eq unat_of_nat_u64 take_bit_nat_eq_self del: of_nat_add of_nat_mult)
  have "page_addr k = 0xffffffc000000000 + w"
    by (simp add: page_addr_def w_def)
  also have "0xffffffc000000000 = (push_bit 38 (- 1) :: u64)"
    by (simp add: push_bit_eq_mult)
  also have "push_bit 38 (- 1) + w = push_bit 38 (- 1) OR w"
    by (rule disjunctive_add) (subst w, auto simp: bit_simps)
  finally have addr: "page_addr k = push_bit 38 (- 1) OR w" .
  have "in_window (page_addr k)"
    unfolding in_window_def pa2kva_def kva2pa_def Let_def low_32 addr
    by (subst (1 2) w, intro bit_eqI) (auto simp: bit_simps)
  moreover have "page_aligned (page_addr k)"
  proof -
    have "page_addr k = push_bit 12 (0xffffffc080102 + of_nat k)"
      by (simp add: page_addr_def push_bit_eq_mult algebra_simps)
    then show ?thesis
      unfolding page_aligned_def by (auto intro!: bit_eqI simp: bit_simps)
  qed
  ultimately show ?thesis by (simp add: kpage_def)
qed

lemma page_addr_inject: "i < NUM_REC \<Longrightarrow> j < NUM_REC \<Longrightarrow> page_addr i = page_addr j \<longleftrightarrow> i = j"
  using GET_MEM_NODE_page_addr by metis

section \<open>The tree of tables\<close>

text \<open>A table is known by the slots that lead to it from the root.\<close>

datatype tpath = Root | Mid u64 | Low u64 u64

fun taddr :: "mem64 \<Rightarrow> u64 \<Rightarrow> tpath \<Rightarrow> u64 option" where
  "taddr m r Root = Some r"
| "taddr m r (Mid i) = (if pte_at m r i = 0 then None else Some (table_of (pte_at m r i)))"
| "taddr m r (Low i j) =
    (if pte_at m r i = 0 then None
     else let t = table_of (pte_at m r i)
       in if pte_at m t j = 0 then None else Some (table_of (pte_at m t j)))"

text \<open>The slots of the root that user addresses select are the lower half.\<close>

abbreviation uslot :: "u64 \<Rightarrow> bool" where "uslot i \<equiv> i AND mask 8 = i"

lemma uslot_slot: "uslot i \<Longrightarrow> slot i"
proof -
  assume "uslot i"
  then have "i AND mask 9 = (i AND mask 8) AND mask 9" by simp
  also have "\<dots> = i AND mask 8"
    by (intro bit_eqI) (auto simp: bit_simps)
  finally show ?thesis using \<open>uslot i\<close> by simp
qed

fun upath :: "tpath \<Rightarrow> bool" where
  "upath Root \<longleftrightarrow> True"
| "upath (Mid i) \<longleftrightarrow> uslot i"
| "upath (Low i j) \<longleftrightarrow> uslot i \<and> slot j"

definition in_use :: "'a mmkernel_scheme \<Rightarrow> u64 \<Rightarrow> bool" where
  "in_use s a \<longleftrightarrow> (\<exists>k < NUM_REC. a = page_addr k \<and> share_num (pageRecyc s k) \<noteq> 0)"

text \<open>Tables are pages in use, no page is two tables, and an entry that leads to a table is present.\<close>

definition pt_inv :: "'a mmkernel_scheme \<Rightarrow> u64 \<Rightarrow> bool" where
  "pt_inv s r \<longleftrightarrow>
    (\<forall>p a. upath p \<longrightarrow> taddr (mem s) r p = Some a \<longrightarrow> in_use s a)
    \<and> (\<forall>p q a. upath p \<longrightarrow> upath q \<longrightarrow> taddr (mem s) r p = Some a \<longrightarrow> taddr (mem s) r q = Some a \<longrightarrow> p = q)
    \<and> (\<forall>i. uslot i \<longrightarrow> pte_at (mem s) r i \<noteq> 0 \<longrightarrow> pte_at (mem s) r i AND PAGE_PRESENT \<noteq> 0)
    \<and> (\<forall>i j t. uslot i \<longrightarrow> slot j \<longrightarrow> taddr (mem s) r (Mid i) = Some t \<longrightarrow> pte_at (mem s) t j \<noteq> 0
        \<longrightarrow> pte_at (mem s) t j AND PAGE_PRESENT \<noteq> 0)"

lemma pt_invD:
  assumes "pt_inv s r"
  shows "upath p \<Longrightarrow> taddr (mem s) r p = Some a \<Longrightarrow> in_use s a"
    and "upath p \<Longrightarrow> upath q \<Longrightarrow> taddr (mem s) r p = Some a \<Longrightarrow> taddr (mem s) r q = Some a \<Longrightarrow> p = q"
    and "uslot i \<Longrightarrow> pte_at (mem s) r i \<noteq> 0 \<Longrightarrow> pte_at (mem s) r i AND PAGE_PRESENT \<noteq> 0"
    and "uslot i \<Longrightarrow> slot j \<Longrightarrow> taddr (mem s) r (Mid i) = Some t \<Longrightarrow> pte_at (mem s) t j \<noteq> 0
      \<Longrightarrow> pte_at (mem s) t j AND PAGE_PRESENT \<noteq> 0"
  using assms unfolding pt_inv_def by blast+

lemma pt_invI:
  assumes "\<And>p a. upath p \<Longrightarrow> taddr (mem s) r p = Some a \<Longrightarrow> in_use s a"
    and "\<And>p q a. upath p \<Longrightarrow> upath q \<Longrightarrow> taddr (mem s) r p = Some a \<Longrightarrow> taddr (mem s) r q = Some a \<Longrightarrow> p = q"
    and "\<And>i. uslot i \<Longrightarrow> pte_at (mem s) r i \<noteq> 0 \<Longrightarrow> pte_at (mem s) r i AND PAGE_PRESENT \<noteq> 0"
    and "\<And>i j t. uslot i \<Longrightarrow> slot j \<Longrightarrow> taddr (mem s) r (Mid i) = Some t \<Longrightarrow> pte_at (mem s) t j \<noteq> 0
      \<Longrightarrow> pte_at (mem s) t j AND PAGE_PRESENT \<noteq> 0"
  shows "pt_inv s r"
  unfolding pt_inv_def using assms by blast

lemma in_use_kpage: "in_use s a \<Longrightarrow> kpage a"
  unfolding in_use_def using kpage_page_addr by blast

lemma kpage_aligned: "kpage a \<Longrightarrow> page_aligned a"
  by (simp add: kpage_def)

lemma pt_inv_root: "pt_inv s r \<Longrightarrow> page_aligned r"
  using pt_invD(1) [of s r Root r] in_use_kpage kpage_aligned by fastforce

lemma taddr_aligned: "page_aligned r \<Longrightarrow> taddr m r p = Some a \<Longrightarrow> page_aligned a"
  by (cases p) (auto simp: Let_def kpage_aligned split: if_splits)

text \<open>The leaf entry of an address, 0 when there is none.\<close>

definition leaf_pte :: "mem64 \<Rightarrow> u64 \<Rightarrow> u64 \<Rightarrow> u64" where
  "leaf_pte m r va =
    (case taddr m r (Low (vpn 2 va) (vpn 1 va)) of None \<Rightarrow> 0 | Some t \<Rightarrow> pte_at m t (vpn 0 va))"

definition user_va :: "u64 \<Rightarrow> bool" where
  "user_va va \<longleftrightarrow> va AND 0xffffffc000000000 = 0"

definition same_page :: "u64 \<Rightarrow> u64 \<Rightarrow> bool" where
  "same_page va vb \<longleftrightarrow> vpn 2 va = vpn 2 vb \<and> vpn 1 va = vpn 1 vb \<and> vpn 0 va = vpn 0 vb"

lemma user_mask: "0xffffffc000000000 = (push_bit 38 (- 1) :: u64)"
  by (simp add: push_bit_eq_mult)

lemma user_va_uslot: "user_va va \<Longrightarrow> uslot (vpn 2 va)"
proof (rule bit_word_eqI)
  fix n :: nat
  assume va: "user_va va" and n: "n < LENGTH(64)"
  have "\<not> bit (va AND push_bit 38 (- 1)) (30 + n)"
    using va unfolding user_va_def user_mask by simp
  then show "bit (vpn 2 va AND mask 8) n = bit (vpn 2 va) n"
    using n by (auto simp: vpn_def bit_simps)
qed

lemma get_kva_of_leaf:
  assumes "user_va va"
  shows "get_kva_of m va r = (if leaf_pte m r va = 0 then NULL
    else pa2kva (push_bit 12 (get_pfn (leaf_pte m r va)) OR page_offset va))"
  using assms by (simp add: get_kva_of_def user_va_def leaf_pte_def Let_def)

section \<open>Writing entries\<close>

lemma taddr_cong:
  assumes "\<And>i. uslot i \<Longrightarrow> pte_at m' r i = pte_at m r i"
    and "\<And>i t j. uslot i \<Longrightarrow> slot j \<Longrightarrow> taddr m r (Mid i) = Some t \<Longrightarrow> pte_at m' t j = pte_at m t j"
    and "upath p"
  shows "taddr m' r p = taddr m r p"
proof (cases p)
  case (Low i j)
  then show ?thesis
    using assms(1) [of i] assms(2) [of i j] assms(3) by (auto simp: Let_def)
qed (use assms in auto)

text \<open>A page that is no table may be cleared.\<close>

lemma taddr_clear:
  assumes r: "page_aligned r" and n: "page_aligned n"
    and fresh: "\<And>p. upath p \<Longrightarrow> taddr m r p \<noteq> Some n" and p: "upath p"
  shows "taddr (clear_pgdir n m) r p = taddr m r p"
proof (rule taddr_cong [OF _ _ p])
  show "pte_at (clear_pgdir n m) r i = pte_at m r i" if "uslot i" for i
    using fresh [of Root] pte_at_clear [OF n r uslot_slot [OF that]] by auto
  show "pte_at (clear_pgdir n m) t j = pte_at m t j" if "uslot i" "slot j" "taddr m r (Mid i) = Some t" for i t j
    using fresh [of "Mid i"] that pte_at_clear [OF n taddr_aligned [OF r that(3)] that(2)] by auto
qed

text \<open>The tables after an entry has been written: \<open>tree\<close> collects what the lemmas need of the tables.\<close>

definition tree :: "mem64 \<Rightarrow> u64 \<Rightarrow> bool" where
  "tree m r \<longleftrightarrow> page_aligned r
    \<and> (\<forall>p q a. upath p \<longrightarrow> upath q \<longrightarrow> taddr m r p = Some a \<longrightarrow> taddr m r q = Some a \<longrightarrow> p = q)"

lemma treeD:
  assumes "tree m r"
  shows "page_aligned r"
    and "upath p \<Longrightarrow> upath q \<Longrightarrow> taddr m r p = Some a \<Longrightarrow> taddr m r q = Some a \<Longrightarrow> p = q"
  using assms by (auto simp: tree_def)

lemma pt_inv_tree: "pt_inv s r \<Longrightarrow> tree (mem s) r"
  using pt_invD(2) [of s r] pt_inv_root [of s r] unfolding tree_def by blast

lemma taddr_leaf_write:
  assumes T: "tree m r" and t: "taddr m r (Low i j) = Some t" and ij: "uslot i" "slot j" "slot k" and p: "upath p"
  shows "taddr (m(t + 8 * k := e)) r p = taddr m r p"
proof (rule taddr_cong [OF _ _ p])
  have ta: "page_aligned t"
    using taddr_aligned [OF treeD(1) [OF T] t] .
  show "pte_at (m(t + 8 * k := e)) r i' = pte_at m r i'" if "uslot i'" for i'
    using pte_at_upd [OF ta ij(3) treeD(1) [OF T] uslot_slot [OF that]]
      treeD(2) [OF T, of Root "Low i j" r] t ij by auto
  show "pte_at (m(t + 8 * k := e)) u j' = pte_at m u j'"
    if "uslot i'" "slot j'" "taddr m r (Mid i') = Some u" for i' u j'
    using pte_at_upd [OF ta ij(3) taddr_aligned [OF treeD(1) [OF T] that(3)] that(2)]
      treeD(2) [OF T, of "Mid i'" "Low i j" u] t ij that by auto
qed

lemma taddr_install_mid:
  assumes T: "tree m r" and i: "uslot i" and e: "e \<noteq> 0" "table_of e = n"
    and z: "\<And>j. slot j \<Longrightarrow> pte_at m n j = 0" and n: "page_aligned n" "n \<noteq> r"
    and old: "pte_at m r i = 0" and p: "upath p"
  shows "taddr (m(r + 8 * i := e)) r p = (if p = Mid i then Some n else taddr m r p)"
proof -
  note r = treeD(1) [OF T]
  have root: "pte_at (m(r + 8 * i := e)) r i' = (if i' = i then e else pte_at m r i')" if "uslot i'" for i'
    using pte_at_upd [OF r uslot_slot [OF i] r uslot_slot [OF that]] by simp
  have below: "pte_at (m(r + 8 * i := e)) u j = pte_at m u j" if "page_aligned u" "u \<noteq> r" "slot j" for u j
    using pte_at_upd [OF r uslot_slot [OF i] that(1,3)] that(2) by simp
  show ?thesis
  proof (cases p)
    case (Low i' j)
    have "table_of (pte_at m r i') \<noteq> r" if "pte_at m r i' \<noteq> 0"
      using treeD(2) [OF T, of Root "Mid i'" r] that p Low by auto
    then show ?thesis
      using root [of i'] below [of "table_of (pte_at m r i')" j] below [of n j] z [of j] e n p Low old
      by (auto simp: Let_def kpage_aligned)
  qed (use root e p old in auto)
qed

lemma taddr_install_low:
  assumes T: "tree m r" and i: "uslot i" and j: "slot j" and t: "taddr m r (Mid i) = Some t"
    and e: "e \<noteq> 0" "table_of e = n" and p: "upath p"
  shows "taddr (m(t + 8 * j := e)) r p = (if p = Low i j then Some n else taddr m r p)"
proof -
  note r = treeD(1) [OF T]
  have ta: "page_aligned t"
    using taddr_aligned [OF r t] .
  have tr: "t \<noteq> r"
    using treeD(2) [OF T, of Root "Mid i" r] t i by auto
  have root: "pte_at (m(t + 8 * j := e)) r i' = pte_at m r i'" if "uslot i'" for i'
    using pte_at_upd [OF ta j r uslot_slot [OF that]] tr by auto
  have mid: "pte_at (m(t + 8 * j := e)) u j' = (if i' = i \<and> j' = j then e else pte_at m u j')"
    if "uslot i'" "taddr m r (Mid i') = Some u" "slot j'" for u i' j'
    using pte_at_upd [OF ta j taddr_aligned [OF r that(2)] that(3)] treeD(2) [OF T, of "Mid i'" "Mid i" t]
      that t i by auto
  show ?thesis
  proof (cases p)
    case (Low i' j')
    show ?thesis
    proof (cases "pte_at m r i' = 0")
      case True
      then show ?thesis
        using root [of i'] p Low t by auto
    next
      case False
      then have "taddr m r (Mid i') = Some (table_of (pte_at m r i'))"
        by simp
      from mid [OF _ this, of j'] False show ?thesis
        using root [of i'] p Low e by (auto simp: Let_def)
    qed
  qed (use root p in auto)
qed

section \<open>One level of the walk\<close>

lemma mm_inv_mem [simp]: "mm_inv (s\<lparr>mem := m\<rparr>) = mm_inv s" "mm_inv (upd_mem a f s) = mm_inv s"
  by (simp_all add: mm_inv_def upd_mem_def)

lemma clear_pgdir_twice: "clear_pgdir n (clear_pgdir n m) = clear_pgdir n m"
  by (rule ext) (auto simp: clear_pgdir_apply)

definition table_flags :: "u64 \<Rightarrow> bool" where
  "table_flags flg \<longleftrightarrow> flg AND mask 10 = flg \<and> flg AND PAGE_PRESENT \<noteq> 0"

lemma table_flags_present [simp]: "table_flags PAGE_PRESENT"
  by (simp add: table_flags_def mask_eq_exp_minus_1)

lemma table_flags_leaf [simp]: "table_flags (leaf_flags mode)"
  by (simp add: table_flags_def leaf_flags_def mask_eq_exp_minus_1)

lemma entry_present:
  assumes "table_flags flg"
  shows "set_attribute e flg AND PAGE_PRESENT \<noteq> 0" and "set_attribute e flg \<noteq> 0"
proof -
  have "bit flg 0"
    using assms by (simp add: table_flags_def and_one_eq bit_0 odd_iff_mod_2_eq_one)
  then have "bit (set_attribute e flg AND PAGE_PRESENT) 0"
    unfolding set_attribute_def by (simp add: bit_simps)
  then show "set_attribute e flg AND PAGE_PRESENT \<noteq> 0"
    by auto
  then show "set_attribute e flg \<noteq> 0"
    by auto
qed

text \<open>\<open>entry_for\<close>: what \<^const>\<open>check_page_set_flag\<close> writes into the entry \<open>e\<close>.\<close>

abbreviation entry_for :: "u64 \<Rightarrow> u64 \<Rightarrow> u64 \<Rightarrow> u64" where
  "entry_for e pg flg \<equiv> set_attribute (set_pfn e (drop_bit 12 (kva2pa pg))) flg"

lemma table_of_entry_for: "kpage pg \<Longrightarrow> table_flags flg \<Longrightarrow> table_of (entry_for e pg flg) = pg"
  by (rule table_of_set) (simp_all add: table_flags_def)

lemma check_page_set_flag_cases:
  assumes inv: "mm_inv s" and ret: "check_page_set_flag page i flg s = Ret s' pg"
  obtains (present) "pte_at (mem s) page i AND PAGE_PRESENT \<noteq> 0" and "s' = s" and "pg = table_of (pte_at (mem s) page i)"
  | (new) k e where "pte_at (mem s) page i AND PAGE_PRESENT = 0" and "k < NUM_REC" and "pg = page_addr k"
      and "share_num (pageRecyc s k) = 0" and "mm_inv s'"
      and "pageRecyc s' = (pageRecyc s)(k := (pageRecyc s k)\<lparr>share_num := 1\<rparr>)" and "status_ctx s' = status_ctx s"
      and "mem s' = (clear_pgdir pg (mem s))(page + 8 * i := entry_for e pg flg)"
proof (cases "pte_at (mem s) page i AND PAGE_PRESENT = 0")
  case True
  with ret obtain t top where a: "allocPage s = Ret t top"
    by (cases "allocPage s") (auto simp: check_page_set_flag_def)
  from allocPage_effect [OF inv a] obtain k where k: "k < NUM_REC" "top = page_addr k + PAGE_SIZE"
      "share_num (pageRecyc s k) = 0" "pageRecyc t = (pageRecyc s)(k := (pageRecyc s k)\<lparr>share_num := 1\<rparr>)"
      "mem t = clear_pgdir (page_addr k) (mem s)" "status_ctx t = status_ctx s" "mm_inv t"
    by metis
  have s': "s' = upd_mem (page + 8 * i) (\<lambda>e. set_attribute e flg)
      (upd_mem (page + 8 * i) (\<lambda>e. set_pfn e (drop_bit 12 (kva2pa (page_addr k))))
        (t\<lparr>mem := clear_pgdir (page_addr k) (mem s)\<rparr>))" and pg: "pg = page_addr k"
    using ret True k(2,5) a by (auto simp: check_page_set_flag_def Let_def clear_pgdir_twice)
  let ?e = "clear_pgdir (page_addr k) (mem s) (page + 8 * i)"
  have mem: "mem s' = (clear_pgdir (page_addr k) (mem s))(page + 8 * i := entry_for ?e (page_addr k) flg)"
    unfolding s' by simp
  have other: "mm_inv s'" "pageRecyc s' = (pageRecyc s)(k := (pageRecyc s k)\<lparr>share_num := 1\<rparr>)" "status_ctx s' = status_ctx s"
    using k(4,6,7) unfolding s' by simp_all
  show thesis
    by (rule new [OF True k(1) pg k(3) other mem [folded pg]])
next
  case False
  with ret have "s' = s" "pg = table_of (pte_at (mem s) page i)"
    by (auto simp: check_page_set_flag_def table_of_def)
  with False show thesis
    by (rule present)
qed

text \<open>A new page is none of the tables.\<close>

lemma new_page_fresh:
  assumes "pt_inv s r" and "k < NUM_REC" and "share_num (pageRecyc s k) = 0" and "upath p"
  shows "taddr (mem s) r p \<noteq> Some (page_addr k)"
proof
  assume "taddr (mem s) r p = Some (page_addr k)"
  from pt_invD(1) [OF assms(1,4) this] show False
    using assms(2,3) by (auto simp: in_use_def page_addr_inject)
qed

lemma pt_inv_frame:
  assumes pt: "pt_inv s r"
    and T: "\<And>p. upath p \<Longrightarrow> taddr (mem s') r p = taddr (mem s) r p \<or> p = c \<and> taddr (mem s') r p = Some n"
    and n: "in_use s' n" "\<And>p. upath p \<Longrightarrow> taddr (mem s) r p \<noteq> Some n"
    and live: "\<And>k. share_num (pageRecyc s k) \<noteq> 0 \<Longrightarrow> share_num (pageRecyc s' k) \<noteq> 0"
    and root: "\<And>i. uslot i \<Longrightarrow> pte_at (mem s') r i = pte_at (mem s) r i \<or> pte_at (mem s') r i AND PAGE_PRESENT \<noteq> 0"
    and mid: "\<And>i j t. uslot i \<Longrightarrow> slot j \<Longrightarrow> taddr (mem s') r (Mid i) = Some t \<Longrightarrow> pte_at (mem s') t j \<noteq> 0 \<Longrightarrow>
      pte_at (mem s') t j AND PAGE_PRESENT \<noteq> 0"
  shows "pt_inv s' r"
proof (rule pt_invI)
  have use: "in_use s a \<Longrightarrow> in_use s' a" for a
    using live unfolding in_use_def by blast
  show "in_use s' a" if "upath p" "taddr (mem s') r p = Some a" for p a
    using T [OF that(1)] that(2) n(1) use pt_invD(1) [OF pt that(1)] by auto
  show "p = q" if "upath p" "upath q" "taddr (mem s') r p = Some a" "taddr (mem s') r q = Some a" for p q a
    using T [OF that(1)] T [OF that(2)] that(3,4) n(2) [OF that(1)] n(2) [OF that(2)] pt_invD(2) [OF pt that(1,2)]
    by (metis option.inject)
  show "pte_at (mem s') r i AND PAGE_PRESENT \<noteq> 0" if "uslot i" "pte_at (mem s') r i \<noteq> 0" for i
    using root [OF that(1)] that pt_invD(3) [OF pt that(1)] by auto
qed (rule mid)

text \<open>The memory after the new page has been cleared, and the entry that leads to it.\<close>

lemma cleared_page:
  assumes pt: "pt_inv s r" and k: "k < NUM_REC" "share_num (pageRecyc s k) = 0"
  defines "m \<equiv> clear_pgdir (page_addr k) (mem s)"
  shows "tree m r" and "upath p \<Longrightarrow> taddr m r p = taddr (mem s) r p"
    and "slot j \<Longrightarrow> pte_at m (page_addr k) j = 0"
    and "upath p \<Longrightarrow> taddr (mem s) r p = Some u \<Longrightarrow> slot j \<Longrightarrow> pte_at m u j = pte_at (mem s) u j"
    and "page_aligned (page_addr k)" and "table_flags flg \<Longrightarrow> table_of (entry_for e (page_addr k) flg) = page_addr k"
proof -
  note fresh = new_page_fresh [OF pt k] and r = pt_inv_root [OF pt]
  show n: "page_aligned (page_addr k)"
    and "table_flags flg \<Longrightarrow> table_of (entry_for e (page_addr k) flg) = page_addr k"
    using kpage_page_addr [OF k(1)] table_of_entry_for by (auto simp: kpage_def)
  have clear: "taddr m r p = taddr (mem s) r p" if "upath p" for p
    unfolding m_def by (rule taddr_clear [OF r n fresh that])
  then show "upath p \<Longrightarrow> taddr m r p = taddr (mem s) r p" .
  show "tree m r"
    using pt_inv_tree [OF pt] clear unfolding tree_def by metis
  show "slot j \<Longrightarrow> pte_at m (page_addr k) j = 0"
    using pte_at_clear [OF n n] by (simp add: m_def)
  show "pte_at m u j = pte_at (mem s) u j" if "upath p" "taddr (mem s) r p = Some u" "slot j"
    using pte_at_clear [OF n taddr_aligned [OF r that(2)] that(3), of "mem s"] fresh [OF that(1)] that(2) by (auto simp: m_def)
qed

text \<open>Installing a table below \<open>t\<close> leaves the leaf entries as they are.\<close>

lemma leaf_pte_frame:
  assumes tab: "\<And>p. upath p \<Longrightarrow> taddr m' r p = (if p = c then Some n else taddr m r p)"
    and none: "taddr m r c = None" and zero: "\<And>j. slot j \<Longrightarrow> pte_at m' n j = 0"
    and keep: "\<And>i j u k. uslot i \<Longrightarrow> slot j \<Longrightarrow> taddr m r (Low i j) = Some u \<Longrightarrow> slot k \<Longrightarrow> pte_at m' u k = pte_at m u k"
    and va: "user_va va"
  shows "leaf_pte m' r va = leaf_pte m r va"
proof -
  let ?p = "Low (vpn 2 va) (vpn 1 va)"
  have p: "upath ?p"
    using user_va_uslot [OF va] by simp
  show ?thesis
  proof (cases "?p = c")
    case True
    then show ?thesis
      unfolding leaf_pte_def tab [OF p] using none zero [of "vpn 0 va"] by simp
  next
    case False
    then show ?thesis
      unfolding leaf_pte_def tab [OF p] using keep [OF user_va_uslot [OF va] slot_vpn _ slot_vpn]
      by (auto simp del: taddr.simps One_nat_def split: option.splits)
  qed
qed

text \<open>The first two levels: the table exists afterwards, and no leaf entry has changed.\<close>

definition level_ok :: "'a mmkernel_scheme \<Rightarrow> 'a mmkernel_scheme \<Rightarrow> u64 \<Rightarrow> bool" where
  "level_ok s s' r \<longleftrightarrow> mm_inv s' \<and> pt_inv s' r \<and> status_ctx s' = status_ctx s
    \<and> (\<forall>va. user_va va \<longrightarrow> leaf_pte (mem s') r va = leaf_pte (mem s) r va)"

lemma mid_step:
  assumes inv: "mm_inv s" and pt: "pt_inv s r" and i: "uslot i"
    and ret: "check_page_set_flag r i PAGE_PRESENT s = Ret s' t"
  shows "level_ok s s' r \<and> taddr (mem s') r (Mid i) = Some t"
  using inv ret
proof (cases rule: check_page_set_flag_cases)
  case present
  then show ?thesis
    using inv pt by (auto simp: level_ok_def)
next
  case (new k e)
  let ?n = "page_addr k" and ?m = "clear_pgdir (page_addr k) (mem s)" and ?E = "entry_for e (page_addr k) PAGE_PRESENT"
  note C = cleared_page [OF pt new(2,4)] and fresh = new_page_fresh [OF pt new(2,4)]
  note r = treeD(1) [OF C(1)] and E = entry_present [OF table_flags_present]
  have nr: "?n \<noteq> r"
    using fresh [of Root] by auto
  have old: "pte_at (mem s) r i = 0" "pte_at ?m r i = 0"
    using pt_invD(3) [OF pt i] new(1) C(4) [of Root r i] uslot_slot [OF i] by auto
  have mem: "mem s' = ?m(r + 8 * i := ?E)"
    using new(3,8) by simp
  have tab: "taddr (mem s') r p = (if p = Mid i then Some ?n else taddr (mem s) r p)" if "upath p" for p
    using taddr_install_mid [OF C(1) i E(2) C(6) [OF table_flags_present] C(3,5) nr old(2) that]
    by (simp only: mem C(2) [OF that])
  have keep: "pte_at (mem s') u j = pte_at ?m u j" if "page_aligned u" "u \<noteq> r" "slot j" for u j
    unfolding mem using pte_at_upd [OF r uslot_slot [OF i] that(1,3)] that(2) by simp
  have below: "u \<noteq> r" if "upath p" "p \<noteq> Root" "taddr (mem s) r p = Some u" for p u
    using treeD(2) [OF pt_inv_tree [OF pt], of p Root u] that by auto
  have "pt_inv s' r"
  proof (rule pt_inv_frame [OF pt, where c = "Mid i" and n = ?n])
    show "pte_at (mem s') r i' = pte_at (mem s) r i' \<or> pte_at (mem s') r i' AND PAGE_PRESENT \<noteq> 0" if "uslot i'" for i'
      unfolding mem using pte_at_upd [OF r uslot_slot [OF i] r uslot_slot [OF that]]
        C(4) [of Root r i'] uslot_slot [OF that] E(1) by simp
    show "pte_at (mem s') u j AND PAGE_PRESENT \<noteq> 0"
      if "uslot i'" "slot j" "taddr (mem s') r (Mid i') = Some u" "pte_at (mem s') u j \<noteq> 0" for i' j u
    proof (cases "u = ?n")
      case True
      then show ?thesis
        using keep [OF C(5) nr that(2)] C(3) [OF that(2)] that(4) by simp
    next
      case False
      then have u: "taddr (mem s) r (Mid i') = Some u"
        using tab [of "Mid i'"] that(1,3) by (auto split: if_splits)
      then show ?thesis
        using keep [OF taddr_aligned [OF r u] below [of "Mid i'"] that(2)] C(4) [OF _ u that(2)] pt_invD(4) [OF pt that(1,2) u] that(1,4)
        by simp
    qed
  qed (use tab fresh new(2,6) in \<open>auto simp: in_use_def\<close>)
  moreover have "leaf_pte (mem s') r va = leaf_pte (mem s) r va" if "user_va va" for va
  proof (rule leaf_pte_frame [OF tab _ _ _ that])
    show "pte_at (mem s') u l = pte_at (mem s) u l" if "uslot i'" "slot j" "taddr (mem s) r (Low i' j) = Some u" "slot l" for i' j u l
      using keep [OF taddr_aligned [OF r that(3)] below [OF _ _ that(3)] that(4)] C(4) [OF _ that(3,4)] that(1,2) by simp
  qed (use old keep [OF C(5) nr] C(3) in auto)
  ultimately show ?thesis
    using new(3,5,7) tab [of "Mid i"] i by (simp add: level_ok_def del: taddr.simps)
qed

lemma low_step:
  assumes inv: "mm_inv s" and pt: "pt_inv s r" and i: "uslot i" and j: "slot j" and t: "taddr (mem s) r (Mid i) = Some t"
    and ret: "check_page_set_flag t j PAGE_PRESENT s = Ret s' u"
  shows "level_ok s s' r \<and> taddr (mem s') r (Low i j) = Some u"
  using inv ret
proof (cases rule: check_page_set_flag_cases)
  case present
  then show ?thesis
    using inv pt t by (auto simp: level_ok_def Let_def split: if_splits)
next
  case (new k e)
  let ?n = "page_addr k" and ?m = "clear_pgdir (page_addr k) (mem s)" and ?E = "entry_for e (page_addr k) PAGE_PRESENT"
  note C = cleared_page [OF pt new(2,4)] and fresh = new_page_fresh [OF pt new(2,4)]
  note r = treeD(1) [OF C(1)] and E = entry_present [OF table_flags_present]
  have ta: "page_aligned t" and tm: "taddr ?m r (Mid i) = Some t" and nt: "?n \<noteq> t"
    using taddr_aligned [OF r t] C(2) [of "Mid i"] t i fresh [of "Mid i"] by auto
  have old: "pte_at (mem s) t j = 0"
    using pt_invD(4) [OF pt i j t] new(1) by blast
  have mem: "mem s' = ?m(t + 8 * j := ?E)"
    using new(3,8) by simp
  have tab: "taddr (mem s') r p = (if p = Low i j then Some ?n else taddr (mem s) r p)" if "upath p" for p
    using taddr_install_low [OF C(1) i j tm E(2) C(6) [OF table_flags_present] that]
    by (simp only: mem C(2) [OF that])
  have keep: "pte_at (mem s') v l = (if v = t \<and> l = j then ?E else pte_at ?m v l)" if "page_aligned v" "slot l" for v l
    unfolding mem using pte_at_upd [OF ta j that] by simp
  have "pt_inv s' r"
  proof (rule pt_inv_frame [OF pt, where c = "Low i j" and n = ?n])
    show "pte_at (mem s') r i' = pte_at (mem s) r i' \<or> pte_at (mem s') r i' AND PAGE_PRESENT \<noteq> 0" if "uslot i'" for i'
      using keep [OF r uslot_slot [OF that]] C(4) [of Root r i'] uslot_slot [OF that] E(1) by simp
    show "pte_at (mem s') v l AND PAGE_PRESENT \<noteq> 0"
      if "uslot i'" "slot l" "taddr (mem s') r (Mid i') = Some v" "pte_at (mem s') v l \<noteq> 0" for i' l v
    proof -
      have v: "taddr (mem s) r (Mid i') = Some v"
        using tab [of "Mid i'"] that(1,3) by simp
      then show ?thesis
        using keep [OF taddr_aligned [OF r v] that(2)] C(4) [OF _ v that(2)] pt_invD(4) [OF pt that(1,2) v] that(1,4) E(1)
        by (auto split: if_splits)
    qed
  qed (use tab fresh new(2,6) in \<open>auto simp: in_use_def\<close>)
  moreover have "leaf_pte (mem s') r va = leaf_pte (mem s) r va" if "user_va va" for va
  proof (rule leaf_pte_frame [OF tab _ _ _ that])
    show "pte_at (mem s') v l = pte_at (mem s) v l" if "uslot i'" "slot j'" "taddr (mem s) r (Low i' j') = Some v" "slot l" for i' j' v l
    proof -
      have "v \<noteq> t"
        using treeD(2) [OF pt_inv_tree [OF pt], of "Low i' j'" "Mid i" v] that(1-3) t i by auto
      then show ?thesis
        using keep [OF taddr_aligned [OF r that(3)] that(4)] C(4) [OF _ that(3,4)] that(1,2) by simp
    qed
    show "taddr (mem s) r (Low i j) = None"
      using t old by (auto simp: Let_def split: if_splits)
  qed (use keep [OF C(5)] C(3) nt in auto)
  ultimately show ?thesis
    using new(3,5,7) tab [of "Low i j"] i j by (simp add: level_ok_def del: taddr.simps)
qed

text \<open>The last level: writing a leaf entry changes the mapping of its page and no other.\<close>

lemma leaf_pte_write:
  assumes T: "tree m r" and t: "taddr m r (Low (vpn 2 va) (vpn 1 va)) = Some t" and va: "user_va va" and vb: "user_va vb"
  shows "leaf_pte (m(t + 8 * vpn 0 va := e)) r vb = (if same_page va vb then e else leaf_pte m r vb)"
proof -
  let ?m = "m(t + 8 * vpn 0 va := e)" and ?q = "Low (vpn 2 vb) (vpn 1 vb)"
  have same: "taddr ?m r ?q = taddr m r ?q"
    by (rule taddr_leaf_write [OF T t user_va_uslot [OF va] slot_vpn slot_vpn]) (simp add: user_va_uslot [OF vb])
  show ?thesis
  proof (cases "taddr m r ?q")
    case None
    then show ?thesis
      unfolding leaf_pte_def same using t by (auto simp: same_page_def simp del: taddr.simps One_nat_def)
  next
    case (Some u)
    have "u = t \<longleftrightarrow> vpn 2 va = vpn 2 vb \<and> vpn 1 va = vpn 1 vb"
      using treeD(2) [OF T, of "Low (vpn 2 va) (vpn 1 va)" ?q t] t Some user_va_uslot [OF va] user_va_uslot [OF vb]
      by (auto simp del: taddr.simps One_nat_def)
    then show ?thesis
      unfolding leaf_pte_def same Some
      using pte_at_upd [OF taddr_aligned [OF treeD(1) [OF T] t] slot_vpn taddr_aligned [OF treeD(1) [OF T] Some] slot_vpn]
      by (auto simp: same_page_def)
  qed
qed

lemma pt_inv_leaf_write:
  assumes pt: "pt_inv s r" and m: "tree m r" "\<And>p. upath p \<Longrightarrow> taddr m r p = taddr (mem s) r p"
    and old: "\<And>p u j. upath p \<Longrightarrow> taddr (mem s) r p = Some u \<Longrightarrow> slot j \<Longrightarrow> pte_at m u j = pte_at (mem s) u j"
    and t: "taddr (mem s) r (Low i j) = Some t" "uslot i" "slot j" "slot k"
    and s': "mem s' = m(t + 8 * k := e)"
    and live: "\<And>k. share_num (pageRecyc s k) \<noteq> 0 \<Longrightarrow> share_num (pageRecyc s' k) \<noteq> 0"
  shows "pt_inv s' r"
proof -
  have t': "taddr m r (Low i j) = Some t"
    using m(2) [of "Low i j"] t by (simp del: taddr.simps)
  have tab: "taddr (mem s') r p = taddr (mem s) r p" if "upath p" for p
    unfolding s' using taddr_leaf_write [OF m(1) t' t(2-4) that] m(2) [OF that] by simp
  have keep: "pte_at (mem s') u l = pte_at (mem s) u l"
    if "upath p" "taddr (mem s) r p = Some u" "p \<noteq> Low i j" "slot l" for p u l
  proof -
    have "u \<noteq> t"
      using treeD(2) [OF pt_inv_tree [OF pt] that(1), of "Low i j" u] that t by auto
    then show ?thesis
      unfolding s' using pte_at_upd [OF taddr_aligned [OF treeD(1) [OF m(1)] t'] t(4) taddr_aligned [OF treeD(1) [OF m(1)] that(2)] that(4)]
        old [OF that(1,2,4)] by simp
  qed
  show ?thesis
  proof (rule pt_invI)
    show "in_use s' a" if "upath p" "taddr (mem s') r p = Some a" for p a
      using pt_invD(1) [OF pt that(1)] tab [OF that(1)] that(2) live unfolding in_use_def by metis
    show "p = q" if "upath p" "upath q" "taddr (mem s') r p = Some a" "taddr (mem s') r q = Some a" for p q a
      by (rule pt_invD(2) [OF pt that(1,2) that(3) [unfolded tab [OF that(1)]] that(4) [unfolded tab [OF that(2)]]])
    show "pte_at (mem s') r i' AND PAGE_PRESENT \<noteq> 0" if "uslot i'" "pte_at (mem s') r i' \<noteq> 0" for i'
      using keep [of Root r i'] pt_invD(3) [OF pt that(1)] that uslot_slot [OF that(1)] by simp
    show "pte_at (mem s') u l AND PAGE_PRESENT \<noteq> 0"
      if "uslot i'" "slot l" "taddr (mem s') r (Mid i') = Some u" "pte_at (mem s') u l \<noteq> 0" for i' l u
      using keep [of "Mid i'" u l] pt_invD(4) [OF pt that(1,2)] tab [of "Mid i'"] that by (simp del: taddr.simps)
  qed
qed

lemma leaf_step:
  assumes inv: "mm_inv s" and pt: "pt_inv s r" and va: "user_va va"
    and t: "taddr (mem s) r (Low (vpn 2 va) (vpn 1 va)) = Some t" and flg: "table_flags flg"
    and ret: "check_page_set_flag t (vpn 0 va) flg s = Ret s' pg"
  shows "mm_inv s' \<and> pt_inv s' r \<and> status_ctx s' = status_ctx s
    \<and> leaf_pte (mem s') r va \<noteq> 0 \<and> table_of (leaf_pte (mem s') r va) = pg
    \<and> (\<forall>vb. user_va vb \<longrightarrow> \<not> same_page va vb \<longrightarrow> leaf_pte (mem s') r vb = leaf_pte (mem s) r vb)"
  using inv ret
proof (cases rule: check_page_set_flag_cases)
  case present
  then show ?thesis
    using inv pt t by (auto simp: leaf_pte_def simp del: taddr.simps One_nat_def)
next
  case (new k e)
  let ?m = "clear_pgdir (page_addr k) (mem s)" and ?E = "entry_for e (page_addr k) flg"
  note C = cleared_page [OF pt new(2,4)] and i = user_va_uslot [OF va]
  have mem: "mem s' = ?m(t + 8 * vpn 0 va := ?E)"
    using new(3,8) by simp
  have t': "taddr ?m r (Low (vpn 2 va) (vpn 1 va)) = Some t"
    using C(2) [of "Low (vpn 2 va) (vpn 1 va)"] t i by (simp del: taddr.simps)
  have "pt_inv s' r"
    by (rule pt_inv_leaf_write [OF pt C(1,2) C(4) t i slot_vpn slot_vpn mem]) (use new(6) in auto)
  moreover have "leaf_pte ?m r vb = leaf_pte (mem s) r vb" if "user_va vb" for vb
    using C(2) [of "Low (vpn 2 vb) (vpn 1 vb)"] C(4) [of "Low (vpn 2 vb) (vpn 1 vb)" _ "vpn 0 vb"] user_va_uslot [OF that]
    by (auto simp: leaf_pte_def simp del: taddr.simps One_nat_def split: option.splits)
  ultimately show ?thesis
    using new(3,5,7) leaf_pte_write [OF C(1) t' va] va entry_present(2) [OF flg] C(6) [OF flg]
    by (auto simp: mem same_page_def)
qed

section \<open>Mapping a page\<close>

lemma note_pte_simps [simp]:
  "mem (note_pte kva pte s) = mem s" "page_lists (note_pte kva pte s) = page_lists s"
  "source_num (note_pte kva pte s) = source_num s" "status_ctx (note_pte kva pte s) = status_ctx s"
  "share_num (pageRecyc (note_pte kva pte s) k) = share_num (pageRecyc s k)"
  "kva_begin (pageRecyc (note_pte kva pte s) k) = kva_begin (pageRecyc s k)"
  by (simp_all add: note_pte_def)

lemma note_pte_inv [simp]: "mm_inv (note_pte kva pte s) = mm_inv s" "pt_inv (note_pte kva pte s) r = pt_inv s r"
  by (simp_all only: mm_inv_def pt_inv_def in_use_def note_pte_simps)

lemma pa2kva_offset: "pa2kva (push_bit 12 pfn OR page_offset va) = pa2kva (push_bit 12 pfn) OR (va AND 0xfff)"
proof -
  have m: "(0xfff :: u64) = mask 12"
    by (simp add: mask_eq_exp_minus_1)
  show ?thesis
    unfolding pa2kva_def page_offset_def Let_def low_32 m
    by (intro bit_word_eqI) (auto simp: bit_simps)
qed

text \<open>The two table levels that \<^const>\<open>alloc_page_helper\<close> and \<^const>\<open>alloc_page_point_phyc\<close> share.\<close>

lemma two_levels:
  assumes "mm_inv s" and "pt_inv s r" and va: "user_va va"
    and "check_page_set_flag r (vpn 2 va) PAGE_PRESENT s = Ret s1 t"
    and "check_page_set_flag t (vpn 1 va) PAGE_PRESENT s1 = Ret s2 u"
  shows "level_ok s s2 r \<and> taddr (mem s2) r (Low (vpn 2 va) (vpn 1 va)) = Some u"
proof -
  have 1: "level_ok s s1 r \<and> taddr (mem s1) r (Mid (vpn 2 va)) = Some t"
    using mid_step [OF assms(1,2) user_va_uslot [OF va] assms(4)] .
  then have "level_ok s1 s2 r \<and> taddr (mem s2) r (Low (vpn 2 va) (vpn 1 va)) = Some u"
    using low_step [OF _ _ user_va_uslot [OF va] slot_vpn _ assms(5)] unfolding level_ok_def by blast
  with 1 show ?thesis
    unfolding level_ok_def by simp
qed

text \<open>With a free page left each level returns, and takes at most one page.\<close>

lemma check_page_set_flag_returns:
  assumes inv: "mm_inv s" and free: "Suc n \<le> length (page_lists s free_source_list)"
  shows "\<exists>s' pg. check_page_set_flag page i flg s = Ret s' pg \<and> mm_inv s' \<and> n \<le> length (page_lists s' free_source_list)"
proof (cases "pte_at (mem s) page i AND PAGE_PRESENT = 0")
  case True
  from allocPage_returns [of s] free obtain t p where a: "allocPage s = Ret t p" by fastforce
  from allocPage_effect [OF inv a] have t: "mm_inv t" "page_lists t free_source_list = tl (page_lists s free_source_list)"
    by metis+
  have n: "n \<le> length (page_lists t free_source_list)"
    using free by (simp add: t)
  show ?thesis
    using True t(1) n by (simp add: check_page_set_flag_def a Let_def)
next
  case False
  then show ?thesis
    using inv free by (simp add: check_page_set_flag_def)
qed

lemma alloc_page_helper_returns:
  assumes inv: "mm_inv s" and free: "3 \<le> length (page_lists s free_source_list)"
  shows "\<exists>s' k. alloc_page_helper va r mode s = Ret s' k"
proof -
  obtain s1 t where 1: "check_page_set_flag r (vpn 2 va) PAGE_PRESENT s = Ret s1 t" "mm_inv s1"
      "2 \<le> length (page_lists s1 free_source_list)"
    using check_page_set_flag_returns [OF inv, of 2 r "vpn 2 va" PAGE_PRESENT] free by auto
  obtain s2 u where 2: "check_page_set_flag t (vpn 1 va) PAGE_PRESENT s1 = Ret s2 u" "mm_inv s2"
      "1 \<le> length (page_lists s2 free_source_list)"
    using check_page_set_flag_returns [OF 1(2), of 1 t "vpn 1 va" PAGE_PRESENT] 1(3) by auto
  obtain s3 pg where "check_page_set_flag u (vpn 0 va) (leaf_flags mode) s2 = Ret s3 pg"
    using check_page_set_flag_returns [OF 2(2), of 0 u "vpn 0 va" "leaf_flags mode"] 2(3) by auto
  with 1 2 show ?thesis
    by (simp add: alloc_page_helper_def Let_def)
qed

text \<open>C18: \<open>alloc_page_helper\<close> returns when three pages are free. When it returns, the address is
  mapped: the kernel address it returns is the one \<open>get_kva_of\<close> computes from the page tables. The
  mapping of every other user page of the address space is as before, and the tables are still a
  tree of pages in use.\<close>

theorem alloc_page_helper_maps:
  assumes "mm_inv s" and "pt_inv s r" and "user_va va"
  shows "(3 \<le> length (page_lists s free_source_list) \<longrightarrow> (\<exists>s' k. alloc_page_helper va r mode s = Ret s' k))
    \<and> (\<forall>s' k. alloc_page_helper va r mode s = Ret s' k \<longrightarrow>
        get_kva_of (mem s') va r = k \<and> k \<noteq> NULL
        \<and> (\<forall>vb. user_va vb \<longrightarrow> \<not> same_page va vb \<longrightarrow> get_kva_of (mem s') vb r = get_kva_of (mem s) vb r)
        \<and> mm_inv s' \<and> pt_inv s' r)"
proof (intro conjI allI impI alloc_page_helper_returns [OF assms(1)])
  fix s' k
  assume "alloc_page_helper va r mode s = Ret s' k"
  then obtain s1 t s2 u s3 pg where 1: "check_page_set_flag r (vpn 2 va) PAGE_PRESENT s = Ret s1 t"
    and 2: "check_page_set_flag t (vpn 1 va) PAGE_PRESENT s1 = Ret s2 u"
    and 3: "check_page_set_flag u (vpn 0 va) (leaf_flags mode) s2 = Ret s3 pg"
    and s': "s' = note_pte k (u + 8 * vpn 0 va) s3" and k: "k = pg OR (va AND 0x0fff)"
    unfolding alloc_page_helper_def obind_Ret_iff Let_def by blast
  have L: "level_ok s s2 r" and u: "taddr (mem s2) r (Low (vpn 2 va) (vpn 1 va)) = Some u"
    using two_levels [OF assms 1 2] by blast+
  then have F: "mm_inv s3 \<and> pt_inv s3 r \<and> leaf_pte (mem s3) r va \<noteq> 0 \<and> table_of (leaf_pte (mem s3) r va) = pg
    \<and> (\<forall>vb. user_va vb \<longrightarrow> \<not> same_page va vb \<longrightarrow> leaf_pte (mem s3) r vb = leaf_pte (mem s2) r vb)"
    using leaf_step [OF _ _ assms(3) u table_flags_leaf 3] unfolding level_ok_def by blast
  show va: "get_kva_of (mem s') va r = k"
    unfolding get_kva_of_leaf [OF assms(3)] pa2kva_offset k s' using F by (simp add: table_of_def)
  then show "k \<noteq> NULL"
    using F get_kva_of_leaf [OF assms(3), of "mem s3" r] by (auto simp: s')
  show "mm_inv s'" "pt_inv s' r"
    using F by (simp_all add: s')
  show "get_kva_of (mem s') vb r = get_kva_of (mem s) vb r" if "user_va vb" "\<not> same_page va vb" for vb
    using F L that by (simp add: s' get_kva_of_leaf level_ok_def)
qed

text \<open>An address space begins with a cleared page.\<close>

lemma pt_inv_new:
  assumes "mm_inv s" and "allocPage s = Ret t p"
  shows "mm_inv t \<and> pt_inv t (p - PAGE_SIZE)"
proof -
  from allocPage_effect [OF assms] obtain k where k: "k < NUM_REC" "p = page_addr k + PAGE_SIZE"
      "pageRecyc t = (pageRecyc s)(k := (pageRecyc s k)\<lparr>share_num := 1\<rparr>)"
      "mem t = clear_pgdir (page_addr k) (mem s)" "mm_inv t"
    by metis
  have a: "page_aligned (page_addr k)"
    using kpage_page_addr [OF k(1)] by (simp add: kpage_def)
  have z: "pte_at (mem t) (page_addr k) i = 0" if "slot i" for i
    using pte_at_clear [OF a a that] by (simp add: k(4))
  have tab: "taddr (mem t) (page_addr k) q = (if q = Root then Some (page_addr k) else None)" if "upath q" for q
    using that z uslot_slot by (cases q) auto
  have "in_use t (page_addr k)"
    using k(1,3) by (auto simp: in_use_def)
  then have "pt_inv t (page_addr k)"
    by (intro pt_invI) (auto simp: tab z uslot_slot simp del: taddr.simps split: if_splits)
  then show ?thesis
    using k(2,5) by simp
qed

theorem alloc_page_helper_maps_witness:
  "\<exists>s r s' k. alloc_page_helper 0x10008 r MAP_USER (s :: mmkernel) = Ret s' k \<and> get_kva_of (mem s') 0x10008 r = k \<and> k \<noteq> NULL
    \<and> get_kva_of (mem s') 0x11000 r = get_kva_of (mem s) 0x11000 r"
proof -
  let ?i = "init_mem demo_mm"
  have e: "\<forall>q. q \<noteq> free_source_list \<longrightarrow> page_lists demo_mm q = []"
    by (simp_all add: demo_mm_def lockkernel.defs)
  note I = mm_inv_init_mem [OF e]
  obtain s p where a: "allocPage ?i = Ret s p"
    using allocPage_returns [of ?i] I(3) by auto
  have inv: "mm_inv s" and pt: "pt_inv s (p - PAGE_SIZE)"
    using pt_inv_new [OF I(1) a] by blast+
  have "page_lists s free_source_list = tl (page_lists ?i free_source_list)"
    by (rule allocPage_effect [OF I(1) a])
  then have free: "3 \<le> length (page_lists s free_source_list)"
    by (simp add: I(3))
  have va: "user_va 0x10008" "user_va 0x11000" "\<not> same_page 0x10008 0x11000"
    by (simp_all add: user_va_def same_page_def vpn_def mask_eq_exp_minus_1)
  from alloc_page_helper_maps [OF inv pt va(1), of MAP_USER] free va(2,3) show ?thesis
    by metis
qed

section \<open>Setting the accessed and dirty bits\<close>

text \<open>Two memories with the same mappings: the words differ in attribute bits only.\<close>

definition same_map :: "mem64 \<Rightarrow> mem64 \<Rightarrow> bool" where
  "same_map m m' \<longleftrightarrow> (\<forall>a. (m' a = 0 \<longleftrightarrow> m a = 0) \<and> get_pfn (m' a) = get_pfn (m a)
    \<and> (m a AND PAGE_PRESENT \<noteq> 0 \<longrightarrow> m' a AND PAGE_PRESENT \<noteq> 0))"

lemma same_map_refl [simp]: "same_map m m"
  by (simp add: same_map_def)

lemma same_map_trans: "same_map m m' \<Longrightarrow> same_map m' m'' \<Longrightarrow> same_map m m''"
  by (simp add: same_map_def)

lemma get_pfn_or: "b AND mask 10 = b \<Longrightarrow> get_pfn (e OR b) = get_pfn e"
  unfolding get_pfn_def mask_64_10 Let_def
  by (drule sym, erule ssubst, intro bit_eqI) (auto simp: bit_simps)

lemma same_map_or:
  assumes "m a \<noteq> 0" and "b AND mask 10 = b"
  shows "same_map m (m(a := m a OR b))"
proof -
  have "m a OR b \<noteq> 0"
    using assms(1) by (simp add: or_eq_0_iff)
  moreover have "(m a OR b) AND PAGE_PRESENT \<noteq> 0" if "m a AND PAGE_PRESENT \<noteq> 0"
    using that by (simp add: bit.conj_disj_distrib2 or_eq_0_iff)
  ultimately show ?thesis
    using assms by (auto simp: same_map_def get_pfn_or)
qed

lemma same_map_taddr: "same_map m m' \<Longrightarrow> taddr m' r p = taddr m r p"
  by (cases p) (simp_all add: same_map_def pte_at_def table_of_def Let_def)

lemma same_map_kva: "same_map m m' \<Longrightarrow> get_kva_of m' va r = get_kva_of m va r"
  by (simp add: same_map_def get_kva_of_def pte_at_def table_of_def Let_def)

lemma same_map_pt_inv:
  assumes "pt_inv s r" and "same_map (mem s) (mem s')" and "pageRecyc s' = pageRecyc s"
  shows "pt_inv s' r"
proof -
  note T = same_map_taddr [OF assms(2)] and D = pt_invD [OF assms(1)]
  have nz: "pte_at (mem s') t i \<noteq> 0 \<Longrightarrow> pte_at (mem s) t i \<noteq> 0"
    and pr: "pte_at (mem s) t i AND PAGE_PRESENT \<noteq> 0 \<Longrightarrow> pte_at (mem s') t i AND PAGE_PRESENT \<noteq> 0" for t i
    using assms(2) by (simp_all add: same_map_def pte_at_def)
  show ?thesis
  proof (rule pt_invI)
    show "pte_at (mem s') t j AND PAGE_PRESENT \<noteq> 0"
      if "uslot i" "slot j" "taddr (mem s') r (Mid i) = Some t" "pte_at (mem s') t j \<noteq> 0" for i j t
      using D(4) [OF that(1,2) that(3) [unfolded T]] that(4) nz pr by blast
  qed (use D(1-3) nz pr in \<open>auto simp: in_use_def assms(3) T simp del: taddr.simps\<close>)
qed

text \<open>The decision \<^const>\<open>check_W_SD_and_set_AD\<close> takes on the leaf entry \<open>e\<close>: the bits it adds and the
  code it returns.\<close>

definition leaf_verdict :: "u64 \<Rightarrow> i32 \<Rightarrow> u64 \<times> u32" where
  "leaf_verdict e mode =
    (if e AND PAGE_SD \<noteq> 0 then
       if e AND PAGE_WRITE = 0 \<and> mode = STORE then (PAGE_PRESENT OR PAGE_ACCESSED OR PAGE_DIRTY, IN_SD_NO_W)
       else (PAGE_PRESENT OR PAGE_ACCESSED OR (if mode = STORE then PAGE_DIRTY else 0), IN_SD)
     else if e AND PAGE_PRESENT \<noteq> 0 then
       if e AND PAGE_WRITE = 0 \<and> mode = STORE then (PAGE_PRESENT OR PAGE_ACCESSED OR PAGE_DIRTY, NO_W)
       else if mode = LOAD \<and> e AND PAGE_ACCESSED \<noteq> 0 \<or> mode = STORE \<and> e AND (PAGE_ACCESSED OR PAGE_DIRTY) \<noteq> 0
       then (0, -1)
       else (PAGE_ACCESSED OR (if mode = STORE then PAGE_DIRTY else 0), ALLOC_NO_AD)
     else (0, NO_ALLOC))"

lemma leaf_verdict_bits: "leaf_verdict e mode = (b, c) \<Longrightarrow> b AND mask 10 = b"
  by (auto simp: leaf_verdict_def mask_eq_exp_minus_1 split: if_splits)

lemma leaf_verdict_zero: "leaf_verdict 0 mode = (0, NO_ALLOC)"
  by (simp add: leaf_verdict_def)

lemma leaf_verdict_no_alloc: "snd (leaf_verdict e mode) = NO_ALLOC \<longleftrightarrow> e AND PAGE_PRESENT = 0 \<and> e AND PAGE_SD = 0"
  by (simp add: leaf_verdict_def)

lemma upd_mem_or: "upd_mem a (\<lambda>e. e OR b) s = s\<lparr>mem := (mem s)(a := mem s a OR b)\<rparr>"
  by (simp add: upd_mem_def)

lemma check_leaf_verdict:
  assumes "leaf_verdict (mem s a) mode = (b, c)"
  shows "check_leaf a mode s = (s\<lparr>mem := (mem s)(a := mem s a OR b)\<rparr>, c)"
proof -
  have same: "s\<lparr>mem := (mem s)(a := mem s a OR 0)\<rparr> = s"
    by simp
  have "check_leaf a mode s = (let (b, c) = leaf_verdict (mem s a) mode in (s\<lparr>mem := (mem s)(a := mem s a OR b)\<rparr>, c))"
    unfolding check_leaf_def leaf_verdict_def upd_mem_or
    by (simp only: if_distrib [of "case_prod f" for f] Let_def case_prod_conv same split: if_split)
  then show ?thesis
    using assms by simp
qed

text \<open>The function on the tables of an address space: it adds bits to the leaf entry, and marks the
  tables on the way as accessed.\<close>

lemma check_W_SD_and_set_AD_effect:
  assumes pt: "pt_inv s r" and va: "user_va va" and v: "leaf_verdict (leaf_pte (mem s) r va) mode = (b, c)"
  obtains m where "check_W_SD_and_set_AD va r mode s = (s\<lparr>mem := m\<rparr>, c)" and "same_map (mem s) m"
    and "leaf_pte m r va = leaf_pte (mem s) r va OR b"
proof -
  let ?m = "mem s" and ?v2 = "vpn 2 va" and ?v1 = "vpn 1 va" and ?v0 = "vpn 0 va"
  note i = user_va_uslot [OF va] and T = pt_inv_tree [OF pt]
  have acc: "(64 :: u64) AND mask 10 = 64"
    by (simp add: mask_eq_exp_minus_1)
  define e2 where "e2 = ?m (r + 8 * ?v2)"
  define m1 where "m1 = ?m(r + 8 * ?v2 := e2 OR PAGE_ACCESSED)"
  define t where "t = table_of e2"
  have t1: "pa2kva (push_bit 12 (get_pfn (e2 OR PAGE_ACCESSED))) = t"
    by (simp add: t_def table_of_def get_pfn_or [OF acc])
  show thesis
  proof (cases "e2 AND PAGE_PRESENT = 0")
    case True
    then have "e2 = 0"
      using pt_invD(3) [OF pt i] by (auto simp: e2_def pte_at_def)
    then have leaf: "leaf_pte ?m r va = 0"
      by (simp add: leaf_pte_def e2_def pte_at_def)
    then have bc: "b = 0" "c = NO_ALLOC"
      using v by (simp_all add: leaf_verdict_zero)
    have "check_W_SD_and_set_AD va r mode s = (s\<lparr>mem := ?m\<rparr>, c)"
      using True by (simp add: check_W_SD_and_set_AD_def Let_def e2_def bc)
    then show thesis
      by (rule that) (simp_all add: bc)
  next
    case p2: False
    then have e2: "e2 \<noteq> 0" by auto
    then have t: "taddr ?m r (Mid ?v2) = Some t"
      by (simp add: t_def e2_def pte_at_def)
    define e1 where "e1 = ?m (t + 8 * ?v1)"
    have tr: "t + 8 * ?v1 \<noteq> r + 8 * ?v2"
      using slot_addr_inject [OF taddr_aligned [OF treeD(1) [OF T] t] slot_vpn treeD(1) [OF T] slot_vpn]
        treeD(2) [OF T, of Root "Mid ?v2" r] t i by (auto simp del: taddr.simps(2))
    have m1: "same_map ?m m1" "m1 (t + 8 * ?v1) = e1"
      using same_map_or [of ?m "r + 8 * ?v2" PAGE_ACCESSED] e2 acc tr by (simp_all add: m1_def e2_def e1_def)
    show thesis
    proof (cases "e1 AND PAGE_PRESENT = 0")
      case True
      then have "e1 = 0"
        using pt_invD(4) [OF pt i slot_vpn t] by (auto simp: e1_def pte_at_def)
      then have z: "taddr ?m r (Low ?v2 ?v1) = None"
        using e2 by (simp add: e1_def t_def e2_def pte_at_def)
      then have leaf: "leaf_pte ?m r va = 0" "leaf_pte m1 r va = 0"
        using same_map_taddr [OF m1(1), of r "Low ?v2 ?v1"] by (simp_all only: leaf_pte_def option.case)
      then have bc: "b = 0" "c = NO_ALLOC"
        using v by (simp_all add: leaf_verdict_zero)
      have "check_W_SD_and_set_AD va r mode s = (s\<lparr>mem := m1\<rparr>, c)"
        using True p2 m1(2) t1 by (simp add: check_W_SD_and_set_AD_def Let_def upd_mem_def m1_def bc flip: e2_def)
      then show thesis
        by (rule that) (simp_all add: bc m1 leaf)
    next
      case p1: False
      define u where "u = table_of e1"
      define m2 where "m2 = m1(t + 8 * ?v1 := e1 OR PAGE_ACCESSED)"
      define m3 where "m3 = m2(u + 8 * ?v0 := ?m (u + 8 * ?v0) OR b)"
      have e1: "e1 \<noteq> 0" and u: "taddr ?m r (Low ?v2 ?v1) = Some u"
        using p1 e2 by (auto simp: u_def e1_def t_def e2_def pte_at_def Let_def)
      have u1: "pa2kva (push_bit 12 (get_pfn (e1 OR PAGE_ACCESSED))) = u"
        by (simp add: u_def table_of_def get_pfn_or [OF acc])
      have ne: "u + 8 * ?v0 \<noteq> r + 8 * ?v2" "u + 8 * ?v0 \<noteq> t + 8 * ?v1"
        using slot_addr_inject [OF taddr_aligned [OF treeD(1) [OF T] u] slot_vpn treeD(1) [OF T] slot_vpn]
          slot_addr_inject [OF taddr_aligned [OF treeD(1) [OF T] u] slot_vpn taddr_aligned [OF treeD(1) [OF T] t] slot_vpn]
          treeD(2) [OF T, of Root "Low ?v2 ?v1" r] treeD(2) [OF T, of "Mid ?v2" "Low ?v2 ?v1" t] u t i
        by (auto simp del: taddr.simps(2,3))
      have leaf: "leaf_pte ?m r va = ?m (u + 8 * ?v0)"
        using u by (simp add: leaf_pte_def pte_at_def del: taddr.simps One_nat_def)
      have m2: "same_map ?m m2" "m2 (u + 8 * ?v0) = ?m (u + 8 * ?v0)"
        using same_map_trans [OF m1(1)] same_map_or [of m1 "t + 8 * ?v1" PAGE_ACCESSED] e1 acc m1(2) ne
        by (simp_all add: m2_def m1_def)
      have m3: "same_map ?m m3"
      proof (cases "?m (u + 8 * ?v0) = 0")
        case True
        then have "m3 = m2"
          using v m2(2) by (auto simp: leaf leaf_verdict_zero m3_def)
        then show ?thesis using m2(1) by simp
      next
        case False
        then show ?thesis
          using same_map_trans [OF m2(1)] same_map_or [of m2 "u + 8 * ?v0" b] leaf_verdict_bits [OF v] m2(2)
          by (simp add: m3_def)
      qed
      have "leaf_pte m3 r va = ?m (u + 8 * ?v0) OR b"
        using u same_map_taddr [OF m3, of r "Low ?v2 ?v1"]
        by (simp add: leaf_pte_def pte_at_def m3_def del: taddr.simps One_nat_def)
      moreover have "check_W_SD_and_set_AD va r mode s = (s\<lparr>mem := m3\<rparr>, c)"
      proof -
        let ?s1 = "s\<lparr>mem := m1\<rparr>" and ?s2 = "s\<lparr>mem := m2\<rparr>"
        have 1: "upd_mem (r + 8 * ?v2) (\<lambda>e. e OR PAGE_ACCESSED) s = ?s1" "m1 (r + 8 * ?v2) = e2 OR PAGE_ACCESSED"
          by (simp_all add: upd_mem_def m1_def e2_def)
        have 2: "upd_mem (t + 8 * ?v1) (\<lambda>e. e OR PAGE_ACCESSED) ?s1 = ?s2" "m2 (t + 8 * ?v1) = e1 OR PAGE_ACCESSED"
          using m1(2) by (simp_all add: upd_mem_def m2_def)
        have "check_leaf (u + 8 * ?v0) mode ?s2 = (s\<lparr>mem := m3\<rparr>, c)"
          using check_leaf_verdict [of ?s2 "u + 8 * ?v0" mode b c] v m2(2) by (simp add: leaf m3_def)
        then show ?thesis
          using p2 p1 m1(2) unfolding check_W_SD_and_set_AD_def Let_def
          by (simp add: 1 2 t1 u1 del: One_nat_def flip: e2_def)
      qed
      ultimately show thesis
        using m3 leaf by (intro that) simp_all
    qed
  qed
qed

text \<open>A concrete address space: pages 0, 1 and 2 are the tables, and the leaf entry of the address
  \<open>0x1000\<close> is \<open>E\<close>.\<close>

definition demo_vm :: "u64 \<Rightarrow> mmkernel" where
  "demo_vm E = demo_mm\<lparr>pageRecyc := (\<lambda>i. \<lparr>page_pte = 0, kva_begin = page_addr i, sd_sec = 0, share_num = 1, is_share = 0\<rparr>),
    page_lists := (\<lambda>q. if q = usedPageList then [0..<NUM_REC] else []),
    mem := (\<lambda>_. 0)(page_addr 0 + 8 * 0 := entry_for 0 (page_addr 1) PAGE_PRESENT,
      page_addr 1 + 8 * 0 := entry_for 0 (page_addr 2) PAGE_PRESENT, page_addr 2 + 8 * 1 := E)\<rparr>"

lemma demo_pages: "page_addr 0 \<noteq> page_addr 1" "page_addr 0 \<noteq> page_addr 2" "page_addr 1 \<noteq> page_addr 2"
  "page_aligned (page_addr 0)" "page_aligned (page_addr 1)" "page_aligned (page_addr 2)"
  using kpage_page_addr [of 0] kpage_page_addr [of 1] kpage_page_addr [of 2]
  by (simp_all add: page_addr_def kpage_def)

lemma demo_vm_pte:
  assumes "page_aligned b" and "slot i"
  shows "pte_at (mem (demo_vm E)) b i =
    (if b = page_addr 2 \<and> i = 1 then E
     else if b = page_addr 1 \<and> i = 0 then entry_for 0 (page_addr 2) PAGE_PRESENT
     else if b = page_addr 0 \<and> i = 0 then entry_for 0 (page_addr 1) PAGE_PRESENT else 0)"
proof -
  have s01: "slot 0" "slot 1"
    by (simp_all add: mask_eq_exp_minus_1)
  have m: "mem (demo_vm E) = (\<lambda>_. 0)(page_addr 0 + 8 * 0 := entry_for 0 (page_addr 1) PAGE_PRESENT,
      page_addr 1 + 8 * 0 := entry_for 0 (page_addr 2) PAGE_PRESENT, page_addr 2 + 8 * 1 := E)"
    by (simp add: demo_vm_def)
  show ?thesis
    unfolding m pte_at_upd [OF demo_pages(6) s01(2) assms] pte_at_upd [OF demo_pages(5) s01(1) assms]
      pte_at_upd [OF demo_pages(4) s01(1) assms]
    by (simp add: pte_at_def)
qed

lemma demo_tables:
  "table_of (entry_for e (page_addr 1) PAGE_PRESENT) = page_addr 1"
  "table_of (entry_for e (page_addr 2) PAGE_PRESENT) = page_addr 2"
  by (rule table_of_entry_for; simp add: kpage_page_addr)+

lemma demo_vm_taddr:
  assumes "upath p"
  shows "taddr (mem (demo_vm E)) (page_addr 0) p =
    (if p = Root then Some (page_addr 0) else if p = Mid 0 then Some (page_addr 1)
     else if p = Low 0 0 then Some (page_addr 2) else None)"
proof (cases p)
  case (Low i j)
  then show ?thesis
    using assms demo_vm_pte [OF demo_pages(4) uslot_slot, of i E] demo_vm_pte [OF demo_pages(5), of j E]
    by (auto simp: demo_pages demo_tables entry_present(2) Let_def simp del: One_nat_def)
qed (use assms demo_vm_pte [OF demo_pages(4) uslot_slot] in \<open>auto simp: demo_pages demo_tables entry_present(2) simp del: One_nat_def\<close>)

lemma demo_vm_inv:
  "pt_inv (demo_vm E) (page_addr 0)" "leaf_pte (mem (demo_vm E)) (page_addr 0) 0x1000 = E" "user_va 0x1000"
proof -
  have use: "in_use (demo_vm E) (page_addr k)" if "k < NUM_REC" for k
    using that by (auto simp: in_use_def demo_vm_def)
  show "pt_inv (demo_vm E) (page_addr 0)"
  proof (rule pt_invI)
    show "in_use (demo_vm E) a" if "upath p" "taddr (mem (demo_vm E)) (page_addr 0) p = Some a" for p a
      using that use by (auto simp: demo_vm_taddr simp del: taddr.simps split: if_splits)
    show "p = q" if "upath p" "upath q" "taddr (mem (demo_vm E)) (page_addr 0) p = Some a"
        "taddr (mem (demo_vm E)) (page_addr 0) q = Some a" for p q a
      using that demo_pages by (auto simp: demo_vm_taddr simp del: taddr.simps split: if_splits)
    show "pte_at (mem (demo_vm E)) (page_addr 0) i AND PAGE_PRESENT \<noteq> 0"
      if "uslot i" "pte_at (mem (demo_vm E)) (page_addr 0) i \<noteq> 0" for i
      using that(2) demo_vm_pte [OF demo_pages(4) uslot_slot [OF that(1)], of E] demo_pages(1-3) entry_present(1) [OF table_flags_present]
      by (simp split: if_split_asm)
    show "pte_at (mem (demo_vm E)) t j AND PAGE_PRESENT \<noteq> 0"
      if "uslot i" "slot j" "taddr (mem (demo_vm E)) (page_addr 0) (Mid i) = Some t" "pte_at (mem (demo_vm E)) t j \<noteq> 0" for i j t
    proof -
      have "t = page_addr 1"
        using that(1,3) demo_vm_taddr [of "Mid i" E] by (simp split: if_splits del: taddr.simps)
      then show ?thesis
        using that(4) demo_vm_pte [OF demo_pages(5) that(2), of E] demo_pages(1-3) entry_present(1) [OF table_flags_present]
        by (simp split: if_split_asm)
    qed
  qed
  have v: "vpn 2 0x1000 = 0" "vpn 1 0x1000 = 0" "vpn 0 0x1000 = 1"
    by (simp_all add: vpn_def mask_eq_exp_minus_1)
  have "slot 1"
    using of_nat_slot [of 1] by simp
  then show "leaf_pte (mem (demo_vm E)) (page_addr 0) 0x1000 = E"
    using demo_vm_taddr [of "Low 0 0" E] demo_vm_pte [OF demo_pages(6), of 1 E]
    by (simp add: leaf_pte_def v del: taddr.simps One_nat_def)
  show "user_va 0x1000"
    by (simp add: user_va_def)
qed

text \<open>C28: The check on a page fault classifies the fault by the leaf entry of the address and never changes what an
  address maps to. It answers \<open>IN_SD_NO_W\<close> exactly for a store to a read-only page on the swap device, \<open>IN_SD\<close> exactly
  for any other access to a page there, \<open>NO_ALLOC\<close> exactly when the page is neither there nor present, and for a present
  page \<open>NO_W\<close> exactly for a store to a read-only page, \<open>-1\<close> exactly when the accessed bit (for a store, the accessed or
  the dirty bit) is already set, and \<open>ALLOC_NO_AD\<close> exactly otherwise. Only accessed, dirty and present bits are added to
  the entry, those that the answer calls for.\<close>

theorem check_W_SD_and_set_AD_keeps_mapping:
  assumes "pt_inv s r" and "user_va va" and "check_W_SD_and_set_AD va r mode s = (s', c)"
  defines "e \<equiv> leaf_pte (mem s) r va" and "e' \<equiv> leaf_pte (mem s') r va"
  defines "sd \<equiv> e AND PAGE_SD \<noteq> 0" and "present \<equiv> e AND PAGE_PRESENT \<noteq> 0"
    and "refused \<equiv> mode = STORE \<and> e AND PAGE_WRITE = 0"
    and "marked \<equiv> mode = LOAD \<and> e AND PAGE_ACCESSED \<noteq> 0 \<or> mode = STORE \<and> e AND (PAGE_ACCESSED OR PAGE_DIRTY) \<noteq> 0"
  shows "(\<forall>vb. get_kva_of (mem s') vb r = get_kva_of (mem s) vb r) \<and> pt_inv s' r
    \<and> (c = IN_SD_NO_W \<longleftrightarrow> sd \<and> refused) \<and> (c = IN_SD \<longleftrightarrow> sd \<and> \<not> refused)
    \<and> (c = NO_ALLOC \<longleftrightarrow> \<not> sd \<and> \<not> present)
    \<and> (c = NO_W \<longleftrightarrow> \<not> sd \<and> present \<and> refused)
    \<and> (c = -1 \<longleftrightarrow> \<not> sd \<and> present \<and> \<not> refused \<and> marked)
    \<and> (c = ALLOC_NO_AD \<longleftrightarrow> \<not> sd \<and> present \<and> \<not> refused \<and> \<not> marked)
    \<and> e' = e OR ((if c = IN_SD \<or> c = IN_SD_NO_W \<or> c = NO_W then PAGE_PRESENT else 0)
              OR (if c = NO_ALLOC \<or> c = -1 then 0 else PAGE_ACCESSED OR (if mode = STORE then PAGE_DIRTY else 0)))"
proof -
  obtain b d where v: "leaf_verdict e mode = (b, d)"
    by fastforce
  from check_W_SD_and_set_AD_effect [OF assms(1,2) v [unfolded e_def]] obtain m where
    m: "check_W_SD_and_set_AD va r mode s = (s\<lparr>mem := m\<rparr>, d)" "same_map (mem s) m" "leaf_pte m r va = e OR b"
    unfolding e_def by metis
  then have s': "s' = s\<lparr>mem := m\<rparr>" "c = d" "e' = e OR b"
    using assms(3) by (simp_all add: e'_def)
  have "leaf_verdict e mode =
      (if sd then if refused then (PAGE_PRESENT OR PAGE_ACCESSED OR PAGE_DIRTY, IN_SD_NO_W)
         else (PAGE_PRESENT OR PAGE_ACCESSED OR (if mode = STORE then PAGE_DIRTY else 0), IN_SD)
       else if present then
         if refused then (PAGE_PRESENT OR PAGE_ACCESSED OR PAGE_DIRTY, NO_W)
         else if marked then (0, -1) else (PAGE_ACCESSED OR (if mode = STORE then PAGE_DIRTY else 0), ALLOC_NO_AD)
       else (0, NO_ALLOC))"
    by (simp only: leaf_verdict_def sd_def present_def refused_def marked_def conj_commute [of "mode = STORE"])
  moreover have "refused \<Longrightarrow> mode = STORE"
    by (simp add: refused_def)
  ultimately have "(c = IN_SD_NO_W \<longleftrightarrow> sd \<and> refused) \<and> (c = IN_SD \<longleftrightarrow> sd \<and> \<not> refused) \<and> (c = NO_ALLOC \<longleftrightarrow> \<not> sd \<and> \<not> present)
      \<and> (c = NO_W \<longleftrightarrow> \<not> sd \<and> present \<and> refused) \<and> (c = -1 \<longleftrightarrow> \<not> sd \<and> present \<and> \<not> refused \<and> marked)
      \<and> (c = ALLOC_NO_AD \<longleftrightarrow> \<not> sd \<and> present \<and> \<not> refused \<and> \<not> marked)
      \<and> b = (if c = IN_SD \<or> c = IN_SD_NO_W \<or> c = NO_W then PAGE_PRESENT else 0)
          OR (if c = NO_ALLOC \<or> c = -1 then 0 else PAGE_ACCESSED OR (if mode = STORE then PAGE_DIRTY else 0))"
    using v s'(2) by (cases sd; cases present; cases refused; cases marked) auto
  moreover have "pt_inv s' r"
    using same_map_pt_inv [OF assms(1), of "s\<lparr>mem := m\<rparr>"] m(2) by (simp add: s')
  ultimately show ?thesis
    using same_map_kva [OF m(2)] s'(1,3) by simp
qed

theorem check_W_SD_and_set_AD_keeps_mapping_witness:
  "snd (check_W_SD_and_set_AD 0x1000 (page_addr 0) STORE (demo_vm 0x1f)) = ALLOC_NO_AD
    \<and> get_kva_of (mem (fst (check_W_SD_and_set_AD 0x1000 (page_addr 0) STORE (demo_vm 0x1f)))) 0x1000 (page_addr 0)
      = get_kva_of (mem (demo_vm 0x1f)) 0x1000 (page_addr 0)"
  using check_W_SD_and_set_AD_keeps_mapping [OF demo_vm_inv(1) [of "0x1f"] demo_vm_inv(3), of STORE] demo_vm_inv(2) [of "0x1f"]
  by (cases "check_W_SD_and_set_AD 0x1000 (page_addr 0) STORE (demo_vm 0x1f)") simp

text \<open>C29: A store to a present, writable page that has been read (accessed) but not written (not dirty)
  is answered with "nothing to do": the dirty bit stays clear, so the access faults again.\<close>

theorem store_after_load_not_dirty:
  assumes "pt_inv s r" and "user_va va"
    and "leaf_pte (mem s) r va AND PAGE_PRESENT \<noteq> 0" and "leaf_pte (mem s) r va AND PAGE_SD = 0"
    and "leaf_pte (mem s) r va AND PAGE_WRITE \<noteq> 0" and "leaf_pte (mem s) r va AND PAGE_ACCESSED \<noteq> 0"
    and "check_W_SD_and_set_AD va r STORE s = (s', c)"
  shows "c = -1 \<and> leaf_pte (mem s') r va = leaf_pte (mem s) r va"
proof -
  let ?e = "leaf_pte (mem s) r va"
  have "?e AND (PAGE_ACCESSED OR PAGE_DIRTY) \<noteq> 0"
    using assms(6) unfolding bit.conj_disj_distrib or_eq_0_iff by blast
  then have v: "leaf_verdict ?e STORE = (0, -1)"
    using assms(3-5) by (simp add: leaf_verdict_def)
  from check_W_SD_and_set_AD_effect [OF assms(1,2) v] assms(7) show ?thesis
    by (metis Pair_inject mmkernel.select_convs(4) mmkernel.surjective mmkernel.update_convs(4) bit.disj_zero_right)
qed

text \<open>A page that has been loaded from, with all permissions.\<close>

theorem store_after_load_not_dirty_witness:
  "snd (check_W_SD_and_set_AD 0x1000 (page_addr 0) STORE (demo_vm 0x5f)) = -1
    \<and> leaf_pte (mem (fst (check_W_SD_and_set_AD 0x1000 (page_addr 0) STORE (demo_vm 0x5f)))) (page_addr 0) 0x1000 AND PAGE_DIRTY = 0"
  using store_after_load_not_dirty [OF demo_vm_inv(1) [of "0x5f"] demo_vm_inv(3)] demo_vm_inv(2) [of "0x5f"]
  by (cases "check_W_SD_and_set_AD 0x1000 (page_addr 0) STORE (demo_vm 0x5f)") simp

section \<open>Unmapping a page\<close>

lemma mem_freePage [simp]: "mem (freePage a s) = mem s"
  by (simp add: freePage_def Let_def)

lemma GET_MEM_NODE_offset:
  assumes "k < NUM_REC"
  shows "GET_MEM_NODE (page_addr k OR (va AND 0xfff)) = k"
proof -
  define off where "off = unat (va AND 0xfff)"
  have m: "(0xfff :: u64) = mask 12"
    by (simp add: mask_eq_exp_minus_1)
  have off: "off < 4096"
    unfolding off_def m take_bit_eq_mask [symmetric] unsigned_take_bit_eq
    using take_bit_nat_less_exp [of 12 "unat va"] by simp
  have disj: "\<not> bit (page_addr k) n \<or> \<not> bit (va AND 0xfff) n" for n
  proof (cases "n < 12")
    case True
    have "\<not> bit (page_addr k AND mask 12) n"
      using kpage_page_addr [OF assms] by (simp add: kpage_def page_aligned_def)
    with True show ?thesis by (auto simp: bit_simps)
  qed (simp add: m bit_simps)
  have "page_addr k OR (va AND 0xfff) = page_addr k + of_nat off"
    unfolding off_def by (simp add: disjunctive_add [OF disj])
  then have "GET_MEM_NODE (page_addr k OR (va AND 0xfff)) = unat (of_nat (4096 * k + off) div (of_nat 4096) :: u64)"
    by (simp add: GET_MEM_NODE_def page_addr_def)
  also have "\<dots> = (4096 * k + off) div 4096"
    unfolding unat_div_distrib using assms off by (subst (1 2) unat_of_nat_u64) simp_all
  finally show ?thesis
    using off by simp
qed

lemma freePage_offset:
  "k < NUM_REC \<Longrightarrow> freePage (page_addr k OR (va AND 0xfff)) s = freePage (page_addr k) s"
  by (simp add: freePage_def GET_MEM_NODE_offset GET_MEM_NODE_page_addr)

text \<open>C30: \<open>free_page_helper\<close> on a mapped address drops one reference to its page and unmaps the address;
  the mapping of every other user page stays.\<close>

theorem free_page_helper_unmaps:
  assumes "mm_inv s" and "pt_inv s r" and "user_va va"
    and "leaf_pte (mem s) r va \<noteq> 0" and "table_of (leaf_pte (mem s) r va) = page_addr k" and "k < NUM_REC"
    and "share_num (pageRecyc s k) \<noteq> 0" and "free_page_helper va r s = (s', ret)"
  shows "ret = 0 \<and> get_kva_of (mem s') va r = NULL
    \<and> (\<forall>vb. user_va vb \<longrightarrow> \<not> same_page va vb \<longrightarrow> get_kva_of (mem s') vb r = get_kva_of (mem s) vb r)
    \<and> pageRecyc s' = (pageRecyc s)(k := (pageRecyc s k)\<lparr>share_num := share_num (pageRecyc s k) - 1\<rparr>) \<and> mm_inv s'"
proof -
  obtain t where t: "taddr (mem s) r (Low (vpn 2 va) (vpn 1 va)) = Some t"
    using assms(4) by (auto simp: leaf_pte_def simp del: taddr.simps split: option.splits)
  then have third: "pa2kva (push_bit 12 (get_pfn (pte_at (mem s)
      (pa2kva (push_bit 12 (get_pfn (pte_at (mem s) r (vpn 2 va))))) (vpn 1 va)))) = t"
    by (auto simp: table_of_def Let_def split: if_splits)
  have kva: "get_kva_of (mem s) va r = page_addr k OR (va AND 0xfff)"
    using assms(4,5) by (simp add: get_kva_of_leaf [OF assms(3)] pa2kva_offset table_of_def)
  let ?f = "freePage (page_addr k) s"
  have s': "s' = upd_mem (t + 8 * vpn 0 va) (\<lambda>_. 0) ?f" "ret = 0"
    using assms(8) by (simp_all add: free_page_helper_def Let_def third kva freePage_offset [OF assms(6)] del: One_nat_def)
  have "leaf_pte (mem s') r vb = (if same_page va vb then 0 else leaf_pte (mem s) r vb)" if "user_va vb" for vb
    using leaf_pte_write [OF pt_inv_tree [OF assms(2)] t assms(3) that, of 0] by (simp add: s')
  then show ?thesis
    using mm_inv_freePage [OF assms(1,6,7)] assms(3) by (auto simp: s' get_kva_of_leaf same_page_def)
qed

lemma demo_vm_mm_inv: "mm_inv (demo_vm E)"
  by (rule mm_invI)
    (auto simp: demo_vm_def page_addr_def demo_mm_def lockkernel.defs queued_def intro!: store_invI split: if_splits)

theorem free_page_helper_unmaps_witness:
  "get_kva_of (mem (fst (free_page_helper 0x1000 (page_addr 0) (demo_vm (entry_for 0 (page_addr 7) 0x1f))))) 0x1000 (page_addr 0) = NULL
    \<and> mm_inv (fst (free_page_helper 0x1000 (page_addr 0) (demo_vm (entry_for 0 (page_addr 7) 0x1f))))"
proof -
  let ?E = "entry_for 0 (page_addr 7) 0x1f"
  have flg: "table_flags 0x1f"
    by (simp add: table_flags_def mask_eq_exp_minus_1)
  have "table_of ?E = page_addr 7" "?E \<noteq> 0"
    using table_of_entry_for [OF kpage_page_addr [of 7] flg] entry_present(2) [OF flg] by simp_all
  then show ?thesis
    using free_page_helper_unmaps [OF demo_vm_mm_inv demo_vm_inv(1,3), of ?E 7] demo_vm_inv(2) [of ?E]
    by (cases "free_page_helper 0x1000 (page_addr 0) (demo_vm ?E)") (simp add: demo_vm_def)
qed

end
