(* ===== verification/FatLayout.thy ===== *)
theory FatLayout
  imports Prelude
begin

text \<open>
  The geometry of a FAT32 volume and its directory entries: the data and the inline functions of
  \<open>include/fs/fat32.h\<close> that need no disk, with their 32-bit arithmetic.
\<close>

unbundle bit_operations_syntax

section \<open>The volume\<close>

record bpb =
  byts_per_sec :: u16
  sec_per_clus :: u8
  rsvd_sec_cnt :: u16
  fat_cnt :: u8
  hidd_sec :: u32
  tot_sec :: u32
  fat_sz :: u32
  root_clus :: u32

record fat_t =
  first_data_sec :: u32
  data_sec_cnt :: u32
  data_clus_cnt :: u32
  byts_per_clus :: u32
  free_count :: u32
  next_free :: u32
  fs_info :: u16
  next_free_fat :: u32
  fat_bpb :: bpb

abbreviation (input) FAT32_EOC :: u32 where "FAT32_EOC \<equiv> 0x0ffffff8"
abbreviation (input) FAT_MASK :: u32 where "FAT_MASK \<equiv> 0x0fffffff"
abbreviation (input) SECTOR_SIZE :: "fat_t \<Rightarrow> u32" where "SECTOR_SIZE f \<equiv> ucast (byts_per_sec (fat_bpb f))"
abbreviation (input) CLUSTER_SIZE :: "fat_t \<Rightarrow> u32" where "CLUSTER_SIZE f \<equiv> byts_per_clus f"
abbreviation (input) SEC_PER_CLU :: "fat_t \<Rightarrow> u32" where "SEC_PER_CLU f \<equiv> ucast (sec_per_clus (fat_bpb f))"

definition first_sec_of_clus :: "fat_t \<Rightarrow> u32 \<Rightarrow> u32" where
  "first_sec_of_clus f cluster = (cluster - 2) * ucast (sec_per_clus (fat_bpb f)) + first_data_sec f"

definition sec_to_clus :: "fat_t \<Rightarrow> u32 \<Rightarrow> u32" where
  "sec_to_clus f sec_num = (sec_num - first_data_sec f) div ucast (sec_per_clus (fat_bpb f)) + 2"

definition fat_sec_of_clus :: "fat_t \<Rightarrow> u32 \<Rightarrow> u8 \<Rightarrow> u32" where
  "fat_sec_of_clus f cluster fat_num =
    ucast (rsvd_sec_cnt (fat_bpb f)) + hidd_sec (fat_bpb f)
    + push_bit 2 cluster div ucast (byts_per_sec (fat_bpb f)) + fat_sz (fat_bpb f) * (ucast fat_num - 1)"

definition fat_offset_of_clus :: "fat_t \<Rightarrow> u32 \<Rightarrow> u32" where
  "fat_offset_of_clus f cluster = push_bit 2 cluster mod ucast (byts_per_sec (fat_bpb f))"

definition clus_of_sec :: "fat_t \<Rightarrow> u32 \<Rightarrow> u32" where
  "clus_of_sec f sector = (sector - first_data_sec f) div ucast (sec_per_clus (fat_bpb f)) + 2"

section \<open>Directory entries\<close>

record dentry =
  dename :: "u8 list"
  extname :: "u8 list"
  arributes :: u8
  Lowercase :: u8
  creat_time_ms :: u8
  creat_time :: u16
  creat_date :: u16
  last_visit_time :: u16
  high_start_clus :: u16
  modity_time :: u16
  modity_date :: u16
  low_start_clus :: u16
  file_size :: u32

record long_name_entry =
  ln_seq :: u8
  name1 :: "u16 list"
  ln_attributes :: u8
  reserved :: u8
  ln_checksum :: u8
  name2 :: "u16 list"
  ln_start_clus :: u16
  name3 :: "u16 list"

definition get_cluster_from_dentry :: "dentry \<Rightarrow> u32" where
  "get_cluster_from_dentry p = push_bit 16 (ucast (high_start_clus p)) + ucast (low_start_clus p)"

definition set_dentry_cluster :: "u32 \<Rightarrow> dentry \<Rightarrow> dentry" where
  "set_dentry_cluster cluster p = p\<lparr>high_start_clus := ucast (drop_bit 16 cluster AND mask 16),
     low_start_clus := ucast (cluster AND mask 16)\<rparr>"

definition set_cluster_for_dentry :: "u32 \<Rightarrow> dentry \<Rightarrow> dentry" where
  "set_cluster_for_dentry clus p = p\<lparr>high_start_clus := ucast (drop_bit 16 clus AND 0xffff),
     low_start_clus := ucast (clus AND 0xffff)\<rparr>"

definition get_length_from_dentry :: "dentry \<Rightarrow> u32" where
  "get_length_from_dentry p = file_size p"

section \<open>Facts\<close>

lemma split_cluster:
  fixes c :: u32
  shows "push_bit 16 (ucast (ucast (drop_bit 16 c AND mask 16) :: u16)) + ucast (ucast (c AND mask 16) :: u16) = c"
    (is "?h + ?l = c")
proof -
  have "?h + ?l = ?h OR ?l"
    by (rule disjunctive_add) (auto simp: bit_simps)
  also have "\<dots> = c"
    by (rule bit_word_eqI) (auto simp: bit_simps)
  finally show ?thesis .
qed

lemma ffff: "(0xffff :: u32) = mask 16"
  by (simp add: mask_eq_exp_minus_1)

lemma get_set_dentry_cluster: "get_cluster_from_dentry (set_dentry_cluster c p) = c"
  by (simp add: get_cluster_from_dentry_def set_dentry_cluster_def split_cluster)

lemma get_set_cluster_for_dentry: "get_cluster_from_dentry (set_cluster_for_dentry c p) = c"
  by (simp add: get_cluster_from_dentry_def set_cluster_for_dentry_def ffff split_cluster)

lemma unat_ucast_u8: "unat (ucast (x :: u8) :: u32) = unat x"
  using unsigned_less [of x, where 'a = nat] by (simp add: unsigned_ucast_eq take_bit_nat_eq_self)

text \<open>The sector \<open>k\<close> of a cluster, without overflow.\<close>

definition clus_in_range :: "fat_t \<Rightarrow> u32 \<Rightarrow> bool" where
  "clus_in_range f c \<longleftrightarrow> 2 \<le> c \<and> sec_per_clus (fat_bpb f) \<noteq> 0
    \<and> (unat c - 1) * unat (sec_per_clus (fat_bpb f)) + unat (first_data_sec f) < 2 ^ 32"

lemma unat_sector:
  assumes c: "clus_in_range f c" and k: "k < unat (sec_per_clus (fat_bpb f))"
  shows "unat (first_sec_of_clus f c + of_nat k) =
    (unat c - 2) * unat (sec_per_clus (fat_bpb f)) + unat (first_data_sec f) + k"
proof -
  let ?n = "unat c - 2" and ?p = "unat (sec_per_clus (fat_bpb f))" and ?d = "unat (first_data_sec f)"
  have "2 \<le> unat c"
    using c by (simp add: clus_in_range_def word_le_nat_alt)
  then have "(?n + 1) * ?p + ?d < 2 ^ 32" and c2: "c - 2 = of_nat ?n"
    using c by (simp_all add: clus_in_range_def Suc_diff_Suc numeral_2_eq_2 of_nat_diff)
  then have b: "?n * ?p + ?d + k < 2 ^ 32"
    using k by (simp add: algebra_simps)
  have "first_sec_of_clus f c + of_nat k = of_nat (?n * ?p + ?d + k)"
    by (simp add: first_sec_of_clus_def c2)
  then show ?thesis
    using unat_of_nat_i32 [OF b] by simp
qed

lemma clus_of_sector:
  assumes c: "clus_in_range f c" and k: "k < unat (sec_per_clus (fat_bpb f))"
  shows "sec_to_clus f (first_sec_of_clus f c + of_nat k) = c"
proof -
  let ?n = "unat c - 2" and ?p = "unat (sec_per_clus (fat_bpb f))" and ?d = "unat (first_data_sec f)"
  let ?s = "first_sec_of_clus f c + of_nat k"
  have u: "unat ?s = ?n * ?p + ?d + k"
    by (rule unat_sector [OF assms])
  then have "first_data_sec f \<le> ?s"
    by (simp add: word_le_nat_alt)
  then have "unat (?s - first_data_sec f) = ?n * ?p + k"
    using u by (simp add: unat_sub)
  then have "unat ((?s - first_data_sec f) div ucast (sec_per_clus (fat_bpb f))) = ?n"
    using k by (simp add: unat_div_distrib unat_ucast_u8)
  then have "(?s - first_data_sec f) div ucast (sec_per_clus (fat_bpb f)) = of_nat ?n"
    by (drule_tac arg_cong [where f = "of_nat :: nat \<Rightarrow> u32"]) (simp del: of_nat_diff)
  moreover have "of_nat ?n + 2 = c"
    using c by (simp add: clus_in_range_def word_le_nat_alt of_nat_diff)
  ultimately show ?thesis
    by (simp add: sec_to_clus_def)
qed

text \<open>Cluster and sector numbers convert back and forth: every sector of a cluster inside the volume
  belongs to that cluster and to no other, and a directory entry yields the cluster that was stored in it.\<close>

theorem cluster_sector_round_trip:
  assumes "clus_in_range f c" and "k < unat (sec_per_clus (fat_bpb f))"
  shows "sec_to_clus f (first_sec_of_clus f c + of_nat k) = c
    \<and> clus_of_sec f (first_sec_of_clus f c + of_nat k) = c
    \<and> (\<forall>d j. clus_in_range f d \<longrightarrow> j < unat (sec_per_clus (fat_bpb f)) \<longrightarrow>
        first_sec_of_clus f c + of_nat k = first_sec_of_clus f d + of_nat j \<longrightarrow> d = c)
    \<and> get_cluster_from_dentry (set_dentry_cluster c p) = c"
proof -
  have "clus_of_sec f s = sec_to_clus f s" for s
    by (simp add: clus_of_sec_def sec_to_clus_def)
  then show ?thesis
    using clus_of_sector [OF assms] clus_of_sector get_set_dentry_cluster by metis
qed

definition demo_fat :: fat_t where
  "demo_fat = \<lparr>first_data_sec = 2080, data_sec_cnt = 100000, data_clus_cnt = 12500, byts_per_clus = 4096,
    free_count = 100, next_free = 5, fs_info = 1, next_free_fat = 32,
    fat_bpb = \<lparr>byts_per_sec = 512, sec_per_clus = 8, rsvd_sec_cnt = 32, fat_cnt = 2, hidd_sec = 0,
      tot_sec = 102080, fat_sz = 1024, root_clus = 2\<rparr>\<rparr>"

theorem cluster_sector_round_trip_witness:
  "sec_to_clus demo_fat (first_sec_of_clus demo_fat 7 + 5) = 7"
  using cluster_sector_round_trip [of demo_fat 7 5] by (simp add: demo_fat_def clus_in_range_def)

end
