(* ===== verification/Kstring.thy ===== *)
theory Kstring
  imports Prelude
begin

text \<open>
  The string and memory routines of \<open>libs/string.c\<close> and the hashes of \<open>include/hash.h\<close>, on a memory of
  bytes. A loop that ends only at a terminating zero is a \<open>partial_function\<close>; the lemmas say what it
  returns on memory that holds a string (\<open>cstr\<close>).
\<close>

unbundle bit_operations_syntax

type_synonym bmem = "ptr \<Rightarrow> u8"

section \<open>Operations\<close>

partial_function (option) strlen_loop :: "bmem \<Rightarrow> ptr \<Rightarrow> i32 \<Rightarrow> i32 option" where
  "strlen_loop m src i = (if m (src + scast i) \<noteq> 0 then strlen_loop m src (i + 1) else Some i)"

definition kstrlen :: "bmem \<Rightarrow> ptr \<Rightarrow> i32 option" where
  "kstrlen m src = strlen_loop m src 0"

fun memcpy_loop :: "nat \<Rightarrow> ptr \<Rightarrow> ptr \<Rightarrow> bmem \<Rightarrow> bmem" where
  "memcpy_loop 0 dest src m = m"
| "memcpy_loop (Suc len) dest src m = memcpy_loop len (dest + 1) (src + 1) (m(dest := m src))"

definition kmemcpy :: "ptr \<Rightarrow> ptr \<Rightarrow> u32 \<Rightarrow> bmem \<Rightarrow> bmem" where
  "kmemcpy dest src len m = memcpy_loop (unat len) dest src m"

definition memcpy :: "ptr \<Rightarrow> ptr \<Rightarrow> u32 \<Rightarrow> bmem \<Rightarrow> bmem" where
  "memcpy dest src len m = memcpy_loop (unat len) dest src m"

fun memset_loop :: "nat \<Rightarrow> ptr \<Rightarrow> u8 \<Rightarrow> bmem \<Rightarrow> bmem" where
  "memset_loop 0 dst val m = m"
| "memset_loop (Suc len) dst val m = memset_loop len (dst + 1) val (m(dst := val))"

definition kmemset :: "ptr \<Rightarrow> u8 \<Rightarrow> u32 \<Rightarrow> bmem \<Rightarrow> bmem" where
  "kmemset dest val len m = memset_loop (unat len) dest val m"

definition memset :: "ptr \<Rightarrow> u8 \<Rightarrow> u32 \<Rightarrow> bmem \<Rightarrow> bmem" where
  "memset dest val len m = memset_loop (unat len) dest val m"

definition kbzero :: "ptr \<Rightarrow> u32 \<Rightarrow> bmem \<Rightarrow> bmem" where
  "kbzero dest len m = kmemset dest 0 len m"

text \<open>\<open>kmemmove\<close>: both loops count the same \<open>len\<close> down and neither advances \<open>i\<close>. The first returns
  the value of \<open>temp[0]\<close> and what is left of \<open>len\<close>.\<close>

fun memmove_fill :: "nat \<Rightarrow> ptr \<Rightarrow> bmem \<Rightarrow> u8 \<Rightarrow> u8 \<times> nat" where
  "memmove_fill 0 src m t = (t, 0)"
| "memmove_fill (Suc len) src m t = memmove_fill len (src + 1) m (m src)"

fun memmove_drain :: "nat \<Rightarrow> ptr \<Rightarrow> u8 \<Rightarrow> bmem \<Rightarrow> bmem" where
  "memmove_drain 0 dest t m = m"
| "memmove_drain (Suc len) dest t m = memmove_drain len (dest + 1) t (m(dest := t))"

definition kmemmove :: "ptr \<Rightarrow> ptr \<Rightarrow> u32 \<Rightarrow> bmem \<Rightarrow> bmem" where
  "kmemmove dest src len m =
    (let (t, left) = memmove_fill (unat len) src m 0 in memmove_drain left dest t m)"

text \<open>\<open>(*str1) - (*str2)\<close> is an \<open>int\<close> difference of two unsigned characters.\<close>

partial_function (option) kstrcmp :: "bmem \<Rightarrow> ptr \<Rightarrow> ptr \<Rightarrow> int option" where
  "kstrcmp m str1 str2 =
    (if m str1 \<noteq> 0 \<and> m str2 \<noteq> 0 then
       if m str1 \<noteq> m str2 then Some (uint (m str1) - uint (m str2))
       else kstrcmp m (str1 + 1) (str2 + 1)
     else Some (uint (m str1) - uint (m str2)))"

partial_function (option) strcpy_loop :: "ptr \<Rightarrow> ptr \<Rightarrow> bmem \<Rightarrow> bmem option" where
  "strcpy_loop dest src m =
    (if m src \<noteq> 0 then strcpy_loop (dest + 1) (src + 1) (m(dest := m src))
     else Some (m(dest := 0)))"

definition kstrcpy :: "ptr \<Rightarrow> ptr \<Rightarrow> bmem \<Rightarrow> (bmem \<times> ptr) option" where
  "kstrcpy dest src m = map_option (\<lambda>m. (m, dest)) (strcpy_loop dest src m)"

partial_function (option) strend_loop :: "bmem \<Rightarrow> ptr \<Rightarrow> ptr option" where
  "strend_loop m dest = (if m dest \<noteq> 0 then strend_loop m (dest + 1) else Some dest)"

definition kstrcat :: "ptr \<Rightarrow> ptr \<Rightarrow> bmem \<Rightarrow> (bmem \<times> ptr) option" where
  "kstrcat dest src m =
    Option.bind (strend_loop m dest) (\<lambda>d. map_option (\<lambda>m. (m, dest)) (strcpy_loop d src m))"

text \<open>\<open>katoi\<close>: the loop runs to \<open>kstrlen(s)\<close>, which does not change; \<open>int\<close> arithmetic wraps.\<close>

fun katoi_loop :: "bmem \<Rightarrow> ptr \<Rightarrow> u32 \<Rightarrow> nat \<Rightarrow> i32 \<Rightarrow> i32" where
  "katoi_loop m s mode 0 acc = acc"
| "katoi_loop m s mode (Suc n) acc = katoi_loop m (s + 1) mode n (acc * mode + (ucast (m s) - 48))"

definition katoi :: "bmem \<Rightarrow> ptr \<Rightarrow> u32 \<Rightarrow> i32 option" where
  "katoi m s mode = map_option (\<lambda>n. katoi_loop m s mode (if 0 < sint n then unat n else 0) 0) (kstrlen m s)"

definition digit_val :: "i64 \<Rightarrow> u8 \<Rightarrow> i64 option" where
  "digit_val base c =
    (if 48 \<le> c \<and> c \<le> 57 then Some (ucast c - 48)
     else if base = 16 then
       if 97 \<le> c \<and> c \<le> 102 then Some (ucast c - 97 + 10)
       else if 65 \<le> c \<and> c \<le> 70 then Some (ucast c - 65 + 10)
       else None
     else None)"

partial_function (option) katol_loop :: "bmem \<Rightarrow> i64 \<Rightarrow> ptr \<Rightarrow> i64 \<Rightarrow> i64 option" where
  "katol_loop m base str ret =
    (if m str = 0 then Some ret
     else case digit_val base (m str) of
       None \<Rightarrow> Some 0
     | Some d \<Rightarrow> katol_loop m base (str + 1) (ret * base + d))"

definition katol :: "bmem \<Rightarrow> ptr \<Rightarrow> i64 option" where
  "katol m str =
    (if m str = 48 \<and> m (str + 1) = 120 \<or> m str = 48 \<and> m (str + 1) = 88
     then katol_loop m 16 (str + 2) 0 else katol_loop m 10 str 0)"

fun memcmp_loop :: "bmem \<Rightarrow> ptr \<Rightarrow> ptr \<Rightarrow> nat \<Rightarrow> int" where
  "memcmp_loop m p q 0 = 0"
| "memcmp_loop m p q (Suc n) = (if m p \<noteq> m q then uint (m p) - uint (m q) else memcmp_loop m (p + 1) (q + 1) n)"

definition kmemcmp :: "bmem \<Rightarrow> ptr \<Rightarrow> ptr \<Rightarrow> u64 \<Rightarrow> int" where
  "kmemcmp m ptr1 ptr2 num = memcmp_loop m ptr1 ptr2 (unat num)"

definition hash8 :: "bmem \<Rightarrow> ptr \<Rightarrow> nat \<Rightarrow> u8" where
  "hash8 m buf len = fold (\<lambda>i r. r XOR m (buf + of_nat i)) [0..<len] 0"

text \<open>\<open>*(uint16 * )(buf + i)\<close> is little endian.\<close>

definition hash16 :: "bmem \<Rightarrow> ptr \<Rightarrow> nat \<Rightarrow> u16" where
  "hash16 m buf len =
    (let r = fold (\<lambda>k r. r XOR (ucast (m (buf + of_nat (2 * k))) OR push_bit 8 (ucast (m (buf + of_nat (2 * k) + 1)))))
               [0..<len div 2] 0
     in if len mod 2 \<noteq> 0 then r XOR ucast (m (buf + of_nat (len - 1))) else r)"

section \<open>Strings in memory\<close>

text \<open>The bytes \<open>xs\<close> are at \<open>p\<close>, and a string is bytes without zero followed by a zero.\<close>

fun bytes_at :: "bmem \<Rightarrow> ptr \<Rightarrow> u8 list \<Rightarrow> bool" where
  "bytes_at m p [] \<longleftrightarrow> True"
| "bytes_at m p (x # xs) \<longleftrightarrow> m p = x \<and> bytes_at m (p + 1) xs"

definition cstr :: "bmem \<Rightarrow> ptr \<Rightarrow> u8 list \<Rightarrow> bool" where
  "cstr m p xs \<longleftrightarrow> 0 \<notin> set xs \<and> bytes_at m p (xs @ [0])"

lemma cstr_Nil [simp]: "cstr m p [] \<longleftrightarrow> m p = 0"
  by (simp add: cstr_def)

lemma cstr_Cons [simp]: "cstr m p (x # xs) \<longleftrightarrow> x \<noteq> 0 \<and> m p = x \<and> cstr m (p + 1) xs"
  by (auto simp: cstr_def)

text \<open>The addresses of a block.\<close>

definition block :: "ptr \<Rightarrow> nat \<Rightarrow> ptr set" where
  "block p n = (\<lambda>i. p + of_nat i) ` {..<n}"

lemma block_0 [simp]: "block p 0 = {}"
  by (simp add: block_def)

lemma block_Suc: "block p (Suc n) = insert p (block (p + 1) n)"
  by (auto simp: block_def lessThan_Suc_eq_insert_0 image_image add.assoc add.commute)

lemma bytes_at_cong: "(\<And>a. a \<in> block p (length xs) \<Longrightarrow> m' a = m a) \<Longrightarrow> bytes_at m' p xs = bytes_at m p xs"
  by (induction xs arbitrary: p) (simp_all add: block_Suc)

lemma cstr_cong: "(\<And>a. a \<in> block p (Suc (length xs)) \<Longrightarrow> m' a = m a) \<Longrightarrow> cstr m' p xs = cstr m p xs"
  using bytes_at_cong [of p "xs @ [0]" m' m] by (simp add: cstr_def)

section \<open>What the routines do\<close>

lemma strlen_loop_cstr:
  assumes "cstr m (src + of_nat i) xs" and "i + length xs < 2 ^ 31"
  shows "strlen_loop m src (of_nat i) = Some (of_nat (i + length xs))"
  using assms
proof (induction xs arbitrary: i)
  case Nil
  then show ?case
    by (simp add: strlen_loop.simps [of m src] scast_of_nat_i32)
next
  case (Cons x xs)
  then have i: "(scast (of_nat i :: i32) :: u64) = of_nat i"
    by (simp add: scast_of_nat_i32)
  have "strlen_loop m src (of_nat (Suc i)) = Some (of_nat (Suc i + length xs))"
    using Cons.prems by (intro Cons.IH) (simp_all add: ac_simps)
  with Cons.prems i show ?case
    by (simp add: strlen_loop.simps [of m src "of_nat i"] add.commute)
qed

lemma kstrlen_cstr: "cstr m p xs \<Longrightarrow> length xs < 2 ^ 31 \<Longrightarrow> kstrlen m p = Some (of_nat (length xs))"
  using strlen_loop_cstr [of m p 0 xs] by (simp add: kstrlen_def)

text \<open>A forward copy: every byte of the destination gets the byte of the source, provided no
  source byte is overwritten before it is read.\<close>

lemma memcpy_loop_apply:
  assumes "\<And>i j. i < n \<Longrightarrow> j < i \<Longrightarrow> src + of_nat i \<noteq> dest + of_nat j" and "n \<le> 2 ^ 64"
  shows "memcpy_loop n dest src m x =
    (if x \<in> block dest n then m (src + (x - dest)) else m x)"
  using assms
proof (induction n arbitrary: dest src m)
  case (Suc n)
  let ?m = "m(dest := m src)"
  have IH: "memcpy_loop n (dest + 1) (src + 1) ?m x =
      (if x \<in> block (dest + 1) n then ?m (src + 1 + (x - (dest + 1))) else ?m x)"
  proof (rule Suc.IH)
    show "src + 1 + of_nat i \<noteq> dest + 1 + of_nat j" if "i < n" "j < i" for i j
      using Suc.prems(1) [of "Suc i" "Suc j"] that by (simp add: algebra_simps)
  qed (use Suc.prems(2) in simp)
  have ne: "src + of_nat (Suc i) \<noteq> dest" if "i < n" for i
    using Suc.prems(1) [of "Suc i" 0] that by simp
  show ?case
  proof (cases "x \<in> block (dest + 1) n")
    case True
    then obtain i where i: "i < n" "x = dest + 1 + of_nat i"
      by (auto simp: block_def)
    then have "src + 1 + (x - (dest + 1)) = src + of_nat (Suc i)"
      by simp
    then show ?thesis
      using True IH ne [OF i(1)] i by (simp add: block_Suc algebra_simps)
  next
    case False
    then show ?thesis
      using IH by (simp add: block_Suc)
  qed
qed simp

lemma memset_loop_apply: "memset_loop n dst val m x = (if x \<in> block dst n then val else m x)"
  by (induction n arbitrary: dst m) (auto simp: block_Suc)

lemma memcmp_loop_same: "(\<And>i. i < n \<Longrightarrow> m (p + of_nat i) = m (q + of_nat i)) \<Longrightarrow> memcmp_loop m p q n = 0"
proof (induction n arbitrary: p q)
  case (Suc n)
  have "m (p + 1 + of_nat i) = m (q + 1 + of_nat i)" if "i < n" for i
    using Suc.prems [of "Suc i"] that by (simp add: ac_simps)
  with Suc.IH Suc.prems [of 0] show ?case by simp
qed simp

text \<open>\<open>kmemmove\<close> leaves the memory as it is.\<close>

lemma memmove_fill_left: "snd (memmove_fill n src m t) = 0"
  by (induction n arbitrary: src t) simp_all

lemma kmemmove_id: "kmemmove dest src len m = m"
  by (simp add: kmemmove_def memmove_fill_left split_beta)

text \<open>The first position at which two strings differ decides \<open>kstrcmp\<close>.\<close>

fun strcmp_spec :: "u8 list \<Rightarrow> u8 list \<Rightarrow> int" where
  "strcmp_spec [] [] = 0"
| "strcmp_spec [] (y # ys) = - uint y"
| "strcmp_spec (x # xs) [] = uint x"
| "strcmp_spec (x # xs) (y # ys) = (if x = y then strcmp_spec xs ys else uint x - uint y)"

lemma strcmp_spec_0: "0 \<notin> set xs \<Longrightarrow> 0 \<notin> set ys \<Longrightarrow> strcmp_spec xs ys = 0 \<longleftrightarrow> xs = ys"
  by (induction xs ys rule: strcmp_spec.induct) (auto simp: word_uint_eq_iff)

lemma strcmp_spec_anti: "strcmp_spec ys xs = - strcmp_spec xs ys"
  by (induction xs ys rule: strcmp_spec.induct) auto

lemma kstrcmp_cstr: "cstr m p xs \<Longrightarrow> cstr m q ys \<Longrightarrow> kstrcmp m p q = Some (strcmp_spec xs ys)"
proof (induction xs ys arbitrary: p q rule: strcmp_spec.induct)
  case (4 x xs y ys)
  then show ?case
    by (simp add: kstrcmp.simps [of m p q])
qed (simp_all add: kstrcmp.simps [of m p q for p q])

lemma strcpy_loop_cstr:
  assumes "cstr m src xs" and "block dest (Suc (length xs)) \<inter> block src (Suc (length xs)) = {}"
    and "Suc (length xs) \<le> 2 ^ 64"
  shows "\<exists>m'. strcpy_loop dest src m = Some m' \<and> cstr m' dest xs
    \<and> (\<forall>a. a \<notin> block dest (Suc (length xs)) \<longrightarrow> m' a = m a)"
  using assms
proof (induction xs arbitrary: dest src m)
  case Nil
  then show ?case
    by (simp add: strcpy_loop.simps [of dest src m] block_Suc)
next
  case (Cons x xs)
  let ?m = "m(dest := x)" and ?n = "Suc (length xs)"
  have x: "x \<noteq> 0" "m src = x" and src: "cstr m (src + 1) xs"
    using Cons.prems(1) by auto
  have disj: "dest \<notin> block (src + 1) ?n" "block (dest + 1) ?n \<inter> block (src + 1) ?n = {}"
    using Cons.prems(2) by (auto simp: block_Suc [of _ ?n])
  have fresh: "dest \<notin> block (dest + 1) ?n"
  proof
    assume "dest \<in> block (dest + 1) ?n"
    then obtain i where "i < ?n" "dest = dest + 1 + of_nat i"
      by (auto simp: block_def)
    then have "(of_nat (Suc i) :: u64) = 0" by simp
    moreover have "unat (of_nat (Suc i) :: u64) = Suc i"
      using \<open>i < ?n\<close> Cons.prems(3) by (intro unat_of_nat_u64) simp
    ultimately show False by simp
  qed
  have "cstr ?m (src + 1) xs"
    using src disj(1) by (subst cstr_cong [of _ _ _ m]) auto
  moreover have "?n \<le> 2 ^ 64"
    using Cons.prems(3) by simp
  ultimately obtain m' where m': "strcpy_loop (dest + 1) (src + 1) ?m = Some m'"
      "cstr m' (dest + 1) xs" "\<forall>a. a \<notin> block (dest + 1) ?n \<longrightarrow> m' a = ?m a"
    using Cons.IH [OF _ disj(2), of ?m] by blast
  then have "m' dest = x"
    using fresh by simp
  with m' x show ?case
    by (auto simp: strcpy_loop.simps [of dest src m] block_Suc [of dest ?n])
qed

lemma strend_loop_cstr: "cstr m p xs \<Longrightarrow> strend_loop m p = Some (p + of_nat (length xs))"
  by (induction xs arbitrary: p) (simp_all add: strend_loop.simps [of m p for p] ac_simps)

text \<open>Numbers: the value of a string of digits.\<close>

definition is_digit :: "u8 \<Rightarrow> bool" where
  "is_digit c \<longleftrightarrow> 48 \<le> c \<and> c \<le> 57"

definition dec_value :: "u8 list \<Rightarrow> nat" where
  "dec_value cs = foldl (\<lambda>v c. v * 10 + (unat c - 48)) 0 cs"

lemma digit_val_dec: "is_digit c \<Longrightarrow> digit_val 10 c = Some (of_nat (unat c - 48))"
proof -
  assume c: "is_digit c"
  then have "48 \<le> unat c"
    by (simp add: is_digit_def word_le_nat_alt)
  then have "(of_nat (unat c - 48) :: i64) = ucast c - 48"
    by (simp add: of_nat_diff)
  with c show ?thesis
    by (simp add: digit_val_def is_digit_def)
qed

lemma katol_loop_dec:
  assumes "cstr m p cs" and "\<forall>c \<in> set cs. is_digit c"
  shows "katol_loop m 10 p (of_nat v) = Some (of_nat (foldl (\<lambda>v c. v * 10 + (unat c - 48)) v cs))"
  using assms
proof (induction cs arbitrary: p v)
  case Nil
  then show ?case by (simp add: katol_loop.simps [of m 10 p])
next
  case (Cons c cs)
  have "katol_loop m 10 p (of_nat v) = katol_loop m 10 (p + 1) (of_nat (v * 10 + (unat c - 48)))"
    using Cons.prems by (simp add: katol_loop.simps [of m 10 p] digit_val_dec del: of_nat_diff)
  also have "\<dots> = Some (of_nat (foldl (\<lambda>v c. v * 10 + (unat c - 48)) (v * 10 + (unat c - 48)) cs))"
    using Cons.prems by (intro Cons.IH) auto
  finally show ?case by simp
qed

lemma katol_dec:
  assumes "cstr m p cs" and "\<forall>c \<in> set cs. is_digit c"
  shows "katol m p = Some (of_nat (dec_value cs))"
proof -
  have "m (p + 1) \<noteq> 120 \<and> m (p + 1) \<noteq> 88" if "m p = 48"
  proof (cases cs)
    case Nil
    then show ?thesis using assms that by simp
  next
    case (Cons c ds)
    then have "cstr m (p + 1) ds" "\<forall>c \<in> set ds. is_digit c"
      using assms by auto
    then show ?thesis
      by (cases ds) (auto simp: is_digit_def)
  qed
  then show ?thesis
    using katol_loop_dec [OF assms, of 0] by (auto simp: katol_def dec_value_def)
qed

lemma katoi_loop_dec:
  assumes "cstr m p cs" and "\<forall>c \<in> set cs. is_digit c"
  shows "katoi_loop m p 10 (length cs) (of_nat v) = of_nat (foldl (\<lambda>v c. v * 10 + (unat c - 48)) v cs)"
  using assms
proof (induction cs arbitrary: p v)
  case (Cons c cs)
  then have c: "48 \<le> unat c"
    by (simp add: is_digit_def word_le_nat_alt)
  have "(of_nat v * 10 + (ucast c - 48) :: i32) = of_nat (v * 10 + (unat c - 48))"
    using c by (simp add: of_nat_diff)
  moreover have "katoi_loop m (p + 1) 10 (length cs) (of_nat (v * 10 + (unat c - 48))) =
      of_nat (foldl (\<lambda>v c. v * 10 + (unat c - 48)) (v * 10 + (unat c - 48)) cs)"
    using Cons.prems by (intro Cons.IH) auto
  ultimately show ?case
    using Cons.prems by simp
qed simp

lemma katoi_dec:
  assumes "cstr m p cs" and "\<forall>c \<in> set cs. is_digit c" and "length cs < 2 ^ 31"
  shows "katoi m p 10 = Some (of_nat (dec_value cs))"
proof -
  have u: "unat (of_nat (length cs) :: i32) = length cs"
    using assms(3) by (intro unat_of_nat_i32) simp
  have "sint (of_nat (length cs) :: i32) = int (length cs)"
    using assms(3) by (simp add: signed_of_nat signed_take_bit_int_eq_self)
  then show ?thesis
    using kstrlen_cstr [OF assms(1,3)] katoi_loop_dec [OF assms(1,2), of 0] u
    by (cases cs) (simp_all add: katoi_def dec_value_def)
qed

lemma cstr_append: "cstr m p (xs @ ys) \<longleftrightarrow> 0 \<notin> set xs \<and> bytes_at m p xs \<and> cstr m (p + of_nat (length xs)) ys"
  by (induction xs arbitrary: p) (auto simp: cstr_def ac_simps)

lemma block_append: "block p (a + b) = block p a \<union> block (p + of_nat a) b"
proof -
  have "(\<lambda>i. a + i) ` {..<b} = {a..<a + b}"
    by (simp add: lessThan_atLeast0 add.commute)
  then have "{..<a + b} = {..<a} \<union> (\<lambda>i. a + i) ` {..<b}"
    by auto
  moreover have "(\<lambda>i. p + of_nat i) ` (\<lambda>i. a + i) ` {..<b} = (\<lambda>i. p + of_nat a + of_nat i) ` {..<b}"
    unfolding image_image by (rule image_cong) (simp_all add: add.assoc)
  ultimately show ?thesis
    by (simp only: block_def image_Un)
qed

text \<open>Two strings compare as in the dictionary, bytes being unsigned.\<close>

lemma strcmp_spec_less: "0 \<notin> set xs \<Longrightarrow> 0 \<notin> set ys \<Longrightarrow> strcmp_spec xs ys < 0 \<longleftrightarrow> ord_class.lexordp xs ys"
  by (induction xs ys rule: strcmp_spec.induct) (auto simp: word_less_def word_uint_eq_iff less_le)

lemma strcat_cstr:
  assumes "cstr m dest ys" and "cstr m src xs" and "length ys + length xs < 2 ^ 31"
    and "block dest (Suc (length ys + length xs)) \<inter> block src (Suc (length xs)) = {}"
  shows "\<exists>m'. kstrcat dest src m = Some (m', dest) \<and> cstr m' dest (ys @ xs)
    \<and> (\<forall>a. a \<notin> block (dest + of_nat (length ys)) (Suc (length xs)) \<longrightarrow> m' a = m a)"
proof -
  let ?d = "dest + of_nat (length ys)"
  have b: "block dest (Suc (length ys + length xs)) = block dest (length ys) \<union> block ?d (Suc (length xs))"
    using block_append [of dest "length ys" "Suc (length xs)"] by simp
  obtain m' where m': "strcpy_loop ?d src m = Some m'" "cstr m' ?d xs" "\<forall>a. a \<notin> block ?d (Suc (length xs)) \<longrightarrow> m' a = m a"
    using strcpy_loop_cstr [OF assms(2), of ?d] assms(3,4) b by auto
  have "a \<notin> block ?d (Suc (length xs))" if "a \<in> block dest (length ys)" for a
  proof
    assume "a \<in> block ?d (Suc (length xs))"
    with that obtain i j where "i < length ys" "j < Suc (length xs)" "dest + of_nat i = ?d + of_nat j"
      by (auto simp: block_def)
    then have "(of_nat i :: ptr) = of_nat (length ys + j)"
      by (simp add: add.assoc)
    moreover have "unat (of_nat k :: ptr) = k" if "k \<le> length ys + length xs" for k
      using that assms(3) by (intro unat_of_nat_u64) simp
    then have "unat (of_nat i :: ptr) = i" "unat (of_nat (length ys + j) :: ptr) = length ys + j"
      using \<open>i < length ys\<close> \<open>j < Suc (length xs)\<close> by (simp_all del: of_nat_add)
    ultimately show False
      using \<open>i < length ys\<close> by simp
  qed
  then have "bytes_at m' dest ys"
    using bytes_at_cong [of dest ys m' m] assms(1) m'(3) cstr_append [of m dest ys "[]"] by auto
  then show ?thesis
    using m' strend_loop_cstr [OF assms(1)] assms(1) by (simp add: kstrcat_def cstr_append) (simp add: cstr_def)
qed

section \<open>Properties\<close>

text \<open>C31: The string routines do what they say on C strings, of which \<open>ys\<close> is at \<open>dest\<close>, with room behind it, and \<open>xs\<close> at
  \<open>src\<close>, apart from each other: \<open>kstrlen\<close> is the length; \<open>kstrcmp\<close> is zero for equal strings only, negative exactly when
  the first string comes before the second in the dictionary and positive exactly when it comes after; \<open>kstrcpy\<close> leaves
  \<open>xs\<close> at \<open>dest\<close> and \<open>kstrcat\<close> leaves \<open>ys\<close> followed by \<open>xs\<close>, and both change only the bytes that they write.\<close>

theorem string_routines_agree:
  assumes "cstr m dest ys" and "cstr m src xs" and "length ys + length xs < 2 ^ 31"
    and "block dest (Suc (length ys + length xs)) \<inter> block src (Suc (length xs)) = {}"
  shows "kstrlen m src = Some (of_nat (length xs))
    \<and> (\<exists>d. kstrcmp m dest src = Some d \<and> (d = 0 \<longleftrightarrow> ys = xs) \<and> (d < 0 \<longleftrightarrow> ord_class.lexordp ys xs) \<and> (0 < d \<longleftrightarrow> ord_class.lexordp xs ys))
    \<and> (\<exists>m'. kstrcpy dest src m = Some (m', dest) \<and> cstr m' dest xs
        \<and> (\<forall>a. a \<notin> block dest (Suc (length xs)) \<longrightarrow> m' a = m a))
    \<and> (\<exists>m'. kstrcat dest src m = Some (m', dest) \<and> cstr m' dest (ys @ xs)
        \<and> (\<forall>a. a \<notin> block (dest + of_nat (length ys)) (Suc (length xs)) \<longrightarrow> m' a = m a))"
proof (intro conjI)
  have z: "0 \<notin> set xs" "0 \<notin> set ys"
    using assms(1,2) by (simp_all add: cstr_def)
  show "kstrlen m src = Some (of_nat (length xs))"
    using kstrlen_cstr [OF assms(2)] assms(3) by simp
  show "\<exists>d. kstrcmp m dest src = Some d \<and> (d = 0 \<longleftrightarrow> ys = xs) \<and> (d < 0 \<longleftrightarrow> ord_class.lexordp ys xs) \<and> (0 < d \<longleftrightarrow> ord_class.lexordp xs ys)"
    using kstrcmp_cstr [OF assms(1,2)] strcmp_spec_0 [OF z(2,1)] strcmp_spec_less [OF z(2,1)] strcmp_spec_less [OF z]
      strcmp_spec_anti [of xs ys] by simp
  have "Suc (length ys + length xs) = Suc (length xs) + length ys"
    by simp
  then have "block dest (Suc (length xs)) \<subseteq> block dest (Suc (length ys + length xs))"
    using block_append [of dest "Suc (length xs)" "length ys"] by (metis Un_upper1)
  then have "block dest (Suc (length xs)) \<inter> block src (Suc (length xs)) = {}"
    using assms(4) by blast
  then show "\<exists>m'. kstrcpy dest src m = Some (m', dest) \<and> cstr m' dest xs \<and> (\<forall>a. a \<notin> block dest (Suc (length xs)) \<longrightarrow> m' a = m a)"
    using strcpy_loop_cstr [OF assms(2), of dest] assms(3) by (auto simp: kstrcpy_def)
  show "\<exists>m'. kstrcat dest src m = Some (m', dest) \<and> cstr m' dest (ys @ xs)
      \<and> (\<forall>a. a \<notin> block (dest + of_nat (length ys)) (Suc (length xs)) \<longrightarrow> m' a = m a)"
    by (rule strcat_cstr [OF assms])
qed

definition demo_str :: bmem where
  "demo_str = (\<lambda>_. 0)(0x100 := 97, 0x101 := 98, 0x102 := 99, 0x200 := 97, 0x201 := 100)"

theorem string_routines_agree_witness:
  "kstrlen demo_str 0x100 = Some 3
    \<and> (\<exists>d > 0. kstrcmp demo_str 0x200 0x100 = Some d)
    \<and> (\<exists>m'. kstrcpy 0x200 0x100 demo_str = Some (m', 0x200) \<and> cstr m' 0x200 [97, 98, 99])
    \<and> (\<exists>m'. kstrcat 0x200 0x100 demo_str = Some (m', 0x200) \<and> cstr m' 0x200 [97, 100, 97, 98, 99])"
proof -
  have "block 0x200 (Suc (length [97, 100 :: u8] + length [97, 98, 99 :: u8])) \<inter> block 0x100 (Suc (length [97, 98, 99 :: u8])) = {}"
    by (simp add: block_Suc)
  from string_routines_agree [OF _ _ _ this, of demo_str] show ?thesis
    by (auto simp: demo_str_def)
qed

text \<open>C37: \<open>kmemcpy\<close> equals a simultaneous copy of the block whenever the destination does not start strictly
  inside the source, so also when the blocks overlap with the destination below the source; when the blocks are
  apart \<open>kmemcmp\<close> then finds them equal. \<open>kmemset\<close> fills exactly its block.\<close>

theorem kmemcpy_block_copy:
  assumes "dest = src \<or> unat len \<le> unat (dest - src)"
  shows "(\<forall>x. kmemcpy dest src len m x = (if x \<in> block dest (unat len) then m (src + (x - dest)) else m x))
    \<and> (block dest (unat len) \<inter> block src (unat len) = {} \<longrightarrow> kmemcmp (kmemcpy dest src len m) dest src (ucast len) = 0)
    \<and> (\<forall>x. kmemset dest v len m x = (if x \<in> block dest (unat len) then v else m x))"
proof -
  let ?n = "unat len"
  have n: "?n < 2 ^ 32"
    using unsigned_less [of len, where 'a = nat] by simp
  have copy: "kmemcpy dest src len m x = (if x \<in> block dest ?n then m (src + (x - dest)) else m x)" for x
    unfolding kmemcpy_def
  proof (rule memcpy_loop_apply)
    show "src + of_nat i \<noteq> dest + of_nat j" if "i < ?n" "j < i" for i j
    proof
      assume "src + of_nat i = dest + of_nat j"
      then have "dest - src = of_nat (i - j)"
        using that by (simp add: of_nat_diff algebra_simps)
      moreover have "unat (of_nat (i - j) :: ptr) = i - j"
        using that n by (intro unat_of_nat_u64) simp
      ultimately show False
        using assms that by auto
    qed
  qed (use n in simp)
  have "kmemcmp (kmemcpy dest src len m) dest src (ucast len) = 0" if "block dest ?n \<inter> block src ?n = {}"
  proof -
    have "kmemcpy dest src len m (dest + of_nat i) = kmemcpy dest src len m (src + of_nat i)" if "i < ?n" for i
    proof -
      have "src + of_nat i \<in> block src ?n" "dest + of_nat i \<in> block dest ?n"
        using that by (auto simp: block_def)
      then show ?thesis
        using \<open>block dest ?n \<inter> block src ?n = {}\<close> by (auto simp: copy)
    qed
    then show ?thesis
      by (simp add: kmemcmp_def unat_ucast_u32 memcmp_loop_same)
  qed
  then show ?thesis
    using copy by (simp add: kmemset_def memset_loop_apply)
qed

text \<open>A copy to the address below, with two of the three bytes in both blocks.\<close>

theorem kmemcpy_block_copy_witness:
  "kmemcpy 0xff 0x100 3 demo_str 0xff = 97 \<and> kmemcpy 0xff 0x100 3 demo_str 0x100 = 98
    \<and> kmemcpy 0xff 0x100 3 demo_str 0x101 = 99 \<and> kmemcpy 0xff 0x100 3 demo_str 0x102 = 99"
proof -
  have n: "unat (3 :: u32) = Suc (Suc (Suc 0))"
    by simp
  have "(0xff :: ptr) = 0x100 \<or> unat (3 :: u32) \<le> unat (0xff - 0x100 :: ptr)"
    by (simp add: unsigned_minus_1_eq_mask mask_eq_exp_minus_1)
  from kmemcpy_block_copy [OF this, of demo_str 0, unfolded n] show ?thesis
    by (auto simp: block_Suc demo_str_def)
qed

end
