(* ===== verification/Printk.thy ===== *)
theory Printk
  imports Kstring "HOL-Library.Signed_Division"
begin

text \<open>
  Formatted output: \<open>mini_itoa\<close>, \<open>_putc\<close>, \<open>_puts\<close> and \<open>mini_vsnprintf\<close> of \<open>libs/printk.c\<close>. A buffer is
  the list of the bytes written so far; the variable arguments are the list of their 64-bit slots,
  and taking one too many has no result.
\<close>

section \<open>Operations\<close>

partial_function (option) mini_strlen :: "bmem \<Rightarrow> ptr \<Rightarrow> u32 \<Rightarrow> u32 option" where
  "mini_strlen m s len = (if m (s + ucast len) \<noteq> 0 then mini_strlen m s (len + 1) else Some len)"

definition digit_char :: "bool \<Rightarrow> int \<Rightarrow> u8" where
  "digit_char uppercase digit =
    (if digit < 10 then of_int (48 + digit) else of_int ((if uppercase then 65 else 97) + digit - 10))"

text \<open>The loop that builds the digits back to front.\<close>

partial_function (option) itoa_loop :: "bool \<Rightarrow> bool \<Rightarrow> u32 \<Rightarrow> i64 \<Rightarrow> u8 list option" where
  "itoa_loop uppercase unsig radix v =
    (let digit = (if unsig then uint (v mod ucast radix) else sint v smod uint radix);
         v' = (if unsig then v div ucast radix else of_int (sint v sdiv uint radix))
     in if v' = 0 then Some [digit_char uppercase digit]
        else Option.bind (itoa_loop uppercase unsig radix v') (\<lambda>ds. Some (digit_char uppercase digit # ds)))"

text \<open>The reversal in place.\<close>

definition reverse_buffer :: "u8 list \<Rightarrow> u8 list" where
  "reverse_buffer buf =
    (let len = length buf in
     fold (\<lambda>i b. (b[i := b ! (len - i - 1)])[len - i - 1 := b ! i]) [0..<len div 2] buf)"

definition mini_itoa :: "i64 \<Rightarrow> u32 \<Rightarrow> bool \<Rightarrow> bool \<Rightarrow> u32 \<Rightarrow> u8 list option" where
  "mini_itoa v radix uppercase unsig zero_pad =
    (if radix > 16 then Some []
     else
       let negative = sint v < 0 \<and> \<not> unsig;
           v = (if negative then - v else v)
       in Option.bind (itoa_loop uppercase unsig radix v) (\<lambda>ds.
         let ds = ds @ replicate (unat zero_pad - length ds) 48;
             ds = (if negative then ds @ [45] else ds)
         in Some (reverse_buffer ds)))"

definition putc :: "u32 \<Rightarrow> u8 \<Rightarrow> u8 list \<Rightarrow> u8 list" where
  "putc buffer_len ch out = (if of_nat (length out + 1) \<ge> buffer_len then out else out @ [ch])"

definition puts :: "u32 \<Rightarrow> u8 list \<Rightarrow> u8 list \<Rightarrow> u8 list" where
  "puts buffer_len s out =
    (let room = int (unat buffer_len) - int (length out) - 1
     in if room < int (length s) then out @ take (unat (of_int room :: u32)) s else out @ s)"

text \<open>The directive after \<open>%\<close>: the padding, the long flag, the conversion character (0 at the end of
  the format) and the rest of the format.\<close>

fun next_char :: "u8 list \<Rightarrow> u8 \<times> u8 list" where
  "next_char [] = (0, [])"
| "next_char (c # cs) = (c, cs)"

fun pad_digits :: "u8 list \<Rightarrow> u8 \<Rightarrow> u8 \<times> u8 \<times> u8 list" where
  "pad_digits [] zero_pad = (zero_pad, 0, [])"
| "pad_digits (c # cs) zero_pad =
    (if c = 0 then (zero_pad, 0, cs)
     else if 48 \<le> c \<and> c \<le> 57 then pad_digits cs (zero_pad * 10 + c - 48)
     else (zero_pad, c, cs))"

definition directive :: "u8 list \<Rightarrow> u8 \<times> bool \<times> u8 \<times> u8 list" where
  "directive fmt =
    (let (ch, fmt) = next_char fmt;
         (zero_pad, ch, fmt) = (if ch = 48 then pad_digits fmt 0 else (0, ch, fmt));
         longflag = (ch = 108);
         (ch, fmt) = (if longflag then next_char fmt else (ch, fmt))
     in (zero_pad, longflag, ch, fmt))"

definition string_at :: "bmem \<Rightarrow> ptr \<Rightarrow> nat \<Rightarrow> u8 list" where
  "string_at m p n = map (\<lambda>i. m (p + of_nat i)) [0..<n]"

text \<open>One conversion: the new buffer and the arguments left. The number is built with its final NUL in the array
  \<open>bf\<close> of 24 bytes on the stack; a number that does not fit overruns the array, which has no result.\<close>

definition convert :: "bmem \<Rightarrow> u32 \<Rightarrow> u8 \<Rightarrow> bool \<Rightarrow> u8 \<Rightarrow> u64 list \<Rightarrow> u8 list \<Rightarrow> (u8 list \<times> u64 list) option" where
  "convert m bl zero_pad longflag ch va out =
    (if ch = 108 then Some (out, va)
     else if ch = 117 \<or> ch = 100 \<or> ch = 120 \<or> ch = 88 then
       case va of [] \<Rightarrow> None
       | a # va \<Rightarrow>
         let v = (if longflag then a else ucast (ucast a :: u32));
             r = (if ch = 117 \<or> ch = 100 then mini_itoa v 10 False (ch = 117) (ucast zero_pad)
                  else mini_itoa v 16 (ch = 88) True (ucast zero_pad))
         in Option.bind r (\<lambda>bf. if length bf + 1 \<le> 24 then Some (puts bl bf out, va) else None)
     else if ch = 99 then (case va of [] \<Rightarrow> None | a # va \<Rightarrow> Some (putc bl (ucast a) out, va))
     else if ch = 115 then
       (case va of [] \<Rightarrow> None
        | a # va \<Rightarrow> map_option (\<lambda>n. (puts bl (string_at m a (unat n)) out, va)) (mini_strlen m a 0))
     else Some (putc bl ch out, va))"

lemma next_char_length: "length (snd (next_char fmt)) \<le> length fmt"
  by (cases fmt) auto

lemma pad_digits_length: "length (snd (snd (pad_digits fmt z))) \<le> length fmt"
  by (induction fmt z rule: pad_digits.induct) auto

lemma directive_length: "directive fmt = (z, l, c, rest) \<Longrightarrow> length rest \<le> length fmt"
  using next_char_length [of fmt] next_char_length [of "snd (next_char fmt)"] pad_digits_length [of "snd (next_char fmt)" 0]
    next_char_length [of "snd (snd (pad_digits (snd (next_char fmt)) 0))"]
  by (auto simp: directive_def Let_def split: prod.splits if_splits)

function vsn_loop :: "bmem \<Rightarrow> u32 \<Rightarrow> u8 list \<Rightarrow> u64 list \<Rightarrow> u8 list \<Rightarrow> u8 list option" where
  "vsn_loop m bl [] va out = Some out"
| "vsn_loop m bl (ch # fmt) va out =
    (if ch = 0 then Some out
     else if of_nat (length out + 1) \<ge> bl then Some out
     else if ch \<noteq> 37 then vsn_loop m bl fmt va (putc bl ch out)
     else case directive fmt of (zero_pad, longflag, c, rest) \<Rightarrow>
       if c = 0 then Some out
       else case convert m bl zero_pad longflag c va out of
         None \<Rightarrow> None
       | Some (out, va) \<Rightarrow> vsn_loop m bl rest va out)"
  by pat_completeness auto

termination
  by (relation "measure (\<lambda>(m, bl, fmt, va, out). length fmt)") (auto dest: directive_length [OF sym])

definition mini_vsnprintf :: "bmem \<Rightarrow> u32 \<Rightarrow> u8 list \<Rightarrow> u64 list \<Rightarrow> u8 list option" where
  "mini_vsnprintf m buffer_len fmt va = vsn_loop m buffer_len fmt va []"

section \<open>Digits\<close>

function nat_digits :: "bool \<Rightarrow> nat \<Rightarrow> nat \<Rightarrow> u8 list" where
  "nat_digits u r n =
    digit_char u (int (n mod r)) # (if r < 2 \<or> n < r then [] else nat_digits u r (n div r))"
  by pat_completeness auto

termination
  by (relation "measure (\<lambda>(u, r, n). n)") auto

declare nat_digits.simps [simp del]

lemma length_nat_digits: "2 \<le> r \<Longrightarrow> n < r ^ Suc k \<Longrightarrow> length (nat_digits u r n) \<le> Suc k"
proof (induction k arbitrary: n)
  case 0
  then show ?case by (simp add: nat_digits.simps [of u r n])
next
  case (Suc k)
  have "n div r < r ^ Suc k"
    using Suc.prems by (simp add: less_mult_imp_div_less mult.commute)
  then have "length (nat_digits u r (n div r)) \<le> Suc k"
    using Suc by simp
  then show ?case by (simp add: nat_digits.simps [of u r n])
qed

lemma digit_char_dec: "d < 10 \<Longrightarrow> is_digit (digit_char u (int d)) \<and> unat (digit_char u (int d)) - 48 = d"
proof -
  assume d: "d < 10"
  have "digit_char u (int d) = of_nat (48 + d)"
    using d by (simp add: digit_char_def)
  moreover have "unat (of_nat (48 + d) :: u8) = 48 + d"
    using d by (simp add: unat_of_nat take_bit_nat_eq_self del: of_nat_add)
  ultimately show ?thesis
    using d by (simp add: is_digit_def word_le_nat_alt)
qed

lemma dec_value_snoc: "dec_value (cs @ [c]) = dec_value cs * 10 + (unat c - 48)"
  by (simp add: dec_value_def)

lemma dec_value_zeros: "dec_value (replicate k 48 @ cs) = dec_value cs"
  by (induction k) (auto simp: dec_value_def)

lemma nat_digits_dec:
  "(\<forall>c \<in> set (nat_digits u 10 n). is_digit c) \<and> dec_value (rev (nat_digits u 10 n)) = n"
proof (induction n rule: less_induct)
  case (less n)
  have d: "is_digit (digit_char u (int (n mod 10)))" "unat (digit_char u (int (n mod 10))) - 48 = n mod 10"
    using digit_char_dec [of "n mod 10" u] by auto
  show ?case
  proof (cases "n < 10")
    case True
    then show ?thesis
      using d by (simp add: nat_digits.simps [of u 10 n] dec_value_def)
  next
    case False
    then show ?thesis
      using d less [of "n div 10"] by (simp add: nat_digits.simps [of u 10 n] dec_value_snoc)
  qed
qed

lemma sint_neg_iff: "sint (v :: i64) < 0 \<longleftrightarrow> 2 ^ 63 \<le> unat v"
proof -
  have "sint v < 0 \<longleftrightarrow> bit (unat v) 63"
    by (simp add: sint_uint signed_take_bit_negative_iff bit_uint_iff bit_unsigned_iff)
  also have "\<dots> \<longleftrightarrow> odd (unat v div 2 ^ 63)"
    by (simp add: bit_iff_odd)
  also have "\<dots> \<longleftrightarrow> 2 ^ 63 \<le> unat v"
  proof -
    have "unat v < 2 ^ 64"
      by (rule unat_lt_u64)
    then have "unat v div 2 ^ 63 < 2"
      by (simp add: less_mult_imp_div_less)
    then have "odd (unat v div 2 ^ 63) \<longleftrightarrow> unat v div 2 ^ 63 \<noteq> 0"
      by (metis One_nat_def dvd_0_right less_2_cases odd_one)
    then show ?thesis
      by (auto simp: div_eq_0_iff)
  qed
  finally show ?thesis .
qed

lemma sdiv_nonneg: "0 \<le> a \<Longrightarrow> 0 \<le> b \<Longrightarrow> (a :: int) sdiv b = a div b"
  by (cases "a = 0"; cases "b = 0") (auto simp: signed_divide_int_def sgn_if)

lemma smod_nonneg: "0 \<le> a \<Longrightarrow> 0 \<le> b \<Longrightarrow> (a :: int) smod b = a mod b"
  by (cases "a = 0") (auto simp: signed_modulo_int_def)

lemma itoa_step:
  fixes v :: i64 and r :: u32
  assumes r: "2 \<le> unat r" and v: "unsig \<or> unat v < 2 ^ 63"
  shows "(if unsig then uint (v mod ucast r) else sint v smod uint r) = int (unat v mod unat r)"
    and "(if unsig then v div ucast r else of_int (sint v sdiv uint r)) = (of_nat (unat v div unat r) :: i64)"
proof -
  have ur: "unat (ucast r :: i64) = unat r"
    by (rule unat_ucast_u32)
  have uu: "uint (ucast r :: i64) = uint r"
    using arg_cong [OF ur, of int] by simp
  have sv: "sint v = uint v" if "unat v < 2 ^ 63"
  proof -
    have "int (unat v) < int (2 ^ 63)"
      using that by (rule of_nat_less_iff [THEN iffD2])
    then have "uint v < 2 ^ 63"
      by simp
    moreover have "- (2 ^ 63) \<le> uint v"
      by (rule order.trans [of _ 0]) auto
    ultimately have "signed_take_bit 63 (uint v) = uint v"
      by (rule signed_take_bit_int_eq_self [rotated])
    then show ?thesis
      by (simp add: sint_uint)
  qed
  have m: "int (unat v mod unat r) = uint v mod uint r" and q: "int (unat v div unat r) = uint v div uint r"
    by (simp_all add: zmod_int zdiv_int)
  show "(if unsig then uint (v mod ucast r) else sint v smod uint r) = int (unat v mod unat r)"
    unfolding m using v sv by (auto simp: uint_mod uu smod_nonneg)
  have "uint v sdiv uint r = uint v div uint r"
    by (simp add: sdiv_nonneg)
  moreover have "v div ucast r = of_int (uint v div uint r)"
    by (simp add: word_div_def uu)
  ultimately have "(if unsig then v div ucast r else of_int (sint v sdiv uint r)) = (of_int (int (unat v div unat r)) :: i64)"
    unfolding q using v sv by auto
  then show "(if unsig then v div ucast r else of_int (sint v sdiv uint r)) = (of_nat (unat v div unat r) :: i64)"
    by (simp only: of_int_of_nat_eq)
qed

lemma itoa_loop_digits:
  fixes v :: i64
  assumes r: "2 \<le> unat r" and v: "unsig \<or> unat v < 2 ^ 63"
  shows "itoa_loop u unsig r v = Some (nat_digits u (unat r) (unat v))"
  using v
proof (induction "unat v" arbitrary: v rule: less_induct)
  case less
  let ?q = "of_nat (unat v div unat r) :: i64"
  have q: "unat ?q = unat v div unat r"
    using order.strict_trans1 [OF div_le_dividend unsigned_less, of v "unat r"]
    by (simp add: unat_of_nat take_bit_nat_eq_self)
  then have z: "?q = 0 \<longleftrightarrow> unat v < unat r"
    using r by (simp add: unat_eq_0 [symmetric] div_eq_0_iff del: unat_eq_0)
  show ?case
  proof (cases "?q = 0")
    case True
    then show ?thesis
      using z by (simp add: itoa_loop.simps [of u unsig r v] nat_digits.simps [of u _ "unat v"] Let_def itoa_step [OF r less.prems])
  next
    case False
    then have "unat ?q < unat v"
      using r z q by (simp add: not_less)
    moreover have "unsig \<or> unat ?q < 2 ^ 63"
      using less.prems calculation by linarith
    ultimately show ?thesis
      using less.hyps [of ?q] False z r
      by (simp add: itoa_loop.simps [of u unsig r v] nat_digits.simps [of u _ "unat v"] Let_def itoa_step [OF r less.prems] q)
  qed
qed

section \<open>The buffer\<close>

lemma reverse_buffer_prefix:
  assumes "k \<le> length xs div 2"
  shows "fold (\<lambda>i b. (b[i := b ! (length xs - i - 1)])[length xs - i - 1 := b ! i]) [0..<k] xs =
    map (\<lambda>j. if j < k \<or> length xs - k \<le> j then xs ! (length xs - j - 1) else xs ! j) [0..<length xs]"
  using assms
proof (induction k)
  case 0
  then show ?case by (auto intro: nth_equalityI)
next
  case (Suc k)
  then show ?case
    by (auto intro!: nth_equalityI simp: nth_list_update)
qed

lemma reverse_buffer: "reverse_buffer xs = rev xs"
  unfolding reverse_buffer_def Let_def reverse_buffer_prefix [OF order.refl]
  by (auto intro!: nth_equalityI simp: rev_nth) (rule arg_cong [of _ _ "(!) xs"], presburger)

definition itoa_digits :: "bool \<Rightarrow> nat \<Rightarrow> u32 \<Rightarrow> nat \<Rightarrow> u8 list" where
  "itoa_digits u r zero_pad n =
    replicate (unat zero_pad - length (nat_digits u r n)) 48 @ rev (nat_digits u r n)"

lemma mini_itoa_digits:
  fixes v :: i64
  assumes r: "r = 10 \<or> r = 16"
  shows "unsig \<or> unat v < 2 ^ 63 \<Longrightarrow> mini_itoa v r u unsig zp = Some (itoa_digits u (unat r) zp (unat v))"
    and "\<not> unsig \<Longrightarrow> 2 ^ 63 < unat v \<Longrightarrow> mini_itoa v r u unsig zp = Some (45 # itoa_digits u (unat r) zp (2 ^ 64 - unat v))"
proof -
  have r2: "2 \<le> unat r" and r16: "\<not> 16 < r"
    using r by auto
  show "mini_itoa v r u unsig zp = Some (itoa_digits u (unat r) zp (unat v))" if "unsig \<or> unat v < 2 ^ 63"
    using that itoa_loop_digits [OF r2 that, of u] r16
    by (auto simp: mini_itoa_def sint_neg_iff reverse_buffer itoa_digits_def)
  show "mini_itoa v r u unsig zp = Some (45 # itoa_digits u (unat r) zp (2 ^ 64 - unat v))"
    if n: "\<not> unsig" "2 ^ 63 < unat v"
  proof -
    have v: "unat (- v) = 2 ^ 64 - unat v"
    proof -
      have "- v = of_nat (2 ^ 64 - unat v)"
        using unat_lt_u64 [of v] by (subst of_nat_diff) simp_all
      then show ?thesis
        using n by (simp only: unat_of_nat) (simp add: take_bit_nat_eq_self)
    qed
    with n have "unat (- v) < 2 ^ 63" by simp
    then show ?thesis
      using n itoa_loop_digits [OF r2, of unsig "- v" u] r16 v
      by (auto simp: mini_itoa_def sint_neg_iff reverse_buffer itoa_digits_def)
  qed
qed

lemma length_itoa_digits: "length (itoa_digits u r zp n) = max (unat zp) (length (nat_digits u r n))"
  by (simp add: itoa_digits_def)

lemma length_nat_digits_64: "r = 10 \<or> r = 16 \<Longrightarrow> n < 2 ^ 64 \<Longrightarrow> length (nat_digits u r n) \<le> 20"
  using length_nat_digits [of r n 19 u] by auto

lemma itoa_digits_dec:
  "(\<forall>c \<in> set (itoa_digits u 10 zp n). is_digit c) \<and> dec_value (itoa_digits u 10 zp n) = n"
  using nat_digits_dec [of u n] by (auto simp: itoa_digits_def dec_value_zeros is_digit_def)

lemma of_nat_u32_le: "length out < unat (bl :: u32) \<Longrightarrow> bl \<le> of_nat (length out + 1) \<longleftrightarrow> unat bl \<le> length out + 1"
proof -
  assume l: "length out < unat bl"
  have "unat bl < 2 ^ 32"
    by (rule unat_lt_i32)
  with l have "length out + 1 < 2 ^ 32 \<or> length out + 1 = 2 ^ 32"
    by auto
  with l have "unat (of_nat (length out + 1) :: u32) = length out + 1"
    using \<open>unat bl < 2 ^ 32\<close> by (subst unat_of_nat) (auto simp: take_bit_nat_eq_self)
  then show ?thesis
    by (simp only: word_le_nat_alt)
qed

lemma putc_length: "length out < unat bl \<Longrightarrow> length (putc bl ch out) < unat bl"
  using of_nat_u32_le [of out bl] by (auto simp: putc_def)

lemma puts_length:
  assumes "length out < unat bl"
  shows "length (puts bl s out) < unat bl"
proof -
  define k where "k = unat bl - length out - 1"
  have "unat bl < 2 ^ 32"
    by (rule unat_lt_i32)
  then have "unat (of_nat k :: u32) = k"
    using assms by (intro unat_of_nat_i32) (simp add: k_def)
  moreover have "int (unat bl) - int (length out) - 1 = int k"
    using assms by (simp add: k_def del: of_nat_unat)
  moreover have "length out + k < unat bl"
    using assms by (simp add: k_def)
  ultimately show ?thesis
    unfolding puts_def Let_def by (simp only:) auto
qed

lemma convert_length:
  "convert m bl zp lf ch va out = Some (out', va') \<Longrightarrow> length out < unat bl \<Longrightarrow> length out' < unat bl"
  by (auto simp: convert_def putc_length puts_length Let_def bind_eq_Some_conv split: if_splits list.splits)

lemma vsn_loop_length:
  "vsn_loop m bl fmt va out = Some res \<Longrightarrow> length out < unat bl \<Longrightarrow> length res < unat bl"
proof (induction m bl fmt va out rule: vsn_loop.induct)
  case (2 m bl ch fmt va out)
  then show ?case
    by (auto simp: putc_length split: if_splits prod.splits option.splits dest: convert_length)
qed simp

section \<open>Every conversion returns\<close>

lemma itoa_loop_negative:
  fixes v :: i64
  assumes r: "2 \<le> uint r" "uint r \<le> 16"
  shows "sint v < 0 \<Longrightarrow> - sint v < uint r ^ Suc k \<Longrightarrow> \<exists>ds. itoa_loop u False r v = Some ds \<and> length ds \<le> Suc k"
proof (induction k arbitrary: v)
  case 0
  then have "sint v sdiv uint r = 0"
    by (auto simp: signed_divide_int_def)
  then show ?case
    by (simp add: itoa_loop.simps [of u False r v] Let_def)
next
  case (Suc k)
  define q where "q = sint v sdiv uint r"
  have q: "q = - ((- sint v) div uint r)"
    using Suc.prems r by (auto simp: q_def signed_divide_int_def)
  have "- (2 ^ 63) \<le> sint v"
    using sint_ge [of v] by simp
  have le: "(- sint v) div uint r < - sint v"
    using Suc.prems r by (intro int_div_less_self) auto
  have ge: "0 \<le> (- sint v) div uint r"
    using Suc.prems r by (simp add: pos_imp_zdiv_nonneg_iff)
  have s: "sint (of_int q :: i64) = q"
  proof -
    have "- (2 ^ 63) \<le> q" "q < 2 ^ 63"
      using le ge \<open>- (2 ^ 63) \<le> sint v\<close> by (simp_all add: q)
    then show ?thesis
      by (simp add: signed_of_int signed_take_bit_int_eq_self)
  qed
  have d: "- q < uint r ^ Suc k"
  proof -
    have "uint r * ((- sint v) div uint r) \<le> - sint v"
      using mult_div_mod_eq [of "uint r" "- sint v"] pos_mod_sign [of "uint r" "- sint v"] r by linarith
    then have "uint r * - q < uint r * uint r ^ Suc k"
      using Suc.prems(2) unfolding q power_Suc [of "uint r" "Suc k"] by linarith
    then show ?thesis
      using r by (simp only: mult_less_cancel_left_pos)
  qed
  show ?case
  proof (cases "(of_int q :: i64) = 0")
    case True
    then show ?thesis
      by (simp add: itoa_loop.simps [of u False r v] Let_def q_def)
  next
    case False
    then have "q \<noteq> 0" by auto
    then have "sint (of_int q :: i64) < 0"
      using ge unfolding s by (simp add: q)
    from Suc.IH [OF this] d s obtain ds where "itoa_loop u False r (of_int q) = Some ds" "length ds \<le> Suc k"
      by auto
    then show ?thesis
      using False by (simp add: itoa_loop.simps [of u False r v] Let_def q_def)
  qed
qed

lemma itoa_loop_length:
  fixes w :: i64
  assumes "r = 10 \<or> r = 16"
  shows "\<exists>ds. itoa_loop u unsig r w = Some ds \<and> length ds \<le> 20"
proof (cases "unsig \<or> unat w < 2 ^ 63")
  case True
  have "2 \<le> unat r" "unat r = 10 \<or> unat r = 16"
    using assms by auto
  then show ?thesis
    using itoa_loop_digits [OF _ True] length_nat_digits_64 [OF _ unat_lt_u64] by blast
next
  case False
  have "- sint w \<le> 2 ^ 63"
    using sint_ge [of w] by simp
  then have "- sint w < uint r ^ Suc 19"
    using assms by auto
  then show ?thesis
    using itoa_loop_negative [of r w 19 u] assms False by (auto simp: sint_neg_iff)
qed

lemma mini_itoa_length:
  assumes "r = 10 \<or> r = 16"
  shows "\<exists>out. mini_itoa v r u unsig zp = Some out \<and> unat zp \<le> length out \<and> length out \<le> max (unat zp) 20 + 1"
proof -
  obtain ds where "itoa_loop u unsig r (if sint v < 0 \<and> \<not> unsig then - v else v) = Some ds" "length ds \<le> 20"
    using itoa_loop_length [OF assms] by blast
  moreover have "\<not> 16 < r"
    using assms by auto
  ultimately show ?thesis
    by (simp add: mini_itoa_def Let_def reverse_buffer) linarith
qed

text \<open>The array \<open>bf\<close> holds every number, with its final NUL, when the padding is at most 22, and is overrun by
  every number when the padding is 24 or more; the padding is taken from the format without a check.\<close>

lemma mini_itoa_fits:
  assumes "r = 10 \<or> r = 16"
  shows "\<exists>out. mini_itoa v r u unsig zp = Some out \<and>
    (zp \<le> 22 \<longrightarrow> length out + 1 \<le> 24) \<and> (24 \<le> zp \<longrightarrow> 24 < length out + 1)"
  using mini_itoa_length [OF assms, of v u unsig zp] by (auto simp: word_le_nat_alt)

lemma mini_strlen_from:
  "cstr m (p + of_nat k) cs \<Longrightarrow> k + length cs < 2 ^ 32 \<Longrightarrow> mini_strlen m p (of_nat k) = Some (of_nat (k + length cs))"
proof (induction cs arbitrary: k)
  case Nil
  then show ?case
    by (simp add: mini_strlen.simps [of m p "of_nat k"] unsigned_of_nat take_bit_nat_eq_self)
next
  case (Cons c cs)
  have u: "ucast (of_nat k :: u32) = (of_nat k :: ptr)"
    using Cons.prems by (simp add: unsigned_of_nat take_bit_nat_eq_self)
  have "cstr m (p + of_nat (Suc k)) cs"
    using Cons.prems by (simp add: add.assoc add.commute [of 1])
  then have "mini_strlen m p (of_nat (Suc k)) = Some (of_nat (Suc k + length cs))"
    using Cons.prems by (intro Cons.IH) auto
  then have "mini_strlen m p (of_nat k + 1) = Some (of_nat (k + length (c # cs)))"
    by (simp add: add.commute [of 1] add.assoc add.left_commute [of 1])
  then show ?case
    using Cons.prems u by (subst mini_strlen.simps) simp
qed

lemma mini_strlen_cstr: "cstr m p cs \<Longrightarrow> length cs < 2 ^ 32 \<Longrightarrow> mini_strlen m p 0 = Some (of_nat (length cs))"
  using mini_strlen_from [of m p 0 cs] by simp

definition printable :: "bmem \<Rightarrow> ptr \<Rightarrow> bool" where
  "printable m p \<longleftrightarrow> (\<exists>cs. cstr m p cs \<and> length cs < 2 ^ 32)"

text \<open>The arguments go with the format: every directive that takes one finds it, an argument of \<open>%s\<close> is a C string, and no
  number is padded to more than 22 places.\<close>

definition is_number :: "u8 \<Rightarrow> bool" where
  "is_number c \<longleftrightarrow> c = 117 \<or> c = 100 \<or> c = 120 \<or> c = 88"

function format_ok :: "bmem \<Rightarrow> u8 list \<Rightarrow> u64 list \<Rightarrow> bool" where
  "format_ok m [] va \<longleftrightarrow> True"
| "format_ok m (ch # fmt) va \<longleftrightarrow>
    (if ch = 0 then True
     else if ch \<noteq> 37 then format_ok m fmt va
     else case directive fmt of (zero_pad, longflag, c, rest) \<Rightarrow>
       if c = 0 then True
       else if is_number c \<or> c = 99 \<or> c = 115 then
         va \<noteq> [] \<and> (is_number c \<longrightarrow> zero_pad \<le> 22) \<and> (c = 115 \<longrightarrow> printable m (hd va)) \<and> format_ok m rest (tl va)
       else format_ok m rest va)"
  by pat_completeness auto

termination
  by (relation "measure (\<lambda>(m, fmt, va). length fmt)") (auto dest: directive_length [OF sym])

lemma sint_of_nat_small: "n < 2 ^ 31 \<Longrightarrow> sint (of_nat n :: i32) = sint (of_nat n :: i64)"
  by (simp add: signed_of_nat signed_take_bit_int_eq_self)

lemma pad_of_u8: "(ucast (z :: u8) :: u32) \<le> 22 \<longleftrightarrow> z \<le> 22" "24 \<le> (ucast (z :: u8) :: u32) \<longleftrightarrow> 24 \<le> z"
proof -
  have "unat (ucast z :: u32) = unat z"
    using unsigned_less [of z, where 'a = nat] by (simp add: unsigned_ucast_eq take_bit_nat_eq_self)
  then show "(ucast z :: u32) \<le> 22 \<longleftrightarrow> z \<le> 22" "24 \<le> (ucast z :: u32) \<longleftrightarrow> 24 \<le> z"
    by (simp_all add: word_le_nat_alt)
qed

lemma convert_number:
  assumes "is_number c" and "z \<le> 22"
  shows "\<exists>out'. convert m bl z l c (a # va) out = Some (out', va)"
proof -
  define v where "v = (if l then a else ucast (ucast a :: u32))"
  obtain b10 b16 where b: "mini_itoa v 10 False (c = 117) (ucast z) = Some b10" "length b10 + 1 \<le> 24"
    "mini_itoa v 16 (c = 88) True (ucast z) = Some b16" "length b16 + 1 \<le> 24"
    using mini_itoa_fits [of 10 v False "c = 117" "ucast z"] mini_itoa_fits [of 16 v "c = 88" True "ucast z"] assms(2) pad_of_u8 by auto
  then show ?thesis
    using assms(1) by (auto simp: convert_def is_number_def v_def [symmetric] Let_def)
qed

lemma convert_overruns:
  assumes "is_number c" and "24 \<le> z"
  shows "convert m bl z l c (a # va) out = None"
proof -
  define v where "v = (if l then a else ucast (ucast a :: u32))"
  obtain b10 b16 where b: "mini_itoa v 10 False (c = 117) (ucast z) = Some b10" "24 < length b10 + 1"
    "mini_itoa v 16 (c = 88) True (ucast z) = Some b16" "24 < length b16 + 1"
    using mini_itoa_fits [of 10 v False "c = 117" "ucast z"] mini_itoa_fits [of 16 v "c = 88" True "ucast z"] assms(2) pad_of_u8 by auto
  then show ?thesis
    using assms(1) by (auto simp: convert_def is_number_def v_def [symmetric] Let_def)
qed

lemma convert_other:
  "c = 99 \<Longrightarrow> \<exists>out'. convert m bl z l c (a # va) out = Some (out', va)"
  "c = 115 \<Longrightarrow> printable m a \<Longrightarrow> \<exists>out'. convert m bl z l c (a # va) out = Some (out', va)"
  "\<not> is_number c \<Longrightarrow> c \<noteq> 99 \<Longrightarrow> c \<noteq> 115 \<Longrightarrow> \<exists>out'. convert m bl z l c va out = Some (out', va)"
  using mini_strlen_cstr by (fastforce simp: convert_def is_number_def printable_def)+

lemma vsn_loop_returns: "format_ok m fmt va \<Longrightarrow> \<exists>res. vsn_loop m bl fmt va out = Some res"
proof (induction m bl fmt va out rule: vsn_loop.induct)
  case (2 m bl ch fmt va out)
  obtain z l c rest where d: "directive fmt = (z, l, c, rest)" by (cases "directive fmt")
  show ?case
  proof (cases "ch = 37 \<and> c \<noteq> 0 \<and> \<not> of_nat (length out + 1) \<ge> bl")
    case False
    then show ?thesis
      using 2 d by auto
  next
    case True
    have "\<exists>o1 va1. convert m bl z l c va out = Some (o1, va1) \<and> format_ok m rest va1"
    proof (cases "is_number c \<or> c = 99 \<or> c = 115")
      case takes: True
      then obtain a va1 where "va = a # va1" "is_number c \<Longrightarrow> z \<le> 22" "c = 115 \<Longrightarrow> printable m a" "format_ok m rest va1"
        using 2(3) True d by (cases va) auto
      then show ?thesis
        using takes convert_number convert_other(1,2) by metis
    next
      case False
      then show ?thesis
        using 2(3) True d convert_other(3) [of c m bl z l va out] by auto
    qed
    then obtain o1 va1 where cv: "convert m bl z l c va out = Some (o1, va1)" "format_ok m rest va1"
      by blast
    have "\<exists>res. vsn_loop m bl rest va1 o1 = Some res"
      using 2(2) [OF _ _ _ d [symmetric] refl refl _ cv(1) refl cv(2)] True by auto
    then show ?thesis
      using True d cv by auto
  qed
qed simp

text \<open>\<open>%d\<close> reads its argument as an unsigned int before it is widened, so the sign is lost: every value
  is printed as an unsigned 32-bit number.\<close>

lemma printk_d_is_unsigned:
  "mini_vsnprintf m 256 [37, 100] [a] = Some (itoa_digits False 10 0 (unat (ucast a :: u32)))"
proof -
  have "unat (ucast (ucast a :: u32) :: u64) = unat (ucast a :: u32)"
    by (rule unat_ucast_u32)
  then have i: "mini_itoa (ucast (ucast a :: u32)) 10 False False 0 = Some (itoa_digits False 10 0 (unat (ucast a :: u32)))"
    using mini_itoa_digits(1) [of 10 False "ucast (ucast a :: u32)" False 0] unat_lt_i32 [of "ucast a"] by simp
  have "length (itoa_digits False 10 0 (unat (ucast a :: u32))) \<le> 20"
    using length_nat_digits_64 [of 10 "unat (ucast a :: u32)" False] unat_lt_i32 [of "ucast a"] by (simp add: length_itoa_digits)
  then show ?thesis
    using i by (simp add: mini_vsnprintf_def directive_def convert_def puts_def Let_def word_le_nat_alt)
qed

section \<open>Properties\<close>

text \<open>C32: Printing a number in decimal and reading it back is the identity: \<open>mini_itoa\<close> of any unsigned
  value, or any non-negative signed one, returns for every padding below \<open>2 ^ 31\<close>, \<open>katol\<close> on memory holding the
  printed string gives the number again, and \<open>katoi\<close> in base 10 gives its low 32 bits, which are the number
  itself when it is an \<open>int\<close>.\<close>

theorem print_parse_round_trip:
  fixes v :: i64
  assumes "unsig \<or> 0 \<le> sint v" and "unat zero_pad < 2 ^ 31"
  shows "\<exists>out. mini_itoa v 10 u unsig zero_pad = Some out \<and>
    (\<forall>m p. cstr m p out \<longrightarrow> katol m p = Some v \<and> katoi m p 10 = Some (ucast v)
      \<and> (unat v < 2 ^ 31 \<longrightarrow> (\<exists>i. katoi m p 10 = Some i \<and> sint i = sint v)))"
proof -
  have v: "unsig \<or> unat v < 2 ^ 63"
    using assms(1) sint_neg_iff [of v] by auto
  let ?out = "itoa_digits u 10 zero_pad (unat v)"
  have l: "length ?out < 2 ^ 31"
    using assms(2) length_nat_digits_64 [of 10 "unat v" u] unat_lt_u64 [of v] by (simp add: length_itoa_digits)
  have "mini_itoa v 10 u unsig zero_pad = Some ?out"
    using mini_itoa_digits(1) [of 10 unsig v u zero_pad] v by simp
  moreover have "katol m p = Some v" "katoi m p 10 = Some (ucast v)" if "cstr m p ?out" for m p
    using katol_dec [OF that] katoi_dec [OF that _ l] itoa_digits_dec [of u zero_pad "unat v"]
    by simp_all
  moreover have "sint (ucast v :: i32) = sint v" if "unat v < 2 ^ 31"
  proof -
    have "(ucast v :: i32) = of_nat (unat v)" "v = of_nat (unat v)"
      by simp_all
    then show ?thesis
      using that by (metis sint_of_nat_small)
  qed
  ultimately show ?thesis by blast
qed

theorem print_parse_round_trip_witness:
  "0 \<le> sint (1234 :: i64) \<and>
   (\<exists>out. mini_itoa 1234 10 False False 6 = Some out \<and> (\<forall>m p. cstr m p out \<longrightarrow> katol m p = Some 1234 \<and> katoi m p 10 = Some 1234))"
  using print_parse_round_trip [of False 1234 6 False] by auto

text \<open>C33: Formatted output stays inside both buffers and returns: for a non-empty buffer and arguments that go with the
  format, which means one argument for each conversion, C strings for \<open>%s\<close> and no number padded to more than 22 places,
  \<open>mini_vsnprintf\<close> ends without overrunning its array \<open>bf\<close> of 24 bytes, and it has written fewer bytes than
  \<open>buffer_len\<close>, so the NUL fits as well.\<close>

theorem mini_vsnprintf_bounded:
  assumes "0 < buffer_len" and "format_ok m fmt va"
  shows "\<exists>out. mini_vsnprintf m buffer_len fmt va = Some out \<and> length out < unat buffer_len"
proof -
  have "length ([] :: u8 list) < unat buffer_len"
    using assms(1) by (simp add: word_less_nat_alt)
  with vsn_loop_returns [OF assms(2), of buffer_len "[]"] vsn_loop_length show ?thesis
    unfolding mini_vsnprintf_def by blast
qed

text \<open>The format \<open>s=%s %022d\<close> and a newline into a buffer of four bytes.\<close>

theorem mini_vsnprintf_bounded_witness:
  "\<exists>out. mini_vsnprintf (\<lambda>_. 0) 4 [115, 61, 37, 115, 32, 37, 48, 50, 50, 100, 10] [1, 2] = Some out \<and> length out < unat (4 :: u32)"
  by (rule mini_vsnprintf_bounded) (auto simp: printable_def directive_def is_number_def Let_def intro: exI [of _ "[]"])

end
