(* ===== verification/Globals.thy ===== *)
theory Globals
  imports Vm RingBuffer FatLayout
begin

text \<open>
  The data of the components above the memory manager, as their headers declare it (\<open>include/os/time.h\<close>,
  \<open>futex.h\<close>, \<open>socket.h\<close>, \<open>include/fs/file.h\<close>, \<open>pipe.h\<close>, \<open>include/sys/special_ctx.h\<close>,
  \<open>drivers/sdcard/include/buf.h\<close>), and the record \<open>os\<close> that adds their global variables to the kernel
  state. A pointer to an element of a static table is its index.
\<close>

section \<open>Time\<close>

record timespec =
  ts_sec :: u64
  ts_nsec :: u64

record tms =
  tms_utime :: u64
  tms_stime :: u64
  tms_cutime :: u64
  tms_cstime :: u64

text \<open>The list nodes \<open>itimer.list\<close> of the PCBs are cells of a list heap; their addresses, and that of
  the head \<open>timers\<close>, are distinct and not NULL.\<close>

abbreviation (input) timers :: ptr where "timers \<equiv> 16"

definition timer_node :: "pcb_ref \<Rightarrow> ptr" where
  "timer_node r = (case r of pid0_pcb_master \<Rightarrow> 32 | pid0_pcb_slave \<Rightarrow> 48 | PCB i \<Rightarrow> of_nat (16 * i + 64))"

definition timer_process :: "ptr \<Rightarrow> pcb_ref" where
  "timer_process p = (if p = 32 then pid0_pcb_master else if p = 48 then pid0_pcb_slave else PCB ((unat p - 64) div 16))"

section \<open>Futexes\<close>

abbreviation (input) FUTEX_BUCKETS :: nat where "FUTEX_BUCKETS \<equiv> 100"
abbreviation (input) MAX_FUTEX_NUM :: nat where "MAX_FUTEX_NUM \<equiv> 60"

record futex_node =
  futex_key :: u64
  add_ts :: timespec
  set_ts :: timespec

section \<open>Files and pipes\<close>

abbreviation (input) MAX_FD_NUM :: nat where "MAX_FD_NUM \<equiv> 110"
abbreviation (input) MAX_FD_TABLE :: nat where "MAX_FD_TABLE \<equiv> 5"
abbreviation (input) PIPE_NUM :: nat where "PIPE_NUM \<equiv> 200"
abbreviation (input) PIPE_ARRAY :: nat where "PIPE_ARRAY \<equiv> 200"
abbreviation (input) DEV_STDIN :: u8 where "DEV_STDIN \<equiv> 0"
abbreviation (input) DEV_STDOUT :: u8 where "DEV_STDOUT \<equiv> 1"
abbreviation (input) DEV_STDERR :: u8 where "DEV_STDERR \<equiv> 2"
abbreviation (input) DEV_DEFAULT :: u8 where "DEV_DEFAULT \<equiv> 3"
abbreviation (input) DEV_NULL :: u8 where "DEV_NULL \<equiv> 4"
abbreviation (input) DEV_ZERO :: u8 where "DEV_ZERO \<equiv> 5"
abbreviation (input) DEV_PIPE :: u8 where "DEV_PIPE \<equiv> 6"
abbreviation (input) DEV_SOCK :: u8 where "DEV_SOCK \<equiv> 7"
abbreviation (input) FD_UNUSED :: u8 where "FD_UNUSED \<equiv> 0"
abbreviation (input) FD_USED :: u8 where "FD_USED \<equiv> 1"
abbreviation (input) PIPE_READ :: u8 where "PIPE_READ \<equiv> 1"
abbreviation (input) PIPE_WRITE :: u8 where "PIPE_WRITE \<equiv> 2"

text \<open>The address of the page of the ring buffer is apart from its bytes.\<close>

record pipe =
  rbuf :: ring_buffer
  rbuf_page :: ptr
  pipe_pid :: i32
  r_valid :: u8
  w_valid :: u8

record dir_pos =
  dir_offset :: u64
  dir_len :: u32
  dir_sec :: u32

record mmap_area =
  mmap_used :: i32
  mmap_start :: ptr
  mmap_len :: u64
  mmap_prot :: i32
  mmap_flags :: i32
  mmap_off :: i64

record flock =
  l_type :: u16
  l_whence :: u16
  l_start :: i64
  l_len :: i64
  l_pid :: i32

record fd =
  fd_name :: "u8 list"
  dev :: u8
  first_clus_num :: u32
  fd_mode :: u32
  fd_flags :: u32
  pos :: u64
  cur_sec :: u32
  cur_clus_num :: u32
  fd_length :: u32
  fd_dir_pos :: dir_pos
  fd_num :: u32
  fd_used :: u8
  redirected :: u8
  redirected_fd_index :: u8
  pip_num :: u32
  is_pipe_read :: u8
  is_pipe_write :: u8
  sock_num :: u8
  fd_mmap :: mmap_area
  fd_flock :: flock
  nlink :: u8
  uid :: u32
  gid :: u32
  rdev :: u64
  blksize :: u32
  atime_sec :: i64
  atime_nsec :: i64
  mtime_sec :: i64
  mtime_nsec :: i64
  ctime_sec :: i64
  ctime_nsec :: i64

record pfd_table =
  table_used :: i32
  table_num :: i32
  table_pfd :: "nat \<Rightarrow> fd"

record ctx_pipe =
  cpt_used :: u8
  cpt_dev :: u8
  cpt_fd_num :: u8
  pipe_type :: u8

section \<open>Sockets\<close>

abbreviation (input) MAX_SOCK_NUM :: nat where "MAX_SOCK_NUM \<equiv> 16"
abbreviation (input) MAX_WAIT_LIST :: nat where "MAX_WAIT_LIST \<equiv> 8"
abbreviation (input) SOCK_CLOSED :: u8 where "SOCK_CLOSED \<equiv> 0"
abbreviation (input) SOCK_LISTEN :: u8 where "SOCK_LISTEN \<equiv> 1"
abbreviation (input) SOCK_ACCEPTED :: u8 where "SOCK_ACCEPTED \<equiv> 2"
abbreviation (input) SOCK_ESTABLISHED :: u8 where "SOCK_ESTABLISHED \<equiv> 3"

record socket =
  sock_domain :: i32
  sock_type :: i32
  protocol :: i32
  backlog :: i32
  wait_list :: "nat \<Rightarrow> u8"
  sock_used :: u8
  sock_status :: u8
  sock_addr :: ptr
  sock_data :: ring_buffer

section \<open>Block buffers\<close>

abbreviation (input) BSIZE :: nat where "BSIZE \<equiv> 512"
abbreviation (input) BCACHE_TABLE_SIZE :: u32 where "BCACHE_TABLE_SIZE \<equiv> 150"

text \<open>The list nodes \<open>list\<close> and \<open>hash\<close> of a buffer are in the lists \<open>lru\<close> and \<open>bcache\<close>.\<close>

record buf =
  buf_dev :: u32
  sectorno :: u32
  refcnt :: u32
  valid :: u16
  dirty :: u8
  buf_lock :: ptr
  buf_data :: "u8 list"

section \<open>Programs\<close>

abbreviation (input) LOAD_PHDR_NUM :: nat where "LOAD_PHDR_NUM \<equiv> 2"
abbreviation (input) MAX_TEST_NUM :: nat where "MAX_TEST_NUM \<equiv> 8"
abbreviation (input) DYNAMIC_VADDR_PFFSET :: u64 where "DYNAMIC_VADDR_PFFSET \<equiv> 0x8000000"

record Elf64_Phdr =
  p_type :: u32
  p_flags :: u32
  p_offset :: u64
  p_vaddr :: u64
  p_paddr :: u64
  p_filesz :: u64
  p_memsz :: u64
  p_align :: u64

record excellent_load =
  load_name :: "u8 list"
  load_used :: u32
  base_pgdir :: u64
  phdr :: "nat \<Rightarrow> Elf64_Phdr"
  phdr_num :: i32
  load_info :: ELF_info
  dynamic :: i32

text \<open>A pointer to an element of \<open>pre_elf\<close>: its index and one, so that NULL points to none.\<close>

definition elf_ref :: "nat \<Rightarrow> ptr" where
  "elf_ref i = of_nat (i + 1)"

definition elf_index :: "ptr \<Rightarrow> nat" where
  "elf_index p = unat p - 1"

section \<open>The kernel state\<close>

text \<open>\<open>sd_card\<close> is the content of the card, by sector; \<open>clock_pointer\<close> is the position of the clock hand in
  the list of swappable pages, with \<open>None\<close> for NULL.\<close>

record os = mmkernel +
  time_base :: u32
  sys_time_master :: u64
  sys_time_slave :: u64
  timer_list :: list_heap
  futex_buckets :: "nat \<Rightarrow> nat list"
  futex_tab :: "nat \<Rightarrow> futex_node"
  futex_node_used :: "nat \<Rightarrow> i32"
  robust_list :: "nat \<Rightarrow> ptr"
  mylimit :: rlimit
  pfd_tab :: "nat \<Rightarrow> pfd_table"
  pipe_tab :: "nat \<Rightarrow> pipe"
  ctx_pipes :: "ptr \<Rightarrow> nat \<Rightarrow> ctx_pipe"
  max_extend :: u64
  sock_tab :: "nat \<Rightarrow> socket"
  clock_pointer :: "nat option"
  swap_offset :: u64
  threshold :: u64
  sd_card :: "u32 \<Rightarrow> u8 list"
  fat :: fat_t
  bufs :: "nat \<Rightarrow> buf"
  actual_buf_num :: nat
  lru :: "nat list"
  bcache :: "nat \<Rightarrow> nat list"
  nwait :: i32
  stdin_buf :: ring_buffer
  stdout_buf :: ring_buffer
  stderr_buf :: ring_buffer
  test_name :: "u8 list"
  pre_elf :: "nat \<Rightarrow> excellent_load"
  extendFdList :: "ptr list"

text \<open>The operations on processes leave the variables of the other components alone.\<close>

lemma os_upd_pcb [simp]:
  "time_base (upd_pcb r f s) = time_base s" "sys_time_master (upd_pcb r f s) = sys_time_master s"
  "sys_time_slave (upd_pcb r f s) = sys_time_slave s" "timer_list (upd_pcb r f s) = timer_list s"
  "futex_buckets (upd_pcb r f s) = futex_buckets s" "futex_tab (upd_pcb r f s) = futex_tab s"
  "futex_node_used (upd_pcb r f s) = futex_node_used s" "robust_list (upd_pcb r f s) = robust_list s"
  "mylimit (upd_pcb r f s) = mylimit s" "pfd_tab (upd_pcb r f s) = pfd_tab s"
  "pipe_tab (upd_pcb r f s) = pipe_tab s" "ctx_pipes (upd_pcb r f s) = ctx_pipes s"
  "max_extend (upd_pcb r f s) = max_extend s" "sock_tab (upd_pcb r f s) = sock_tab s"
  "clock_pointer (upd_pcb r f s) = clock_pointer s" "swap_offset (upd_pcb r f s) = swap_offset s"
  "threshold (upd_pcb r f s) = threshold s" "sd_card (upd_pcb r f s) = sd_card s" "fat (upd_pcb r f s) = fat s"
  "bufs (upd_pcb r f s) = bufs s" "actual_buf_num (upd_pcb r f s) = actual_buf_num s"
  "lru (upd_pcb r f s) = lru s" "bcache (upd_pcb r f s) = bcache s" "nwait (upd_pcb r f s) = nwait s"
  "stdin_buf (upd_pcb r f s) = stdin_buf s" "stdout_buf (upd_pcb r f s) = stdout_buf s"
  "stderr_buf (upd_pcb r f s) = stderr_buf s" "test_name (upd_pcb r f s) = test_name s"
  "pre_elf (upd_pcb r f s) = pre_elf s" "extendFdList (upd_pcb r f s) = extendFdList s"
  by (simp_all add: upd_pcb_def)

lemma os_klist_add [simp]:
  "time_base (klist_add r q s) = time_base s" "sys_time_master (klist_add r q s) = sys_time_master s"
  "sys_time_slave (klist_add r q s) = sys_time_slave s" "timer_list (klist_add r q s) = timer_list s"
  "futex_buckets (klist_add r q s) = futex_buckets s" "futex_tab (klist_add r q s) = futex_tab s"
  "futex_node_used (klist_add r q s) = futex_node_used s" "robust_list (klist_add r q s) = robust_list s"
  "mylimit (klist_add r q s) = mylimit s" "pfd_tab (klist_add r q s) = pfd_tab s"
  "pipe_tab (klist_add r q s) = pipe_tab s" "ctx_pipes (klist_add r q s) = ctx_pipes s"
  "max_extend (klist_add r q s) = max_extend s" "sock_tab (klist_add r q s) = sock_tab s"
  "clock_pointer (klist_add r q s) = clock_pointer s" "swap_offset (klist_add r q s) = swap_offset s"
  "threshold (klist_add r q s) = threshold s" "sd_card (klist_add r q s) = sd_card s"
  "fat (klist_add r q s) = fat s" "bufs (klist_add r q s) = bufs s"
  "actual_buf_num (klist_add r q s) = actual_buf_num s" "lru (klist_add r q s) = lru s"
  "bcache (klist_add r q s) = bcache s" "nwait (klist_add r q s) = nwait s"
  "stdin_buf (klist_add r q s) = stdin_buf s" "stdout_buf (klist_add r q s) = stdout_buf s"
  "stderr_buf (klist_add r q s) = stderr_buf s" "test_name (klist_add r q s) = test_name s"
  "pre_elf (klist_add r q s) = pre_elf s" "extendFdList (klist_add r q s) = extendFdList s"
  by (simp_all add: klist_add_def)

lemma os_klist_add_tail [simp]:
  "time_base (klist_add_tail r q s) = time_base s" "sys_time_master (klist_add_tail r q s) = sys_time_master s"
  "sys_time_slave (klist_add_tail r q s) = sys_time_slave s" "timer_list (klist_add_tail r q s) = timer_list s"
  "futex_buckets (klist_add_tail r q s) = futex_buckets s" "futex_tab (klist_add_tail r q s) = futex_tab s"
  "futex_node_used (klist_add_tail r q s) = futex_node_used s"
  "robust_list (klist_add_tail r q s) = robust_list s" "mylimit (klist_add_tail r q s) = mylimit s"
  "pfd_tab (klist_add_tail r q s) = pfd_tab s" "pipe_tab (klist_add_tail r q s) = pipe_tab s"
  "ctx_pipes (klist_add_tail r q s) = ctx_pipes s" "max_extend (klist_add_tail r q s) = max_extend s"
  "sock_tab (klist_add_tail r q s) = sock_tab s" "clock_pointer (klist_add_tail r q s) = clock_pointer s"
  "swap_offset (klist_add_tail r q s) = swap_offset s" "threshold (klist_add_tail r q s) = threshold s"
  "sd_card (klist_add_tail r q s) = sd_card s" "fat (klist_add_tail r q s) = fat s"
  "bufs (klist_add_tail r q s) = bufs s" "actual_buf_num (klist_add_tail r q s) = actual_buf_num s"
  "lru (klist_add_tail r q s) = lru s" "bcache (klist_add_tail r q s) = bcache s"
  "nwait (klist_add_tail r q s) = nwait s" "stdin_buf (klist_add_tail r q s) = stdin_buf s"
  "stdout_buf (klist_add_tail r q s) = stdout_buf s" "stderr_buf (klist_add_tail r q s) = stderr_buf s"
  "test_name (klist_add_tail r q s) = test_name s" "pre_elf (klist_add_tail r q s) = pre_elf s"
  "extendFdList (klist_add_tail r q s) = extendFdList s"
  by (simp_all add: klist_add_tail_def)

lemma os_klist_del [simp]:
  "time_base (klist_del r s) = time_base s" "sys_time_master (klist_del r s) = sys_time_master s"
  "sys_time_slave (klist_del r s) = sys_time_slave s" "timer_list (klist_del r s) = timer_list s"
  "futex_buckets (klist_del r s) = futex_buckets s" "futex_tab (klist_del r s) = futex_tab s"
  "futex_node_used (klist_del r s) = futex_node_used s" "robust_list (klist_del r s) = robust_list s"
  "mylimit (klist_del r s) = mylimit s" "pfd_tab (klist_del r s) = pfd_tab s"
  "pipe_tab (klist_del r s) = pipe_tab s" "ctx_pipes (klist_del r s) = ctx_pipes s"
  "max_extend (klist_del r s) = max_extend s" "sock_tab (klist_del r s) = sock_tab s"
  "clock_pointer (klist_del r s) = clock_pointer s" "swap_offset (klist_del r s) = swap_offset s"
  "threshold (klist_del r s) = threshold s" "sd_card (klist_del r s) = sd_card s" "fat (klist_del r s) = fat s"
  "bufs (klist_del r s) = bufs s" "actual_buf_num (klist_del r s) = actual_buf_num s"
  "lru (klist_del r s) = lru s" "bcache (klist_del r s) = bcache s" "nwait (klist_del r s) = nwait s"
  "stdin_buf (klist_del r s) = stdin_buf s" "stdout_buf (klist_del r s) = stdout_buf s"
  "stderr_buf (klist_del r s) = stderr_buf s" "test_name (klist_del r s) = test_name s"
  "pre_elf (klist_del r s) = pre_elf s" "extendFdList (klist_del r s) = extendFdList s"
  by (simp_all add: klist_del_def)

lemma os_do_unblock [simp]:
  "time_base (do_unblock r s) = time_base s" "sys_time_master (do_unblock r s) = sys_time_master s"
  "sys_time_slave (do_unblock r s) = sys_time_slave s" "timer_list (do_unblock r s) = timer_list s"
  "futex_buckets (do_unblock r s) = futex_buckets s" "futex_tab (do_unblock r s) = futex_tab s"
  "futex_node_used (do_unblock r s) = futex_node_used s" "robust_list (do_unblock r s) = robust_list s"
  "mylimit (do_unblock r s) = mylimit s" "pfd_tab (do_unblock r s) = pfd_tab s"
  "pipe_tab (do_unblock r s) = pipe_tab s" "ctx_pipes (do_unblock r s) = ctx_pipes s"
  "max_extend (do_unblock r s) = max_extend s" "sock_tab (do_unblock r s) = sock_tab s"
  "clock_pointer (do_unblock r s) = clock_pointer s" "swap_offset (do_unblock r s) = swap_offset s"
  "threshold (do_unblock r s) = threshold s" "sd_card (do_unblock r s) = sd_card s"
  "fat (do_unblock r s) = fat s" "bufs (do_unblock r s) = bufs s"
  "actual_buf_num (do_unblock r s) = actual_buf_num s" "lru (do_unblock r s) = lru s"
  "bcache (do_unblock r s) = bcache s" "nwait (do_unblock r s) = nwait s"
  "stdin_buf (do_unblock r s) = stdin_buf s" "stdout_buf (do_unblock r s) = stdout_buf s"
  "stderr_buf (do_unblock r s) = stderr_buf s" "test_name (do_unblock r s) = test_name s"
  "pre_elf (do_unblock r s) = pre_elf s" "extendFdList (do_unblock r s) = extendFdList s"
  by (simp_all add: do_unblock_def Let_def)

lemma os_send_signal [simp]:
  "time_base (send_signal n r s) = time_base s" "sys_time_master (send_signal n r s) = sys_time_master s"
  "sys_time_slave (send_signal n r s) = sys_time_slave s" "timer_list (send_signal n r s) = timer_list s"
  "futex_buckets (send_signal n r s) = futex_buckets s" "futex_tab (send_signal n r s) = futex_tab s"
  "futex_node_used (send_signal n r s) = futex_node_used s" "robust_list (send_signal n r s) = robust_list s"
  "mylimit (send_signal n r s) = mylimit s" "pfd_tab (send_signal n r s) = pfd_tab s"
  "pipe_tab (send_signal n r s) = pipe_tab s" "ctx_pipes (send_signal n r s) = ctx_pipes s"
  "max_extend (send_signal n r s) = max_extend s" "sock_tab (send_signal n r s) = sock_tab s"
  "clock_pointer (send_signal n r s) = clock_pointer s" "swap_offset (send_signal n r s) = swap_offset s"
  "threshold (send_signal n r s) = threshold s" "sd_card (send_signal n r s) = sd_card s"
  "fat (send_signal n r s) = fat s" "bufs (send_signal n r s) = bufs s"
  "actual_buf_num (send_signal n r s) = actual_buf_num s" "lru (send_signal n r s) = lru s"
  "bcache (send_signal n r s) = bcache s" "nwait (send_signal n r s) = nwait s"
  "stdin_buf (send_signal n r s) = stdin_buf s" "stdout_buf (send_signal n r s) = stdout_buf s"
  "stderr_buf (send_signal n r s) = stderr_buf s" "test_name (send_signal n r s) = test_name s"
  "pre_elf (send_signal n r s) = pre_elf s" "extendFdList (send_signal n r s) = extendFdList s"
  by (simp_all add: send_signal_def Let_def)

text \<open>Nor do the updates of page nodes and memory words.\<close>

lemma os_upd_page [simp]:
  "time_base (upd_page i f s) = time_base s" "sys_time_master (upd_page i f s) = sys_time_master s"
  "sys_time_slave (upd_page i f s) = sys_time_slave s" "timer_list (upd_page i f s) = timer_list s"
  "futex_buckets (upd_page i f s) = futex_buckets s" "futex_tab (upd_page i f s) = futex_tab s"
  "futex_node_used (upd_page i f s) = futex_node_used s" "robust_list (upd_page i f s) = robust_list s"
  "mylimit (upd_page i f s) = mylimit s" "pfd_tab (upd_page i f s) = pfd_tab s"
  "pipe_tab (upd_page i f s) = pipe_tab s" "ctx_pipes (upd_page i f s) = ctx_pipes s"
  "max_extend (upd_page i f s) = max_extend s" "sock_tab (upd_page i f s) = sock_tab s"
  "clock_pointer (upd_page i f s) = clock_pointer s" "swap_offset (upd_page i f s) = swap_offset s"
  "threshold (upd_page i f s) = threshold s" "sd_card (upd_page i f s) = sd_card s"
  "fat (upd_page i f s) = fat s" "bufs (upd_page i f s) = bufs s"
  "actual_buf_num (upd_page i f s) = actual_buf_num s" "lru (upd_page i f s) = lru s"
  "bcache (upd_page i f s) = bcache s" "nwait (upd_page i f s) = nwait s"
  "stdin_buf (upd_page i f s) = stdin_buf s" "stdout_buf (upd_page i f s) = stdout_buf s"
  "stderr_buf (upd_page i f s) = stderr_buf s" "test_name (upd_page i f s) = test_name s"
  "pre_elf (upd_page i f s) = pre_elf s" "extendFdList (upd_page i f s) = extendFdList s"
  by (simp_all add: upd_page_def)

lemma os_upd_mem [simp]:
  "time_base (upd_mem a f s) = time_base s" "sys_time_master (upd_mem a f s) = sys_time_master s"
  "sys_time_slave (upd_mem a f s) = sys_time_slave s" "timer_list (upd_mem a f s) = timer_list s"
  "futex_buckets (upd_mem a f s) = futex_buckets s" "futex_tab (upd_mem a f s) = futex_tab s"
  "futex_node_used (upd_mem a f s) = futex_node_used s" "robust_list (upd_mem a f s) = robust_list s"
  "mylimit (upd_mem a f s) = mylimit s" "pfd_tab (upd_mem a f s) = pfd_tab s"
  "pipe_tab (upd_mem a f s) = pipe_tab s" "ctx_pipes (upd_mem a f s) = ctx_pipes s"
  "max_extend (upd_mem a f s) = max_extend s" "sock_tab (upd_mem a f s) = sock_tab s"
  "clock_pointer (upd_mem a f s) = clock_pointer s" "swap_offset (upd_mem a f s) = swap_offset s"
  "threshold (upd_mem a f s) = threshold s" "sd_card (upd_mem a f s) = sd_card s" "fat (upd_mem a f s) = fat s"
  "bufs (upd_mem a f s) = bufs s" "actual_buf_num (upd_mem a f s) = actual_buf_num s"
  "lru (upd_mem a f s) = lru s" "bcache (upd_mem a f s) = bcache s" "nwait (upd_mem a f s) = nwait s"
  "stdin_buf (upd_mem a f s) = stdin_buf s" "stdout_buf (upd_mem a f s) = stdout_buf s"
  "stderr_buf (upd_mem a f s) = stderr_buf s" "test_name (upd_mem a f s) = test_name s"
  "pre_elf (upd_mem a f s) = pre_elf s" "extendFdList (upd_mem a f s) = extendFdList s"
  by (simp_all add: upd_mem_def)

section \<open>An example state\<close>

definition demo_fd :: fd where
  "demo_fd = \<lparr>fd_name = [], dev = DEV_DEFAULT, first_clus_num = 0, fd_mode = 0, fd_flags = 0, pos = 0, cur_sec = 0,
    cur_clus_num = 0, fd_length = 0, fd_dir_pos = \<lparr>dir_offset = 0, dir_len = 0, dir_sec = 0\<rparr>, fd_num = 0,
    fd_used = 0, redirected = 0, redirected_fd_index = 0, pip_num = 0, is_pipe_read = 0, is_pipe_write = 0,
    sock_num = 0,
    fd_mmap = \<lparr>mmap_used = 0, mmap_start = 0, mmap_len = 0, mmap_prot = 0, mmap_flags = 0, mmap_off = 0\<rparr>,
    fd_flock = \<lparr>l_type = 0, l_whence = 0, l_start = 0, l_len = 0, l_pid = 0\<rparr>, nlink = 0, uid = 0, gid = 0,
    rdev = 0, blksize = 0, atime_sec = 0, atime_nsec = 0, mtime_sec = 0, mtime_nsec = 0, ctime_sec = 0,
    ctime_nsec = 0\<rparr>"

definition zero_socket :: socket where
  "zero_socket = \<lparr>sock_domain = 0, sock_type = 0, protocol = 0, backlog = 0, wait_list = (\<lambda>_. 0), sock_used = 0,
    sock_status = 0, sock_addr = NULL, sock_data = init_ring_buffer\<rparr>"

definition zero_buf :: buf where
  "zero_buf = \<lparr>buf_dev = 0, sectorno = 0, refcnt = 0, valid = 0, dirty = 0, buf_lock = 0,
    buf_data = replicate BSIZE 0\<rparr>"

definition zero_load :: excellent_load where
  "zero_load = \<lparr>load_name = [], load_used = 0, base_pgdir = 0,
    phdr = (\<lambda>_. \<lparr>p_type = 0, p_flags = 0, p_offset = 0, p_vaddr = 0, p_paddr = 0, p_filesz = 0, p_memsz = 0, p_align = 0\<rparr>),
    phdr_num = 0, load_info = \<lparr>text_begin = 0, phoff = 0, phent = 0, phnum = 0, entry = 0, elf_edata = 0\<rparr>, dynamic = 0\<rparr>"

definition demo_os :: os where
  "demo_os = mmkernel.extend demo_mm
    \<lparr>time_base = 7327272, sys_time_master = 0, sys_time_slave = 0,
     timer_list = init_list timers (\<lambda>_. \<lparr>nxt = NULL, prv = NULL\<rparr>),
     futex_buckets = (\<lambda>_. []),
     futex_tab = (\<lambda>_. \<lparr>futex_key = 0, add_ts = \<lparr>ts_sec = 0, ts_nsec = 0\<rparr>, set_ts = \<lparr>ts_sec = 0, ts_nsec = 0\<rparr>\<rparr>),
     futex_node_used = (\<lambda>_. 0), robust_list = (\<lambda>_. NULL), mylimit = \<lparr>rlim_cur = 110, rlim_max = 110\<rparr>,
     pfd_tab = (\<lambda>_. \<lparr>table_used = 0, table_num = 0, table_pfd = (\<lambda>_. demo_fd)\<rparr>),
     pipe_tab = (\<lambda>_. \<lparr>rbuf = init_ring_buffer, rbuf_page = NULL, pipe_pid = 0, r_valid = 0, w_valid = 0\<rparr>),
     ctx_pipes = (\<lambda>_ _. \<lparr>cpt_used = 0, cpt_dev = 0, cpt_fd_num = 0, pipe_type = 0\<rparr>), max_extend = 0,
     sock_tab = (\<lambda>_. zero_socket), clock_pointer = None, swap_offset = 4, threshold = 0,
     sd_card = (\<lambda>_. replicate BSIZE 0), fat = demo_fat,
     bufs = (\<lambda>i. zero_buf\<lparr>buf_lock := of_nat i + 4096\<rparr>), actual_buf_num = 2, lru = [0, 1], bcache = (\<lambda>_. []),
     nwait = 0, stdin_buf = init_ring_buffer, stdout_buf = init_ring_buffer, stderr_buf = init_ring_buffer,
     test_name = [], pre_elf = (\<lambda>_. zero_load), extendFdList = []\<rparr>"

lemmas demo_os_simps = demo_os_def demo_mm_def demo_lock_def mmkernel.defs lockkernel.defs os.defs

lemma demo_os_inv: "sched_inv demo_os"
proof -
  have "store_inv (queues demo_lock)"
    using demo_lock_inv by (simp add: sched_inv_def sched_wf_def)
  then have "store_inv (queues demo_os)"
    by (simp add: demo_os_simps)
  then have "sched_wf demo_os"
    by (intro sched_wfI)
      (auto simp: demo_os_simps demo_simps queued_def running_def other_def idle_def get_current_cpu_id_def
        get_current_running_def split: if_splits pcb_ref.splits)
  then show ?thesis
    by (auto simp: sched_inv_def demo_os_simps demo_simps split: pcb_ref.splits)
qed

end
