(* ===== verification/Time.thy ===== *)
theory Time
  imports Globals
begin

text \<open>
  Time: the conversions of \<open>kernel/time/utlis.c\<close> and \<open>time.c\<close>, the time accounting, the interval timers
  and sleeping (\<open>sleep.c\<close>). On the k210 \<open>TIMEBASE\<close> is the unparenthesised text \<open>403000000 / 55\<close>, and the
  definitions keep the grouping the C expressions have. A structure written through a pointer of the
  caller is a result.
\<close>

section \<open>Conversions\<close>

text \<open>The digit loop of \<open>ticks_to_timespec\<close> and \<open>tick_to_timeval\<close>.\<close>

fun frac_loop :: "nat \<Rightarrow> u64 \<Rightarrow> u64 \<Rightarrow> u64 \<Rightarrow> u64" where
  "frac_loop 0 b acc left = acc"
| "frac_loop (Suc n) b acc left = frac_loop n b (10 * acc + left * 10 div b) ((left * 10) mod b)"

definition ticks_to_timespec :: "u32 \<Rightarrow> u64 \<Rightarrow> timespec" where
  "ticks_to_timespec tb time =
    \<lparr>ts_sec = time div ucast tb, ts_nsec = frac_loop 9 (ucast tb) 0 (time mod ucast tb)\<rparr>"

definition tick_to_timeval :: "u32 \<Rightarrow> u64 \<Rightarrow> timeval" where
  "tick_to_timeval tb time =
    \<lparr>tv_sec = time div ucast tb, tv_usec = frac_loop 6 (ucast tb) 0 (time mod ucast tb)\<rparr>"

text \<open>The digit loop of the inverse conversions.\<close>

fun unfrac_loop :: "nat \<Rightarrow> u64 \<Rightarrow> u64 \<Rightarrow> u64 \<Rightarrow> u64" where
  "unfrac_loop 0 b frac uticks = uticks"
| "unfrac_loop (Suc n) b frac uticks = unfrac_loop n b (frac div 10) ((uticks + b * (frac mod 10)) div 10)"

definition timespec_to_ticks :: "u32 \<Rightarrow> timespec \<Rightarrow> u64" where
  "timespec_to_ticks tb ts = unfrac_loop 9 (ucast tb) (ts_nsec ts) 0 + ts_sec ts * ucast tb"

definition timeval_to_tick :: "u32 \<Rightarrow> timeval \<Rightarrow> u64" where
  "timeval_to_tick tb tv = unfrac_loop 6 (ucast tb) (tv_usec tv) 0 + tv_sec tv * ucast tb"

text \<open>The variants with the macro: \<open>TIMEBASE * x\<close> is \<open>403000000 / 55 * x\<close>, \<open>x * TIMEBASE\<close> is
  \<open>x * 403000000 / 55\<close>, \<open>x / TIMEBASE\<close> is \<open>x / 403000000 / 55\<close> and \<open>x % TIMEBASE\<close> is
  \<open>x % 403000000 / 55\<close>.\<close>

definition timeval_to_ticks :: "timeval \<Rightarrow> u64" where
  "timeval_to_ticks tms = unfrac_loop 6 (403000000 div 55) (tv_usec tms) 0 + tv_sec tms * 403000000 div 55"

fun timebase_loop :: "nat \<Rightarrow> u64 \<Rightarrow> u64 \<Rightarrow> u64" where
  "timebase_loop 0 acc left = acc"
| "timebase_loop (Suc n) acc left =
    timebase_loop n (10 * acc + left * 10 div 403000000 div 55) ((left * 10) mod 403000000 div 55)"

definition ticks_to_timeval :: "u64 \<Rightarrow> timeval" where
  "ticks_to_timeval time =
    \<lparr>tv_sec = time div 403000000 div 55, tv_usec = timebase_loop 6 0 (time mod 403000000 div 55)\<rparr>"

section \<open>System calls and accounting\<close>

definition get_timer :: "'a os_scheme \<Rightarrow> u64" where
  "get_timer s = get_ticks s div ucast (time_base s)"

definition do_gettimeofday :: "'a kernel_scheme \<Rightarrow> timeval \<times> u32" where
  "do_gettimeofday s = (ticks_to_timeval (get_ticks s), 0)"

definition do_clock_gettime :: "'a os_scheme \<Rightarrow> timespec \<times> i32" where
  "do_clock_gettime s = (ticks_to_timespec (time_base s) (get_ticks s), 0)"

text \<open>\<open>do_gettimes\<close> adds to the counts for the children that the caller's structure holds already.\<close>

definition do_gettimes :: "tms \<Rightarrow> 'a kernel_scheme \<Rightarrow> tms \<times> u64" where
  "do_gettimes t s =
    (let t = t\<lparr>tms_stime := stime (cur_pcb s), tms_utime := stime (cur_pcb s)\<rparr>
     in (fold (\<lambda>i t. if parent (pcb_tab s (PCB i)) = Some (PCB i)
                     then t\<lparr>tms_cstime := tms_cstime t + stime (pcb_tab s (PCB i)),
                            tms_cutime := tms_cutime t + utime (pcb_tab s (PCB i))\<rparr>
                     else t) [0..<NUM_MAX_TASK] t,
         get_ticks s))"

definition clear_pcb_time :: "pcb_ref \<Rightarrow> 'a kernel_scheme \<Rightarrow> 'a kernel_scheme" where
  "clear_pcb_time r s = upd_pcb r (\<lambda>p. p\<lparr>end_time := 0, utime := 0, stime := 0\<rparr>) s"

definition sys_time :: "u64 \<Rightarrow> 'a os_scheme \<Rightarrow> u64" where
  "sys_time cpu_id s = (if cpu_id = 0 then sys_time_master s else sys_time_slave s)"

definition set_sys_time :: "u64 \<Rightarrow> u64 \<Rightarrow> 'a os_scheme \<Rightarrow> 'a os_scheme" where
  "set_sys_time cpu_id v s = (if cpu_id = 0 then s\<lparr>sys_time_master := v\<rparr> else s\<lparr>sys_time_slave := v\<rparr>)"

definition update_utime :: "'a os_scheme \<Rightarrow> 'a os_scheme" where
  "update_utime s =
    (let cpu_id = get_current_cpu_id s;
         d = get_ticks s - sys_time cpu_id s;
         s = upd_pcb (get_current_running s) (\<lambda>p. p\<lparr>utime := utime p + d\<rparr>) s
     in set_sys_time cpu_id (get_ticks s) s)"

definition update_stime :: "'a os_scheme \<Rightarrow> 'a os_scheme" where
  "update_stime s =
    (let cpu_id = get_current_cpu_id s;
         d = get_ticks s - sys_time cpu_id s;
         s = upd_pcb (get_current_running s) (\<lambda>p. p\<lparr>stime := stime p + d\<rparr>) s
     in set_sys_time cpu_id (get_ticks s) s)"

section \<open>Sleeping\<close>

definition sleep_list :: "'a kernel_scheme \<Rightarrow> wait_queue" where
  "sleep_list s = (if get_current_cpu_id s = 0 then timer_master else timer_slave)"

text \<open>\<open>do_nanosleep\<close> up to the point where it blocks, and what it returns when it runs again.\<close>

definition do_nanosleep :: "timespec \<Rightarrow> 'a os_scheme \<Rightarrow> ('a os_scheme, unit) outcome" where
  "do_nanosleep ts s =
    (let timer = sleep_list s;
         cur = get_current_running s;
         t = get_ticks s + timespec_to_ticks (time_base s) ts;
         s = upd_pcb cur (\<lambda>p. p\<lparr>end_time := t\<rparr>) s
     in do_block cur timer s)"

definition nanosleep_result :: "'a kernel_scheme \<Rightarrow> int" where
  "nanosleep_result s = (if sig_recv (cur_pcb s) AND push_bit (SIGCANCEL - 1) 1 \<noteq> 0 then - EINTR else 0)"

definition wake_if_due :: "pcb_ref \<Rightarrow> 'a kernel_scheme \<Rightarrow> 'a kernel_scheme" where
  "wake_if_due r s = (if get_ticks s \<ge> end_time (pcb_tab s r) then do_unblock r s else s)"

definition check_sleeping :: "'a kernel_scheme \<Rightarrow> 'a kernel_scheme" where
  "check_sleeping s = fold wake_if_due (queues s (WaitQ (sleep_list s))) s"

section \<open>Interval timers\<close>

definition upd_timer :: "pcb_ref \<Rightarrow> (timer \<Rightarrow> timer) \<Rightarrow> 'a kernel_scheme \<Rightarrow> 'a kernel_scheme" where
  "upd_timer r f s = upd_pcb r (\<lambda>p. p\<lparr>itimer := f (itimer p)\<rparr>) s"

text \<open>The body of the loop of \<open>itimer_check\<close> for one timer.\<close>

definition itimer_expire :: "u64 \<Rightarrow> ptr \<Rightarrow> 'a os_scheme \<Rightarrow> 'a os_scheme" where
  "itimer_expire nowtick node s =
    (let r = timer_process node; t = itimer (pcb_tab s r) in
     if add_tick t = 0 then s
     else
       let interval_tick = timeval_to_tick (time_base s) (it_interval (set_itime t));
           value_tick = timeval_to_tick (time_base s) (it_value (set_itime t))
       in if value_valid t = 1 then
            if nowtick \<ge> value_tick + add_tick t then
              let s = upd_timer r (\<lambda>t. t\<lparr>value_valid := 0\<rparr>) s;
                  s = send_signal SIGALRM r s
              in upd_timer r (\<lambda>t. t\<lparr>last_send_tick := nowtick\<rparr>) s
            else s
          else if interval_tick = 0 then s
          else if nowtick - last_send_tick t \<ge> interval_tick then
            upd_timer r (\<lambda>t. t\<lparr>last_send_tick := nowtick\<rparr>) (send_signal SIGALRM r s)
          else s)"

text \<open>\<open>itimer_check\<close>; the fuel bounds the number of timers, of which there is at most one for each PCB.\<close>

definition itimer_check :: "nat \<Rightarrow> 'a os_scheme \<Rightarrow> 'a os_scheme option" where
  "itimer_check fuel s = list_for_each_entry_safe fuel (itimer_expire (get_ticks s)) timer_list timers s"

text \<open>\<open>do_setitimer\<close> for a readable new value; the results are the state, the value returned and the
  structure written to the old value, if it is written.\<close>

definition do_setitimer ::
    "i32 \<Rightarrow> itimerval \<Rightarrow> bool \<Rightarrow> 'a os_scheme \<Rightarrow> ('a os_scheme, int \<times> itimerval option) outcome" where
  "do_setitimer which new_value old_null s =
    (if which \<noteq> 0 then Panic s
     else
       let cur = get_current_running s;
           v = timeval_to_tick (time_base s) (it_value new_value)
       in if v = 0 then
            Ret (if \<not> list_empty (timer_node cur) (timer_list s)
                 then s\<lparr>timer_list := list_del (timer_node cur) (timer_list s)\<rparr> else s) (0, None)
          else if old_null then Ret s (- EFAULT, None)
          else
            let old = (if add_tick (itimer (cur_pcb s)) \<noteq> 0 then Some (set_itime (itimer (cur_pcb s))) else None);
                now = get_ticks s;
                s = upd_timer cur (\<lambda>t. t\<lparr>set_itime := new_value, add_tick := now, value_valid := 1\<rparr>) s
            in Ret (s\<lparr>timer_list := list_add_tail (timer_node cur) timers (timer_list s)\<rparr>) (0, old))"

section \<open>The digit loops compute the fractions\<close>

lemma unat_mult_small: "unat (a :: u64) * unat b < 2 ^ 64 \<Longrightarrow> unat (a * b) = unat a * unat b"
  by (simp add: unat_word_ariths)

lemma unat_add_small: "unat (a :: u64) + unat b < 2 ^ 64 \<Longrightarrow> unat (a + b) = unat a + unat b"
  by (simp add: unat_word_ariths)

lemma long_division_step:
  fixes l b k :: nat
  assumes "0 < b"
  shows "(l div b) * k + (l mod b) * k div b = l * k div b"
proof -
  have "l * k = (l mod b) * k + (l div b) * k * b"
    by (metis add.commute add_mult_distrib mod_mult_div_eq mult.assoc mult.commute)
  then show ?thesis
    using assms by simp
qed

lemma frac_loop_nat:
  assumes "unat left < unat b" and "unat b < 2 ^ 32" and "(unat acc + 1) * 10 ^ n < 2 ^ 60"
  shows "unat (frac_loop n b acc left) = unat acc * 10 ^ n + unat left * 10 ^ n div unat b"
  using assms
proof (induction n arbitrary: acc left)
  case 0
  then show ?case by simp
next
  case (Suc n)
  let ?l = "unat left" and ?b = "unat b" and ?a = "unat acc"
  have p: "1 \<le> (10 :: nat) ^ n" by simp
  have a: "(10 * ?a + 10) * 10 ^ n < 2 ^ 60"
    using Suc.prems(3) by (simp add: algebra_simps)
  with p have a10: "10 * ?a + 10 < 2 ^ 60"
    by (metis (no_types, lifting) le_less_trans mult.right_neutral mult_le_mono2)
  have l10: "unat (left * 10) = ?l * 10"
    using Suc.prems by (intro trans [OF unat_mult_small]) auto
  have q: "?l * 10 div ?b < 10"
    using Suc.prems(1) by (simp add: less_mult_imp_div_less)
  have acc: "unat (10 * acc + left * 10 div b) = 10 * ?a + ?l * 10 div ?b"
  proof -
    have "unat (10 * acc) = 10 * ?a"
      using a10 by (intro trans [OF unat_mult_small]) auto
    moreover have "unat (left * 10 div b) = ?l * 10 div ?b"
      by (simp add: unat_div_distrib l10)
    ultimately show ?thesis
      using q a10 by (intro trans [OF unat_add_small]) auto
  qed
  have left: "unat ((left * 10) mod b) = ?l * 10 mod ?b"
    by (simp add: unat_mod_distrib l10)
  have "(10 * ?a + ?l * 10 div ?b + 1) * 10 ^ n \<le> (10 * ?a + 10) * 10 ^ n"
    using q by (intro mult_le_mono1) simp
  then have "(unat (10 * acc + left * 10 div b) + 1) * 10 ^ n < 2 ^ 60"
    using a unfolding acc by (rule le_less_trans)
  moreover have "unat ((left * 10) mod b) < ?b"
    using Suc.prems(1) unfolding left by simp
  ultimately have "unat (frac_loop n b (10 * acc + left * 10 div b) ((left * 10) mod b)) =
      (10 * ?a + ?l * 10 div ?b) * 10 ^ n + (?l * 10 mod ?b) * 10 ^ n div ?b"
    using Suc.IH [of "(left * 10) mod b" "10 * acc + left * 10 div b"] Suc.prems(2) by (simp only: acc left)
  also have "\<dots> = ?a * 10 ^ Suc n + ?l * 10 ^ Suc n div ?b"
    using long_division_step [of ?b "?l * 10" "10 ^ n"] Suc.prems(1) by (simp add: algebra_simps)
  finally show ?case by simp
qed

lemma unfrac_loop_nat:
  assumes "unat b < 2 ^ 32" and "unat uticks \<le> unat b"
  shows "unat (unfrac_loop n b frac uticks) = (unat uticks + unat b * (unat frac mod 10 ^ n)) div 10 ^ n"
  using assms(2)
proof (induction n arbitrary: frac uticks)
  case 0
  then show ?case by simp
next
  case (Suc n)
  let ?f = "unat frac" and ?b = "unat b" and ?u = "unat uticks"
  have d9: "?b * (?f mod 10) \<le> ?b * 9"
    using mod_less_divisor [of 10 ?f] by (intro mult_le_mono2) simp
  have "?b * (?f mod 10) < 2 ^ 64"
    by (rule le_less_trans [OF d9]) (use assms(1) in simp)
  then have m: "unat (b * (frac mod 10)) = ?b * (?f mod 10)"
    by (intro trans [OF unat_mult_small]) (simp_all add: unat_mod_distrib)
  have u: "unat ((uticks + b * (frac mod 10)) div 10) = (?u + ?b * (?f mod 10)) div 10"
  proof -
    have "?u + ?b * (?f mod 10) < 2 ^ 64"
      by (rule le_less_trans [OF add_mono [OF Suc.prems d9]]) (use assms(1) in simp)
    then have "unat (uticks + b * (frac mod 10)) = ?u + ?b * (?f mod 10)"
      unfolding m [symmetric] by (rule unat_add_small)
    then show ?thesis by (simp add: unat_div_distrib)
  qed
  have fd: "unat (frac div 10) = ?f div 10"
    by (simp add: unat_div_distrib)
  have "(?u + ?b * (?f mod 10)) div 10 \<le> ?b"
    using Suc.prems d9 by linarith
  then have "unat (unfrac_loop n b (frac div 10) ((uticks + b * (frac mod 10)) div 10)) =
      ((?u + ?b * (?f mod 10)) div 10 + ?b * (?f div 10 mod 10 ^ n)) div 10 ^ n"
    using Suc.IH [of "(uticks + b * (frac mod 10)) div 10" "frac div 10"] unfolding u fd by blast
  also have "\<dots> = (?u + ?b * (?f mod 10) + 10 * (?b * (?f div 10 mod 10 ^ n))) div 10 div 10 ^ n"
    by (simp add: add.commute)
  also have "\<dots> = (?u + ?b * (?f mod 10 ^ Suc n)) div 10 ^ Suc n"
    by (simp add: div_mult2_eq [symmetric] mod_mult2_eq algebra_simps)
  finally show ?case by simp
qed

lemma unat_tb: "unat (ucast (tb :: u32) :: u64) = unat tb" and unat_tb_less: "unat (ucast (tb :: u32) :: u64) < 2 ^ 32"
  using unat_lt_i32 [of tb] by (auto simp: unsigned_ucast_eq take_bit_nat_eq_self)

text \<open>The fraction of a second in \<open>10\<^sup>n\<close> units, and back.\<close>

lemma frac_of_ticks:
  assumes "0 < (tb :: u32)" and "n \<le> 9"
  shows "unat (frac_loop n (ucast tb) 0 (t mod ucast tb)) = unat t mod unat tb * 10 ^ n div unat tb"
    and "unat (frac_loop n (ucast tb) 0 (t mod ucast tb)) < 10 ^ n"
proof -
  have "0 < unat tb"
    using assms(1) by (simp add: word_less_nat_alt)
  then have l: "unat (t mod ucast tb) < unat (ucast tb :: u64)"
    by (simp only: unat_mod_distrib unat_tb mod_less_divisor)
  have n: "(10 :: nat) ^ n < 2 ^ 60"
    using power_increasing [OF assms(2), of "10 :: nat"] by simp
  show r: "unat (frac_loop n (ucast tb) 0 (t mod ucast tb)) = unat t mod unat tb * 10 ^ n div unat tb"
    using frac_loop_nat [OF l unat_tb_less, of 0 n] n by (simp add: unat_mod_distrib unat_tb)
  show "unat (frac_loop n (ucast tb) 0 (t mod ucast tb)) < 10 ^ n"
    unfolding r using \<open>0 < unat tb\<close> by (simp add: less_mult_imp_div_less)
qed

lemma ticks_of_frac:
  assumes "unat f < 10 ^ n"
  shows "unat (unfrac_loop n (ucast (tb :: u32)) f 0) = unat tb * unat f div 10 ^ n"
  using unfrac_loop_nat [OF unat_tb_less [of tb], of 0 n f] assms by (simp add: unat_tb)

text \<open>How much the two conversions lose together.\<close>

lemma frac_round_trip:
  fixes l b k :: nat
  assumes "0 < b" and "0 < k"
  shows "b * (l * k div b) div k \<le> l" and "l \<le> b * (l * k div b) div k + (b div k + 1)"
proof -
  have "b * (l * k div b) \<le> l * k"
    by simp
  then have "b * (l * k div b) div k \<le> l * k div k"
    by (rule div_le_mono)
  then show "b * (l * k div b) div k \<le> l"
    using assms by simp
  have "l * k < b * (l * k div b) + b"
    using dividend_less_times_div [OF assms(1), of "l * k"] by (simp add: add.commute)
  also have "\<dots> \<le> (b * (l * k div b) div k + b div k + 2) * k"
  proof -
    have "b * (l * k div b) < k + b * (l * k div b) div k * k" "b < k + b div k * k"
      using assms(2) dividend_less_div_times by auto
    then show ?thesis
      by (simp add: add_mult_distrib)
  qed
  finally have "l < b * (l * k div b) div k + b div k + 2"
    by (rule mult_less_cancel2 [THEN iffD1, THEN conjunct2])
  then show "l \<le> b * (l * k div b) div k + (b div k + 1)"
    by simp
qed

lemma round_trip_ticks:
  fixes t :: u64 and tb :: u32
  assumes "0 < tb" and "n \<le> 9"
  defines "t' \<equiv> unfrac_loop n (ucast tb) (frac_loop n (ucast tb) 0 (t mod ucast tb)) 0 + t div ucast tb * ucast tb"
  shows "t' \<le> t" and "unat t \<le> unat t' + (unat tb div 10 ^ n + 1)"
proof -
  let ?f = "frac_loop n (ucast tb) 0 (t mod ucast tb)" and ?b = "unat tb"
  have b: "0 < ?b" using assms(1) by (simp add: word_less_nat_alt)
  have u: "unat (unfrac_loop n (ucast tb) ?f 0) = ?b * (unat t mod ?b * 10 ^ n div ?b) div 10 ^ n"
    using ticks_of_frac [OF frac_of_ticks(2) [OF assms(1,2)], of tb] frac_of_ticks(1) [OF assms(1,2)] by simp
  have m: "unat (t div ucast tb * ucast tb) = unat t div ?b * ?b"
    using unat_lt_u64 [of t] by (intro trans [OF unat_mult_small])
      (auto simp: unat_div_distrib unat_tb intro: le_less_trans [OF div_times_less_eq_dividend])
  have "0 < (10 :: nat) ^ n" by simp
  note le = frac_round_trip [OF b this, of "unat t mod ?b"]
  have e: "unat t div ?b * ?b + unat t mod ?b = unat t"
    by simp
  have t': "unat t' = ?b * (unat t mod ?b * 10 ^ n div ?b) div 10 ^ n + unat t div ?b * ?b"
    unfolding t'_def u [symmetric] m [symmetric]
  proof (rule unat_add_small)
    show "unat (unfrac_loop n (ucast tb) ?f 0) + unat (t div ucast tb * ucast tb) < 2 ^ 64"
      using le(1) e unat_lt_u64 [of t] unfolding u m by linarith
  qed
  show "t' \<le> t"
    unfolding word_le_nat_alt t' using le(1) e by linarith
  show "unat t \<le> unat t' + (?b div 10 ^ n + 1)"
    unfolding t' using le(2) e by linarith
qed

section \<open>The clock of gettimeofday\<close>

lemma div_403000000_0: "unat (x :: u64) < 403000000 \<Longrightarrow> x div 403000000 = 0"
  by (simp add: word_arith_nat_div)

lemma timebase_loop_0:
  "unat left < 40300000 \<Longrightarrow> timebase_loop n 0 left = 0"
proof (induction n arbitrary: left)
  case (Suc n)
  have l: "unat (left * 10) = unat left * 10"
    using Suc.prems by (intro trans [OF unat_mult_small]) auto
  then have "left * 10 div 403000000 = 0"
    using Suc.prems by (intro div_403000000_0) simp
  moreover have "unat ((left * 10) mod 403000000 div 55) < 40300000"
    using Suc.prems by (simp add: unat_div_distrib unat_mod_distrib l)
  ultimately show ?case
    using Suc.IH by simp
qed simp

section \<open>Waking the sleepers\<close>

lemma wake_if_due_simps [simp]:
  "ticks (wake_if_due r s) = ticks s" "tp (wake_if_due r s) = tp s"
  "contexts (wake_if_due r s) = contexts s" "kernel.more (wake_if_due r s) = kernel.more s"
  "pid (pcb_tab (wake_if_due r s) p) = pid (pcb_tab s p)"
  "end_time (pcb_tab (wake_if_due r s) p) = end_time (pcb_tab s p)"
  "save_context (pcb_tab (wake_if_due r s) p) = save_context (pcb_tab s p)"
  by (simp_all add: wake_if_due_def)

definition due :: "'a kernel_scheme \<Rightarrow> pcb_ref \<Rightarrow> bool" where
  "due s r \<longleftrightarrow> end_time (pcb_tab s r) \<le> get_ticks s"

lemma due_wake_if_due [simp]: "due (wake_if_due x s) r \<longleftrightarrow> due s r"
  by (simp add: due_def get_ticks_def)

lemma wake_if_due_queues:
  assumes "store_inv (queues s)" and "x \<in> set (queues s (WaitQ w))" and "due s x"
  shows "queues (wake_if_due x s) =
      (queues s)(WaitQ w := filter (\<lambda>r. r \<noteq> x) (queues s (WaitQ w)), ready_queue := x # queues s ready_queue)"
    and "store_inv (queues (wake_if_due x s))"
proof -
  have q: "queues (wake_if_due x s) = q_add x ready_queue (q_del x (queues s))"
    using assms(3) by (simp add: wake_if_due_def due_def)
  show "store_inv (queues (wake_if_due x s))"
    unfolding q using assms(1) by (intro store_inv_q_add store_inv_q_del) auto
  show "queues (wake_if_due x s) =
      (queues s)(WaitQ w := filter (\<lambda>r. r \<noteq> x) (queues s (WaitQ w)), ready_queue := x # queues s ready_queue)"
    unfolding q q_del_eq [OF assms(1,2)]
    using store_invD(1) [OF assms(1), of "WaitQ w"]
    by (simp add: q_add_def distinct_remove1_removeAll removeAll_filter_not_eq fun_upd_twist)
      (metis (mono_tags, lifting))
qed

lemma fold_wake_if_due:
  assumes "store_inv (queues s)" and "distinct xs" and "set xs \<subseteq> set (queues s (WaitQ w))"
  shows "queues (fold wake_if_due xs s) =
     (queues s)(WaitQ w := filter (\<lambda>r. \<not> (r \<in> set xs \<and> due s r)) (queues s (WaitQ w)),
      ready_queue := rev (filter (due s) xs) @ queues s ready_queue)"
    and "pcb_tab (fold wake_if_due xs s) r =
      (if r \<in> set xs \<and> due s r then (pcb_tab s r)\<lparr>status := TASK_READY\<rparr> else pcb_tab s r)"
proof -
  have "queues (fold wake_if_due xs s) =
     (queues s)(WaitQ w := filter (\<lambda>r. \<not> (r \<in> set xs \<and> due s r)) (queues s (WaitQ w)),
      ready_queue := rev (filter (due s) xs) @ queues s ready_queue) \<and>
    pcb_tab (fold wake_if_due xs s) r =
      (if r \<in> set xs \<and> due s r then (pcb_tab s r)\<lparr>status := TASK_READY\<rparr> else pcb_tab s r)"
    using assms
  proof (induction xs arbitrary: s)
    case (Cons x xs)
    show ?case
    proof (cases "due s x")
      case True
      have x: "x \<in> set (queues s (WaitQ w))" using Cons.prems by simp
      note w = wake_if_due_queues [OF Cons.prems(1) x True]
      have "set xs \<subseteq> set (queues (wake_if_due x s) (WaitQ w))"
        using Cons.prems by (auto simp: w(1))
      note ih = Cons.IH [OF w(2) _ this]
      have "pcb_tab (wake_if_due x s) = (pcb_tab s)(x := (pcb_tab s x)\<lparr>status := TASK_READY\<rparr>)"
        using True by (simp add: wake_if_due_def due_def)
      with ih Cons.prems True show ?thesis
        by (auto simp: w(1) filter_filter intro!: ext filter_cong)
    next
      case False
      then have "wake_if_due x s = s" by (simp add: wake_if_due_def due_def)
      with Cons False show ?thesis
        by (auto intro!: ext filter_cong)
    qed
  qed auto
  then show "queues (fold wake_if_due xs s) =
     (queues s)(WaitQ w := filter (\<lambda>r. \<not> (r \<in> set xs \<and> due s r)) (queues s (WaitQ w)),
      ready_queue := rev (filter (due s) xs) @ queues s ready_queue)"
    and "pcb_tab (fold wake_if_due xs s) r =
      (if r \<in> set xs \<and> due s r then (pcb_tab s r)\<lparr>status := TASK_READY\<rparr> else pcb_tab s r)"
    by auto
qed

section \<open>Setting a timer twice\<close>

text \<open>\<open>do_setitimer\<close> appends the node of the process to \<open>timers\<close> without taking it off first. When it was
  the last node, it is then its own successor and the loop of \<open>itimer_check\<close> never comes back to the
  head.\<close>

fun path :: "list_heap \<Rightarrow> ptr \<Rightarrow> ptr list \<Rightarrow> ptr \<Rightarrow> bool" where
  "path h p [] n \<longleftrightarrow> nxt (h p) = n"
| "path h p (y # ys) n \<longleftrightarrow> nxt (h p) = y \<and> path h y ys n"

lemma links_path: "links h p ys n \<Longrightarrow> (\<And>q. q \<in> insert p (set ys) \<Longrightarrow> nxt (h' q) = nxt (h q)) \<Longrightarrow> path h' p ys n"
  by (induction ys arbitrary: p) auto

lemma self_loop:
  assumes "\<And>p s. heap (body p s) = heap s"
  shows "path (heap s) p ys n \<Longrightarrow> head \<notin> set (ys @ [n]) \<Longrightarrow> nxt (heap s n) = n \<Longrightarrow>
    list_for_each_safe fuel body heap (nxt (heap s p)) (nxt (heap s (nxt (heap s p)))) head s = None"
proof (induction fuel arbitrary: p ys s)
  case 0
  then show ?case by (cases ys) auto
next
  case (Suc fuel)
  show ?case
  proof (cases ys)
    case Nil
    with Suc.prems Suc.IH [of "body n s" n "[]"] assms show ?thesis by (auto simp: Let_def)
  next
    case (Cons y zs)
    with Suc.prems Suc.IH [of "body y s" y zs] assms show ?thesis by (auto simp: Let_def)
  qed
qed

lemma timer_list_itimer_expire [simp]: "timer_list (itimer_expire t p s) = timer_list s"
  by (simp add: itimer_expire_def upd_timer_def Let_def)

lemma setitimer_twice_hangs:
  assumes "dlist (timer_list s) timers (ys @ [timer_node (get_current_running s)])"
    and "timeval_to_tick (time_base s) (it_value v) \<noteq> 0"
  shows "\<exists>s' r. do_setitimer 0 v False s = Ret s' r \<and> itimer_check fuel s' = None"
proof -
  let ?n = "timer_node (get_current_running s)" and ?h = "timer_list s"
  let ?h' = "list_add_tail ?n timers ?h"
  obtain s' r where ret: "do_setitimer 0 v False s = Ret s' r" and h: "timer_list s' = ?h'"
    using assms(2) by (auto simp: do_setitimer_def Let_def upd_timer_def)
  have l: "links ?h timers ys ?n" "prv (?h timers) = ?n" and d: "timers \<notin> set (ys @ [?n])" "?n \<notin> set ys"
    using assms(1) by (auto simp: dlist_def links_append)
  have "path ?h' timers ys ?n"
    by (rule links_path [OF l(1)]) (use d l(2) in \<open>auto simp: list_add_tail_def list_add_between_def links_simps\<close>)
  moreover have "nxt (?h' ?n) = ?n"
    using l(2) by (simp add: list_add_tail_def list_add_between_def links_simps)
  ultimately have "itimer_check fuel s' = None"
    unfolding itimer_check_def list_for_each_entry_safe_def Let_def
    using d by (intro self_loop [where ys = ys and n = ?n]) (auto simp: h)
  with ret show ?thesis by blast
qed

section \<open>Properties\<close>

text \<open>C35: The digit-by-digit loops that convert ticks to seconds, microseconds and nanoseconds compute the
  exact quotient: the seconds are the whole part of ticks over the time base and the fraction is the
  remainder scaled and rounded down, always less than a second, for every tick count and every time
  base but 0, with no overflow of the 64-bit arithmetic.\<close>

theorem tick_conversion_exact:
  fixes t :: u64 and tb :: u32
  assumes "0 < tb"
  shows "unat (tv_sec (tick_to_timeval tb t)) = unat t div unat tb
    \<and> unat (tv_usec (tick_to_timeval tb t)) = unat t mod unat tb * 1000000 div unat tb
    \<and> unat (tv_usec (tick_to_timeval tb t)) < 1000000
    \<and> unat (ts_sec (ticks_to_timespec tb t)) = unat t div unat tb
    \<and> unat (ts_nsec (ticks_to_timespec tb t)) = unat t mod unat tb * 1000000000 div unat tb
    \<and> unat (ts_nsec (ticks_to_timespec tb t)) < 1000000000"
  using frac_of_ticks [OF assms, of 6 t] frac_of_ticks [OF assms, of 9 t]
  by (simp add: tick_to_timeval_def ticks_to_timespec_def unat_div_distrib unat_tb)

theorem tick_conversion_exact_witness:
  "unat (tv_usec (tick_to_timeval 7327272 10990908)) = unat (10990908 :: u64) mod unat (7327272 :: u32) * 1000000 div unat (7327272 :: u32)"
  using tick_conversion_exact [of 7327272 10990908] by simp

text \<open>Converting ticks to a time and back loses less than the ticks of one unit and one more tick,
  and never gains any: for microseconds (\<open>setitimer\<close>, \<open>getrusage\<close>) and for nanoseconds (\<open>nanosleep\<close>,
  \<open>clock_gettime\<close>).\<close>

theorem tick_round_trip:
  fixes t :: u64 and tb :: u32
  assumes "0 < tb"
  shows "timeval_to_tick tb (tick_to_timeval tb t) \<le> t
    \<and> unat t \<le> unat (timeval_to_tick tb (tick_to_timeval tb t)) + (unat tb div 1000000 + 1)
    \<and> timespec_to_ticks tb (ticks_to_timespec tb t) \<le> t
    \<and> unat t \<le> unat (timespec_to_ticks tb (ticks_to_timespec tb t)) + (unat tb div 1000000000 + 1)"
  using round_trip_ticks [OF assms, of 6 t] round_trip_ticks [OF assms, of 9 t]
  by (simp add: timeval_to_tick_def tick_to_timeval_def timespec_to_ticks_def ticks_to_timespec_def)

theorem tick_round_trip_witness:
  "timespec_to_ticks 7327272 (ticks_to_timespec 7327272 10990908) \<le> 10990908
    \<and> unat (10990908 :: u64) \<le> unat (timespec_to_ticks 7327272 (ticks_to_timespec 7327272 10990908)) + (unat (7327272 :: u32) div 1000000000 + 1)"
proof -
  have "(0 :: u32) < 7327272" by simp
  from tick_round_trip [OF this, of 10990908] show ?thesis by blast
qed

text \<open>What \<open>gettimeofday\<close> returns on the k210: because \<open>TIMEBASE\<close> is not parenthesised, the seconds are
  the ticks divided by 403000000 and then by 55, not by their quotient, so that the clock advances by one
  second every 22165000000 ticks, and the microseconds are always 0.\<close>

theorem gettimeofday_result:
  "do_gettimeofday s = (\<lparr>tv_sec = get_ticks s div 22165000000, tv_usec = 0\<rparr>, 0)"
proof -
  have "get_ticks s div 403000000 div 55 = get_ticks s div 22165000000"
    by (rule word_unat_eq_iff [THEN iffD2]) (simp add: unat_div_distrib div_mult2_eq [symmetric])
  moreover have "unat (get_ticks s mod 403000000 div 55) < 40300000"
  proof -
    have "unat (get_ticks s) mod 403000000 < 403000000" by simp
    then show ?thesis by (simp add: unat_div_distrib unat_mod_distrib)
  qed
  then have "timebase_loop 6 0 (get_ticks s mod 403000000 div 55) = 0"
    by (rule timebase_loop_0)
  ultimately show ?thesis
    by (simp add: do_gettimeofday_def ticks_to_timeval_def)
qed

text \<open>C34: The timer interrupt wakes exactly the sleepers whose time has come: the processes of the sleep
  list with \<open>end_time\<close> reached leave it for the ready queue and become ready, those whose time has not
  come stay asleep in their order, and no other process and no other queue is touched.\<close>

theorem check_sleeping_wakes_due:
  assumes "store_inv (queues s)"
  shows "queues (check_sleeping s) (WaitQ (sleep_list s)) = filter (\<lambda>r. \<not> due s r) (queues s (WaitQ (sleep_list s)))
    \<and> queues (check_sleeping s) ready_queue = rev (filter (due s) (queues s (WaitQ (sleep_list s)))) @ queues s ready_queue
    \<and> (\<forall>q. q \<noteq> WaitQ (sleep_list s) \<and> q \<noteq> ready_queue \<longrightarrow> queues (check_sleeping s) q = queues s q)
    \<and> (\<forall>r. pcb_tab (check_sleeping s) r =
        (if r \<in> set (queues s (WaitQ (sleep_list s))) \<and> due s r then (pcb_tab s r)\<lparr>status := TASK_READY\<rparr> else pcb_tab s r))"
proof -
  have "distinct (queues s (WaitQ (sleep_list s)))" "set (queues s (WaitQ (sleep_list s))) \<subseteq> set (queues s (WaitQ (sleep_list s)))"
    using store_invD(1) [OF assms(1)] by simp_all
  note f = fold_wake_if_due [OF assms(1) this]
  show ?thesis
    unfolding check_sleeping_def
    using f by (auto intro!: filter_cong)
qed

definition demo_sleep :: os where
  "demo_sleep = demo_os\<lparr>ticks := 500,
    queues := (queues demo_os)(WaitQ timer_master := [PCB 5, PCB 6]),
    pcb_tab := (pcb_tab demo_os)(PCB 5 := (demo_pcb TASK_BLOCKED 5 5)\<lparr>end_time := 900\<rparr>)\<rparr>"

theorem check_sleeping_wakes_due_witness:
  "queues (check_sleeping demo_sleep) (WaitQ timer_master) = [PCB 5]
    \<and> queues (check_sleeping demo_sleep) ready_queue = [PCB 6, PCB 2]"
proof -
  have s: "store_inv (queues demo_sleep)"
    by (rule store_invI) (auto simp: demo_sleep_def demo_os_simps split: if_splits)
  have l: "sleep_list demo_sleep = timer_master"
    by (simp add: sleep_list_def get_current_cpu_id_def get_current_running_def demo_sleep_def demo_os_simps demo_simps)
  have "due demo_sleep (PCB 6)" "\<not> due demo_sleep (PCB 5)"
    by (simp_all add: due_def get_ticks_def demo_sleep_def demo_os_simps demo_simps)
  then show ?thesis
    using check_sleeping_wakes_due [OF s] unfolding l by (simp add: demo_sleep_def demo_os_simps)
qed

end
