(* ===== verification/System.thy ===== *)
theory System
  imports Time Kstring
begin

text \<open>
  Small system calls: the identifiers of \<open>kernel/sched/id.c\<close>, the limits, the system and the resource
  information of \<open>kernel/system/system.c\<close>, and \<open>uname\<close> of \<open>kernel/system/uname.c\<close>, which copies its static
  structure into the caller's with \<open>kstrcpy\<close>.
\<close>

section \<open>Identifiers\<close>

definition do_getpid :: "'a kernel_scheme \<Rightarrow> i32" where
  "do_getpid s = pid (cur_pcb s)"

definition do_getppid :: "'a kernel_scheme \<Rightarrow> i32" where
  "do_getppid s = ppid (cur_pcb s)"

definition do_set_tid_address :: "ptr \<Rightarrow> 'a kernel_scheme \<Rightarrow> 'a kernel_scheme \<times> i32" where
  "do_set_tid_address tidptr s =
    (let s = upd_pcb (get_current_running s) (\<lambda>p. p\<lparr>clear_ctid := tidptr\<rparr>) s in (s, tid (cur_pcb s)))"

definition do_setsid :: i32 where
  "do_setsid = 0"

definition do_geteuid :: u32 where
  "do_geteuid = 0"

definition do_getegid :: u32 where
  "do_getegid = 0"

definition do_gettid :: "'a kernel_scheme \<Rightarrow> i32" where
  "do_gettid s = tid (cur_pcb s)"

definition do_getgid :: u32 where
  "do_getgid = 0"

definition do_getuid :: u32 where
  "do_getuid = 0"

section \<open>Limits\<close>

abbreviation (input) RLIMIT_NOFILE :: i32 where "RLIMIT_NOFILE \<equiv> 7"

definition do_getrlimit :: "i32 \<Rightarrow> 'a os_scheme \<Rightarrow> 'a os_scheme \<times> rlimit" where
  "do_getrlimit resource s =
    (let s = s\<lparr>mylimit := fd_limit (cur_pcb s)\<rparr> in (s, mylimit s))"

definition do_setrlimit :: "i32 \<Rightarrow> rlimit \<Rightarrow> 'a os_scheme \<Rightarrow> 'a os_scheme" where
  "do_setrlimit resource rlim s =
    (let s = s\<lparr>mylimit := rlim\<rparr>; l = mylimit s
     in upd_pcb (get_current_running s) (\<lambda>p. p\<lparr>fd_limit := l\<rparr>) s)"

text \<open>\<open>do_prlimit\<close>; the last result is what is written to \<open>old_limit\<close>.\<close>

definition do_prlimit ::
    "i32 \<Rightarrow> rlimit option \<Rightarrow> bool \<Rightarrow> 'a os_scheme \<Rightarrow> 'a os_scheme \<times> int \<times> rlimit option" where
  "do_prlimit resource new_limit want_old s =
    (if resource = RLIMIT_NOFILE then
       let (s, old) = (if want_old then (let (s, l) = do_getrlimit resource s in (s, Some l)) else (s, None));
           s = (case new_limit of None \<Rightarrow> s | Some l \<Rightarrow> do_setrlimit resource l s)
       in (s, 0, old)
     else (s, 0, None))"

section \<open>Information\<close>

record sysinfo =
  uptime :: i64
  loads :: "u64 list"
  totalram :: u64
  freeram :: u64
  sharedram :: u64
  bufferram :: u64
  totalswap :: u64
  freeswap :: u64
  procs :: u16
  totalhigh :: u64
  freehigh :: u64
  mem_unit :: u32

definition do_sysinfo :: "'a os_scheme \<Rightarrow> sysinfo" where
  "do_sysinfo s =
    \<lparr>uptime = get_timer s, loads = [0, 0, 0], totalram = FREEHEAP - FREEMEM, freeram = source_num s * NORMAL_PAGE_SIZE,
     sharedram = 0, bufferram = 0x10000, totalswap = 0, freeswap = 0,
     procs = fold (\<lambda>i n. if status (pcb_tab s (PCB i)) \<noteq> TASK_ZOMBIE \<and> status (pcb_tab s (PCB i)) \<noteq> TASK_EXITED
                         then n + 1 else n) [0..<NUM_MAX_TASK] 0,
     totalhigh = 0, freehigh = 0, mem_unit = 1\<rparr>"

record rusage =
  ru_utime :: timeval
  ru_stime :: timeval
  ru_maxrss :: i64
  ru_ixrss :: i64
  ru_idrss :: i64
  ru_isrss :: i64
  ru_minflt :: i64
  ru_majflt :: i64
  ru_nswap :: i64
  ru_inblock :: i64
  ru_oublock :: i64
  ru_msgsnd :: i64
  ru_msgrcv :: i64
  ru_nsignals :: i64
  ru_nvcsw :: i64
  ru_nivcsw :: i64

definition do_getrusage :: "i32 \<Rightarrow> 'a os_scheme \<Rightarrow> ('a os_scheme, rusage) outcome" where
  "do_getrusage who s =
    (if who = 0 then
       Ret s \<lparr>ru_utime = tick_to_timeval (time_base s) (utime (cur_pcb s)),
              ru_stime = tick_to_timeval (time_base s) (stime (cur_pcb s)),
              ru_maxrss = 752, ru_ixrss = 0, ru_idrss = 0, ru_isrss = 0, ru_minflt = 32, ru_majflt = 7,
              ru_nswap = 0, ru_inblock = 1440, ru_oublock = 0, ru_msgsnd = 0, ru_msgrcv = 0,
              ru_nsignals = 0, ru_nvcsw = 0, ru_nivcsw = 0\<rparr>
     else Panic s)"

section \<open>uname\<close>

text \<open>Each of the six fields has 65 bytes.\<close>

definition copy_str :: "ptr \<Rightarrow> ptr \<Rightarrow> u64 \<Rightarrow> bmem option \<Rightarrow> bmem option" where
  "copy_str uts utsname off m = Option.bind m (\<lambda>m. map_option prod.fst (kstrcpy (uts + off) (utsname + off) m))"

definition do_uname :: "ptr \<Rightarrow> ptr \<Rightarrow> bmem \<Rightarrow> (bmem \<times> u8) option" where
  "do_uname uts utsname m =
    map_option (\<lambda>m. (m, 0)) (fold (copy_str uts utsname) [0, 65, 130, 195, 260, 325] (Some m))"

section \<open>What is read back\<close>

text \<open>\<open>prlimit\<close> with a new value returns the old limit of the process, and the next call returns the new
  one; calls for other resources, and the limits of other processes, change nothing.\<close>

lemma prlimit_read_back:
  "(let (t, r, old) = do_prlimit RLIMIT_NOFILE (Some l) True s;
        (u, r', old') = do_prlimit RLIMIT_NOFILE None True t
    in r = 0 \<and> old = Some (fd_limit (cur_pcb s)) \<and> r' = 0 \<and> old' = Some l
       \<and> (\<forall>p. p \<noteq> get_current_running s \<longrightarrow> pcb_tab u p = pcb_tab s p)
       \<and> (\<forall>res. res \<noteq> RLIMIT_NOFILE \<longrightarrow> do_prlimit res (Some l) True s = (s, 0, None)))"
  by (simp add: do_prlimit_def do_getrlimit_def do_setrlimit_def get_current_running_def Let_def)

text \<open>\<open>uname\<close> gives the caller the six strings of the kernel's structure.\<close>

lemma block_sub: "j + n \<le> k \<Longrightarrow> block (p + of_nat j) n \<subseteq> block p k"
proof
  fix a
  assume "j + n \<le> k" and "a \<in> block (p + of_nat j) n"
  then obtain i where "a = p + of_nat (j + i)" "j + i < k"
    by (auto simp: block_def add.assoc)
  then show "a \<in> block p k"
    unfolding block_def by (intro image_eqI [of _ _ "j + i"]) auto
qed

lemma block_mono: "n \<le> k \<Longrightarrow> block p n \<subseteq> block p k"
  by (auto simp: block_def)

lemma block_apart:
  assumes "j + n \<le> k" and "k + n \<le> 2 ^ 64"
  shows "block (p + of_nat j) n \<inter> block (p + of_nat k) n = {}"
proof -
  have "p + of_nat j + of_nat a \<noteq> p + of_nat k + (of_nat b :: ptr)" if "a < n" "b < n" for a b
  proof
    assume "p + of_nat j + of_nat a = p + of_nat k + (of_nat b :: ptr)"
    then have "(of_nat (j + a) :: ptr) = of_nat (k + b)"
      by (simp add: add.assoc)
    then have "unat (of_nat (j + a) :: ptr) = unat (of_nat (k + b) :: ptr)"
      by (rule arg_cong)
    then have "j + a = k + b"
      using assms that by (simp only: unat_of_nat_u64)
    with assms that show False by simp
  qed
  then show ?thesis by (auto simp: block_def)
qed

lemma copy_fields:
  assumes "block uts 390 \<inter> block utsname 390 = {}"
  shows "(\<And>off. off \<in> set offs \<Longrightarrow> off + 65 \<le> 390 \<and> length (f off) < 65 \<and> cstr m (utsname + of_nat off) (f off)) \<Longrightarrow>
    sorted_wrt (\<lambda>a b. a + 65 \<le> b) offs \<Longrightarrow>
    \<exists>m'. fold (copy_str uts utsname) (map of_nat offs) (Some m) = Some m'
      \<and> (\<forall>off \<in> set offs. cstr m' (uts + of_nat off) (f off))
      \<and> (\<forall>a. (\<forall>off \<in> set offs. a \<notin> block (uts + of_nat off) 65) \<longrightarrow> m' a = m a)"
proof (induction offs arbitrary: m)
  case (Cons x offs)
  let ?b = "\<lambda>p off. block (p + of_nat off) 65"
  have x: "x + 65 \<le> 390" "length (f x) < 65" "cstr m (utsname + of_nat x) (f x)"
    using Cons.prems(1) [of x] by auto
  have sub: "off + 65 \<le> 390 \<Longrightarrow> ?b p off \<subseteq> block p 390" for p off
    by (rule block_sub)
  have sub1: "block (p + of_nat off) (Suc (length (f off))) \<subseteq> block p 390" if "off + 65 \<le> 390" "length (f off) < 65" for p off
    by (rule block_sub) (use that in linarith)
  have "block (uts + of_nat x) (Suc (length (f x))) \<inter> block (utsname + of_nat x) (Suc (length (f x))) = {}"
    using assms sub1 [OF x(1,2), of uts] sub1 [OF x(1,2), of utsname] by blast
  moreover have "Suc (length (f x)) \<le> 2 ^ 64"
    using x(2) by simp
  ultimately obtain m1 where m1: "strcpy_loop (uts + of_nat x) (utsname + of_nat x) m = Some m1" "cstr m1 (uts + of_nat x) (f x)"
    "\<forall>a. a \<notin> block (uts + of_nat x) (Suc (length (f x))) \<longrightarrow> m1 a = m a"
    using strcpy_loop_cstr [OF x(3)] by blast
  then have out: "a \<notin> ?b uts x \<Longrightarrow> m1 a = m a" for a
    using block_mono [of "Suc (length (f x))" 65] x(2) by (meson Suc_leI subsetD)
  have "cstr m1 (utsname + of_nat off) (f off)" if "off \<in> set offs" for off
  proof -
    have o: "off + 65 \<le> 390" "length (f off) < 65" "cstr m (utsname + of_nat off) (f off)"
      using Cons.prems(1) [of off] that by auto
    have "block (utsname + of_nat off) (Suc (length (f off))) \<inter> ?b uts x = {}"
      using assms sub [OF x(1), of uts] sub1 [OF o(1,2), of utsname] by blast
    then show ?thesis
      using o(3) out cstr_cong [of "utsname + of_nat off" "f off" m1 m] by blast
  qed
  then obtain m' where m': "fold (copy_str uts utsname) (map of_nat offs) (Some m1) = Some m'"
    "\<forall>off \<in> set offs. cstr m' (uts + of_nat off) (f off)"
    "\<forall>a. (\<forall>off \<in> set offs. a \<notin> ?b uts off) \<longrightarrow> m' a = m1 a"
    using Cons.IH [of m1] Cons.prems by auto
  have "cstr m' (uts + of_nat x) (f x) = cstr m1 (uts + of_nat x) (f x)"
  proof (rule cstr_cong)
    fix a
    assume "a \<in> block (uts + of_nat x) (Suc (length (f x)))"
    then have "a \<in> ?b uts x"
      using block_mono [of "Suc (length (f x))" 65] x(2) by (meson Suc_leI subsetD)
    moreover have "?b uts x \<inter> ?b uts off = {}" if "off \<in> set offs" for off
      using Cons.prems(1) [of off] Cons.prems(2) that by (intro block_apart) auto
    ultimately show "m' a = m1 a" using m'(3) by blast
  qed
  moreover have "copy_str uts utsname (of_nat x) (Some m) = Some m1"
    using m1(1) by (simp add: copy_str_def kstrcpy_def)
  ultimately show ?case
    using m' m1(2) out by auto
qed simp

text \<open>\<open>uname\<close> gives the caller the six strings of the kernel's structure, when each fits its field of 65
  bytes and the two structures do not overlap, and writes nothing outside the caller's structure.\<close>

theorem uname_copies_strings:
  assumes "block uts 390 \<inter> block utsname 390 = {}"
    and "\<And>i. i < 6 \<Longrightarrow> length (strs i) < 65 \<and> cstr m (utsname + of_nat (65 * i)) (strs i)"
  shows "\<exists>m'. do_uname uts utsname m = Some (m', 0) \<and> (\<forall>i<6. cstr m' (uts + of_nat (65 * i)) (strs i))
    \<and> (\<forall>a. a \<notin> block uts 390 \<longrightarrow> m' a = m a)"
proof -
  let ?o = "[0, 65, 130, 195, 260, 325] :: nat list"
  have "?o = map (\<lambda>i. 65 * i) [0..<6]"
    by (simp add: upt_rec)
  then have o: "set ?o = (\<lambda>i. 65 * i) ` {0..<6}"
    by (simp only: set_map set_upt)
  have p: "off + 65 \<le> 390 \<and> length (strs (off div 65)) < 65 \<and> cstr m (utsname + of_nat off) (strs (off div 65))"
    if "off \<in> set ?o" for off
    using that assms(2) [of "off div 65"] unfolding o by auto
  have "sorted_wrt (\<lambda>a b. a + 65 \<le> b) ?o" by simp
  from copy_fields [OF assms(1) p this] obtain m' where
    m': "fold (copy_str uts utsname) (map of_nat ?o) (Some m) = Some m'"
    "\<forall>off \<in> set ?o. cstr m' (uts + of_nat off) (strs (off div 65))"
    "\<forall>a. (\<forall>off \<in> set ?o. a \<notin> block (uts + of_nat off) 65) \<longrightarrow> m' a = m a"
    by blast
  have "\<forall>i<6. cstr m' (uts + of_nat (65 * i)) (strs i)"
    using m'(2) unfolding o by simp
  moreover have "m' a = m a" if "a \<notin> block uts 390" for a
  proof -
    have "a \<notin> block (uts + of_nat off) 65" if "off \<in> set ?o" for off
      using p [OF that] block_sub [of off 65 390 uts] \<open>a \<notin> block uts 390\<close> by blast
    then show ?thesis using m'(3) by blast
  qed
  ultimately show ?thesis
    using m'(1) by (auto simp: do_uname_def)
qed

definition demo_uname :: bmem where
  "demo_uname a = (if a \<in> {1000, 1065, 1130, 1195, 1260, 1325} then 76 else 0)"

theorem uname_copies_strings_witness:
  "\<exists>m'. do_uname 5000 1000 demo_uname = Some (m', 0) \<and> (\<forall>i<6. cstr m' (5000 + of_nat (65 * i)) [76])"
proof -
  have "block (5000 :: ptr) 390 \<inter> block 1000 390 = {}"
    using block_apart [of 0 390 4000 1000] by (simp add: Int_commute)
  moreover have "length [76 :: u8] < 65 \<and> cstr demo_uname (1000 + of_nat (65 * i)) [76]" if "i < 6" for i
  proof -
    have "i \<in> {0, 1, 2, 3, 4, 5}" using that by auto
    then show ?thesis by (auto simp: demo_uname_def)
  qed
  ultimately show ?thesis
    using uname_copies_strings [of 5000 1000 "\<lambda>_. [76]" demo_uname] by blast
qed

end
