(* ===== verification/BufferCache.thy ===== *)
theory BufferCache
  imports Globals
begin

text \<open>
  The block buffer cache: \<open>drivers/sdcard/bio.c\<close> and the sector interface \<open>disk_read\<close> and \<open>disk_write\<close> of
  \<open>disk.c\<close> above it. The card itself is the map \<open>sd_card\<close>: a transfer of one sector is taken to succeed.
  The hash lists are a store of queues, of which a buffer is on at most one; the list of
  unused buffers is \<open>lru\<close>. The contract is the one of a disk (\<open>disk_view\<close>): a read returns what was last
  written to the sector, whatever has been evicted in between.
\<close>

section \<open>Operations\<close>

abbreviation (input) nwait_sleep_queue :: ptr where "nwait_sleep_queue \<equiv> 8"
abbreviation (input) sizeof_buf :: u64 where "sizeof_buf \<equiv> 600"
abbreviation (input) BNUM :: u64 where "BNUM \<equiv> 1600"

definition hash_idx :: "u32 \<Rightarrow> nat" where
  "hash_idx idx = unat (idx mod BCACHE_TABLE_SIZE)"

definition upd_buf :: "nat \<Rightarrow> (buf \<Rightarrow> buf) \<Rightarrow> 'a os_scheme \<Rightarrow> 'a os_scheme" where
  "upd_buf b f s = s\<lparr>bufs := (bufs s)(b := f (bufs s b))\<rparr>"

definition disk_read_bio :: "nat \<Rightarrow> 'a os_scheme \<Rightarrow> 'a os_scheme" where
  "disk_read_bio b s = upd_buf b (\<lambda>f. f\<lparr>buf_data := sd_card s (sectorno f)\<rparr>) s"

definition disk_write_bio :: "nat \<Rightarrow> 'a os_scheme \<Rightarrow> 'a os_scheme" where
  "disk_write_bio b s = s\<lparr>sd_card := (sd_card s)(sectorno (bufs s b) := buf_data (bufs s b))\<rparr>"

text \<open>\<open>binit\<close>: the pages of the buffer pool, then the lists and the buffers; \<open>ROUND\<close> to whole pages.\<close>

definition bio_bytes :: u64 where
  "bio_bytes = (sizeof_buf * BNUM + (NORMAL_PAGE_SIZE - 1)) AND NOT (NORMAL_PAGE_SIZE - 1)"

definition to_bio_list :: "u64 \<Rightarrow> 'a mmkernel_scheme \<Rightarrow> 'a mmkernel_scheme" where
  "to_bio_list kva s = s\<lparr>page_lists := q_add (GET_MEM_NODE kva) bioPageList (q_del (GET_MEM_NODE kva) (page_lists s))\<rparr>"

fun bio_pages :: "nat \<Rightarrow> 'a mmkernel_scheme \<Rightarrow> ('a mmkernel_scheme, unit) outcome" where
  "bio_pages 0 s = Ret s ()"
| "bio_pages (Suc n) s = obind (kmalloc NORMAL_PAGE_SIZE s) (\<lambda>s kva. bio_pages n (to_bio_list kva s))"

definition buf_init :: "nat \<Rightarrow> 'a os_scheme \<Rightarrow> 'a os_scheme" where
  "buf_init b s =
    (let s = upd_buf b (\<lambda>f. zero_buf\<lparr>buf_lock := buf_lock f\<rparr>) s;
         s = s\<lparr>lru := lru s @ [b]\<rparr>
     in initsleeplock (buf_lock (bufs s b)) s)"

definition binit :: "'a os_scheme \<Rightarrow> ('a os_scheme, unit) outcome" where
  "binit s =
    (let s = s\<lparr>queues := (queues s)(WaitQ (sleep_queue nwait_sleep_queue) := []), lru := [], nwait := 0,
               actual_buf_num := unat (bio_bytes div sizeof_buf)\<rparr>
     in obind (kmalloc NORMAL_PAGE_SIZE s) (\<lambda>s kva.
        obind (bio_pages (unat (bio_bytes div NORMAL_PAGE_SIZE) - 1) (to_bio_list kva s)) (\<lambda>s _.
          let s = s\<lparr>bcache := (\<lambda>i. if i < unat BCACHE_TABLE_SIZE then [] else bcache s i)\<rparr>
          in Ret (fold buf_init [0..<actual_buf_num s] s) ())))"

text \<open>\<open>bget\<close>. A process that finds no buffer sleeps, and goes on with \<open>bget_rescan\<close>; one that finds the
  buffer locked goes on with the acquisition of its lock.\<close>

definition bget :: "u32 \<Rightarrow> u32 \<Rightarrow> 'a os_scheme \<Rightarrow> ('a os_scheme, nat) outcome" where
  "bget dv sec s =
    (let idx = hash_idx sec in
     case find (\<lambda>b. buf_dev (bufs s b) = dv \<and> sectorno (bufs s b) = sec) (bcache s idx) of
       Some b \<Rightarrow>
         let s = (if b \<noteq> hd (bcache s idx) then s\<lparr>bcache := q_add b idx (q_del b (bcache s))\<rparr> else s);
             r = refcnt (bufs s b);
             s = upd_buf b (\<lambda>f. f\<lparr>refcnt := refcnt f + 1\<rparr>) s;
             s = (if r = 0 then s\<lparr>lru := remove1 b (lru s)\<rparr> else s)
         in obind (acquiresleep (buf_lock (bufs s b)) s) (\<lambda>s _. Ret s b)
     | None \<Rightarrow>
         if lru s \<noteq> [] then
           let b = last (lru s);
               s = (if dirty (bufs s b) \<noteq> 0 then disk_write_bio b s else s);
               s = upd_buf b (\<lambda>f. f\<lparr>dirty := 0, buf_dev := dv, sectorno := sec, refcnt := 1\<rparr>) s;
               s = s\<lparr>bcache := q_add b idx (q_del b (bcache s))\<rparr>;
               s = s\<lparr>lru := remove1 b (lru s)\<rparr>
           in obind (acquiresleep (buf_lock (bufs s b)) s) (\<lambda>s _. Ret (upd_buf b (\<lambda>f. f\<lparr>valid := 0\<rparr>) s) b)
         else obind (sleep_on nwait_sleep_queue (s\<lparr>nwait := nwait s + 1\<rparr>)) (\<lambda>s _. Blocked s))"

definition bget_rescan :: "u32 \<Rightarrow> u32 \<Rightarrow> 'a os_scheme \<Rightarrow> ('a os_scheme, nat) outcome" where
  "bget_rescan dv sec s = bget dv sec (s\<lparr>nwait := nwait s - 1\<rparr>)"

definition bread :: "u32 \<Rightarrow> u32 \<Rightarrow> 'a os_scheme \<Rightarrow> ('a os_scheme, nat) outcome" where
  "bread dv sec s = obind (bget dv sec s) (\<lambda>s b.
    if valid (bufs s b) = 0 then Ret (upd_buf b (\<lambda>f. f\<lparr>valid := 1\<rparr>) (disk_read_bio b s)) b else Ret s b)"

definition bput :: "nat \<Rightarrow> 'a os_scheme \<Rightarrow> 'a os_scheme" where
  "bput b s =
    (let s = upd_buf b (\<lambda>f. f\<lparr>refcnt := refcnt f - 1\<rparr>) s in
     if refcnt (bufs s b) = 0 then
       let s = s\<lparr>lru := b # lru s\<rparr>
       in if sint (nwait s) > 0 then wakeup nwait_sleep_queue s else s
     else s)"

definition brelse :: "nat \<Rightarrow> 'a os_scheme \<Rightarrow> 'a os_scheme" where
  "brelse b s = bput b (releasesleep (buf_lock (bufs s b)) s)"

definition bwrite :: "nat \<Rightarrow> 'a os_scheme \<Rightarrow> 'a os_scheme" where
  "bwrite b s = brelse b (upd_buf b (\<lambda>f. f\<lparr>dirty := 0\<rparr>) (disk_write_bio b s))"

definition bsync_one :: "nat \<Rightarrow> 'a os_scheme \<Rightarrow> 'a os_scheme" where
  "bsync_one b s =
    upd_buf b (\<lambda>f. f\<lparr>dirty := 0\<rparr>) (if dirty (bufs s b) \<noteq> 0 then disk_write_bio b s else s)"

definition bsync :: "'a os_scheme \<Rightarrow> 'a os_scheme" where
  "bsync s = fold bsync_one (lru s) s"

text \<open>\<open>disk_read\<close> and \<open>disk_write\<close>: \<open>count\<close> sectors of 512 bytes, one after the other.\<close>

fun disk_read :: "nat \<Rightarrow> u32 \<Rightarrow> 'a os_scheme \<Rightarrow> ('a os_scheme, u8 list) outcome" where
  "disk_read 0 sector s = Ret s []"
| "disk_read (Suc n) sector s =
    obind (bread 0 sector s) (\<lambda>s b.
    let d = buf_data (bufs s b); s = brelse b s
    in obind (disk_read n (sector + 1) s) (\<lambda>s ds. Ret s (d @ ds)))"

fun disk_write :: "nat \<Rightarrow> u32 \<Rightarrow> u8 list \<Rightarrow> 'a os_scheme \<Rightarrow> ('a os_scheme, unit) outcome" where
  "disk_write 0 sector data s = Ret s ()"
| "disk_write (Suc n) sector data s =
    obind (bget 0 sector s) (\<lambda>s b.
    let s = upd_buf b (\<lambda>f. f\<lparr>buf_data := take BSIZE data, valid := 1, dirty := 1\<rparr>) s;
        s = brelse b s
    in disk_write n (sector + 1) (drop BSIZE data) s)"

section \<open>Invariant and view\<close>

definition hashed :: "'a os_scheme \<Rightarrow> nat \<Rightarrow> bool" where
  "hashed s b \<longleftrightarrow> b \<in> set (bcache s (hash_idx (sectorno (bufs s b))))"

definition cache_inv :: "'a os_scheme \<Rightarrow> bool" where
  "cache_inv s \<longleftrightarrow> store_inv (bcache s)
    \<and> (\<forall>i. \<forall>b \<in> set (bcache s i). b < actual_buf_num s \<and> hash_idx (sectorno (bufs s b)) = i \<and> buf_dev (bufs s b) = 0)
    \<and> (\<forall>b c. hashed s b \<and> hashed s c \<and> sectorno (bufs s b) = sectorno (bufs s c) \<longrightarrow> b = c)
    \<and> (\<forall>b < actual_buf_num s. dirty (bufs s b) \<noteq> 0 \<longrightarrow> hashed s b \<and> valid (bufs s b) \<noteq> 0)
    \<and> (\<forall>b. hashed s b \<and> valid (bufs s b) \<noteq> 0 \<and> dirty (bufs s b) = 0 \<longrightarrow> buf_data (bufs s b) = sd_card s (sectorno (bufs s b)))"

text \<open>\<open>X\<close> are the buffers held; the others are on the list of unused buffers, not locked. No operation
  gives up the processor while it holds a buffer, so that between operations none is held.\<close>

definition lru_inv :: "nat set \<Rightarrow> 'a os_scheme \<Rightarrow> bool" where
  "lru_inv X s \<longleftrightarrow> distinct (lru s) \<and> set (lru s) = {..<actual_buf_num s} - X
    \<and> (\<forall>b < actual_buf_num s. refcnt (bufs s b) = (if b \<in> X then 1 else 0))
    \<and> (\<forall>b < actual_buf_num s. b \<notin> X \<longrightarrow> sl_locked (sleeplocks s (buf_lock (bufs s b))) = 0)
    \<and> inj_on (\<lambda>b. buf_lock (bufs s b)) {..<actual_buf_num s}"

definition bio_inv :: "'a os_scheme \<Rightarrow> bool" where
  "bio_inv s \<longleftrightarrow> cache_inv s \<and> lru_inv {} s \<and> 0 < actual_buf_num s"

text \<open>What the disk holds for its users: the buffer of the sector if there is one with valid content,
  otherwise the sector of the card.\<close>

definition disk_view :: "'a os_scheme \<Rightarrow> u32 \<Rightarrow> u8 list" where
  "disk_view s sec =
    (case find (\<lambda>b. sectorno (bufs s b) = sec \<and> valid (bufs s b) \<noteq> 0) (bcache s (hash_idx sec)) of
       Some b \<Rightarrow> buf_data (bufs s b) | None \<Rightarrow> sd_card s sec)"

lemma disk_view_hashed:
  assumes "cache_inv s" and "hashed s b" and "valid (bufs s b) \<noteq> 0"
  shows "disk_view s (sectorno (bufs s b)) = buf_data (bufs s b)"
proof -
  let ?P = "\<lambda>c. sectorno (bufs s c) = sectorno (bufs s b) \<and> valid (bufs s c) \<noteq> 0"
  let ?l = "bcache s (hash_idx (sectorno (bufs s b)))"
  obtain c where c: "find ?P ?l = Some c"
    using assms(2,3) by (cases "find ?P ?l") (auto simp: find_None_iff hashed_def)
  then have "?P c" "c \<in> set ?l"
    by (auto simp: find_Some_iff)
  then have "c = b"
    using assms(1,2) unfolding cache_inv_def hashed_def by metis
  with c show ?thesis
    by (simp add: disk_view_def)
qed

lemma disk_view_card:
  assumes "\<And>b. hashed s b \<Longrightarrow> valid (bufs s b) \<noteq> 0 \<Longrightarrow> sectorno (bufs s b) \<noteq> sec"
  shows "disk_view s sec = sd_card s sec"
proof -
  have "find (\<lambda>b. sectorno (bufs s b) = sec \<and> valid (bufs s b) \<noteq> 0) (bcache s (hash_idx sec)) = None"
    using assms by (auto simp: find_None_iff hashed_def)
  then show ?thesis
    by (simp add: disk_view_def)
qed

lemma cache_invD:
  assumes "cache_inv s"
  shows "store_inv (bcache s)"
    and "b \<in> set (bcache s i) \<Longrightarrow> b < actual_buf_num s \<and> hash_idx (sectorno (bufs s b)) = i \<and> buf_dev (bufs s b) = 0"
    and "hashed s b \<Longrightarrow> hashed s c \<Longrightarrow> sectorno (bufs s b) = sectorno (bufs s c) \<Longrightarrow> b = c"
    and "b < actual_buf_num s \<Longrightarrow> dirty (bufs s b) \<noteq> 0 \<Longrightarrow> hashed s b \<and> valid (bufs s b) \<noteq> 0"
    and "hashed s b \<Longrightarrow> valid (bufs s b) \<noteq> 0 \<Longrightarrow> dirty (bufs s b) = 0 \<Longrightarrow> buf_data (bufs s b) = sd_card s (sectorno (bufs s b))"
  using assms unfolding cache_inv_def by blast+

lemma hashed_iff: "cache_inv s \<Longrightarrow> hashed s b \<longleftrightarrow> (\<exists>i. b \<in> set (bcache s i))"
  using cache_invD(2) [of s b] by (auto simp: hashed_def)

text \<open>States that differ in reference counts and in what is not the cache's.\<close>

definition same_cache :: "'a os_scheme \<Rightarrow> 'a os_scheme \<Rightarrow> bool" where
  "same_cache s t \<longleftrightarrow> bcache t = bcache s \<and> sd_card t = sd_card s \<and> actual_buf_num t = actual_buf_num s
    \<and> (\<forall>b. (bufs t b)\<lparr>refcnt := 0\<rparr> = (bufs s b)\<lparr>refcnt := 0\<rparr>)"

lemma same_cache_fields:
  assumes "same_cache s t"
  shows "buf_dev (bufs t b) = buf_dev (bufs s b)" "sectorno (bufs t b) = sectorno (bufs s b)"
    "valid (bufs t b) = valid (bufs s b)" "dirty (bufs t b) = dirty (bufs s b)"
    "buf_lock (bufs t b) = buf_lock (bufs s b)" "buf_data (bufs t b) = buf_data (bufs s b)"
    "bcache t = bcache s" "sd_card t = sd_card s" "actual_buf_num t = actual_buf_num s"
proof -
  have "(bufs t b)\<lparr>refcnt := 0\<rparr> = (bufs s b)\<lparr>refcnt := 0\<rparr>"
    using assms by (simp add: same_cache_def)
  then show "buf_dev (bufs t b) = buf_dev (bufs s b)" "sectorno (bufs t b) = sectorno (bufs s b)"
    "valid (bufs t b) = valid (bufs s b)" "dirty (bufs t b) = dirty (bufs s b)"
    "buf_lock (bufs t b) = buf_lock (bufs s b)" "buf_data (bufs t b) = buf_data (bufs s b)"
    by (cases "bufs t b"; cases "bufs s b"; simp)+
qed (use assms in \<open>auto simp: same_cache_def\<close>)

lemma same_cache_inv:
  assumes "same_cache s t"
  shows "cache_inv t = cache_inv s" and "disk_view t = disk_view s" and "hashed t = hashed s"
proof -
  note f = same_cache_fields [OF assms]
  show h: "hashed t = hashed s"
    by (rule ext) (simp add: hashed_def f)
  show "cache_inv t = cache_inv s"
    unfolding cache_inv_def h f ..
  show "disk_view t = disk_view s"
    by (rule ext) (simp add: disk_view_def f split: option.split)
qed

text \<open>A buffer moved to the front of a hash list.\<close>

lemma moved_set:
  "store_inv S \<Longrightarrow> c \<in> set (q_add b i (q_del b S) j) \<longleftrightarrow> (if c = b then j = i else c \<in> set (S j))"
  by (auto simp: q_add_def set_q_del)

lemma moved_store: "store_inv S \<Longrightarrow> store_inv (q_add b i (q_del b S))"
  by (intro store_inv_q_add store_inv_q_del) auto

text \<open>The fields under the operations of the sleep locks.\<close>

lemma bio_wake_all [simp]:
  "bufs (wake_all w s) = bufs s" "bcache (wake_all w s) = bcache s" "lru (wake_all w s) = lru s"
  "sd_card (wake_all w s) = sd_card s" "actual_buf_num (wake_all w s) = actual_buf_num s" "nwait (wake_all w s) = nwait s"
  by (induction w s rule: wake_all.induct; subst wake_all.simps; simp)+

lemma acquire_unlocked:
  "sl_locked (sleeplocks s l) = 0 \<Longrightarrow> acquiresleep l s =
    Ret (s\<lparr>sleeplocks := (sleeplocks s)(l := \<lparr>sl_locked = 1, sl_pid = pid (cur_pcb s)\<rparr>)\<rparr>) ()"
  by (simp add: acquiresleep_def Let_def)

lemma releasesleep_fields [simp]:
  "bufs (releasesleep l s) = bufs s" "bcache (releasesleep l s) = bcache s" "lru (releasesleep l s) = lru s"
  "sd_card (releasesleep l s) = sd_card s" "actual_buf_num (releasesleep l s) = actual_buf_num s"
  "nwait (releasesleep l s) = nwait s"
  "sleeplocks (releasesleep l s) = (sleeplocks s)(l := \<lparr>sl_locked = 0, sl_pid = 0\<rparr>)"
  by (simp_all add: releasesleep_def)

section \<open>Getting and releasing a buffer\<close>

lemma brelse_restores:
  assumes "lru_inv {b} s" and "b < actual_buf_num s"
  shows "lru_inv {} (brelse b s)" and "same_cache s (brelse b s)"
proof -
  let ?t = "upd_buf b (\<lambda>f. f\<lparr>refcnt := refcnt f - 1\<rparr>) (releasesleep (buf_lock (bufs s b)) s)"
  have r: "refcnt (bufs s b) = 1"
    using assms by (simp add: lru_inv_def)
  have t: "bufs ?t = (bufs s)(b := (bufs s b)\<lparr>refcnt := 0\<rparr>)" "lru ?t = lru s" "actual_buf_num ?t = actual_buf_num s"
    "bcache ?t = bcache s" "sd_card ?t = sd_card s"
    "sleeplocks ?t = (sleeplocks s)(buf_lock (bufs s b) := \<lparr>sl_locked = 0, sl_pid = 0\<rparr>)"
    using r by (simp_all add: upd_buf_def)
  have e: "brelse b s = (let u = ?t\<lparr>lru := b # lru s\<rparr> in if sint (nwait u) > 0 then wakeup nwait_sleep_queue u else u)"
    unfolding brelse_def bput_def Let_def using t(1,2) by simp
  have f: "bufs (brelse b s) = bufs ?t" "lru (brelse b s) = b # lru s" "actual_buf_num (brelse b s) = actual_buf_num s"
    "bcache (brelse b s) = bcache s" "sd_card (brelse b s) = sd_card s" "sleeplocks (brelse b s) = sleeplocks ?t"
    unfolding e Let_def by (simp_all add: wakeup_def t)
  show "same_cache s (brelse b s)"
    unfolding same_cache_def f t by simp
  show "lru_inv {} (brelse b s)"
  proof -
    have l: "buf_lock (((bufs s)(b := (bufs s b)\<lparr>refcnt := 0\<rparr>)) c) = buf_lock (bufs s c)" for c
      by simp
    have i: "distinct (lru s)" "set (lru s) = {..<actual_buf_num s} - {b}"
      "\<forall>c < actual_buf_num s. refcnt (bufs s c) = (if c = b then 1 else 0)"
      "\<forall>c < actual_buf_num s. c \<noteq> b \<longrightarrow> sl_locked (sleeplocks s (buf_lock (bufs s c))) = 0"
      "inj_on (\<lambda>c. buf_lock (bufs s c)) {..<actual_buf_num s}"
      using assms(1) by (simp_all add: lru_inv_def)
    show ?thesis
      unfolding lru_inv_def f t l using i assms(2) by auto
  qed
qed

lemma cache_inv_hit:
  assumes "cache_inv s" and "b \<in> set (bcache s i)" and "actual_buf_num t = actual_buf_num s" and "bufs t = bufs s"
    and "sd_card t = sd_card s" and "store_inv (bcache t)" and "\<And>c j. c \<in> set (bcache t j) \<longleftrightarrow> c \<in> set (bcache s j)"
  shows "cache_inv t" and "disk_view t = disk_view s"
proof -
  have h: "hashed t = hashed s"
    by (rule ext) (simp add: hashed_def assms)
  have st: "set (bcache t j) = set (bcache s j)" for j
    using assms(7) by blast
  show c: "cache_inv t"
    using assms(1,6) unfolding cache_inv_def h assms(3-5) st by blast
  show "disk_view t = disk_view s"
  proof
    fix sec
    show "disk_view t sec = disk_view s sec"
    proof (cases "\<exists>b. hashed s b \<and> valid (bufs s b) \<noteq> 0 \<and> sectorno (bufs s b) = sec")
      case True
      then show ?thesis
        using disk_view_hashed [OF assms(1)] disk_view_hashed [OF c] h by (auto simp: assms(4))
    next
      case False
      then have "disk_view s sec = sd_card s sec"
        by (intro disk_view_card) blast
      moreover have "disk_view t sec = sd_card t sec"
        using False by (intro disk_view_card) (auto simp: h assms(4))
      ultimately show ?thesis by (simp add: assms(5))
    qed
  qed
qed

lemma lru_inv_take:
  assumes "lru_inv {} s" and "b < actual_buf_num s" and "actual_buf_num t = actual_buf_num s"
    and "lru t = remove1 b (lru s)" and "\<And>c. refcnt (bufs t c) = (if c = b then 1 else refcnt (bufs s c))"
    and "\<And>c. buf_lock (bufs t c) = buf_lock (bufs s c)"
    and "sleeplocks t = (sleeplocks s)(buf_lock (bufs s b) := l)"
  shows "lru_inv {b} t"
proof -
  have i: "distinct (lru s)" "set (lru s) = {..<actual_buf_num s}"
    "\<forall>c < actual_buf_num s. refcnt (bufs s c) = 0"
    "\<forall>c < actual_buf_num s. sl_locked (sleeplocks s (buf_lock (bufs s c))) = 0"
    "inj_on (\<lambda>c. buf_lock (bufs s c)) {..<actual_buf_num s}"
    using assms(1) by (simp_all add: lru_inv_def)
  have "buf_lock (bufs s c) \<noteq> buf_lock (bufs s b)" if "c < actual_buf_num s" "c \<noteq> b" for c
    using inj_onD [OF i(5), of c b] assms(2) that by auto
  then show ?thesis
    unfolding lru_inv_def assms(3,4,5,6,7) using i by auto
qed

text \<open>The state after the eviction of \<open>b\<close> for the sector \<open>sec\<close>.\<close>

lemma cache_inv_evict:
  assumes inv: "cache_inv s" and b: "b < actual_buf_num s"
    and miss: "\<And>c. hashed s c \<Longrightarrow> sectorno (bufs s c) \<noteq> sec"
    and t: "actual_buf_num t = actual_buf_num s" "bcache t = q_add b (hash_idx sec) (q_del b (bcache s))"
      "sd_card t = (if dirty (bufs s b) \<noteq> 0 then (sd_card s)(sectorno (bufs s b) := buf_data (bufs s b)) else sd_card s)"
      "bufs t = (bufs s)(b := (bufs s b)\<lparr>dirty := 0, buf_dev := 0, sectorno := sec, refcnt := 1, valid := 0\<rparr>)"
  shows "cache_inv t" and "disk_view t = disk_view s" and "hashed t b"
proof -
  note st = cache_invD(1) [OF inv]
  have set_t: "c \<in> set (bcache t j) \<longleftrightarrow> (if c = b then j = hash_idx sec else c \<in> set (bcache s j))" for c j
    unfolding t(2) by (rule moved_set [OF st])
  have h: "hashed t c \<longleftrightarrow> c = b \<or> hashed s c" for c
    by (auto simp: hashed_def set_t t(4))
  then show "hashed t b" by simp
  have sd: "sd_card t (sectorno (bufs s c)) = sd_card s (sectorno (bufs s c))" if "c \<noteq> b" "hashed s c" for c
    using that cache_invD(3) [OF inv, of c b] cache_invD(4) [OF inv b] by (auto simp: t(3))
  show c: "cache_inv t"
    unfolding cache_inv_def
  proof (intro conjI allI ballI impI)
    show "store_inv (bcache t)"
      unfolding t(2) by (rule moved_store [OF st])
  next
    fix i c
    assume "c \<in> set (bcache t i)"
    then show "c < actual_buf_num t" "hash_idx (sectorno (bufs t c)) = i" "buf_dev (bufs t c) = 0"
      using cache_invD(2) [OF inv, of c i] b unfolding set_t by (auto simp: t(1,4) split: if_splits)
  next
    fix c d
    assume a: "hashed t c \<and> hashed t d \<and> sectorno (bufs t c) = sectorno (bufs t d)"
    show "c = d"
    proof (cases "c = b \<or> d = b")
      case True
      then show ?thesis
        using a miss [of c] miss [of d] unfolding h t(4) by (auto split: if_split_asm)
    next
      case False
      then show ?thesis
        using a cache_invD(3) [OF inv, of c d] unfolding h t(4) by simp
    qed
  next
    fix c
    assume "c < actual_buf_num t" "dirty (bufs t c) \<noteq> 0"
    then show "hashed t c" "valid (bufs t c) \<noteq> 0"
      using cache_invD(4) [OF inv, of c] unfolding h by (auto simp: t(1,4) split: if_splits)
  next
    fix c
    assume "hashed t c \<and> valid (bufs t c) \<noteq> 0 \<and> dirty (bufs t c) = 0"
    then show "buf_data (bufs t c) = sd_card t (sectorno (bufs t c))"
      using cache_invD(5) [OF inv, of c] sd [of c] unfolding h by (auto simp: t(4) split: if_splits)
  qed
  show "disk_view t = disk_view s"
  proof
    fix x
    show "disk_view t x = disk_view s x"
    proof (cases "\<exists>c. c \<noteq> b \<and> hashed s c \<and> valid (bufs s c) \<noteq> 0 \<and> sectorno (bufs s c) = x")
      case True
      then obtain c where k: "c \<noteq> b" "hashed s c" "valid (bufs s c) \<noteq> 0" "sectorno (bufs s c) = x" by blast
      then have "bufs t c = bufs s c" "hashed t c" by (simp_all add: t(4) h)
      with k show ?thesis
        using disk_view_hashed [OF inv k(2,3)] disk_view_hashed [OF c, of c] by simp
    next
      case False
      then have vt: "disk_view t x = sd_card t x"
        by (intro disk_view_card) (auto simp: h t(4) split: if_splits)
      show ?thesis
      proof (cases "hashed s b \<and> valid (bufs s b) \<noteq> 0 \<and> sectorno (bufs s b) = x")
        case True
        then show ?thesis
          using vt disk_view_hashed [OF inv, of b] cache_invD(5) [OF inv, of b] by (auto simp: t(3))
      next
        case nb: False
        with False have "disk_view s x = sd_card s x"
          by (intro disk_view_card) auto
        moreover have "sd_card t x = sd_card s x"
          using nb cache_invD(4) [OF inv b] by (auto simp: t(3))
        ultimately show ?thesis using vt by simp
      qed
    qed
  qed
qed

text \<open>\<open>bget\<close> from a state in which no buffer is held returns the buffer of the sector.\<close>

lemma bget_returns:
  assumes "bio_inv s"
  shows "\<exists>t b. bget 0 sec s = Ret t b \<and> cache_inv t \<and> lru_inv {b} t \<and> actual_buf_num t = actual_buf_num s
    \<and> b < actual_buf_num s \<and> hashed t b \<and> sectorno (bufs t b) = sec \<and> disk_view t = disk_view s"
proof -
  have inv: "cache_inv s" "lru_inv {} s" "0 < actual_buf_num s"
    using assms by (simp_all add: bio_inv_def)
  have free: "refcnt (bufs s c) = 0" "sl_locked (sleeplocks s (buf_lock (bufs s c))) = 0" if "c < actual_buf_num s" for c
    using inv(2) that by (simp_all add: lru_inv_def)
  let ?f = "find (\<lambda>b. buf_dev (bufs s b) = 0 \<and> sectorno (bufs s b) = sec) (bcache s (hash_idx sec))"
  show ?thesis
  proof (cases ?f)
    case (Some b)
    then have k: "buf_dev (bufs s b) = 0" "sectorno (bufs s b) = sec" "b \<in> set (bcache s (hash_idx sec))"
      by (auto simp: find_Some_iff)
    then have b: "b < actual_buf_num s"
      using cache_invD(2) [OF inv(1)] by blast
    define s1 where "s1 = (if b \<noteq> hd (bcache s (hash_idx sec)) then s\<lparr>bcache := q_add b (hash_idx sec) (q_del b (bcache s))\<rparr> else s)"
    have f: "bufs s1 = bufs s" "lru s1 = lru s" "sleeplocks s1 = sleeplocks s" "sd_card s1 = sd_card s"
      "actual_buf_num s1 = actual_buf_num s"
      by (simp_all add: s1_def)
    define t where "t = (upd_buf b (\<lambda>f. f\<lparr>refcnt := refcnt f + 1\<rparr>) s1)\<lparr>lru := remove1 b (lru s),
      sleeplocks := (sleeplocks s)(buf_lock (bufs s b) := \<lparr>sl_locked = 1, sl_pid = pid (cur_pcb s1)\<rparr>)\<rparr>"
    have st: "store_inv (bcache s)" using cache_invD(1) [OF inv(1)] .
    have "store_inv (bcache s1)" "c \<in> set (bcache s1 j) \<longleftrightarrow> c \<in> set (bcache s j)" for c j
      using moved_store [OF st] moved_set [OF st, of c b "hash_idx sec" j] k(3) store_invD(2) [OF st, of b j "hash_idx sec"] st
      by (auto simp: s1_def)
    then have s1: "cache_inv s1" "disk_view s1 = disk_view s"
      using cache_inv_hit [OF inv(1) k(3) f(5,1,4)] by auto
    have same: "same_cache s1 t"
      by (simp add: same_cache_def t_def upd_buf_def)
    have "bget 0 sec s = obind (acquiresleep (buf_lock (bufs s b)) ((upd_buf b (\<lambda>f. f\<lparr>refcnt := refcnt f + 1\<rparr>) s1)\<lparr>lru := remove1 b (lru s)\<rparr>)) (\<lambda>s _. Ret s b)"
      unfolding bget_def Let_def Some option.case s1_def [symmetric] using free(1) [OF b] f by (simp add: upd_buf_def)
    also have "\<dots> = Ret t b"
      using free(2) [OF b] f(3) by (simp add: acquire_unlocked t_def upd_buf_def get_current_running_def)
    finally have "bget 0 sec s = Ret t b" .
    moreover have "lru_inv {b} t"
      by (rule lru_inv_take [OF inv(2) b]) (use free(1) [OF b] f in \<open>auto simp: t_def upd_buf_def\<close>)
    moreover have "hashed t b" "sectorno (bufs t b) = sec"
      using k \<open>\<And>j c. c \<in> set (bcache s1 j) \<longleftrightarrow> c \<in> set (bcache s j)\<close>
      by (simp_all add: hashed_def t_def upd_buf_def f)
    ultimately show ?thesis
      using same_cache_inv [OF same] s1 b f by (auto simp: t_def upd_buf_def)
  next
    case None
    define b where "b = last (lru s)"
    have "lru s \<noteq> []" "set (lru s) = {..<actual_buf_num s}"
      using inv(2,3) by (auto simp: lru_inv_def)
    then have b: "b < actual_buf_num s"
      using last_in_set [of "lru s"] by (auto simp: b_def)
    have miss: "sectorno (bufs s c) \<noteq> sec" if "hashed s c" for c
      using that None cache_invD(2) [OF inv(1), of c "hash_idx sec"] by (auto simp: find_None_iff hashed_def)
    define s1 where "s1 = (if dirty (bufs s b) \<noteq> 0 then disk_write_bio b s else s)"
    have f: "bufs s1 = bufs s" "lru s1 = lru s" "sleeplocks s1 = sleeplocks s" "bcache s1 = bcache s"
      "actual_buf_num s1 = actual_buf_num s"
      by (simp_all add: s1_def disk_write_bio_def)
    define t where "t = s1\<lparr>bufs := (bufs s)(b := (bufs s b)\<lparr>dirty := 0, buf_dev := 0, sectorno := sec, refcnt := 1, valid := 0\<rparr>),
      bcache := q_add b (hash_idx sec) (q_del b (bcache s)), lru := remove1 b (lru s),
      sleeplocks := (sleeplocks s)(buf_lock (bufs s b) := \<lparr>sl_locked = 1, sl_pid = pid (cur_pcb s1)\<rparr>)\<rparr>"
    have "bget 0 sec s = Ret t b"
      using \<open>lru s \<noteq> []\<close> free(2) [OF b] f
      unfolding bget_def Let_def None option.case b_def [symmetric] s1_def [symmetric]
      by (simp add: acquire_unlocked t_def upd_buf_def get_current_running_def)
    moreover have "lru_inv {b} t"
      by (rule lru_inv_take [OF inv(2) b]) (use f in \<open>auto simp: t_def\<close>)
    moreover have "cache_inv t \<and> disk_view t = disk_view s \<and> hashed t b"
      using cache_inv_evict [OF inv(1) b miss, of t] f(5) by (simp add: t_def s1_def disk_write_bio_def)
    ultimately show ?thesis
      using b f(5) by (auto simp: t_def)
  qed
qed

text \<open>A buffer whose content is replaced.\<close>

lemma cache_inv_fill:
  assumes inv: "cache_inv s" and b: "hashed s b"
    and t: "actual_buf_num t = actual_buf_num s" "bcache t = bcache s" "sd_card t = sd_card s"
      "bufs t = (bufs s)(b := x)" "sectorno x = sectorno (bufs s b)" "buf_dev x = buf_dev (bufs s b)" "valid x \<noteq> 0"
      "dirty x = 0 \<Longrightarrow> buf_data x = sd_card s (sectorno x)"
  shows "cache_inv t" and "disk_view t = (disk_view s)(sectorno (bufs s b) := buf_data x)"
proof -
  have sec: "sectorno (bufs t c) = sectorno (bufs s c)" "buf_dev (bufs t c) = buf_dev (bufs s c)" for c
    by (simp_all add: t(4-6))
  have h: "hashed t = hashed s"
    by (rule ext) (simp add: hashed_def sec t(2))
  show c: "cache_inv t"
    unfolding cache_inv_def h sec t(1-3)
  proof (intro conjI allI impI)
    fix c
    assume "c < actual_buf_num s" "dirty (bufs t c) \<noteq> 0"
    then show "hashed s c" "valid (bufs t c) \<noteq> 0"
      using cache_invD(4) [OF inv, of c] b t(7) by (auto simp: t(4) split: if_split_asm)
  next
    fix c
    assume "hashed s c \<and> valid (bufs t c) \<noteq> 0 \<and> dirty (bufs t c) = 0"
    then show "buf_data (bufs t c) = sd_card s (sectorno (bufs s c))"
      using cache_invD(5) [OF inv, of c] t(5,8) by (auto simp: t(4) split: if_split_asm)
  qed (use inv in \<open>auto simp: cache_inv_def\<close>)
  show "disk_view t = (disk_view s)(sectorno (bufs s b) := buf_data x)"
  proof
    fix y
    show "disk_view t y = ((disk_view s)(sectorno (bufs s b) := buf_data x)) y"
    proof (cases "y = sectorno (bufs s b)")
      case True
      then show ?thesis
        using disk_view_hashed [OF c, of b] b by (simp add: h t(4,5,7))
    next
      case other: False
      show ?thesis
      proof (cases "\<exists>c. hashed s c \<and> valid (bufs s c) \<noteq> 0 \<and> sectorno (bufs s c) = y")
        case True
        then obtain c where k: "hashed s c" "valid (bufs s c) \<noteq> 0" "sectorno (bufs s c) = y" by blast
        then have "bufs t c = bufs s c"
          using other by (auto simp: t(4))
        with k other show ?thesis
          using disk_view_hashed [OF inv k(1,2)] disk_view_hashed [OF c, of c] by (simp add: h)
      next
        case False
        then have "disk_view s y = sd_card s y"
          by (intro disk_view_card) auto
        moreover have "disk_view t y = sd_card t y"
          using False other by (intro disk_view_card) (auto simp: h t(4,5) split: if_split_asm)
        ultimately show ?thesis using other by (simp add: t(3))
      qed
    qed
  qed
qed

lemma lru_inv_cong:
  assumes "actual_buf_num t = actual_buf_num s" "lru t = lru s" "sleeplocks t = sleeplocks s"
    "\<And>c. refcnt (bufs t c) = refcnt (bufs s c)" "\<And>c. buf_lock (bufs t c) = buf_lock (bufs s c)"
  shows "lru_inv X t = lru_inv X s"
  unfolding lru_inv_def assms ..

lemma bread_returns:
  assumes "bio_inv s"
  shows "\<exists>t b. bread 0 sec s = Ret t b \<and> cache_inv t \<and> lru_inv {b} t \<and> actual_buf_num t = actual_buf_num s
    \<and> b < actual_buf_num s \<and> buf_data (bufs t b) = disk_view s sec \<and> disk_view t = disk_view s"
proof -
  obtain u b where u: "bget 0 sec s = Ret u b" "cache_inv u" "lru_inv {b} u" "actual_buf_num u = actual_buf_num s"
    "b < actual_buf_num s" "hashed u b" "sectorno (bufs u b) = sec" "disk_view u = disk_view s"
    using bget_returns [OF assms] by blast
  show ?thesis
  proof (cases "valid (bufs u b) = 0")
    case False
    then show ?thesis
      using u disk_view_hashed [OF u(2,6)] by (auto simp: bread_def)
  next
    case True
    let ?x = "(bufs u b)\<lparr>buf_data := sd_card u sec, valid := 1\<rparr>"
    define t where "t = u\<lparr>bufs := (bufs u)(b := ?x)\<rparr>"
    have "dirty (bufs u b) = 0"
      using cache_invD(4) [OF u(2), of b] True u(4,5) by auto
    then have t: "cache_inv t" "disk_view t = (disk_view u)(sec := sd_card u sec)"
      using cache_inv_fill [OF u(2,6), of t ?x] u(7) by (simp_all add: t_def)
    have "disk_view u sec = sd_card u sec"
    proof (rule disk_view_card, rule notI)
      fix c
      assume "hashed u c" "valid (bufs u c) \<noteq> 0" "sectorno (bufs u c) = sec"
      with cache_invD(3) [OF u(2,6), of c] u(7) True show False by simp
    qed
    then have "disk_view t = disk_view s"
      using t(2) u(8) by (simp add: fun_upd_idem)
    moreover have "bread 0 sec s = Ret t b"
      using u(1,7) True by (simp add: bread_def disk_read_bio_def upd_buf_def t_def)
    moreover have "lru_inv {b} t"
      using u(3) by (subst lru_inv_cong [of t u]) (auto simp: t_def)
    ultimately show ?thesis
      using t(1) u \<open>disk_view u sec = sd_card u sec\<close> by (auto simp: t_def)
  qed
qed

lemma bio_inv_brelse:
  assumes "cache_inv t" and "lru_inv {b} t" and "b < actual_buf_num t"
  shows "bio_inv (brelse b t)" and "disk_view (brelse b t) = disk_view t"
  using brelse_restores [OF assms(2,3)] same_cache_inv [of t "brelse b t"] same_cache_fields(9) [of t "brelse b t"] assms
  by (auto simp: bio_inv_def)

section \<open>The contract of a disk\<close>

fun put_sectors :: "nat \<Rightarrow> u32 \<Rightarrow> u8 list \<Rightarrow> (u32 \<Rightarrow> u8 list) \<Rightarrow> u32 \<Rightarrow> u8 list" where
  "put_sectors 0 sec data v = v"
| "put_sectors (Suc n) sec data v = put_sectors n (sec + 1) (drop BSIZE data) (v(sec := take BSIZE data))"

fun get_sectors :: "nat \<Rightarrow> u32 \<Rightarrow> (u32 \<Rightarrow> u8 list) \<Rightarrow> u8 list" where
  "get_sectors 0 sec v = []"
| "get_sectors (Suc n) sec v = v sec @ get_sectors n (sec + 1) v"

datatype disk_op = Read nat u32 | Write nat u32 "u8 list"

text \<open>A run of operations on an ideal disk: the disk afterwards and what the reads returned.\<close>

fun ideal_run :: "disk_op list \<Rightarrow> (u32 \<Rightarrow> u8 list) \<Rightarrow> (u32 \<Rightarrow> u8 list) \<times> u8 list list" where
  "ideal_run [] v = (v, [])"
| "ideal_run (Read n sec # ops) v = (let (w, rs) = ideal_run ops v in (w, get_sectors n sec v # rs))"
| "ideal_run (Write n sec data # ops) v = ideal_run ops (put_sectors n sec data v)"

fun run_disk ::
    "(nat \<Rightarrow> u32 \<Rightarrow> 's \<Rightarrow> ('s, u8 list) outcome) \<Rightarrow> (nat \<Rightarrow> u32 \<Rightarrow> u8 list \<Rightarrow> 's \<Rightarrow> ('s, unit) outcome) \<Rightarrow>
     disk_op list \<Rightarrow> 's \<Rightarrow> ('s, u8 list list) outcome" where
  "run_disk rd wr [] s = Ret s []"
| "run_disk rd wr (Read n sec # ops) s =
    obind (rd n sec s) (\<lambda>s d. obind (run_disk rd wr ops s) (\<lambda>s ds. Ret s (d # ds)))"
| "run_disk rd wr (Write n sec data # ops) s = obind (wr n sec data s) (\<lambda>s _. run_disk rd wr ops s)"

locale disk_api =
  fixes rd :: "nat \<Rightarrow> u32 \<Rightarrow> 's \<Rightarrow> ('s, u8 list) outcome"
    and wr :: "nat \<Rightarrow> u32 \<Rightarrow> u8 list \<Rightarrow> 's \<Rightarrow> ('s, unit) outcome"
    and inv :: "'s \<Rightarrow> bool"
    and view :: "'s \<Rightarrow> u32 \<Rightarrow> u8 list"
  assumes rd_view: "inv s \<Longrightarrow> \<exists>t. rd n sec s = Ret t (get_sectors n sec (view s)) \<and> inv t \<and> view t = view s"
    and wr_view: "inv s \<Longrightarrow> \<exists>t. wr n sec data s = Ret t () \<and> inv t \<and> view t = put_sectors n sec data (view s)"
begin

lemma run_refines:
  "inv s \<Longrightarrow> \<exists>t. run_disk rd wr ops s = Ret t (snd (ideal_run ops (view s))) \<and> inv t
    \<and> view t = fst (ideal_run ops (view s))"
proof (induction ops arbitrary: s)
  case (Cons op ops)
  show ?case
  proof (cases op)
    case (Read n sec)
    obtain t where "rd n sec s = Ret t (get_sectors n sec (view s))" "inv t" "view t = view s"
      using rd_view [OF Cons.prems] by blast
    with Cons.IH [of t] Read show ?thesis
      by (auto split: prod.splits)
  next
    case (Write n sec data)
    obtain t where "wr n sec data s = Ret t ()" "inv t" "view t = put_sectors n sec data (view s)"
      using wr_view [OF Cons.prems] by blast
    with Cons.IH [of t] Write show ?thesis
      by auto
  qed
qed simp

end

lemma disk_read_view:
  "bio_inv s \<Longrightarrow> \<exists>t. disk_read n sec s = Ret t (get_sectors n sec (disk_view s)) \<and> bio_inv t \<and> disk_view t = disk_view s"
proof (induction n arbitrary: sec s)
  case (Suc n)
  obtain t b where t: "bread 0 sec s = Ret t b" "cache_inv t" "lru_inv {b} t" "b < actual_buf_num t"
    "buf_data (bufs t b) = disk_view s sec" "disk_view t = disk_view s"
    using bread_returns [OF Suc.prems, of sec] by auto
  then obtain u where "disk_read n (sec + 1) (brelse b t) = Ret u (get_sectors n (sec + 1) (disk_view s))" "bio_inv u"
    "disk_view u = disk_view s"
    using Suc.IH [of "brelse b t" "sec + 1"] bio_inv_brelse [OF t(2-4)] by auto
  with t(1,5) show ?case
    by (simp add: Let_def)
qed simp

lemma disk_write_view:
  "bio_inv s \<Longrightarrow> \<exists>t. disk_write n sec data s = Ret t () \<and> bio_inv t \<and> disk_view t = put_sectors n sec data (disk_view s)"
proof (induction n arbitrary: sec data s)
  case (Suc n)
  obtain u b where u: "bget 0 sec s = Ret u b" "cache_inv u" "lru_inv {b} u" "actual_buf_num u = actual_buf_num s"
    "b < actual_buf_num s" "hashed u b" "sectorno (bufs u b) = sec" "disk_view u = disk_view s"
    using bget_returns [OF Suc.prems] by blast
  let ?x = "(bufs u b)\<lparr>buf_data := take BSIZE data, valid := 1, dirty := 1\<rparr>"
  define t where "t = u\<lparr>bufs := (bufs u)(b := ?x)\<rparr>"
  have t: "cache_inv t" "disk_view t = (disk_view s)(sec := take BSIZE data)"
    using cache_inv_fill [OF u(2,6), of t ?x] u(7,8) by (simp_all add: t_def)
  have "lru_inv {b} t"
    using u(3) by (subst lru_inv_cong [of t u]) (auto simp: t_def)
  moreover have "b < actual_buf_num t"
    using u(4,5) by (simp add: t_def)
  ultimately have br: "bio_inv (brelse b t)" "disk_view (brelse b t) = (disk_view s)(sec := take BSIZE data)"
    using bio_inv_brelse [OF t(1)] t(2) by auto
  then obtain v where "disk_write n (sec + 1) (drop BSIZE data) (brelse b t) = Ret v ()" "bio_inv v"
    "disk_view v = put_sectors n (sec + 1) (drop BSIZE data) ((disk_view s)(sec := take BSIZE data))"
    using Suc.IH [OF br(1), of "sec + 1" "drop BSIZE data"] unfolding br(2) by blast
  with u(1) show ?case
    by (simp add: upd_buf_def t_def)
qed simp

interpretation bio: disk_api disk_read disk_write bio_inv disk_view
  by unfold_locales (fact disk_read_view, fact disk_write_view)

section \<open>Writing back\<close>

lemma bsync_one_clean: "dirty (bufs s b) = 0 \<Longrightarrow> bsync_one b s = s"
proof -
  assume d: "dirty (bufs s b) = 0"
  then have "(bufs s b)\<lparr>dirty := 0\<rparr> = bufs s b"
    by (cases "bufs s b") simp
  then show ?thesis
    using d by (intro os.equality) (simp_all add: bsync_one_def upd_buf_def fun_upd_idem)
qed

lemma bsync_one_inv:
  assumes inv: "cache_inv s" and b: "b < actual_buf_num s"
  shows "cache_inv (bsync_one b s)" and "disk_view (bsync_one b s) = disk_view s"
proof -
  let ?t = "bsync_one b s"
  have "cache_inv ?t \<and> disk_view ?t = disk_view s"
  proof (cases "dirty (bufs s b) = 0")
    case True
    then show ?thesis using inv by (simp add: bsync_one_clean)
  next
    case False
    then have d: "hashed s b" "valid (bufs s b) \<noteq> 0"
      using cache_invD(4) [OF inv b] by auto
    have t: "bufs ?t = (bufs s)(b := (bufs s b)\<lparr>dirty := 0\<rparr>)" "bcache ?t = bcache s" "actual_buf_num ?t = actual_buf_num s"
      "sd_card ?t = (sd_card s)(sectorno (bufs s b) := buf_data (bufs s b))"
      using False by (simp_all add: bsync_one_def upd_buf_def disk_write_bio_def)
    have f: "sectorno (bufs ?t c) = sectorno (bufs s c)" "buf_dev (bufs ?t c) = buf_dev (bufs s c)"
      "valid (bufs ?t c) = valid (bufs s c)" "buf_data (bufs ?t c) = buf_data (bufs s c)" for c
      by (simp_all add: t(1))
    have h: "hashed ?t = hashed s"
      by (rule ext) (simp add: hashed_def f t(2))
    have sd: "sd_card ?t (sectorno (bufs s c)) = (if c = b then buf_data (bufs s b) else sd_card s (sectorno (bufs s c)))"
      if "hashed s c" for c
      using cache_invD(3) [OF inv that d(1)] by (auto simp: t(4))
    have c: "cache_inv ?t"
      unfolding cache_inv_def h f t(2,3)
    proof (intro conjI allI impI)
      fix c
      assume "c < actual_buf_num s" "dirty (bufs ?t c) \<noteq> 0"
      then show "hashed s c" "valid (bufs s c) \<noteq> 0"
        using cache_invD(4) [OF inv, of c] by (auto simp: t(1) split: if_split_asm)
    next
      fix c
      assume "hashed s c \<and> valid (bufs s c) \<noteq> 0 \<and> dirty (bufs ?t c) = 0"
      then show "buf_data (bufs s c) = sd_card ?t (sectorno (bufs s c))"
        using cache_invD(5) [OF inv, of c] sd [of c] by (auto simp: t(1) split: if_split_asm)
    qed (use inv in \<open>auto simp: cache_inv_def\<close>)
    moreover have "disk_view ?t y = disk_view s y" for y
    proof (cases "\<exists>c. hashed s c \<and> valid (bufs s c) \<noteq> 0 \<and> sectorno (bufs s c) = y")
      case True
      then show ?thesis
        using disk_view_hashed [OF inv] disk_view_hashed [OF c] by (auto simp: h f)
    next
      case False
      then have "disk_view s y = sd_card s y" "disk_view ?t y = sd_card ?t y"
        by (intro disk_view_card; auto simp: h f)+
      then show ?thesis
        using False d by (auto simp: t(4))
    qed
    ultimately show ?thesis by blast
  qed
  then show "cache_inv ?t" and "disk_view ?t = disk_view s" by auto
qed

lemma bsync_one_fields [simp]:
  "actual_buf_num (bsync_one b s) = actual_buf_num s" "lru (bsync_one b s) = lru s" "sleeplocks (bsync_one b s) = sleeplocks s"
  "refcnt (bufs (bsync_one b s) c) = refcnt (bufs s c)" "buf_lock (bufs (bsync_one b s) c) = buf_lock (bufs s c)"
  "dirty (bufs (bsync_one b s) c) = (if c = b then 0 else dirty (bufs s c))"
  by (simp_all add: bsync_one_def upd_buf_def disk_write_bio_def)

lemma bsync_fold:
  assumes "cache_inv s" and "set xs \<subseteq> {..<actual_buf_num s}"
  shows "cache_inv (fold bsync_one xs s) \<and> disk_view (fold bsync_one xs s) = disk_view s
    \<and> (\<forall>X. lru_inv X (fold bsync_one xs s) = lru_inv X s) \<and> actual_buf_num (fold bsync_one xs s) = actual_buf_num s
    \<and> (\<forall>c. dirty (bufs (fold bsync_one xs s) c) = (if c \<in> set xs then 0 else dirty (bufs s c)))"
  using assms
proof (induction xs arbitrary: s)
  case (Cons x xs)
  have "lru_inv X (bsync_one x s) = lru_inv X s" for X
    by (rule lru_inv_cong) simp_all
  then show ?case
    using Cons.IH [of "bsync_one x s"] Cons.prems bsync_one_inv [of s x] by auto
qed simp

section \<open>Properties\<close>

text \<open>C4: The buffer cache is transparent: for every sequence of reads and writes of sectors, the reads
  return what an ideal disk returns, which always holds what was last written, however many buffers
  there are, whichever are evicted and written back on the way, and no operation blocks.\<close>

theorem buffer_cache_refines_disk:
  assumes "bio_inv s"
  shows "\<exists>t. run_disk disk_read disk_write ops s = Ret t (snd (ideal_run ops (disk_view s)))
    \<and> bio_inv t \<and> disk_view t = fst (ideal_run ops (disk_view s))"
  using bio.run_refines [OF assms] .

definition demo_bio :: os where
  "demo_bio = demo_os\<lparr>sleeplocks := (\<lambda>_. \<lparr>sl_locked = 0, sl_pid = 0\<rparr>)\<rparr>"

lemma demo_bio_inv: "bio_inv demo_bio"
proof -
  have "cache_inv demo_bio"
    by (auto simp: cache_inv_def hashed_def demo_bio_def demo_os_simps zero_buf_def store_inv_def)
  moreover have "lru_inv {} demo_bio"
    by (auto simp: lru_inv_def demo_bio_def demo_os_simps zero_buf_def inj_on_def lessThan_Suc numeral_2_eq_2)
  ultimately show ?thesis
    by (simp add: bio_inv_def demo_bio_def demo_os_simps)
qed

theorem buffer_cache_refines_disk_witness:
  "\<exists>t. run_disk disk_read disk_write [Write 1 7 [1, 2], Read 2 6, Read 1 7] demo_bio
     = Ret t (snd (ideal_run [Write 1 7 [1, 2], Read 2 6, Read 1 7] (disk_view demo_bio))) \<and> bio_inv t"
  using buffer_cache_refines_disk [OF demo_bio_inv] by blast

text \<open>C36: \<open>bsync\<close> brings the card up to date: afterwards the card itself holds, for every sector, what the
  cached disk shows, which is unchanged, and no buffer is dirty.\<close>

theorem bsync_writes_back:
  assumes "bio_inv s"
  shows "bio_inv (bsync s) \<and> disk_view (bsync s) = disk_view s \<and> sd_card (bsync s) = disk_view s
    \<and> (\<forall>b < actual_buf_num s. dirty (bufs (bsync s) b) = 0)"
proof -
  have inv: "cache_inv s" "lru_inv {} s" "0 < actual_buf_num s"
    using assms by (simp_all add: bio_inv_def)
  have l: "set (lru s) = {..<actual_buf_num s}"
    using inv(2) by (simp add: lru_inv_def)
  note f = bsync_fold [OF inv(1), of "lru s", unfolded bsync_def [symmetric]]
  then have b: "bio_inv (bsync s)" "disk_view (bsync s) = disk_view s" "\<forall>b < actual_buf_num s. dirty (bufs (bsync s) b) = 0"
    using inv l by (auto simp: bio_inv_def)
  have "disk_view (bsync s) x = sd_card (bsync s) x" for x
  proof (cases "\<exists>c. hashed (bsync s) c \<and> valid (bufs (bsync s) c) \<noteq> 0 \<and> sectorno (bufs (bsync s) c) = x")
    case True
    then obtain c where c: "hashed (bsync s) c" "valid (bufs (bsync s) c) \<noteq> 0" "sectorno (bufs (bsync s) c) = x" by blast
    have i: "cache_inv (bsync s)" using b(1) by (simp add: bio_inv_def)
    have "c < actual_buf_num s"
      using cache_invD(2) [OF i] c(1) f l by (auto simp: hashed_def)
    then show ?thesis
      using disk_view_hashed [OF i c(1,2)] cache_invD(5) [OF i c(1,2)] b(3) c(3) by simp
  next
    case False
    then show ?thesis by (intro disk_view_card) blast
  qed
  with b show ?thesis by auto
qed

theorem bsync_writes_back_witness:
  "sd_card (bsync demo_bio) = disk_view demo_bio"
  using bsync_writes_back [OF demo_bio_inv] by blast

end
