(* ===== verification/Swap.thy ===== *)
theory Swap
  imports Globals
begin

text \<open>
  Swapping pages to the card: the second-chance clock of \<open>kernel/swap/swap.c\<close>, \<open>include/swap/swap.h\<close> and the
  transfers \<open>disk_read_swap\<close> and \<open>disk_write_swap\<close> of \<open>drivers/sdcard/disk.c\<close>. A page that is freed
  does not move the clock hand; a hand that is not on the list of swappable pages any more has no
  defined behaviour and is a panic of the model.
\<close>

section \<open>Words and bytes\<close>

text \<open>The bytes of a word, the least significant first.\<close>

definition word_bytes :: "u64 \<Rightarrow> u8 list" where
  "word_bytes w = map (\<lambda>k. ucast (drop_bit (8 * k) w)) [0..<8]"

definition bytes_word :: "u8 list \<Rightarrow> u64" where
  "bytes_word bs = foldr (\<lambda>b w. ucast b OR push_bit 8 w) bs 0"

lemma bytes_word_take:
  "bytes_word (map (\<lambda>k. ucast (drop_bit (8 * k) w)) [k..<k + n]) = take_bit (8 * n) (drop_bit (8 * k) w)"
proof (induction n arbitrary: k)
  case 0
  then show ?case by (simp add: bytes_word_def)
next
  case (Suc n)
  have e: "[k..<k + Suc n] = k # [Suc k..<Suc k + n]"
    by (simp add: upt_rec)
  have "bytes_word (map (\<lambda>k. ucast (drop_bit (8 * k) w)) [k..<k + Suc n]) =
     ucast (ucast (drop_bit (8 * k) w) :: u8) OR push_bit 8 (take_bit (8 * n) (drop_bit (8 * Suc k) w))"
    unfolding e using Suc [of "Suc k"] by (simp add: bytes_word_def)
  also have "\<dots> = take_bit (8 * Suc n) (drop_bit (8 * k) w)"
    by (rule bit_word_eqI) (auto simp: bit_simps)
  finally show ?case .
qed

lemma bytes_word_bytes [simp]: "bytes_word (word_bytes w) = w"
  using bytes_word_take [of w 0 8] by (simp add: word_bytes_def take_bit_word_eq_self)

lemma length_word_bytes [simp]: "length (word_bytes w) = 8"
  by (simp add: word_bytes_def)

section \<open>Transfers\<close>

abbreviation (input) SEC_NUM_PAGE :: "'a os_scheme \<Rightarrow> u64" where
  "SEC_NUM_PAGE s \<equiv> PAGE_SIZE div ucast (SECTOR_SIZE (fat s))"

abbreviation (input) SD_SWAP_SPACE :: "'a os_scheme \<Rightarrow> u64" where
  "SD_SWAP_SPACE s \<equiv> ucast (first_data_sec (fat s) + 10000)"

text \<open>One sector: 64 words from an address on.\<close>

definition sector_of_mem :: "mem64 \<Rightarrow> u64 \<Rightarrow> u8 list" where
  "sector_of_mem m a = concat (map (\<lambda>j. word_bytes (m (a + 8 * of_nat j))) [0..<64])"

definition mem_of_sector :: "u8 list \<Rightarrow> u64 \<Rightarrow> mem64 \<Rightarrow> mem64" where
  "mem_of_sector d a m = fold (\<lambda>j m. m(a + 8 * of_nat j := bytes_word (take 8 (drop (8 * j) d)))) [0..<64] m"

definition disk_write_swap :: "u64 \<Rightarrow> u32 \<Rightarrow> nat \<Rightarrow> 'a os_scheme \<Rightarrow> 'a os_scheme" where
  "disk_write_swap data_buff sector cnt s =
    s\<lparr>sd_card := fold (\<lambda>i c. c(sector + of_nat i := sector_of_mem (mem s) (data_buff + 512 * of_nat i)))
       [0..<cnt] (sd_card s)\<rparr>"

definition disk_read_swap :: "u64 \<Rightarrow> u32 \<Rightarrow> nat \<Rightarrow> 'a os_scheme \<Rightarrow> 'a os_scheme" where
  "disk_read_swap data_buff sector cnt s =
    s\<lparr>mem := fold (\<lambda>i m. mem_of_sector (sd_card s (sector + of_nat i)) (data_buff + 512 * of_nat i) m)
       [0..<cnt] (mem s)\<rparr>"

definition get_swap_sec :: "'a os_scheme \<Rightarrow> 'a os_scheme \<times> u32" where
  "get_swap_sec s = (s\<lparr>swap_offset := swap_offset s + SEC_NUM_PAGE s\<rparr>, ucast (swap_offset s))"

definition get_swap_sd :: "u64 \<Rightarrow> u64 \<Rightarrow> 'a mmkernel_scheme \<Rightarrow> u64" where
  "get_swap_sd va pgd s =
    (let m = mem s in
     if pte_at m pgd (vpn 2 va) = 0 then 0
     else let second_page = table_of (pte_at m pgd (vpn 2 va)) in
       if pte_at m second_page (vpn 1 va) = 0 then 0
       else let third_page = table_of (pte_at m second_page (vpn 1 va)) in
         if pte_at m third_page (vpn 0 va) = 0 then 0
         else get_pfn (pte_at m third_page (vpn 0 va)))"

section \<open>The clock\<close>

text \<open>The node after a page in the ring of swappable pages, skipping the list head.\<close>

definition swap_succ :: "'a mmkernel_scheme \<Rightarrow> nat \<Rightarrow> nat" where
  "swap_succ s i =
    (let xs = page_lists s swapPageList; ys = tl (dropWhile (\<lambda>j. j \<noteq> i) xs) in if ys = [] then hd xs else hd ys)"

definition swap_pte :: "'a mmkernel_scheme \<Rightarrow> nat \<Rightarrow> u64" where
  "swap_pte s i = mem s (page_pte (pageRecyc s i))"

text \<open>\<open>find_swap_AD\<close>: one turn of the ring from the hand.\<close>

definition find_swap_AD :: "nat \<Rightarrow> 'a mmkernel_scheme \<Rightarrow> nat option" where
  "find_swap_AD hand s =
    (let xs = page_lists s swapPageList in
     find (\<lambda>i. page_pte (pageRecyc s i) \<noteq> NULL \<and> \<not> check_attribute (swap_pte s i) (PAGE_ACCESSED OR PAGE_DIRTY)
               \<and> check_attribute (swap_pte s i) PAGE_WRITE)
       (dropWhile (\<lambda>j. j \<noteq> hand) xs @ takeWhile (\<lambda>j. j \<noteq> hand) xs))"

text \<open>\<open>find_swap_A\<close>: the loop ends when a page is found, or when the next node is the page itself, which
  is so only on a ring of one page. \<open>None\<close> is a loop that has not ended with the fuel.\<close>

fun find_A_loop :: "nat \<Rightarrow> nat \<Rightarrow> 'a mmkernel_scheme \<Rightarrow> ('a mmkernel_scheme \<times> nat option) option" where
  "find_A_loop 0 i s = None"
| "find_A_loop (Suc n) i s =
    (if page_pte (pageRecyc s i) \<noteq> NULL \<and> \<not> check_attribute (swap_pte s i) PAGE_ACCESSED
        \<and> check_attribute (swap_pte s i) PAGE_WRITE then Some (s, Some i)
     else
       let s = (if page_pte (pageRecyc s i) \<noteq> NULL
                then upd_mem (page_pte (pageRecyc s i)) (\<lambda>e. clear_attribute e PAGE_ACCESSED) s else s);
           q = swap_succ s i
       in if q = i then Some (s, None) else find_A_loop n q s)"

text \<open>Two turns of the ring and one step are enough for every run that ends.\<close>

definition find_swap_A :: "nat \<Rightarrow> 'a mmkernel_scheme \<Rightarrow> ('a mmkernel_scheme \<times> nat option) option" where
  "find_swap_A hand s = find_A_loop (2 * length (page_lists s swapPageList) + 1) hand s"

text \<open>\<open>find_swap_page\<close> looks four times; a search that does not end is a panic.\<close>

definition find_swap_page :: "nat \<Rightarrow> 'a mmkernel_scheme \<Rightarrow> ('a mmkernel_scheme, nat) outcome" where
  "find_swap_page hand s =
    (case find_swap_AD hand s of Some i \<Rightarrow> Ret s i
     | None \<Rightarrow> (case find_swap_A hand s of
         None \<Rightarrow> Panic s
       | Some (s, Some i) \<Rightarrow> Ret s i
       | Some (s, None) \<Rightarrow> (case find_swap_AD hand s of Some i \<Rightarrow> Ret s i
           | None \<Rightarrow> (case find_swap_A hand s of
               None \<Rightarrow> Panic s
             | Some (s, Some i) \<Rightarrow> Ret s i
             | Some (s, None) \<Rightarrow> Panic s))))"

text \<open>The sector for a page that is swapped out, after its content has been written there when needed.\<close>

definition swap_out :: "nat \<Rightarrow> 'a os_scheme \<Rightarrow> 'a os_scheme \<times> u64" where
  "swap_out i s =
    (let p = pageRecyc s i in
     if check_attribute (swap_pte s i) PAGE_DIRTY then
       let (s, w_sec) = (if sd_sec p \<noteq> 0 then (s, sd_sec p) else (let (s, x) = get_swap_sec s in (s, ucast x)))
       in (disk_write_swap (kva_begin p) (ucast (w_sec + SD_SWAP_SPACE s)) (unat (SEC_NUM_PAGE s)) s, w_sec)
     else if sd_sec p = 0 then
       let (s, x) = get_swap_sec s; w_sec = ucast x
       in (disk_write_swap (kva_begin p) (ucast (w_sec + SD_SWAP_SPACE s)) (unat (SEC_NUM_PAGE s)) s, w_sec)
     else (s, sd_sec p))"

definition clock_algorithm :: "'a os_scheme \<Rightarrow> ('a os_scheme, nat) outcome" where
  "clock_algorithm s =
    (let xs = page_lists s swapPageList in
     if xs = [] then Panic s
     else
       let hand = (case clock_pointer s of None \<Rightarrow> hd xs | Some p \<Rightarrow> p) in
       if hand \<notin> set xs then Panic s
       else obind (find_swap_page hand s) (\<lambda>s i.
         let s = s\<lparr>clock_pointer := Some (swap_succ s i)\<rparr>;
             (s, w_sec) = swap_out i s;
             pte = page_pte (pageRecyc s i);
             s = upd_mem pte (\<lambda>e. set_pfn e w_sec) s;
             s = upd_mem pte (\<lambda>e. clear_attribute e PAGE_PRESENT) s;
             s = upd_mem pte (\<lambda>e. add_attribute e PAGE_SD) s
         in Ret s i))"

section \<open>A swapped page comes back\<close>

lemma length_sector_of_mem [simp]: "length (sector_of_mem m a) = 512"
  by (simp add: sector_of_mem_def length_concat o_def sum_list_triv)

lemma take_concat_words:
  "j < length xs \<Longrightarrow> take 8 (drop (8 * j) (concat (map word_bytes xs))) = word_bytes (xs ! j)"
proof (induction j arbitrary: xs)
  case 0
  then show ?case by (cases xs) simp_all
next
  case (Suc j)
  then show ?case by (cases xs) (simp_all add: drop_append)
qed

lemma sector_word: "j < 64 \<Longrightarrow> bytes_word (take 8 (drop (8 * j) (sector_of_mem m a))) = m (a + 8 * of_nat j)"
  using take_concat_words [of j "map (\<lambda>j. m (a + 8 * of_nat j)) [0..<64]"] by (simp add: sector_of_mem_def o_def)

lemma fold_upd_other: "a \<notin> f ` set xs \<Longrightarrow> fold (\<lambda>i m. m(f i := g i)) xs m a = m a"
  by (induction xs arbitrary: m) auto

lemma fold_upd_at:
  "inj_on f (set xs) \<Longrightarrow> distinct xs \<Longrightarrow> i \<in> set xs \<Longrightarrow> fold (\<lambda>i m. m(f i := g i)) xs m (f i) = g i"
proof (induction xs arbitrary: m)
  case (Cons x xs)
  show ?case
  proof (cases "i = x")
    case True
    then have "f i \<notin> f ` set xs"
      using Cons.prems by (auto dest: inj_onD)
    then have "fold (\<lambda>i m. m(f i := g i)) xs (m(f x := g x)) (f i) = (m(f x := g x)) (f i)"
      by (rule fold_upd_other)
    then show ?thesis
      using True by (simp only: fold.simps o_apply fun_upd_same)
  next
    case False
    then show ?thesis using Cons by (simp add: inj_on_def)
  qed
qed simp

lemma word_mul_inj: "j < 2 ^ 32 \<Longrightarrow> k < 2 ^ 32 \<Longrightarrow> (8 * of_nat j :: u64) = 8 * of_nat k \<longleftrightarrow> j = k"
proof -
  assume "j < 2 ^ 32" "k < 2 ^ 32"
  then have "unat (8 * of_nat j :: u64) = 8 * j" "unat (8 * of_nat k :: u64) = 8 * k"
    by (simp_all add: unat_word_ariths unat_of_nat take_bit_nat_eq_self)
  then show ?thesis
    by (metis mult_left_cancel zero_neq_numeral)
qed

lemma word_addr_inj: "j < 2 ^ 32 \<Longrightarrow> k < 2 ^ 32 \<Longrightarrow> (a :: u64) + 8 * of_nat j = a + 8 * of_nat k \<longleftrightarrow> j = k"
  using word_mul_inj [of j k] by simp

lemma mem_of_sector_at:
  assumes "j < 64"
  shows "mem_of_sector d a m (a + 8 * of_nat j) = bytes_word (take 8 (drop (8 * j) d))"
  unfolding mem_of_sector_def
  by (rule fold_upd_at) (use assms in \<open>auto simp: inj_on_def word_mul_inj\<close>)

lemma mem_of_sector_other:
  "(\<And>j. j < 64 \<Longrightarrow> x \<noteq> a + 8 * of_nat j) \<Longrightarrow> mem_of_sector d a m x = m x"
  unfolding mem_of_sector_def by (rule fold_upd_other) fastforce

lemma sector_addr: "(a :: u64) + 512 * of_nat i + 8 * of_nat j = a + 8 * of_nat (64 * i + j)"
  by (simp add: algebra_simps)

lemma read_sectors_at:
  assumes "n \<le> 2 ^ 20" and "\<And>i. i < n \<Longrightarrow> c (sec + of_nat i) = sector_of_mem m0 (a + 512 * of_nat i)"
  shows "k < 64 * n \<Longrightarrow> fold (\<lambda>i m. mem_of_sector (c (sec + of_nat i)) (b + 512 * of_nat i) m) [0..<n] m (b + 8 * of_nat k)
      = m0 (a + 8 * of_nat k)"
  using assms
proof (induction n)
  case (Suc n)
  let ?M = "fold (\<lambda>i m. mem_of_sector (c (sec + of_nat i)) (b + 512 * of_nat i) m) [0..<n] m"
  show ?case
  proof (cases "k < 64 * n")
    case True
    have "b + 8 * of_nat k \<noteq> b + 512 * of_nat n + 8 * of_nat j" if "j < 64" for j
      unfolding sector_addr using True Suc.prems(2) that by (subst word_addr_inj) auto
    then have "mem_of_sector (c (sec + of_nat n)) (b + 512 * of_nat n) ?M (b + 8 * of_nat k) = ?M (b + 8 * of_nat k)"
      by (rule mem_of_sector_other)
    then show ?thesis
      using Suc.IH [OF True] Suc.prems by simp
  next
    case False
    then obtain j where j: "k = 64 * n + j" "j < 64"
      using Suc.prems(1) by (metis add_diff_inverse_nat less_diff_conv2 mult_Suc_right nat_add_left_cancel_less add.commute not_less)
    then show ?thesis
      using Suc.prems(3) [of n] mem_of_sector_at [OF j(2), of "c (sec + of_nat n)" "b + 512 * of_nat n" ?M]
        sector_word [OF j(2), of m0 "a + 512 * of_nat n"]
      by (simp add: sector_addr del: of_nat_add of_nat_mult)
  qed
qed simp

lemma swap_round_trip_words:
  assumes "n \<le> 2 ^ 20" and "sd_card t = sd_card (disk_write_swap a sec n s)" and "k < 64 * n"
  shows "mem (disk_read_swap b sec n t) (b + 8 * of_nat k) = mem s (a + 8 * of_nat k)"
proof -
  let ?c = "sd_card t"
  have inj: "inj_on (\<lambda>i. sec + of_nat i) (set [0..<n])"
  proof (rule inj_onI)
    fix i j
    assume "i \<in> set [0..<n]" "j \<in> set [0..<n]" "sec + of_nat i = sec + (of_nat j :: u32)"
    then have "(of_nat i :: u32) = of_nat j" "i < 2 ^ 32" "j < 2 ^ 32"
      using assms(1) by auto
    then show "i = j"
      by (metis unat_of_nat_i32)
  qed
  have "?c (sec + of_nat i) = sector_of_mem (mem s) (a + 512 * of_nat i)" if "i < n" for i
    using fold_upd_at [OF inj, of i "\<lambda>i. sector_of_mem (mem s) (a + 512 * of_nat i)" "sd_card s"] that assms(2)
    by (simp add: disk_write_swap_def)
  from read_sectors_at [OF assms(1) this assms(3), of b "mem t"] show ?thesis
    by (simp add: disk_read_swap_def)
qed

section \<open>The clock finds a page\<close>

text \<open>A page that can be swapped out: it is known which entry maps it, and that is writable.\<close>

definition swappable :: "'a mmkernel_scheme \<Rightarrow> nat \<Rightarrow> bool" where
  "swappable s i \<longleftrightarrow> page_pte (pageRecyc s i) \<noteq> NULL \<and> check_attribute (swap_pte s i) PAGE_WRITE"

lemma dropWhile_nth:
  assumes "distinct xs" and "k < length xs"
  shows "dropWhile (\<lambda>j. j \<noteq> xs ! k) xs = drop k xs"
proof -
  have "xs ! k \<notin> set (take k xs)"
    using assms by (auto simp: in_set_conv_nth nth_eq_iff_index_eq)
  then have "dropWhile (\<lambda>j. j \<noteq> xs ! k) (take k xs @ drop k xs) = dropWhile (\<lambda>j. j \<noteq> xs ! k) (drop k xs)"
    by (intro dropWhile_append2) auto
  also have "\<dots> = dropWhile (\<lambda>j. j \<noteq> xs ! k) (xs ! k # drop (Suc k) xs)"
    using Cons_nth_drop_Suc [OF assms(2)] by simp
  also have "\<dots> = xs ! k # drop (Suc k) xs"
    by simp
  also have "\<dots> = drop k xs"
    by (rule Cons_nth_drop_Suc [OF assms(2)])
  finally show ?thesis
    by simp
qed

lemma swap_succ_nth:
  assumes "distinct (page_lists s swapPageList)" and "k < length (page_lists s swapPageList)"
  shows "swap_succ s (page_lists s swapPageList ! k)
    = page_lists s swapPageList ! (Suc k mod length (page_lists s swapPageList))"
proof -
  let ?xs = "page_lists s swapPageList"
  have ne: "?xs \<noteq> []"
    using assms(2) by auto
  have "tl (dropWhile (\<lambda>j. j \<noteq> ?xs ! k) ?xs) = drop (Suc k) ?xs"
    unfolding dropWhile_nth [OF assms] by (simp add: tl_drop drop_Suc)
  then show ?thesis
    using assms(2) hd_conv_nth [OF ne] by (cases "Suc k = length ?xs") (auto simp: swap_succ_def Let_def hd_conv_nth hd_drop_conv_nth)
qed

lemma clear_bits [simp]:
  "check_attribute (clear_attribute e PAGE_ACCESSED) PAGE_WRITE \<longleftrightarrow> check_attribute e PAGE_WRITE"
  "check_attribute (clear_attribute e PAGE_ACCESSED) PAGE_DIRTY \<longleftrightarrow> check_attribute e PAGE_DIRTY"
  "\<not> check_attribute (clear_attribute e PAGE_ACCESSED) PAGE_ACCESSED"
  by (simp_all add: check_attribute_def clear_attribute_def and.assoc)

text \<open>Some accessed bits have been cleared.\<close>

definition aged :: "mem64 \<Rightarrow> mem64 \<Rightarrow> bool" where
  "aged m m' \<longleftrightarrow> (\<forall>a. m' a = m a \<or> m' a = clear_attribute (m a) PAGE_ACCESSED)"

lemma aged_refl [simp]: "aged m m"
  by (simp add: aged_def)

lemma clear_twice [simp]: "clear_attribute (clear_attribute e b) b = clear_attribute e b"
  by (simp add: clear_attribute_def and.assoc)

lemma aged_trans: "aged m m' \<Longrightarrow> aged m' m'' \<Longrightarrow> aged m m''"
  unfolding aged_def by (metis clear_twice)

lemma aged_bits:
  assumes "aged m m'"
  shows "check_attribute (m' a) PAGE_WRITE \<longleftrightarrow> check_attribute (m a) PAGE_WRITE"
    and "check_attribute (m' a) PAGE_DIRTY \<longleftrightarrow> check_attribute (m a) PAGE_DIRTY"
    and "\<not> check_attribute (m a) PAGE_ACCESSED \<Longrightarrow> \<not> check_attribute (m' a) PAGE_ACCESSED"
  using assms clear_bits unfolding aged_def by metis+

lemma aged_swappable: "aged (mem s) m' \<Longrightarrow> swappable (s\<lparr>mem := m'\<rparr>) i = swappable s i"
  by (simp add: swappable_def swap_pte_def aged_bits)

text \<open>One step of \<open>find_swap_A\<close> on a page that is not taken.\<close>

definition pass_over :: "nat \<Rightarrow> 'a mmkernel_scheme \<Rightarrow> 'a mmkernel_scheme" where
  "pass_over i s = (if page_pte (pageRecyc s i) \<noteq> NULL
     then upd_mem (page_pte (pageRecyc s i)) (\<lambda>e. clear_attribute e PAGE_ACCESSED) s else s)"

definition taken :: "'a mmkernel_scheme \<Rightarrow> nat \<Rightarrow> bool" where
  "taken s i \<longleftrightarrow> swappable s i \<and> \<not> check_attribute (swap_pte s i) PAGE_ACCESSED"

lemma pass_over_fields [simp]:
  "page_lists (pass_over i s) = page_lists s" "pageRecyc (pass_over i s) = pageRecyc s"
  "swap_succ (pass_over i s) j = swap_succ s j"
  by (simp_all add: pass_over_def swap_succ_def)

lemma pass_over_aged: "aged (mem s) (mem (pass_over i s))"
  by (auto simp: aged_def pass_over_def upd_mem_def)

lemma pass_over_mem: "pass_over i s = s\<lparr>mem := mem (pass_over i s)\<rparr>"
  by (simp add: pass_over_def upd_mem_def)

lemma pass_over_clears: "swappable s i \<Longrightarrow> taken (pass_over i s) i"
  by (simp add: taken_def swappable_def swap_pte_def pass_over_def)

lemma taken_pass_over: "taken s i \<Longrightarrow> taken (pass_over j s) i"
  using pass_over_aged [of s j] by (simp add: taken_def swappable_def swap_pte_def aged_bits)

lemma swappable_pass_over [simp]: "swappable (pass_over j s) i = swappable s i"
  using pass_over_aged [of s j] by (simp add: swappable_def swap_pte_def aged_bits)

lemma find_A_loop_step:
  "find_A_loop (Suc n) i s =
    (if taken s i then Some (s, Some i)
     else if swap_succ s i = i then Some (pass_over i s, None)
     else find_A_loop n (swap_succ s i) (pass_over i s))"
  by (auto simp: taken_def swappable_def Let_def pass_over_def swap_succ_def)

declare find_A_loop.simps(2) [simp del]

lemma find_A_loop_result:
  assumes "find_A_loop n i s = Some (t, r)"
    and "distinct (page_lists s swapPageList)" and "i \<in> set (page_lists s swapPageList)"
  shows "\<exists>m'. t = s\<lparr>mem := m'\<rparr> \<and> aged (mem s) m'
    \<and> (\<forall>j. r = Some j \<longrightarrow> j \<in> set (page_lists s swapPageList) \<and> swappable s j)"
  using assms
proof (induction n arbitrary: i s)
  case (Suc n)
  let ?xs = "page_lists s swapPageList"
  have mem: "swap_succ s i \<in> set ?xs"
    using swap_succ_nth [OF Suc.prems(2)] Suc.prems(3)
    by (metis in_set_conv_nth length_pos_if_in_set mod_less_divisor)
  show ?case
  proof (cases "taken s i")
    case True
    then have "t = s\<lparr>mem := mem s\<rparr>" "r = Some i" "swappable s i"
      using Suc.prems(1) by (simp_all add: find_A_loop_step taken_def)
    with Suc.prems(3) show ?thesis by (intro exI [of _ "mem s"]) simp
  next
    case not_taken: False
    show ?thesis
    proof (cases "swap_succ s i = i")
    case True
    then have "t = pass_over i s" "r = None"
      using Suc.prems(1) not_taken by (simp_all add: find_A_loop_step)
    then show ?thesis
      using pass_over_aged [of s i] pass_over_mem [of i s] by (intro exI [of _ "mem (pass_over i s)"]) simp
  next
    case False
    then have "find_A_loop n (swap_succ s i) (pass_over i s) = Some (t, r)"
      using Suc.prems(1) not_taken by (simp add: find_A_loop_step)
    then obtain m' where m': "t = (pass_over i s)\<lparr>mem := m'\<rparr>" "aged (mem (pass_over i s)) m'"
      "\<forall>j. r = Some j \<longrightarrow> j \<in> set ?xs \<and> swappable s j"
      using Suc.IH [of "swap_succ s i" "pass_over i s"] Suc.prems(2) mem by auto
    have "t = s\<lparr>mem := m'\<rparr>"
      unfolding m'(1) by (subst pass_over_mem) simp
    with m'(2,3) aged_trans [OF pass_over_aged [of s i] m'(2)] show ?thesis by blast
    qed
  qed
qed simp

text \<open>On a ring of at least two pages the search ends when some page can be swapped.\<close>

lemma find_A_loop_reaches:
  assumes "distinct xs" and "2 \<le> length xs" and "kj < length xs"
  shows "page_lists s swapPageList = xs \<Longrightarrow> k < length xs \<Longrightarrow> (k + d) mod length xs = kj \<Longrightarrow> taken s (xs ! kj) \<Longrightarrow> d < n \<Longrightarrow>
    \<exists>t j. find_A_loop n (xs ! k) s = Some (t, Some j)"
proof (induction n arbitrary: d k s)
  case (Suc n)
  show ?case
  proof (cases "taken s (xs ! k)")
    case True
    then show ?thesis by (simp add: find_A_loop_step)
  next
    case False
    let ?k = "Suc k mod length xs"
    have k: "?k < length xs"
      using assms(2) by (intro mod_less_divisor) linarith
    have succ: "swap_succ s (xs ! k) = xs ! ?k"
      using swap_succ_nth [of s k] Suc.prems assms by auto
    have "k \<noteq> kj" using False Suc.prems by auto
    then obtain d' where d: "d = Suc d'"
      using Suc.prems by (cases d) auto
    have "?k \<noteq> k"
      using assms(2) Suc.prems(2) by (cases "Suc k = length xs") auto
    then have ne: "xs ! ?k \<noteq> xs ! k"
      using assms(1) k Suc.prems(2) by (simp add: nth_eq_iff_index_eq)
    have "(?k + d') mod length xs = kj"
      using Suc.prems(3) by (simp add: d mod_add_left_eq)
    then have "\<exists>t j. find_A_loop n (xs ! ?k) (pass_over (xs ! k) s) = Some (t, Some j)"
      using Suc.IH [of "pass_over (xs ! k) s" ?k d'] Suc.prems k taken_pass_over [OF Suc.prems(4), of "xs ! k"] d by simp
    then show ?thesis
      using False succ ne by (simp add: find_A_loop_step)
  qed
qed simp

lemma find_A_loop_found:
  assumes "distinct xs" and "2 \<le> length xs" and "kj < length xs"
  shows "page_lists s swapPageList = xs \<Longrightarrow> k < length xs \<Longrightarrow> (k + d) mod length xs = kj \<Longrightarrow> swappable s (xs ! kj) \<Longrightarrow>
    d + length xs < n \<Longrightarrow> \<exists>t j. find_A_loop n (xs ! k) s = Some (t, Some j)"
proof (induction n arbitrary: d k s)
  case (Suc n)
  show ?case
  proof (cases "taken s (xs ! k)")
    case True
    then show ?thesis by (simp add: find_A_loop_step)
  next
    case False
    let ?k = "Suc k mod length xs" and ?s = "pass_over (xs ! k) s"
    have k: "?k < length xs"
      using assms(2) by (intro mod_less_divisor) linarith
    have succ: "swap_succ s (xs ! k) = xs ! ?k"
      using swap_succ_nth [of s k] Suc.prems assms by auto
    have "?k \<noteq> k"
      using assms(2) Suc.prems(2) by (cases "Suc k = length xs") auto
    then have ne: "xs ! ?k \<noteq> xs ! k"
      using assms(1) k Suc.prems(2) by (simp add: nth_eq_iff_index_eq)
    have "\<exists>t j. find_A_loop n (xs ! ?k) ?s = Some (t, Some j)"
    proof (cases "d = 0")
      case True
      then have "k = kj" using Suc.prems by simp
      then have "taken ?s (xs ! kj)"
        using Suc.prems pass_over_clears by simp
      moreover have "(?k + (length xs - 1)) mod length xs = kj"
      proof (cases "Suc kj = length xs")
        case False
        have "Suc kj + (length xs - 1) = kj + length xs"
          using assms(2) by linarith
        then show ?thesis
          using False \<open>k = kj\<close> assms(3) by simp
      qed (use \<open>k = kj\<close> in auto)
      ultimately show ?thesis
        using find_A_loop_reaches [OF assms, of ?s ?k "length xs - 1" n] Suc.prems k by simp
    next
      case False
      then obtain d' where d: "d = Suc d'" by (cases d) auto
      have "(?k + d') mod length xs = kj"
        using Suc.prems(3) by (simp add: d mod_add_left_eq)
      then show ?thesis
        using Suc.IH [of ?s ?k d'] Suc.prems k d by simp
    qed
    then show ?thesis
      using False succ ne by (simp add: find_A_loop_step)
  qed
qed simp

lemma find_SomeD: "find P xs = Some x \<Longrightarrow> x \<in> set xs \<and> P x"
  by (auto simp: find_Some_iff)

lemma find_swap_AD_result: "find_swap_AD hand s = Some i \<Longrightarrow> i \<in> set (page_lists s swapPageList) \<and> swappable s i"
  unfolding find_swap_AD_def Let_def
  by (drule find_SomeD) (auto simp: swappable_def dest: set_dropWhileD set_takeWhileD)

lemma find_swap_A_found:
  assumes "distinct (page_lists s swapPageList)" and "hand \<in> set (page_lists s swapPageList)"
    and "j \<in> set (page_lists s swapPageList)" and "swappable s j" and "2 \<le> length (page_lists s swapPageList)"
  shows "\<exists>t i. find_swap_A hand s = Some (t, Some i)"
proof -
  let ?xs = "page_lists s swapPageList"
  obtain k kj where k: "k < length ?xs" "hand = ?xs ! k" and kj: "kj < length ?xs" "j = ?xs ! kj"
    using assms(2,3) by (auto simp: in_set_conv_nth)
  define d where "d = (kj + length ?xs - k) mod length ?xs"
  have "d < length ?xs"
    unfolding d_def using assms(5) by (intro mod_less_divisor) linarith
  moreover have "(k + d) mod length ?xs = kj"
    using k(1) kj(1) by (simp add: d_def mod_add_right_eq)
  ultimately show ?thesis
    unfolding find_swap_A_def k(2)
    using find_A_loop_found [OF assms(1,5) kj(1) refl k(1), of d "2 * length ?xs + 1"] assms(4) kj(2) by simp
qed

lemma find_swap_page_returns:
  assumes "distinct (page_lists s swapPageList)" and "hand \<in> set (page_lists s swapPageList)"
    and "j \<in> set (page_lists s swapPageList)" and "swappable s j"
  shows "\<exists>m' i. find_swap_page hand s = Ret (s\<lparr>mem := m'\<rparr>) i \<and> aged (mem s) m'
    \<and> i \<in> set (page_lists s swapPageList) \<and> swappable s i"
proof (cases "find_swap_AD hand s")
  case (Some i)
  then show ?thesis
    using find_swap_AD_result [OF Some] by (intro exI [of _ "mem s"] exI [of _ i]) (simp add: find_swap_page_def)
next
  case None
  show ?thesis
  proof (cases "2 \<le> length (page_lists s swapPageList)")
    case True
    from find_swap_A_found [OF assms this] obtain t i where f: "find_swap_A hand s = Some (t, Some i)" by blast
    with find_A_loop_result [OF f [unfolded find_swap_A_def] assms(1,2)] show ?thesis
      by (auto simp: find_swap_page_def None)
  next
    case False
    then have xs: "page_lists s swapPageList = [hand]" and "j = hand"
      using assms(2,3) by (cases "page_lists s swapPageList"; auto simp: Suc_le_eq)+
    show ?thesis
    proof (cases "taken s hand")
      case True
      then have "find_swap_A hand s = Some (s, Some hand)"
        by (simp add: find_swap_A_def find_A_loop_step)
      then show ?thesis
        using assms(4) \<open>j = hand\<close> xs by (intro exI [of _ "mem s"] exI [of _ hand]) (simp add: find_swap_page_def None)
    next
      case False
      let ?t = "pass_over hand s"
      have "swap_succ s hand = hand"
        by (simp add: swap_succ_def xs)
      with False have a: "find_swap_A hand s = Some (?t, None)"
        by (simp add: find_swap_A_def find_A_loop_step)
      have "taken ?t hand"
        using assms(4) \<open>j = hand\<close> pass_over_clears by blast
      then have "find_swap_A hand ?t = Some (?t, Some hand)"
        by (simp add: find_swap_A_def find_A_loop_step)
      then have "\<exists>i. find_swap_page hand s = Ret ?t i \<and> i \<in> set (page_lists s swapPageList) \<and> swappable s i"
        using a find_swap_AD_result [of hand ?t] assms(4) \<open>j = hand\<close> xs
        by (cases "find_swap_AD hand ?t") (auto simp: find_swap_page_def None)
      then show ?thesis
        using pass_over_aged [of s hand] pass_over_mem [of hand s] by metis
    qed
  qed
qed

section \<open>Evicting a page\<close>

lemma get_pfn_clear_attribute: "b AND mask 10 = b \<Longrightarrow> get_pfn (clear_attribute e b) = get_pfn e"
  unfolding get_pfn_def clear_attribute_def mask_64_10 Let_def
  by (drule sym, erule ssubst, intro bit_eqI) (auto simp: bit_simps)

lemma get_pfn_add_attribute: "b AND mask 10 = b \<Longrightarrow> get_pfn (add_attribute e b) = get_pfn e"
  unfolding get_pfn_def add_attribute_def mask_64_10 Let_def
  by (drule sym, erule ssubst, intro bit_eqI) (auto simp: bit_simps)

lemma get_set_pfn: "w < 2 ^ 44 \<Longrightarrow> get_pfn (add_attribute (clear_attribute (set_pfn e w) PAGE_PRESENT) PAGE_SD) = w"
proof -
  assume "w < 2 ^ 44"
  then have "take_bit 44 w = w"
    by (intro word_unat_eq_iff [THEN iffD2]) (simp add: unsigned_take_bit_eq take_bit_nat_eq_self word_less_nat_alt)
  then have "get_pfn (set_pfn e w) = w"
    by (intro get_pfn_set_pfn) (simp add: take_bit_eq_mask)
  moreover have "(1 :: u64) AND mask 10 = 1" "(512 :: u64) AND mask 10 = 512"
    by (simp_all add: mask_eq_exp_minus_1)
  ultimately show ?thesis
    by (simp only: get_pfn_add_attribute get_pfn_clear_attribute)
qed

lemma evicted_bits:
  "\<not> check_attribute (add_attribute (clear_attribute e PAGE_PRESENT) PAGE_SD) PAGE_PRESENT"
  "check_attribute (add_attribute e PAGE_SD) PAGE_SD"
  by (simp_all add: check_attribute_def add_attribute_def clear_attribute_def and.assoc bit.conj_disj_distrib2)

text \<open>The entry and the sector a page has to be written to.\<close>

definition evicted :: "u64 \<Rightarrow> u64 \<Rightarrow> u64" where
  "evicted e w_sec = add_attribute (clear_attribute (set_pfn e w_sec) PAGE_PRESENT) PAGE_SD"

lemma swap_out_sector: "sd_sec (pageRecyc s i) < 2 ^ 44 \<Longrightarrow> snd (swap_out i s) < 2 ^ 44"
proof -
  have "ucast (x :: u32) < (2 ^ 44 :: u64)" for x
    using unat_lt_i32 [of x] by (simp add: word_less_nat_alt unsigned_ucast_eq take_bit_nat_eq_self)
  then show "sd_sec (pageRecyc s i) < 2 ^ 44 \<Longrightarrow> ?thesis"
    by (auto simp: swap_out_def get_swap_sec_def Let_def)
qed

lemma swap_out_fields [simp]:
  "mem (fst (swap_out i s)) = mem s" "pageRecyc (fst (swap_out i s)) = pageRecyc s"
  "page_lists (fst (swap_out i s)) = page_lists s" "fat (fst (swap_out i s)) = fat s"
  by (auto simp: swap_out_def disk_write_swap_def get_swap_sec_def Let_def)

lemma swap_out_writes:
  assumes "check_attribute (swap_pte s i) PAGE_DIRTY \<or> sd_sec (pageRecyc s i) = 0"
  shows "sd_card (fst (swap_out i s)) =
    sd_card (disk_write_swap (kva_begin (pageRecyc s i)) (ucast (snd (swap_out i s) + SD_SWAP_SPACE s)) (unat (SEC_NUM_PAGE s)) s)"
  using assms by (auto simp: swap_out_def get_swap_sec_def disk_write_swap_def Let_def)

lemma swap_out_keeps:
  "sd_sec (pageRecyc s i) \<noteq> 0 \<Longrightarrow> snd (swap_out i s) = sd_sec (pageRecyc s i)"
  "\<not> check_attribute (swap_pte s i) PAGE_DIRTY \<Longrightarrow> sd_sec (pageRecyc s i) \<noteq> 0 \<Longrightarrow> sd_card (fst (swap_out i s)) = sd_card s"
  by (simp_all add: swap_out_def Let_def)

lemma clock_algorithm_result:
  assumes "distinct (page_lists s swapPageList)" and "case_option True (\<lambda>p. p \<in> set (page_lists s swapPageList)) (clock_pointer s)"
    and "j \<in> set (page_lists s swapPageList)" and "swappable s j"
  shows "\<exists>m' i s2 w_sec. swap_out i (s\<lparr>mem := m', clock_pointer := Some (swap_succ s i)\<rparr>) = (s2, w_sec)
    \<and> aged (mem s) m' \<and> i \<in> set (page_lists s swapPageList) \<and> swappable s i
    \<and> clock_algorithm s =
        Ret (s2\<lparr>mem := m'(page_pte (pageRecyc s i) := evicted (m' (page_pte (pageRecyc s i))) w_sec)\<rparr>) i"
proof -
  define hand where "hand = (case clock_pointer s of None \<Rightarrow> hd (page_lists s swapPageList) | Some p \<Rightarrow> p)"
  have ne: "page_lists s swapPageList \<noteq> []"
    using assms(3) by auto
  then have hand: "hand \<in> set (page_lists s swapPageList)"
    using assms(2) by (auto simp: hand_def split: option.splits)
  from find_swap_page_returns [OF assms(1) hand assms(3,4)] obtain m' i where
    f: "find_swap_page hand s = Ret (s\<lparr>mem := m'\<rparr>) i" "aged (mem s) m'" "i \<in> set (page_lists s swapPageList)" "swappable s i"
    by blast
  let ?s1 = "s\<lparr>mem := m', clock_pointer := Some (swap_succ s i)\<rparr>"
  have succ: "swap_succ (s\<lparr>mem := m'\<rparr>) i = swap_succ s i"
    by (simp add: swap_succ_def)
  obtain s2 w_sec where o: "swap_out i ?s1 = (s2, w_sec)"
    by fastforce
  then have m: "mem s2 = m'" "pageRecyc s2 = pageRecyc s"
    using swap_out_fields [of i ?s1] by simp_all
  have "clock_algorithm s = Ret (s2\<lparr>mem := m'(page_pte (pageRecyc s i) := evicted (m' (page_pte (pageRecyc s i))) w_sec)\<rparr>) i"
    using ne hand f(1) o m succ
    by (simp add: clock_algorithm_def Let_def hand_def [symmetric] evicted_def upd_mem_def)
  with f o show ?thesis
    by blast
qed

text \<open>C19: When some page of the ring of swappable pages is mapped writable, the clock algorithm ends and evicts such a
  page: its entry is not present any more, is marked as being on the card and holds the number of the swap
  sector as its page frame number. A page that has a sector keeps it. When the page was dirty or had no sector yet,
  reading the sector gives back the words of the page; when it was clean and had a sector, nothing is written and the
  card is as it was, so reading the sector gives what was last written there.\<close>

theorem clock_algorithm_evicts:
  assumes "distinct (page_lists s swapPageList)"
    and "case_option True (\<lambda>p. p \<in> set (page_lists s swapPageList)) (clock_pointer s)"
    and "j \<in> set (page_lists s swapPageList)" and "swappable s j"
    and "\<forall>i \<in> set (page_lists s swapPageList). sd_sec (pageRecyc s i) < 2 ^ 44"
    and "\<forall>i \<in> set (page_lists s swapPageList). \<forall>k < 512. page_pte (pageRecyc s i) \<noteq> kva_begin (pageRecyc s i) + 8 * of_nat k"
    and "SECTOR_SIZE (fat s) = 512"
  shows "\<exists>t i. clock_algorithm s = Ret t i \<and> i \<in> set (page_lists s swapPageList) \<and> swappable s i
    \<and> \<not> check_attribute (swap_pte t i) PAGE_PRESENT \<and> check_attribute (swap_pte t i) PAGE_SD
    \<and> (sd_sec (pageRecyc s i) \<noteq> 0 \<longrightarrow> get_pfn (swap_pte t i) = sd_sec (pageRecyc s i))
    \<and> (\<not> check_attribute (swap_pte s i) PAGE_DIRTY \<and> sd_sec (pageRecyc s i) \<noteq> 0 \<longrightarrow> sd_card t = sd_card s)
    \<and> (check_attribute (swap_pte s i) PAGE_DIRTY \<or> sd_sec (pageRecyc s i) = 0 \<longrightarrow>
        (\<forall>b. \<forall>k < 512. mem (disk_read_swap b (ucast (get_pfn (swap_pte t i) + SD_SWAP_SPACE t)) 8 t) (b + 8 * of_nat k)
           = mem t (kva_begin (pageRecyc t i) + 8 * of_nat k)))"
proof -
  from clock_algorithm_result [OF assms(1-4)] obtain m' i s2 w_sec where
    r: "swap_out i (s\<lparr>mem := m', clock_pointer := Some (swap_succ s i)\<rparr>) = (s2, w_sec)" "aged (mem s) m'"
      "i \<in> set (page_lists s swapPageList)" "swappable s i"
      "clock_algorithm s = Ret (s2\<lparr>mem := m'(page_pte (pageRecyc s i) := evicted (m' (page_pte (pageRecyc s i))) w_sec)\<rparr>) i"
    by blast
  let ?s1 = "s\<lparr>mem := m', clock_pointer := Some (swap_succ s i)\<rparr>" and ?p = "pageRecyc s i"
  define t where "t = s2\<lparr>mem := m'(page_pte ?p := evicted (m' (page_pte ?p)) w_sec)\<rparr>"
  have f: "pageRecyc t = pageRecyc s" "fat t = fat s" "sd_card t = sd_card s2"
    using swap_out_fields [of i ?s1] r(1) by (simp_all add: t_def)
  have e: "swap_pte t i = evicted (m' (page_pte ?p)) w_sec"
    using f by (simp add: swap_pte_def t_def)
  have w: "w_sec < 2 ^ 44"
    using swap_out_sector [of ?s1 i] r(1,3) assms(5) by simp
  have pfn: "get_pfn (swap_pte t i) = w_sec"
    using e w by (simp add: evicted_def get_set_pfn)
  have "get_pfn (swap_pte t i) = sd_sec ?p" if "sd_sec ?p \<noteq> 0"
    unfolding pfn using swap_out_keeps(1) [of ?s1 i] that r(1) by simp
  moreover have "sd_card t = sd_card s" if "\<not> check_attribute (swap_pte s i) PAGE_DIRTY \<and> sd_sec ?p \<noteq> 0"
  proof -
    have "\<not> check_attribute (swap_pte ?s1 i) PAGE_DIRTY"
      using that r(2) by (simp add: swap_pte_def aged_bits)
    then show ?thesis
      using swap_out_keeps(2) [of ?s1 i] that r(1) f(3) by simp
  qed
  moreover have "mem (disk_read_swap b (ucast (get_pfn (swap_pte t i) + SD_SWAP_SPACE t)) 8 t) (b + 8 * of_nat k)
      = mem t (kva_begin ?p + 8 * of_nat k)"
    if d: "check_attribute (swap_pte s i) PAGE_DIRTY \<or> sd_sec ?p = 0" and k: "k < 512" for b k
  proof -
    have "check_attribute (swap_pte ?s1 i) PAGE_DIRTY \<or> sd_sec (pageRecyc ?s1 i) = 0"
      using d r(2) by (simp add: swap_pte_def aged_bits)
    from swap_out_writes [OF this] r(1) have d: "sd_card s2 =
        sd_card (disk_write_swap (kva_begin ?p) (ucast (w_sec + SD_SWAP_SPACE s)) (unat (SEC_NUM_PAGE s)) ?s1)"
      by simp
    have n: "unat (SEC_NUM_PAGE s) = 8"
      using assms(7) by simp
    have "mem (disk_read_swap b (ucast (w_sec + SD_SWAP_SPACE s)) 8 t) (b + 8 * of_nat k) = mem ?s1 (kva_begin ?p + 8 * of_nat k)"
      by (rule swap_round_trip_words) (use d n f(3) k in simp_all)
    moreover have "mem t (kva_begin ?p + 8 * of_nat k) = m' (kva_begin ?p + 8 * of_nat k)"
      using assms(6) [rule_format, OF r(3) k] by (auto simp: t_def)
    ultimately show ?thesis
      using e w f(2) by (simp add: evicted_def get_set_pfn)
  qed
  moreover have "clock_algorithm s = Ret t i"
    using r(5) by (simp add: t_def)
  moreover have "\<not> check_attribute (swap_pte t i) PAGE_PRESENT" "check_attribute (swap_pte t i) PAGE_SD"
    unfolding e evicted_def by (rule evicted_bits)+
  ultimately show ?thesis
    using r(3,4) f(1) by (intro exI [of _ t] exI [of _ i] conjI impI allI) auto
qed

text \<open>A ring of two pages that are both mapped, accessed and dirty.\<close>

definition demo_swap :: os where
  "demo_swap = demo_os\<lparr>page_lists := (page_lists demo_os)(swapPageList := [0, 1]),
     pageRecyc := (\<lambda>i. \<lparr>page_pte = 8 * of_nat i + 8, kva_begin = FREEMEM + of_nat i * PAGE_SIZE, sd_sec = 0,
        share_num = 1, is_share = 0\<rparr>),
     mem := (\<lambda>_. 0)(8 := PAGE_PRESENT OR PAGE_WRITE OR PAGE_ACCESSED OR PAGE_DIRTY,
                  16 := PAGE_PRESENT OR PAGE_WRITE OR PAGE_ACCESSED OR PAGE_DIRTY)\<rparr>"

lemma low_address_not_in_page:
  assumes "k < 512" and "4096 \<le> unat (a - b)"
  shows "(a :: u64) \<noteq> b + 8 * of_nat k"
proof
  assume "a = b + 8 * of_nat k"
  then have "unat (a - b) = unat (8 * of_nat k :: u64)"
    by simp
  also have "\<dots> = 8 * k"
    using assms(1) by (simp add: unat_word_ariths unat_of_nat take_bit_nat_eq_self)
  finally show False
    using assms by simp
qed

lemma clock_algorithm_evicts_witness:
  "\<exists>t i. clock_algorithm demo_swap = Ret t i \<and> i \<in> set (page_lists demo_swap swapPageList) \<and> swappable demo_swap i
    \<and> \<not> check_attribute (swap_pte t i) PAGE_PRESENT \<and> check_attribute (swap_pte t i) PAGE_SD
    \<and> (sd_sec (pageRecyc demo_swap i) \<noteq> 0 \<longrightarrow> get_pfn (swap_pte t i) = sd_sec (pageRecyc demo_swap i))
    \<and> (\<not> check_attribute (swap_pte demo_swap i) PAGE_DIRTY \<and> sd_sec (pageRecyc demo_swap i) \<noteq> 0 \<longrightarrow> sd_card t = sd_card demo_swap)
    \<and> (check_attribute (swap_pte demo_swap i) PAGE_DIRTY \<or> sd_sec (pageRecyc demo_swap i) = 0 \<longrightarrow>
        (\<forall>b. \<forall>k < 512. mem (disk_read_swap b (ucast (get_pfn (swap_pte t i) + SD_SWAP_SPACE t)) 8 t) (b + 8 * of_nat k)
           = mem t (kva_begin (pageRecyc t i) + 8 * of_nat k)))"
proof (rule clock_algorithm_evicts)
  show "swappable demo_swap 1"
    by (simp add: swappable_def swap_pte_def demo_swap_def check_attribute_def)
  show "\<forall>i\<in>set (page_lists demo_swap swapPageList). \<forall>k<512.
      page_pte (pageRecyc demo_swap i) \<noteq> kva_begin (pageRecyc demo_swap i) + 8 * of_nat k"
    by (intro ballI allI impI low_address_not_in_page) (auto simp: demo_swap_def)
qed (simp_all add: demo_swap_def demo_os_simps demo_fat_def)

text \<open>C38: A page written to the swap space and read back later, into any page frame, has the words it had, as long
  as the sectors on the card have not changed in between.\<close>

theorem swap_round_trip:
  assumes "n \<le> 2 ^ 20" and "sd_card t = sd_card (disk_write_swap a sec n s)" and "k < 64 * n"
  shows "mem (disk_read_swap b sec n t) (b + 8 * of_nat k) = mem s (a + 8 * of_nat k)"
  by (rule swap_round_trip_words [OF assms])

lemma swap_round_trip_witness:
  "mem (disk_read_swap 8192 100 8 (disk_write_swap 16 100 8 demo_swap)) (8192 + 8 * of_nat 0) = mem demo_swap (16 + 8 * of_nat 0)
   \<and> mem demo_swap (16 + 8 * of_nat 0) = PAGE_PRESENT OR PAGE_WRITE OR PAGE_ACCESSED OR PAGE_DIRTY"
  using swap_round_trip [of 8 "disk_write_swap 16 100 8 demo_swap" 16 100 demo_swap 0 8192]
  by (simp add: demo_swap_def)

end
