(* ===== verification/Fault.thy ===== *)
theory Fault
  imports Swap
begin

text \<open>
  Page faults and the program break: \<open>kernel/mm/mmirq.c\<close>, the fault handlers of \<open>kernel/irq/irq.c\<close> and
  \<open>kernel/mm/mmap.c\<close>. A fault handler that gives up calls \<open>handle_other\<close>, which prints the registers and ends in
  \<open>assert(0)\<close>. The file operations \<open>load_lazy_mmap\<close> calls, \<open>fat32_lseek\<close> and \<open>fat32_read\<close>, are arguments of the
  definitions, because \<open>fat32_read\<close> itself takes page faults on its destination.
\<close>

section \<open>Mapped files\<close>

abbreviation (input) ROUND :: "u64 \<Rightarrow> u64" where "ROUND a \<equiv> (a + 4095) AND NOT 4095"
abbreviation (input) ROUNDDOWN :: "u64 \<Rightarrow> u64" where "ROUNDDOWN a \<equiv> a AND NOT 4095"
abbreviation (input) SEEK_SET :: u32 where "SEEK_SET \<equiv> 0"
abbreviation (input) SEEK_CUR :: u32 where "SEEK_CUR \<equiv> 1"
abbreviation (input) USER_STACK_HIGN :: u64 where "USER_STACK_HIGN \<equiv> 0xf00000000"

type_synonym 's lseek_fun = "u32 \<Rightarrow> u64 \<Rightarrow> u32 \<Rightarrow> 's \<Rightarrow> ('s, i64) outcome"
type_synonym 's read_fun = "u32 \<Rightarrow> ptr \<Rightarrow> u64 \<Rightarrow> 's \<Rightarrow> ('s, i64) outcome"

abbreviation (input) MAX_FILE_NUM :: "'a os_scheme \<Rightarrow> nat" where
  "MAX_FILE_NUM s \<equiv> unat (rlim_cur (mylimit s))"

text \<open>\<open>&current_running->pfd[i]\<close>.\<close>

definition cur_fd :: "'a os_scheme \<Rightarrow> nat \<Rightarrow> fd" where
  "cur_fd s i = table_pfd (pfd_tab s (pfd (cur_pcb s))) i"

text \<open>Whether the fault is in the mapping of a descriptor, and the kernel addresses between which the file is
  read: \<open>len\<close> is an \<open>int\<close>.\<close>

definition in_mmap :: "fd \<Rightarrow> u64 \<Rightarrow> bool" where
  "in_mmap nfd fault_addr \<longleftrightarrow> fd_used nfd \<noteq> 0 \<and> mmap_used (fd_mmap nfd) \<noteq> 0 \<and>
    mmap_start (fd_mmap nfd) \<le> fault_addr \<and> fault_addr \<le> mmap_len (fd_mmap nfd) + mmap_start (fd_mmap nfd)"

definition lazy_begin :: "u64 \<Rightarrow> u64 \<Rightarrow> u64 \<Rightarrow> u64" where
  "lazy_begin start fault_addr kva =
    (let left_page = fault_addr - ROUNDDOWN fault_addr in
     if fault_addr AND 0xfff \<noteq> 0
     then (if left_page < fault_addr - start then ROUNDDOWN kva else kva - (fault_addr - start))
     else kva)"

definition lazy_end :: "u64 \<Rightarrow> u64 \<Rightarrow> u64 \<Rightarrow> u64" where
  "lazy_end mmap_end fault_addr kva =
    (if fault_addr AND 0xfff \<noteq> 0
     then (if ROUND fault_addr - fault_addr < mmap_end - fault_addr then ROUND kva else kva + (mmap_end - fault_addr))
     else kva + (if mmap_end - fault_addr < PAGE_SIZE then mmap_end - fault_addr else PAGE_SIZE))"

definition lazy_load :: "'a os_scheme lseek_fun \<Rightarrow> 'a os_scheme read_fun \<Rightarrow> nat \<Rightarrow> u64 \<Rightarrow> u64 \<Rightarrow> 'a os_scheme \<Rightarrow>
    ('a os_scheme, unit) outcome" where
  "lazy_load lseek rd i fault_addr kva s =
    (if in_mmap (cur_fd s i) fault_addr then
       obind (lseek (fd_num (cur_fd s i)) 0 SEEK_CUR s) (\<lambda>s old_seek.
         let nfd = cur_fd s i; start = mmap_start (fd_mmap nfd); len = ucast (mmap_len (fd_mmap nfd)) :: i32;
             begin = lazy_begin start fault_addr kva; e = lazy_end (start + scast len) fault_addr kva
         in obind (lseek (fd_num nfd) (mmap_off (fd_mmap nfd) + (fault_addr - start)) SEEK_SET s) (\<lambda>s _.
            obind (rd (fd_num (cur_fd s i)) begin (e - begin) s) (\<lambda>s _.
            obind (lseek (fd_num (cur_fd s i)) (scast (ucast old_seek :: i32)) SEEK_SET s) (\<lambda>s _. Ret s ()))))
     else Ret s ())"

fun lazy_loop :: "'a os_scheme lseek_fun \<Rightarrow> 'a os_scheme read_fun \<Rightarrow> nat list \<Rightarrow> u64 \<Rightarrow> u64 \<Rightarrow> 'a os_scheme \<Rightarrow>
    ('a os_scheme, unit) outcome" where
  "lazy_loop lseek rd [] fault_addr kva s = Ret s ()"
| "lazy_loop lseek rd (i # is) fault_addr kva s =
    obind (lazy_load lseek rd i fault_addr kva s) (\<lambda>s _. lazy_loop lseek rd is fault_addr kva s)"

text \<open>The characters of \<open>lat_pagefault\<close>.\<close>

definition lat_pagefault :: "u8 list" where
  "lat_pagefault = [108, 97, 116, 95, 112, 97, 103, 101, 102, 97, 117, 108, 116]"

definition load_lazy_mmap :: "'a os_scheme lseek_fun \<Rightarrow> 'a os_scheme read_fun \<Rightarrow> u64 \<Rightarrow> u64 \<Rightarrow> 'a os_scheme \<Rightarrow>
    ('a os_scheme, unit) outcome" where
  "load_lazy_mmap lseek rd fault_addr kva s =
    (if test_name s = lat_pagefault then Ret s ()
     else lazy_loop lseek rd [0..<MAX_FILE_NUM s] fault_addr kva s)"

section \<open>The three kinds of fault\<close>

definition to_swap_list :: "nat \<Rightarrow> 'a mmkernel_scheme \<Rightarrow> 'a mmkernel_scheme" where
  "to_swap_list i s = s\<lparr>page_lists := q_add_tail i swapPageList (q_del i (page_lists s))\<rparr>"

text \<open>\<open>deal_no_W\<close>: copy on write.\<close>

definition deal_no_W :: "u64 \<Rightarrow> 'a os_scheme \<Rightarrow> ('a os_scheme, unit) outcome" where
  "deal_no_W fault_addr s =
    (let pgd = pgdir (cur_pcb s);
         fault_pte = get_PTE_of (mem s) fault_addr pgd
     in if fault_pte = NULL then Panic s else
     let fault_kva = pa2kva (push_bit 12 (get_pfn (mem s fault_pte)));
         fault_page_node = GET_MEM_NODE fault_kva
     in if share_num (pageRecyc s fault_page_node) = 1 then
          let s = (if status_ctx s \<noteq> 0 then upd_page fault_page_node (\<lambda>p. p\<lparr>page_pte := fault_pte\<rparr>) s else s)
          in Ret (upd_mem fault_pte (\<lambda>e. set_attribute e (get_attribute e OR PAGE_WRITE)) s) ()
        else
          let s = share_sub fault_kva s
          in if status_ctx s \<noteq> 0 \<and> source_num s < threshold s then
               obind (clock_algorithm s) (\<lambda>s swapPage.
                 let s = (if page_pte (pageRecyc s fault_page_node) = fault_pte
                          then upd_page fault_page_node (\<lambda>p. p\<lparr>page_pte := NULL\<rparr>) s else s);
                     kva = kva_begin (pageRecyc s swapPage);
                     s = share_pgtable kva fault_kva s
                 in obind (alloc_page_point_phyc fault_addr pgd kva MAP_USER s) (\<lambda>s _.
                    Ret (upd_mem (page_pte (pageRecyc s swapPage)) (\<lambda>e. add_attribute e PAGE_DIRTY) s) ()))
             else obind (allocPage s) (\<lambda>s top.
               let new_page = top - PAGE_SIZE;
                   page = GET_MEM_NODE new_page;
                   s = (if status_ctx s \<noteq> 0
                        then upd_page page (\<lambda>p. p\<lparr>sd_sec := 0, page_pte := fault_pte\<rparr>) (to_swap_list page s) else s);
                   s = share_pgtable new_page fault_kva s;
                   s = upd_mem fault_pte (\<lambda>e. set_pfn e (drop_bit 12 (kva2pa new_page))) s;
                   s = upd_mem fault_pte (\<lambda>e. set_attribute e (get_attribute e OR (PAGE_WRITE OR PAGE_DIRTY))) s
               in Ret s ()))"

definition mark_page :: "u64 \<Rightarrow> nat \<Rightarrow> 'a mmkernel_scheme \<Rightarrow> 'a mmkernel_scheme" where
  "mark_page mode i s =
    upd_mem (page_pte (pageRecyc s i)) (\<lambda>e. add_attribute e (if mode = ucast STORE then PAGE_DIRTY else PAGE_ACCESSED)) s"

definition deal_no_alloc :: "'a os_scheme lseek_fun \<Rightarrow> 'a os_scheme read_fun \<Rightarrow> u64 \<Rightarrow> u64 \<Rightarrow> 'a os_scheme \<Rightarrow>
    ('a os_scheme, unit) outcome" where
  "deal_no_alloc lseek rd fault_addr mode s =
    (let pgd = pgdir (cur_pcb s) in
     if source_num s < threshold s \<and> status_ctx s \<noteq> 0 then
       obind (clock_algorithm s) (\<lambda>s swapPage.
         let kva = kva_begin (pageRecyc s swapPage);
             s = s\<lparr>mem := clear_pgdir kva (mem s)\<rparr>
         in obind (alloc_page_point_phyc fault_addr pgd kva MAP_USER s) (\<lambda>s _. Ret (mark_page mode swapPage s) ()))
     else obind (alloc_page_helper fault_addr pgd MAP_USER s) (\<lambda>s kva.
       if status_ctx s = 0 then load_lazy_mmap lseek rd fault_addr (ROUNDDOWN kva) s
       else
         let page = GET_MEM_NODE kva
         in Ret (mark_page mode page (to_swap_list page s)) ()))"

definition deal_in_SD :: "u64 \<Rightarrow> 'a os_scheme \<Rightarrow> ('a os_scheme, unit) outcome" where
  "deal_in_SD fault_addr s =
    (let pgd = pgdir (cur_pcb s);
         sd = get_swap_sd fault_addr pgd s;
         read_in = (\<lambda>kva s. disk_read_swap kva (ucast (sd + SD_SWAP_SPACE s)) (unat (SEC_NUM_PAGE s)) s)
     in if source_num s < threshold s then
          obind (clock_algorithm s) (\<lambda>s swapPage.
            let kva = kva_begin (pageRecyc s swapPage)
            in obind (alloc_page_point_phyc fault_addr pgd kva MAP_USER (read_in kva s)) (\<lambda>s _.
               Ret (upd_page swapPage (\<lambda>p. p\<lparr>sd_sec := sd\<rparr>) s) ()))
        else obind (allocPage s) (\<lambda>s top.
          let new_kva = top - PAGE_SIZE
          in obind (alloc_page_point_phyc fault_addr pgd new_kva MAP_USER (read_in new_kva s)) (\<lambda>s _.
             Ret (upd_page (GET_MEM_NODE new_kva) (\<lambda>p. p\<lparr>sd_sec := sd\<rparr>) s) ())))"

text \<open>\<open>is_legal_addr\<close>: the second comparison of the program segment, \<open>keep_vaddr_top <= keep_vaddr_top\<close>, always
  holds. \<open>None\<close> is the access through \<open>exe_load\<close> when that is NULL.\<close>

definition is_legal_addr :: "u64 \<Rightarrow> 'a os_scheme \<Rightarrow> bool option" where
  "is_legal_addr fault_addr s =
    (let p = cur_pcb s in
     if fault_addr < edata p \<and> elf_edata (elf p) < fault_addr then Some True
     else if exe_load p = NULL then None
     else
       let ph = phdr (pre_elf s (elf_index (exe_load p))) 1;
           keep_vaddr_base = p_vaddr ph; keep_vaddr_top = p_vaddr ph + p_memsz ph
       in if keep_vaddr_base \<le> fault_addr \<and> keep_vaddr_top \<le> keep_vaddr_top then Some True
          else Some (fault_addr AND USER_STACK_HIGN \<noteq> 0))"

section \<open>The handlers\<close>

text \<open>The flushes of the translation cache have no effect on the state of the model.\<close>

definition count_fault :: "pcb_ref \<Rightarrow> 'a kernel_scheme \<Rightarrow> 'a kernel_scheme" where
  "count_fault r s = upd_pcb r (\<lambda>p. p\<lparr>pge_num := pge_num p + 1\<rparr>) s"

definition handle_page_fault_inst :: "u64 \<Rightarrow> 'a os_scheme \<Rightarrow> ('a os_scheme, unit) outcome" where
  "handle_page_fault_inst stval s =
    (let (s, c) = check_W_SD_and_set_AD stval (pgdir (cur_pcb s)) LOAD s
     in if c = ALLOC_NO_AD then Ret s () else Panic s)"

definition handle_page_fault_load :: "'a os_scheme lseek_fun \<Rightarrow> 'a os_scheme read_fun \<Rightarrow> u64 \<Rightarrow> 'a os_scheme \<Rightarrow>
    ('a os_scheme, unit) outcome" where
  "handle_page_fault_load lseek rd stval s =
    (let cur = get_current_running s;
         (s, c) = check_W_SD_and_set_AD stval (pgdir (cur_pcb s)) LOAD s
     in if c = ALLOC_NO_AD then Ret s ()
        else if c = IN_SD then if status_ctx s \<noteq> 0 then deal_in_SD stval s else Panic s
        else if c = NO_ALLOC then
          if is_legal_addr stval s \<noteq> Some True then Panic s
          else obind (deal_no_alloc lseek rd stval (ucast LOAD) s) (\<lambda>s _. Ret (count_fault cur s) ())
        else Ret s ())"

definition handle_page_fault_store :: "'a os_scheme lseek_fun \<Rightarrow> 'a os_scheme read_fun \<Rightarrow> u64 \<Rightarrow> 'a os_scheme \<Rightarrow>
    ('a os_scheme, unit) outcome" where
  "handle_page_fault_store lseek rd stval s =
    (if is_kva stval then Ret s ()
     else
       let cur = get_current_running s;
           (s, c) = check_W_SD_and_set_AD stval (pgdir (cur_pcb s)) STORE s
       in if c = ALLOC_NO_AD then Ret s ()
          else if c = IN_SD then if status_ctx s \<noteq> 0 then deal_in_SD stval s else Panic s
          else if c = IN_SD_NO_W then Panic s
          else if c = NO_W then deal_no_W stval s
          else if c = NO_ALLOC then obind (deal_no_alloc lseek rd stval (ucast STORE) s) (\<lambda>s _. Ret (count_fault cur s) ())
          else Ret s ())"

section \<open>The program break\<close>

text \<open>The pages \<open>for (p = begin; p < end; p += NORMAL_PAGE_SIZE)\<close> goes through. Near the top of the address
  space \<open>p\<close> would wrap around; \<open>end\<close> is at most the base of the user stack.\<close>

definition page_steps :: "u64 \<Rightarrow> u64 \<Rightarrow> u64 list" where
  "page_steps b e = map (\<lambda>i. b + NORMAL_PAGE_SIZE * of_nat i) [0..<(unat e - unat b + 4095) div 4096]"

definition brk_free :: "u64 \<Rightarrow> u64 \<Rightarrow> 'a mmkernel_scheme \<Rightarrow> 'a mmkernel_scheme" where
  "brk_free pgd cur_page s =
    (if get_kva_of (mem s) cur_page pgd \<noteq> NULL then fst (free_page_helper cur_page pgd s) else s)"

fun brk_alloc :: "u64 \<Rightarrow> u64 list \<Rightarrow> 'a mmkernel_scheme \<Rightarrow> ('a mmkernel_scheme, unit) outcome" where
  "brk_alloc pgd [] s = Ret s ()"
| "brk_alloc pgd (p # ps) s =
    (if status_ctx s \<noteq> 0 then brk_alloc pgd ps s
     else obind (alloc_page_helper p pgd MAP_USER s) (\<lambda>s _. brk_alloc pgd ps s))"

definition set_edata :: "u64 \<Rightarrow> 'a kernel_scheme \<Rightarrow> 'a kernel_scheme" where
  "set_edata ptr s = upd_pcb (get_current_running s) (\<lambda>p. p\<lparr>edata := ptr\<rparr>) s"

definition do_brk :: "u64 \<Rightarrow> 'a mmkernel_scheme \<Rightarrow> ('a mmkernel_scheme, u64) outcome" where
  "do_brk ptr s =
    (let p = cur_pcb s in
     if user_stack_base p < ptr then Ret s (word_of_int (- ENOMEM))
     else if ptr = 0 then Ret s (edata p)
     else if ptr < edata p then
       Ret (set_edata ptr (fold (brk_free (pgdir p)) (page_steps ptr (edata p)) s)) ptr
     else obind (brk_alloc (pgdir p) (page_steps (edata p) ptr) s) (\<lambda>s _. Ret (set_edata ptr s) ptr))"

definition lazy_brk :: "u64 \<Rightarrow> 'a mmkernel_scheme \<Rightarrow> 'a mmkernel_scheme \<times> u64" where
  "lazy_brk ptr s =
    (let p = cur_pcb s in
     if user_stack_base p < ptr then (s, word_of_int (- ENOMEM))
     else if ptr = 0 then (s, edata p)
     else if ptr < edata p then (set_edata ptr (fold (brk_free (pgdir p)) (page_steps ptr (edata p)) s), ptr)
     else (set_edata ptr s, ptr))"

definition do_mprotect :: "ptr \<Rightarrow> u64 \<Rightarrow> i32 \<Rightarrow> i32" where
  "do_mprotect addr len prot = 0"

definition do_madvise :: "ptr \<Rightarrow> u64 \<Rightarrow> i32 \<Rightarrow> i32" where
  "do_madvise addr len notice = 0"

definition do_membarrier :: "i32 \<Rightarrow> i32 \<Rightarrow> i32" where
  "do_membarrier cmd flgs = 0"

section \<open>Words of tables\<close>

text \<open>The addresses of the entries of the tables of an address space. A memory that agrees on them has the same
  mappings.\<close>

definition table_word :: "mem64 \<Rightarrow> u64 \<Rightarrow> u64 \<Rightarrow> bool" where
  "table_word m r a \<longleftrightarrow> (\<exists>p t j. upath p \<and> taddr m r p = Some t \<and> slot j \<and> a = t + 8 * j)"

lemma table_wordI: "upath p \<Longrightarrow> taddr m r p = Some t \<Longrightarrow> slot j \<Longrightarrow> table_word m r (t + 8 * j)"
  unfolding table_word_def by blast

lemma table_word_taddr:
  assumes "\<And>a. table_word m r a \<Longrightarrow> m' a = m a" and "upath p"
  shows "taddr m' r p = taddr m r p"
proof (rule taddr_cong [OF _ _ assms(2)])
  show "pte_at m' r i = pte_at m r i" if "uslot i" for i
    unfolding pte_at_def using table_wordI [of Root m r r i] uslot_slot [OF that] by (intro assms(1)) simp
  show "pte_at m' t j = pte_at m t j" if "uslot i" "slot j" "taddr m r (Mid i) = Some t" for i t j
    unfolding pte_at_def using table_wordI [of "Mid i" m r t j] that by (intro assms(1)) simp
qed

lemma table_word_leaf:
  assumes "\<And>a. table_word m r a \<Longrightarrow> m' a = m a" and "user_va va"
  shows "leaf_pte m' r va = leaf_pte m r va"
proof -
  let ?p = "Low (vpn 2 va) (vpn 1 va)"
  have p: "upath ?p"
    using user_va_uslot [OF assms(2)] by simp
  have same: "taddr m' r ?p = taddr m r ?p"
    using assms(1) p by (rule table_word_taddr)
  show ?thesis
  proof (cases "taddr m r ?p")
    case (Some t)
    have "m' (t + 8 * vpn 0 va) = m (t + 8 * vpn 0 va)"
      by (rule assms(1) [OF table_wordI [OF p Some slot_vpn]])
    then show ?thesis
      unfolding leaf_pte_def same Some by (simp add: pte_at_def)
  next
    case None
    show ?thesis
      unfolding leaf_pte_def same None by simp
  qed
qed

lemma same_map_table_word: "same_map m m' \<Longrightarrow> table_word m' r a \<longleftrightarrow> table_word m r a"
  by (simp add: table_word_def same_map_taddr del: taddr.simps)

text \<open>A page that is not in use holds no table, and so does a page that is no table.\<close>

lemma page_word_not_table:
  assumes "pt_inv s r" and "\<And>p. upath p \<Longrightarrow> taddr (mem s) r p \<noteq> Some (page_addr k)" and "k < NUM_REC" and "i < 512"
  shows "\<not> table_word (mem s) r (page_addr k + 8 * of_nat i)"
proof
  assume "table_word (mem s) r (page_addr k + 8 * of_nat i)"
  then obtain p t j where p: "upath p" "taddr (mem s) r p = Some t" "slot j" "page_addr k + 8 * of_nat i = t + 8 * j"
    unfolding table_word_def by blast
  have "page_addr k = t"
    using slot_addr_inject [OF kpage_aligned [OF kpage_page_addr [OF assms(3)]] of_nat_slot [OF assms(4)]
      taddr_aligned [OF pt_inv_root [OF assms(1)] p(2)] p(3)] p(4) by simp
  with p assms(2) show False by simp
qed

text \<open>The check on a fault changes words of the tables only.\<close>

lemma check_leaf_frame: "a \<noteq> b \<Longrightarrow> mem (fst (check_leaf b mode s)) a = mem s a"
  by (cases "leaf_verdict (mem s b) mode") (simp add: check_leaf_verdict)

lemma check_frame:
  assumes "pt_inv s r" and "user_va va" and "check_W_SD_and_set_AD va r mode s = (s', c)" and "\<not> table_word (mem s) r a"
  shows "mem s' a = mem s a"
proof -
  let ?a2 = "r + 8 * vpn 2 va"
  define t where "t = table_of (mem s ?a2)"
  define e1 where "e1 = (if t + 8 * vpn 1 va = ?a2 then mem s ?a2 OR PAGE_ACCESSED else mem s (t + 8 * vpn 1 va))"
  define u where "u = table_of e1"
  have acc: "(64 :: u64) AND mask 10 = 64"
    by (simp add: mask_eq_exp_minus_1)
  have a2: "a \<noteq> ?a2"
    using assms(4) table_wordI [of Root "mem s" r r "vpn 2 va"] by (auto simp del: One_nat_def)
  show ?thesis
  proof (cases "mem s ?a2 AND PAGE_PRESENT = 0")
    case True
    then show ?thesis
      using assms(3) by (simp add: check_W_SD_and_set_AD_def Let_def)
  next
    case p2: False
    then have "mem s ?a2 \<noteq> 0" by auto
    then have t: "taddr (mem s) r (Mid (vpn 2 va)) = Some t"
      by (simp add: t_def pte_at_def)
    have ne: "t + 8 * vpn 1 va \<noteq> ?a2"
      using slot_addr_inject [OF taddr_aligned [OF pt_inv_root [OF assms(1)] t] slot_vpn pt_inv_root [OF assms(1)] slot_vpn]
        pt_invD(2) [OF assms(1), of Root "Mid (vpn 2 va)" r] t user_va_uslot [OF assms(2)] by (auto simp del: taddr.simps(2))
    have a1: "a \<noteq> t + 8 * vpn 1 va"
      using assms(4) table_wordI [of "Mid (vpn 2 va)" "mem s" r t "vpn 1 va"] t user_va_uslot [OF assms(2)]
      by (auto simp del: One_nat_def taddr.simps)
    have t1: "pa2kva (push_bit 12 (get_pfn (mem s ?a2 OR PAGE_ACCESSED))) = t"
      by (simp add: t_def table_of_def get_pfn_or [OF acc])
    show ?thesis
    proof (cases "mem s (t + 8 * vpn 1 va) AND PAGE_PRESENT = 0")
      case True
      then show ?thesis
        using assms(3) p2 a2 ne by (auto simp: check_W_SD_and_set_AD_def Let_def t1)
    next
      case p1: False
      then have "taddr (mem s) r (Low (vpn 2 va) (vpn 1 va)) = Some u"
        using t ne by (auto simp: u_def e1_def pte_at_def Let_def split: if_splits)
      then have a0: "a \<noteq> u + 8 * vpn 0 va"
        using assms(4) table_wordI [of "Low (vpn 2 va) (vpn 1 va)" "mem s" r u "vpn 0 va"] user_va_uslot [OF assms(2)]
        by (auto simp del: taddr.simps)
      have u1: "pa2kva (push_bit 12 (get_pfn (mem s (t + 8 * vpn 1 va) OR PAGE_ACCESSED))) = u"
        using ne by (simp add: u_def e1_def table_of_def get_pfn_or [OF acc])
      let ?s2 = "upd_mem (t + 8 * vpn 1 va) (\<lambda>e. e OR PAGE_ACCESSED) (upd_mem ?a2 (\<lambda>e. e OR PAGE_ACCESSED) s)"
      have "check_W_SD_and_set_AD va r mode s = check_leaf (u + 8 * vpn 0 va) mode ?s2"
        using p2 p1 ne by (simp add: check_W_SD_and_set_AD_def Let_def t1 u1 del: One_nat_def)
      then have "mem s' a = mem ?s2 a"
        using check_leaf_frame [OF a0, of mode ?s2] assms(3) by (metis fst_conv)
      also have "\<dots> = mem s a"
        using a1 a2 by simp
      finally show ?thesis .
    qed
  qed
qed

section \<open>Copy on write\<close>

lemma copy_page_apply:
  assumes "page_aligned d" and "page_aligned a" and "d \<noteq> a"
  shows "copy_page d a m x = (if \<exists>k < 512. x = d + 8 * of_nat k then m (a + (x - d)) else m x)"
proof -
  have src: "a + 8 * of_nat k \<noteq> d + 8 * of_nat j" if "k < 512" "j < 512" for k j
    using slot_addr_inject [OF assms(2) of_nat_slot [OF that(1)] assms(1) of_nat_slot [OF that(2)]] assms(3) by auto
  have "n \<le> 512 \<Longrightarrow> fold (\<lambda>i m. m(d + 8 * of_nat i := m (a + 8 * of_nat i))) [0..<n] m x
      = (if \<exists>k < n. x = d + 8 * of_nat k then m (a + (x - d)) else m x)" for n x
  proof (induction n arbitrary: x)
    case (Suc n)
    have "a + 8 * of_nat n \<noteq> d + 8 * of_nat k" if "k < n" for k
      using src [of n k] that Suc.prems by simp
    with Suc show ?case
      by (auto simp: less_Suc_eq)
  qed simp
  then show ?thesis
    by (simp add: copy_page_def)
qed

lemma mm_inv_share_sub:
  assumes inv: "mm_inv s" and i: "i < NUM_REC" and two: "share_num (pageRecyc s i) \<noteq> 0" "share_num (pageRecyc s i) \<noteq> 1"
  shows "mm_inv (share_sub (page_addr i) s)"
    and "pageRecyc (share_sub (page_addr i) s) = (pageRecyc s)(i := (pageRecyc s i)\<lparr>share_num := share_num (pageRecyc s i) - 1\<rparr>)"
proof -
  note D = mm_invD [OF inv]
  have ne: "share_num (pageRecyc s i) - 1 \<noteq> 0"
    using two(2) by simp
  show "pageRecyc (share_sub (page_addr i) s) = (pageRecyc s)(i := (pageRecyc s i)\<lparr>share_num := share_num (pageRecyc s i) - 1\<rparr>)"
    by (simp add: share_sub_def GET_MEM_NODE_page_addr [OF i])
  show "mm_inv (share_sub (page_addr i) s)"
    by (rule mm_invI) (use D two(1) ne in \<open>auto simp: share_sub_def GET_MEM_NODE_page_addr [OF i]\<close>)
qed

lemma get_PTE_of_leaf:
  assumes "taddr m r (Low (vpn 2 va) (vpn 1 va)) = Some t" and "pte_at m t (vpn 0 va) AND PAGE_PRESENT \<noteq> 0"
  shows "get_PTE_of m va r = t + 8 * vpn 0 va"
  using assms by (auto simp: get_PTE_of_def Let_def split: if_splits)

lemma table_word_not_null:
  assumes "pt_inv s r" and "table_word (mem s) r a"
  shows "a \<noteq> NULL"
proof -
  from assms(2) obtain p t j where p: "upath p" "taddr (mem s) r p = Some t" "slot j" "a = t + 8 * j"
    unfolding table_word_def by blast
  have k: "kpage t"
    using pt_invD(1) [OF assms(1) p(1,2)] by (rule in_use_kpage)
  then have "t \<noteq> 0"
    using pa2kva_nonzero [of "kva2pa t"] by (auto simp: kpage_def in_window_def)
  then show ?thesis
    using p(4) slot_addr [OF kpage_aligned [OF k] p(3)] by (simp add: or_eq_0_iff)
qed

lemma get_attribute_flags:
  assumes "e AND PAGE_PRESENT \<noteq> 0"
  shows "table_flags (get_attribute e OR (PAGE_WRITE OR PAGE_DIRTY))"
proof -
  have "get_attribute e AND PAGE_PRESENT = e AND PAGE_PRESENT"
    unfolding get_attribute_def mask_64_10 Let_def by (simp add: and.assoc mask_eq_exp_minus_1)
  moreover have "(get_attribute e OR (PAGE_WRITE OR PAGE_DIRTY)) AND mask 10 = get_attribute e OR (PAGE_WRITE OR PAGE_DIRTY)"
    unfolding get_attribute_def mask_64_10 Let_def
    by (simp add: bit.conj_disj_distrib2 and.assoc mask_eq_exp_minus_1)
  ultimately show ?thesis
    using assms by (simp add: table_flags_def bit.conj_disj_distrib2 or_eq_0_iff)
qed

lemma set_attribute_write: "set_attribute e (b OR (PAGE_WRITE OR PAGE_DIRTY)) AND PAGE_WRITE \<noteq> 0"
proof -
  have "bit (set_attribute e (b OR (PAGE_WRITE OR PAGE_DIRTY)) AND PAGE_WRITE) 2"
    by (simp add: set_attribute_def bit_simps bit_numeral_rec)
  then show ?thesis
    by auto
qed

text \<open>The copying case of \<^const>\<open>deal_no_W\<close>.\<close>

lemma deal_no_W_copies:
  assumes inv: "mm_inv s" and pt: "pt_inv s (pgdir (cur_pcb s))" and va: "user_va va" and ctx: "status_ctx s = 0"
    and t: "taddr (mem s) (pgdir (cur_pcb s)) (Low (vpn 2 va) (vpn 1 va)) = Some t"
    and e: "e = pte_at (mem s) t (vpn 0 va)" "e AND PAGE_PRESENT \<noteq> 0" "table_of e = page_addr k" "k < NUM_REC"
    and share: "share_num (pageRecyc s k) \<noteq> 0" "share_num (pageRecyc s k) \<noteq> 1"
    and free: "page_lists s free_source_list \<noteq> []"
  obtains s' j where "deal_no_W va s = Ret s' ()" and "j < NUM_REC" and "share_num (pageRecyc s j) = 0" and "mm_inv s'"
    and "mem s' = (copy_page (page_addr j) (page_addr k) (clear_pgdir (page_addr j) (mem s)))(t + 8 * vpn 0 va :=
       entry_for e (page_addr j) (get_attribute e OR (PAGE_WRITE OR PAGE_DIRTY)))"
    and "\<And>i. share_num (pageRecyc s' i) = (if i = k then share_num (pageRecyc s k) - 1 else if i = j then 1 else share_num (pageRecyc s i))"
proof -
  let ?r = "pgdir (cur_pcb s)" and ?a = "t + 8 * vpn 0 va"
  have p: "upath (Low (vpn 2 va) (vpn 1 va))"
    using user_va_uslot [OF va] by simp
  have a: "get_PTE_of (mem s) va ?r = ?a" "?a \<noteq> NULL" "mem s ?a = e"
    using get_PTE_of_leaf [OF t] e(1,2) table_word_not_null [OF pt table_wordI [OF p t slot_vpn]] by (simp_all add: pte_at_def)
  have kva: "pa2kva (push_bit 12 (get_pfn e)) = page_addr k"
    using e(3) by (simp add: table_of_def)
  let ?s1 = "share_sub (page_addr k) s"
  note S = mm_inv_share_sub [OF inv e(4) share]
  have s1: "page_lists ?s1 = page_lists s" "mem ?s1 = mem s" "status_ctx ?s1 = status_ctx s"
    by (simp_all add: share_sub_def)
  from allocPage_returns [of ?s1] free s1(1) obtain s2 top where al: "allocPage ?s1 = Ret s2 top"
    by auto
  from allocPage_effect [OF S(1) al] obtain j where j: "j < NUM_REC" "top = page_addr j + PAGE_SIZE"
      "share_num (pageRecyc ?s1 j) = 0"
      "pageRecyc s2 = (pageRecyc ?s1)(j := (pageRecyc ?s1 j)\<lparr>share_num := 1\<rparr>)"
      "mem s2 = clear_pgdir (page_addr j) (mem ?s1)" "status_ctx s2 = status_ctx ?s1" "mm_inv s2"
    by metis
  have jk: "j \<noteq> k"
    using j(3) share(2) S(2) by auto
  have sj: "share_num (pageRecyc s j) = 0"
    using j(3) jk by (simp add: S(2))
  have pj: "page_aligned (page_addr j)" "page_aligned (page_addr k)" "page_addr j \<noteq> page_addr k"
    using kpage_page_addr [OF j(1)] kpage_page_addr [OF e(4)] page_addr_inject [OF j(1) e(4)] jk by (simp_all add: kpage_def)
  let ?m = "copy_page (page_addr j) (page_addr k) (clear_pgdir (page_addr j) (mem s))"
  have out: "\<nexists>i. i < 512 \<and> ?a = page_addr j + 8 * of_nat i"
    using page_word_not_table [OF pt new_page_fresh [OF pt j(1) sj] j(1)] table_wordI [OF p t slot_vpn, of 0 va] by metis
  have me: "?m ?a = e"
    using out a(3) copy_page_apply [OF pj, of _ ?a] clear_pgdir_apply [of "page_addr j" "mem s" ?a] by auto
  let ?E = "entry_for e (page_addr j) (get_attribute e OR (PAGE_WRITE OR PAGE_DIRTY))"
  let ?t = "s2\<lparr>mem := ?m(?a := ?E)\<rparr>"
  have "deal_no_W va s = Ret ?t ()"
    using ctx share(2) me j(6)
    by (simp add: deal_no_W_def a kva al j(2,5) s1 GET_MEM_NODE_page_addr [OF e(4)] share_pgtable_def upd_mem_def Let_def
        get_attribute_set_pfn)
  moreover have "share_num (pageRecyc ?t i) = (if i = k then share_num (pageRecyc s k) - 1 else if i = j then 1 else share_num (pageRecyc s i))" for i
    using jk by (simp add: j(4) S(2))
  ultimately show thesis
    using j(1,7) sj by (intro that [of ?t j]) simp_all
qed

lemma user_va_not_kva: "user_va va \<Longrightarrow> \<not> is_kva va"
proof
  assume "user_va va" and "is_kva va"
  then have "push_bit 38 (- 1) = (0 :: u64)"
    unfolding user_va_def is_kva_def user_mask by simp
  then have "bit (push_bit 38 (- 1) :: u64) 63 = bit (0 :: u64) 63"
    by (rule arg_cong)
  then show False by (simp add: bit_simps)
qed

text \<open>A page frame \<open>j\<close> that was free gets the words of page \<open>k\<close>, and the leaf entry of an address is set to \<open>E\<close>.\<close>

lemma private_copy:
  assumes pt: "pt_inv s r" and va: "user_va va" and tt: "taddr (mem s) r (Low (vpn 2 va) (vpn 1 va)) = Some tt"
    and j: "j < NUM_REC" "share_num (pageRecyc s j) = 0" and k: "k < NUM_REC" "j \<noteq> k"
    and t: "mem t = (copy_page (page_addr j) (page_addr k) (clear_pgdir (page_addr j) (mem s)))(tt + 8 * vpn 0 va := E)"
    and live: "\<forall>i. share_num (pageRecyc s i) \<noteq> 0 \<longrightarrow> share_num (pageRecyc t i) \<noteq> 0"
  shows "pt_inv t r"
    and "user_va vb \<Longrightarrow> leaf_pte (mem t) r vb = (if same_page va vb then E else leaf_pte (mem s) r vb)"
    and "i < 512 \<Longrightarrow> mem t (page_addr j + 8 * of_nat i) = mem s (page_addr k + 8 * of_nat i)"
    and "\<not> (\<exists>i < 512. a = page_addr j + 8 * of_nat i) \<Longrightarrow> a \<noteq> tt + 8 * vpn 0 va \<Longrightarrow> mem t a = mem s a"
proof -
  let ?m = "copy_page (page_addr j) (page_addr k) (clear_pgdir (page_addr j) (mem s))" and ?p = "Low (vpn 2 va) (vpn 1 va)"
  have al: "page_aligned (page_addr j)" "page_aligned (page_addr k)" "page_addr j \<noteq> page_addr k"
    using kpage_page_addr [OF j(1)] kpage_page_addr [OF k(1)] page_addr_inject [OF j(1) k(1)] k(2) by (simp_all add: kpage_def)
  have "\<not> (\<exists>i' < 512. page_addr k + 8 * of_nat i = page_addr j + 8 * of_nat i')" if "i < 512" for i
    using slot_addr_inject [OF al(2) of_nat_slot [OF that] al(1) of_nat_slot] al(3) by metis
  then have copy: "?m a = (if \<exists>i < 512. a = page_addr j + 8 * of_nat i then mem s (page_addr k + (a - page_addr j)) else mem s a)" for a
    using copy_page_apply [OF al, of "clear_pgdir (page_addr j) (mem s)" a] clear_pgdir_apply [of "page_addr j" "mem s"] by auto
  have out: "\<not> table_word (mem s) r (page_addr j + 8 * of_nat i)" if "i < 512" for i
    by (rule page_word_not_table [OF pt new_page_fresh [OF pt j] j(1) that])
  have keep: "?m a = mem s a" if "table_word (mem s) r a" for a
    using out that by (auto simp: copy)
  have p: "upath ?p"
    using user_va_uslot [OF va] by simp
  have word: "table_word (mem s) r (tt + 8 * vpn 0 va)"
    by (rule table_wordI [OF p tt slot_vpn])
  have tab: "taddr ?m r q = taddr (mem s) r q" if "upath q" for q
    using keep that by (rule table_word_taddr)
  have T: "tree ?m r"
    using pt_inv_tree [OF pt] unfolding tree_def by (metis tab)
  show "pt_inv t r"
  proof (rule pt_inv_leaf_write [OF pt T tab _ tt user_va_uslot [OF va] slot_vpn slot_vpn t live [rule_format]])
    show "pte_at ?m u l = pte_at (mem s) u l" if "upath q" "taddr (mem s) r q = Some u" "slot l" for q u l
      using keep [OF table_wordI [OF that]] by (simp add: pte_at_def)
  qed
  show "leaf_pte (mem t) r vb = (if same_page va vb then E else leaf_pte (mem s) r vb)" if "user_va vb"
    using leaf_pte_write [OF T tab [OF p, unfolded tt] va that, of E] table_word_leaf [OF keep that] by (simp add: t)
  show "mem t (page_addr j + 8 * of_nat i) = mem s (page_addr k + 8 * of_nat i)" if "i < 512"
    using out [OF that] word that by (auto simp: t copy)
  show "mem t a = mem s a" if "\<not> (\<exists>i < 512. a = page_addr j + 8 * of_nat i)" "a \<noteq> tt + 8 * vpn 0 va"
    using that copy [of a] by (metis t fun_upd_other)
qed

text \<open>The check answers \<open>NO_W\<close> for such a page.\<close>

lemma check_no_W:
  assumes "pt_inv s r" and "user_va va" and "leaf_pte (mem s) r va AND PAGE_PRESENT \<noteq> 0" and "leaf_pte (mem s) r va AND PAGE_SD = 0"
    and "leaf_pte (mem s) r va AND PAGE_WRITE = 0"
  obtains m t where "check_W_SD_and_set_AD va r STORE s = (s\<lparr>mem := m\<rparr>, NO_W)" and "same_map (mem s) m"
    and "pt_inv (s\<lparr>mem := m\<rparr>) r" and "taddr m r (Low (vpn 2 va) (vpn 1 va)) = Some t"
    and "pte_at m t (vpn 0 va) AND PAGE_PRESENT \<noteq> 0" and "table_of (pte_at m t (vpn 0 va)) = table_of (leaf_pte (mem s) r va)"
    and "table_word (mem s) r (t + 8 * vpn 0 va)" and "\<And>a. \<not> table_word (mem s) r a \<Longrightarrow> m a = mem s a"
proof -
  let ?e = "leaf_pte (mem s) r va" and ?b = "PAGE_PRESENT OR PAGE_ACCESSED OR PAGE_DIRTY" and ?p = "Low (vpn 2 va) (vpn 1 va)"
  have v: "leaf_verdict ?e STORE = (?b, NO_W)"
    using assms(3-5) by (simp add: leaf_verdict_def)
  from check_W_SD_and_set_AD_effect [OF assms(1,2) v] obtain m where
    m: "check_W_SD_and_set_AD va r STORE s = (s\<lparr>mem := m\<rparr>, NO_W)" "same_map (mem s) m" "leaf_pte m r va = ?e OR ?b"
    by metis
  have pt: "pt_inv (s\<lparr>mem := m\<rparr>) r"
    using same_map_pt_inv [OF assms(1), of "s\<lparr>mem := m\<rparr>"] m(2) by simp
  obtain t where t: "taddr m r ?p = Some t"
    using assms(3) same_map_taddr [OF m(2)] by (auto simp: leaf_pte_def simp del: taddr.simps split: option.splits)
  then have e: "pte_at m t (vpn 0 va) = ?e OR ?b"
    using m(3) by (simp add: leaf_pte_def del: taddr.simps One_nat_def)
  have bits: "?b AND mask 10 = ?b"
    by (simp add: mask_eq_exp_minus_1)
  have "pte_at m t (vpn 0 va) AND PAGE_PRESENT \<noteq> 0" "table_of (pte_at m t (vpn 0 va)) = table_of ?e"
    using assms(3) get_pfn_or [OF bits] by (simp_all add: e bit.conj_disj_distrib2 or_eq_0_iff table_of_def)
  moreover have "table_word (mem s) r (t + 8 * vpn 0 va)"
    using table_wordI [OF _ t slot_vpn] user_va_uslot [OF assms(2)] same_map_table_word [OF m(2)] by simp
  moreover have "m a = mem s a" if "\<not> table_word (mem s) r a" for a
    using check_frame [OF assms(1,2) m(1) that] by simp
  ultimately show thesis
    using m(1,2) pt t that [of m t] by blast
qed

text \<open>C20: A store to a page that is shared after a fork (present, not writable, with more than one reference) makes a
  private copy. The fault handler returns; the address is then mapped writable to a page that was free,
  with the words of the shared page; the shared page has one reference less and its words are unchanged; no other
  mapping of the process changes, and no mapping of any other address space with tables of its own.\<close>

theorem store_private_copy:
  assumes "mm_inv s" and "pt_inv s (pgdir (cur_pcb s))" and "user_va va" and "status_ctx s = 0"
    and "leaf_pte (mem s) (pgdir (cur_pcb s)) va AND PAGE_PRESENT \<noteq> 0" and "leaf_pte (mem s) (pgdir (cur_pcb s)) va AND PAGE_SD = 0"
    and "leaf_pte (mem s) (pgdir (cur_pcb s)) va AND PAGE_WRITE = 0"
    and "table_of (leaf_pte (mem s) (pgdir (cur_pcb s)) va) = page_addr k" and "k < NUM_REC"
    and "\<And>p. upath p \<Longrightarrow> taddr (mem s) (pgdir (cur_pcb s)) p \<noteq> Some (page_addr k)"
    and "2 \<le> share_num (pageRecyc s k)" and "page_lists s free_source_list \<noteq> []"
  shows "\<exists>t j. handle_page_fault_store lseek rd va s = Ret t () \<and> j < NUM_REC \<and> share_num (pageRecyc s j) = 0
    \<and> table_of (leaf_pte (mem t) (pgdir (cur_pcb s)) va) = page_addr j
    \<and> leaf_pte (mem t) (pgdir (cur_pcb s)) va AND PAGE_WRITE \<noteq> 0
    \<and> (\<forall>i < 512. mem t (page_addr j + 8 * of_nat i) = mem s (page_addr k + 8 * of_nat i)
        \<and> mem t (page_addr k + 8 * of_nat i) = mem s (page_addr k + 8 * of_nat i))
    \<and> share_num (pageRecyc t k) = share_num (pageRecyc s k) - 1 \<and> share_num (pageRecyc t j) = 1
    \<and> mm_inv t \<and> pt_inv t (pgdir (cur_pcb s))
    \<and> (\<forall>vb. user_va vb \<longrightarrow> \<not> same_page va vb \<longrightarrow>
        get_kva_of (mem t) vb (pgdir (cur_pcb s)) = get_kva_of (mem s) vb (pgdir (cur_pcb s)))
    \<and> (\<forall>r vb. pt_inv s r \<longrightarrow> (\<forall>a. table_word (mem s) r a \<longrightarrow> \<not> table_word (mem s) (pgdir (cur_pcb s)) a) \<longrightarrow> user_va vb \<longrightarrow>
        get_kva_of (mem t) vb r = get_kva_of (mem s) vb r)"
proof -
  let ?r = "pgdir (cur_pcb s)" and ?p = "Low (vpn 2 va) (vpn 1 va)"
  from check_no_W [OF assms(2,3,5-7)] obtain m tt where
    m: "check_W_SD_and_set_AD va ?r STORE s = (s\<lparr>mem := m\<rparr>, NO_W)" "same_map (mem s) m" "pt_inv (s\<lparr>mem := m\<rparr>) ?r"
      "taddr m ?r ?p = Some tt" and e: "pte_at m tt (vpn 0 va) AND PAGE_PRESENT \<noteq> 0" "table_of (pte_at m tt (vpn 0 va)) = page_addr k"
    and word: "table_word (mem s) ?r (tt + 8 * vpn 0 va)" and frame: "\<And>a. \<not> table_word (mem s) ?r a \<Longrightarrow> m a = mem s a"
    unfolding assms(8) by blast
  let ?s1 = "s\<lparr>mem := m\<rparr>" and ?e = "pte_at m tt (vpn 0 va)"
  have share: "share_num (pageRecyc s k) \<noteq> 0" "share_num (pageRecyc s k) \<noteq> 1"
    using assms(11) by (auto simp: word_le_nat_alt)
  have cur: "get_current_running ?s1 = get_current_running s"
    by (simp add: get_current_running_def)
  obtain t j where d: "deal_no_W va ?s1 = Ret t ()" "j < NUM_REC" "share_num (pageRecyc s j) = 0" "mm_inv t"
      "mem t = (copy_page (page_addr j) (page_addr k) (clear_pgdir (page_addr j) (mem ?s1)))(tt + 8 * vpn 0 va :=
         entry_for ?e (page_addr j) (get_attribute ?e OR (PAGE_WRITE OR PAGE_DIRTY)))"
      "\<And>i. share_num (pageRecyc t i) = (if i = k then share_num (pageRecyc s k) - 1 else if i = j then 1 else share_num (pageRecyc s i))"
    by (rule deal_no_W_copies [of ?s1 va tt ?e k])
      (use assms(1,3,4,9,12) m e share cur in \<open>simp_all del: taddr.simps One_nat_def\<close>)
  have jk: "j \<noteq> k" and live: "\<forall>i. share_num (pageRecyc ?s1 i) \<noteq> 0 \<longrightarrow> share_num (pageRecyc t i) \<noteq> 0"
    using d(3) share d(6) by auto
  have tt1: "taddr (mem ?s1) ?r ?p = Some tt" and sj: "share_num (pageRecyc ?s1 j) = 0"
    using m(4) d(3) by simp_all
  note P = private_copy [OF m(3) assms(3) tt1 d(2) sj assms(9) jk d(5) live]
  have h: "handle_page_fault_store lseek rd va s = Ret t ()"
    using m(1) d(1) user_va_not_kva [OF assms(3)] by (simp add: handle_page_fault_store_def Let_def)
  have leaf_t: "table_of (leaf_pte (mem t) ?r va) = page_addr j" "leaf_pte (mem t) ?r va AND PAGE_WRITE \<noteq> 0"
    using P(2) [OF assms(3)] table_of_entry_for [OF kpage_page_addr [OF d(2)] get_attribute_flags [OF e(1)]] set_attribute_write by (simp_all add: same_page_def)
  have words: "mem t (page_addr j + 8 * of_nat i) = mem s (page_addr k + 8 * of_nat i)"
      "mem t (page_addr k + 8 * of_nat i) = mem s (page_addr k + 8 * of_nat i)" if "i < 512" for i
  proof -
    have nt: "\<not> table_word (mem s) ?r (page_addr k + 8 * of_nat i)"
      by (rule page_word_not_table [OF assms(2,10,9) that])
    then show "mem t (page_addr j + 8 * of_nat i) = mem s (page_addr k + 8 * of_nat i)"
      using P(3) [OF that] frame by simp
    have ne: "page_addr k + 8 * of_nat i \<noteq> tt + 8 * vpn 0 va"
      using nt word by metis
    have nj: "\<not> (\<exists>i' < 512. page_addr k + 8 * of_nat i = page_addr j + 8 * of_nat i')"
      using slot_addr_inject [OF kpage_aligned of_nat_slot [OF that] kpage_aligned of_nat_slot]
        kpage_page_addr [OF d(2)] kpage_page_addr [OF assms(9)] page_addr_inject [OF d(2) assms(9)] jk by metis
    show "mem t (page_addr k + 8 * of_nat i) = mem s (page_addr k + 8 * of_nat i)"
      using P(4) [OF nj ne] frame [OF nt] by simp
  qed
  have own: "get_kva_of (mem t) vb ?r = get_kva_of (mem s) vb ?r" if "user_va vb" "\<not> same_page va vb" for vb
  proof -
    have "get_kva_of (mem t) vb ?r = get_kva_of m vb ?r"
      using P(2) [OF that(1)] that by (simp add: get_kva_of_leaf)
    with same_map_kva [OF m(2)] show ?thesis by simp
  qed
  have other: "get_kva_of (mem t) vb r = get_kva_of (mem s) vb r"
    if "pt_inv s r" "\<forall>a. table_word (mem s) r a \<longrightarrow> \<not> table_word (mem s) ?r a" "user_va vb" for r vb
  proof -
    have "mem t a = mem s a" if a: "table_word (mem s) r a" for a
    proof -
      have nt: "\<not> table_word (mem s) ?r a"
        using a \<open>\<forall>a. table_word (mem s) r a \<longrightarrow> \<not> table_word (mem s) ?r a\<close> by blast
      have nj: "\<not> (\<exists>i < 512. a = page_addr j + 8 * of_nat i)"
        using page_word_not_table [OF \<open>pt_inv s r\<close> new_page_fresh [OF \<open>pt_inv s r\<close> d(2,3)] d(2)] a by metis
      have ne: "a \<noteq> tt + 8 * vpn 0 va"
        using nt word by metis
      show ?thesis
        using P(4) [OF nj ne] frame [OF nt] by simp
    qed
    then show ?thesis
      using table_word_leaf [of "mem s" r "mem t" vb] that(3) by (simp add: get_kva_of_leaf)
  qed
  show ?thesis
    using h d(2,3,4,6) jk leaf_t words P(1) own other by (intro exI [of _ t] exI [of _ j]) auto
qed

text \<open>The address space of \<^const>\<open>demo_vm\<close>, with page 7 shared by two processes at the address \<open>0x1000\<close> and page 8
  free.\<close>

definition demo_cow :: os where
  "demo_cow = demo_os\<lparr>pageRecyc := (\<lambda>i. \<lparr>page_pte = 0, kva_begin = page_addr i, sd_sec = 0,
        share_num = (if i = 8 then 0 else if i = 7 then 2 else 1), is_share = 0\<rparr>),
     page_lists := (\<lambda>q. if q = usedPageList then filter (\<lambda>i. i \<noteq> 8) [0..<NUM_REC] else if q = free_source_list then [8] else []),
     source_num := 1, status_ctx := 0, mem := mem (demo_vm (entry_for 0 (page_addr 7) 0x13)),
     pcb_tab := (pcb_tab demo_os)(tp demo_os := (pcb_tab demo_os (tp demo_os))\<lparr>pgdir := page_addr 0\<rparr>)\<rparr>"

lemma demo_cow_inv: "mm_inv demo_cow" "pt_inv demo_cow (page_addr 0)" "pgdir (cur_pcb demo_cow) = page_addr 0"
proof -
  show "mm_inv demo_cow"
    by (rule mm_invI) (auto simp: demo_cow_def page_addr_def queued_def intro!: store_invI split: if_splits)
  let ?E = "entry_for 0 (page_addr 7) 0x13"
  have mem: "mem demo_cow = mem (demo_vm ?E)"
    by (simp add: demo_cow_def)
  have use: "in_use demo_cow (page_addr k)" if "k < 3" for k
    using that by (auto simp: in_use_def demo_cow_def intro!: exI [of _ k])
  have "in_use demo_cow a" if "upath p" "taddr (mem demo_cow) (page_addr 0) p = Some a" for p a
    using that use [of 0] use [of 1] use [of 2] demo_vm_taddr [of p ?E] by (auto simp: mem simp del: taddr.simps split: if_splits)
  then show "pt_inv demo_cow (page_addr 0)"
    using pt_invD(2-4) [OF demo_vm_inv(1) [of ?E]] by (intro pt_invI) (simp_all only: mem, blast+)
  show "pgdir (cur_pcb demo_cow) = page_addr 0"
    by (simp add: demo_cow_def get_current_running_def)
qed

theorem store_private_copy_witness:
  "\<exists>t j. handle_page_fault_store (\<lambda>_ _ _ s. Ret s 0) (\<lambda>_ _ _ s. Ret s 0) 0x1000 demo_cow = Ret t () \<and> j \<noteq> 7
    \<and> table_of (leaf_pte (mem t) (page_addr 0) 0x1000) = page_addr j \<and> share_num (pageRecyc t 7) = 1 \<and> mm_inv t"
proof -
  let ?E = "entry_for 0 (page_addr 7) 0x13"
  have flg: "table_flags 0x13"
    by (simp add: table_flags_def mask_eq_exp_minus_1)
  have low: "e AND PAGE_SD = get_attribute e AND PAGE_SD" "e AND PAGE_WRITE = get_attribute e AND PAGE_WRITE" for e
    unfolding get_attribute_def mask_64_10 Let_def by (simp_all add: and.assoc mask_eq_exp_minus_1)
  have "?E AND PAGE_PRESENT \<noteq> 0"
    by (rule entry_present(1) [OF flg])
  moreover have "table_of ?E = page_addr 7"
    by (rule table_of_entry_for [OF kpage_page_addr flg]) simp
  moreover have "?E AND PAGE_SD = 0" "?E AND PAGE_WRITE = 0"
    by (subst low, subst get_attribute_set_attribute; simp add: mask_eq_exp_minus_1)+
  ultimately have E: "?E AND PAGE_PRESENT \<noteq> 0" "table_of ?E = page_addr 7" "?E AND PAGE_SD = 0" "?E AND PAGE_WRITE = 0"
    by blast+
  have leaf: "leaf_pte (mem demo_cow) (page_addr 0) 0x1000 = ?E"
    using demo_vm_inv(2) [of ?E] by (simp add: demo_cow_def)
  have tab: "taddr (mem demo_cow) (page_addr 0) p \<noteq> Some (page_addr 7)" if "upath p" for p
    using demo_vm_taddr [OF that, of ?E] page_addr_inject [of 0 7] page_addr_inject [of 1 7] page_addr_inject [of 2 7]
    by (auto simp: demo_cow_def simp del: taddr.simps split: if_splits)
  have share: "share_num (pageRecyc demo_cow i) = (if i = 8 then 0 else if i = 7 then 2 else 1)" for i
    by (simp add: demo_cow_def)
  have rest: "status_ctx demo_cow = 0" "7 < NUM_REC" "2 \<le> share_num (pageRecyc demo_cow 7)" "page_lists demo_cow free_source_list \<noteq> []"
    by (simp_all add: share) (simp add: demo_cow_def)+
  note C = store_private_copy [of demo_cow "0x1000" 7 "\<lambda>_ _ _ s. Ret s 0" "\<lambda>_ _ _ s. Ret s 0", unfolded demo_cow_inv(3) leaf]
  from C [OF demo_cow_inv(1,2) demo_vm_inv(3) rest(1) E(1,3,4,2) rest(2) tab rest(3,4)] obtain t j where
    "handle_page_fault_store (\<lambda>_ _ _ s. Ret s 0) (\<lambda>_ _ _ s. Ret s 0) 0x1000 demo_cow = Ret t ()"
    "share_num (pageRecyc demo_cow j) = 0" "table_of (leaf_pte (mem t) (page_addr 0) 0x1000) = page_addr j"
    "share_num (pageRecyc t 7) = share_num (pageRecyc demo_cow 7) - 1" "mm_inv t"
    by blast
  then show ?thesis
    by (intro exI [of _ t] exI [of _ j]) (auto simp: share)
qed

section \<open>Mapped files on unaligned faults\<close>

text \<open>\<^const>\<open>deal_no_alloc\<close> passes the base of the page frame. For a fault in the middle of a page inside a mapping
  that goes on beyond the page, the file is then read between an address and itself.\<close>

lemma lazy_mmap_reads_nothing:
  assumes "kva AND 0xfff = 0" and "fault_addr AND 0xfff \<noteq> 0" and "fault_addr - ROUNDDOWN fault_addr < fault_addr - start"
    and "ROUND fault_addr - fault_addr < mmap_end - fault_addr"
  shows "lazy_end mmap_end fault_addr kva - lazy_begin start fault_addr kva = 0"
proof -
  have m: "(0xfff :: u64) = mask 12"
    by (simp add: mask_eq_exp_minus_1)
  have disj: "\<not> bit kva n \<or> \<not> bit (mask 12 :: u64) n" for n
  proof -
    have "\<not> bit (kva AND mask 12) n"
      using assms(1) unfolding m by simp
    then show ?thesis by (auto simp: bit_simps)
  qed
  have "ROUND kva = ROUNDDOWN kva"
    unfolding m disjunctive_add [of kva, OF disj] by (intro bit_word_eqI) (auto simp: bit_simps)
  then show ?thesis
    using assms(2-4) by (simp add: lazy_begin_def lazy_end_def Let_def)
qed

end
