(* ===== verification/Recycle.thy ===== *)
theory Recycle
  imports Globals
begin

text \<open>
  Giving back an address space, \<open>kernel/mm/recycle.c\<close>, and the table of programs that are loaded ahead,
  \<open>kernel/elf/fast_elf.c\<close>. The loops over the three levels of page tables are shown to free the pages of the
  tree one after the other, each as often as it is referred to.
\<close>

section \<open>Programs loaded ahead\<close>

definition upd_elf :: "nat \<Rightarrow> (excellent_load \<Rightarrow> excellent_load) \<Rightarrow> 'a os_scheme \<Rightarrow> 'a os_scheme" where
  "upd_elf i f s = s\<lparr>pre_elf := (pre_elf s)(i := f (pre_elf s i))\<rparr>"

definition init_elf_list :: "nat \<Rightarrow> 'a mmkernel_scheme \<Rightarrow> 'a mmkernel_scheme" where
  "init_elf_list i s = s\<lparr>page_lists := (page_lists s)(preElfList i := [])\<rparr>"

definition get_free_elf :: "'a os_scheme \<Rightarrow> 'a os_scheme \<times> i32" where
  "get_free_elf s =
    (case first_index (\<lambda>i. load_used (pre_elf s i) = 0) [0..<MAX_TEST_NUM] of
       None \<Rightarrow> (s, -1)
     | Some i \<Rightarrow> (init_elf_list i (upd_elf i (\<lambda>e. e\<lparr>load_used := 1, dynamic := 0\<rparr>) s), of_nat i))"

definition find_name_elf :: "u8 list \<Rightarrow> 'a os_scheme \<Rightarrow> i32" where
  "find_name_elf filename s =
    (case first_index (\<lambda>i. load_used (pre_elf s i) \<noteq> 0 \<and> filename = load_name (pre_elf s i)) [0..<MAX_TEST_NUM] of
       None \<Rightarrow> -1 | Some i \<Rightarrow> of_nat i)"

definition init_pre_load :: "'a os_scheme \<Rightarrow> 'a os_scheme" where
  "init_pre_load s =
    fold (\<lambda>i s. init_elf_list i (upd_elf i (\<lambda>e. e\<lparr>load_used := 0, dynamic := 0\<rparr>) s)) [0..<MAX_TEST_NUM] s"

text \<open>Every page of the list is freed by force; that unlinks it from the list.\<close>

definition do_free_elf :: "nat \<Rightarrow> 'a os_scheme \<Rightarrow> 'a os_scheme" where
  "do_free_elf i s =
    (let s = upd_elf i (\<lambda>e. e\<lparr>load_used := 0, dynamic := 0\<rparr>) s
     in fold (\<lambda>k s. kfree_voilence (kva_begin (pageRecyc s k)) s) (page_lists s (preElfList i)) s)"

section \<open>Recycling\<close>

abbreviation (input) PTE_NUM :: nat where "PTE_NUM \<equiv> 512"
abbreviation (input) KERNEL_ENTRYPOINT :: u64 where "KERNEL_ENTRYPOINT \<equiv> 0xffffffc080040000"
abbreviation (input) KERNEL_END :: u64 where "KERNEL_END \<equiv> 0xffffffc080800000"
abbreviation (input) PGDIR_PA :: u64 where "PGDIR_PA \<equiv> (KERNEL_ENTRYPOINT AND 0xffffffff) - 0x18000"

text \<open>The loops over \<open>vpn0\<close>, \<open>vpn1\<close> and \<open>vpn2\<close>, on the state and the number of pages recycled.\<close>

definition recycle_low :: "u64 \<Rightarrow> 'a mmkernel_scheme \<times> i32 \<Rightarrow> 'a mmkernel_scheme \<times> i32" where
  "recycle_low third_page =
    fold (\<lambda>vpn0 (s, n).
      if pte_at (mem s) third_page (of_nat vpn0) = 0 then (s, n)
      else (freePage (table_of (pte_at (mem s) third_page (of_nat vpn0))) s, n + 1)) [0..<PTE_NUM]"

definition recycle_mid :: "u64 \<Rightarrow> 'a mmkernel_scheme \<times> i32 \<Rightarrow> 'a mmkernel_scheme \<times> i32" where
  "recycle_mid second_page =
    fold (\<lambda>vpn1 (s, n).
      if pte_at (mem s) second_page (of_nat vpn1) = 0 then (s, n)
      else
        let third_page = table_of (pte_at (mem s) second_page (of_nat vpn1));
            (s, n) = recycle_low third_page (s, n)
        in (freePage third_page s, n + 1)) [0..<PTE_NUM]"

definition recycle_top :: "u64 \<Rightarrow> 'a mmkernel_scheme \<times> i32 \<Rightarrow> 'a mmkernel_scheme \<times> i32" where
  "recycle_top recycleBase =
    fold (\<lambda>vpn2 (s, n).
      if pte_at (mem s) (pa2kva PGDIR_PA) (of_nat vpn2) \<noteq> 0 \<or> pte_at (mem s) recycleBase (of_nat vpn2) = 0 then (s, n)
      else
        let second_page = table_of (pte_at (mem s) recycleBase (of_nat vpn2));
            (s, n) = recycle_mid second_page (s, n)
        in (freePage second_page s, n + 1)) [0..<PTE_NUM]"

definition recycle_page_default :: "u64 \<Rightarrow> 'a mmkernel_scheme \<Rightarrow> 'a mmkernel_scheme \<times> i32" where
  "recycle_page_default pgd s = (let (s, n) = recycle_top pgd (s, 0) in (freePage pgd s, n + 1))"

text \<open>The body of \<open>recycle_page_voilent\<close> is the same.\<close>

definition recycle_page_voilent :: "u64 \<Rightarrow> 'a mmkernel_scheme \<Rightarrow> 'a mmkernel_scheme \<times> i32" where
  "recycle_page_voilent pgd s = (let (s, n) = recycle_top pgd (s, 0) in (freePage pgd s, n + 1))"

text \<open>\<open>recycle_page_part\<close> keeps the pages of the read-only segment, of the program and of \<open>libc.so\<close> when it is
  linked dynamically, and skips tables and pages outside the kernel's memory.\<close>

definition in_kernel :: "u64 \<Rightarrow> bool" where
  "in_kernel a \<longleftrightarrow> KERNEL_ENTRYPOINT \<le> a \<and> a \<le> KERNEL_END"

definition kept :: "(u64 \<times> u64) list \<Rightarrow> u64 \<Rightarrow> bool" where
  "kept ranges vaddr \<longleftrightarrow> (\<exists>(b, t) \<in> set ranges. b \<le> vaddr \<and> vaddr \<le> t)"

definition part_low :: "(u64 \<times> u64) list \<Rightarrow> nat \<Rightarrow> nat \<Rightarrow> u64 \<Rightarrow> 'a mmkernel_scheme \<times> i32 \<Rightarrow> 'a mmkernel_scheme \<times> i32" where
  "part_low ranges vpn2 vpn1 third_page =
    fold (\<lambda>vpn0 (s, n).
      let e = pte_at (mem s) third_page (of_nat vpn0);
          vaddr = push_bit 12 (of_nat vpn0) OR push_bit 21 (of_nat vpn1) OR push_bit 30 (of_nat vpn2)
      in if e = 0 then (s, n)
         else if e AND PAGE_PRESENT = 0 \<or> e AND PAGE_SD \<noteq> 0 then (s, n)
         else if \<not> in_kernel (table_of e) then (s, n)
         else if kept ranges vaddr then (s, n)
         else (freePage (table_of e) s, n + 1)) [0..<PTE_NUM]"

definition part_mid :: "(u64 \<times> u64) list \<Rightarrow> nat \<Rightarrow> u64 \<Rightarrow> 'a mmkernel_scheme \<times> i32 \<Rightarrow> 'a mmkernel_scheme \<times> i32" where
  "part_mid ranges vpn2 second_page =
    fold (\<lambda>vpn1 (s, n).
      let e = pte_at (mem s) second_page (of_nat vpn1); third_page = table_of e
      in if e = 0 then (s, n)
         else if \<not> in_kernel third_page then (s, n)
         else let (s, n) = part_low ranges vpn2 vpn1 third_page (s, n) in (freePage third_page s, n + 1)) [0..<PTE_NUM]"

definition part_top :: "(u64 \<times> u64) list \<Rightarrow> u64 \<Rightarrow> 'a mmkernel_scheme \<times> i32 \<Rightarrow> 'a mmkernel_scheme \<times> i32" where
  "part_top ranges recycleBase =
    fold (\<lambda>vpn2 (s, n).
      let e = pte_at (mem s) recycleBase (of_nat vpn2); second_page = table_of e
      in if pte_at (mem s) (pa2kva PGDIR_PA) (of_nat vpn2) \<noteq> 0 \<or> e = 0 then (s, n)
         else if \<not> in_kernel second_page then (s, n)
         else let (s, n) = part_mid ranges vpn2 second_page (s, n) in (freePage second_page s, n + 1)) [0..<PTE_NUM]"

text \<open>The characters of \<open>libc.so\<close>.\<close>

definition libc_so :: "u8 list" where
  "libc_so = [108, 105, 98, 99, 46, 115, 111]"

definition keep_ranges :: "ptr \<Rightarrow> 'a os_scheme \<Rightarrow> (u64 \<times> u64) list option" where
  "keep_ranges el s =
    (let recycle_load = pre_elf s (elf_index el);
         own = (p_vaddr (phdr recycle_load 0), p_vaddr (phdr recycle_load 0) + p_memsz (phdr recycle_load 0))
     in if dynamic recycle_load = 0 then Some [own]
        else
          let i = find_name_elf libc_so s
          in if i = -1 then None
             else
               let ph = phdr (pre_elf s (unat i)) 0
               in Some [own, (p_vaddr ph + DYNAMIC_VADDR_PFFSET, p_vaddr ph + p_memsz ph + DYNAMIC_VADDR_PFFSET)])"

definition recycle_page_part :: "u64 \<Rightarrow> ptr \<Rightarrow> u64 \<Rightarrow> 'a os_scheme \<Rightarrow> ('a os_scheme, i32) outcome" where
  "recycle_page_part pgd el ed s =
    (if el = NULL then Panic s
     else case keep_ranges el s of
         None \<Rightarrow> Panic s
       | Some ranges \<Rightarrow> (let (s, n) = part_top ranges pgd (s, 0) in Ret (freePage pgd s) (n + 1)))"

section \<open>The pages of a tree\<close>

definition low_pages :: "mem64 \<Rightarrow> u64 \<Rightarrow> u64 list" where
  "low_pages m t = concat (map (\<lambda>i. if pte_at m t (of_nat i) = 0 then [] else [table_of (pte_at m t (of_nat i))]) [0..<PTE_NUM])"

definition mid_pages :: "mem64 \<Rightarrow> u64 \<Rightarrow> u64 list" where
  "mid_pages m t = concat (map (\<lambda>i. if pte_at m t (of_nat i) = 0 then []
     else low_pages m (table_of (pte_at m t (of_nat i))) @ [table_of (pte_at m t (of_nat i))]) [0..<PTE_NUM])"

definition tree_pages :: "mem64 \<Rightarrow> u64 \<Rightarrow> u64 list" where
  "tree_pages m r = concat (map (\<lambda>i. if pte_at m (pa2kva PGDIR_PA) (of_nat i) \<noteq> 0 \<or> pte_at m r (of_nat i) = 0 then []
     else mid_pages m (table_of (pte_at m r (of_nat i))) @ [table_of (pte_at m r (of_nat i))]) [0..<PTE_NUM]) @ [r]"

lemma mem_fold_free [simp]: "mem (fold freePage ps s) = mem s"
  by (induction ps arbitrary: s) simp_all

text \<open>A loop whose body frees a list of pages that depends on the memory only.\<close>

lemma fold_frees:
  assumes "\<And>x s n. f x (s, n) = (fold freePage (g (mem s) x) s, n + of_nat (length (g (mem s) x)) :: i32)"
  shows "fold f xs (s, n) = (fold freePage (concat (map (g (mem s)) xs)) s, n + of_nat (length (concat (map (g (mem s)) xs))))"
  by (induction xs arbitrary: s n) (simp_all add: assms algebra_simps)

lemma recycle_low_frees:
  "recycle_low t (s, n) = (fold freePage (low_pages (mem s) t) s, n + of_nat (length (low_pages (mem s) t)))"
  unfolding recycle_low_def low_pages_def by (rule fold_frees) simp

lemma recycle_mid_frees:
  "recycle_mid t (s, n) = (fold freePage (mid_pages (mem s) t) s, n + of_nat (length (mid_pages (mem s) t)))"
  unfolding recycle_mid_def mid_pages_def by (rule fold_frees) (simp add: recycle_low_frees Let_def algebra_simps)

lemma recycle_top_frees:
  "recycle_page_default r s = (fold freePage (tree_pages (mem s) r) s, of_nat (length (tree_pages (mem s) r)))"
proof -
  let ?g = "\<lambda>m i. if pte_at m (pa2kva PGDIR_PA) (of_nat i) \<noteq> 0 \<or> pte_at m r (of_nat i) = 0 then []
     else mid_pages m (table_of (pte_at m r (of_nat i))) @ [table_of (pte_at m r (of_nat i))]"
  have "recycle_top r (s, 0) = (fold freePage (concat (map (?g (mem s)) [0..<PTE_NUM])) s,
      0 + of_nat (length (concat (map (?g (mem s)) [0..<PTE_NUM]))))"
    unfolding recycle_top_def by (rule fold_frees) (simp add: recycle_mid_frees Let_def algebra_simps)
  then show ?thesis
    unfolding recycle_page_default_def by (simp add: tree_pages_def Let_def del: length_concat)
qed

lemma frees_refs:
  "page_refs s (R + mset ks) \<Longrightarrow> page_refs (fold freePage (map page_addr ks) s) R"
proof (induction ks arbitrary: s)
  case (Cons k ks)
  have "page_step (s, R + mset (k # ks)) (freePage (page_addr k) s, (R + mset (k # ks)) - {#k#})"
    by (rule page_step.free) simp
  from page_step_refs [OF this] Cons show ?case by simp
qed simp

text \<open>C21: Recycling an address space gives back exactly the references it holds: when the pages of its tree (every mapped
  page as often as it is mapped, the tables and the root) are pages of the allocator, and they and \<open>R\<close> are all the
  references there are, then \<open>R\<close> is what is left, and the number of pages given back is returned.\<close>

theorem recycle_returns_references:
  assumes "tree_pages (mem s) r = map page_addr ks" and "page_refs s (R + mset ks)"
  shows "page_refs (fst (recycle_page_default r s)) R \<and> snd (recycle_page_default r s) = of_nat (length ks)
    \<and> recycle_page_voilent r s = recycle_page_default r s"
proof -
  have "recycle_page_voilent r s = recycle_page_default r s"
    by (simp only: recycle_page_voilent_def recycle_page_default_def)
  then show ?thesis
    using frees_refs [OF assms(2)] assms(1) by (simp add: recycle_top_frees)
qed

text \<open>An address space of four pages: the root, two tables and one mapped page.\<close>

definition demo_tree :: mmkernel where
  "demo_tree = (demo_vm (entry_for 0 (page_addr 7) 0x1f))
    \<lparr>pageRecyc := (\<lambda>i. \<lparr>page_pte = 0, kva_begin = page_addr i, sd_sec = 0,
        share_num = (if i \<in> {0, 1, 2, 7} then 1 else 0), is_share = 0\<rparr>),
     page_lists := (\<lambda>q. if q = usedPageList then [0, 1, 2, 7]
        else if q = free_source_list then filter (\<lambda>i. i \<notin> {0, 1, 2, 7}) [0..<NUM_REC] else []),
     source_num := of_nat (length (filter (\<lambda>i. i \<notin> {0, 1, 2, 7}) [0..<NUM_REC]))\<rparr>"

lemma concat_single: "concat (map (\<lambda>i. if i = k then xs else []) [0..<n]) = (if k < n then xs else [])"
  by (induction n) auto

lemma map_single:
  assumes "\<And>i. i < n \<Longrightarrow> f i = (if i = k then xs else [])"
  shows "concat (map f [0..<n]) = (if k < n then xs else [])"
proof -
  have "map f [0..<n] = map (\<lambda>i. if i = k then xs else []) [0..<n]"
    using assms by simp
  then show ?thesis by (simp only: concat_single)
qed

lemma of_nat_small: "i < 512 \<Longrightarrow> (of_nat i :: u64) = 0 \<longleftrightarrow> i = 0" "i < 512 \<Longrightarrow> (of_nat i :: u64) = 1 \<longleftrightarrow> i = 1"
  using unat_of_nat_u64 [of i] by (auto dest: arg_cong [of _ _ unat])

lemma demo_tree_pages: "tree_pages (mem demo_tree) (page_addr 0) = map page_addr [7, 2, 1, 0]"
proof -
  let ?E = "entry_for 0 (page_addr 7) 0x1f" and ?m = "mem demo_tree"
  have m: "?m = mem (demo_vm ?E)"
    by (simp add: demo_tree_def)
  let ?t1 = "entry_for 0 (page_addr 1) PAGE_PRESENT" and ?t2 = "entry_for 0 (page_addr 2) PAGE_PRESENT"
  have p2: "pte_at ?m (page_addr 2) (of_nat i) = (if i = 1 then ?E else 0)" if "i < 512" for i
    using demo_vm_pte [OF demo_pages(6) of_nat_slot [OF that], of ?E] demo_pages(1-3) of_nat_small [OF that] by (simp add: m)
  have p1: "pte_at ?m (page_addr 1) (of_nat i) = (if i = 0 then ?t2 else 0)" if "i < 512" for i
    using demo_vm_pte [OF demo_pages(5) of_nat_slot [OF that], of ?E] demo_pages(1-3) of_nat_small [OF that] by (simp add: m)
  have p0: "pte_at ?m (page_addr 0) (of_nat i) = (if i = 0 then ?t1 else 0)" if "i < 512" for i
    using demo_vm_pte [OF demo_pages(4) of_nat_slot [OF that], of ?E] demo_pages(1-3) of_nat_small [OF that] by (simp add: m)
  have pk: "pte_at ?m (pa2kva PGDIR_PA) (of_nat i) = 0" if "i < 512" for i
  proof -
    have "page_aligned (pa2kva PGDIR_PA)" "pa2kva PGDIR_PA \<noteq> page_addr 0" "pa2kva PGDIR_PA \<noteq> page_addr 1" "pa2kva PGDIR_PA \<noteq> page_addr 2"
      by (simp_all add: pa2kva_def page_aligned_def page_addr_def mask_eq_exp_minus_1)
    then show ?thesis
      using demo_vm_pte [OF _ of_nat_slot [OF that], of "pa2kva PGDIR_PA" ?E] by (simp add: m)
  qed
  have flg: "table_flags 0x1f"
    by (simp add: table_flags_def mask_eq_exp_minus_1)
  have E: "?E \<noteq> 0" "table_of ?E = page_addr 7" "?t1 \<noteq> 0" "?t2 \<noteq> 0"
    using entry_present(2) [OF flg] table_of_entry_for [OF kpage_page_addr flg] entry_present(2) [OF table_flags_present] by simp_all
  have "low_pages ?m (page_addr 2) = [page_addr 7]"
    unfolding low_pages_def by (subst map_single [where k = 1 and xs = "[page_addr 7]"]) (use p2 [of 1] in \<open>simp_all add: p2 E\<close>)
  then have "mid_pages ?m (page_addr 1) = [page_addr 7, page_addr 2]"
    unfolding mid_pages_def
    by (subst map_single [where k = 0 and xs = "[page_addr 7, page_addr 2]"]) (use p1 [of 0] in \<open>simp_all add: p1 E demo_tables del: One_nat_def\<close>)
  then show ?thesis
    unfolding tree_pages_def
    by (subst map_single [where k = 0 and xs = "[page_addr 7, page_addr 2, page_addr 1]"])
      (use p0 [of 0] pk [of 0] in \<open>simp_all add: p0 pk E demo_tables del: One_nat_def\<close>)
qed

lemma demo_tree_refs: "page_refs demo_tree ({#} + mset [7, 2, 1, 0])"
proof -
  have L: "page_lists demo_tree q = (if q = usedPageList then [0, 1, 2, 7]
      else if q = free_source_list then filter (\<lambda>i. i \<notin> {0, 1, 2, 7}) [0..<NUM_REC] else [])" for q
    by (simp add: demo_tree_def)
  have share: "share_num (pageRecyc demo_tree i) = (if i \<in> {0, 1, 2, 7} then 1 else 0)" for i
    by (simp add: demo_tree_def)
  have "mm_inv demo_tree"
  proof (rule mm_invI)
    show "store_inv (page_lists demo_tree)"
      by (rule store_invI; simp only: L split: if_splits) auto
    have "queued i (page_lists demo_tree) \<longleftrightarrow> i \<in> set (page_lists demo_tree usedPageList) \<or> i \<in> set (page_lists demo_tree free_source_list)" for i
      unfolding queued_def L by (auto split: if_splits)
    then show "queued i (page_lists demo_tree) \<longleftrightarrow> i < NUM_REC" for i
      by (simp add: L) auto
    show "i \<in> set (page_lists demo_tree free_source_list) \<longleftrightarrow> share_num (pageRecyc demo_tree i) = 0" if "i < NUM_REC" for i
      using that by (simp add: L share)
  qed (simp_all add: L, simp_all add: demo_tree_def page_addr_def)
  then show ?thesis
    by (simp add: page_refs_def share)
qed

lemma recycle_returns_references_witness:
  "page_refs (fst (recycle_page_default (page_addr 0) demo_tree)) {#} \<and> snd (recycle_page_default (page_addr 0) demo_tree) = 4"
  using recycle_returns_references [OF demo_tree_pages demo_tree_refs] by simp

end
