(* ===== verification/Files.thy ===== *)
theory Files
  imports Fault
begin

text \<open>
  File descriptors (\<open>kernel/fat32/file.c\<close>) and pipes (\<open>kernel/fat32/pipe.c\<close>), with \<open>read_ring_buffer\<close> of
  \<open>include/os/ring_buffer.h\<close>. A pointer to a table of descriptors is the index of the table in \<open>pfd_table\<close>; the
  bytes a read stores at its destination are part of its result.
\<close>

section \<open>Descriptors\<close>

definition upd_fd :: "nat \<Rightarrow> nat \<Rightarrow> (fd \<Rightarrow> fd) \<Rightarrow> 'a os_scheme \<Rightarrow> 'a os_scheme" where
  "upd_fd t i f s = s\<lparr>pfd_tab := (pfd_tab s)(t := (pfd_tab s t)\<lparr>table_pfd :=
     (table_pfd (pfd_tab s t))(i := f (table_pfd (pfd_tab s t) i))\<rparr>)\<rparr>"

definition fd_at :: "'a os_scheme \<Rightarrow> nat \<Rightarrow> nat \<Rightarrow> fd" where
  "fd_at s t i = table_pfd (pfd_tab s t) i"

definition upd_pipe :: "nat \<Rightarrow> (pipe \<Rightarrow> pipe) \<Rightarrow> 'a os_scheme \<Rightarrow> 'a os_scheme" where
  "upd_pipe i f s = s\<lparr>pipe_tab := (pipe_tab s)(i := f (pipe_tab s i))\<rparr>"

definition init_fd :: "nat \<Rightarrow> 'a os_scheme \<Rightarrow> 'a os_scheme" where
  "init_fd t s =
    (let s = upd_fd t 0 (\<lambda>f. f\<lparr>dev := DEV_STDIN, fd_num := 0, fd_used := FD_USED\<rparr>) s;
         s = upd_fd t 1 (\<lambda>f. f\<lparr>dev := DEV_STDOUT, fd_num := 1, fd_used := FD_USED\<rparr>) s;
         s = upd_fd t 2 (\<lambda>f. f\<lparr>dev := DEV_STDERR, fd_num := 2, fd_used := FD_USED\<rparr>) s
     in fold (\<lambda>i. upd_fd t i (\<lambda>f. f\<lparr>dev := DEV_DEFAULT, fd_num := of_nat i, fd_used := FD_UNUSED\<rparr>)) [3..<MAX_FD_NUM] s)"

text \<open>\<open>copy_fd(&dst[i], &src[j])\<close>: the copy of a pipe end counts.\<close>

definition copy_fd :: "nat \<Rightarrow> nat \<Rightarrow> nat \<Rightarrow> nat \<Rightarrow> 'a os_scheme \<Rightarrow> 'a os_scheme" where
  "copy_fd dt di st si s =
    (let src = fd_at s st si; p = unat (pip_num src);
         s = (if fd_used src \<noteq> 0 \<and> dev src = DEV_PIPE then
                if is_pipe_read src \<noteq> 0 then upd_pipe p (\<lambda>p. p\<lparr>r_valid := r_valid p + 1\<rparr>) s
                else if is_pipe_write src \<noteq> 0 then upd_pipe p (\<lambda>p. p\<lparr>w_valid := w_valid p + 1\<rparr>) s
                else s
              else s)
     in upd_fd dt di (\<lambda>_. src) s)"

text \<open>The number of descriptors of the process that may be used.\<close>

definition fd_taken :: "'a os_scheme \<Rightarrow> nat \<Rightarrow> u32 \<Rightarrow> bool" where
  "fd_taken s t n \<longleftrightarrow> (\<exists>i < MAX_FILE_NUM s. fd_used (fd_at s t i) \<noteq> 0 \<and> fd_num (fd_at s t i) = n)"

text \<open>\<open>while (!ok)\<close> of \<open>get_one_fd\<close>: the number is increased as long as some descriptor has it.\<close>

fun free_num :: "nat \<Rightarrow> (u32 \<Rightarrow> bool) \<Rightarrow> u32 \<Rightarrow> u32 option" where
  "free_num 0 tk alloc_fd = None"
| "free_num (Suc n) tk alloc_fd = (if tk alloc_fd then free_num n tk (alloc_fd + 1) else Some alloc_fd)"

text \<open>One more round than there are descriptors is enough; \<open>None\<close> would be a loop that does not end.\<close>

definition get_one_fd :: "pcb_ref \<Rightarrow> 'a os_scheme \<Rightarrow> ('a os_scheme \<times> u32) option" where
  "get_one_fd r s =
    (let t = pfd (pcb_tab s r) in
     case free_num (MAX_FILE_NUM s + 1) (fd_taken s t) 0 of
       None \<Rightarrow> None
     | Some alloc_fd \<Rightarrow>
         (case first_index (\<lambda>i. fd_used (fd_at s t i) = 0) [0..<MAX_FILE_NUM s] of
            None \<Rightarrow> Some (s, -1)
          | Some i \<Rightarrow> Some (upd_fd t i (\<lambda>f. f\<lparr>fd_used := 1, fd_num := alloc_fd\<rparr>) s, alloc_fd)))"

text \<open>The descriptors of a redirection; an index is an \<open>uint8_t\<close>, so a chain of more than 256 goes round.\<close>

fun redirect :: "nat \<Rightarrow> 'a os_scheme \<Rightarrow> nat \<Rightarrow> nat \<Rightarrow> nat option" where
  "redirect 0 s t i = None"
| "redirect (Suc n) s t i =
    (if dev (fd_at s t i) = DEV_DEFAULT \<and> redirected (fd_at s t i) \<noteq> 0
     then redirect n s t (unat (redirected_fd_index (fd_at s t i))) else Some i)"

text \<open>The outer option is \<open>None\<close> when the redirections go round; the inner one is the result \<open>-1\<close>.\<close>

definition get_fd_index :: "u32 \<Rightarrow> pcb_ref \<Rightarrow> 'a os_scheme \<Rightarrow> nat option option" where
  "get_fd_index n r s =
    (let t = pfd (pcb_tab s r) in
     case first_index (\<lambda>i. fd_used (fd_at s t i) \<noteq> 0 \<and> fd_num (fd_at s t i) = n) [0..<MAX_FILE_NUM s] of
       None \<Rightarrow> Some None
     | Some i \<Rightarrow> (case redirect 258 s t i of
         None \<Rightarrow> None
       | Some i \<Rightarrow> if dev (fd_at s t i) = DEV_DEFAULT \<and> fd_used (fd_at s t i) = 0 then Some None else Some (Some i)))"

definition get_fd_index_without_redirect :: "u32 \<Rightarrow> pcb_ref \<Rightarrow> 'a os_scheme \<Rightarrow> nat option" where
  "get_fd_index_without_redirect n r s =
    first_index (\<lambda>i. fd_used (fd_at s (pfd (pcb_tab s r)) i) \<noteq> 0 \<and> fd_num (fd_at s (pfd (pcb_tab s r)) i) = n) [0..<MAX_FILE_NUM s]"

definition init_fd_table :: "'a os_scheme \<Rightarrow> 'a os_scheme" where
  "init_fd_table s = s\<lparr>pfd_tab := (\<lambda>i. if i < MAX_FD_TABLE then (pfd_tab s i)\<lparr>table_num := 0, table_used := 0\<rparr> else pfd_tab s i)\<rparr>"

text \<open>With no table left: \<open>assert(0)\<close>.\<close>

definition alloc_fd_table :: "'a os_scheme \<Rightarrow> ('a os_scheme, nat) outcome" where
  "alloc_fd_table s =
    (case first_index (\<lambda>i. table_used (pfd_tab s i) = 0) [0..<MAX_FD_TABLE] of
       None \<Rightarrow> Panic s
     | Some i \<Rightarrow> Ret (s\<lparr>pfd_tab := (pfd_tab s)(i := (pfd_tab s i)\<lparr>table_used := 1, table_num := 1\<rparr>)\<rparr>) i)"

text \<open>\<open>update_fd_length(&pfd_table[t].pfd[i])\<close>.\<close>

definition update_fd_length :: "nat \<Rightarrow> nat \<Rightarrow> 'a os_scheme \<Rightarrow> 'a os_scheme" where
  "update_fd_length t i s =
    (let src = fd_at s t i in
     s\<lparr>pfd_tab := (\<lambda>k. if k < MAX_FD_TABLE \<and> table_used (pfd_tab s k) \<noteq> 0
        then (pfd_tab s k)\<lparr>table_pfd := (\<lambda>j. let f = fd_at s k j in
           if j < MAX_FILE_NUM s \<and> fd_used f \<noteq> 0 \<and> (k, j) \<noteq> (t, i) \<and> fd_name f = fd_name src
           then f\<lparr>fd_length := fd_length src\<rparr> else f)\<rparr>
        else pfd_tab s k)\<rparr>)"

section \<open>Reading a ring buffer\<close>

text \<open>The buffer is at a place of the state given by \<open>get\<close> and \<open>put\<close>, with its mutex at \<open>l\<close>.\<close>

definition read_ring_buffer :: "'a os_scheme lseek_fun \<Rightarrow> 'a os_scheme read_fun \<Rightarrow> ptr \<Rightarrow> ('a os_scheme \<Rightarrow> ring_buffer) \<Rightarrow>
    (ring_buffer \<Rightarrow> 'a os_scheme \<Rightarrow> 'a os_scheme) \<Rightarrow> ptr \<Rightarrow> u64 \<Rightarrow> 'a os_scheme \<Rightarrow> ('a os_scheme, u8 list) outcome" where
  "read_ring_buffer lseek rd l get put buf sz s =
    obind (handle_page_fault_store lseek rd buf s) (\<lambda>s _.
    obind (do_mutex_lock_acquire l s) (\<lambda>s _.
      case rb_read (get s) sz of
        None \<Rightarrow> Panic s
      | Some (rb, bytes) \<Rightarrow> Ret (do_mutex_lock_release l (put rb s)) bytes))"

definition write_ring :: "ptr \<Rightarrow> ('a os_scheme \<Rightarrow> ring_buffer) \<Rightarrow> (ring_buffer \<Rightarrow> 'a os_scheme \<Rightarrow> 'a os_scheme) \<Rightarrow>
    u8 list \<Rightarrow> u64 \<Rightarrow> 'a os_scheme \<Rightarrow> ('a os_scheme, i32) outcome" where
  "write_ring l get put d sz s =
    obind (write_ring_buffer l (get s) d sz s) (\<lambda>s (rb, len). Ret (put rb s) len)"

section \<open>Pipes\<close>

text \<open>The address of the mutex of pipe \<open>i\<close>.\<close>

definition pipe_lock :: "nat \<Rightarrow> ptr" where
  "pipe_lock i = of_nat (64 * i) + 0x10000"

abbreviation pipe_ring :: "nat \<Rightarrow> 'a os_scheme \<Rightarrow> ring_buffer" where
  "pipe_ring i s \<equiv> rbuf (pipe_tab s i)"

abbreviation put_ring :: "nat \<Rightarrow> ring_buffer \<Rightarrow> 'a os_scheme \<Rightarrow> 'a os_scheme" where
  "put_ring i rb \<equiv> upd_pipe i (\<lambda>p. p\<lparr>rbuf := rb\<rparr>)"

definition init_one_pipe :: "nat \<Rightarrow> 'a os_scheme \<Rightarrow> 'a os_scheme" where
  "init_one_pipe i s =
    (let s = s\<lparr>queues := (queues s)(WaitQ (pipe_r_list i) := [], WaitQ (pipe_w_list i) := [])\<rparr>;
         s = upd_pipe i (\<lambda>p. p\<lparr>rbuf := init_ring_buffer, rbuf_page := NULL\<rparr>) (do_mutex_lock_init (pipe_lock i) s)
     in upd_pipe i (\<lambda>p. p\<lparr>r_valid := 0, w_valid := 0\<rparr>) s)"

definition init_pipe :: "'a os_scheme \<Rightarrow> 'a os_scheme" where
  "init_pipe s = fold init_one_pipe [0..<PIPE_NUM] s"

text \<open>The loop of \<open>pipe_read\<close>; a process that was blocked comes back to it. The result is the number of bytes
  with the bytes.\<close>

definition pipe_read_loop :: "'a os_scheme lseek_fun \<Rightarrow> 'a os_scheme read_fun \<Rightarrow> ptr \<Rightarrow> nat \<Rightarrow> u64 \<Rightarrow> 'a os_scheme \<Rightarrow>
    ('a os_scheme, int \<times> u8 list) outcome" where
  "pipe_read_loop lseek rd buf i cnt s =
    obind (read_ring_buffer lseek rd (pipe_lock i) (pipe_ring i) (put_ring i) buf cnt s) (\<lambda>s bytes.
      if bytes = [] then
        if w_valid (pipe_tab s i) = 0 then Ret s (0, [])
        else obind (do_block (get_current_running s) (pipe_r_list i) s) (\<lambda>s _. Blocked s)
      else Ret (wake_all (pipe_w_list i) s) (int (length bytes), bytes))"

definition pipe_read :: "'a os_scheme lseek_fun \<Rightarrow> 'a os_scheme read_fun \<Rightarrow> ptr \<Rightarrow> nat \<Rightarrow> u64 \<Rightarrow> 'a os_scheme \<Rightarrow>
    ('a os_scheme, int \<times> u8 list) outcome" where
  "pipe_read lseek rd buf i cnt s =
    (if cnt = 0 then Ret s (0, [])
     else if r_valid (pipe_tab s i) = 0 then Ret s (- EINVAL, [])
     else pipe_read_loop lseek rd buf i cnt s)"

definition pipe_write_loop :: "u8 list \<Rightarrow> nat \<Rightarrow> u64 \<Rightarrow> 'a os_scheme \<Rightarrow> ('a os_scheme, int) outcome" where
  "pipe_write_loop d i cnt s =
    obind (write_ring (pipe_lock i) (pipe_ring i) (put_ring i) d cnt s) (\<lambda>s w_size.
      if w_size = 0 then
        if r_valid (pipe_tab s i) = 0 then Ret s 0
        else obind (do_block (get_current_running s) (pipe_w_list i) s) (\<lambda>s _. Blocked s)
      else Ret (wake_all (pipe_r_list i) s) (sint w_size))"

definition pipe_write :: "u8 list \<Rightarrow> nat \<Rightarrow> u64 \<Rightarrow> 'a os_scheme \<Rightarrow> ('a os_scheme, int) outcome" where
  "pipe_write d i cnt s =
    (if w_valid (pipe_tab s i) = 0 then Ret s (- EINVAL) else pipe_write_loop d i cnt s)"

text \<open>The last end to be closed frees the page of the buffer.\<close>

definition free_pipe_page :: "nat \<Rightarrow> 'a os_scheme \<Rightarrow> 'a os_scheme" where
  "free_pipe_page i s =
    (if r_valid (pipe_tab s i) = 0 \<and> w_valid (pipe_tab s i) = 0
     then upd_pipe i (\<lambda>p. p\<lparr>rbuf := (rbuf p)\<lparr>rb_buf := []\<rparr>, rbuf_page := NULL\<rparr>) (kfree (rbuf_page (pipe_tab s i)) s)
     else s)"

definition close_pipe_read :: "nat \<Rightarrow> 'a os_scheme \<Rightarrow> 'a os_scheme \<times> int" where
  "close_pipe_read i s =
    (if r_valid (pipe_tab s i) = 0 then (s, - EINVAL)
     else (free_pipe_page i (upd_pipe i (\<lambda>p. p\<lparr>r_valid := r_valid p - 1\<rparr>) s), 0))"

definition close_pipe_write :: "nat \<Rightarrow> 'a os_scheme \<Rightarrow> 'a os_scheme \<times> int" where
  "close_pipe_write i s =
    (if w_valid (pipe_tab s i) = 0 then (s, - EINVAL)
     else (free_pipe_page i (upd_pipe i (\<lambda>p. p\<lparr>w_valid := w_valid p - 1\<rparr>) s), 0))"

text \<open>The new page is cleared by \<^const>\<open>allocPage\<close>.\<close>

definition alloc_one_pipe :: "'a os_scheme \<Rightarrow> ('a os_scheme, int) outcome" where
  "alloc_one_pipe s =
    (case first_index (\<lambda>i. r_valid (pipe_tab s i) = 0 \<and> w_valid (pipe_tab s i) = 0) [0..<PIPE_NUM] of
       None \<Rightarrow> Ret s (- ENFILE)
     | Some i \<Rightarrow>
         let s = upd_pipe i (\<lambda>p. p\<lparr>r_valid := 1, w_valid := 1, pipe_pid := pid (cur_pcb s)\<rparr>) s;
             s = upd_pipe i (\<lambda>p. p\<lparr>rbuf := init_ring_buffer, rbuf_page := NULL\<rparr>) (do_mutex_lock_init (pipe_lock i) s)
         in obind (kmalloc PAGE_SIZE s) (\<lambda>s page.
            Ret (upd_pipe i (\<lambda>p. p\<lparr>rbuf := (rbuf p)\<lparr>rb_buf := replicate 4096 0\<rparr>, rbuf_page := page\<rparr>) s) (int i)))"

definition close_fd_pipe :: "fd \<Rightarrow> 'a os_scheme \<Rightarrow> 'a os_scheme" where
  "close_fd_pipe f s =
    (if dev f = DEV_PIPE then
       if is_pipe_read f \<noteq> 0 then fst (close_pipe_read (unat (pip_num f)) s)
       else if is_pipe_write f \<noteq> 0 then fst (close_pipe_write (unat (pip_num f)) s)
       else s
     else s)"

definition free_fd_table :: "nat \<Rightarrow> 'a os_scheme \<Rightarrow> 'a os_scheme" where
  "free_fd_table t s =
    (let s = s\<lparr>pfd_tab := (pfd_tab s)(t := (pfd_tab s t)\<lparr>table_num := table_num (pfd_tab s t) - 1\<rparr>)\<rparr>
     in if table_num (pfd_tab s t) \<noteq> 0 then s
        else fold (\<lambda>i s. upd_fd t i (\<lambda>f. f\<lparr>fd_used := FD_UNUSED, dev := DEV_DEFAULT, fd_flags := 0, fd_mode := 0,
                 redirected := 0, fd_mmap := (fd_mmap f)\<lparr>mmap_used := 0\<rparr>\<rparr>) (close_fd_pipe (fd_at s t i) s))
               [0..<MAX_FD_NUM] (s\<lparr>pfd_tab := (pfd_tab s)(t := (pfd_tab s t)\<lparr>table_used := 0\<rparr>)\<rparr>))"

section \<open>Descriptors for a pipe\<close>

text \<open>\<open>get_one_cpt\<close> of \<open>kernel/utils/special_ctx.c\<close>.\<close>

definition get_one_cpt :: "pcb_ref \<Rightarrow> 'a os_scheme \<Rightarrow> 'a os_scheme \<times> u32" where
  "get_one_cpt r s =
    (let a = ctx_pipe_array (pcb_tab s r) in
     case first_index (\<lambda>i. cpt_used (ctx_pipes s a i) = FD_UNUSED) [0..<PIPE_ARRAY] of
       None \<Rightarrow> (s, -1)
     | Some i \<Rightarrow> (s\<lparr>ctx_pipes := (ctx_pipes s)(a := (ctx_pipes s a)(i := (ctx_pipes s a i)\<lparr>cpt_used := FD_USED\<rparr>))\<rparr>, of_nat i))"

definition cpt_for_pipe :: "u8 \<Rightarrow> nat \<Rightarrow> 'a os_scheme \<Rightarrow> ('a os_scheme, u32) outcome" where
  "cpt_for_pipe ty i s =
    (let r = get_current_running s; a = ctx_pipe_array (pcb_tab s r); (s, n) = get_one_cpt r s
     in if n = -1 then Panic s
        else Ret (s\<lparr>ctx_pipes := (ctx_pipes s)(a := (ctx_pipes s a)(unat n :=
               (ctx_pipes s a (unat n))\<lparr>cpt_dev := DEV_PIPE, cpt_fd_num := of_nat i, pipe_type := ty\<rparr>))\<rparr>) n)"

text \<open>A descriptor that is not found is written at index \<open>-1\<close>, outside the table.\<close>

definition fd_for_pipe :: "bool \<Rightarrow> nat \<Rightarrow> 'a os_scheme \<Rightarrow> ('a os_scheme, u32) outcome" where
  "fd_for_pipe rd_end i s =
    (let r = get_current_running s in
     case get_one_fd r s of
       None \<Rightarrow> Panic s
     | Some (s, n) \<Rightarrow> (case get_fd_index n r s of
         Some (Some k) \<Rightarrow>
           Ret (upd_fd (pfd (pcb_tab s r)) k (\<lambda>f. f\<lparr>dev := DEV_PIPE, pip_num := of_nat i,
             is_pipe_read := of_bool rd_end, is_pipe_write := of_bool (\<not> rd_end)\<rparr>) s) n
       | _ \<Rightarrow> Panic s))"

text \<open>The result is \<open>fd[0]\<close> and \<open>fd[1]\<close> with the return value.\<close>

definition fat32_pipe2 :: "'a os_scheme \<Rightarrow> ('a os_scheme, u32 \<times> u32 \<times> int) outcome" where
  "fat32_pipe2 s =
    obind (alloc_one_pipe s) (\<lambda>s p.
      if p < 0 then Ret s (0, 0, p)
      else if status_ctx s \<noteq> 0 then
        obind (cpt_for_pipe PIPE_READ (nat p) s) (\<lambda>s fd0.
        obind (cpt_for_pipe PIPE_WRITE (nat p) s) (\<lambda>s fd1. Ret s (fd0, fd1, 0)))
      else
        obind (fd_for_pipe True (nat p) s) (\<lambda>s fd0.
        obind (fd_for_pipe False (nat p) s) (\<lambda>s fd1. Ret s (fd0, fd1, 0))))"

section \<open>The smallest free number\<close>

lemma free_num_SomeD:
  "free_num k tk a = Some n \<Longrightarrow> \<not> tk n \<and> (\<exists>j < k. n = a + of_nat j \<and> (\<forall>i < j. tk (a + of_nat i)))"
proof (induction k tk a rule: free_num.induct)
  case (2 k tk a)
  show ?case
  proof (cases "tk a")
    case True
    with 2 obtain j where j: "\<not> tk n" "j < k" "n = a + 1 + of_nat j" "\<forall>i < j. tk (a + 1 + of_nat i)"
      by auto
    have "\<forall>i < Suc j. tk (a + of_nat i)"
    proof (intro allI impI)
      fix i assume "i < Suc j"
      then show "tk (a + of_nat i)"
        using j(4) True by (cases i) (auto simp: add.assoc)
    qed
    then show ?thesis
      using j(1-3) by (intro conjI exI [of _ "Suc j"]) (auto simp: add.assoc)
  qed (use 2 in auto)
qed simp

lemma free_num_NoneD: "free_num k tk a = None \<Longrightarrow> i < k \<Longrightarrow> tk (a + of_nat i)"
proof (induction k tk a arbitrary: i rule: free_num.induct)
  case (2 k tk a)
  then show ?case
    by (cases i) (auto simp: add.assoc split: if_splits)
qed simp

text \<open>A table of \<open>n\<close> descriptors cannot have all of \<open>n + 1\<close> numbers.\<close>

lemma free_num_ends:
  assumes "MAX_FILE_NUM s < 2 ^ 32"
  shows "free_num (MAX_FILE_NUM s + 1) (fd_taken s t) 0 \<noteq> None"
proof
  let ?n = "MAX_FILE_NUM s" and ?num = "\<lambda>i. fd_num (fd_at s t i)"
  assume none: "free_num (?n + 1) (fd_taken s t) 0 = None"
  have "(of_nat :: nat \<Rightarrow> u32) ` {..<?n + 1} \<subseteq> ?num ` {..<?n}"
  proof
    fix w :: u32 assume "w \<in> of_nat ` {..<?n + 1}"
    then have "fd_taken s t w"
      using free_num_NoneD [OF none] by fastforce
    then show "w \<in> ?num ` {..<?n}"
      by (auto simp: fd_taken_def)
  qed
  then have "card ((of_nat :: nat \<Rightarrow> u32) ` {..<?n + 1}) \<le> card (?num ` {..<?n})"
    by (intro card_mono) auto
  also have "\<dots> \<le> ?n"
    using card_image_le [of "{..<?n}" ?num] by simp
  finally have "card ((of_nat :: nat \<Rightarrow> u32) ` {..<?n + 1}) \<le> ?n" .
  moreover have "inj_on (of_nat :: nat \<Rightarrow> u32) {..<?n + 1}"
    using assms by (intro inj_onI) (auto simp: word_of_nat_eq_iff take_bit_nat_eq_self)
  ultimately show False
    by (simp add: card_image)
qed

lemma first_index_upt: "first_index P [0..<n] = Some i \<longleftrightarrow> i < n \<and> P i \<and> (\<forall>j < i. \<not> P j)"
  by (auto simp: first_index_Some)

lemma fd_at_upd_fd [simp]:
  "fd_at (upd_fd t i f s) u j = (if u = t \<and> j = i then f (fd_at s t i) else fd_at s u j)"
  by (simp add: fd_at_def upd_fd_def)

lemma upd_fd_frame [simp]:
  "mylimit (upd_fd t i f s) = mylimit s" "pcb_tab (upd_fd t i f s) = pcb_tab s"
  "pipe_tab (upd_fd t i f s) = pipe_tab s" "status_ctx (upd_fd t i f s) = status_ctx s"
  by (simp_all add: upd_fd_def)

lemma fd_at_fold_upd_fd:
  "distinct is \<Longrightarrow> fd_at (fold (\<lambda>i. upd_fd t i (g i)) is s) t j = (if j \<in> set is then g j (fd_at s t j) else fd_at s t j)"
  by (induction "is" arbitrary: s) auto

lemma fd_at_init_fd:
  "j < MAX_FD_NUM \<Longrightarrow> fd_at (init_fd t s) t j =
    (fd_at s t j)\<lparr>dev := (if j < 3 then of_nat j else DEV_DEFAULT), fd_num := of_nat j, fd_used := of_bool (j < 3)\<rparr>"
proof -
  consider "j = 0" | "j = 1" | "j = 2" | "j \<ge> 3"
    by linarith
  then show "j < MAX_FD_NUM \<Longrightarrow> ?thesis"
    unfolding init_fd_def Let_def fd_at_fold_upd_fd [OF distinct_upt] set_upt by cases simp_all
qed

lemma init_fd_frame [simp]:
  "mylimit (init_fd t s) = mylimit s" "pcb_tab (init_fd t s) = pcb_tab s"
proof -
  have "mylimit (fold (\<lambda>i. upd_fd t i (g i)) is s) = mylimit s \<and> pcb_tab (fold (\<lambda>i. upd_fd t i (g i)) is s) = pcb_tab s"
    for g "is" and s :: "'a os_scheme"
    by (induction "is" arbitrary: s) auto
  then show "mylimit (init_fd t s) = mylimit s" "pcb_tab (init_fd t s) = pcb_tab s"
    unfolding init_fd_def Let_def by (metis upd_fd_frame(1), metis upd_fd_frame(2))
qed

text \<open>C23: \<open>get_one_fd\<close> ends, whatever numbers the descriptors have. With a descriptor left it gives the smallest
  number no open descriptor has, the descriptor is found again under this number, and no open descriptor of any
  table has changed; with none left it returns \<open>-1\<close> and changes nothing.\<close>

theorem get_one_fd_lowest:
  assumes "MAX_FILE_NUM s < 2 ^ 32"
  shows "\<exists>s' n. get_one_fd r s = Some (s', n) \<and>
    (if \<exists>i < MAX_FILE_NUM s. fd_used (fd_at s (pfd (pcb_tab s r)) i) = 0 then
       \<not> fd_taken s (pfd (pcb_tab s r)) n \<and> (\<forall>m. m < n \<longrightarrow> fd_taken s (pfd (pcb_tab s r)) m) \<and>
       (\<exists>i. get_fd_index_without_redirect n r s' = Some i \<and> fd_used (fd_at s (pfd (pcb_tab s r)) i) = 0) \<and>
       (\<forall>u j. fd_used (fd_at s u j) \<noteq> 0 \<longrightarrow> fd_at s' u j = fd_at s u j)
     else s' = s \<and> n = -1)"
proof -
  let ?t = "pfd (pcb_tab s r)" and ?n = "MAX_FILE_NUM s"
  obtain n where n: "free_num (?n + 1) (fd_taken s ?t) 0 = Some n"
    using free_num_ends [OF assms] by auto
  from free_num_SomeD [OF n] obtain j where j: "\<not> fd_taken s ?t n" "j \<le> ?n" "n = of_nat j"
      "\<And>i. i < j \<Longrightarrow> fd_taken s ?t (of_nat i)"
    by (auto simp: less_Suc_eq_le)
  have least: "fd_taken s ?t m" if "m < n" for m
  proof -
    have "unat n = j"
      using j(2,3) assms by (simp add: unat_of_nat_i32)
    then have "unat m < j"
      using that by (simp add: word_less_nat_alt)
    from j(4) [OF this] show ?thesis
      by simp
  qed
  show ?thesis
  proof (cases "first_index (\<lambda>i. fd_used (fd_at s ?t i) = 0) [0..<?n]")
    case None
    then have "\<forall>i < ?n. fd_used (fd_at s ?t i) \<noteq> 0"
      by simp
    moreover have "get_one_fd r s = Some (s, -1)"
      using None n by (simp add: get_one_fd_def Let_def del: free_num.simps first_index_None)
    ultimately show ?thesis
      by auto
  next
    case (Some i)
    let ?s = "upd_fd ?t i (\<lambda>f. f\<lparr>fd_used := 1, fd_num := n\<rparr>) s"
    have i: "i < ?n" "fd_used (fd_at s ?t i) = 0"
      using Some by (auto simp: first_index_upt)
    have "get_fd_index_without_redirect n r ?s = Some i"
      using i j(1) by (auto simp: get_fd_index_without_redirect_def first_index_upt fd_taken_def)
    moreover have "get_one_fd r s = Some (?s, n)"
      using n Some by (simp add: get_one_fd_def Let_def del: free_num.simps)
    moreover have "\<forall>u k. fd_used (fd_at s u k) \<noteq> 0 \<longrightarrow> fd_at ?s u k = fd_at s u k"
      using i(2) by auto
    ultimately show ?thesis
      using i j(1) least by auto
  qed
qed

theorem get_one_fd_lowest_witness:
  "\<exists>s'. get_one_fd (PCB 1) (init_fd 0 demo_os) = Some (s', 3)"
proof -
  let ?s = "init_fd 0 demo_os"
  have lim: "MAX_FILE_NUM ?s = 110" and t: "pfd (pcb_tab ?s (PCB 1)) = 0"
    by (simp_all add: demo_os_simps demo_simps)
  have taken: "fd_taken ?s 0 m \<longleftrightarrow> m < 3" for m
  proof -
    have "(\<exists>i < 110. i < 3 \<and> (of_nat i :: u32) = m) \<longleftrightarrow> m < 3"
      by (auto simp: word_less_nat_alt unat_of_nat_i32 intro!: exI [of _ "unat m"])
    then show ?thesis
      using lim by (auto simp: fd_taken_def fd_at_init_fd)
  qed
  have "\<exists>i < MAX_FILE_NUM ?s. fd_used (fd_at ?s 0 i) = 0"
    using lim by (intro exI [of _ 3]) (simp add: fd_at_init_fd)
  with get_one_fd_lowest [of ?s "PCB 1"] lim obtain s' n where "get_one_fd (PCB 1) ?s = Some (s', n)"
    and n: "\<not> n < 3" "\<forall>m. m < n \<longrightarrow> m < 3"
    unfolding t taken by auto
  moreover have "n = 3"
    using n(1) n(2) [rule_format, of 3] by (metis linorder_cases order_less_irrefl)
  ultimately show ?thesis
    by blast
qed

section \<open>A pipe is a byte queue\<close>

lemma pipe_tab_wake_all [simp]: "pipe_tab (wake_all w s) = pipe_tab s"
  by (induction w s rule: wake_all.induct) (subst wake_all.simps, simp)

lemma pipe_tab_upd_pipe [simp]: "pipe_tab (upd_pipe i f s) = (pipe_tab s)(i := f (pipe_tab s i))"
  by (simp add: upd_pipe_def)

lemma upd_pipe_frame [simp]:
  "queues (upd_pipe i f s) = queues s" "mutexes (upd_pipe i f s) = mutexes s" "pcb_tab (upd_pipe i f s) = pcb_tab s"
  "get_current_running (upd_pipe i f s) = get_current_running s"
  by (simp_all add: upd_pipe_def get_current_running_def get_current_cpu_id_def)

text \<open>The mutex of the pipe is free and nobody waits for it.\<close>

definition pipe_lock_free :: "nat \<Rightarrow> 'a lockkernel_scheme \<Rightarrow> bool" where
  "pipe_lock_free i s \<longleftrightarrow> mx_status (mutexes s (pipe_lock i)) = UNLOCKED \<and> queues s (WaitQ (mutex_block_queue (pipe_lock i))) = []"

definition unlocked :: "nat \<Rightarrow> 'a lockkernel_scheme \<Rightarrow> 'a lockkernel_scheme" where
  "unlocked i s = s\<lparr>mutexes := (mutexes s)(pipe_lock i := \<lparr>mx_pid = 0, mx_status = UNLOCKED\<rparr>)\<rparr>"

lemma unlocked_frame [simp]:
  "queues (unlocked i s) = queues s" "pcb_tab (unlocked i s) = pcb_tab s"
  "get_current_running (unlocked i s) = get_current_running s"
  "pipe_tab (unlocked i (t :: 'a os_scheme)) = pipe_tab t"
  by (simp_all add: unlocked_def get_current_running_def get_current_cpu_id_def)

lemma write_ring_pipe:
  assumes "rb_inv (pipe_ring i s)" and "unat cnt = length d" and "pipe_lock_free i s"
  obtains rb where "write_ring (pipe_lock i) (pipe_ring i) (put_ring i) d cnt s
      = Ret (put_ring i rb (unlocked i s)) (of_nat (min (4094 - used_n (pipe_ring i s)) (length d)))"
    and "rb_inv rb" and "contents rb = contents (pipe_ring i s) @ take (4094 - used_n (pipe_ring i s)) d"
proof -
  from ring.wr_law [OF assms(1,2)] obtain rb where
    rb: "rb_write (pipe_ring i s) d cnt = Some (rb, of_nat (min (4094 - used_n (pipe_ring i s)) (length d)))"
    and "rb_inv rb" "contents rb = contents (pipe_ring i s) @ take (4094 - used_n (pipe_ring i s)) d"
    by auto
  moreover have "write_ring (pipe_lock i) (pipe_ring i) (put_ring i) d cnt s
      = Ret (put_ring i rb (unlocked i s)) (of_nat (min (4094 - used_n (pipe_ring i s)) (length d)))"
    using rb assms(3)
    by (simp add: write_ring_def write_ring_buffer_def do_mutex_lock_acquire_def do_mutex_lock_release_def
        pipe_lock_free_def klist_empty_def q_empty_def unlocked_def)
  ultimately show thesis
    using that by blast
qed

lemma read_ring_pipe:
  assumes "rb_inv (pipe_ring i s)" and "pipe_lock_free i s" and "handle_page_fault_store lseek rd buf s = Ret s ()"
  obtains rb where "read_ring_buffer lseek rd (pipe_lock i) (pipe_ring i) (put_ring i) buf cnt s
      = Ret (unlocked i (put_ring i rb s)) (take (unat cnt) (contents (pipe_ring i s)))"
    and "rb_inv rb" and "contents rb = drop (unat cnt) (contents (pipe_ring i s))"
proof -
  from ring.rd_law [OF assms(1), of cnt] obtain rb where
    rb: "rb_read (pipe_ring i s) cnt = Some (rb, take (unat cnt) (contents (pipe_ring i s)))"
    and "rb_inv rb" "contents rb = drop (unat cnt) (contents (pipe_ring i s))"
    by auto
  moreover have "read_ring_buffer lseek rd (pipe_lock i) (pipe_ring i) (put_ring i) buf cnt s
      = Ret (unlocked i (put_ring i rb s)) (take (unat cnt) (contents (pipe_ring i s)))"
    using rb assms(2,3)
    by (simp add: read_ring_buffer_def do_mutex_lock_acquire_def do_mutex_lock_release_def
        pipe_lock_free_def klist_empty_def q_empty_def unlocked_def upd_pipe_def)
  ultimately show thesis
    using that by blast
qed

lemma store_inv_move_all:
  assumes "store_inv S" and "p \<noteq> q"
  shows "store_inv (S(p := [], q := rev (S p) @ S q))"
  using assms by (intro store_invI) (auto simp: store_invD(1) dest: store_invD(2) split: if_splits)

text \<open>A write with room for a byte, and a read of a pipe that is not empty.\<close>

lemma pipe_write_returns:
  assumes "rb_inv (pipe_ring i s)" and "unat cnt = length d" and "pipe_lock_free i s" and st: "store_inv (queues s)"
    and "w_valid (pipe_tab s i) \<noteq> 0" and "d \<noteq> []" and "used_n (pipe_ring i s) < 4094"
  shows "\<exists>s'. pipe_write d i cnt s = Ret s' (int (min (4094 - used_n (pipe_ring i s)) (length d)))
    \<and> rb_inv (pipe_ring i s') \<and> contents (pipe_ring i s') = contents (pipe_ring i s) @ take (4094 - used_n (pipe_ring i s)) d
    \<and> pipe_lock_free i s' \<and> r_valid (pipe_tab s' i) = r_valid (pipe_tab s i)
    \<and> queues s' = (queues s)(WaitQ (pipe_r_list i) := [],
        ready_queue := rev (queues s (WaitQ (pipe_r_list i))) @ queues s ready_queue)"
proof -
  let ?n = "min (4094 - used_n (pipe_ring i s)) (length d)"
  from write_ring_pipe [OF assms(1-3)] obtain rb where
    rb: "write_ring (pipe_lock i) (pipe_ring i) (put_ring i) d cnt s = Ret (put_ring i rb (unlocked i s)) (of_nat ?n)"
      "rb_inv rb" "contents rb = contents (pipe_ring i s) @ take (4094 - used_n (pipe_ring i s)) d"
    by blast
  let ?s = "wake_all (pipe_r_list i) (put_ring i rb (unlocked i s))"
  have "0 < ?n" "?n < 4095"
    using assms(6,7) by auto
  then have "sint (of_nat ?n :: i32) = int ?n" and "unat (of_nat ?n :: i32) = ?n"
    by (intro sint_of_nat_i32 unat_of_nat_i32; simp)+
  moreover from this(2) \<open>0 < ?n\<close> have "(of_nat ?n :: i32) \<noteq> 0"
    by (metis less_irrefl unat_0)
  ultimately have "pipe_write d i cnt s = Ret ?s (int ?n)"
    using assms(5) by (simp only: pipe_write_def pipe_write_loop_def rb(1) obind.simps if_False)
  moreover have "queues ?s = (queues s)(WaitQ (pipe_r_list i) := [],
        ready_queue := rev (queues s (WaitQ (pipe_r_list i))) @ queues s ready_queue)"
    using st by (subst wake_all_queues) simp_all
  ultimately show ?thesis
    using rb(2,3) assms(3) by (intro exI [of _ ?s]) (simp add: pipe_lock_free_def unlocked_def)
qed

lemma pipe_read_returns:
  assumes "rb_inv (pipe_ring i s)" and "pipe_lock_free i s" and "store_inv (queues s)"
    and "handle_page_fault_store lseek rd buf s = Ret s ()"
    and "r_valid (pipe_tab s i) \<noteq> 0" and "cnt \<noteq> 0" and "contents (pipe_ring i s) \<noteq> []"
  shows "\<exists>s'. pipe_read lseek rd buf i cnt s =
      Ret s' (int (min (unat cnt) (used_n (pipe_ring i s))), take (unat cnt) (contents (pipe_ring i s)))
    \<and> rb_inv (pipe_ring i s') \<and> contents (pipe_ring i s') = drop (unat cnt) (contents (pipe_ring i s))
    \<and> queues s' = (queues s)(WaitQ (pipe_w_list i) := [],
        ready_queue := rev (queues s (WaitQ (pipe_w_list i))) @ queues s ready_queue)"
proof -
  from read_ring_pipe [OF assms(1,2,4)] obtain rb where
    rb: "read_ring_buffer lseek rd (pipe_lock i) (pipe_ring i) (put_ring i) buf cnt s
      = Ret (unlocked i (put_ring i rb s)) (take (unat cnt) (contents (pipe_ring i s)))"
      "rb_inv rb" "contents rb = drop (unat cnt) (contents (pipe_ring i s))"
    by blast
  let ?s = "wake_all (pipe_w_list i) (unlocked i (put_ring i rb s))"
  have "unat cnt \<noteq> 0"
    using assms(6) by (simp add: unat_eq_0)
  then have "pipe_read lseek rd buf i cnt s =
      Ret ?s (int (min (unat cnt) (used_n (pipe_ring i s))), take (unat cnt) (contents (pipe_ring i s)))"
    using assms(5-7) rb(1) by (simp add: pipe_read_def pipe_read_loop_def min.commute)
  moreover have "queues ?s = (queues s)(WaitQ (pipe_w_list i) := [],
        ready_queue := rev (queues s (WaitQ (pipe_w_list i))) @ queues s ready_queue)"
    using assms(3) by (subst wake_all_queues) simp_all
  ultimately show ?thesis
    using rb(2,3) by (intro exI [of _ ?s]) simp
qed

text \<open>C22: A write to a pipe with room takes as many bytes as fit, wakes every process that waits to read, and a read
  that follows delivers the oldest bytes of what the pipe held and was given, leaves the others in order, and wakes
  every process that waits to write.\<close>

theorem pipe_is_byte_queue:
  assumes "rb_inv (pipe_ring i s)" and "pipe_lock_free i s" and "store_inv (queues s)"
    and "unat cnt = length d" and "d \<noteq> []" and "used_n (pipe_ring i s) < 4094"
    and "w_valid (pipe_tab s i) \<noteq> 0" and "r_valid (pipe_tab s i) \<noteq> 0"
  shows "\<exists>s1 n. pipe_write d i cnt s = Ret s1 (int n) \<and> 0 < n \<and> n \<le> length d
    \<and> queues s1 (WaitQ (pipe_r_list i)) = [] \<and> set (queues s (WaitQ (pipe_r_list i))) \<subseteq> set (queues s1 ready_queue)
    \<and> (\<forall>lseek rd buf sz. handle_page_fault_store lseek rd buf s1 = Ret s1 () \<and> sz \<noteq> 0 \<longrightarrow>
        (\<exists>s2 got. pipe_read lseek rd buf i sz s1 = Ret s2 (int (length got), got) \<and> got \<noteq> [] \<and> length got \<le> unat sz
          \<and> got @ contents (pipe_ring i s2) = contents (pipe_ring i s) @ take n d
          \<and> queues s2 (WaitQ (pipe_w_list i)) = []
          \<and> set (queues s1 (WaitQ (pipe_w_list i))) \<subseteq> set (queues s2 ready_queue)))"
proof -
  let ?n = "min (4094 - used_n (pipe_ring i s)) (length d)"
  from pipe_write_returns [OF assms(1,4,2,3,7,5,6)] obtain s1 where
    s1: "pipe_write d i cnt s = Ret s1 (int ?n)" "rb_inv (pipe_ring i s1)"
      "contents (pipe_ring i s1) = contents (pipe_ring i s) @ take (4094 - used_n (pipe_ring i s)) d"
      "pipe_lock_free i s1" "r_valid (pipe_tab s1 i) = r_valid (pipe_tab s i)"
      "queues s1 = (queues s)(WaitQ (pipe_r_list i) := [],
        ready_queue := rev (queues s (WaitQ (pipe_r_list i))) @ queues s ready_queue)"
    by blast
  have st: "store_inv (queues s1)"
    unfolding s1(6) by (rule store_inv_move_all [OF assms(3)]) simp
  have take: "take (4094 - used_n (pipe_ring i s)) d = take ?n d"
    by (simp add: min_def)
  have ne: "contents (pipe_ring i s1) \<noteq> []"
    using s1(3) assms(5,6) by auto
  have rd: "\<exists>s2 got. pipe_read lseek rd buf i sz s1 = Ret s2 (int (length got), got) \<and> got \<noteq> [] \<and> length got \<le> unat sz
      \<and> got @ contents (pipe_ring i s2) = contents (pipe_ring i s) @ take ?n d \<and> queues s2 (WaitQ (pipe_w_list i)) = []
      \<and> set (queues s1 (WaitQ (pipe_w_list i))) \<subseteq> set (queues s2 ready_queue)"
    if "handle_page_fault_store lseek rd buf s1 = Ret s1 ()" "sz \<noteq> 0" for lseek rd buf sz
  proof -
    from pipe_read_returns [OF s1(2,4) st that(1) _ that(2) ne] s1(5) assms(8) obtain s2 where
      s2: "pipe_read lseek rd buf i sz s1 =
          Ret s2 (int (min (unat sz) (used_n (pipe_ring i s1))), take (unat sz) (contents (pipe_ring i s1)))"
        "contents (pipe_ring i s2) = drop (unat sz) (contents (pipe_ring i s1))"
        "queues s2 = (queues s1)(WaitQ (pipe_w_list i) := [],
          ready_queue := rev (queues s1 (WaitQ (pipe_w_list i))) @ queues s1 ready_queue)"
      by auto
    have "unat sz \<noteq> 0"
      using that(2) by (simp add: unat_eq_0)
    then show ?thesis
      unfolding s1(3) [unfolded take, symmetric]
      using s2 ne by (intro exI [of _ s2] exI [of _ "take (unat sz) (contents (pipe_ring i s1))"]) (auto simp: min.commute)
  qed
  show ?thesis
    using s1(1,6) assms(5,6) rd by (intro exI [of _ s1] exI [of _ ?n]) auto
qed

definition demo_pipe :: os where
  "demo_pipe = upd_pipe 0 (\<lambda>p. p\<lparr>rbuf := demo_ring, r_valid := 1, w_valid := 1\<rparr>)
    (demo_os\<lparr>mutexes := (\<lambda>_. \<lparr>mx_pid = 0, mx_status = UNLOCKED\<rparr>)\<rparr>)"

lemma demo_kva: "is_kva 0xffffffff80300000"
  unfolding is_kva_def by code_simp

theorem pipe_is_byte_queue_witness:
  "\<exists>s1 n s2 got. pipe_write [7, 8, 9] 0 3 demo_pipe = Ret s1 n \<and> got \<noteq> []
    \<and> pipe_read (\<lambda>_ _ _ s. Ret s 0) (\<lambda>_ _ _ s. Ret s 0) 0xffffffff80300000 0 2 s1 = Ret s2 (int (length got), got)"
proof -
  have "rb_inv (pipe_ring 0 demo_pipe)" and "used_n (pipe_ring 0 demo_pipe) < 4094"
    by (simp_all add: demo_pipe_def rb_inv_def demo_ring_def init_ring_buffer_def used_n_def)
  moreover have "pipe_lock_free 0 demo_pipe"
    by (simp add: demo_pipe_def pipe_lock_free_def pipe_lock_def demo_os_simps demo_simps)
  moreover have "store_inv (queues demo_pipe)"
    using demo_os_inv by (simp add: demo_pipe_def sched_inv_def sched_wf_def)
  moreover have "w_valid (pipe_tab demo_pipe 0) \<noteq> 0" and "r_valid (pipe_tab demo_pipe 0) \<noteq> 0"
    by (simp_all add: demo_pipe_def)
  ultimately obtain s1 n where s1: "pipe_write [7, 8, 9] 0 3 demo_pipe = Ret s1 (int n)"
    and rd: "\<forall>lseek rd buf sz. handle_page_fault_store lseek rd buf s1 = Ret s1 () \<and> sz \<noteq> 0 \<longrightarrow>
        (\<exists>s2 got. pipe_read lseek rd buf 0 sz s1 = Ret s2 (int (length got), got) \<and> got \<noteq> [] \<and> length got \<le> unat sz
          \<and> got @ contents (pipe_ring 0 s2) = contents (pipe_ring 0 demo_pipe) @ take n [7, 8, 9]
          \<and> queues s2 (WaitQ (pipe_w_list 0)) = []
          \<and> set (queues s1 (WaitQ (pipe_w_list 0))) \<subseteq> set (queues s2 ready_queue))"
    using pipe_is_byte_queue [of demo_pipe 0 3 "[7, 8, 9]"] by auto
  have "handle_page_fault_store (\<lambda>_ _ _ s. Ret s 0) (\<lambda>_ _ _ s. Ret s 0) 0xffffffff80300000 s1 = Ret s1 ()"
    using demo_kva by (simp add: handle_page_fault_store_def)
  from rd [rule_format, OF conjI, OF this, of 2] obtain s2 got where
    "pipe_read (\<lambda>_ _ _ s. Ret s 0) (\<lambda>_ _ _ s. Ret s 0) 0xffffffff80300000 0 2 s1 = Ret s2 (int (length got), got)" "got \<noteq> []"
    by auto
  with s1 show ?thesis
    by blast
qed

text \<open>A write of no bytes waits until the readers are gone, although there is nothing to wait for; and closing the
  last write end leaves the processes that wait to read where they are.\<close>

lemma pipe_write_nothing_blocks:
  assumes "rb_inv (pipe_ring i s)" and "pipe_lock_free i s" and "w_valid (pipe_tab s i) \<noteq> 0" and "r_valid (pipe_tab s i) \<noteq> 0"
  shows "pipe_write [] i 0 s \<noteq> Ret s' n"
proof -
  from write_ring_pipe [OF assms(1) _ assms(2), of 0 "[]"] obtain rb where
    "write_ring (pipe_lock i) (pipe_ring i) (put_ring i) [] 0 s = Ret (put_ring i rb (unlocked i s)) 0"
    by auto
  then show ?thesis
    using assms(3,4)
    by (cases "do_block (get_current_running s) (pipe_w_list i) (put_ring i rb (unlocked i s))")
      (simp_all add: pipe_write_def pipe_write_loop_def)
qed

lemma close_pipe_write_wakes_nobody:
  assumes "r_valid (pipe_tab s i) \<noteq> 0"
  shows "queues (fst (close_pipe_write i s)) = queues s"
  using assms by (simp add: close_pipe_write_def free_pipe_page_def)

end
