(* ===== verification/Futex.thy ===== *)
theory Futex
  imports Time
begin

text \<open>
  Futexes (\<open>kernel/locking/futex.c\<close>). A node is its index in the table \<open>futex_node\<close>; the buckets hold the
  indices of their nodes, and the processes that wait for a node are in its block queue. The word at the
  address of a futex is in user memory and an argument.
\<close>

abbreviation (input) FUTEX_WAIT :: i32 where "FUTEX_WAIT \<equiv> 0"
abbreviation (input) FUTEX_WAKE :: i32 where "FUTEX_WAKE \<equiv> 1"
abbreviation (input) FUTEX_REQUEUE :: i32 where "FUTEX_REQUEUE \<equiv> 3"

definition upd_futex :: "nat \<Rightarrow> (futex_node \<Rightarrow> futex_node) \<Rightarrow> 'a os_scheme \<Rightarrow> 'a os_scheme" where
  "upd_futex i f s = s\<lparr>futex_tab := (futex_tab s)(i := f (futex_tab s i))\<rparr>"

definition init_system_futex :: "'a os_scheme \<Rightarrow> 'a os_scheme" where
  "init_system_futex s = s\<lparr>futex_buckets := (\<lambda>k. if k < FUTEX_BUCKETS then [] else futex_buckets s k)\<rparr>"

definition futex_hash :: "u64 \<Rightarrow> nat" where
  "futex_hash x =
    (let x = (x XOR drop_bit 30 x) * 0xbf58476d1ce4e5b9;
         x = (x XOR drop_bit 27 x) * 0x94d049bb133111eb;
         x = x XOR drop_bit 31 x
     in unat (x mod 100))"

definition find_node :: "ptr \<Rightarrow> 'a os_scheme \<Rightarrow> nat option" where
  "find_node val_addr s = find (\<lambda>i. futex_key (futex_tab s i) = val_addr) (futex_buckets s (futex_hash val_addr))"

text \<open>\<open>get_node\<close> is NULL (\<open>None\<close>) only without \<open>create\<close>; with all nodes in use: \<open>assert(0)\<close>.\<close>

definition get_node :: "ptr \<Rightarrow> bool \<Rightarrow> 'a os_scheme \<Rightarrow> ('a os_scheme, nat option) outcome" where
  "get_node val_addr create s =
    (case find_node val_addr s of
       Some i \<Rightarrow> Ret s (Some i)
     | None \<Rightarrow>
         if create then
           case first_index (\<lambda>i. futex_node_used s i = 0) [0..<MAX_FUTEX_NUM] of
             None \<Rightarrow> Panic s
           | Some i \<Rightarrow>
               let s = s\<lparr>futex_node_used := (futex_node_used s)(i := pid (cur_pcb s))\<rparr>;
                   s = upd_futex i (\<lambda>n. n\<lparr>futex_key := val_addr\<rparr>) s;
                   s = s\<lparr>queues := (queues s)(WaitQ (futex_block_queue i) := [])\<rparr>;
                   s = s\<lparr>futex_buckets := (futex_buckets s)(futex_hash val_addr := futex_buckets s (futex_hash val_addr) @ [i])\<rparr>
               in Ret (upd_futex i (\<lambda>n. n\<lparr>set_ts := \<lparr>ts_sec = 0, ts_nsec = 0\<rparr>, add_ts := \<lparr>ts_sec = 0, ts_nsec = 0\<rparr>\<rparr>) s) (Some i)
         else Ret s None)"

text \<open>The structure \<open>*timeout\<close> is \<open>None\<close> when the pointer is NULL. \<open>do_gettimeofday\<close> fills a \<open>timeval\<close>, whose two
  members lie where those of \<open>add_ts\<close> do.\<close>

definition set_timeout :: "timespec option \<Rightarrow> nat \<Rightarrow> 'a os_scheme \<Rightarrow> 'a os_scheme" where
  "set_timeout timeout i s =
    (case timeout of
       None \<Rightarrow> upd_futex i (\<lambda>n. n\<lparr>set_ts := \<lparr>ts_sec = 0, ts_nsec = 0\<rparr>\<rparr>) s
     | Some ts \<Rightarrow>
         if ts_nsec ts \<noteq> 0 \<or> ts_sec ts \<noteq> 0 then
           let now = fst (do_gettimeofday s)
           in upd_futex i (\<lambda>n. n\<lparr>set_ts := ts, add_ts := \<lparr>ts_sec = tv_sec now, ts_nsec = tv_usec now\<rparr>\<rparr>) s
         else s)"

text \<open>The process returns 0 when it has been woken.\<close>

definition do_futex_wait :: "ptr \<Rightarrow> i32 \<Rightarrow> timespec option \<Rightarrow> 'a os_scheme \<Rightarrow> ('a os_scheme, unit) outcome" where
  "do_futex_wait val_addr val timeout s =
    obind (get_node val_addr True s) (\<lambda>s node.
      case node of
        None \<Rightarrow> Panic s
      | Some i \<Rightarrow> do_block (get_current_running s) (futex_block_queue i) (set_timeout timeout i s))"

fun wake_num :: "nat \<Rightarrow> wait_queue \<Rightarrow> 'a kernel_scheme \<Rightarrow> 'a kernel_scheme" where
  "wake_num 0 w s = s"
| "wake_num (Suc n) w s =
    (if klist_empty (WaitQ w) s then s else wake_num n w (do_unblock (klist_first (WaitQ w) s) s))"

definition do_futex_wakeup :: "ptr \<Rightarrow> i32 \<Rightarrow> 'a os_scheme \<Rightarrow> 'a os_scheme" where
  "do_futex_wakeup val_addr num_wakeup s =
    (case find_node val_addr s of
       None \<Rightarrow> s
     | Some i \<Rightarrow> wake_num (nat (sint num_wakeup)) (futex_block_queue i) s)"

fun requeue_num :: "nat \<Rightarrow> wait_queue \<Rightarrow> wait_queue \<Rightarrow> 'a kernel_scheme \<Rightarrow> 'a kernel_scheme" where
  "requeue_num 0 v w s = s"
| "requeue_num (Suc n) v w s =
    (if klist_empty (WaitQ v) s then s
     else let p = klist_first (WaitQ v) s in requeue_num n v w (klist_add p (WaitQ w) (klist_del p s)))"

text \<open>The second search is made before the first node is created.\<close>

definition do_futex_requeue :: "ptr \<Rightarrow> ptr \<Rightarrow> i32 \<Rightarrow> 'a os_scheme \<Rightarrow> ('a os_scheme, unit) outcome" where
  "do_futex_requeue uaddr uaddr2 num s =
    (let node1 = find_node uaddr s; node2 = find_node uaddr2 s in
     obind (if node1 = None then get_node uaddr True s else Ret s node1) (\<lambda>s node1.
     obind (if node2 = None then get_node uaddr2 True s else Ret s node2) (\<lambda>s node2.
       case (node1, node2) of
         (Some i, Some j) \<Rightarrow> Ret (requeue_num (nat (sint num)) (futex_block_queue i) (futex_block_queue j) s) ()
       | _ \<Rightarrow> Panic s)))"

definition clear_timeout :: "nat \<Rightarrow> 'a os_scheme \<Rightarrow> 'a os_scheme" where
  "clear_timeout i s = upd_futex i (\<lambda>n. n\<lparr>set_ts := \<lparr>ts_sec = 0, ts_nsec = 0\<rparr>, add_ts := \<lparr>ts_sec = 0, ts_nsec = 0\<rparr>\<rparr>) s"

definition futex_timeout :: "timespec \<Rightarrow> nat \<Rightarrow> 'a os_scheme \<Rightarrow> 'a os_scheme" where
  "futex_timeout cur_time i s =
    (let n = futex_tab s i in
     if futex_node_used s i = 0 then s
     else if ts_nsec (set_ts n) = 0 \<and> ts_sec (set_ts n) = 0 then s
     else if ts_sec cur_time - ts_sec (add_ts n) > ts_sec (set_ts n) then wake_all (futex_block_queue i) (clear_timeout i s)
     else if ts_sec cur_time - ts_sec (add_ts n) = ts_sec (set_ts n) then
       if ts_nsec (set_ts n) \<noteq> 0 \<and> ts_nsec cur_time - ts_nsec (add_ts n) \<ge> ts_nsec (set_ts n)
       then wake_all (futex_block_queue i) (clear_timeout i s) else s
     else s)"

definition check_futex_timeout :: "'a os_scheme \<Rightarrow> 'a os_scheme" where
  "check_futex_timeout s =
    (let now = fst (do_gettimeofday s)
     in fold (futex_timeout \<lparr>ts_sec = tv_sec now, ts_nsec = tv_usec now\<rparr>) [0..<MAX_FUTEX_NUM] s)"

text \<open>\<open>timeout\<close> is the pointer, \<open>ts\<close> the structure it points to and \<open>uval\<close> the word at \<open>uaddr\<close>. A call that waits does
  no more after it.\<close>

definition do_futex :: "ptr \<Rightarrow> i32 \<Rightarrow> i32 \<Rightarrow> i32 \<Rightarrow> ptr \<Rightarrow> timespec \<Rightarrow> ptr \<Rightarrow> 'a os_scheme \<Rightarrow> ('a os_scheme, int) outcome" where
  "do_futex uaddr uval futex_op val timeout ts uaddr2 s =
    obind (if futex_op AND FUTEX_WAKE = FUTEX_WAKE then Ret (do_futex_wakeup uaddr val s) 0
           else if futex_op AND FUTEX_WAIT = FUTEX_WAIT then
             if uval = val then obind (do_futex_wait uaddr val (if timeout = NULL then None else Some ts) s) (\<lambda>s _. Ret s 0)
             else Ret s (- EAGAIN)
           else Ret s 0) (\<lambda>s r.
      if r \<noteq> 0 then Ret s r
      else if futex_op AND FUTEX_REQUEUE = FUTEX_REQUEUE
      then obind (do_futex_requeue uaddr uaddr2 (ucast timeout) s) (\<lambda>s _. Ret s 0)
      else Ret s 0)"

section \<open>Robust lists\<close>

definition find_index :: "i32 \<Rightarrow> 'a kernel_scheme \<Rightarrow> nat option" where
  "find_index p s = map_option Suc (first_index (\<lambda>i. pid (pcb_tab s (PCB i)) = p) [1..<NUM_MAX_TASK])"

definition this_running :: "'a kernel_scheme \<Rightarrow> pcb_ref" where
  "this_running s = (if get_current_cpu_id s = 0 then current_running_master s else current_running_slave s)"

text \<open>The result is \<open>*head_ptr\<close>, when it is written, with the return value. A process that is not in the table
  reads the element \<open>-1\<close>.\<close>

definition do_get_robust_list :: "i32 \<Rightarrow> 'a os_scheme \<Rightarrow> ('a os_scheme, ptr option \<times> int) outcome" where
  "do_get_robust_list p s =
    (if p = 0 then
       case find_index (pid (pcb_tab s (this_running s))) s of
         None \<Rightarrow> Panic s
       | Some i \<Rightarrow> Ret s (Some (robust_list s i), 0)
     else
       case find_index p s of
         None \<Rightarrow> Ret s (None, - ESRCH)
       | Some i \<Rightarrow> if robust_list s i = NULL then Ret s (None, - EFAULT) else Ret s (Some (robust_list s i), 0))"

definition do_set_robust_list :: "ptr \<Rightarrow> u64 \<Rightarrow> 'a os_scheme \<Rightarrow> ('a os_scheme, int) outcome" where
  "do_set_robust_list head len s =
    (if len \<noteq> 24 then Ret s (- EINVAL)
     else case find_index (pid (pcb_tab s (this_running s))) s of
       None \<Rightarrow> Panic s
     | Some i \<Rightarrow> Ret (s\<lparr>robust_list := (robust_list s)(i := head)\<rparr>) 0)"

section \<open>Invariant\<close>

text \<open>A node in a bucket is in use, hashes to it, and is the only one with its key; nobody waits for a node that is
  not in use.\<close>

definition futex_inv :: "'a os_scheme \<Rightarrow> bool" where
  "futex_inv s \<longleftrightarrow>
    (\<forall>k i. i \<in> set (futex_buckets s k) \<longrightarrow> i < MAX_FUTEX_NUM \<and> futex_node_used s i \<noteq> 0 \<and> futex_hash (futex_key (futex_tab s i)) = k) \<and>
    (\<forall>k l i j. i \<in> set (futex_buckets s k) \<longrightarrow> j \<in> set (futex_buckets s l) \<longrightarrow>
       futex_key (futex_tab s i) = futex_key (futex_tab s j) \<longrightarrow> i = j) \<and>
    (\<forall>i. futex_node_used s i = 0 \<longrightarrow> queues s (WaitQ (futex_block_queue i)) = [])"

lemma futex_invD:
  assumes "futex_inv s"
  shows "i \<in> set (futex_buckets s k) \<Longrightarrow> i < MAX_FUTEX_NUM"
    and "i \<in> set (futex_buckets s k) \<Longrightarrow> futex_node_used s i \<noteq> 0"
    and "i \<in> set (futex_buckets s k) \<Longrightarrow> futex_hash (futex_key (futex_tab s i)) = k"
    and "i \<in> set (futex_buckets s k) \<Longrightarrow> j \<in> set (futex_buckets s l) \<Longrightarrow>
      futex_key (futex_tab s i) = futex_key (futex_tab s j) \<Longrightarrow> i = j"
    and "futex_node_used s i = 0 \<Longrightarrow> queues s (WaitQ (futex_block_queue i)) = []"
  using assms unfolding futex_inv_def by blast+

lemma find_node_Some:
  assumes "futex_inv s"
  shows "find_node a s = Some i \<longleftrightarrow> (\<exists>k. i \<in> set (futex_buckets s k)) \<and> futex_key (futex_tab s i) = a"
proof
  assume "find_node a s = Some i"
  then show "(\<exists>k. i \<in> set (futex_buckets s k)) \<and> futex_key (futex_tab s i) = a"
    unfolding find_node_def find_Some_iff by (metis nth_mem)
next
  assume *: "(\<exists>k. i \<in> set (futex_buckets s k)) \<and> futex_key (futex_tab s i) = a"
  then have i: "i \<in> set (futex_buckets s (futex_hash a))"
    using futex_invD(3) [OF assms] by blast
  then obtain j where "find_node a s = Some j"
    using * by (cases "find_node a s") (auto simp: find_node_def find_None_iff)
  then have j: "j \<in> set (futex_buckets s (futex_hash a))" "futex_key (futex_tab s j) = a"
    unfolding find_node_def find_Some_iff by (metis nth_mem)+
  with i * show "find_node a s = Some i"
    using futex_invD(4) [OF assms i j(1)] \<open>find_node a s = Some j\<close> by simp
qed

lemma find_node_unique:
  "futex_inv s \<Longrightarrow> find_node a s = Some i \<Longrightarrow> find_node b s = Some i \<Longrightarrow> a = b"
  by (simp add: find_node_Some)

lemma sched_inv_futex:
  "sched_inv (s\<lparr>futex_node_used := u, futex_buckets := n, futex_tab := b\<rparr>) \<longleftrightarrow> sched_inv s"
  by (simp add: sched_inv_def sched_wf_def running_def other_def idle_def next_running_def candidates_def requeues_def
      get_current_cpu_id_def get_current_running_def)

text \<open>\<open>get_node\<close> with \<open>create\<close> keeps the invariant, the queues and the processes, and its node is found afterwards.\<close>

lemma get_node_creates:
  assumes inv: "futex_inv s" and "pid (cur_pcb s) \<noteq> 0" and "get_node a True s = Ret t (Some i)"
  shows "futex_inv t" and "find_node a t = Some i" and "queues t = queues s" and "pcb_tab t = pcb_tab s" and "tp t = tp s"
    and "sched_inv s \<Longrightarrow> sched_inv t"
proof -
  have "futex_inv t \<and> find_node a t = Some i \<and> queues t = queues s \<and> pcb_tab t = pcb_tab s \<and> tp t = tp s \<and> (sched_inv s \<longrightarrow> sched_inv t)"
  proof (cases "find_node a s")
    case (Some j)
    then show ?thesis
      using assms by (simp add: get_node_def)
  next
    case None
    with assms(3) obtain first: "first_index (\<lambda>i. futex_node_used s i = 0) [0..<MAX_FUTEX_NUM] = Some i"
      by (auto simp: get_node_def Let_def split: option.splits)
    then have i: "i < MAX_FUTEX_NUM" "futex_node_used s i = 0"
      by (auto simp: first_index_Some)
    let ?h = "futex_hash a"
    have t: "futex_buckets t = (futex_buckets s)(?h := futex_buckets s ?h @ [i])"
      "futex_node_used t = (futex_node_used s)(i := pid (cur_pcb s))"
      "futex_key (futex_tab t j) = (if j = i then a else futex_key (futex_tab s j))"
      "queues t = (queues s)(WaitQ (futex_block_queue i) := [])" "pcb_tab t = pcb_tab s" "tp t = tp s" for j
      using assms(3) None first by (auto simp: get_node_def Let_def upd_futex_def)
    have q: "queues t = queues s"
      using t(4) futex_invD(5) [OF inv i(2)] by auto
    have notin: "i \<notin> set (futex_buckets s k)" for k
      using futex_invD(2) [OF inv] i(2) by blast
    have nokey: "futex_key (futex_tab s j) \<noteq> a" if "j \<in> set (futex_buckets s k)" for j k
      using None that find_node_Some [OF inv, of a j] by auto
    have "futex_inv t"
      unfolding futex_inv_def t(1-3) q using futex_invD [OF inv] i assms(2) notin nokey
      by (auto split: if_splits dest: nokey)
    moreover from this have "find_node a t = Some i"
      by (subst find_node_Some) (auto simp: t intro!: exI [of _ ?h])
    moreover obtain u b n where "t = s\<lparr>futex_node_used := u, futex_buckets := n, futex_tab := b\<rparr>"
      using assms(3) None first futex_invD(5) [OF inv i(2)]
      by (auto simp: get_node_def Let_def upd_futex_def fun_upd_idem)
    then have "sched_inv s \<longrightarrow> sched_inv t"
      by (simp add: sched_inv_futex)
    ultimately show ?thesis
      using q t(5,6) by simp
  qed
  then show "futex_inv t" "find_node a t = Some i" "queues t = queues s" "pcb_tab t = pcb_tab s" "tp t = tp s"
    "sched_inv s \<Longrightarrow> sched_inv t"
    by simp_all
qed

section \<open>Waiting and waking\<close>

lemma q_del_first:
  assumes "store_inv S" and "S q = x # xs"
  shows "q_del x S = S(q := xs)"
proof
  fix r
  show "q_del x S r = (S(q := xs)) r"
  proof (cases "r = q")
    case False
    then have "x \<notin> set (S r)"
      using store_invD(2) [OF assms(1), of x q r] assms(2) by auto
    with False show ?thesis
      by (simp add: q_del_def remove1_idem)
  qed (simp add: q_del_def assms(2))
qed

lemma wake_num_queues:
  "store_inv (queues s) \<Longrightarrow> queues (wake_num n w s) =
    (queues s)(WaitQ w := drop n (queues s (WaitQ w)), ready_queue := rev (take n (queues s (WaitQ w))) @ queues s ready_queue)"
proof (induction n w s rule: wake_num.induct)
  case (2 n w s)
  show ?case
  proof (cases "queues s (WaitQ w)")
    case Nil
    then show ?thesis
      by (auto simp: klist_empty_def q_empty_def)
  next
    case (Cons x xs)
    let ?t = "do_unblock x s"
    have del: "q_del x (queues s) = (queues s)(WaitQ w := xs)"
      by (rule q_del_first [OF 2(2) Cons])
    have "\<not> queued x (q_del x (queues s))"
      using 2(2) by simp
    then have "store_inv (queues ?t)"
      using 2(2) by (simp add: store_inv_q_add store_inv_q_del)
    then have "queues (wake_num n w ?t) = (queues ?t)(WaitQ w := drop n (queues ?t (WaitQ w)),
        ready_queue := rev (take n (queues ?t (WaitQ w))) @ queues ?t ready_queue)"
      using 2(1) Cons by (auto simp: klist_empty_def fun_eq_iff simp del: do_unblock_simps)
    then show ?thesis
      using Cons by (auto simp: klist_empty_def del q_add_def)
  qed
qed auto

lemma futex_wake_num [simp]:
  "futex_tab (wake_num n w s) = futex_tab s" "futex_buckets (wake_num n w s) = futex_buckets s"
  "futex_node_used (wake_num n w s) = futex_node_used s"
  by (induction n w s rule: wake_num.induct) auto

lemma futex_more:
  "kernel.more s = kernel.more t \<Longrightarrow> futex_tab s = futex_tab t \<and> futex_buckets s = futex_buckets t \<and> futex_node_used s = futex_node_used t"
  by (cases s, cases t) (simp add: kernel.defs)

lemma futex_upd_frame [simp]:
  "queues (upd_futex i f s) = queues s" "pcb_tab (upd_futex i f s) = pcb_tab s" "tp (upd_futex i f s) = tp s"
  "futex_buckets (upd_futex i f s) = futex_buckets s" "futex_node_used (upd_futex i f s) = futex_node_used s"
  "sched_inv (upd_futex i f s) \<longleftrightarrow> sched_inv s"
  by (simp_all add: upd_futex_def sched_inv_def sched_wf_def running_def other_def idle_def next_running_def
      candidates_def requeues_def get_current_cpu_id_def get_current_running_def)

lemma set_timeout_frame [simp]:
  "queues (set_timeout ts i s) = queues s" "pcb_tab (set_timeout ts i s) = pcb_tab s" "tp (set_timeout ts i s) = tp s"
  "futex_buckets (set_timeout ts i s) = futex_buckets s" "futex_node_used (set_timeout ts i s) = futex_node_used s"
  "futex_key (futex_tab (set_timeout ts i s) j) = futex_key (futex_tab s j)"
  "sched_inv (set_timeout ts i s) \<longleftrightarrow> sched_inv s"
  by (simp_all add: set_timeout_def Let_def split: option.splits) (auto simp: upd_futex_def)

lemma futex_inv_cong:
  assumes "futex_buckets t = futex_buckets s" and "futex_node_used t = futex_node_used s"
    and "\<And>j. futex_key (futex_tab t j) = futex_key (futex_tab s j)"
  shows "find_node a t = find_node a s"
    and "futex_inv s \<Longrightarrow> (\<And>i. futex_node_used s i = 0 \<Longrightarrow> queues t (WaitQ (futex_block_queue i)) = []) \<Longrightarrow> futex_inv t"
  using assms by (simp_all add: find_node_def futex_inv_def)

text \<open>Waiting and waking on the queues: the process is the first in the queue of its address, and a wake-up takes the
  first processes of the queue.\<close>

lemma futex_wait_queue:
  assumes inv: "futex_inv s" "sched_inv s" and cur: "tp s \<notin> {pid0_pcb_master, pid0_pcb_slave}" "pid (cur_pcb s) \<noteq> 0"
    and sig: "sig_recv (cur_pcb s) = 0 \<or> is_handle_signal (cur_pcb s) \<noteq> 0"
    and room: "find_node a s \<noteq> None \<or> (\<exists>i < MAX_FUTEX_NUM. futex_node_used s i = 0)"
  shows "\<exists>s' i rest. do_futex_wait a v timeout s = Blocked s' \<and> futex_inv s' \<and> sched_inv s' \<and> tp s' \<noteq> tp s
    \<and> find_node a s' = Some i \<and> queues s' (WaitQ (futex_block_queue i)) = tp s # rest
    \<and> (\<forall>n. queues (do_futex_wakeup a n s') = (queues s')
          (WaitQ (futex_block_queue i) := drop (nat (sint n)) (tp s # rest),
           ready_queue := rev (take (nat (sint n)) (tp s # rest)) @ queues s' ready_queue))
    \<and> (\<forall>b n. b \<noteq> a \<longrightarrow> queues (do_futex_wakeup b n s') (WaitQ (futex_block_queue i)) = tp s # rest)"
proof -
  have "find_node a s = None \<Longrightarrow> first_index (\<lambda>i. futex_node_used s i = 0) [0..<MAX_FUTEX_NUM] \<noteq> None"
    using room by auto
  then obtain t i where t: "get_node a True s = Ret t (Some i)"
    by (cases "find_node a s"; cases "first_index (\<lambda>i. futex_node_used s i = 0) [0..<MAX_FUTEX_NUM]")
      (simp_all add: get_node_def Let_def del: first_index_None)
  note new = get_node_creates [OF inv(1) cur(2) t]
  let ?t = "set_timeout timeout i t" and ?w = "futex_block_queue i"
  let ?b = "block_on (tp s) (WaitQ ?w) ?t"
  have inv_t: "sched_inv ?t" and cur_t: "tp ?t = tp s" "tp ?t \<notin> {pid0_pcb_master, pid0_pcb_slave}"
    using new(5,6) inv(2) cur(1) by simp_all
  have "do_futex_wait a v timeout s = Blocked ?b"
    using sig new(4,5)
    by (simp add: do_futex_wait_def t get_current_running_def) (subst do_block_quiet; simp add: get_current_running_def)
  let ?s = "upd_pcb (tp s) (\<lambda>p. p\<lparr>status := TASK_BLOCKED\<rparr>) (klist_add (tp s) (WaitQ ?w) ?t)"
  have b: "?b = do_scheduler ?s"
    using cur_t(1) by (simp add: block_on_def get_current_running_def)
  note wf = block_wf [OF inv_t cur_t(2), of ?w, unfolded cur_t(1)]
  have q: "queues ?b (WaitQ v) = (if v = ?w then tp s # queues t (WaitQ ?w) else queues t (WaitQ v))" for v
    by (simp add: b do_scheduler_effect(2) [OF wf] q_add_def)
  have more: "futex_tab ?b = futex_tab ?s" "futex_buckets ?b = futex_buckets ?s" "futex_node_used ?b = futex_node_used ?s"
    unfolding b using futex_more [OF do_scheduler_effect(4) [OF wf]] by simp_all
  have same: "find_node c ?b = find_node c t" for c
    by (rule futex_inv_cong(1)) (simp_all add: more)
  have used: "futex_node_used t i \<noteq> 0"
    using find_node_Some [OF new(1), of a i] new(2) futex_invD(2) [OF new(1)] by blast
  have "futex_inv ?b"
    by (rule futex_inv_cong(2) [OF _ _ _ new(1)]) (use used futex_invD(5) [OF new(1)] in \<open>auto simp: more q\<close>)
  moreover have sinv: "sched_inv ?b"
    using sched_inv_block_on [OF inv_t cur_t(2)] cur_t(1) by simp
  moreover have "tp ?b \<noteq> tp s"
  proof
    assume "tp ?b = tp s"
    then have "\<not> queued (tp s) (queues ?b)"
      using sched_invD(4) [OF sinv] by simp
    with q [of ?w] show False
      by (auto simp: queued_def dest!: spec [of _ "WaitQ ?w"])
  qed
  moreover have st: "store_inv (queues ?b)"
    using sched_wfD(1) [OF sched_invD(1) [OF sinv]] .
  have "queues (do_futex_wakeup b n ?b) (WaitQ ?w) = tp s # queues t (WaitQ ?w)" if "b \<noteq> a" for b n
    using that new(2) find_node_unique [OF new(1), of a _ b] q [of ?w]
    by (auto simp: do_futex_wakeup_def same wake_num_queues [OF st] split: option.split)
  ultimately show ?thesis
    using \<open>do_futex_wait a v timeout s = Blocked ?b\<close> new(2) q [of ?w] wake_num_queues [OF st, of _ ?w]
    by (intro exI [of _ ?b] exI [of _ i] exI [of _ "queues t (WaitQ ?w)"]) (simp add: same do_futex_wakeup_def)
qed

lemma do_futex_ops:
  "futex_op AND FUTEX_WAKE \<noteq> FUTEX_WAKE \<Longrightarrow> do_futex a uval futex_op val p ts b s =
    (if uval = val then obind (do_futex_wait a val (if p = NULL then None else Some ts) s) (\<lambda>s _. Ret s 0) else Ret s (- EAGAIN))"
  "do_futex a uval FUTEX_WAKE val p ts b s = Ret (do_futex_wakeup a val s) 0"
proof -
  assume w: "futex_op AND FUTEX_WAKE \<noteq> FUTEX_WAKE"
  have "futex_op AND 3 \<noteq> 3"
  proof
    assume "futex_op AND 3 = 3"
    then have "futex_op AND (3 AND 1) = 3 AND 1"
      by (metis and.assoc)
    with w show False by simp
  qed
  with w show "do_futex a uval futex_op val p ts b s =
      (if uval = val then obind (do_futex_wait a val (if p = NULL then None else Some ts) s) (\<lambda>s _. Ret s 0) else Ret s (- EAGAIN))"
    by (cases "do_futex_wait a val (if p = NULL then None else Some ts) s") (simp_all add: do_futex_def)
qed (simp add: do_futex_def)

text \<open>C24: The futex call with an operation without the bit of \<open>FUTEX_WAKE\<close>, such as \<open>FUTEX_WAIT\<close> with or without
  \<open>FUTEX_PRIVATE_FLAG\<close>, compares the word at the address with the expected value. When they differ it returns
  \<open>-EAGAIN\<close> and nothing has changed. When they are equal the process gives up the processor and is the first in the
  queue of its address; \<open>FUTEX_WAKE\<close> for \<open>n\<close> processes on the address makes exactly the first \<open>n\<close> waiting ones ready, so
  any wake-up for at least one that follows the wait wakes the process, and a wake-up on another address leaves it waiting. The
  invariants of the scheduler and of the futex table are kept.\<close>

theorem futex_wait_then_wake:
  assumes "futex_op AND FUTEX_WAKE \<noteq> FUTEX_WAKE"
    and "futex_inv s" and "sched_inv s" and "tp s \<notin> {pid0_pcb_master, pid0_pcb_slave}" and "pid (cur_pcb s) \<noteq> 0"
    and "sig_recv (cur_pcb s) = 0 \<or> is_handle_signal (cur_pcb s) \<noteq> 0"
    and "find_node a s \<noteq> None \<or> (\<exists>i < MAX_FUTEX_NUM. futex_node_used s i = 0)"
  shows "(uval \<noteq> val \<longrightarrow> do_futex a uval futex_op val timeout ts b s = Ret s (- EAGAIN))
    \<and> (uval = val \<longrightarrow> (\<exists>s' i rest. do_futex a uval futex_op val timeout ts b s = Blocked s'
      \<and> futex_inv s' \<and> sched_inv s' \<and> tp s' \<noteq> tp s
      \<and> find_node a s' = Some i \<and> queues s' (WaitQ (futex_block_queue i)) = tp s # rest
      \<and> (\<forall>v n p ts' c. \<exists>t. do_futex a v FUTEX_WAKE n p ts' c s' = Ret t 0 \<and> queues t = (queues s')
          (WaitQ (futex_block_queue i) := drop (nat (sint n)) (tp s # rest),
           ready_queue := rev (take (nat (sint n)) (tp s # rest)) @ queues s' ready_queue))
      \<and> (\<forall>d v n p ts' c. d \<noteq> a \<longrightarrow> (\<exists>t. do_futex d v FUTEX_WAKE n p ts' c s' = Ret t 0
           \<and> queues t (WaitQ (futex_block_queue i)) = tp s # rest))))"
proof -
  let ?ts = "if timeout = NULL then None else Some ts"
  obtain s' i rest where w: "do_futex_wait a val ?ts s = Blocked s'" "futex_inv s'" "sched_inv s'" "tp s' \<noteq> tp s"
    "find_node a s' = Some i" "queues s' (WaitQ (futex_block_queue i)) = tp s # rest"
    "\<And>n. queues (do_futex_wakeup a n s') = (queues s')
        (WaitQ (futex_block_queue i) := drop (nat (sint n)) (tp s # rest),
         ready_queue := rev (take (nat (sint n)) (tp s # rest)) @ queues s' ready_queue)"
    "\<And>d n. d \<noteq> a \<Longrightarrow> queues (do_futex_wakeup d n s') (WaitQ (futex_block_queue i)) = tp s # rest"
    using futex_wait_queue [OF assms(2-7), of val ?ts] by blast
  have "do_futex a val futex_op val timeout ts b s = Blocked s'"
    unfolding do_futex_ops(1) [OF assms(1)] w(1) by simp
  moreover have "uval \<noteq> val \<longrightarrow> do_futex a uval futex_op val timeout ts b s = Ret s (- EAGAIN)"
    unfolding do_futex_ops(1) [OF assms(1)] by simp
  moreover have "\<exists>t. do_futex a v FUTEX_WAKE n p ts' c s' = Ret t 0 \<and> queues t = (queues s')
      (WaitQ (futex_block_queue i) := drop (nat (sint n)) (tp s # rest),
       ready_queue := rev (take (nat (sint n)) (tp s # rest)) @ queues s' ready_queue)" for v n p ts' c
    by (intro exI conjI, rule do_futex_ops(2), rule w(7))
  moreover have "\<exists>t. do_futex d v FUTEX_WAKE n p ts' c s' = Ret t 0 \<and> queues t (WaitQ (futex_block_queue i)) = tp s # rest"
    if "d \<noteq> a" for d v n p ts' c
    by (intro exI conjI, rule do_futex_ops(2), rule w(8) [OF that])
  ultimately show ?thesis
    using w(2-6) by (intro conjI impI exI [of _ s'] exI [of _ i] exI [of _ rest]) blast+
qed

theorem futex_wait_then_wake_witness:
  "do_futex 0x1000 6 128 5 0 \<lparr>ts_sec = 0, ts_nsec = 0\<rparr> 0 demo_os = Ret demo_os (- EAGAIN) \<and>
   (\<exists>s' i. do_futex 0x1000 5 128 5 0 \<lparr>ts_sec = 0, ts_nsec = 0\<rparr> 0 demo_os = Blocked s' \<and> find_node 0x1000 s' = Some i
    \<and> (\<exists>t. do_futex 0x1000 0 FUTEX_WAKE 1 0 \<lparr>ts_sec = 0, ts_nsec = 0\<rparr> 0 s' = Ret t 0 \<and> PCB 1 \<in> set (queues t ready_queue))
    \<and> (\<exists>t. do_futex 0x2000 0 FUTEX_WAKE 1 0 \<lparr>ts_sec = 0, ts_nsec = 0\<rparr> 0 s' = Ret t 0 \<and> PCB 1 \<in> set (queues t (WaitQ (futex_block_queue i)))))"
proof -
  let ?ts = "\<lparr>ts_sec = 0, ts_nsec = 0\<rparr> :: timespec"
  have op: "(128 :: i32) AND FUTEX_WAKE \<noteq> FUTEX_WAKE"
    by simp
  have "futex_inv demo_os"
    by (simp add: futex_inv_def demo_os_simps demo_simps)
  moreover have tp: "tp demo_os = PCB 1" and "pid (cur_pcb demo_os) \<noteq> 0" and "sig_recv (cur_pcb demo_os) = 0"
    by (simp_all add: demo_os_simps demo_simps get_current_running_def)
  moreover have "\<exists>i < MAX_FUTEX_NUM. futex_node_used demo_os i = 0"
    by (intro exI [of _ 0]) (simp add: demo_os_simps)
  ultimately have w: "(u \<noteq> 5 \<longrightarrow> do_futex 0x1000 u 128 5 0 ?ts 0 demo_os = Ret demo_os (- EAGAIN)) \<and>
     (u = 5 \<longrightarrow> (\<exists>s' i rest. do_futex 0x1000 u 128 5 0 ?ts 0 demo_os = Blocked s' \<and> find_node 0x1000 s' = Some i
       \<and> (\<exists>t. do_futex 0x1000 0 FUTEX_WAKE 1 0 ?ts 0 s' = Ret t 0 \<and> queues t = (queues s')
          (WaitQ (futex_block_queue i) := drop (nat (sint (1 :: i32))) (PCB 1 # rest),
           ready_queue := rev (take (nat (sint (1 :: i32))) (PCB 1 # rest)) @ queues s' ready_queue))
       \<and> (\<exists>t. do_futex 0x2000 0 FUTEX_WAKE 1 0 ?ts 0 s' = Ret t 0 \<and> queues t (WaitQ (futex_block_queue i)) = PCB 1 # rest)))" for u
    using futex_wait_then_wake [OF op, of demo_os "0x1000" u 5 0 ?ts 0] demo_os_inv by fastforce
  from w [of 6] w [of 5] show ?thesis
    by fastforce
qed

text \<open>\<open>FUTEX_CMP_REQUEUE\<close> (4) has the bit of \<open>FUTEX_WAIT\<close>, which is none, and not that of \<open>FUTEX_WAKE\<close>: the call
  waits and moves no process.\<close>

lemma futex_cmp_requeue_waits:
  "do_futex a v 4 v p ts b s = obind (do_futex_wait a v (if p = NULL then None else Some ts) s) (\<lambda>s _. Ret s 0)"
proof -
  have "(4 :: i32) AND 1 = 0" and "(4 :: i32) AND 3 = 0"
    by (simp_all add: bit_eq_iff bit_simps)
  then show ?thesis
    by (cases "do_futex_wait a v (if p = NULL then None else Some ts) s") (simp_all add: do_futex_def)
qed

end
