(* ===== verification/SpecialCtx.thy ===== *)
theory SpecialCtx
  imports Files
begin

text \<open>
  The mode with small descriptors for many processes (\<open>kernel/utils/special_ctx.c\<close>): while \<open>status_ctx\<close> is set, a
  process has an array of \<open>PIPE_ARRAY\<close> descriptors of four bytes in one of the pages of \<open>extendPageList\<close>. An array is
  known by its address.
\<close>

definition upd_cpt :: "ptr \<Rightarrow> nat \<Rightarrow> (ctx_pipe \<Rightarrow> ctx_pipe) \<Rightarrow> 'a os_scheme \<Rightarrow> 'a os_scheme" where
  "upd_cpt a i f s = s\<lparr>ctx_pipes := (ctx_pipes s)(a := (ctx_pipes s a)(i := f (ctx_pipes s a i)))\<rparr>"

section \<open>Descriptors\<close>

definition init_extend_fd :: "ptr \<Rightarrow> 'a os_scheme \<Rightarrow> 'a os_scheme" where
  "init_extend_fd a s =
    (let s = upd_cpt a 0 (\<lambda>c. c\<lparr>cpt_dev := DEV_STDIN, cpt_fd_num := 0, cpt_used := FD_USED\<rparr>) s;
         s = upd_cpt a 1 (\<lambda>c. c\<lparr>cpt_dev := DEV_STDOUT, cpt_fd_num := 1, cpt_used := FD_USED\<rparr>) s;
         s = upd_cpt a 2 (\<lambda>c. c\<lparr>cpt_dev := DEV_STDERR, cpt_fd_num := 2, cpt_used := FD_USED\<rparr>) s
     in fold (\<lambda>i. upd_cpt a i (\<lambda>c. c\<lparr>cpt_dev := DEV_DEFAULT, cpt_fd_num := of_nat i, cpt_used := FD_UNUSED\<rparr>)) [3..<PIPE_ARRAY] s)"

text \<open>A copied end of a pipe counts; an end of neither type: \<open>assert(0)\<close>.\<close>

fun copy_extend :: "ptr \<Rightarrow> ptr \<Rightarrow> nat list \<Rightarrow> 'a os_scheme \<Rightarrow> ('a os_scheme, unit) outcome" where
  "copy_extend dst src [] s = Ret s ()"
| "copy_extend dst src (i # is) s =
    (let c = ctx_pipes s src i; p = unat (cpt_fd_num c) in
     if cpt_used c \<noteq> 0 \<and> cpt_dev c = DEV_PIPE then
       if pipe_type c = PIPE_READ
       then copy_extend dst src is (upd_cpt dst i (\<lambda>_. c) (upd_pipe p (\<lambda>p. p\<lparr>r_valid := r_valid p + 1\<rparr>) s))
       else if pipe_type c = PIPE_WRITE
       then copy_extend dst src is (upd_cpt dst i (\<lambda>_. c) (upd_pipe p (\<lambda>p. p\<lparr>w_valid := w_valid p + 1\<rparr>) s))
       else Panic s
     else copy_extend dst src is (upd_cpt dst i (\<lambda>_. c) s))"

definition copy_extend_fd :: "ptr \<Rightarrow> ptr \<Rightarrow> 'a os_scheme \<Rightarrow> ('a os_scheme, unit) outcome" where
  "copy_extend_fd dst src s = copy_extend dst src [0..<PIPE_ARRAY] s"

text \<open>The ring buffers of the terminal, with the addresses of their mutexes.\<close>

definition std_ring :: "u8 \<Rightarrow> 'a os_scheme \<Rightarrow> ring_buffer" where
  "std_ring d s = (if d = DEV_STDIN then stdin_buf s else if d = DEV_STDOUT then stdout_buf s else stderr_buf s)"

definition put_std :: "u8 \<Rightarrow> ring_buffer \<Rightarrow> 'a os_scheme \<Rightarrow> 'a os_scheme" where
  "put_std d rb s =
    (if d = DEV_STDIN then s\<lparr>stdin_buf := rb\<rparr> else if d = DEV_STDOUT then s\<lparr>stdout_buf := rb\<rparr> else s\<lparr>stderr_buf := rb\<rparr>)"

definition std_lock :: "u8 \<Rightarrow> ptr" where
  "std_lock d = 0x40000 + 64 * ucast d"

definition read_std :: "'a os_scheme lseek_fun \<Rightarrow> 'a os_scheme read_fun \<Rightarrow> u8 \<Rightarrow> ptr \<Rightarrow> u64 \<Rightarrow> 'a os_scheme \<Rightarrow>
    ('a os_scheme, int \<times> u8 list) outcome" where
  "read_std lseek rd d buf cnt s =
    obind (read_ring_buffer lseek rd (std_lock d) (std_ring d) (put_std d) buf cnt s) (\<lambda>s bytes.
      Ret s (int (length bytes), bytes))"

text \<open>\<open>init_screen\<close> sets these buffers up without memory: a byte stored there goes through a null pointer, and a page fault
  of the kernel ends in \<open>assert(0)\<close>.\<close>

definition write_std :: "u8 \<Rightarrow> u8 list \<Rightarrow> u64 \<Rightarrow> 'a os_scheme \<Rightarrow> ('a os_scheme, int) outcome" where
  "write_std d bytes cnt s =
    (if rb_buf (std_ring d s) = [] \<and> 0 < sint (min_int_size (ring_buffer_free (std_ring d s)) cnt)
     then obind (do_mutex_lock_acquire (std_lock d) s) (\<lambda>s _. Panic s)
     else obind (write_ring (std_lock d) (std_ring d) (put_std d) bytes cnt s) (\<lambda>s len. Ret s (sint len)))"

text \<open>The text \<open>echo: write error: Invalid argument\<close> with its line feed.\<close>

definition echo_error :: "u8 list" where
  "echo_error = [101, 99, 104, 111, 58, 32, 119, 114, 105, 116, 101, 32, 101, 114, 114, 111, 114, 58, 32, 73, 110, 118, 97, 108,
    105, 100, 32, 97, 114, 103, 117, 109, 101, 110, 116, 10]"

text \<open>The C string at the start of \<open>d\<close>.\<close>

definition string_of :: "u8 list \<Rightarrow> u8 list" where
  "string_of d = takeWhile (\<lambda>c. c \<noteq> 0) d"

text \<open>\<open>screen_stdout\<close> and \<open>screen_stderror\<close> print the bytes and return their number. The \<open>int\<close> result of the
  count is its lower half.\<close>

definition write_cpt :: "ctx_pipe \<Rightarrow> u8 list \<Rightarrow> u64 \<Rightarrow> 'a os_scheme \<Rightarrow> ('a os_scheme, int) outcome" where
  "write_cpt c d cnt s =
    (if cpt_dev c = DEV_STDIN then write_std DEV_STDIN d cnt s
     else if cpt_dev c = DEV_STDOUT then Ret s (sint (ucast cnt :: i32))
     else if cpt_dev c = DEV_STDERR then
       if string_of d = echo_error then Ret s (int (length echo_error)) else Ret s (sint (ucast cnt :: i32))
     else if cpt_dev c = DEV_NULL then Ret s (sint (ucast cnt :: i32))
     else if cpt_dev c = DEV_ZERO then Ret s 0
     else if cpt_dev c = DEV_PIPE then pipe_write d (unat (cpt_fd_num c)) cnt s
     else Ret s (-1))"

text \<open>The result is the number with the bytes stored at \<open>buf\<close>. For another device the function has no \<open>return\<close>.\<close>

definition read_cpt :: "'a os_scheme lseek_fun \<Rightarrow> 'a os_scheme read_fun \<Rightarrow> ctx_pipe \<Rightarrow> ptr \<Rightarrow> u64 \<Rightarrow> 'a os_scheme \<Rightarrow>
    ('a os_scheme, int \<times> u8 list) outcome" where
  "read_cpt lseek rd c buf cnt s =
    (if cpt_dev c = DEV_STDIN \<or> cpt_dev c = DEV_STDOUT \<or> cpt_dev c = DEV_STDERR then
       read_std lseek rd (cpt_dev c) buf cnt s
     else if cpt_dev c = DEV_NULL then Ret s (0, [])
     else if cpt_dev c = DEV_ZERO then Ret s (sint (ucast cnt :: i32), replicate (unat cnt) 0)
     else if cpt_dev c = DEV_PIPE then pipe_read lseek rd buf (unat (cpt_fd_num c)) cnt s
     else Panic s)"

section \<open>Opening and closing the mode\<close>

definition free_by_force :: "page_list \<Rightarrow> 'a mmkernel_scheme \<Rightarrow> 'a mmkernel_scheme" where
  "free_by_force l s = fold (\<lambda>k s. kfree_voilence (kva_begin (pageRecyc s k)) s) (page_lists s l) s"

definition alloc_extend_page :: "'a mmkernel_scheme \<Rightarrow> ('a mmkernel_scheme, u64) outcome" where
  "alloc_extend_page s =
    obind (kmalloc PAGE_SIZE s) (\<lambda>s page.
      let s = s\<lparr>mem := clear_pgdir page (mem s)\<rparr>; i = GET_MEM_NODE page
      in Ret (s\<lparr>page_lists := q_add_tail i extendPageList (q_del i (page_lists s))\<rparr>) page)"

text \<open>A page holds five elements of 816 bytes, each a list node of 16 bytes and the array.\<close>

abbreviation (input) sizeof_my_pipe :: u64 where "sizeof_my_pipe \<equiv> 816"
abbreviation (input) PipePage :: nat where "PipePage \<equiv> 5"

definition add_my_pipe :: "ptr \<Rightarrow> 'a os_scheme \<Rightarrow> 'a os_scheme" where
  "add_my_pipe p s = s\<lparr>ctx_pipes := (ctx_pipes s)(p + 16 := (\<lambda>_. \<lparr>cpt_used = 0, cpt_dev = 0, cpt_fd_num = 0, pipe_type = 0\<rparr>)),
    extendFdList := extendFdList s @ [p]\<rparr>"

fun extend_pages :: "nat \<Rightarrow> nat \<Rightarrow> nat \<Rightarrow> nat \<Rightarrow> 'a os_scheme \<Rightarrow> ('a os_scheme, nat) outcome" where
  "extend_pages 0 i num page_num s = Ret s page_num"
| "extend_pages (Suc n) i num page_num s =
    (if i < num then
       obind (alloc_extend_page s) (\<lambda>s new.
         extend_pages n (i + PipePage) num (page_num + 1)
           (fold (\<lambda>j. add_my_pipe (new + sizeof_my_pipe * of_nat j)) [0..<min PipePage (num - i)] s))
     else Ret s page_num)"

fun give_arrays :: "nat list \<Rightarrow> 'a os_scheme \<Rightarrow> ('a os_scheme, unit) outcome" where
  "give_arrays [] s = Ret s ()"
| "give_arrays (i # is) s =
    (case extendFdList s of
       [] \<Rightarrow> Panic s
     | p # ps \<Rightarrow> give_arrays is (upd_pcb (PCB i) (\<lambda>c. c\<lparr>ctx_pipe_array := p + 16\<rparr>) (s\<lparr>extendFdList := ps\<rparr>)))"

text \<open>\<open>num\<close> rounds are enough for the loop over the pages, which steps by five.\<close>

definition extend_pcb_fd :: "u64 \<Rightarrow> 'a os_scheme \<Rightarrow> ('a os_scheme, nat) outcome" where
  "extend_pcb_fd num s =
    (let s = free_by_force bioPageList (s\<lparr>status_ctx := 1, max_extend := num\<rparr>)
     in obind (extend_pages (unat num) 1 (unat num) 0 s) (\<lambda>s page_num.
        obind (give_arrays [1..<NUM_MAX_TASK] s) (\<lambda>s _. Ret s page_num)))"

definition close_extend :: "'a os_scheme \<Rightarrow> 'a os_scheme" where
  "close_extend s =
    (let s = s\<lparr>queues := (queues s)(available_queue := [])\<rparr>;
         s = fold (\<lambda>i s. if status (pcb_tab s (PCB i)) = TASK_EXITED
               then upd_pcb (PCB i) (\<lambda>p. p\<lparr>ctx_pipe_array := NULL\<rparr>) (klist_add_tail (PCB i) available_queue s)
               else s) [1..<NUM_MAX_TASK] s
     in (free_by_force extendPageList s)\<lparr>status_ctx := 0\<rparr>)"

abbreviation (input) EXTEND_FREE :: i32 where "EXTEND_FREE \<equiv> 0"

definition do_extend :: "u64 \<Rightarrow> i32 \<Rightarrow> u64 \<Rightarrow> 'a os_scheme \<Rightarrow> ('a os_scheme, nat) outcome" where
  "do_extend num how thr s =
    (if how = EXTEND_FREE then Ret (close_extend s) 0
     else if status_ctx s \<noteq> 0 then Ret (s\<lparr>threshold := thr\<rparr>) 0
     else extend_pcb_fd num (s\<lparr>threshold := thr\<rparr>))"

end
