(* ===== verification/Process.thy ===== *)
theory Process
  imports SpecialCtx Futex Recycle
begin

text \<open>
  Life and death of processes: \<open>do_clone\<close>, \<open>do_exit\<close> and \<open>do_wait4\<close> of \<open>kernel/sched/sched.c\<close>, with the operations
  on process control blocks of \<open>kernel/sched/init.c\<close>. A kernel stack holds trap frames and switch frames, which
  are the records of \<open>contexts\<close> and \<open>switch_contexts\<close> at their addresses.
\<close>

abbreviation (input) CLONE_VM :: u32 where "CLONE_VM \<equiv> 0x00000100"
abbreviation (input) CLONE_FILES :: u32 where "CLONE_FILES \<equiv> 0x00000400"
abbreviation (input) CLONE_SIGHAND :: u32 where "CLONE_SIGHAND \<equiv> 0x00000800"
abbreviation (input) CLONE_SETTLS :: u32 where "CLONE_SETTLS \<equiv> 0x00080000"
abbreviation (input) USER_STACK_ADDR :: u64 where "USER_STACK_ADDR \<equiv> 0xf00010000"
abbreviation (input) SR_FS :: u64 where "SR_FS \<equiv> 0x00006000"

text \<open>The addresses the linker gives to the global pointer, to \<open>ret_from_exception\<close> and to the PCBs.\<close>

record linkage =
  global_pointer :: u64
  ret_from_exception :: u64
  pcb_address :: "pcb_ref \<Rightarrow> u64"

section \<open>Process control blocks\<close>

definition get_free_pcb :: "'a os_scheme \<Rightarrow> ('a os_scheme, pcb_ref) outcome" where
  "get_free_pcb s =
    (if \<not> klist_empty available_queue s then
       let new = klist_first available_queue s in Ret (klist_del new s) new
     else obind (do_block (get_current_running s) available_wait_list s) (\<lambda>s _. Blocked s))"

text \<open>\<open>list_empty(&RecyclePcb->list)\<close> holds only for a node linked to itself; a node that is in no list has null
  pointers.\<close>

definition free_pcb :: "pcb_ref \<Rightarrow> 'a kernel_scheme \<Rightarrow> 'a kernel_scheme" where
  "free_pcb r s =
    (let s = upd_pcb r (\<lambda>p. p\<lparr>used := 0, status := TASK_EXITED, tid := 0, clear_ctid := NULL\<rparr>) s;
         s = klist_add r available_queue s
     in if klist_empty (WaitQ available_wait_list) s then s
        else do_unblock (klist_first (WaitQ available_wait_list) s) s)"

definition zero_timer :: timer where
  "zero_timer = \<lparr>set_itime = \<lparr>it_interval = \<lparr>tv_sec = 0, tv_usec = 0\<rparr>, it_value = \<lparr>tv_sec = 0, tv_usec = 0\<rparr>\<rparr>,
    add_tick = 0, last_send_tick = 0, value_valid = 0\<rparr>"

definition recycle_timer :: "pcb_ref \<Rightarrow> 'a os_scheme \<Rightarrow> 'a os_scheme" where
  "recycle_timer r s =
    (if add_tick (itimer (pcb_tab s r)) \<noteq> 0
     then upd_pcb r (\<lambda>p. p\<lparr>itimer := zero_timer\<rparr>) (s\<lparr>timer_list := list_del (timer_node r) (timer_list s)\<rparr>)
     else s)"

definition recycle_futex :: "i32 \<Rightarrow> nat \<Rightarrow> 'a os_scheme \<Rightarrow> 'a os_scheme" where
  "recycle_futex p i s =
    (if futex_node_used s i = p
     then s\<lparr>futex_buckets := q_del i (futex_buckets s), futex_node_used := (futex_node_used s)(i := 0)\<rparr>
     else s)"

definition recycle_pcb_default :: "pcb_ref \<Rightarrow> 'a os_scheme \<Rightarrow> 'a os_scheme" where
  "recycle_pcb_default r s =
    (let s = upd_pcb r (\<lambda>p. p\<lparr>pge_num := 0\<rparr>) (free_pcb r s);
         s = (if status_ctx s = 0 then free_fd_table (pfd (pcb_tab s r)) s else s);
         s = recycle_timer r (free_sig_table (sigactions (pcb_tab s r)) s)
     in fold (recycle_futex (pid (pcb_tab s r))) [0..<MAX_FUTEX_NUM] s)"

text \<open>The waiting processes are woken; then a son that is a zombie exits for good, which ends the search, and the
  sons before it get the father of the process.\<close>

definition release_waiters :: "pcb_ref \<Rightarrow> 'a kernel_scheme \<Rightarrow> 'a kernel_scheme" where
  "release_waiters r s =
    fold (\<lambda>w s. if status (pcb_tab s w) = TASK_BLOCKED then do_unblock w s else s) (queues s (WaitQ (pcb_wait_list r))) s"

fun deal_sons :: "(pcb_ref \<Rightarrow> 'a os_scheme \<Rightarrow> ('a os_scheme, unit) outcome) \<Rightarrow> pcb_ref \<Rightarrow> nat list \<Rightarrow> 'a os_scheme \<Rightarrow>
    ('a os_scheme, unit) outcome" where
  "deal_sons ex r [] s = Ret s ()"
| "deal_sons ex r (i # is) s =
    (if parent (pcb_tab s (PCB i)) = Some r \<and> used (pcb_tab s (PCB i)) \<noteq> 0 then
       if status (pcb_tab s (PCB i)) = TASK_ZOMBIE then ex (PCB i) s
       else deal_sons ex r is (upd_pcb (PCB i) (\<lambda>p. p\<lparr>parent := parent (pcb_tab s r)\<rparr>) s)
     else deal_sons ex r is s)"

definition release_wait_deal_son :: "(pcb_ref \<Rightarrow> 'a os_scheme \<Rightarrow> ('a os_scheme, unit) outcome) \<Rightarrow> pcb_ref \<Rightarrow> 'a os_scheme \<Rightarrow>
    ('a os_scheme, unit) outcome" where
  "release_wait_deal_son ex r s = deal_sons ex r [0..<NUM_MAX_TASK] (release_waiters r s)"

text \<open>The calls go from father to son; without fuel the stack has run over, which a chain of distinct processes
  does not do.\<close>

primrec handle_exit_fuel :: "nat \<Rightarrow> pcb_ref \<Rightarrow> 'a os_scheme \<Rightarrow> ('a os_scheme, unit) outcome" where
  "handle_exit_fuel 0 = (\<lambda>r s. Panic s)"
| "handle_exit_fuel (Suc n) = (\<lambda>r s.
    obind (release_wait_deal_son (handle_exit_fuel n) r s) (\<lambda>s _.
    obind (if flag (pcb_tab s r) AND CLONE_VM = 0
           then obind (recycle_page_part (pgdir (pcb_tab s r)) (exe_load (pcb_tab s r)) (edata (pcb_tab s r)) s) (\<lambda>s _. Ret s ())
           else Ret s ()) (\<lambda>s _.
      let s = recycle_pcb_default r s in Ret (freePage (kernel_stack_base (pcb_tab s r)) s) ())))"

definition handle_exit_pcb :: "pcb_ref \<Rightarrow> 'a os_scheme \<Rightarrow> ('a os_scheme, unit) outcome" where
  "handle_exit_pcb = handle_exit_fuel (NUM_MAX_TASK + 1)"

section \<open>Exit\<close>

text \<open>The store of 0 at the user address \<open>clear_ctid\<close> is not part of the state. The process does not come back.\<close>

definition do_exit :: "i32 \<Rightarrow> 'a os_scheme \<Rightarrow> ('a os_scheme, unit) outcome" where
  "do_exit code s =
    (let r = get_current_running s;
         s = upd_pcb r (\<lambda>p. p\<lparr>exit_status := code\<rparr>) s;
         s = (if clear_ctid (pcb_tab s r) \<noteq> NULL then do_futex_wakeup (clear_ctid (pcb_tab s r)) 1 s else s)
     in obind (if spawnmode (pcb_tab s r) = AUTO_CLEANUP_ON_EXIT then handle_exit_pcb r s
               else if ptype (pcb_tab s r) = USER_PROCESS \<and> spawnmode (pcb_tab s r) = ENTER_ZOMBIE_ON_EXIT then
                 let s = upd_pcb r (\<lambda>p. p\<lparr>status := TASK_ZOMBIE\<rparr>) s
                 in if flag (pcb_tab s r) AND 17 \<noteq> 0 then
                      case parent (pcb_tab s r) of None \<Rightarrow> Panic s | Some f \<Rightarrow> Ret (send_signal SIGCHLD f s) ()
                    else Ret s ()
               else Ret s ()) (\<lambda>s _. Blocked (do_scheduler s)))"

definition do_exit_group :: "i32 \<Rightarrow> 'a os_scheme \<Rightarrow> ('a os_scheme, unit) outcome" where
  "do_exit_group code s = do_exit code s"

section \<open>Wait\<close>

definition WEXITSTATUS :: "i32 \<Rightarrow> u16" where
  "WEXITSTATUS st = ucast (push_bit 8 st AND 0xff00)"

text \<open>\<open>status\<close> is the pointer the caller gave; what is stored there last is part of the result. The result of the loop
  is \<open>ret\<close> with this value.\<close>

definition store_status :: "'a os_scheme lseek_fun \<Rightarrow> 'a os_scheme read_fun \<Rightarrow> ptr \<Rightarrow> nat \<Rightarrow> u16 option \<Rightarrow> 'a os_scheme \<Rightarrow>
    ('a os_scheme, u16 option) outcome" where
  "store_status lseek rd st i v s =
    (if st = NULL then Ret s v
     else obind (handle_page_fault_store lseek rd st s) (\<lambda>s _. Ret s (Some (WEXITSTATUS (exit_status (pcb_tab s (PCB i)))))))"

definition reap :: "'a os_scheme lseek_fun \<Rightarrow> 'a os_scheme read_fun \<Rightarrow> ptr \<Rightarrow> nat \<Rightarrow> u16 option \<Rightarrow> 'a os_scheme \<Rightarrow>
    ('a os_scheme, u16 option) outcome" where
  "reap lseek rd st i v s =
    obind (store_status lseek rd st i v s) (\<lambda>s v. obind (handle_exit_pcb (PCB i) s) (\<lambda>s _. Ret s v))"

text \<open>The loop over the processes from the \<open>i\<close>-th on. A process that was blocked at son \<open>i\<close> comes back to
  \<open>wait4_woken i\<close>.\<close>

fun wait4_loop :: "'a os_scheme lseek_fun \<Rightarrow> 'a os_scheme read_fun \<Rightarrow> i32 \<Rightarrow> ptr \<Rightarrow> nat list \<Rightarrow> i32 \<times> u16 option \<Rightarrow> 'a os_scheme \<Rightarrow>
    ('a os_scheme, i32 \<times> u16 option) outcome" where
  "wait4_loop lseek rd p st [] rv s = Ret s rv"
| "wait4_loop lseek rd p st (i # is) rv s =
    (let c = pcb_tab s (PCB i) in
     if parent c = Some (get_current_running s) \<and> (p = -1 \<or> p = pid c) then
       if status c \<noteq> TASK_EXITED \<and> status c \<noteq> TASK_ZOMBIE then
         obind (do_block (get_current_running s) (pcb_wait_list (PCB i)) s) (\<lambda>s _. Blocked s)
       else if status c = TASK_ZOMBIE then
         obind (reap lseek rd st i (snd rv) s) (\<lambda>s v. wait4_loop lseek rd p st is (pid c, v) s)
       else wait4_loop lseek rd p st is rv s
     else wait4_loop lseek rd p st is rv s)"

definition wait4_woken :: "'a os_scheme lseek_fun \<Rightarrow> 'a os_scheme read_fun \<Rightarrow> i32 \<Rightarrow> ptr \<Rightarrow> nat \<Rightarrow> i32 \<Rightarrow> u16 option \<Rightarrow> 'a os_scheme \<Rightarrow>
    ('a os_scheme, i32 \<times> u16 option) outcome" where
  "wait4_woken lseek rd p st i ret v s =
    obind (store_status lseek rd st i v s) (\<lambda>s v.
    obind (if status (pcb_tab s (PCB i)) = TASK_ZOMBIE then handle_exit_pcb (PCB i) s else Ret s ()) (\<lambda>s _.
      wait4_loop lseek rd p st [Suc i..<NUM_MAX_TASK] (ret, v) s))"

definition do_wait4 :: "'a os_scheme lseek_fun \<Rightarrow> 'a os_scheme read_fun \<Rightarrow> i32 \<Rightarrow> ptr \<Rightarrow> 'a os_scheme \<Rightarrow>
    ('a os_scheme, i32 \<times> u16 option) outcome" where
  "do_wait4 lseek rd p st s = wait4_loop lseek rd p st [0..<NUM_MAX_TASK] (-1, None) s"

definition do_tkill :: "i32 \<Rightarrow> nat \<Rightarrow> 'a kernel_scheme \<Rightarrow> 'a kernel_scheme" where
  "do_tkill t sig s = fst (do_kill t sig s)"

definition do_tgkill :: "i32 \<Rightarrow> i32 \<Rightarrow> nat \<Rightarrow> 'a kernel_scheme \<Rightarrow> 'a kernel_scheme" where
  "do_tgkill tg t sig s = fst (do_kill t sig s)"

section \<open>New processes\<close>

definition upd_context :: "ptr \<Rightarrow> (regs_context \<Rightarrow> regs_context) \<Rightarrow> 'a kernel_scheme \<Rightarrow> 'a kernel_scheme" where
  "upd_context a f s = s\<lparr>contexts := (contexts s)(a := f (contexts s a))\<rparr>"

definition set_reg :: "nat \<Rightarrow> u64 \<Rightarrow> regs_context \<Rightarrow> regs_context" where
  "set_reg i v c = c\<lparr>regs := (regs c)(i := v)\<rparr>"

definition zero_context :: regs_context where
  "zero_context = \<lparr>regs = (\<lambda>_. 0), sstatus = 0, sepc = 0, sbadaddr = 0, scause = 0, sscratch = 0, f_regs = (\<lambda>_. 0), core_id = 0\<rparr>"

text \<open>The frames of a new process; on the k210 \<open>sstatus\<close> is \<open>SR_FS\<close>.\<close>

definition init_pcb_stack :: "linkage \<Rightarrow> u64 \<Rightarrow> u64 \<Rightarrow> pcb_ref \<Rightarrow> 'a kernel_scheme \<Rightarrow> 'a kernel_scheme" where
  "init_pcb_stack lk kernel_stack entry_point r s =
    (let pt_regs = kernel_stack - OFFSET_SIZE; switch_reg = kernel_stack - OFFSET_SIZE - SWITCH_TO_SIZE;
         s = upd_context pt_regs (\<lambda>_. zero_context) s;
         s = upd_pcb r (\<lambda>p. p\<lparr>kernel_sp := kernel_sp p - (OFFSET_SIZE + SWITCH_TO_SIZE)\<rparr>) s;
         s = s\<lparr>switch_contexts := (switch_contexts s)(switch_reg := \<lparr>sw_regs = (\<lambda>_. 0)\<rparr>)\<rparr>;
         s = upd_pcb r (\<lambda>p. p\<lparr>save_context := pt_regs, switch_context := switch_reg\<rparr>) s;
         user = (ptype (pcb_tab s r) = USER_PROCESS \<or> ptype (pcb_tab s r) = USER_THREAD);
         s = (if user then upd_context pt_regs (\<lambda>c.
                (set_reg 4 (pcb_address lk r) (set_reg 3 (global_pointer lk) (set_reg 2 (user_sp (pcb_tab s r)) c)))
                  \<lparr>sscratch := pcb_address lk r, sepc := entry_point, sstatus := SR_FS\<rparr>) s
              else s);
         s = s\<lparr>switch_contexts := (switch_contexts s)(switch_reg :=
                \<lparr>sw_regs = (sw_regs (switch_contexts s switch_reg))
                  (0 := if user then ret_from_exception lk else entry_point, 1 := kernel_sp (pcb_tab s r))\<rparr>)\<rparr>
     in upd_pcb r (\<lambda>p. p\<lparr>pge_num := 0\<rparr>) s)"

text \<open>The copy of a kernel stack takes along the frames on it.\<close>

definition copy_frames :: "u64 \<Rightarrow> u64 \<Rightarrow> 'a kernel_scheme \<Rightarrow> 'a kernel_scheme" where
  "copy_frames dst src s =
    s\<lparr>contexts := (\<lambda>a. if a - dst < NORMAL_PAGE_SIZE then contexts s (src + (a - dst)) else contexts s a),
      switch_contexts := (\<lambda>a. if a - dst < NORMAL_PAGE_SIZE then switch_contexts s (src + (a - dst)) else switch_contexts s a)\<rparr>"

definition init_clone_stack :: "linkage \<Rightarrow> pcb_ref \<Rightarrow> u64 \<Rightarrow> 'a os_scheme \<Rightarrow> 'a os_scheme" where
  "init_clone_stack lk r tls s =
    (let cur = get_current_running s;
         top = kernel_stack_top (pcb_tab s r);
         sc = top - OFFSET_SIZE; sw = top - OFFSET_SIZE - SWITCH_TO_SIZE;
         s = upd_pcb r (\<lambda>p. p\<lparr>save_context := sc, switch_context := sw\<rparr>) s;
         s = copy_frames (kernel_stack_base (pcb_tab s r)) (kernel_stack_base (pcb_tab s cur))
               (share_pgtable (kernel_stack_base (pcb_tab s r)) (kernel_stack_base (pcb_tab s cur)) s);
         s = upd_pcb r (\<lambda>p. p\<lparr>kernel_sp := sw\<rparr>) s;
         s = s\<lparr>switch_contexts := (switch_contexts s)(sw :=
               \<lparr>sw_regs = (sw_regs (switch_contexts s sw))(0 := ret_from_exception lk, 1 := kernel_sp (pcb_tab s r))\<rparr>)\<rparr>;
         sp = (if user_stack_top (pcb_tab s r) = USER_STACK_ADDR then regs (contexts s (save_context (pcb_tab s cur))) 2
               else user_stack_top (pcb_tab s r));
         s = upd_context sc (set_reg 2 sp) s;
         s = (if flag (pcb_tab s r) AND CLONE_SETTLS \<noteq> 0 then upd_context sc (set_reg 4 tls) s else s);
         s = upd_context sc (\<lambda>c. (set_reg 10 0 c)\<lparr>sscratch := pcb_address lk r\<rparr>) s
     in s\<lparr>queues := (queues s)(WaitQ (pcb_wait_list r) := [])\<rparr>)"

definition clone_files :: "pcb_ref \<Rightarrow> 'a os_scheme \<Rightarrow> ('a os_scheme, unit) outcome" where
  "clone_files r s =
    (let cur = get_current_running s; t = pfd (pcb_tab s cur) in
     if flag (pcb_tab s r) AND CLONE_FILES \<noteq> 0 then
       Ret ((upd_pcb r (\<lambda>p. p\<lparr>pfd := t\<rparr>) s)\<lparr>pfd_tab := (pfd_tab s)(t := (pfd_tab s t)\<lparr>table_num := table_num (pfd_tab s t) + 1\<rparr>)\<rparr>) ()
     else if status_ctx s \<noteq> 0 then copy_extend_fd (ctx_pipe_array (pcb_tab s r)) (ctx_pipe_array (pcb_tab s cur)) s
     else obind (alloc_fd_table s) (\<lambda>s n.
       Ret (fold (\<lambda>i. copy_fd n i t i) [0..<MAX_FD_NUM] (upd_pcb r (\<lambda>p. p\<lparr>pfd := n\<rparr>) s)) ()))"

definition clone_signals :: "pcb_ref \<Rightarrow> 'a os_scheme \<Rightarrow> ('a os_scheme, unit) outcome" where
  "clone_signals r s =
    (let t = sigactions (cur_pcb s) in
     if flag (pcb_tab s r) AND CLONE_SIGHAND \<noteq> 0 then
       Ret ((upd_pcb r (\<lambda>p. p\<lparr>sigactions := t\<rparr>) s)\<lparr>sig_table := (sig_table s)(t := (sig_table s t)\<lparr>st_num := st_num (sig_table s t) + 1\<rparr>)\<rparr>) ()
     else obind (alloc_sig_table s) (\<lambda>s n.
       let s = upd_pcb r (\<lambda>p. p\<lparr>sigactions := n\<rparr>) s
       in Ret (s\<lparr>sig_table := (sig_table s)(n := (sig_table s n)\<lparr>st_actions :=
             (\<lambda>j. if j < NUM_SIG then st_actions (sig_table s t) j else st_actions (sig_table s n) j)\<rparr>)\<rparr>) ()))"

definition init_clone_pcb :: "pcb_ref \<Rightarrow> task_type \<Rightarrow> spawn_mode \<Rightarrow> 'a os_scheme \<Rightarrow> ('a os_scheme, unit) outcome" where
  "init_clone_pcb r ty mode s =
    (let cur = get_current_running s; now = get_ticks s; n = process_id s;
         s = upd_pcb r (\<lambda>p. p\<lparr>pre_time := now, pid := n, parent := Some cur, ppid := pid (pcb_tab s cur), tid := n,
               execve := 0, used := 1, status := TASK_READY, ptype := ty, spawnmode := mode,
               user_sp := user_stack_top p, kernel_sp := kernel_stack_top p,
               kernel_stack_base := kernel_stack_top p - PAGE_SIZE, user_stack_base := user_stack_top p - PAGE_SIZE\<rparr>)
             (s\<lparr>process_id := n + 1\<rparr>);
         s = clear_pcb_time r s;
         s = s\<lparr>queues := (queues s)(WaitQ (pcb_wait_list r) := [])\<rparr>;
         s = upd_pcb r (\<lambda>p. p\<lparr>fd_limit := fd_limit (pcb_tab s cur), itimer := (itimer p)\<lparr>add_tick := 0\<rparr>\<rparr>) s
     in obind (clone_files r s) (\<lambda>s _.
        let s = upd_pcb r (\<lambda>p. p\<lparr>elf := elf (pcb_tab s cur), edata := edata (pcb_tab s cur)\<rparr>) s
        in obind (clone_signals r s) (\<lambda>s _.
           Ret (upd_pcb r (\<lambda>p. p\<lparr>is_handle_signal := 0, sig_recv := 0, sig_pend := 0, sig_mask := 0,
             exe_load := exe_load (pcb_tab s cur)\<rparr>) s) ())))"

section \<open>Sharing the address space\<close>

text \<open>The loops of \<open>copy_on_write\<close> over the entries of the tables; the tables of the child are made on the way.\<close>

definition cow_leaf :: "u64 \<Rightarrow> u64 \<Rightarrow> nat \<Rightarrow> 'a mmkernel_scheme \<Rightarrow> 'a mmkernel_scheme" where
  "cow_leaf third_src third_dst vpn0 s =
    (let a = third_src + 8 * of_nat vpn0; b = third_dst + 8 * of_nat vpn0 in
     if mem s a = 0 \<or> mem s b \<noteq> 0 then s
     else
       let share_base = pa2kva (push_bit 12 (get_pfn (mem s a)));
           pte_flags = get_attribute (mem s a) AND NOT PAGE_WRITE;
           s = upd_mem a (\<lambda>e. set_attribute e pte_flags) s;
           s = upd_mem b (\<lambda>_. mem s a) s
       in share_add share_base s)"

fun cow_mid :: "u64 \<Rightarrow> u64 \<Rightarrow> nat list \<Rightarrow> 'a mmkernel_scheme \<Rightarrow> ('a mmkernel_scheme, unit) outcome" where
  "cow_mid second_src second_dst [] s = Ret s ()"
| "cow_mid second_src second_dst (vpn1 # is) s =
    (if pte_at (mem s) second_src (of_nat vpn1) = 0 then cow_mid second_src second_dst is s
     else
       let third_src = table_of (pte_at (mem s) second_src (of_nat vpn1))
       in obind (check_page_set_flag second_dst (of_nat vpn1) PAGE_PRESENT s) (\<lambda>s third_dst.
            cow_mid second_src second_dst is (fold (cow_leaf third_src third_dst) [0..<PTE_NUM] s)))"

fun cow_top :: "u64 \<Rightarrow> u64 \<Rightarrow> nat list \<Rightarrow> 'a mmkernel_scheme \<Rightarrow> ('a mmkernel_scheme, unit) outcome" where
  "cow_top src dst [] s = Ret s ()"
| "cow_top src dst (vpn2 # is) s =
    (if pte_at (mem s) (pa2kva PGDIR_PA) (of_nat vpn2) \<noteq> 0 \<or> pte_at (mem s) src (of_nat vpn2) = 0 then cow_top src dst is s
     else
       let second_src = table_of (pte_at (mem s) src (of_nat vpn2))
       in obind (check_page_set_flag dst (of_nat vpn2) PAGE_PRESENT s) (\<lambda>s second_dst.
          obind (cow_mid second_src second_dst [0..<PTE_NUM] s) (\<lambda>s _. cow_top src dst is s)))"

definition copy_on_write :: "u64 \<Rightarrow> u64 \<Rightarrow> 'a mmkernel_scheme \<Rightarrow> ('a mmkernel_scheme, unit) outcome" where
  "copy_on_write src_pgdir dst_pgdir s = cow_top src_pgdir dst_pgdir [0..<PTE_NUM] s"

section \<open>Clone\<close>

text \<open>The mapped pages below the top of the stack are copied. The address goes down through the user half, so
  \<open>2 ^ 27\<close> pages are more than there are.\<close>

fun clone_stack :: "nat \<Rightarrow> pcb_ref \<Rightarrow> u64 \<Rightarrow> 'a os_scheme \<Rightarrow> ('a os_scheme, unit) outcome" where
  "clone_stack 0 r u_base s = Panic s"
| "clone_stack (Suc n) r u_base s =
    (let cpg = pgdir (cur_pcb s); ku_base = get_kva_of (mem s) u_base cpg in
     if ku_base = NULL then Ret s ()
     else obind (alloc_page_helper u_base (pgdir (pcb_tab s r)) MAP_USER s) (\<lambda>s cloneu_base.
       let pte = get_PTE_of (mem s) u_base cpg;
           s = (if status_ctx s \<noteq> 0 \<and> mem s pte AND PAGE_SD \<noteq> 0
                then kfree_voilence cloneu_base (upd_mem (page_pte (pageRecyc s (GET_MEM_NODE cloneu_base))) (\<lambda>_. mem s pte) s)
                else share_pgtable cloneu_base ku_base s)
       in clone_stack n r (u_base - NORMAL_PAGE_SIZE) s))"

text \<open>The characters of \<open>_son\<close>.\<close>

definition son_suffix :: "u8 list" where
  "son_suffix = [95, 115, 111, 110]"

definition do_clone :: "linkage \<Rightarrow> u32 \<Rightarrow> u64 \<Rightarrow> u64 \<Rightarrow> 'a os_scheme \<Rightarrow> ('a os_scheme, i32) outcome" where
  "do_clone lk flg stack tls s =
    (let cur = get_current_running s in
     obind (get_free_pcb s) (\<lambda>s r.
     obind (if flg AND CLONE_VM \<noteq> 0 then Ret (upd_pcb r (\<lambda>p. p\<lparr>pgdir := pgdir (pcb_tab s cur)\<rparr>) s) ()
            else obind (allocPage s) (\<lambda>s top.
              Ret (share_pgtable (top - PAGE_SIZE) (pa2kva PGDIR_PA) (upd_pcb r (\<lambda>p. p\<lparr>pgdir := top - PAGE_SIZE\<rparr>) s)) ())) (\<lambda>s _.
     obind (allocPage s) (\<lambda>s top.
     let s = upd_pcb r (\<lambda>p. p\<lparr>kernel_stack_top := top,
               user_stack_top := (if stack \<noteq> 0 then stack else USER_STACK_ADDR), flag := flg\<rparr>) s
     in obind (init_clone_pcb r USER_PROCESS ENTER_ZOMBIE_ON_EXIT s) (\<lambda>s _.
     obind (clone_stack (2 ^ 27) r (user_stack_top (pcb_tab s r) - NORMAL_PAGE_SIZE) s) (\<lambda>s _.
     obind (if flg AND CLONE_VM = 0 then copy_on_write (pgdir (pcb_tab s cur)) (pgdir (pcb_tab s r)) s else Ret s ()) (\<lambda>s _.
     let s = upd_pcb r (\<lambda>p. p\<lparr>pname := pname (pcb_tab s cur) @ son_suffix\<rparr>) s;
         s = init_clone_stack lk r tls s;
         s = upd_pcb r (\<lambda>p. p\<lparr>user_stack_top := user_stack_top (pcb_tab s cur)\<rparr>) s;
         s = klist_add r ready_queue s
     in Ret s (pid (pcb_tab s r)))))))))"

end
