(* ===== verification/Socket.thy ===== *)
theory Socket
  imports Files
begin

text \<open>
  Local sockets (\<open>kernel/socket/socket.c\<close>). An address is a pointer into the memory of a process: \<open>sa p\<close> is the argument
  that gives the 16 bytes at \<open>p\<close>, as the process that runs sees them. A socket that is not bound has a null pointer, and
  the kernel that reads through it faults and ends in \<open>assert(0)\<close>. The ring buffer of a socket has no memory, so that
  the first byte stored there ends the same way.
\<close>

abbreviation (input) SOCK_CLOEXEC :: i32 where "SOCK_CLOEXEC \<equiv> 0x80000"
abbreviation (input) SOCK_NONBLOCK :: i32 where "SOCK_NONBLOCK \<equiv> 0x800"
abbreviation (input) FD_CLOEXEC :: u32 where "FD_CLOEXEC \<equiv> 1"
abbreviation (input) IPPROTO_TCP :: i32 where "IPPROTO_TCP \<equiv> 6"
abbreviation (input) IPPROTO_UDP :: i32 where "IPPROTO_UDP \<equiv> 17"
abbreviation (input) sizeof_sockaddr :: u32 where "sizeof_sockaddr \<equiv> 16"
abbreviation (input) sock_lock :: ptr where "sock_lock \<equiv> 0x20000"

definition sock_ring_lock :: "nat \<Rightarrow> ptr" where
  "sock_ring_lock i = of_nat (64 * i) + 0x20040"

definition upd_sock :: "nat \<Rightarrow> (socket \<Rightarrow> socket) \<Rightarrow> 'a os_scheme \<Rightarrow> 'a os_scheme" where
  "upd_sock i f s = s\<lparr>sock_tab := (sock_tab s)(i := f (sock_tab s i))\<rparr>"

definition clear_socket :: "nat \<Rightarrow> 'a os_scheme \<Rightarrow> 'a os_scheme" where
  "clear_socket i s = do_mutex_lock_init (sock_ring_lock i) (upd_sock i (\<lambda>_. zero_socket) s)"

definition init_socket :: "'a os_scheme \<Rightarrow> 'a os_scheme" where
  "init_socket s = fold clear_socket [1..<MAX_SOCK_NUM + 1] (do_mutex_lock_init sock_lock s)"

text \<open>With \<open>sock_lock\<close> held.\<close>

definition locked_sock :: "('a os_scheme \<Rightarrow> ('a os_scheme, 'b) outcome) \<Rightarrow> 'a os_scheme \<Rightarrow> ('a os_scheme, 'b) outcome" where
  "locked_sock f s = obind (do_mutex_lock_acquire sock_lock s) (\<lambda>s _.
     obind (f s) (\<lambda>s r. Ret (do_mutex_lock_release sock_lock s) r))"

text \<open>A descriptor for the socket: the exit without a descriptor keeps \<open>sock_lock\<close>.\<close>

definition do_socket :: "i32 \<Rightarrow> i32 \<Rightarrow> i32 \<Rightarrow> 'a os_scheme \<Rightarrow> ('a os_scheme, int) outcome" where
  "do_socket domain type proto s =
    obind (do_mutex_lock_acquire sock_lock s) (\<lambda>s _.
      let cur = get_current_running s; t = pfd (pcb_tab s cur) in
      case first_index (\<lambda>i. sock_used (sock_tab s i) = 0) [1..<MAX_SOCK_NUM + 1] of
        None \<Rightarrow> Ret (do_mutex_lock_release sock_lock s) (- ENFILE)
      | Some k \<Rightarrow>
          let i = k + 1;
              s = upd_sock i (\<lambda>x. x\<lparr>sock_used := 1, sock_domain := domain, sock_status := SOCK_CLOSED, sock_type := type,
                    protocol := proto\<rparr>) s
          in case get_one_fd cur s of
               None \<Rightarrow> Panic s
             | Some (s, new) \<Rightarrow>
                 if new = -1 then Ret s (- ENFILE)
                 else (case get_fd_index new cur s of
                   Some (Some j) \<Rightarrow>
                     Ret (do_mutex_lock_release sock_lock (upd_fd t j (\<lambda>f. f\<lparr>dev := DEV_SOCK, sock_num := of_nat i,
                         fd_mode := (if type AND SOCK_CLOEXEC \<noteq> 0 then fd_mode f OR FD_CLOEXEC else fd_mode f),
                         fd_flags := (if type AND SOCK_NONBLOCK \<noteq> 0 then fd_flags f OR SOCK_NONBLOCK else fd_flags f)\<rparr>) s))
                       (sint new)
                 | _ \<Rightarrow> Panic s))"

text \<open>The number of the socket of a descriptor: \<open>assert(dev == DEV_SOCK)\<close>; \<open>None\<close> also when there is none and the
  element before the table would be read.\<close>

definition sock_of_fd :: "u32 \<Rightarrow> 'a os_scheme \<Rightarrow> nat option" where
  "sock_of_fd sockfd s =
    (case get_fd_index sockfd (get_current_running s) s of
       Some (Some i) \<Rightarrow>
         let f = cur_fd s i in if dev f = DEV_SOCK then Some (unat (sock_num f)) else None
     | _ \<Rightarrow> None)"

definition do_bind :: "u32 \<Rightarrow> ptr \<Rightarrow> u32 \<Rightarrow> 'a os_scheme \<Rightarrow> ('a os_scheme, int) outcome" where
  "do_bind sockfd addr addrlen s =
    (case sock_of_fd sockfd s of
       None \<Rightarrow> Panic s
     | Some k \<Rightarrow>
         if addrlen \<noteq> sizeof_sockaddr then Panic s
         else locked_sock (\<lambda>s. Ret (upd_sock k (\<lambda>x. x\<lparr>sock_addr := addr\<rparr>) s) 0) s)"

definition do_listen :: "u32 \<Rightarrow> i32 \<Rightarrow> 'a os_scheme \<Rightarrow> ('a os_scheme, int) outcome" where
  "do_listen sockfd blog s =
    (case sock_of_fd sockfd s of
       None \<Rightarrow> Panic s
     | Some k \<Rightarrow>
         if sint blog > int MAX_WAIT_LIST then Panic s
         else locked_sock (\<lambda>s. Ret (upd_sock k (\<lambda>x. x\<lparr>sock_status := SOCK_LISTEN, backlog := blog\<rparr>) s) 0) s)"

text \<open>The first socket of the list with the address \<open>addr\<close> that passes the test; the outer \<open>None\<close> is the read through a
  null pointer.\<close>

fun sock_at :: "(ptr \<Rightarrow> u8 list) \<Rightarrow> ptr \<Rightarrow> (socket \<Rightarrow> bool) \<Rightarrow> (nat \<Rightarrow> socket) \<Rightarrow> nat list \<Rightarrow> nat option option" where
  "sock_at sa addr ok tab [] = Some None"
| "sock_at sa addr ok tab (i # is) =
    (if addr = NULL \<or> sock_addr (tab i) = NULL then None
     else if sa addr = sa (sock_addr (tab i)) \<and> ok (tab i) then Some (Some i)
     else sock_at sa addr ok tab is)"

text \<open>The loop at the end of \<open>do_connect\<close>, entered with \<open>sock_lock\<close> held; a process that gives up the processor goes on
  with \<open>connect_again\<close>.\<close>

definition connect_wait :: "nat \<Rightarrow> 'a os_scheme \<Rightarrow> ('a os_scheme, int) outcome" where
  "connect_wait k s =
    (let s' = do_mutex_lock_release sock_lock s in
     if sock_status (sock_tab s k) = SOCK_ACCEPTED then Ret s' 0 else Blocked (do_scheduler s'))"

definition connect_again :: "nat \<Rightarrow> 'a os_scheme \<Rightarrow> ('a os_scheme, int) outcome" where
  "connect_again k s = obind (do_mutex_lock_acquire sock_lock s) (\<lambda>s _. connect_wait k s)"

definition do_connect :: "(ptr \<Rightarrow> u8 list) \<Rightarrow> u32 \<Rightarrow> ptr \<Rightarrow> u32 \<Rightarrow> 'a os_scheme \<Rightarrow> ('a os_scheme, int) outcome" where
  "do_connect sa sockfd addr addrlen s =
    (case sock_of_fd sockfd s of
       None \<Rightarrow> Panic s
     | Some k \<Rightarrow>
         if addrlen \<noteq> sizeof_sockaddr then Ret s (- EINVAL)
         else obind (do_mutex_lock_acquire sock_lock s) (\<lambda>s _.
           case sock_at sa addr (\<lambda>x. sock_status x = SOCK_LISTEN) (sock_tab s) [1..<MAX_SOCK_NUM + 1] of
             None \<Rightarrow> Panic s
           | Some None \<Rightarrow> Ret (do_mutex_lock_release sock_lock s) (- ECONNREFUSED)
           | Some (Some i) \<Rightarrow>
               (case first_index (\<lambda>j. wait_list (sock_tab s i) j = 0) [0..<nat (sint (backlog (sock_tab s i)))] of
                  None \<Rightarrow> Ret (do_mutex_lock_release sock_lock s) (- EAGAIN)
                | Some j \<Rightarrow>
                    let s = upd_sock i (\<lambda>x. x\<lparr>wait_list := (wait_list x)(j := of_nat k)\<rparr>) s
                    in if sock_type (sock_tab s k) AND SOCK_NONBLOCK \<noteq> 0
                       then Ret (do_mutex_lock_release sock_lock (upd_sock k (\<lambda>x. x\<lparr>sock_status := SOCK_ACCEPTED\<rparr>) s)) 0
                       else connect_wait k s)))"

text \<open>\<open>addrlen\<close> is the value the caller's pointer points to.\<close>

definition do_accept :: "u32 \<Rightarrow> ptr \<Rightarrow> u32 \<Rightarrow> 'a os_scheme \<Rightarrow> ('a os_scheme, int) outcome" where
  "do_accept sockfd addr addrlen s =
    (case sock_of_fd sockfd s of
       None \<Rightarrow> Panic s
     | Some k \<Rightarrow>
         if addrlen \<noteq> sizeof_sockaddr \<or> addr \<noteq> sock_addr (sock_tab s k) then Panic s
         else obind (do_mutex_lock_acquire sock_lock s) (\<lambda>s _.
           let x = sock_tab s k in
           case first_index (\<lambda>j. wait_list x j \<noteq> 0) [0..<nat (sint (backlog x))] of
             None \<Rightarrow> Ret (do_mutex_lock_release sock_lock s) (- EAGAIN)
           | Some j \<Rightarrow>
               let s = upd_sock (unat (wait_list x j)) (\<lambda>y. y\<lparr>sock_status := SOCK_ACCEPTED\<rparr>) s;
                   s = upd_sock k (\<lambda>y. y\<lparr>wait_list := (wait_list y)(j := 0)\<rparr>) s;
                   s = do_mutex_lock_release sock_lock s; y = sock_tab s k
               in obind (do_socket (sock_domain y) (sock_type y) (protocol y) s) (\<lambda>s new_sock.
                  locked_sock (\<lambda>s.
                    case get_fd_index (word_of_int new_sock) (get_current_running s) s of
                      Some (Some i) \<Rightarrow>
                        Ret (upd_sock (unat (sock_num (cur_fd s i))) (\<lambda>y. y\<lparr>sock_status := SOCK_ESTABLISHED\<rparr>) s) new_sock
                    | _ \<Rightarrow> Panic s) s)))"

definition do_sendto :: "(ptr \<Rightarrow> u8 list) \<Rightarrow> u64 \<Rightarrow> ptr \<Rightarrow> u32 \<Rightarrow> 'a os_scheme \<Rightarrow> ('a os_scheme, int) outcome" where
  "do_sendto sa len dest_addr addrlen s =
    (if addrlen \<noteq> sizeof_sockaddr then Panic s
     else locked_sock (\<lambda>s.
       case sock_at sa dest_addr (\<lambda>x. protocol x = IPPROTO_UDP \<or> protocol x = IPPROTO_TCP \<and> sock_status x = SOCK_ESTABLISHED)
              (sock_tab s) [1..<MAX_SOCK_NUM + 1] of
         None \<Rightarrow> Panic s
       | Some None \<Rightarrow> Ret s (- ENOTCONN)
       | Some (Some i) \<Rightarrow> if len > 0 then Panic s else Ret s 0) s)"

text \<open>The result is the number with the bytes stored at \<open>buf\<close>.\<close>

definition do_recvfrom :: "'a os_scheme lseek_fun \<Rightarrow> 'a os_scheme read_fun \<Rightarrow> u32 \<Rightarrow> ptr \<Rightarrow> u64 \<Rightarrow> 'a os_scheme \<Rightarrow>
    ('a os_scheme, int \<times> u8 list) outcome" where
  "do_recvfrom lseek rd sockfd buf len s =
    (case sock_of_fd sockfd s of
       None \<Rightarrow> Panic s
     | Some k \<Rightarrow>
         locked_sock (\<lambda>s.
           let n = scast (ring_buffer_used (sock_data (sock_tab s k))) :: u64;
               read_len = (ucast (if len < n then len else n) :: i32)
           in obind (read_ring_buffer lseek rd (sock_ring_lock k) (\<lambda>s. sock_data (sock_tab s k))
                (\<lambda>rb. upd_sock k (\<lambda>x. x\<lparr>sock_data := rb\<rparr>)) buf (scast read_len) s) (\<lambda>s bytes.
              Ret s (sint read_len, bytes))) s)"

definition close_socket :: "nat \<Rightarrow> 'a os_scheme \<Rightarrow> ('a os_scheme, int) outcome" where
  "close_socket k s = locked_sock (\<lambda>s. Ret (clear_socket k s) 0) s"

definition do_getsockname :: "(ptr \<Rightarrow> u8 list) \<Rightarrow> u32 \<Rightarrow> u32 \<Rightarrow> 'a os_scheme \<Rightarrow> ('a os_scheme, int \<times> u8 list) outcome" where
  "do_getsockname sa sockfd addrlen s =
    (case sock_of_fd sockfd s of
       None \<Rightarrow> Panic s
     | Some k \<Rightarrow>
         if addrlen \<noteq> sizeof_sockaddr then Panic s
         else locked_sock (\<lambda>s.
           if sock_addr (sock_tab s k) = NULL then Panic s else Ret s (0, sa (sock_addr (sock_tab s k)))) s)"

definition do_setsockopt :: "i32 \<Rightarrow> i32 \<Rightarrow> i32" where
  "do_setsockopt level optname = 0"

end
