(* ===== verification/FatTable.thy ===== *)
theory FatTable
  imports Files BufferCache
begin

text \<open>
  The allocation table of the FAT32 volume: \<open>next_cluster\<close> of \<open>include/fs/fat32.h\<close> and the functions of
  \<open>kernel/utils/utils.c\<close> that look for a free cluster, extend a chain of clusters and place the position of a
  descriptor. Sectors are read and written through the buffer cache; a page that \<open>kmalloc\<close> gives as a buffer is a list
  of bytes. A loop that may go on for ever has a bound as its first argument and ends in \<open>Panic\<close> when it is used up.
\<close>

unbundle bit_operations_syntax

section \<open>Bytes of a buffer\<close>

definition byte_at :: "u8 list \<Rightarrow> nat \<Rightarrow> u8" where
  "byte_at d i = (if i < length d then d ! i else 0)"

definition le16 :: "u8 list \<Rightarrow> nat \<Rightarrow> u16" where
  "le16 d i = ucast (byte_at d i) OR push_bit 8 (ucast (byte_at d (i + 1)))"

definition le32 :: "u8 list \<Rightarrow> nat \<Rightarrow> u32" where
  "le32 d i = ucast (byte_at d i) OR push_bit 8 (ucast (byte_at d (i + 1)))
    OR push_bit 16 (ucast (byte_at d (i + 2))) OR push_bit 24 (ucast (byte_at d (i + 3)))"

definition bytes16 :: "u16 \<Rightarrow> u8 list" where
  "bytes16 w = [ucast w, ucast (drop_bit 8 w)]"

definition bytes32 :: "u32 \<Rightarrow> u8 list" where
  "bytes32 w = [ucast w, ucast (drop_bit 8 w), ucast (drop_bit 16 w), ucast (drop_bit 24 w)]"

text \<open>The bytes \<open>b\<close> stored from offset \<open>i\<close> on.\<close>

definition put_bytes :: "nat \<Rightarrow> u8 list \<Rightarrow> u8 list \<Rightarrow> u8 list" where
  "put_bytes i b d = take i d @ b @ drop (i + length b) d"

definition page_of :: "u8 list \<Rightarrow> u8 list" where
  "page_of d = d @ replicate (4096 - length d) 0"

section \<open>Sizes\<close>

abbreviation (input) CLUSER_END :: u32 where "CLUSER_END \<equiv> 0x0fffffff"
abbreviation (input) M_FAT32_EOC :: u32 where "M_FAT32_EOC \<equiv> 0x0fffffff"

definition BUFSIZE :: "fat_t \<Rightarrow> nat" where
  "BUFSIZE f = (if 4096 > unat (CLUSTER_SIZE f) then unat (CLUSTER_SIZE f) else 4096)"

definition READ_MAX_SEC :: "fat_t \<Rightarrow> nat" where
  "READ_MAX_SEC f = BUFSIZE f div unat (SECTOR_SIZE f)"

section \<open>The chain of clusters\<close>

definition next_cluster :: "u32 \<Rightarrow> 'a os_scheme \<Rightarrow> ('a os_scheme, u32) outcome" where
  "next_cluster cluster s =
    obind (kmalloc PAGE_SIZE s) (\<lambda>s page.
    obind (disk_read 1 (fat_sec_of_clus (fat s) cluster 1) s) (\<lambda>s d.
      Ret (kfree page s) (le32 d (unat (fat_offset_of_clus (fat s) cluster)))))"

text \<open>One entry of one copy of the table: the sector is read, changed and written.\<close>

definition set_fat_entry :: "u32 \<Rightarrow> u8 \<Rightarrow> u32 \<Rightarrow> 'a os_scheme \<Rightarrow> ('a os_scheme, unit) outcome" where
  "set_fat_entry cluster fat_num v s =
    (let sec = fat_sec_of_clus (fat s) cluster fat_num in
     obind (disk_read 1 sec s) (\<lambda>s d.
       disk_write 1 sec (put_bytes (unat (fat_offset_of_clus (fat s) cluster)) (bytes32 v) d) s))"

definition write_fat_table :: "u32 \<Rightarrow> u32 \<Rightarrow> 'a os_scheme \<Rightarrow> ('a os_scheme, unit) outcome" where
  "write_fat_table old_clus new_clus s =
    obind (kmalloc PAGE_SIZE s) (\<lambda>s buff.
      let op_clus = (if old_clus \<noteq> 0 then old_clus else new_clus);
          v = (if old_clus \<noteq> 0 then FAT_MASK AND new_clus else M_FAT32_EOC)
      in obind (set_fat_entry op_clus 1 v s) (\<lambda>s _.
         obind (set_fat_entry op_clus 2 v s) (\<lambda>s _. Ret (kfree buff s) ())))"

text \<open>\<open>write_fat_table_p\<close> uses a buffer of its caller.\<close>

definition write_fat_table_p :: "u32 \<Rightarrow> u32 \<Rightarrow> 'a os_scheme \<Rightarrow> ('a os_scheme, unit) outcome" where
  "write_fat_table_p old_clus new_clus s =
    obind (if old_clus \<noteq> 0 then
             obind (set_fat_entry old_clus 1 new_clus s) (\<lambda>s _. set_fat_entry old_clus 2 new_clus s)
           else Ret s ()) (\<lambda>s _.
    obind (set_fat_entry new_clus 1 CLUSER_END s) (\<lambda>s _. set_fat_entry new_clus 2 CLUSER_END s))"

section \<open>Free clusters\<close>

text \<open>The loop of \<open>search_empty_cluster\<close>: \<open>d\<close> is the sector \<open>now_sec\<close> and \<open>j\<close> the offset in the table.\<close>

fun empty_cluster :: "nat \<Rightarrow> u8 list \<Rightarrow> u32 \<Rightarrow> u32 \<Rightarrow> 'a os_scheme \<Rightarrow> ('a os_scheme, u32) outcome" where
  "empty_cluster 0 d now_sec j s = Panic s"
| "empty_cluster (Suc n) d now_sec j s =
    (if \<forall>i<4. byte_at d (i + unat (j mod SECTOR_SIZE (fat s))) = 0 then Ret s j
     else
       let j = j + 4 in
       if j mod SECTOR_SIZE (fat s) = 0
       then obind (disk_read 1 (now_sec + 1) s) (\<lambda>s d. empty_cluster n d (now_sec + 1) j s)
       else empty_cluster n d now_sec j s)"

text \<open>An offset is a 32-bit number, so that \<open>2 ^ 30\<close> rounds look at every entry.\<close>

definition search_empty_cluster :: "'a os_scheme \<Rightarrow> ('a os_scheme, u32) outcome" where
  "search_empty_cluster s =
    obind (kmalloc PAGE_SIZE s) (\<lambda>s buf.
      let now_sec = first_data_sec (fat s) - 2 * fat_sz (fat_bpb (fat s)) in
      obind (disk_read 1 now_sec s) (\<lambda>s d.
      obind (empty_cluster (2 ^ 30) d now_sec 0 s) (\<lambda>s j.
      obind (write_fat_table 0 (j div 4) s) (\<lambda>s _. Ret (kfree buf s) (j div 4)))))"

definition alloc_free_clus :: "'a os_scheme \<Rightarrow> ('a os_scheme, u32) outcome" where
  "alloc_free_clus s =
    (let new = next_free (fat s); s = s\<lparr>fat := (fat s)\<lparr>next_free := new + 1\<rparr>\<rparr>
     in obind (write_fat_table 0 new s) (\<lambda>s _. Ret s new))"

text \<open>\<open>find_entry_clus\<close> looks through the last copy of the table, a buffer at a time.\<close>

fun entry_clus :: "nat \<Rightarrow> u32 \<Rightarrow> u32 \<Rightarrow> 'a os_scheme \<Rightarrow> ('a os_scheme, u32) outcome" where
  "entry_clus 0 now_sec cluser_num s = Panic s"
| "entry_clus (Suc n) now_sec cluser_num s =
    obind (disk_read (READ_MAX_SEC (fat s)) now_sec s) (\<lambda>s d.
      case first_index (\<lambda>i. le32 d (4 * i) = 0) [0..<BUFSIZE (fat s) div 4] of
        Some i \<Rightarrow> Ret s (cluser_num + of_nat i)
      | None \<Rightarrow> entry_clus n (now_sec + of_nat (READ_MAX_SEC (fat s))) (cluser_num + of_nat (BUFSIZE (fat s) div 4)) s)"

definition find_entry_clus :: "'a os_scheme \<Rightarrow> ('a os_scheme, u32) outcome" where
  "find_entry_clus s = entry_clus (2 ^ 32) (first_data_sec (fat s) - fat_sz (fat_bpb (fat s))) 0 s"

section \<open>The position of a descriptor\<close>

text \<open>\<open>n\<close> steps along the chain.\<close>

fun skip_clusters :: "nat \<Rightarrow> u32 \<Rightarrow> 'a os_scheme \<Rightarrow> ('a os_scheme, u32) outcome" where
  "skip_clusters 0 cluster s = Ret s cluster"
| "skip_clusters (Suc n) cluster s = obind (next_cluster cluster s) (\<lambda>s cluster. skip_clusters n cluster s)"

text \<open>\<open>update_fd_from_pos\<close> for the descriptor \<open>i\<close> of table \<open>t\<close>.\<close>

definition update_fd_from_pos :: "nat \<Rightarrow> nat \<Rightarrow> u64 \<Rightarrow> 'a os_scheme \<Rightarrow> ('a os_scheme, unit) outcome" where
  "update_fd_from_pos t i off s =
    (let s = upd_fd t i (\<lambda>f. f\<lparr>pos := off\<rparr>) s;
         sector_offset = ucast (off div ucast (SECTOR_SIZE (fat s))) :: u32
     in obind (skip_clusters (unat (sector_offset div SEC_PER_CLU (fat s))) (first_clus_num (fd_at s t i)) s) (\<lambda>s c.
          Ret (upd_fd t i (\<lambda>f. f\<lparr>cur_clus_num := c,
             cur_sec := first_sec_of_clus (fat s) c + sector_offset mod SEC_PER_CLU (fat s)\<rparr>) s) ()))"

section \<open>Frames\<close>

text \<open>What the operations on the disk leave alone, and what they need: the cache in order and \<open>k\<close> free pages.\<close>

definition fs_frame :: "'a os_scheme \<Rightarrow> 'a os_scheme \<Rightarrow> bool" where
  "fs_frame s t \<longleftrightarrow> pageRecyc t = pageRecyc s \<and> fat t = fat s \<and> pfd_tab t = pfd_tab s"

definition fs_ok :: "nat \<Rightarrow> 'a os_scheme \<Rightarrow> bool" where
  "fs_ok k s \<longleftrightarrow> bio_inv s \<and> mm_inv s \<and> k \<le> length (page_lists s free_source_list)"

lemma fs_frame_refl [simp, intro]: "fs_frame s s"
  by (simp add: fs_frame_def)

lemma fs_frame_trans [trans]: "fs_frame s t \<Longrightarrow> fs_frame t u \<Longrightarrow> fs_frame s u"
  by (simp add: fs_frame_def)

text \<open>The pages and the descriptors under the buffer cache.\<close>

definition io_frame :: "'a os_scheme \<Rightarrow> 'a os_scheme \<Rightarrow> bool" where
  "io_frame s t \<longleftrightarrow> fs_frame s t \<and> page_lists t = page_lists s \<and> source_num t = source_num s"

lemma io_frame_refl [simp, intro]: "io_frame s s"
  by (simp add: io_frame_def)

lemma io_frame_trans: "io_frame s t \<Longrightarrow> io_frame t u \<Longrightarrow> io_frame s u"
  by (simp add: io_frame_def fs_frame_def)

lemma io_wake_all [simp]:
  "pageRecyc (wake_all w s) = pageRecyc s" "fat (wake_all w s) = fat s" "pfd_tab (wake_all w s) = pfd_tab s"
  "page_lists (wake_all w s) = page_lists s" "source_num (wake_all w s) = source_num s"
  by (induction w s rule: wake_all.induct; subst wake_all.simps; simp)+

lemma io_frame_acquire: "acquiresleep l s = Ret t x \<Longrightarrow> io_frame s t"
  by (auto simp: acquiresleep_def Let_def do_block_def obind_Ret_iff io_frame_def fs_frame_def split: if_splits)

lemma io_frame_brelse: "io_frame s (brelse b s)"
  by (simp add: brelse_def bput_def releasesleep_def wakeup_def upd_buf_def io_frame_def fs_frame_def Let_def)

lemma io_frame_steps [simp]:
  "io_frame s (u\<lparr>bcache := h\<rparr>) = io_frame s u" "io_frame s (u\<lparr>lru := l\<rparr>) = io_frame s u"
  "io_frame s (u\<lparr>nwait := n\<rparr>) = io_frame s u" "io_frame s (upd_buf b f u) = io_frame s u"
  "io_frame s (disk_write_bio b u) = io_frame s u" "io_frame s (disk_read_bio b u) = io_frame s u"
  by (simp_all add: io_frame_def fs_frame_def upd_buf_def disk_write_bio_def disk_read_bio_def)

lemma io_frame_acquire_from:
  assumes "obind (acquiresleep l u) k = Ret t b" and "io_frame s u" and "\<And>v. io_frame s v \<Longrightarrow> k v () = Ret t b \<Longrightarrow> io_frame s t"
  shows "io_frame s t"
  using assms io_frame_trans [OF assms(2) io_frame_acquire] by (auto simp: obind_Ret_iff)

lemma io_frame_bget:
  assumes "bget dv sec s = Ret t b"
  shows "io_frame s t"
proof (cases "find (\<lambda>b. buf_dev (bufs s b) = dv \<and> sectorno (bufs s b) = sec) (bcache s (hash_idx sec))")
  case (Some c)
  show ?thesis
    using assms unfolding bget_def Let_def Some option.case by (rule io_frame_acquire_from) simp_all
next
  case None
  have "lru s \<noteq> []"
    using assms unfolding bget_def Let_def None option.case by (auto simp: obind_Ret_iff)
  then show ?thesis
    using assms unfolding bget_def Let_def None option.case if_P [OF \<open>lru s \<noteq> []\<close>]
    by (elim io_frame_acquire_from) (simp_all, metis io_frame_steps(4))
qed

lemma io_frame_bread:
  assumes "bread dv sec s = Ret t b"
  shows "io_frame s t"
proof -
  obtain u where u: "bget dv sec s = Ret u b" "t = u \<or> t = upd_buf b (\<lambda>f. f\<lparr>valid := 1\<rparr>) (disk_read_bio b u)"
    using assms unfolding bread_def obind_Ret_iff by (metis outcome.inject(1))
  with io_frame_bget [OF u(1)] show ?thesis by auto
qed

lemma io_frame_disk_read: "disk_read n sec s = Ret t d \<Longrightarrow> io_frame s t"
proof (induction n arbitrary: sec s d)
  case (Suc n)
  then obtain u b d' where u: "bread 0 sec s = Ret u b" "disk_read n (sec + 1) (brelse b u) = Ret t d'"
    by (auto simp: obind_Ret_iff Let_def)
  show ?case
    using io_frame_trans [OF io_frame_trans [OF io_frame_bread [OF u(1)] io_frame_brelse] Suc.IH [OF u(2)]] .
qed simp

lemma io_frame_disk_write: "disk_write n sec d s = Ret t x \<Longrightarrow> io_frame s t"
proof (induction n arbitrary: sec s d)
  case (Suc n)
  then obtain u b f where u: "bget 0 sec s = Ret u b" "disk_write n (sec + 1) (drop BSIZE d) (brelse b (upd_buf b f u)) = Ret t x"
    by (auto simp: obind_Ret_iff Let_def)
  show ?case
    using io_frame_trans [OF io_frame_trans [OF io_frame_trans [OF io_frame_bget [OF u(1)] io_frame_steps(4) [THEN iffD2, OF io_frame_refl]] io_frame_brelse] Suc.IH [OF u(2)]] .
qed simp

lemma io_frame_mm_inv: "io_frame s t \<Longrightarrow> mm_inv t = mm_inv s"
  by (simp add: io_frame_def fs_frame_def mm_inv_def)

lemma disk_read_ok:
  assumes "fs_ok k s"
  obtains t where "disk_read n sec s = Ret t (get_sectors n sec (disk_view s))" "fs_ok k t" "fs_frame s t" "disk_view t = disk_view s"
proof -
  obtain t where t: "disk_read n sec s = Ret t (get_sectors n sec (disk_view s))" "bio_inv t" "disk_view t = disk_view s"
    using disk_read_view [of s n sec] assms by (auto simp: fs_ok_def)
  note fr = io_frame_disk_read [OF t(1)]
  show thesis
    by (rule that [OF t(1) _ _ t(3)])
      (use fr assms t(2) io_frame_mm_inv [OF fr] in \<open>auto simp: fs_ok_def io_frame_def\<close>)
qed

lemma disk_write_ok:
  assumes "fs_ok k s"
  obtains t where "disk_write n sec d s = Ret t ()" "fs_ok k t" "fs_frame s t" "disk_view t = put_sectors n sec d (disk_view s)"
proof -
  obtain t where t: "disk_write n sec d s = Ret t ()" "bio_inv t" "disk_view t = put_sectors n sec d (disk_view s)"
    using disk_write_view [of s n sec d] assms by (auto simp: fs_ok_def)
  note fr = io_frame_disk_write [OF t(1)]
  show thesis
    by (rule that [OF t(1) _ _ t(3)])
      (use fr assms t(2) io_frame_mm_inv [OF fr] in \<open>auto simp: fs_ok_def io_frame_def\<close>)
qed

section \<open>Pages for buffers\<close>

lemma bio_cong:
  fixes s t :: "'a os_scheme"
  assumes "bufs t = bufs s" "bcache t = bcache s" "lru t = lru s" "sd_card t = sd_card s" "actual_buf_num t = actual_buf_num s"
    "sleeplocks t = sleeplocks s"
  shows "bio_inv t = bio_inv s" and "disk_view t = disk_view s"
proof -
  have "same_cache s t"
    using assms by (simp add: same_cache_def)
  moreover have "lru_inv {} t = lru_inv {} s"
    by (simp add: lru_inv_def assms)
  ultimately show "bio_inv t = bio_inv s" "disk_view t = disk_view s"
    using same_cache_inv [of s t] assms(5) by (simp_all add: bio_inv_def)
qed

lemma bio_upd_page [simp]:
  "bufs (upd_page i f s) = bufs s" "bcache (upd_page i f s) = bcache s" "lru (upd_page i f s) = lru s"
  "sd_card (upd_page i f s) = sd_card s" "actual_buf_num (upd_page i f s) = actual_buf_num s"
  "sleeplocks (upd_page i f s) = sleeplocks s" "fat (upd_page i f s) = fat s" "pfd_tab (upd_page i f s) = pfd_tab s"
  by (simp_all add: upd_page_def)

lemma kmalloc_ok:
  assumes "fs_ok (Suc k) s"
  obtains t i where "kmalloc PAGE_SIZE s = Ret t (page_addr i)" "i < NUM_REC" "fs_ok k t" "disk_view t = disk_view s"
    "share_num (pageRecyc s i) = 0" "pageRecyc t = (pageRecyc s)(i := (pageRecyc s i)\<lparr>share_num := 1\<rparr>)"
    "fat t = fat s" "pfd_tab t = pfd_tab s" "sd_card t = sd_card s"
proof -
  have inv: "bio_inv s" "mm_inv s" "Suc k \<le> length (page_lists s free_source_list)"
    using assms by (simp_all add: fs_ok_def)
  then have ne: "page_lists s free_source_list \<noteq> []"
    by auto
  then obtain t p where t: "allocPage s = Ret t p"
    using allocPage_returns by blast
  obtain i where i: "i < NUM_REC" "p = page_addr i + PAGE_SIZE" "share_num (pageRecyc s i) = 0"
    "pageRecyc t = (pageRecyc s)(i := (pageRecyc s i)\<lparr>share_num := 1\<rparr>)"
    "page_lists t free_source_list = tl (page_lists s free_source_list)" "mm_inv t"
    using allocPage_effect [OF inv(2) t] by metis
  have f: "bufs t = bufs s" "bcache t = bcache s" "lru t = lru s" "sd_card t = sd_card s" "actual_buf_num t = actual_buf_num s"
    "sleeplocks t = sleeplocks s" "fat t = fat s" "pfd_tab t = pfd_tab s"
    using t ne by (auto simp: allocPage_def q_empty_def Let_def)
  have "fs_ok k t"
    using inv i(5,6) bio_cong(1) [OF f(1-6)] by (simp add: fs_ok_def)
  moreover have "kmalloc PAGE_SIZE s = Ret t (page_addr i)"
    using t i(2) by (simp add: kmalloc_def)
  ultimately show thesis
    using that i(1,3,4) bio_cong(2) [OF f(1-6)] f(4,7,8) by blast
qed

lemma page_addr_in_heap:
  assumes "i < NUM_REC"
  shows "\<not> FREEHEAP < page_addr i" and "\<not> page_addr i < FREEMEM"
proof -
  have "unat (page_addr i) = unat FREEMEM + 4096 * i"
    using assms by (simp add: page_addr_def unat_word_ariths unat_of_nat_u64 take_bit_nat_eq_self)
  then show "\<not> FREEHEAP < page_addr i" "\<not> page_addr i < FREEMEM"
    using assms by (simp_all add: word_less_nat_alt)
qed

lemma bio_wake_page_waiter [simp]:
  "bufs (wake_page_waiter s) = bufs s" "bcache (wake_page_waiter s) = bcache s" "lru (wake_page_waiter s) = lru s"
  "sd_card (wake_page_waiter s) = sd_card s" "actual_buf_num (wake_page_waiter s) = actual_buf_num s"
  "sleeplocks (wake_page_waiter s) = sleeplocks s" "fat (wake_page_waiter s) = fat s" "pfd_tab (wake_page_waiter s) = pfd_tab s"
  by (simp_all add: wake_page_waiter_def do_unblock_def klist_del_def klist_add_def upd_pcb_def)

lemma kfree_ok:
  assumes "fs_ok k s" and "i < NUM_REC" and "share_num (pageRecyc s i) = 1"
  shows "fs_ok (Suc k) (kfree (page_addr i) s)" and "disk_view (kfree (page_addr i) s) = disk_view s"
    and "pageRecyc (kfree (page_addr i) s) = (pageRecyc s)(i := (pageRecyc s i)\<lparr>share_num := 0\<rparr>)"
    and "fat (kfree (page_addr i) s) = fat s" and "pfd_tab (kfree (page_addr i) s) = pfd_tab s" and "sd_card (kfree (page_addr i) s) = sd_card s"
proof -
  let ?t = "freePage (page_addr i) s"
  have e: "kfree (page_addr i) s = ?t"
    using page_addr_in_heap [OF assms(2)] by (simp add: kfree_def)
  have f: "bufs ?t = bufs s" "bcache ?t = bcache s" "lru ?t = lru s" "sd_card ?t = sd_card s" "actual_buf_num ?t = actual_buf_num s"
    "sleeplocks ?t = sleeplocks s" "fat ?t = fat s" "pfd_tab ?t = pfd_tab s"
    by (simp_all add: freePage_def Let_def)
  have inv: "bio_inv s" "mm_inv s" "k \<le> length (page_lists s free_source_list)"
    using assms(1) by (simp_all add: fs_ok_def)
  have nz: "share_num (pageRecyc s i) \<noteq> 0"
    using assms(3) by simp
  note m = mm_inv_freePage [OF inv(2) assms(2) nz]
  have nf: "i \<notin> set (page_lists s free_source_list)"
    using mm_invD(4) [OF inv(2) assms(2)] nz by blast
  have "page_lists ?t free_source_list = i # page_lists s free_source_list"
    using nf assms(3) by (simp add: freePage_def Let_def GET_MEM_NODE_page_addr [OF assms(2)] q_add_def q_del_def remove1_idem)
  then show "fs_ok (Suc k) (kfree (page_addr i) s)"
    unfolding e using m(1) inv bio_cong(1) [OF f(1-6)] by (simp add: fs_ok_def)
  show "disk_view (kfree (page_addr i) s) = disk_view s" "fat (kfree (page_addr i) s) = fat s" "pfd_tab (kfree (page_addr i) s) = pfd_tab s"
    "sd_card (kfree (page_addr i) s) = sd_card s"
    unfolding e using bio_cong(2) [OF f(1-6)] f(4,7,8) by auto
  show "pageRecyc (kfree (page_addr i) s) = (pageRecyc s)(i := (pageRecyc s i)\<lparr>share_num := 0\<rparr>)"
    unfolding e m(2) using assms(3) by simp
qed

text \<open>An operation that works with a page of its own, which it takes and gives back.\<close>

lemma with_page:
  assumes "fs_ok (Suc k) s"
    and body: "\<And>t i. fs_ok k t \<Longrightarrow> disk_view t = disk_view s \<Longrightarrow> fat t = fat s \<Longrightarrow> pfd_tab t = pfd_tab s \<Longrightarrow>
      \<exists>u. f t (page_addr i) = Ret (kfree (page_addr i) u) r \<and> fs_ok k u \<and> fs_frame t u \<and> disk_view u = v"
  shows "\<exists>u. obind (kmalloc PAGE_SIZE s) f = Ret u r \<and> fs_ok (Suc k) u \<and> fs_frame s u \<and> disk_view u = v"
proof -
  obtain t i where t: "kmalloc PAGE_SIZE s = Ret t (page_addr i)" "i < NUM_REC" "fs_ok k t" "disk_view t = disk_view s"
    "share_num (pageRecyc s i) = 0" "pageRecyc t = (pageRecyc s)(i := (pageRecyc s i)\<lparr>share_num := 1\<rparr>)"
    "fat t = fat s" "pfd_tab t = pfd_tab s" "sd_card t = sd_card s"
    using kmalloc_ok [OF assms(1)] .
  obtain u where u: "f t (page_addr i) = Ret (kfree (page_addr i) u) r" "fs_ok k u" "fs_frame t u" "disk_view u = v"
    using body [OF t(3,4,7,8)] by blast
  have one: "share_num (pageRecyc u i) = 1"
    using u(3) t(6) by (simp add: fs_frame_def)
  note k = kfree_ok [OF u(2) t(2) one]
  have "(pageRecyc u)(i := (pageRecyc u i)\<lparr>share_num := 0\<rparr>) = pageRecyc s"
    using u(3) t(5,6) by (auto simp: fs_frame_def fun_eq_iff)
  then have "fs_frame s (kfree (page_addr i) u)"
    using k(3-5) u(3) t(7,8) by (simp add: fs_frame_def)
  then show ?thesis
    using t(1) u(1,4) k(1,2) by simp
qed

section \<open>The table on the disk\<close>

text \<open>The entry of a cluster in the first copy of the table.\<close>

definition fat_entry :: "fat_t \<Rightarrow> (u32 \<Rightarrow> u8 list) \<Rightarrow> u32 \<Rightarrow> u32" where
  "fat_entry f v c = le32 (v (fat_sec_of_clus f c 1)) (unat (fat_offset_of_clus f c))"

text \<open>The entry of the cluster in the second copy of the table, which the code writes and never reads.\<close>

definition fat_entry2 :: "fat_t \<Rightarrow> (u32 \<Rightarrow> u8 list) \<Rightarrow> u32 \<Rightarrow> u32" where
  "fat_entry2 f v c = le32 (v (fat_sec_of_clus f c 2)) (unat (fat_offset_of_clus f c))"

lemma get_one [simp]: "get_sectors (Suc 0) sec v = v sec"
  by simp

lemma put_one [simp]: "put_sectors (Suc 0) sec d v = v(sec := take BSIZE d)"
  by simp

lemma next_cluster_ok:
  assumes "fs_ok (Suc k) s"
  shows "\<exists>t. next_cluster c s = Ret t (fat_entry (fat s) (disk_view s) c) \<and> fs_ok (Suc k) t \<and> fs_frame s t \<and> disk_view t = disk_view s"
  unfolding next_cluster_def
proof (rule with_page [OF assms], goal_cases)
  case (1 t i)
  obtain u where "disk_read 1 (fat_sec_of_clus (fat t) c 1) t = Ret u (get_sectors 1 (fat_sec_of_clus (fat t) c 1) (disk_view t))"
    "fs_ok k u" "fs_frame t u" "disk_view u = disk_view t"
    using disk_read_ok [OF 1(1)] by blast
  with 1 show ?case
    by (auto simp: fat_entry_def fs_frame_def)
qed

definition put_entry :: "fat_t \<Rightarrow> u32 \<Rightarrow> u8 \<Rightarrow> u32 \<Rightarrow> (u32 \<Rightarrow> u8 list) \<Rightarrow> u32 \<Rightarrow> u8 list" where
  "put_entry f c k e v = v(fat_sec_of_clus f c k :=
     take BSIZE (put_bytes (unat (fat_offset_of_clus f c)) (bytes32 e) (v (fat_sec_of_clus f c k))))"

lemma set_fat_entry_ok:
  assumes "fs_ok k s"
  shows "\<exists>t. set_fat_entry c j e s = Ret t () \<and> fs_ok k t \<and> fs_frame s t \<and> disk_view t = put_entry (fat s) c j e (disk_view s)"
proof -
  let ?sec = "fat_sec_of_clus (fat s) c j"
  obtain t where t: "disk_read 1 ?sec s = Ret t (disk_view s ?sec)" "fs_ok k t" "fs_frame s t" "disk_view t = disk_view s"
    using disk_read_ok [OF assms, of 1 ?sec] by auto
  let ?d = "put_bytes (unat (fat_offset_of_clus (fat s) c)) (bytes32 e) (disk_view s ?sec)"
  obtain u where u: "disk_write 1 ?sec ?d t = Ret u ()" "fs_ok k u" "fs_frame t u" "disk_view u = put_sectors 1 ?sec ?d (disk_view t)"
    using disk_write_ok [OF t(2)] by blast
  have "fat t = fat s" using t(3) by (simp add: fs_frame_def)
  with t u fs_frame_trans [OF t(3) u(3)] show ?thesis
    by (simp add: set_fat_entry_def put_entry_def)
qed

definition link_view :: "fat_t \<Rightarrow> u32 \<Rightarrow> u32 \<Rightarrow> (u32 \<Rightarrow> u8 list) \<Rightarrow> u32 \<Rightarrow> u8 list" where
  "link_view f old_clus new_clus v =
    (let c = (if old_clus \<noteq> 0 then old_clus else new_clus); e = (if old_clus \<noteq> 0 then FAT_MASK AND new_clus else M_FAT32_EOC)
     in put_entry f c 2 e (put_entry f c 1 e v))"

lemma write_fat_table_ok:
  assumes "fs_ok (Suc k) s"
  shows "\<exists>t. write_fat_table old_clus new_clus s = Ret t () \<and> fs_ok (Suc k) t \<and> fs_frame s t
    \<and> disk_view t = link_view (fat s) old_clus new_clus (disk_view s)"
  unfolding write_fat_table_def
proof (rule with_page [OF assms], goal_cases)
  case (1 t i)
  let ?c = "if old_clus \<noteq> 0 then old_clus else new_clus" and ?e = "if old_clus \<noteq> 0 then FAT_MASK AND new_clus else M_FAT32_EOC"
  obtain u where u: "set_fat_entry ?c 1 ?e t = Ret u ()" "fs_ok k u" "fs_frame t u" "disk_view u = put_entry (fat t) ?c 1 ?e (disk_view t)"
    using set_fat_entry_ok [OF 1(1)] by blast
  obtain w where w: "set_fat_entry ?c 2 ?e u = Ret w ()" "fs_ok k w" "fs_frame u w" "disk_view w = put_entry (fat u) ?c 2 ?e (disk_view u)"
    using set_fat_entry_ok [OF u(2)] by blast
  have "fat u = fat t" using u(3) by (simp add: fs_frame_def)
  then have "disk_view w = link_view (fat s) old_clus new_clus (disk_view s)"
    using w(4) u(4) 1(2,3) by (simp only: link_view_def Let_def)
  with u(1) w(1,2) fs_frame_trans [OF u(3) w(3)] show ?case
    by (auto simp only: Let_def obind.simps)
qed

section \<open>Entries\<close>

lemma le32_bytes32 [simp]: "le32 (bytes32 e) 0 = e"
proof (rule bit_word_eqI)
  fix n
  assume "n < LENGTH(32)"
  then consider "n < 8" | "8 \<le> n" "n < 16" | "16 \<le> n" "n < 24" | "24 \<le> n" "n < 32"
    by fastforce
  then show "bit (le32 (bytes32 e) 0) n = bit e n"
    by cases (auto simp: le32_def bytes32_def byte_at_def bit_simps)
qed

lemma length_bytes32 [simp]: "length (bytes32 e) = 4"
  by (simp add: bytes32_def)

lemma length_put_bytes: "i + length b \<le> length d \<Longrightarrow> length (put_bytes i b d) = length d"
  by (simp add: put_bytes_def)

lemma byte_at_put:
  assumes "i + length b \<le> length d"
  shows "byte_at (put_bytes i b d) j = (if i \<le> j \<and> j < i + length b then byte_at b (j - i) else byte_at d j)"
  using assms by (auto simp: byte_at_def put_bytes_def nth_append min_def)

lemma le32_put_same:
  assumes "i + 4 \<le> length d"
  shows "le32 (put_bytes i (bytes32 e) d) i = e"
proof -
  have "le32 (put_bytes i (bytes32 e) d) i = le32 (bytes32 e) 0"
    unfolding le32_def using assms by (simp add: byte_at_put numeral_2_eq_2)
  then show ?thesis by simp
qed

lemma le32_put_other: "i + 4 \<le> length d \<Longrightarrow> j + 4 \<le> i \<or> i + 4 \<le> j \<Longrightarrow> le32 (put_bytes i (bytes32 e) d) j = le32 d j"
  unfolding le32_def by (auto simp: byte_at_put)

lemma bit_beyond_8 [simp]: "\<not> bit (w :: u8) (8 + n)" "\<not> bit (w :: u8) (16 + n)" "\<not> bit (w :: u8) (24 + n)"
  by (auto dest: bit_imp_le_length)

lemma le32_zero: "le32 d i = 0 \<longleftrightarrow> (\<forall>k<4. byte_at d (k + i) = 0)"
proof
  assume z: "le32 d i = 0"
  have b: "bit (byte_at d (i + k)) n = bit (le32 d i) (8 * k + n)" if k: "k < 4" and n: "n < 8" for k n
  proof -
    consider "k = 0" | "k = 1" | "k = 2" | "k = 3" using k by linarith
    then show ?thesis using n by cases (auto simp: le32_def bit_simps)
  qed
  have "byte_at d (i + k) = 0" if "k < 4" for k
    by (rule bit_word_eqI) (use b [OF that] z in simp)
  then show "\<forall>k<4. byte_at d (k + i) = 0"
    by (simp add: add.commute)
next
  assume a: "\<forall>k<4. byte_at d (k + i) = 0"
  have "byte_at d i = 0" "byte_at d (i + 1) = 0" "byte_at d (i + 2) = 0" "byte_at d (i + 3) = 0"
    using a [rule_format, of 0] a [rule_format, of 1] a [rule_format, of 2] a [rule_format, of 3] by (simp_all add: add.commute)
  then show "le32 d i = 0"
    by (simp add: le32_def)
qed

text \<open>The geometry \<open>fat32_init\<close> computes, for two copies of the table and sectors of 512 bytes, and the clusters with an
  entry.\<close>

definition fat_geom :: "fat_t \<Rightarrow> bool" where
  "fat_geom f \<longleftrightarrow> byts_per_sec (fat_bpb f) = 512
    \<and> first_data_sec f = ucast (rsvd_sec_cnt (fat_bpb f)) + hidd_sec (fat_bpb f) + 2 * fat_sz (fat_bpb f)
    \<and> unat (rsvd_sec_cnt (fat_bpb f)) + unat (hidd_sec (fat_bpb f)) + 2 * unat (fat_sz (fat_bpb f)) < 2 ^ 32"

definition fat_base :: "fat_t \<Rightarrow> nat" where
  "fat_base f = unat (rsvd_sec_cnt (fat_bpb f)) + unat (hidd_sec (fat_bpb f))"

definition in_fat :: "fat_t \<Rightarrow> u32 \<Rightarrow> bool" where
  "in_fat f c \<longleftrightarrow> unat c < 2 ^ 28 \<and> unat c div 128 < unat (fat_sz (fat_bpb f))"

definition sectors512 :: "(u32 \<Rightarrow> u8 list) \<Rightarrow> bool" where
  "sectors512 v \<longleftrightarrow> (\<forall>sec. length (v sec) = 512)"

lemma fat_cluster_words:
  assumes "fat_geom f" and "in_fat f c"
  shows "fat_sec_of_clus f c 1 = of_nat (fat_base f + unat c div 128)"
    and "fat_sec_of_clus f c 2 = of_nat (fat_base f + unat (fat_sz (fat_bpb f)) + unat c div 128)"
    and "unat (fat_offset_of_clus f c) = 4 * (unat c mod 128)"
proof -
  have c: "unat c < 2 ^ 28" using assms(2) by (simp add: in_fat_def)
  have p: "push_bit 2 c = of_nat (4 * unat c)"
    by (simp add: push_bit_eq_mult)
  have d: "push_bit 2 c div 512 = (of_nat (unat c div 128) :: u32)"
    using c unfolding p by (simp add: word_arith_nat_div unat_word_ariths unat_of_nat_i32 take_bit_nat_eq_self)
  show "fat_sec_of_clus f c 1 = of_nat (fat_base f + unat c div 128)"
    "fat_sec_of_clus f c 2 = of_nat (fat_base f + unat (fat_sz (fat_bpb f)) + unat c div 128)"
    using assms(1) d by (simp_all add: fat_sec_of_clus_def fat_geom_def fat_base_def)
  have "unat (push_bit 2 c mod 512) = 4 * unat c mod 512"
    using c unfolding p by (simp add: unat_mod_distrib unat_word_ariths unat_of_nat_i32 take_bit_nat_eq_self)
  then show "unat (fat_offset_of_clus f c) = 4 * (unat c mod 128)"
    using assms(1) by (simp add: fat_offset_of_clus_def fat_geom_def mult_mod_right)
qed

lemma fat_sec_distinct:
  assumes "fat_geom f" and "in_fat f c" and "in_fat f d"
  shows "fat_sec_of_clus f c 1 \<noteq> fat_sec_of_clus f d 2"
    and "fat_sec_of_clus f c 1 = fat_sec_of_clus f d 1 \<longleftrightarrow> unat c div 128 = unat d div 128"
    and "unat (fat_sec_of_clus f c 1) < unat (first_data_sec f)" and "unat (fat_sec_of_clus f c 2) < unat (first_data_sec f)"
    and "fat_sec_of_clus f c 2 = fat_sec_of_clus f d 2 \<longleftrightarrow> unat c div 128 = unat d div 128"
proof -
  let ?z = "unat (fat_sz (fat_bpb f))"
  have b: "unat x div 128 < ?z" if "in_fat f x" for x
    using that by (simp add: in_fat_def)
  have t: "fat_base f + 2 * ?z < 2 ^ 32"
    using assms(1) by (simp add: fat_geom_def fat_base_def)
  have u: "unat (of_nat n :: u32) = n" if "n < fat_base f + 2 * ?z" for n
    using that t by (intro unat_of_nat_i32) linarith
  have "first_data_sec f = of_nat (fat_base f + 2 * ?z)"
    using assms(1) by (simp add: fat_geom_def fat_base_def)
  then have fd: "unat (first_data_sec f) = fat_base f + 2 * ?z"
    using t unat_of_nat_i32 by metis
  note w = fat_cluster_words [OF assms(1)]
  have u1: "unat (fat_sec_of_clus f x 1) = fat_base f + unat x div 128" if "in_fat f x" for x
    unfolding w(1) [OF that] using b [OF that] by (intro u) linarith
  have u2: "unat (fat_sec_of_clus f x 2) = fat_base f + ?z + unat x div 128" if "in_fat f x" for x
    unfolding w(2) [OF that] using b [OF that] by (intro u) linarith
  show "fat_sec_of_clus f c 1 \<noteq> fat_sec_of_clus f d 2"
  proof
    assume "fat_sec_of_clus f c 1 = fat_sec_of_clus f d 2"
    then have "fat_base f + unat c div 128 = fat_base f + ?z + unat d div 128"
      unfolding u1 [OF assms(2), symmetric] u2 [OF assms(3), symmetric] by simp
    with b [OF assms(2)] show False by linarith
  qed
  show "fat_sec_of_clus f c 1 = fat_sec_of_clus f d 1 \<longleftrightarrow> unat c div 128 = unat d div 128"
    unfolding word_unat_eq_iff u1 [OF assms(2)] u1 [OF assms(3)] by simp
  show "unat (fat_sec_of_clus f c 1) < unat (first_data_sec f)" "unat (fat_sec_of_clus f c 2) < unat (first_data_sec f)"
    using u1 [OF assms(2)] u2 [OF assms(2)] b [OF assms(2)] fd by linarith+
  show "fat_sec_of_clus f c 2 = fat_sec_of_clus f d 2 \<longleftrightarrow> unat c div 128 = unat d div 128"
    unfolding word_unat_eq_iff u2 [OF assms(2)] u2 [OF assms(3)] by simp
qed

lemma put_entry_sectors:
  assumes "fat_geom f" and "in_fat f c" and "sectors512 v"
  shows "sectors512 (put_entry f c k e v)"
proof -
  have "unat (fat_offset_of_clus f c) + 4 \<le> 512"
    using fat_cluster_words(3) [OF assms(1,2)] by simp
  with assms(3) show ?thesis
    by (simp add: sectors512_def put_entry_def length_put_bytes)
qed

lemma le32_put_entry:
  assumes "unat d div 128 = unat (c :: u32) div 128" and "length s = 512"
  shows "le32 (take 512 (put_bytes (4 * (unat c mod 128)) (bytes32 e) s)) (4 * (unat d mod 128)) =
    (if d = c then e else le32 s (4 * (unat d mod 128)))"
proof -
  let ?oc = "4 * (unat c mod 128)" and ?od = "4 * (unat d mod 128)"
  have l: "?oc + 4 \<le> length s" "length (put_bytes ?oc (bytes32 e) s) \<le> 512"
    using assms(2) by (simp_all add: length_put_bytes)
  show ?thesis
  proof (cases "d = c")
    case False
    then have "unat d mod 128 \<noteq> unat c mod 128"
      using assms(1) by (metis div_mult_mod_eq word_unat_eq_iff)
    then have "?od + 4 \<le> ?oc \<or> ?oc + 4 \<le> ?od"
      by linarith
    then show ?thesis
      using False le32_put_other [OF l(1)] l(2) by simp
  qed (use le32_put_same [OF l(1)] l(2) in simp)
qed

lemma fat_entry_put:
  assumes "fat_geom f" and "in_fat f c" and "in_fat f d" and "sectors512 v"
  shows "fat_entry f (put_entry f c 1 e v) d = (if d = c then e else fat_entry f v d)"
    and "fat_entry f (put_entry f c 2 e v) d = fat_entry f v d"
    and "fat_entry2 f (put_entry f c 1 e v) d = fat_entry2 f v d"
    and "fat_entry2 f (put_entry f c 2 e v) d = (if d = c then e else fat_entry2 f v d)"
proof -
  note oc = fat_cluster_words(3) [OF assms(1,2)] and od = fat_cluster_words(3) [OF assms(1,3)]
  have l: "length (v sec) = 512" for sec
    using assms(4) by (simp add: sectors512_def)
  have t: "length (put_bytes (4 * (unat c mod 128)) (bytes32 e) (v sec)) \<le> 512" for sec
    by (simp add: length_put_bytes l)
  note p = le32_put_entry [OF _ l, of d c e, simplified take_all [OF t]]
  show "fat_entry f (put_entry f c 2 e v) d = fat_entry f v d" "fat_entry2 f (put_entry f c 1 e v) d = fat_entry2 f v d"
    using fat_sec_distinct(1) [OF assms(1,3,2)] fat_sec_distinct(1) [OF assms(1,2,3)]
    by (simp_all add: fat_entry_def fat_entry2_def put_entry_def)
  show "fat_entry f (put_entry f c 1 e v) d = (if d = c then e else fat_entry f v d)"
    using fat_sec_distinct(2) [OF assms(1,3,2)] t p by (auto simp: fat_entry_def put_entry_def oc od)
  show "fat_entry2 f (put_entry f c 2 e v) d = (if d = c then e else fat_entry2 f v d)"
    using fat_sec_distinct(5) [OF assms(1,3,2)] t p by (auto simp: fat_entry2_def put_entry_def oc od)
qed

lemma link_view_entry:
  assumes "fat_geom f" and "in_fat f old_clus \<or> old_clus = 0" and "in_fat f new_clus" and "in_fat f c" and "sectors512 v"
  shows "fat_entry f (link_view f old_clus new_clus v) c =
      (if old_clus = 0 then if c = new_clus then M_FAT32_EOC else fat_entry f v c
       else if c = old_clus then FAT_MASK AND new_clus else fat_entry f v c)"
    and "sectors512 (link_view f old_clus new_clus v)"
    and "unat sec \<ge> unat (first_data_sec f) \<Longrightarrow> link_view f old_clus new_clus v sec = v sec"
    and "fat_entry2 f (link_view f old_clus new_clus v) c =
      (if old_clus = 0 then if c = new_clus then M_FAT32_EOC else fat_entry2 f v c
       else if c = old_clus then FAT_MASK AND new_clus else fat_entry2 f v c)"
proof -
  let ?c = "if old_clus \<noteq> 0 then old_clus else new_clus"
  have oc: "in_fat f ?c" using assms(2,3) by auto
  note s1 = put_entry_sectors [OF assms(1) oc assms(5)]
  show "sectors512 (link_view f old_clus new_clus v)"
    unfolding link_view_def Let_def by (intro put_entry_sectors [OF assms(1) oc] assms(5))
  show "fat_entry f (link_view f old_clus new_clus v) c =
      (if old_clus = 0 then if c = new_clus then M_FAT32_EOC else fat_entry f v c
       else if c = old_clus then FAT_MASK AND new_clus else fat_entry f v c)"
    unfolding link_view_def Let_def fat_entry_put(2) [OF assms(1) oc assms(4) s1] fat_entry_put(1) [OF assms(1) oc assms(4,5)]
    by simp
  show "fat_entry2 f (link_view f old_clus new_clus v) c =
      (if old_clus = 0 then if c = new_clus then M_FAT32_EOC else fat_entry2 f v c
       else if c = old_clus then FAT_MASK AND new_clus else fat_entry2 f v c)"
    unfolding link_view_def Let_def fat_entry_put(4) [OF assms(1) oc assms(4) s1] fat_entry_put(3) [OF assms(1) oc assms(4,5)]
    by simp
  assume "unat sec \<ge> unat (first_data_sec f)"
  then have "sec \<noteq> fat_sec_of_clus f ?c 1" "sec \<noteq> fat_sec_of_clus f ?c 2"
    using fat_sec_distinct(3,4) [OF assms(1) oc oc] by auto
  then show "link_view f old_clus new_clus v sec = v sec"
    by (simp only: link_view_def Let_def put_entry_def fun_upd_apply if_False)
qed

section \<open>The search for a free cluster\<close>

text \<open>\<open>m\<close> is the first cluster whose entry is 0.\<close>

definition first_free :: "fat_t \<Rightarrow> (u32 \<Rightarrow> u8 list) \<Rightarrow> nat \<Rightarrow> bool" where
  "first_free f v m \<longleftrightarrow> m < 2 ^ 28 \<and> m div 128 < unat (fat_sz (fat_bpb f)) \<and> fat_entry f v (of_nat m) = 0
    \<and> (\<forall>a<m. fat_entry f v (of_nat a) \<noteq> 0)"

lemma first_free_in_fat: "first_free f v m \<Longrightarrow> a \<le> m \<Longrightarrow> in_fat f (of_nat a) \<and> unat (of_nat a :: u32) = a"
proof -
  assume a: "first_free f v m" "a \<le> m"
  then have u: "unat (of_nat a :: u32) = a"
    by (intro unat_of_nat_i32) (simp add: first_free_def)
  have "a div 128 \<le> m div 128"
    using a(2) by (rule div_le_mono)
  with a u show ?thesis
    by (simp add: first_free_def in_fat_def)
qed

lemma table_entry:
  assumes "fat_geom f" and "first_free f v m" and "a \<le> m"
  shows "fat_entry f v (of_nat a) = le32 (v (of_nat (fat_base f + a div 128))) (4 * (a mod 128))"
  using fat_cluster_words [OF assms(1), of "of_nat a"] first_free_in_fat [OF assms(2,3)] by (simp add: fat_entry_def)

lemma offset_words:
  assumes "a < 2 ^ 28"
  shows "unat ((of_nat (4 * a) :: u32) mod 512) = 4 * (a mod 128)"
proof -
  have "unat (of_nat (4 * a) :: u32) = 4 * a"
    using assms by (intro unat_of_nat_i32) simp
  then show ?thesis
    by (simp add: unat_mod_distrib mult_mod_right)
qed

lemma empty_cluster_ok:
  assumes "fat_geom f" and "first_free f v m"
  shows "fs_ok k s \<Longrightarrow> fat s = f \<Longrightarrow> disk_view s = v \<Longrightarrow> a \<le> m \<Longrightarrow> m - a < n \<Longrightarrow>
    \<exists>t. empty_cluster n (v (of_nat (fat_base f + a div 128))) (of_nat (fat_base f + a div 128)) (of_nat (4 * a)) s = Ret t (of_nat (4 * m))
      \<and> fs_ok k t \<and> fs_frame s t \<and> disk_view t = v"
proof (induction n arbitrary: a s)
  case (Suc n)
  let ?d = "v (of_nat (fat_base f + a div 128))"
  have sz: "SECTOR_SIZE (fat s) = 512"
    using assms(1) Suc.prems(2) by (simp add: fat_geom_def)
  have small: "m < 2 ^ 28"
    using assms(2) by (simp add: first_free_def)
  then have off: "unat ((of_nat (4 * a) :: u32) mod 512) = 4 * (a mod 128)"
    using Suc.prems(4) by (intro offset_words) simp
  have test: "(\<forall>i<4. byte_at ?d (i + unat ((of_nat (4 * a) :: u32) mod SECTOR_SIZE (fat s))) = 0) \<longleftrightarrow> fat_entry f v (of_nat a) = 0"
    unfolding sz off table_entry [OF assms Suc.prems(4)] le32_zero ..
  show ?case
  proof (cases "a = m")
    case True
    then have "fat_entry f v (of_nat a) = 0"
      using assms(2) by (simp add: first_free_def)
    with test Suc.prems True show ?thesis
      by (auto simp del: of_nat_mult of_nat_add)
  next
    case False
    then have a: "a < m" "fat_entry f v (of_nat a) \<noteq> 0"
      using Suc.prems(4) assms(2) by (simp_all add: first_free_def)
    have j: "(of_nat (4 * a) :: u32) + 4 = of_nat (4 * (a + 1))"
      by simp
    have off': "unat ((of_nat (4 * (a + 1)) :: u32) mod 512) = 4 * ((a + 1) mod 128)"
      using a(1) small by (intro offset_words) simp
    then have wrap: "(of_nat (4 * (a + 1)) :: u32) mod SECTOR_SIZE (fat s) = 0 \<longleftrightarrow> (a + 1) mod 128 = 0"
      unfolding sz by (metis mult_eq_0_iff unat_eq_zero zero_neq_numeral)
    have less: "a + 1 \<le> m" "m - (a + 1) < n"
      using a(1) Suc.prems(5) by simp_all
    show ?thesis
    proof (cases "(a + 1) mod 128 = 0")
      case True
      then have d: "(a + 1) div 128 = a div 128 + 1"
        by (simp add: div_Suc)
      then have sec: "of_nat (fat_base f + a div 128) + 1 = (of_nat (fat_base f + (a + 1) div 128) :: u32)"
        by simp
      obtain u where u: "disk_read 1 (of_nat (fat_base f + (a + 1) div 128)) s = Ret u (v (of_nat (fat_base f + (a + 1) div 128)))"
        "fs_ok k u" "fs_frame s u" "disk_view u = v"
        using disk_read_ok [OF Suc.prems(1), of 1 "of_nat (fat_base f + (a + 1) div 128)"] Suc.prems(3) by auto
      have "fat u = f" using u(3) Suc.prems(2) by (simp add: fs_frame_def)
      from Suc.IH [OF u(2) this u(4) less]
      obtain t where "empty_cluster n (v (of_nat (fat_base f + (a + 1) div 128))) (of_nat (fat_base f + (a + 1) div 128)) (of_nat (4 * (a + 1))) u
          = Ret t (of_nat (4 * m))" "fs_ok k t" "fs_frame u t" "disk_view t = v"
        by blast
      moreover have "empty_cluster (Suc n) ?d (of_nat (fat_base f + a div 128)) (of_nat (4 * a)) s =
          empty_cluster n (v (of_nat (fat_base f + (a + 1) div 128))) (of_nat (fat_base f + (a + 1) div 128)) (of_nat (4 * (a + 1))) u"
        unfolding empty_cluster.simps test Let_def j wrap sec u(1) if_not_P [OF a(2)] if_P [OF True] by simp
      ultimately show ?thesis
        using fs_frame_trans [OF u(3)] by metis
    next
      case False
      then have d: "(a + 1) div 128 = a div 128"
        by (simp add: div_Suc)
      from Suc.IH [OF Suc.prems(1-3) less]
      obtain t where "empty_cluster n (v (of_nat (fat_base f + (a + 1) div 128))) (of_nat (fat_base f + (a + 1) div 128)) (of_nat (4 * (a + 1))) s
          = Ret t (of_nat (4 * m))" "fs_ok k t" "fs_frame s t" "disk_view t = v"
        by blast
      then show ?thesis
        unfolding empty_cluster.simps test Let_def j wrap if_not_P [OF a(2)] if_not_P [OF False] d by blast
    qed
  qed
qed simp

lemma search_empty_cluster_ok:
  assumes "fs_ok (Suc (Suc k)) s" and "fat_geom (fat s)" and "first_free (fat s) (disk_view s) m"
  shows "\<exists>t. search_empty_cluster s = Ret t (of_nat m) \<and> fs_ok (Suc (Suc k)) t \<and> fs_frame s t
    \<and> disk_view t = link_view (fat s) 0 (of_nat m) (disk_view s)"
  unfolding search_empty_cluster_def
proof (rule with_page [OF assms(1)], goal_cases)
  case (1 t i)
  let ?f = "fat s" and ?v = "disk_view s"
  have now: "first_data_sec (fat t) - 2 * fat_sz (fat_bpb (fat t)) = of_nat (fat_base ?f)"
    using assms(2) 1(3) by (simp add: fat_geom_def fat_base_def)
  obtain u where u: "disk_read 1 (of_nat (fat_base ?f)) t = Ret u (?v (of_nat (fat_base ?f)))" "fs_ok (Suc k) u" "fs_frame t u" "disk_view u = ?v"
    using disk_read_ok [OF 1(1), of 1 "of_nat (fat_base ?f)"] 1(2) by auto
  have fu: "fat u = ?f" using u(3) 1(3) by (simp add: fs_frame_def)
  have "m < 2 ^ 28"
    using assms(3) by (simp add: first_free_def)
  then have fuel: "m - 0 < 2 ^ 30"
    by simp
  obtain w where w: "empty_cluster (2 ^ 30) (?v (of_nat (fat_base ?f))) (of_nat (fat_base ?f)) 0 u = Ret w (of_nat (4 * m))"
    "fs_ok (Suc k) w" "fs_frame u w" "disk_view w = ?v"
    using empty_cluster_ok [OF assms(2,3) u(2) fu u(4) le0 fuel] by auto
  have div: "(of_nat (4 * m) :: u32) div 4 = of_nat m"
    using \<open>m < 2 ^ 28\<close> by (simp add: word_arith_nat_div unat_word_ariths unat_of_nat_i32 take_bit_nat_eq_self)
  obtain x where x: "write_fat_table 0 (of_nat m) w = Ret x ()" "fs_ok (Suc k) x" "fs_frame w x"
    "disk_view x = link_view (fat w) 0 (of_nat m) (disk_view w)"
    using write_fat_table_ok [OF w(2)] by blast
  have "fat w = ?f" using w(3) fu by (simp add: fs_frame_def)
  then have "disk_view x = link_view ?f 0 (of_nat m) ?v"
    using x(4) w(4) by simp
  moreover have "fs_frame t x"
    using fs_frame_trans [OF fs_frame_trans [OF u(3) w(3)] x(3)] .
  ultimately show ?case
    unfolding Let_def now u(1) obind.simps w(1) div x(1) using x(2) by blast
qed

section \<open>Chains\<close>

definition is_chain :: "fat_t \<Rightarrow> (u32 \<Rightarrow> u8 list) \<Rightarrow> u32 list \<Rightarrow> bool" where
  "is_chain f v cs \<longleftrightarrow> cs \<noteq> [] \<and> distinct cs \<and> (\<forall>c\<in>set cs. c \<noteq> 0 \<and> in_fat f c)
    \<and> (\<forall>i. Suc i < length cs \<longrightarrow> fat_entry f v (cs ! i) = cs ! Suc i) \<and> fat_entry f v (last cs) = M_FAT32_EOC"

lemma is_chain_used:
  assumes "is_chain f v cs" and "c \<in> set cs"
  shows "fat_entry f v c \<noteq> 0"
proof -
  obtain i where i: "i < length cs" "c = cs ! i"
    using assms(2) by (auto simp: in_set_conv_nth)
  show ?thesis
  proof (cases "Suc i < length cs")
    case True
    then have "cs ! Suc i \<in> set cs" by simp
    with True i assms(1) show ?thesis by (auto simp: is_chain_def)
  next
    case False
    then have "c = last cs"
      using i by (cases cs rule: rev_cases) (auto simp: nth_append)
    with assms(1) show ?thesis by (simp add: is_chain_def)
  qed
qed

lemma FAT_MASK_small: "unat c < 2 ^ 28 \<Longrightarrow> FAT_MASK AND c = (c :: u32)"
proof -
  assume "unat c < 2 ^ 28"
  then have "take_bit 28 c = c"
    by (simp add: unsigned_take_bit_eq take_bit_nat_eq_self word_unat_eq_iff)
  moreover have "(FAT_MASK :: u32) = mask 28"
    by (simp add: mask_eq_exp_minus_1)
  ultimately show ?thesis
    by (simp add: take_bit_eq_mask and.commute)
qed

lemma is_chain_append:
  assumes "is_chain f v cs" and "c \<notin> set cs" and "c \<noteq> 0" and "in_fat f c"
    and "\<And>x. in_fat f x \<Longrightarrow> fat_entry f w x = (if x = last cs then c else if x = c then M_FAT32_EOC else fat_entry f v x)"
  shows "is_chain f w (cs @ [c])"
proof -
  have ne: "cs \<noteq> []" and d: "distinct cs" and cs: "\<forall>x\<in>set cs. x \<noteq> 0 \<and> in_fat f x"
    using assms(1) by (simp_all add: is_chain_def)
  have "fat_entry f w ((cs @ [c]) ! i) = (cs @ [c]) ! Suc i" if "Suc i < length (cs @ [c])" for i
  proof -
    have i: "i < length cs" and x: "cs ! i \<in> set cs"
      using that by auto
    have e: "fat_entry f w (cs ! i) = (if cs ! i = last cs then c else fat_entry f v (cs ! i))"
      using assms(5) [of "cs ! i"] cs x assms(2) by auto
    show ?thesis
    proof (cases "Suc i < length cs")
      case True
      then have "cs ! i \<noteq> last cs"
        using d i ne by (simp add: last_conv_nth nth_eq_iff_index_eq)
      with e True assms(1) i show ?thesis
        by (simp add: nth_append is_chain_def)
    next
      case False
      then have k: "i = length cs - 1" "Suc i = length cs" using i by simp_all
      have "cs ! i = last cs" and "(cs @ [c]) ! Suc i = c"
        unfolding k(2) using ne k(1) by (simp_all add: last_conv_nth nth_append)
      with e i show ?thesis by (simp add: nth_append)
    qed
  qed
  moreover have "fat_entry f w c = M_FAT32_EOC"
    using assms(2,4) assms(5) [of c] last_in_set [OF ne] by auto
  ultimately show ?thesis
    using d cs assms(2-4) by (simp add: is_chain_def)
qed

section \<open>A small volume\<close>

text \<open>A card with a chain of two clusters, whose first sectors hold different bytes.\<close>

definition demo_card :: "u32 \<Rightarrow> u8 list" where
  "demo_card sec = (if sec = 32 then concat (map bytes32 [0x0ffffff8, 0x0fffffff, 3, 0x0fffffff]) @ replicate 496 0
     else if sec = 2080 then replicate 512 65 else if sec = 2088 then replicate 512 66 else replicate 512 0)"

definition demo_disk :: os where
  "demo_disk = init_mem (demo_bio\<lparr>sd_card := demo_card\<rparr>)"

lemma init_pages_os:
  "bufs (fst (fold init_page is p)) = bufs (fst p) \<and> bcache (fst (fold init_page is p)) = bcache (fst p)
    \<and> lru (fst (fold init_page is p)) = lru (fst p) \<and> sd_card (fst (fold init_page is p)) = sd_card (fst p)
    \<and> actual_buf_num (fst (fold init_page is p)) = actual_buf_num (fst p) \<and> sleeplocks (fst (fold init_page is p)) = sleeplocks (fst p)
    \<and> fat (fst (fold init_page is p)) = fat (fst p) \<and> pfd_tab (fst (fold init_page is p)) = pfd_tab (fst p)
    \<and> tp (fst (fold init_page is p)) = tp (fst p) \<and> pcb_tab (fst (fold init_page is p)) = pcb_tab (fst p)
    \<and> mylimit (fst (fold init_page is p)) = mylimit (fst p) \<and> status_ctx (fst (fold init_page is p)) = status_ctx (fst p)"
  by (induction "is" arbitrary: p) (simp_all add: init_page_def upd_page_def split: prod.split)

lemma init_mem_os [simp]:
  "bufs (init_mem s) = bufs s" "bcache (init_mem s) = bcache s" "lru (init_mem s) = lru s" "sd_card (init_mem s) = sd_card s"
  "actual_buf_num (init_mem s) = actual_buf_num s" "sleeplocks (init_mem s) = sleeplocks s" "fat (init_mem s) = fat s"
  "pfd_tab (init_mem s) = pfd_tab s" "tp (init_mem s) = tp s" "pcb_tab (init_mem s) = pcb_tab s" "mylimit (init_mem s) = mylimit s"
  "status_ctx (init_mem s) = status_ctx s"
  unfolding init_mem_def Let_def by (simp_all add: init_pages_os)

lemma demo_disk_view [simp]: "disk_view demo_disk = demo_card"
proof -
  have "disk_view demo_disk = disk_view (demo_bio\<lparr>sd_card := demo_card\<rparr>)"
    by (rule bio_cong(2)) (simp_all add: demo_disk_def)
  also have "\<dots> = demo_card"
    by (rule ext) (simp add: disk_view_def demo_bio_def demo_os_simps)
  finally show ?thesis .
qed

lemma demo_disk_fields [simp]:
  "fat demo_disk = demo_fat" "tp demo_disk = tp demo_os" "pcb_tab demo_disk = pcb_tab demo_os" "mylimit demo_disk = mylimit demo_os"
  "pfd_tab demo_disk = pfd_tab demo_os" "status_ctx demo_disk = status_ctx demo_os"
  by (simp_all add: demo_disk_def demo_bio_def demo_os_simps)

lemma demo_disk_ok: "k \<le> 1790 \<Longrightarrow> fs_ok k demo_disk"
proof -
  assume k: "k \<le> 1790"
  let ?s = "demo_bio\<lparr>sd_card := demo_card\<rparr>"
  have e: "\<forall>q. q \<noteq> free_source_list \<longrightarrow> page_lists ?s q = []"
    by (simp add: demo_bio_def demo_os_simps)
  have "cache_inv ?s"
    by (auto simp: cache_inv_def hashed_def demo_bio_def demo_os_simps zero_buf_def store_inv_def)
  moreover have "lru_inv {} ?s"
    by (auto simp: lru_inv_def demo_bio_def demo_os_simps zero_buf_def inj_on_def lessThan_Suc numeral_2_eq_2)
  ultimately have "bio_inv ?s"
    by (simp add: bio_inv_def demo_bio_def demo_os_simps)
  then have "bio_inv demo_disk"
    by (subst bio_cong(1) [where s = ?s]) (simp_all add: demo_disk_def)
  moreover note mm_inv_init_mem [OF e]
  ultimately show ?thesis
    using k by (simp add: fs_ok_def demo_disk_def)
qed

lemma demo_geom: "fat_geom demo_fat" "sectors512 demo_card"
  by (simp_all add: fat_geom_def demo_fat_def sectors512_def demo_card_def bytes32_def)

lemma demo_entries:
  "in_fat demo_fat 0" "in_fat demo_fat 1" "in_fat demo_fat 2" "in_fat demo_fat 3" "in_fat demo_fat 4"
  "fat_entry demo_fat demo_card 0 = 0x0ffffff8" "fat_entry demo_fat demo_card 1 = M_FAT32_EOC"
  "fat_entry demo_fat demo_card 2 = 3" "fat_entry demo_fat demo_card 3 = M_FAT32_EOC" "fat_entry demo_fat demo_card 4 = 0"
proof -
  show i: "in_fat demo_fat 0" "in_fat demo_fat 1" "in_fat demo_fat 2" "in_fat demo_fat 3" "in_fat demo_fat 4"
    by (simp_all add: in_fat_def demo_fat_def)
  have e: "fat_entry demo_fat demo_card c = le32 (demo_card 32) (4 * (unat c mod 128))" if "in_fat demo_fat c" "unat c < 128" for c
    using fat_cluster_words(1,3) [OF demo_geom(1) that(1)] that(2) by (simp add: fat_entry_def fat_base_def demo_fat_def)
  show "fat_entry demo_fat demo_card 0 = 0x0ffffff8" "fat_entry demo_fat demo_card 1 = M_FAT32_EOC"
    "fat_entry demo_fat demo_card 2 = 3" "fat_entry demo_fat demo_card 3 = M_FAT32_EOC" "fat_entry demo_fat demo_card 4 = 0"
    using e [OF i(1)] e [OF i(2)] e [OF i(3)] e [OF i(4)] e [OF i(5)]
    by (simp_all add: demo_card_def le32_def bytes32_def byte_at_def nth_append)
qed

lemma demo_chain: "is_chain demo_fat demo_card [2, 3]" "first_free demo_fat demo_card 4"
proof -
  show "is_chain demo_fat demo_card [2, 3]"
    by (simp add: is_chain_def demo_entries)
  have "fat_entry demo_fat demo_card (of_nat a) \<noteq> 0" if a: "a < 4" for a
  proof -
    consider "a = 0" | "a = 1" | "a = 2" | "a = 3" using a by linarith
    then show ?thesis by cases (simp_all add: demo_entries)
  qed
  then show "first_free demo_fat demo_card 4"
    by (simp add: first_free_def demo_entries) (simp add: demo_fat_def)
qed

end
