(* ===== verification/FatDir.thy ===== *)
theory FatDir
  imports FatTable
begin

text \<open>
  Directories of the FAT32 volume (\<open>kernel/utils/utils.c\<close>): walking over the entries of a directory, the names of
  entries, the three searches, the creation of an entry and the resolution of a path. A directory is read a buffer at a
  time; the pointer to an entry, the buffer and the two variables \<open>next_entry\<close> updates are one cursor.
\<close>

section \<open>Entries in a buffer\<close>

abbreviation (input) ATTR_DIRECTORY :: u8 where "ATTR_DIRECTORY \<equiv> 0x10"
abbreviation (input) ATTR_ARCHIVE :: u8 where "ATTR_ARCHIVE \<equiv> 0x20"
abbreviation (input) ATTR_LONG_NAME :: u8 where "ATTR_LONG_NAME \<equiv> 0x0f"
abbreviation (input) EMPTY_ENTRY :: u8 where "EMPTY_ENTRY \<equiv> 0xe5"
abbreviation (input) LAST_LONG_ENTRY :: u8 where "LAST_LONG_ENTRY \<equiv> 0x40"
abbreviation (input) LONG_ENTRY_SEQ :: u8 where "LONG_ENTRY_SEQ \<equiv> 0x0f"
abbreviation (input) LONG_FILENAME :: nat where "LONG_FILENAME \<equiv> 13"
abbreviation (input) FAT32_MAX_FILENAME :: nat where "FAT32_MAX_FILENAME \<equiv> 256"
abbreviation (input) sizeof_dentry :: nat where "sizeof_dentry \<equiv> 32"

datatype type_t = FILE_FILE | FILE_DIR

definition dentry_at :: "u8 list \<Rightarrow> nat \<Rightarrow> dentry" where
  "dentry_at d p = \<lparr>dename = map (byte_at d) [p..<p + 8], extname = map (byte_at d) [p + 8..<p + 11],
     arributes = byte_at d (p + 11), Lowercase = byte_at d (p + 12), creat_time_ms = byte_at d (p + 13),
     creat_time = le16 d (p + 14), creat_date = le16 d (p + 16), last_visit_time = le16 d (p + 18),
     high_start_clus = le16 d (p + 20), modity_time = le16 d (p + 22), modity_date = le16 d (p + 24),
     low_start_clus = le16 d (p + 26), file_size = le32 d (p + 28)\<rparr>"

definition dentry_bytes :: "dentry \<Rightarrow> u8 list" where
  "dentry_bytes e = dename e @ extname e @ [arributes e, Lowercase e, creat_time_ms e] @ bytes16 (creat_time e)
     @ bytes16 (creat_date e) @ bytes16 (last_visit_time e) @ bytes16 (high_start_clus e) @ bytes16 (modity_time e)
     @ bytes16 (modity_date e) @ bytes16 (low_start_clus e) @ bytes32 (file_size e)"

definition long_at :: "u8 list \<Rightarrow> nat \<Rightarrow> long_name_entry" where
  "long_at d p = \<lparr>ln_seq = byte_at d p, name1 = map (\<lambda>i. le16 d (p + 1 + 2 * i)) [0..<5],
     ln_attributes = byte_at d (p + 11), reserved = byte_at d (p + 12), ln_checksum = byte_at d (p + 13),
     name2 = map (\<lambda>i. le16 d (p + 14 + 2 * i)) [0..<6], ln_start_clus = le16 d (p + 26),
     name3 = map (\<lambda>i. le16 d (p + 28 + 2 * i)) [0..<2]\<rparr>"

definition long_bytes :: "long_name_entry \<Rightarrow> u8 list" where
  "long_bytes e = [ln_seq e] @ concat (map bytes16 (name1 e)) @ [ln_attributes e, reserved e, ln_checksum e]
     @ concat (map bytes16 (name2 e)) @ bytes16 (ln_start_clus e) @ concat (map bytes16 (name3 e))"

definition dentry_is_empty :: "u8 list \<Rightarrow> nat \<Rightarrow> bool" where
  "dentry_is_empty d p \<longleftrightarrow> (\<forall>i<32. byte_at d (p + i) = 0)"

text \<open>Characters: 65 to 90 are the capital and 97 to 122 the small letters, 48 to 57 the digits; 95, 46, 32 and 45 are
  the underscore, the full stop, the space and the hyphen.\<close>

definition unicode2char :: "u16 \<Rightarrow> u8" where
  "unicode2char unich =
    (if 65 \<le> unich \<and> unich \<le> 90 then ucast (unich - 65 + 65)
     else if 48 \<le> unich \<and> unich \<le> 57 then ucast (unich - 48 + 48)
     else if 97 \<le> unich \<and> unich \<le> 122 then ucast (unich - 97 + 97)
     else if unich = 95 then 95 else if unich = 46 then 46 else if unich = 0x20 then 32 else if unich = 45 then 45
     else 0)"

definition char2unicode :: "u8 \<Rightarrow> u16" where
  "char2unicode ch =
    (if 65 \<le> ch \<and> ch \<le> 90 then 65 + ucast ch - 65
     else if 97 \<le> ch \<and> ch \<le> 122 then 97 + ucast ch - 97
     else if 48 \<le> ch \<and> ch \<le> 57 then 48 + ucast ch - 48
     else if ch = 95 then 95 else if ch = 46 then 46 else if ch = 32 then 0x20 else if ch = 45 then 45
     else 0)"

text \<open>A C string in a buffer, and the small form of a capital letter.\<close>

definition c_string :: "u8 list \<Rightarrow> u8 list" where
  "c_string d = takeWhile (\<lambda>c. c \<noteq> 0) d"

definition lower :: "u8 \<Rightarrow> u8" where
  "lower c = (if 65 \<le> c \<and> c \<le> 90 then 97 + c - 65 else c)"

definition upper :: "u8 \<Rightarrow> u8" where
  "upper c = (if 97 \<le> c \<and> c \<le> 122 then c - 97 + 65 else c)"

text \<open>The difference of the first bytes that differ, as \<open>kmemcmp\<close> returns it.\<close>

fun cmp_bytes :: "u8 list \<Rightarrow> u8 list \<Rightarrow> int" where
  "cmp_bytes (a # as) (b # bs) = (if a \<noteq> b then uint a - uint b else cmp_bytes as bs)"
| "cmp_bytes _ _ = 0"

text \<open>\<open>filenamecmp\<close> on two strings: the first ends at its first space.\<close>

definition filenamecmp :: "u8 list \<Rightarrow> u8 list \<Rightarrow> u8" where
  "filenamecmp nm1 nm2 =
    (let n1 = takeWhile (\<lambda>c. c \<noteq> 32) nm1 in
     if length n1 \<noteq> length nm2 then 1 else word_of_int (cmp_bytes (map lower n1) (map lower nm2)))"

section \<open>Walking over a directory\<close>

record cursor =
  cu_p :: nat
  cu_buf :: "u8 list"
  cu_clus :: u32
  cu_sec :: u32

text \<open>\<open>disk_read(buff, sector, READ_MAX_SEC)\<close>.\<close>

definition read_dir :: "u32 \<Rightarrow> cursor \<Rightarrow> 'a os_scheme \<Rightarrow> ('a os_scheme, cursor) outcome" where
  "read_dir sec c s = obind (disk_read (READ_MAX_SEC (fat s)) sec s) (\<lambda>s d.
     Ret s (c\<lparr>cu_p := 0, cu_buf := d @ drop (length d) (cu_buf c), cu_sec := sec\<rparr>))"

definition next_entry :: "cursor \<Rightarrow> 'a os_scheme \<Rightarrow> ('a os_scheme, cursor) outcome" where
  "next_entry c s =
    (let p = cu_p c + sizeof_dentry in
     if p \<noteq> BUFSIZE (fat s) then Ret s (c\<lparr>cu_p := p\<rparr>)
     else
       let sec = cu_sec c + of_nat (READ_MAX_SEC (fat s)) in
       if sec - first_sec_of_clus (fat s) (cu_clus c) \<ge> SEC_PER_CLU (fat s) then
         obind (next_cluster (cu_clus c) s) (\<lambda>s clus.
           if clus = CLUSER_END then Ret s (c\<lparr>cu_p := 0, cu_clus := clus, cu_sec := sec\<rparr>)
           else read_dir (first_sec_of_clus (fat s) clus) (c\<lparr>cu_clus := clus\<rparr>) s)
       else read_dir sec c s)"

text \<open>The start of a search: \<open>buf\<close> is a page of zeros.\<close>

definition open_dir :: "u32 \<Rightarrow> 'a os_scheme \<Rightarrow> ('a os_scheme, cursor) outcome" where
  "open_dir dir_first_clus s =
    read_dir (first_sec_of_clus (fat s) dir_first_clus)
      \<lparr>cu_p = 0, cu_buf = replicate 4096 0, cu_clus = dir_first_clus, cu_sec = 0\<rparr> s"

definition cu_entry :: "cursor \<Rightarrow> dentry" where
  "cu_entry c = dentry_at (cu_buf c) (cu_p c)"

definition cu_empty :: "cursor \<Rightarrow> bool" where
  "cu_empty c = dentry_is_empty (cu_buf c) (cu_p c)"

definition cu_deleted :: "cursor \<Rightarrow> bool" where
  "cu_deleted c \<longleftrightarrow> byte_at (cu_buf c) (cu_p c) = EMPTY_ENTRY"

fun skip_deleted :: "nat \<Rightarrow> cursor \<Rightarrow> 'a os_scheme \<Rightarrow> ('a os_scheme, cursor) outcome" where
  "skip_deleted 0 c s = Panic s"
| "skip_deleted (Suc n) c s =
    (if cu_deleted c then obind (next_entry c s) (\<lambda>s c. skip_deleted n c s) else Ret s c)"

section \<open>Names of entries\<close>

text \<open>One of the three parts of a long entry, from index \<open>i\<close> of \<open>filename\<close> on; an end mark ends this part only.\<close>

fun put_units :: "u16 list \<Rightarrow> nat \<Rightarrow> u8 list \<Rightarrow> nat \<times> u8 list" where
  "put_units [] i filename = (i, filename)"
| "put_units (u # us) i filename =
    (if u = 0 \<or> u = 0xffff then (i, filename[i := 0]) else put_units us (i + 1) (filename[i := unicode2char u]))"

definition long_part :: "long_name_entry \<Rightarrow> nat \<Rightarrow> u8 list \<Rightarrow> u8 list" where
  "long_part e n filename =
    (let (i, filename) = put_units (name1 e) (n * LONG_FILENAME) filename;
         (i, filename) = put_units (name2 e) i filename;
         (i, filename) = put_units (name3 e) i filename
     in filename)"

definition is_long :: "cursor \<Rightarrow> bool" where
  "is_long c \<longleftrightarrow> (let e = long_at (cu_buf c) (cu_p c) in
     ln_attributes e = ATTR_LONG_NAME \<and> ln_seq e AND LAST_LONG_ENTRY = LAST_LONG_ENTRY)"

definition long_num :: "cursor \<Rightarrow> nat" where
  "long_num c = unat (ln_seq (long_at (cu_buf c) (cu_p c)) AND LONG_ENTRY_SEQ)"

text \<open>\<open>while (long_entry_num--)\<close>; afterwards the cursor is at the short entry.\<close>

fun long_name :: "nat \<Rightarrow> cursor \<Rightarrow> u8 list \<Rightarrow> 'a os_scheme \<Rightarrow> ('a os_scheme, cursor \<times> u8 list) outcome" where
  "long_name 0 c filename s = Ret s (c, filename)"
| "long_name (Suc n) c filename s =
    (let filename = long_part (long_at (cu_buf c) (cu_p c)) n filename
     in obind (next_entry c s) (\<lambda>s c. long_name n c filename s))"

definition short_name :: "dentry \<Rightarrow> u8 list" where
  "short_name e = takeWhile (\<lambda>c. c \<noteq> 32) (dename e) @ (if extname e ! 0 \<noteq> 32 then [46] else [])
     @ takeWhile (\<lambda>c. c \<noteq> 32) (extname e)"

text \<open>In \<open>search2\<close> the copy of the extension ends at a space in the first three characters of the name.\<close>

definition short_name2 :: "dentry \<Rightarrow> u8 list" where
  "short_name2 e = takeWhile (\<lambda>c. c \<noteq> 32) (dename e) @ (if extname e ! 0 \<noteq> 32 then [46] else [])
     @ map snd (takeWhile (\<lambda>(c, _). c \<noteq> 32) (zip (dename e) (extname e)))"

definition entry_name :: "(dentry \<Rightarrow> u8 list) \<Rightarrow> cursor \<Rightarrow> 'a os_scheme \<Rightarrow> ('a os_scheme, cursor \<times> u8 list) outcome" where
  "entry_name short c s =
    (if is_long c then
       obind (long_name (long_num c) c (replicate FAT32_MAX_FILENAME 0) s) (\<lambda>s (c, filename). Ret s (c, c_string filename))
     else Ret s (c, c_string (short (cu_entry c))))"

section \<open>Searching a directory\<close>

text \<open>The loop of the searches: \<open>ok\<close> is their test of an entry and its name. The result has the cursor at the first
  entry of the name (\<open>first_entry\<close> of \<open>search2\<close>), the cursor at the entry found, and the number of entries.\<close>

fun search_loop :: "nat \<Rightarrow> (dentry \<Rightarrow> u8 list) \<Rightarrow> (dentry \<Rightarrow> u8 list \<Rightarrow> bool) \<Rightarrow> cursor \<Rightarrow> 'a os_scheme \<Rightarrow>
    ('a os_scheme, (cursor \<times> cursor \<times> nat) option) outcome" where
  "search_loop 0 short ok c s = Panic s"
| "search_loop (Suc n) short ok c s =
    (if cu_empty c then Ret s None
     else obind (skip_deleted n c s) (\<lambda>s c0.
       obind (entry_name short c0 s) (\<lambda>s (c, filename).
         if ok (cu_entry c) filename then Ret s (Some (c0, c, if is_long c0 then long_num c0 + 1 else 1))
         else obind (next_entry c s) (\<lambda>s c. if cu_clus c = CLUSER_END then Ret s None else search_loop n short ok c s))))"

definition mode_ok :: "u8 list \<Rightarrow> type_t \<Rightarrow> dentry \<Rightarrow> u8 list \<Rightarrow> bool" where
  "mode_ok name mode e filename \<longleftrightarrow>
    (arributes e AND ATTR_DIRECTORY \<noteq> 0 \<and> mode = FILE_DIR \<or> arributes e AND ATTR_DIRECTORY = 0 \<and> mode = FILE_FILE)
    \<and> filenamecmp filename name = 0"

text \<open>\<open>pos\<close> of the entry found: its sector and its offset in the sector; \<open>len\<close> is not set. A page is aligned, so the
  low nine bits of the address of an entry are those of its offset.\<close>

definition entry_pos :: "cursor \<Rightarrow> 'a os_scheme \<Rightarrow> dir_pos" where
  "entry_pos c s = \<lparr>dir_offset = of_nat (cu_p c) AND 511, dir_len = 0,
     dir_sec = cu_sec c + of_nat (cu_p c div unat (SECTOR_SIZE (fat s)))\<rparr>"

definition found :: "(cursor \<times> cursor \<times> nat) option \<Rightarrow> 'a os_scheme \<Rightarrow> (dentry \<times> dir_pos) option" where
  "found r s = map_option (\<lambda>(_, c, _). (cu_entry c, entry_pos c s)) r"

definition search :: "nat \<Rightarrow> u8 list \<Rightarrow> u32 \<Rightarrow> type_t \<Rightarrow> 'a os_scheme \<Rightarrow> ('a os_scheme, (dentry \<times> dir_pos) option) outcome" where
  "search n name dir_first_clus mode s =
    obind (open_dir dir_first_clus s) (\<lambda>s c.
    obind (search_loop n short_name (mode_ok name mode) c s) (\<lambda>s r. Ret s (found r s)))"

definition search3 :: "nat \<Rightarrow> u8 list \<Rightarrow> u32 \<Rightarrow> 'a os_scheme \<Rightarrow> ('a os_scheme, (dentry \<times> dir_pos) option) outcome" where
  "search3 n name dir_first_clus s =
    obind (open_dir dir_first_clus s) (\<lambda>s c.
    obind (search_loop n short_name (\<lambda>e filename. filenamecmp filename name = 0) c s) (\<lambda>s r. Ret s (found r s)))"

text \<open>\<open>search2\<close> gives the place of the first entry of the name: its offset in the buffer, the sector the buffer was read
  from, and the number of entries; with it the entry itself.\<close>

definition search2 :: "nat \<Rightarrow> u8 list \<Rightarrow> u32 \<Rightarrow> type_t \<Rightarrow> 'a os_scheme \<Rightarrow> ('a os_scheme, (cursor \<times> dir_pos) option) outcome" where
  "search2 n name dir_first_clus mode s =
    obind (open_dir dir_first_clus s) (\<lambda>s c.
    obind (search_loop n short_name2 (mode_ok name mode) c s) (\<lambda>s r.
      Ret s (map_option (\<lambda>(c0, c, k). (c, \<lparr>dir_offset = of_nat (cu_p c0), dir_len = of_nat k, dir_sec = cu_sec c0\<rparr>)) r)))"

section \<open>Creating an entry\<close>

text \<open>The loop of \<open>find_entry_entry\<close>: the buffer of the first of \<open>num\<close> free entries in a row and its offset. \<open>ret\<close> is
  \<open>ret_entry\<close> with \<open>ret_sec\<close>, which are set at the first entry in use only.\<close>

fun free_entries :: "nat \<Rightarrow> nat \<Rightarrow> cursor \<Rightarrow> nat \<Rightarrow> (nat \<times> u32) option \<Rightarrow> 'a os_scheme \<Rightarrow> ('a os_scheme, nat \<times> u32) outcome" where
  "free_entries 0 num c cnt ret s = Panic s"
| "free_entries (Suc n) num c cnt ret s =
    (let old_clus = cu_clus c; in_use = (\<not> cu_empty c \<and> \<not> cu_deleted c);
         cnt = (if in_use then 0 else cnt + 1)
     in obind (next_entry c s) (\<lambda>s c.
       let ret = (if in_use then Some (cu_p c, cu_sec c) else ret) in
       if \<not> in_use \<and> cnt = num then (case ret of None \<Rightarrow> Panic s | Some r \<Rightarrow> Ret s r)
       else if cu_clus c = CLUSER_END then
         obind (kmalloc PAGE_SIZE s) (\<lambda>s temp.
         obind (find_entry_clus s) (\<lambda>s clus_num.
         obind (write_fat_table_p old_clus clus_num s) (\<lambda>s _.
           case ret of None \<Rightarrow> Panic s
           | Some (p, sec) \<Rightarrow> Ret (kfree temp s) (p, if cnt = 0 then first_sec_of_clus (fat s) clus_num else sec))))
       else free_entries n num c cnt ret s))"

definition find_entry_entry :: "nat \<Rightarrow> u32 \<Rightarrow> nat \<Rightarrow> 'a os_scheme \<Rightarrow> ('a os_scheme, nat \<times> u32) outcome" where
  "find_entry_entry n dir_first_clus num s =
    obind (open_dir dir_first_clus s) (\<lambda>s c. free_entries n num c 0 None s)"

text \<open>The parts of a new name: a file has its name up to the first full stop and the extension after it.\<close>

definition isfile :: "u8 list \<Rightarrow> type_t \<Rightarrow> bool" where
  "isfile name type \<longleftrightarrow> type = FILE_FILE \<and> 46 \<in> set name"

definition base_name :: "u8 list \<Rightarrow> type_t \<Rightarrow> u8 list" where
  "base_name name type = (if isfile name type then takeWhile (\<lambda>c. c \<noteq> 46) name else name)"

definition ext_name :: "u8 list \<Rightarrow> u8 list" where
  "ext_name name = tl (dropWhile (\<lambda>c. c \<noteq> 46) name)"

definition dentry_num :: "u8 list \<Rightarrow> type_t \<Rightarrow> nat" where
  "dentry_num name type = (if length (base_name name type) \<le> 8 then 1 else length name div LONG_FILENAME + 2)"

definition dated :: "u8 \<Rightarrow> u32 \<Rightarrow> u8 list \<Rightarrow> u8 list \<Rightarrow> dentry" where
  "dated attr clus nm ext = \<lparr>dename = nm, extname = ext, arributes = attr, Lowercase = 0, creat_time_ms = 0,
     creat_time = 0x6000, creat_date = 0x54b5, last_visit_time = 0x6000,
     high_start_clus = ucast (drop_bit 16 clus AND 0xffff), modity_time = 0x6000, modity_date = 0x54b5,
     low_start_clus = ucast (clus AND 0xffff), file_size = 0\<rparr>"

definition new_dentry :: "u8 list \<Rightarrow> type_t \<Rightarrow> u32 \<Rightarrow> dentry" where
  "new_dentry name type new_clus =
    dated (if type = FILE_DIR then ATTR_DIRECTORY else ATTR_ARCHIVE) new_clus
      (let filename = base_name name type in
       if dentry_num name type = 1 then filename @ replicate (8 - length filename) 32
       else map upper (take 6 filename) @ [126, 49])
      (if isfile name type then take 3 (map upper (ext_name name) @ replicate 3 32) else replicate 3 32)"

definition checksum :: "dentry \<Rightarrow> u8" where
  "checksum e = fold (\<lambda>b sm. (if sm AND 1 \<noteq> 0 then 0x80 else 0) + drop_bit 1 sm + b) (dename e @ extname e) 0"

definition long_unit :: "u8 list \<Rightarrow> nat \<Rightarrow> u16" where
  "long_unit name len = (if len < length name then char2unicode (name ! len) else if len = length name then 0 else 0xffff)"

definition long_entry :: "u8 list \<Rightarrow> nat \<Rightarrow> u8 \<Rightarrow> nat \<Rightarrow> long_name_entry" where
  "long_entry name num sm i =
    \<lparr>ln_seq = (if i + 1 = num - 1 then LAST_LONG_ENTRY OR of_nat (i + 1) else of_nat (i + 1) AND LONG_ENTRY_SEQ),
     name1 = map (\<lambda>j. long_unit name (LONG_FILENAME * i + j)) [0..<5], ln_attributes = ATTR_LONG_NAME, reserved = 0,
     ln_checksum = sm, name2 = map (\<lambda>j. long_unit name (LONG_FILENAME * i + j)) [5..<11], ln_start_clus = 0,
     name3 = map (\<lambda>j. long_unit name (LONG_FILENAME * i + j)) [11..<13]\<rparr>"

text \<open>The long entries in the order they are written, the last part of the name first.\<close>

definition long_entries :: "u8 list \<Rightarrow> type_t \<Rightarrow> u8 \<Rightarrow> long_name_entry list" where
  "long_entries name type sm =
    (let num = dentry_num name type in map (\<lambda>i. long_entry name num sm (num - 2 - i)) [0..<num - 1])"

definition write_dir :: "cursor \<Rightarrow> 'a os_scheme \<Rightarrow> ('a os_scheme, unit) outcome" where
  "write_dir c s = disk_write (READ_MAX_SEC (fat s)) (cu_sec c) (cu_buf c) s"

text \<open>Bytes stored at the start of the entries from the cursor on; a buffer is written when its last entry is done.\<close>

fun put_entries :: "u8 list list \<Rightarrow> cursor \<Rightarrow> 'a os_scheme \<Rightarrow> ('a os_scheme, cursor) outcome" where
  "put_entries [] c s = Ret s c"
| "put_entries (b # bs) c s =
    (let c = c\<lparr>cu_buf := put_bytes (cu_p c) b (cu_buf c)\<rparr>
     in obind (if cu_p c + sizeof_dentry = BUFSIZE (fat s) then write_dir c s else Ret s ()) (\<lambda>s _.
        obind (next_entry c s) (\<lambda>s c. put_entries bs c s)))"

text \<open>The first buffer of a new directory has the entries for itself and for its parent. The extension of the second is
  not filled with spaces.\<close>

definition first_block :: "type_t \<Rightarrow> u32 \<Rightarrow> u32 \<Rightarrow> u8 list" where
  "first_block type new_clus cur_clus =
    page_of (if type = FILE_DIR then
        dentry_bytes (dated ATTR_DIRECTORY new_clus (46 # replicate 7 32) (replicate 3 32))
        @ dentry_bytes (dated ATTR_DIRECTORY cur_clus (46 # 46 # replicate 6 32) (replicate 3 0))
      else [])"

text \<open>\<open>create_new\<close> for a name without the terminating zero. An extension of more than 24 bytes would be copied past the
  end of the entry.\<close>

definition create_new :: "nat \<Rightarrow> u8 list \<Rightarrow> u32 \<Rightarrow> type_t \<Rightarrow> 'a os_scheme \<Rightarrow> ('a os_scheme, dentry \<times> dir_pos) outcome" where
  "create_new n name cur_clus type s =
    obind (find_entry_entry n cur_clus (dentry_num name type) s) (\<lambda>s (p, sec).
    obind (kmalloc PAGE_SIZE s) (\<lambda>s temp.
    obind (find_entry_clus s) (\<lambda>s new_clus.
      let s = kfree temp s; e = new_dentry name type new_clus in
      if isfile name type \<and> length (ext_name name) > 24 then Panic s else
      obind (read_dir sec \<lparr>cu_p = 0, cu_buf = replicate 4096 0, cu_clus = clus_of_sec (fat s) sec, cu_sec = sec\<rparr> s) (\<lambda>s c.
      obind (put_entries (map long_bytes (long_entries name type (checksum e))) (c\<lparr>cu_p := p\<rparr>) s) (\<lambda>s c.
      obind (write_dir (c\<lparr>cu_buf := put_bytes (cu_p c) (dentry_bytes e) (cu_buf c)\<rparr>) s) (\<lambda>s _.
      obind (kmalloc PAGE_SIZE s) (\<lambda>s temp.
      obind (disk_write (READ_MAX_SEC (fat s)) (first_sec_of_clus (fat s) new_clus) (first_block type new_clus cur_clus) s) (\<lambda>s _.
      obind (write_fat_table_p 0 new_clus s) (\<lambda>s _. Ret (kfree temp s) (e, entry_pos c s))))))))))"

section \<open>Paths\<close>

record inode =
  first_clus :: u32
  clus_num :: u32
  sector_num :: u32
  inode_name :: "u8 list"

text \<open>\<open>ret_dir\<close> with its mark, and \<open>new_cwd\<close>.\<close>

definition no_dir :: inode where
  "no_dir = \<lparr>first_clus = 0, clus_num = 0, sector_num = 0, inode_name = [0xff]\<rparr>"

definition dir_inode :: "u32 \<Rightarrow> inode" where
  "dir_inode clus = \<lparr>first_clus = clus, clus_num = 0, sector_num = 0, inode_name = []\<rparr>"

text \<open>The copy of the path without a leading \<open>./\<close> and a leading slash.\<close>

definition strip_path :: "u8 list \<Rightarrow> u8 list" where
  "strip_path name =
    (let nm = map (byte_at name) [0..<FAT32_MAX_FILENAME];
         nm = (if byte_at nm 0 = 46 \<and> byte_at nm 1 = 47 then drop 2 nm else nm)
     in if byte_at nm 0 = 47 then drop 1 nm else nm)"

text \<open>\<open>find_dir\<close>: \<open>name\<close> is the memory at the pointer, with the string and what follows it; the slash is looked for in as
  many bytes as the whole string has. The branch for \<open>pos == len\<close> cannot be taken. Each step takes at least the slash
  away, so the length of the path bounds the depth \<open>k\<close>.\<close>

fun find_dir_loop :: "nat \<Rightarrow> nat \<Rightarrow> inode \<Rightarrow> u8 list \<Rightarrow> 'a os_scheme \<Rightarrow> ('a os_scheme, inode) outcome" where
  "find_dir_loop 0 n cur_cwd name s = Panic s"
| "find_dir_loop (Suc k) n cur_cwd name s =
    (let len = length (c_string name); nm = strip_path name in
     if length nm < len then Panic s
     else case first_index (\<lambda>c. c = 47) (take len nm) of
       None \<Rightarrow> Ret s (cur_cwd\<lparr>inode_name := c_string nm\<rparr>)
     | Some p \<Rightarrow>
         obind (kmalloc NORMAL_PAGE_SIZE s) (\<lambda>s buff.
         obind (search n (c_string (take p nm)) (first_clus cur_cwd) FILE_DIR s) (\<lambda>s r.
           let s = kfree buff s in
           case r of None \<Rightarrow> Ret s no_dir
           | Some (e, _) \<Rightarrow> find_dir_loop k n (dir_inode (get_cluster_from_dentry e)) (take (len - p - 1) (drop (p + 1) nm)) s)))"

definition find_dir :: "nat \<Rightarrow> inode \<Rightarrow> u8 list \<Rightarrow> 'a os_scheme \<Rightarrow> ('a os_scheme, inode) outcome" where
  "find_dir n cur_cwd name s = find_dir_loop (length (c_string name) + 1) n cur_cwd name s"

definition is_ab_path :: "u8 list \<Rightarrow> bool" where
  "is_ab_path path \<longleftrightarrow> byte_at path 0 = 47"

text \<open>\<open>root_clus_num\<close> is \<open>root.clus_num\<close>.\<close>

definition pre_path :: "u32 \<Rightarrow> u8 list \<Rightarrow> u32 \<Rightarrow> u8 list" where
  "pre_path root_clus_num path dir_clus =
    (if byte_at path 0 = 47 then drop 1 path
     else if dir_clus = root_clus_num \<and> byte_at path 0 = 46 then
       if byte_at path 1 = 0 then drop 1 path else drop 2 path
     else path)"

text \<open>\<open>get_next_name\<close> cuts a string at its first slash: the name, and what follows if there was a slash.\<close>

definition get_next_name :: "u8 list \<Rightarrow> u8 list \<times> u8 list option" where
  "get_next_name name =
    (takeWhile (\<lambda>c. c \<noteq> 47) name, if 47 \<in> set name then Some (tl (dropWhile (\<lambda>c. c \<noteq> 47) name)) else None)"

abbreviation (input) S_IFDIR :: u32 where "S_IFDIR \<equiv> 0x4000"
abbreviation (input) S_IFCHR :: u32 where "S_IFCHR \<equiv> 0x2000"
abbreviation (input) S_IFREG :: u32 where "S_IFREG \<equiv> 0x8000"

text \<open>The name of a descriptor has 50 bytes; a longer one would overwrite the members after it.\<close>

definition set_fd_from_dentry :: "nat \<Rightarrow> nat \<Rightarrow> u8 list \<Rightarrow> dentry \<Rightarrow> dir_pos \<Rightarrow> 'a os_scheme \<Rightarrow> ('a os_scheme, unit) outcome" where
  "set_fd_from_dentry t i name p dpos s =
    (if fd_used (fd_at s t i) = 0 \<or> 50 \<le> length name then Panic s
     else Ret (upd_fd t i (\<lambda>f. f\<lparr>dev := DEV_DEFAULT, first_clus_num := get_cluster_from_dentry p,
         fd_flags := fd_flags f OR (if arributes p AND ATTR_DIRECTORY \<noteq> 0 then S_IFDIR else S_IFREG),
         fd_length := get_length_from_dentry p, pos := 0,
         cur_sec := first_sec_of_clus (fat s) (get_cluster_from_dentry p), cur_clus_num := get_cluster_from_dentry p,
         nlink := 1, fd_name := name, fd_dir_pos := dpos\<rparr>) s) ())"

section \<open>Long names\<close>

lemma char2unicode_inverse:
  assumes "char2unicode c \<noteq> 0"
  shows "unicode2char (char2unicode c) = c" and "char2unicode c \<noteq> 0xffff" and "c \<noteq> 0"
proof -
  have u: "unat (ucast c :: u16) = unat c" and lt: "unat c < 256"
    using unsigned_less [of c, where 'a = nat] by (simp_all add: unsigned_ucast_eq take_bit_nat_eq_self)
  have down: "(ucast (ucast c :: u16) :: u8) = c"
    by (rule bit_word_eqI) (simp add: bit_simps)
  have e: "char2unicode c = ucast c"
    and r: "65 \<le> c \<and> c \<le> 90 \<or> 97 \<le> c \<and> c \<le> 122 \<or> 48 \<le> c \<and> c \<le> 57 \<or> c = 95 \<or> c = 46 \<or> c = 32 \<or> c = 45"
    using assms by (auto simp: char2unicode_def split: if_splits)
  show "unicode2char (char2unicode c) = c"
    unfolding e using r by (elim disjE) (simp_all add: unicode2char_def word_le_nat_alt u down)
  have "unat (char2unicode c) \<noteq> unat (0xffff :: u16)"
    using lt by (simp add: e u)
  then show "char2unicode c \<noteq> 0xffff" by metis
  show "c \<noteq> 0"
    using r by auto
qed

lemma put_units_long:
  assumes "\<forall>c \<in> set name. char2unicode c \<noteq> 0" and "length name < length fn" and "fn ! length name = 0"
    and "x \<le> y" and "b + y \<le> length fn"
  shows "\<exists>fn'. put_units (map (\<lambda>j. long_unit name (b + j)) [x..<y]) (min (b + x) (length name)) fn = (min (b + y) (length name), fn')
    \<and> length fn' = length fn \<and> (\<forall>j < length fn. fn' ! j = (if b + x \<le> j \<and> j < b + y \<and> j < length name then name ! j else fn ! j))"
  using assms(2-5)
proof (induction "y - x" arbitrary: x fn)
  case 0
  then show ?case by auto
next
  case (Suc n)
  then have xy: "x < y" "n = y - Suc x" by simp_all
  show ?case
  proof (cases "b + x < length name")
    case True
    let ?fn = "fn[b + x := name ! (b + x)]"
    have c: "char2unicode (name ! (b + x)) \<noteq> 0"
      using True assms(1) by simp
    have u: "long_unit name (b + x) \<noteq> 0" "long_unit name (b + x) \<noteq> 0xffff" "unicode2char (long_unit name (b + x)) = name ! (b + x)"
      using True char2unicode_inverse [OF c] c by (simp_all add: long_unit_def)
    have "put_units (map (\<lambda>j. long_unit name (b + j)) [x..<y]) (min (b + x) (length name)) fn
        = put_units (map (\<lambda>j. long_unit name (b + j)) [Suc x..<y]) (min (b + Suc x) (length name)) ?fn"
      using True u by (simp add: upt_conv_Cons [OF xy(1)])
    with Suc.hyps(1) [OF xy(2), of ?fn] Suc.prems True xy(1) show ?thesis
      by (auto simp: nth_list_update not_less_eq_eq dest: le_antisym)
  next
    case False
    then have "long_unit name (b + x) = 0 \<or> long_unit name (b + x) = 0xffff"
      by (simp add: long_unit_def)
    moreover have "fn[length name := 0] = fn"
      using Suc.prems by (metis list_update_id)
    ultimately show ?thesis
      using False xy(1) by (auto simp: upt_conv_Cons [OF xy(1)] min_def)
  qed
qed

lemma long_part_entry:
  assumes "\<forall>c \<in> set name. char2unicode c \<noteq> 0" and "length name < length fn" and "fn ! length name = 0"
    and "13 * i \<le> length name" and "13 * i + 13 \<le> length fn"
  shows "length (long_part (long_entry name num sm i) i fn) = length fn
    \<and> (\<forall>j < length fn. long_part (long_entry name num sm i) i fn ! j = (if 13 * i \<le> j \<and> j < 13 * i + 13 \<and> j < length name then name ! j else fn ! j))"
proof -
  let ?p = "\<lambda>x y. put_units (map (\<lambda>j. long_unit name (13 * i + j)) [x..<y])" and ?m = "\<lambda>x. min (13 * i + x) (length name)"
  note step = put_units_long [OF assms(1), where b = "13 * i"]
  obtain f1 where f1: "?p 0 5 (i * 13) fn = (?m 5, f1)" "length f1 = length fn"
      "\<forall>j < length fn. f1 ! j = (if 13 * i + 0 \<le> j \<and> j < 13 * i + 5 \<and> j < length name then name ! j else fn ! j)"
    using step [of fn 0 5] assms(2-5) by (auto simp: mult.commute [of i])
  obtain f2 where f2: "?p 5 11 (?m 5) f1 = (?m 11, f2)" "length f2 = length fn"
      "\<forall>j < length fn. f2 ! j = (if 13 * i + 5 \<le> j \<and> j < 13 * i + 11 \<and> j < length name then name ! j else f1 ! j)"
    using step [of f1 5 11] f1 assms(2-5) by auto
  obtain f3 where f3: "?p 11 13 (?m 11) f2 = (?m 13, f3)" "length f3 = length fn"
      "\<forall>j < length fn. f3 ! j = (if 13 * i + 11 \<le> j \<and> j < 13 * i + 13 \<and> j < length name then name ! j else f2 ! j)"
    using step [of f2 11 13] f1 f2 assms(2-5) by auto
  have "long_part (long_entry name num sm i) i fn = f3"
    unfolding long_part_def long_entry_def by (simp add: f1(1) f2(1) f3(1) del: upt_rec_numeral)
  then show ?thesis
    using f1 f2 f3 by auto
qed

lemma le16_bytes16:
  assumes "byte_at d i = ucast w" and "byte_at d (i + 1) = ucast (drop_bit 8 w)"
  shows "le16 d i = w"
proof (rule bit_word_eqI)
  fix n assume "n < LENGTH(16)"
  then have "n < 8 \<or> (8 \<le> n \<and> n < 16)" by auto
  then show "bit (le16 d i) n = bit w n"
    unfolding le16_def assms by (auto simp: bit_simps)
qed

lemma long_at_bytes:
  assumes b: "\<And>k. k < 32 \<Longrightarrow> byte_at d (p + k) = long_bytes e ! k"
    and l: "length (name1 e) = 5" "length (name2 e) = 6" "length (name3 e) = 2"
  shows "long_at d p = e"
proof -
  obtain a0 a1 a2 a3 a4 where n1: "name1 e = [a0, a1, a2, a3, a4]"
    using l(1) by (auto simp: numeral_eq_Suc length_Suc_conv)
  obtain b0 b1 b2 b3 b4 b5 where n2: "name2 e = [b0, b1, b2, b3, b4, b5]"
    using l(2) by (auto simp: numeral_eq_Suc length_Suc_conv)
  obtain c0 c1 where n3: "name3 e = [c0, c1]"
    using l(3) by (auto simp: numeral_eq_Suc length_Suc_conv)
  have le16: "le16 d (p + k) = w" if "k + 1 < 32" "long_bytes e ! k = ucast w" "long_bytes e ! (k + 1) = ucast (drop_bit 8 w)" for k w
    using that b [of k] b [of "k + 1"] by (intro le16_bytes16) (simp_all add: add.assoc)
  have w: "le16 d (p + 1) = a0" "le16 d (p + 3) = a1" "le16 d (p + 5) = a2" "le16 d (p + 7) = a3" "le16 d (p + 9) = a4"
    "le16 d (p + 14) = b0" "le16 d (p + 16) = b1" "le16 d (p + 18) = b2" "le16 d (p + 20) = b3" "le16 d (p + 22) = b4"
    "le16 d (p + 24) = b5" "le16 d (p + 26) = ln_start_clus e" "le16 d (p + 28) = c0" "le16 d (p + 30) = c1"
    by (rule le16; simp add: long_bytes_def n1 n2 n3 bytes16_def)+
  have s: "byte_at d p = ln_seq e" "byte_at d (p + 11) = ln_attributes e" "byte_at d (p + 12) = reserved e" "byte_at d (p + 13) = ln_checksum e"
    using b [of 0] b [of 11] b [of 12] b [of 13] by (simp_all add: long_bytes_def n1 bytes16_def)
  show ?thesis
    by (cases e) (use w s n1 n2 n3 in \<open>simp add: long_at_def upt_rec eval_nat_numeral\<close>)
qed

lemma length_long_bytes:
  "length (name1 e) = 5 \<Longrightarrow> length (name2 e) = 6 \<Longrightarrow> length (name3 e) = 2 \<Longrightarrow> length (long_bytes e) = 32"
  by (simp add: long_bytes_def bytes16_def length_concat comp_def sum_list_triv)

lemma nth_concat_entries:
  "\<forall>b \<in> set bs. length b = 32 \<Longrightarrow> i < length bs \<Longrightarrow> k < 32 \<Longrightarrow> concat bs ! (32 * i + k) = bs ! i ! k"
  by (induction bs arbitrary: i) (auto simp: nth_append nth_Cons' less_Suc_eq_0_disj)

lemma put_entries_in_buffer:
  assumes "\<forall>b \<in> set bs. length b = 32" and "cu_p c + 32 * length bs < BUFSIZE (fat s)" and "BUFSIZE (fat s) \<le> length (cu_buf c)"
  shows "put_entries bs c s = Ret s (c\<lparr>cu_p := cu_p c + 32 * length bs, cu_buf := put_bytes (cu_p c) (concat bs) (cu_buf c)\<rparr>)"
  using assms
proof (induction bs arbitrary: c)
  case Nil
  then show ?case by (simp add: put_bytes_def)
next
  case (Cons b bs)
  let ?c = "c\<lparr>cu_buf := put_bytes (cu_p c) b (cu_buf c), cu_p := cu_p c + 32\<rparr>"
  have "put_bytes (cu_p c + 32) (concat bs) (put_bytes (cu_p c) b (cu_buf c)) = put_bytes (cu_p c) (b @ concat bs) (cu_buf c)"
    using Cons.prems by (simp add: put_bytes_def min_def ac_simps)
  moreover have "length (cu_buf ?c) = length (cu_buf c)"
    using Cons.prems by (simp add: put_bytes_def min_def)
  ultimately show ?case
    using Cons.prems Cons.IH [of ?c] by (simp add: next_entry_def Let_def add.assoc)
qed

lemma long_name_reads:
  assumes "\<forall>c \<in> set name. char2unicode c \<noteq> 0" and "length name < length fn" and "fn ! length name = 0"
    and "n \<le> length name div 13 + 1" and "13 * n \<le> length fn" and "cu_p c + 32 * n < BUFSIZE (fat s)"
    and "\<And>i. i < n \<Longrightarrow> long_at (cu_buf c) (cu_p c + 32 * i) = long_entry name num sm (n - 1 - i)"
  shows "\<exists>fn'. long_name n c fn s = Ret s (c\<lparr>cu_p := cu_p c + 32 * n\<rparr>, fn') \<and> length fn' = length fn
    \<and> (\<forall>j < length fn. fn' ! j = (if j < 13 * n \<and> j < length name then name ! j else fn ! j))"
  using assms(2-7)
proof (induction n arbitrary: c fn)
  case 0
  then show ?case by simp
next
  case (Suc n)
  let ?fn = "long_part (long_entry name num sm n) n fn" and ?c = "c\<lparr>cu_p := cu_p c + 32\<rparr>"
  have e: "long_at (cu_buf c) (cu_p c) = long_entry name num sm n"
    using Suc.prems(6) [of 0] by simp
  have "13 * n \<le> length name"
    using Suc.prems(3) by simp
  from long_part_entry [OF assms(1) Suc.prems(1,2) this] Suc.prems(4)
  have fn: "length ?fn = length fn"
      "\<forall>j < length fn. ?fn ! j = (if 13 * n \<le> j \<and> j < 13 * n + 13 \<and> j < length name then name ! j else fn ! j)"
    by auto
  have "long_at (cu_buf ?c) (cu_p ?c + 32 * i) = long_entry name num sm (n - 1 - i)" if "i < n" for i
    using that Suc.prems(6) [of "Suc i"] by (simp add: add.assoc)
  with Suc.IH [of ?fn ?c] Suc.prems fn obtain fn' where f: "long_name n ?c ?fn s = Ret s (?c\<lparr>cu_p := cu_p ?c + 32 * n\<rparr>, fn')"
      "length fn' = length fn" "\<forall>j < length fn. fn' ! j = (if j < 13 * n \<and> j < length name then name ! j else ?fn ! j)"
    by auto
  have "long_name (Suc n) c fn s = Ret s (c\<lparr>cu_p := cu_p c + 32 * Suc n\<rparr>, fn')"
    using f(1) e Suc.prems(5) by (simp add: next_entry_def Let_def add.assoc)
  with f(2,3) fn(2) show ?case by (auto simp: not_less)
qed

lemma last_long_seq: "k < 16 \<Longrightarrow> unat ((LAST_LONG_ENTRY OR of_nat k) AND LONG_ENTRY_SEQ) = k"
proof -
  have "\<forall>k<16. unat ((LAST_LONG_ENTRY OR of_nat k) AND LONG_ENTRY_SEQ) = k"
    by code_simp
  then show "k < 16 \<Longrightarrow> unat ((LAST_LONG_ENTRY OR of_nat k) AND LONG_ENTRY_SEQ) = k" by blast
qed

lemma long_entry_simps [simp]:
  "length (name1 (long_entry name num sm i)) = 5" "length (name2 (long_entry name num sm i)) = 6"
  "length (name3 (long_entry name num sm i)) = 2" "ln_attributes (long_entry name num sm i) = ATTR_LONG_NAME"
  by (simp_all add: long_entry_def)

lemma written_entries:
  assumes "cu_p c + 32 * length es < length (cu_buf c)" and "\<forall>e \<in> set es. length (name1 e) = 5 \<and> length (name2 e) = 6 \<and> length (name3 e) = 2"
    and "i < length es"
  shows "long_at (put_bytes (cu_p c) (concat (map long_bytes es)) (cu_buf c)) (cu_p c + 32 * i) = es ! i"
proof (rule long_at_bytes)
  fix k :: nat assume k: "k < 32"
  have l: "\<forall>b \<in> set (map long_bytes es). length b = 32"
    using assms(2) by (auto simp: length_long_bytes)
  have len: "length (concat (map long_bytes es)) = 32 * length es"
    using l by (induction es) auto
  have "32 * i + k < 32 * length es"
    using assms(3) k by linarith
  then show "byte_at (put_bytes (cu_p c) (concat (map long_bytes es)) (cu_buf c)) (cu_p c + 32 * i + k) = long_bytes (es ! i) ! k"
    using assms(1,3) k nth_concat_entries [OF l, of i k]
    by (subst byte_at_put) (simp_all add: len add.assoc, simp add: byte_at_def len)
qed (use assms(2,3) in auto)

section \<open>Properties\<close>

text \<open>C12: A long name written by \<open>create_new\<close> is read back by the searches: the long entries of a name of letters, digits,
  \<open>_\<close>, \<open>.\<close>, \<open>-\<close> and spaces with at most 194 characters, stored one after the other in the buffer of a directory with the last
  part first, are found as a long name with as many entries, their three fields each are put together to exactly the
  name, and the cursor ends at the entry behind them.\<close>

theorem long_name_round_trip:
  assumes "\<forall>ch \<in> set name. char2unicode ch \<noteq> 0" and "8 < length (base_name name type)" and "length name < 195"
    and "cu_p c + 32 * dentry_num name type \<le> BUFSIZE (fat s)" and "BUFSIZE (fat s) \<le> length (cu_buf c)"
  shows "\<exists>c'. put_entries (map long_bytes (long_entries name type sm)) c s = Ret s c' \<and> cu_p c' = cu_p c + 32 * (dentry_num name type - 1)
    \<and> entry_name short (c'\<lparr>cu_p := cu_p c\<rparr>) s = Ret s (c', name)"
proof -
  let ?n = "length name div 13 + 1" and ?num = "dentry_num name type" and ?es = "long_entries name type sm"
  have num: "?num = ?n + 1"
    using assms(2) by (simp add: dentry_num_def)
  have es: "length ?es = ?n" "\<And>i. i < ?n \<Longrightarrow> ?es ! i = long_entry name ?num sm (?n - 1 - i)"
    and ok: "\<forall>e \<in> set ?es. length (name1 e) = 5 \<and> length (name2 e) = 6 \<and> length (name3 e) = 2"
    by (auto simp: long_entries_def num Let_def simp del: upt_Suc)
  define c' where "c' = c\<lparr>cu_p := cu_p c + 32 * ?n, cu_buf := put_bytes (cu_p c) (concat (map long_bytes ?es)) (cu_buf c)\<rparr>"
  let ?c = "c'\<lparr>cu_p := cu_p c\<rparr>" and ?fn = "replicate FAT32_MAX_FILENAME 0 :: u8 list"
  have put: "put_entries (map long_bytes ?es) c s = Ret s c'"
    using put_entries_in_buffer [of "map long_bytes ?es" c s] assms(4,5) ok es(1) num by (auto simp: c'_def length_long_bytes)
  have at: "long_at (cu_buf ?c) (cu_p ?c + 32 * i) = long_entry name ?num sm (?n - 1 - i)" if "i < ?n" for i
    using written_entries [of c ?es i] that assms(4,5) ok es num by (simp add: c'_def)
  have "ln_seq (long_entry name ?num sm (?n - 1)) = LAST_LONG_ENTRY OR of_nat ?n"
    by (simp add: long_entry_def num)
  then have long: "is_long ?c" "long_num ?c = ?n"
    using at [of 0] last_long_seq [of ?n] assms(3) by (simp_all add: is_long_def long_num_def Let_def)
  have "\<exists>fn'. long_name ?n ?c ?fn s = Ret s (?c\<lparr>cu_p := cu_p ?c + 32 * ?n\<rparr>, fn') \<and> length fn' = length ?fn
    \<and> (\<forall>j < length ?fn. fn' ! j = (if j < 13 * ?n \<and> j < length name then name ! j else ?fn ! j))"
    by (rule long_name_reads [OF assms(1) _ _ _ _ _ at]) (use assms(3,4) num in auto)
  then obtain fn' where f: "long_name ?n ?c ?fn s = Ret s (?c\<lparr>cu_p := cu_p ?c + 32 * ?n\<rparr>, fn')" "length fn' = length ?fn"
      "\<forall>j < length ?fn. fn' ! j = (if j < 13 * ?n \<and> j < length name then name ! j else ?fn ! j)"
    by blast
  have "?c\<lparr>cu_p := cu_p ?c + 32 * ?n\<rparr> = c'"
    by (simp add: c'_def)
  note r = f(1) [unfolded this] f(2)
  have "length name < 13 * ?n" by simp
  then have r3: "\<forall>j < length ?fn. fn' ! j = (if j < length name then name ! j else ?fn ! j)"
    using f(3) by auto
  have "fn' = name @ replicate (256 - length name) 0"
    using r(2) r3 assms(3) by (intro nth_equalityI) (auto simp: nth_append)
  moreover have "\<forall>ch \<in> set name. ch \<noteq> 0"
    using assms(1) char2unicode_inverse(3) by blast
  ultimately have "c_string fn' = name"
    by (simp add: c_string_def takeWhile_append2)
  then have "entry_name short ?c s = Ret s (c', name)"
    using r(1) long by (simp add: entry_name_def)
  with put num show ?thesis
    by (auto simp: c'_def)
qed

theorem long_name_round_trip_witness:
  "\<exists>c'. put_entries (map long_bytes (long_entries [108, 111, 110, 103, 102, 105, 108, 101, 110, 97, 109, 101, 95, 49, 46, 116, 120, 116] FILE_FILE 7))
      \<lparr>cu_p = 64, cu_buf = replicate 4096 0, cu_clus = 2, cu_sec = 2080\<rparr> demo_os = Ret demo_os c' \<and> cu_p c' = 128
    \<and> entry_name short_name (c'\<lparr>cu_p := 64\<rparr>) demo_os
      = Ret demo_os (c', [108, 111, 110, 103, 102, 105, 108, 101, 110, 97, 109, 101, 95, 49, 46, 116, 120, 116])"
proof -
  let ?name = "[108, 111, 110, 103, 102, 105, 108, 101, 110, 97, 109, 101, 95, 49, 46, 116, 120, 116] :: u8 list"
  let ?c = "\<lparr>cu_p = 64, cu_buf = replicate 4096 0, cu_clus = 2, cu_sec = 2080\<rparr>"
  have chars: "\<forall>ch \<in> set ?name. char2unicode ch \<noteq> 0"
    by (simp add: char2unicode_def)
  have base: "base_name ?name FILE_FILE = [108, 111, 110, 103, 102, 105, 108, 101, 110, 97, 109, 101, 95, 49]"
    by (simp add: base_name_def isfile_def)
  then have num: "dentry_num ?name FILE_FILE = 3"
    by (simp add: dentry_num_def)
  have buf: "BUFSIZE (fat demo_os) = 4096"
    by (simp add: BUFSIZE_def demo_os_simps demo_fat_def)
  show ?thesis
    using long_name_round_trip [OF chars, of FILE_FILE ?c demo_os 7 short_name] by (simp add: base num buf)
qed

text \<open>A name of 195 characters has sixteen long entries, and the number of the last one is masked to 0: it is read as the
  empty name.\<close>

lemma long_name_195_lost:
  assumes "length name = 195" and "8 < length (base_name name type)"
    and "long_at (cu_buf c) (cu_p c) = hd (long_entries name type sm)"
  shows "entry_name short c s = Ret s (c, [])"
proof -
  have "dentry_num name type = 17"
    using assms(1,2) by (simp add: dentry_num_def)
  then have "hd (long_entries name type sm) = long_entry name 17 sm 15"
    by (simp add: long_entries_def Let_def upt_conv_Cons)
  then have "ln_seq (long_at (cu_buf c) (cu_p c)) = 0x50" "ln_attributes (long_at (cu_buf c) (cu_p c)) = ATTR_LONG_NAME"
    by (simp_all add: assms(3) long_entry_def)
  then show ?thesis
    by (simp add: entry_name_def is_long_def long_num_def Let_def c_string_def)
qed

end
