(* ===== verification/FatFile.thy ===== *)
theory FatFile
  imports FatDir SpecialCtx Socket
begin

text \<open>
  Files (\<open>kernel/fat32/fat32.c\<close>): opening, closing, reading, writing and seeking, with the files of the kernel itself and
  the devices (\<open>kernel/utils/utils.c\<close>). The bytes a read stores at its destination are part of its result; the bytes at
  the source of a write are an argument. A path is the C string without its zero. The argument \<open>n\<close> bounds the loops over
  the entries of a directory.
\<close>

section \<open>State\<close>

text \<open>The files the build puts into the kernel: a name and a content each.\<close>

record elf_file =
  file_name :: "u8 list"
  file_content :: "u8 list"

record fsos = os +
  cwd :: inode
  root :: inode
  cwd_path :: "u8 list"
  elf_files :: "elf_file list"
  mount_clus :: u32
  mountpoint :: "u8 list"

abbreviation (input) AT_FDCWD :: u32 where "AT_FDCWD \<equiv> -100"
abbreviation (input) O_WRONLY :: u32 where "O_WRONLY \<equiv> 1"
abbreviation (input) O_CREATE :: u32 where "O_CREATE \<equiv> 0x40"
abbreviation (input) O_DIRECTORY :: u32 where "O_DIRECTORY \<equiv> 0x200000"
abbreviation (input) SEEK_END :: u32 where "SEEK_END \<equiv> 2"

text \<open>The bytes of a string constant.\<close>

definition ascii :: "string \<Rightarrow> u8 list" where
  "ascii cs = map of_char cs"

definition get_file_from_kernel :: "u8 list \<Rightarrow> 'a fsos_scheme \<Rightarrow> nat option" where
  "get_file_from_kernel elf_name s = first_index (\<lambda>f. elf_name = file_name f) (elf_files s)"

definition cur_table :: "'a kernel_scheme \<Rightarrow> nat" where
  "cur_table s = pfd (cur_pcb s)"

section \<open>Devices and files of the kernel\<close>

definition kernel_file :: "u8 list \<Rightarrow> bool" where
  "kernel_file path \<longleftrightarrow> path \<in> set (map ascii [''/etc/passwd'', ''/etc/localtime'', ''/etc/adjtime'', ''/etc/group'',
     ''/proc/mounts'', ''/proc/meminfo'', ''/ls''])"

definition chr_dev :: "u8 \<Rightarrow> fd \<Rightarrow> fd" where
  "chr_dev d f = f\<lparr>dev := d, fd_flags := fd_flags f OR S_IFCHR, nlink := 1\<rparr>"

text \<open>For \<open>/dev/tty\<close> the device is compared and not set.\<close>

definition open_special_path :: "nat \<Rightarrow> nat \<Rightarrow> u8 list \<Rightarrow> 'a fsos_scheme \<Rightarrow> ('a fsos_scheme, bool) outcome" where
  "open_special_path t i path s =
    (if path = ascii ''/dev/null'' \<or> path = ascii ''/dev/null/invalid'' then Ret (upd_fd t i (chr_dev DEV_NULL) s) True
     else if path = ascii ''/dev/zero'' then Ret (upd_fd t i (chr_dev DEV_ZERO) s) True
     else if kernel_file path then
       (case get_file_from_kernel path s of
          None \<Rightarrow> Panic s
        | Some k \<Rightarrow>
            Ret (upd_fd t i (\<lambda>f. f\<lparr>fd_name := path, fd_length := of_nat (length (file_content (elf_files s ! k))), pos := 0,
              nlink := 1, fd_flags := fd_flags f OR (if path = ascii ''/etc/passwd'' then S_IFCHR else S_IFREG)\<rparr>) s) True)
     else if path = ascii ''/dev/tty'' then Ret (upd_fd t i (\<lambda>f. f\<lparr>fd_name := path\<rparr>) s) True
     else Ret s False)"

text \<open>The bytes after a read from a file of the kernel: the rest of the count is cleared, and the end of the file is
  marked by \<open>-1\<close> after the bytes read.\<close>

definition with_eof :: "bool \<Rightarrow> u8 list \<Rightarrow> nat \<Rightarrow> u8 list" where
  "with_eof eof d cnt = d @ (if eof then 0xff # replicate (cnt - length d - 1) 0 else replicate (cnt - length d) 0)"

definition read_special_path :: "'a fsos_scheme lseek_fun \<Rightarrow> 'a fsos_scheme read_fun \<Rightarrow> nat \<Rightarrow> nat \<Rightarrow> ptr \<Rightarrow> u64 \<Rightarrow> 'a fsos_scheme \<Rightarrow>
    ('a fsos_scheme, int \<times> u8 list) outcome" where
  "read_special_path lseek rd t i buf cnt s =
    (let f = fd_at s t i in
     if dev f = DEV_STDIN \<or> dev f = DEV_STDOUT \<or> dev f = DEV_STDERR then
       read_std lseek rd (dev f) buf cnt s
     else if dev f = DEV_NULL then Ret s (0, [])
     else if dev f = DEV_ZERO then Ret s (sint (ucast cnt :: i32), replicate (unat cnt) 0)
     else if dev f = DEV_PIPE then pipe_read lseek rd buf (unat (pip_num f)) cnt s
     else if kernel_file (fd_name f) then
       (case get_file_from_kernel (fd_name f) s of
          None \<Rightarrow> Panic s
        | Some k \<Rightarrow>
            if pos f \<ge> ucast (fd_length f) then Ret s (0, [0xff])
            else
              let copy_len = (if cnt > ucast (fd_length f) - pos f then ucast (fd_length f) - pos f else cnt);
                  d = take (unat copy_len) (drop (unat (pos f)) (file_content (elf_files s ! k)))
              in Ret (upd_fd t i (\<lambda>f. f\<lparr>pos := pos f + copy_len\<rparr>) s)
                   (sint (ucast copy_len :: i32), with_eof (pos f + copy_len \<ge> ucast (fd_length f)) d (unat cnt)))
     else Ret s (-1, []))"

definition put_content :: "nat \<Rightarrow> nat \<Rightarrow> u8 list \<Rightarrow> 'a fsos_scheme \<Rightarrow> 'a fsos_scheme" where
  "put_content k off d s = s\<lparr>elf_files := (elf_files s)[k := (elf_files s ! k)
     \<lparr>file_content := put_bytes off d (file_content (elf_files s ! k))\<rparr>]\<rparr>"

text \<open>\<open>screen_stdout\<close> and \<open>screen_stderror\<close> print and return the count. At the end of a file of the kernel a byte \<open>-1\<close> is
  stored in the buffer of the caller; the result has the buffer.\<close>

definition write_special_path :: "nat \<Rightarrow> nat \<Rightarrow> u8 list \<Rightarrow> u64 \<Rightarrow> 'a fsos_scheme \<Rightarrow> ('a fsos_scheme, int \<times> u8 list) outcome" where
  "write_special_path t i d cnt s =
    (let f = fd_at s t i; plain = (\<lambda>r. obind r (\<lambda>s v. Ret s (v, d))); whole = sint (ucast cnt :: i32) in
     if dev f = DEV_STDIN then plain (write_std DEV_STDIN d cnt s)
     else if dev f = DEV_STDOUT then Ret s (whole, d)
     else if dev f = DEV_STDERR then Ret s (if string_of d = echo_error then int (length echo_error) else whole, d)
     else if dev f = DEV_NULL then Ret s (whole, d)
     else if dev f = DEV_ZERO then Ret s (0, d)
     else if dev f = DEV_PIPE then plain (pipe_write d (unat (pip_num f)) cnt s)
     else if kernel_file (fd_name f) then
       (case get_file_from_kernel (fd_name f) s of
          None \<Rightarrow> Panic s
        | Some k \<Rightarrow>
            if pos f \<ge> ucast (fd_length f) \<and> cnt \<noteq> 0 then Panic s
            else
              let write_len = (if cnt > ucast (fd_length f) - pos f then ucast (fd_length f) - pos f else cnt);
                  s = put_content k (unat (pos f)) (take (unat write_len) d) s;
                  s = upd_fd t i (\<lambda>f. f\<lparr>pos := pos f + write_len\<rparr>) s
              in Ret s (sint (ucast write_len :: i32),
                   if pos f + write_len \<ge> ucast (fd_length f) then put_bytes (unat write_len) [0xff] d else d))
     else Ret s (-1, d))"

section \<open>Closing\<close>

text \<open>The descriptors that are redirected to the one that is closed become copies of it.\<close>

definition copy_redirected :: "nat \<Rightarrow> nat \<Rightarrow> nat \<Rightarrow> 'a os_scheme \<Rightarrow> 'a os_scheme" where
  "copy_redirected t k i s =
    (let f = fd_at s t i in
     if fd_used f \<noteq> 0 \<and> redirected f \<noteq> 0 \<and> unat (redirected_fd_index f) = k
     then upd_fd t i (\<lambda>g. g\<lparr>fd_num := fd_num f\<rparr>) (copy_fd t i t k s) else s)"

definition close_ctx :: "u32 \<Rightarrow> 'a os_scheme \<Rightarrow> ('a os_scheme, int) outcome" where
  "close_ctx n s =
    (let a = ctx_pipe_array (cur_pcb s); c = ctx_pipes s a (unat n); p = unat (cpt_fd_num c) in
     if cpt_dev c \<noteq> DEV_PIPE then if cpt_fd_num c < 3 then Ret s 0 else Panic s
     else
       let s = (if pipe_type c = PIPE_READ then fst (close_pipe_read p s)
                else if pipe_type c = PIPE_WRITE then fst (close_pipe_write p s) else s)
       in Ret (upd_cpt a (unat n) (\<lambda>c. c\<lparr>cpt_used := FD_UNUSED, cpt_dev := DEV_DEFAULT, pipe_type := 0\<rparr>) s) 0)"

definition fat32_close :: "u32 \<Rightarrow> 'a os_scheme \<Rightarrow> ('a os_scheme, int) outcome" where
  "fat32_close n s =
    (let cur = get_current_running s; t = cur_table s in
     if status_ctx s \<noteq> 0 then close_ctx n s
     else case get_fd_index_without_redirect n cur s of
       None \<Rightarrow> Ret s (- EBADF)
     | Some k \<Rightarrow>
         if mmap_used (fd_mmap (fd_at s t k)) \<noteq> 0 then Ret (upd_fd t k (\<lambda>f. f\<lparr>fd_used := 2\<rparr>) s) 0
         else
           let s = fold (copy_redirected t k) [0..<MAX_FILE_NUM s] s; f = fd_at s t k
           in obind (if dev f = DEV_SOCK then close_socket (unat (sock_num f)) s else Ret (close_fd_pipe f s) 0) (\<lambda>s _.
              Ret (upd_fd t k (\<lambda>f. f\<lparr>pos := 0, fd_length := 0, fd_used := FD_UNUSED, dev := DEV_DEFAULT, fd_flags := 0,
                fd_mode := 0, redirected := 0, fd_mmap := (fd_mmap f)\<lparr>mmap_used := 0\<rparr>\<rparr>) s) 0))"

section \<open>Reading\<close>

text \<open>The faults on the pages of a buffer.\<close>

fun fault_pages :: "'a fsos_scheme lseek_fun \<Rightarrow> 'a fsos_scheme read_fun \<Rightarrow> u64 list \<Rightarrow> 'a fsos_scheme \<Rightarrow> ('a fsos_scheme, unit) outcome" where
  "fault_pages lseek rd [] s = Ret s ()"
| "fault_pages lseek rd (a # as) s = obind (handle_page_fault_store lseek rd a s) (\<lambda>s _. fault_pages lseek rd as s)"

text \<open>The step of the position after a transfer of \<open>k\<close> bytes. \<open>old_clus\<close> and \<open>old_sec\<close> are those from before the loop:
  the assignments at the end of its body are to new variables of the same names.\<close>

definition advance :: "(u32 \<Rightarrow> 'a os_scheme \<Rightarrow> ('a os_scheme, u32) outcome) \<Rightarrow> u32 \<Rightarrow> u32 \<Rightarrow> nat \<Rightarrow> nat \<Rightarrow> u64 \<Rightarrow> 'a os_scheme \<Rightarrow>
    ('a os_scheme, unit) outcome" where
  "advance nxt_clus old_clus old_sec t i k s =
    (let s = upd_fd t i (\<lambda>f. f\<lparr>pos := pos f + k\<rparr>) s; p = pos (fd_at s t i);
         new_clus = ucast (p div ucast (CLUSTER_SIZE (fat s))) :: u32;
         new_sec = ucast (p div ucast (SECTOR_SIZE (fat s))) :: u32
     in if new_clus - old_clus \<noteq> 0 then
          obind (nxt_clus (cur_clus_num (fd_at s t i)) s) (\<lambda>s c.
            Ret (upd_fd t i (\<lambda>f. f\<lparr>cur_clus_num := c, cur_sec := first_sec_of_clus (fat s) c
              + ucast (p mod ucast (CLUSTER_SIZE (fat s)) div ucast (SECTOR_SIZE (fat s)))\<rparr>) s) ())
        else Ret (upd_fd t i (\<lambda>f. f\<lparr>cur_sec := cur_sec f + (new_sec - old_sec)\<rparr>) s) ())"

text \<open>The loop of \<open>fat32_read\<close> with the functions that read sectors and follow a chain; \<open>left\<close> is \<open>real_count - ncount\<close>.
  When a round reads nothing the loop does not end.\<close>

fun read_loop :: "(nat \<Rightarrow> u32 \<Rightarrow> 'a os_scheme \<Rightarrow> ('a os_scheme, u8 list) outcome) \<Rightarrow> (u32 \<Rightarrow> 'a os_scheme \<Rightarrow> ('a os_scheme, u32) outcome) \<Rightarrow>
    nat \<Rightarrow> u32 \<Rightarrow> u32 \<Rightarrow> nat \<Rightarrow> nat \<Rightarrow> nat \<Rightarrow> u8 list \<Rightarrow> 'a os_scheme \<Rightarrow> ('a os_scheme, u8 list) outcome" where
  "read_loop rd_sec nxt_clus 0 old_clus old_sec t i left bytes s = (if left = 0 then Ret s bytes else Panic s)"
| "read_loop rd_sec nxt_clus (Suc n) old_clus old_sec t i left bytes s =
    (if left = 0 then Ret s bytes
     else
       let off = unat (pos (fd_at s t i) mod ucast (SECTOR_SIZE (fat s)));
           readsize = min (BUFSIZE (fat s) - off) left
       in obind (rd_sec (READ_MAX_SEC (fat s)) (cur_sec (fd_at s t i)) s) (\<lambda>s d.
          obind (advance nxt_clus old_clus old_sec t i (of_nat readsize) s) (\<lambda>s _.
            read_loop rd_sec nxt_clus n old_clus old_sec t i (left - readsize) (bytes @ take readsize (drop off d)) s)))"

definition read_file :: "(nat \<Rightarrow> u32 \<Rightarrow> 'a os_scheme \<Rightarrow> ('a os_scheme, u8 list) outcome) \<Rightarrow> (u32 \<Rightarrow> 'a os_scheme \<Rightarrow> ('a os_scheme, u32) outcome) \<Rightarrow>
    nat \<Rightarrow> nat \<Rightarrow> u64 \<Rightarrow> 'a os_scheme \<Rightarrow> ('a os_scheme, int \<times> u8 list) outcome" where
  "read_file rd_sec nxt_clus t i cnt s =
    (let f = fd_at s t i in
     if fd_flags f AND O_DIRECTORY \<noteq> 0 \<or> fd_flags f AND O_WRONLY \<noteq> 0 then Ret s (- EINVAL, [])
     else obind (kmalloc PAGE_SIZE s) (\<lambda>s page.
       if ucast (fd_length f) < pos f then Ret (kfree page s) (- EFAULT, [])
       else
         let room = ucast (fd_length f) - pos f; real_count = ucast (if cnt > room then room else cnt) :: u32
         in obind (read_loop rd_sec nxt_clus (unat real_count) (ucast (pos f div ucast (CLUSTER_SIZE (fat s))))
                (ucast (pos f div ucast (SECTOR_SIZE (fat s)))) t i (unat real_count) [] s) (\<lambda>s bytes.
            Ret (kfree page s) (uint real_count, bytes))))"

definition fat32_read_with :: "'a fsos_scheme lseek_fun \<Rightarrow> 'a fsos_scheme read_fun \<Rightarrow> u32 \<Rightarrow> ptr \<Rightarrow> u64 \<Rightarrow> 'a fsos_scheme \<Rightarrow>
    ('a fsos_scheme, int \<times> u8 list) outcome" where
  "fat32_read_with lseek rd n buf cnt s =
    obind (fault_pages lseek rd (page_steps buf (buf + cnt)) s) (\<lambda>s _.
      let t = cur_table s in
      if status_ctx s \<noteq> 0 then read_cpt lseek rd (ctx_pipes s (ctx_pipe_array (cur_pcb s)) (unat n)) buf cnt s
      else case get_fd_index n (get_current_running s) s of
        None \<Rightarrow> Panic s
      | Some None \<Rightarrow> Ret s (- EBADF, [])
      | Some (Some i) \<Rightarrow>
          obind (read_special_path lseek rd t i buf cnt s) (\<lambda>s (special_return, bytes).
            if special_return \<noteq> -1 then Ret s (special_return, bytes)
            else read_file disk_read next_cluster t i cnt s))"

section \<open>Seeking\<close>

definition fat32_lseek :: "u32 \<Rightarrow> u64 \<Rightarrow> u32 \<Rightarrow> 'a os_scheme \<Rightarrow> ('a os_scheme, i64) outcome" where
  "fat32_lseek n off whence s =
    (let t = cur_table s in
     case get_fd_index n (get_current_running s) s of
       None \<Rightarrow> Panic s
     | Some None \<Rightarrow> Ret s (word_of_int (- EBADF))
     | Some (Some i) \<Rightarrow>
         let f = fd_at s t i in
         if dev f \<noteq> DEV_DEFAULT then Ret s (word_of_int (- EINVAL))
         else if \<not> whence \<le> 2 then Panic s
         else
           let p = (if whence = SEEK_SET then off else if whence = SEEK_CUR then pos f + off else ucast (fd_length f) + off);
               s = upd_fd t i (\<lambda>f. f\<lparr>pos := p\<rparr>) s
           in if kernel_file (fd_name f) then Ret s p
              else if p < ucast (fd_length f) then obind (update_fd_from_pos t i p s) (\<lambda>s _. Ret s p)
              else Ret s p)"

section \<open>Faults of the file system\<close>

text \<open>Reading into a page of the kernel: its addresses take no fault, so that the operations a fault would call are never
  called. The bytes are stored in the page.\<close>

definition store_byte :: "u64 \<Rightarrow> u8 \<Rightarrow> mem64 \<Rightarrow> mem64" where
  "store_byte a b m =
    (let w = a AND NOT 7; k = 8 * unat (a AND 7) in m(w := (m w AND NOT (push_bit k 0xff)) OR push_bit k (ucast b)))"

definition store_bytes :: "u64 \<Rightarrow> u8 list \<Rightarrow> mem64 \<Rightarrow> mem64" where
  "store_bytes a d m = fold (\<lambda>i. store_byte (a + of_nat i) (d ! i)) [0..<length d] m"

definition read_into_page :: "'a fsos_scheme read_fun" where
  "read_into_page n kva cnt s =
    obind (fat32_read_with (\<lambda>_ _ _ s. Panic s) (\<lambda>_ _ _ s. Panic s) n kva cnt s) (\<lambda>s (v, bytes).
      Ret (s\<lparr>mem := store_bytes kva bytes (mem s)\<rparr>) (word_of_int v))"

definition store_fault :: "u64 \<Rightarrow> 'a fsos_scheme \<Rightarrow> ('a fsos_scheme, unit) outcome" where
  "store_fault a s = handle_page_fault_store fat32_lseek read_into_page a s"

definition fat32_read :: "u32 \<Rightarrow> ptr \<Rightarrow> u64 \<Rightarrow> 'a fsos_scheme \<Rightarrow> ('a fsos_scheme, int \<times> u8 list) outcome" where
  "fat32_read n buf cnt s = fat32_read_with fat32_lseek read_into_page n buf cnt s"

text \<open>\<open>fat32_read_uncached\<close> takes no faults and reads the card past the buffer cache.\<close>

definition sd_read :: "nat \<Rightarrow> u32 \<Rightarrow> 'a os_scheme \<Rightarrow> ('a os_scheme, u8 list) outcome" where
  "sd_read n sec s = Ret s (concat (map (\<lambda>k. sd_card s (sec + of_nat k)) [0..<n]))"

definition next_cluster_uncached :: "u32 \<Rightarrow> 'a os_scheme \<Rightarrow> ('a os_scheme, u32) outcome" where
  "next_cluster_uncached cluster s =
    obind (kmalloc PAGE_SIZE s) (\<lambda>s page.
    obind (sd_read 1 (fat_sec_of_clus (fat s) cluster 1) s) (\<lambda>s d.
      Ret (kfree page s) (le32 d (unat (fat_offset_of_clus (fat s) cluster)))))"

definition fat32_read_uncached :: "u32 \<Rightarrow> ptr \<Rightarrow> u64 \<Rightarrow> 'a fsos_scheme \<Rightarrow> ('a fsos_scheme, int \<times> u8 list) outcome" where
  "fat32_read_uncached n buf cnt s =
    (let t = cur_table s in
     case get_fd_index n (get_current_running s) s of
       None \<Rightarrow> Panic s
     | Some None \<Rightarrow> Ret s (- EBADF, [])
     | Some (Some i) \<Rightarrow>
         obind (read_special_path fat32_lseek read_into_page t i buf cnt s) (\<lambda>s (special_return, bytes).
           if special_return \<noteq> -1 then Ret s (special_return, bytes)
           else read_file sd_read next_cluster_uncached t i cnt s))"

section \<open>The bytes of a file\<close>

text \<open>Clusters of at most a page, so that a buffer is a cluster.\<close>

definition small_clusters :: "fat_t \<Rightarrow> bool" where
  "small_clusters f \<longleftrightarrow> byts_per_sec (fat_bpb f) = 512 \<and> sec_per_clus (fat_bpb f) \<noteq> 0 \<and> sec_per_clus (fat_bpb f) \<le> 8
    \<and> byts_per_clus f = 512 * ucast (sec_per_clus (fat_bpb f))"

definition clus_size :: "fat_t \<Rightarrow> nat" where
  "clus_size f = 512 * unat (sec_per_clus (fat_bpb f))"

definition clus_bytes :: "fat_t \<Rightarrow> (u32 \<Rightarrow> u8 list) \<Rightarrow> u32 \<Rightarrow> u8 list" where
  "clus_bytes f v c = get_sectors (unat (sec_per_clus (fat_bpb f))) (first_sec_of_clus f c) v"

definition file_bytes :: "fat_t \<Rightarrow> (u32 \<Rightarrow> u8 list) \<Rightarrow> u32 list \<Rightarrow> u8 list" where
  "file_bytes f v cs = concat (map (clus_bytes f v) cs)"

text \<open>The position of a descriptor is at the start of cluster \<open>k\<close> of the chain.\<close>

definition at_cluster :: "fat_t \<Rightarrow> u32 list \<Rightarrow> nat \<Rightarrow> fd \<Rightarrow> bool" where
  "at_cluster f cs k g \<longleftrightarrow> k < length cs \<and> pos g = of_nat (k * clus_size f) \<and> cur_clus_num g = cs ! k
    \<and> cur_sec g = first_sec_of_clus f (cs ! k)"

definition linked :: "fat_t \<Rightarrow> (u32 \<Rightarrow> u8 list) \<Rightarrow> u32 list \<Rightarrow> bool" where
  "linked f v cs \<longleftrightarrow> (\<forall>i. Suc i < length cs \<longrightarrow> fat_entry f v (cs ! i) = cs ! Suc i)"

lemma small_clusters_sizes:
  assumes "small_clusters f"
  shows "BUFSIZE f = clus_size f" and "READ_MAX_SEC f = unat (sec_per_clus (fat_bpb f))" and "0 < clus_size f" and "clus_size f \<le> 4096"
    and "unat (CLUSTER_SIZE f) = clus_size f" and "SECTOR_SIZE f = 512" and "512 dvd clus_size f"
proof -
  let ?n = "unat (sec_per_clus (fat_bpb f))"
  have n: "0 < ?n" "?n \<le> 8"
    using assms by (auto simp: small_clusters_def word_le_nat_alt unat_gt_0)
  have "(512 :: u32) * ucast (sec_per_clus (fat_bpb f)) = of_nat (512 * ?n)"
    by simp
  then have "unat (512 * ucast (sec_per_clus (fat_bpb f)) :: u32) = 512 * ?n"
    using n unat_of_nat_i32 [of "512 * ?n"] by (simp del: of_nat_mult)
  then show u: "unat (CLUSTER_SIZE f) = clus_size f"
    using assms by (simp add: small_clusters_def clus_size_def)
  show "0 < clus_size f" "clus_size f \<le> 4096" "512 dvd clus_size f"
    using n by (simp_all add: clus_size_def)
  show s: "SECTOR_SIZE f = 512"
    using assms by (simp add: small_clusters_def)
  show b: "BUFSIZE f = clus_size f"
    using n by (auto simp: BUFSIZE_def u clus_size_def)
  show "READ_MAX_SEC f = ?n"
    unfolding READ_MAX_SEC_def b s by (simp add: clus_size_def)
qed

lemma length_get_sectors: "sectors512 v \<Longrightarrow> length (get_sectors n sec v) = 512 * n"
  by (induction n arbitrary: sec) (simp_all add: sectors512_def)

lemma length_clus_bytes: "sectors512 v \<Longrightarrow> length (clus_bytes f v c) = clus_size f"
  by (simp add: clus_bytes_def clus_size_def length_get_sectors)

lemma file_bytes_split:
  assumes "sectors512 v" and "k < length cs"
  shows "drop (k * clus_size f) (file_bytes f v cs) = clus_bytes f v (cs ! k) @ drop (Suc k * clus_size f) (file_bytes f v cs)"
proof -
  have len: "length (file_bytes f v xs) = length xs * clus_size f" for xs
    unfolding file_bytes_def by (induction xs) (simp_all add: length_clus_bytes [OF assms(1)])
  have cs: "cs = take k cs @ cs ! k # drop (Suc k) cs"
    using assms(2) by (rule id_take_nth_drop)
  have app: "file_bytes f v (xs @ ys) = file_bytes f v xs @ file_bytes f v ys" for xs ys
    by (simp add: file_bytes_def)
  have f: "file_bytes f v cs = file_bytes f v (take k cs) @ clus_bytes f v (cs ! k) @ file_bytes f v (drop (Suc k) cs)"
    by (subst cs, subst app) (simp add: file_bytes_def)
  have l: "length (file_bytes f v (take k cs)) = k * clus_size f"
    using assms(2) by (simp add: len)
  show ?thesis
    unfolding f using l length_clus_bytes [OF assms(1), of f "cs ! k"] by simp
qed

lemma pos_words:
  assumes "P < 2 ^ 32"
  shows "(ucast ((of_nat P :: u64) div ucast (c :: u32)) :: u32) = of_nat (P div unat c)"
    and "(of_nat P :: u64) mod ucast c = of_nat (P mod unat c)"
proof -
  have u: "unat (of_nat P :: u64) = P"
    using assms by (intro unat_of_nat_u64) simp
  have "P div unat c \<le> P" by (rule div_le_dividend)
  then have "P div unat c < 2 ^ 32" using assms by linarith
  moreover have "(of_nat P :: u64) div ucast c = of_nat (P div unat c)"
    by (simp add: word_arith_nat_div u unat_ucast_u32)
  ultimately show "(ucast ((of_nat P :: u64) div ucast c) :: u32) = of_nat (P div unat c)"
    by (simp only: ucast_of_nat_u64)
  show "(of_nat P :: u64) mod ucast c = of_nat (P mod unat c)"
    by (simp add: word_arith_nat_mod u unat_ucast_u32)
qed

lemma upd_fd_simps [simp]:
  "fd_at (upd_fd t i f s) t i = f (fd_at s t i)" "fat (upd_fd t i f s) = fat s" "pageRecyc (upd_fd t i f s) = pageRecyc s"
  by (simp_all add: upd_fd_def fd_at_def)

text \<open>What \<open>fat32_read\<close> and \<open>fat32_read_uncached\<close> need of the functions that read sectors and follow a chain: they show the
  same disk and do not change it.\<close>

locale file_source =
  fixes rd :: "nat \<Rightarrow> u32 \<Rightarrow> 'a os_scheme \<Rightarrow> ('a os_scheme, u8 list) outcome"
    and nx :: "u32 \<Rightarrow> 'a os_scheme \<Rightarrow> ('a os_scheme, u32) outcome"
    and inv :: "nat \<Rightarrow> 'a os_scheme \<Rightarrow> bool" and view :: "'a os_scheme \<Rightarrow> u32 \<Rightarrow> u8 list"
  assumes rd_view: "inv n s \<Longrightarrow> \<exists>t. rd m sec s = Ret t (get_sectors m sec (view s)) \<and> inv n t \<and> fs_frame s t \<and> view t = view s"
    and nx_view: "inv (Suc n) s \<Longrightarrow> \<exists>t. nx c s = Ret t (fat_entry (fat s) (view s) c) \<and> inv (Suc n) t \<and> fs_frame s t \<and> view t = view s"
    and inv_fd: "inv n (upd_fd tb i g s) = inv n s" and view_fd: "view (upd_fd tb i g s) = view s"
    and take_page: "inv (Suc n) s \<Longrightarrow> \<exists>t i. kmalloc PAGE_SIZE s = Ret t (page_addr i) \<and> i < NUM_REC \<and> inv n t \<and> view t = view s
      \<and> share_num (pageRecyc s i) = 0 \<and> pageRecyc t = (pageRecyc s)(i := (pageRecyc s i)\<lparr>share_num := 1\<rparr>) \<and> fat t = fat s \<and> pfd_tab t = pfd_tab s"
    and give_page: "inv n s \<Longrightarrow> i < NUM_REC \<Longrightarrow> share_num (pageRecyc s i) = 1 \<Longrightarrow> inv (Suc n) (kfree (page_addr i) s)
      \<and> view (kfree (page_addr i) s) = view s \<and> fat (kfree (page_addr i) s) = fat s \<and> pfd_tab (kfree (page_addr i) s) = pfd_tab s
      \<and> pageRecyc (kfree (page_addr i) s) = (pageRecyc s)(i := (pageRecyc s i)\<lparr>share_num := 0\<rparr>)"
begin

lemma advance_ok:
  assumes "inv (Suc 0) s" and "pos (fd_at s tb i) = of_nat P" and "P + k < 2 ^ 32"
  shows "\<exists>u. advance nx old_clus old_sec tb i (of_nat k) s = Ret u () \<and> inv (Suc 0) u \<and> view u = view s \<and> fat u = fat s
    \<and> pageRecyc u = pageRecyc s \<and> pos (fd_at u tb i) = of_nat (P + k)
    \<and> (of_nat ((P + k) div unat (CLUSTER_SIZE (fat s))) \<noteq> old_clus \<longrightarrow>
        cur_clus_num (fd_at u tb i) = fat_entry (fat s) (view s) (cur_clus_num (fd_at s tb i))
        \<and> cur_sec (fd_at u tb i) = first_sec_of_clus (fat s) (cur_clus_num (fd_at u tb i))
            + ucast ((of_nat ((P + k) mod unat (CLUSTER_SIZE (fat s))) :: u64) div ucast (SECTOR_SIZE (fat s))))"
proof -
  let ?s = "upd_fd tb i (\<lambda>f. f\<lparr>pos := pos f + of_nat k\<rparr>) s"
  have p: "pos (fd_at ?s tb i) = of_nat (P + k)"
    using assms(2) by simp
  note w = pos_words [OF assms(3)]
  have inv: "inv (Suc 0) ?s" and view: "view ?s = view s"
    using assms(1) by (simp_all add: inv_fd view_fd)
  let ?nc = "of_nat ((P + k) div unat (CLUSTER_SIZE (fat s))) :: u32"
  show ?thesis
  proof (cases "?nc = old_clus")
    case True
    then show ?thesis
      unfolding advance_def Let_def p using inv view p w(1) [of "CLUSTER_SIZE (fat s)"] by (auto simp: inv_fd view_fd)
  next
    case False
    obtain u where u: "nx (cur_clus_num (fd_at ?s tb i)) ?s = Ret u (fat_entry (fat ?s) (view ?s) (cur_clus_num (fd_at ?s tb i)))"
      "inv (Suc 0) u" "fs_frame ?s u" "view u = view ?s"
      using nx_view [OF inv] by blast
    have f: "fat u = fat s" "pageRecyc u = pageRecyc s" "fd_at u tb i = fd_at ?s tb i"
      using u(3) by (simp_all add: fs_frame_def fd_at_def)
    have c: "cur_clus_num (fd_at ?s tb i) = cur_clus_num (fd_at s tb i)"
      by simp
    have "ucast ((of_nat (P + k) :: u64) div ucast (CLUSTER_SIZE (fat ?s))) - old_clus \<noteq> 0"
      using False w(1) [of "CLUSTER_SIZE (fat s)"] by simp
    then show ?thesis
      unfolding advance_def Let_def p u(1) obind.simps if_P [OF \<open>_ - old_clus \<noteq> 0\<close>] using u(2,4) f p view w(2) [of "CLUSTER_SIZE (fat s)"] c
      by (auto simp: inv_fd view_fd)
  qed
qed

lemma read_loop_done: "read_loop rd nx n old_clus old_sec tb i 0 bytes s = Ret s bytes"
  by (cases n) simp_all

text \<open>A round of the loop, from the start of a cluster.\<close>

lemma read_round:
  assumes "inv (Suc 0) s" and "small_clusters (fat s)" and "at_cluster (fat s) cs k (fd_at s tb i)" and "0 < left"
    and "length cs * clus_size (fat s) < 2 ^ 32" and "k0 \<le> k" and "sectors512 (view s)"
    and m: "m = min (clus_size (fat s)) left"
  shows "\<exists>u. read_loop rd nx (Suc n) (of_nat k0) old_sec tb i left bytes s
      = read_loop rd nx n (of_nat k0) old_sec tb i (left - m) (bytes @ take m (clus_bytes (fat s) (view s) (cs ! k))) u
    \<and> inv (Suc 0) u \<and> view u = view s \<and> fat u = fat s \<and> pageRecyc u = pageRecyc s \<and> pos (fd_at u tb i) = of_nat (k * clus_size (fat s) + m)
    \<and> (m = clus_size (fat s) \<longrightarrow> cur_clus_num (fd_at u tb i) = fat_entry (fat s) (view s) (cs ! k)
        \<and> cur_sec (fd_at u tb i) = first_sec_of_clus (fat s) (cur_clus_num (fd_at u tb i)))"
proof -
  let ?B = "clus_size (fat s)" and ?n = "unat (sec_per_clus (fat_bpb (fat s)))"
  note sz = small_clusters_sizes [OF assms(2)]
  have k: "k < length cs" and p: "pos (fd_at s tb i) = of_nat (k * ?B)" and c: "cur_clus_num (fd_at s tb i) = cs ! k"
    and sec: "cur_sec (fd_at s tb i) = first_sec_of_clus (fat s) (cs ! k)"
    using assms(3) by (simp_all add: at_cluster_def)
  have "Suc k * ?B \<le> length cs * ?B"
    using k by (intro mult_le_mono1) simp
  then have P: "k * ?B + ?B < 2 ^ 32"
    using assms(5) by simp
  have off: "unat (pos (fd_at s tb i) mod ucast (SECTOR_SIZE (fat s))) = 0"
  proof -
    have "k * ?B mod 512 = 0"
      using sz(7) by simp
    moreover have "k * ?B < 2 ^ 32" using P by linarith
    ultimately show ?thesis
      unfolding p by (subst pos_words(2)) (simp_all add: sz(6))
  qed
  obtain t where t: "rd ?n (cur_sec (fd_at s tb i)) s = Ret t (get_sectors ?n (cur_sec (fd_at s tb i)) (view s))"
    "inv (Suc 0) t" "fs_frame s t" "view t = view s"
    using rd_view [OF assms(1)] by blast
  have fr: "fat t = fat s" "fd_at t tb i = fd_at s tb i" "pageRecyc t = pageRecyc s"
    using t(3) by (simp_all add: fs_frame_def fd_at_def)
  have pt: "pos (fd_at t tb i) = of_nat (k * ?B)" and Pm: "k * ?B + m < 2 ^ 32"
    using fr p P m by simp_all
  obtain u where u: "advance nx (of_nat k0) old_sec tb i (of_nat m) t = Ret u ()" "inv (Suc 0) u" "view u = view s" "fat u = fat s"
    "pageRecyc u = pageRecyc s" "pos (fd_at u tb i) = of_nat (k * ?B + m)"
    "of_nat ((k * ?B + m) div unat (CLUSTER_SIZE (fat s))) \<noteq> (of_nat k0 :: u32) \<longrightarrow>
        cur_clus_num (fd_at u tb i) = fat_entry (fat s) (view s) (cs ! k)
        \<and> cur_sec (fd_at u tb i) = first_sec_of_clus (fat s) (cur_clus_num (fd_at u tb i))
            + ucast ((of_nat ((k * ?B + m) mod unat (CLUSTER_SIZE (fat s))) :: u64) div ucast (SECTOR_SIZE (fat s)))"
    using advance_ok [OF t(2) pt Pm, of "of_nat k0" old_sec] fr t(4) c by auto
  have loop: "read_loop rd nx (Suc n) (of_nat k0) old_sec tb i left bytes s
      = read_loop rd nx n (of_nat k0) old_sec tb i (left - m) (bytes @ take m (clus_bytes (fat s) (view s) (cs ! k))) u"
    unfolding read_loop.simps Let_def off sz(1,2) t(1) obind.simps using assms(4) u(1) by (simp add: m clus_bytes_def sec)
  have "cur_clus_num (fd_at u tb i) = fat_entry (fat s) (view s) (cs ! k)
        \<and> cur_sec (fd_at u tb i) = first_sec_of_clus (fat s) (cur_clus_num (fd_at u tb i))" if "m = ?B"
  proof -
    have d: "(k * ?B + m) div ?B = Suc k" "(k * ?B + m) mod ?B = 0"
      using sz(3) that by simp_all
    have "Suc k * 1 \<le> Suc k * ?B" using sz(3) by (intro mult_le_mono2) simp
    then have "Suc k < 2 ^ 32" using P by simp
    then have "(of_nat (Suc k) :: u32) \<noteq> of_nat k0"
      using assms(6) unat_of_nat_i32 [of "Suc k"] unat_of_nat_i32 [of k0] by (metis le_imp_less_Suc less_trans nat_less_le)
    with u(7) show ?thesis
      unfolding sz(5) d by simp
  qed
  with loop u(2-6) show ?thesis by blast
qed

lemma read_loop_ok:
  assumes "small_clusters f" and "length cs * clus_size f < 2 ^ 32" and "linked f v cs" and "sectors512 v"
    and "inv (Suc 0) s" and "fat s = f" and "view s = v" and "k0 \<le> k" and "left \<le> n" and "k * clus_size f + left \<le> length cs * clus_size f"
    and "0 < left \<longrightarrow> at_cluster f cs k (fd_at s tb i)" and "pos (fd_at s tb i) = of_nat (k * clus_size f)"
  shows "\<exists>u. read_loop rd nx n (of_nat k0) old_sec tb i left bytes s = Ret u (bytes @ take left (drop (k * clus_size f) (file_bytes f v cs)))
    \<and> inv (Suc 0) u \<and> view u = v \<and> fat u = f \<and> pageRecyc u = pageRecyc s \<and> pos (fd_at u tb i) = of_nat (k * clus_size f + left)"
  using assms(5-12)
proof (induction n arbitrary: k left bytes s)
  case 0
  then show ?case by simp
next
  case (Suc n)
  let ?B = "clus_size f"
  note sz = small_clusters_sizes [OF assms(1)]
  show ?case
  proof (cases "left = 0")
    case True
    then show ?thesis
      using Suc.prems by (auto simp: read_loop_done)
  next
    case False
    define m where "m = min ?B left"
    have at: "at_cluster f cs k (fd_at s tb i)" and k: "k < length cs"
      using Suc.prems(7) False by (auto simp: at_cluster_def)
    obtain u where u: "read_loop rd nx (Suc n) (of_nat k0) old_sec tb i left bytes s
        = read_loop rd nx n (of_nat k0) old_sec tb i (left - m) (bytes @ take m (clus_bytes f v (cs ! k))) u"
      "inv (Suc 0) u" "view u = v" "fat u = f" "pageRecyc u = pageRecyc s" "pos (fd_at u tb i) = of_nat (k * ?B + m)"
      "m = ?B \<longrightarrow> cur_clus_num (fd_at u tb i) = fat_entry f v (cs ! k)
        \<and> cur_sec (fd_at u tb i) = first_sec_of_clus f (cur_clus_num (fd_at u tb i))"
      using read_round [of s cs k tb i left k0 m n old_sec bytes] Suc.prems(1-4) at False assms(1,2,4) m_def by auto
    have split: "take left (drop (k * ?B) (file_bytes f v cs))
        = take left (clus_bytes f v (cs ! k)) @ take (left - ?B) (drop (Suc k * ?B) (file_bytes f v cs))"
      unfolding file_bytes_split [OF assms(4) k] by (simp add: length_clus_bytes [OF assms(4)])
    show ?thesis
    proof (cases "left < ?B")
      case True
      then show ?thesis
        using u split by (auto simp: m_def read_loop_done)
    next
      case F: False
      then have m: "m = ?B" by (simp add: m_def)
      have "at_cluster f cs (Suc k) (fd_at u tb i)" if "0 < left - m"
      proof -
        have "Suc k * ?B < length cs * ?B"
          using that m Suc.prems(6) by simp
        then have "Suc k < length cs" by (simp only: mult_less_cancel2)
        moreover from this have "fat_entry f v (cs ! k) = cs ! Suc k"
          using assms(3) by (simp add: linked_def)
        ultimately show ?thesis
          using u(6,7) m by (simp add: at_cluster_def add.commute)
      qed
      then have "\<exists>w. read_loop rd nx n (of_nat k0) old_sec tb i (left - m) (bytes @ take m (clus_bytes f v (cs ! k))) u
          = Ret w ((bytes @ take m (clus_bytes f v (cs ! k))) @ take (left - m) (drop (Suc k * ?B) (file_bytes f v cs)))
        \<and> inv (Suc 0) w \<and> view w = v \<and> fat w = f \<and> pageRecyc w = pageRecyc u \<and> pos (fd_at w tb i) = of_nat (Suc k * ?B + (left - m))"
        using Suc.IH [of u "Suc k" "left - m" "bytes @ take m (clus_bytes f v (cs ! k))"] u(2-4,6) Suc.prems(4-6) F sz(3) m
        by (simp add: add.commute)
      moreover have "take m (clus_bytes f v (cs ! k)) = take left (clus_bytes f v (cs ! k))"
        using F m by (simp add: length_clus_bytes [OF assms(4)])
      moreover have "Suc k * ?B + (left - m) = k * ?B + left"
        using F m by simp
      ultimately show ?thesis
        unfolding u(1) split using u(5) m by simp
    qed
  qed
qed

lemma read_file_ok:
  assumes "inv (Suc (Suc 0)) s" and "fat s = f" and "view s = v" and "fd_at s tb i = g" and "small_clusters f" and "sectors512 v"
    and "linked f v cs" and "at_cluster f cs k g" and "fd_flags g AND O_DIRECTORY = 0" and "fd_flags g AND O_WRONLY = 0"
    and "k * clus_size f \<le> unat (fd_length g)" and "unat (fd_length g) \<le> length cs * clus_size f" and "length cs * clus_size f < 2 ^ 32"
    and m: "m = min (unat cnt) (unat (fd_length g) - k * clus_size f)"
  shows "\<exists>u. read_file rd nx tb i cnt s = Ret u (int m, take m (drop (k * clus_size f) (file_bytes f v cs)))
    \<and> inv (Suc (Suc 0)) u \<and> view u = v \<and> fat u = f \<and> pageRecyc u = pageRecyc s \<and> pos (fd_at u tb i) = of_nat (k * clus_size f + m)"
proof -
  let ?B = "clus_size f"
  have p: "pos g = of_nat (k * ?B)"
    using assms(8) by (simp add: at_cluster_def)
  have P: "k * ?B < 2 ^ 32" "k * ?B + m \<le> length cs * ?B" "m < 2 ^ 32"
    using assms(11,12,13) m by linarith+
  have up: "unat (pos g) = k * ?B"
    unfolding p using P(1) by (intro unat_of_nat_u64) simp
  have ul: "unat (ucast (fd_length g) :: u64) = unat (fd_length g)"
    by (simp add: unat_ucast_u32)
  have room: "\<not> ucast (fd_length g) < pos g" "unat (ucast (fd_length g) - pos g) = unat (fd_length g) - k * ?B"
    using assms(11) by (simp_all add: word_less_nat_alt ul up unat_sub word_le_nat_alt)
  have cnt: "(ucast (if cnt > ucast (fd_length g) - pos g then ucast (fd_length g) - pos g else cnt) :: u32) = of_nat m"
  proof -
    have "(if cnt > ucast (fd_length g) - pos g then ucast (fd_length g) - pos g else cnt) = of_nat m"
      unfolding word_unat_eq_iff using room(2) m P(3) unat_of_nat_u64 [of m] by (simp add: word_less_nat_alt)
    then show ?thesis
      using ucast_of_nat_u64 [of m] P(3) by simp
  qed
  have um: "unat (of_nat m :: u32) = m" "uint (of_nat m :: u32) = int m"
    using P(3) by (simp_all add: unat_of_nat_i32 uint_nat)
  obtain t j where t: "kmalloc PAGE_SIZE s = Ret t (page_addr j)" "j < NUM_REC" "inv (Suc 0) t" "view t = v"
    "share_num (pageRecyc s j) = 0" "pageRecyc t = (pageRecyc s)(j := (pageRecyc s j)\<lparr>share_num := 1\<rparr>)" "fat t = f" "pfd_tab t = pfd_tab s"
    using take_page [OF assms(1)] assms(2,3) by auto
  have g: "fd_at t tb i = g"
    using t(8) assms(4) by (simp add: fd_at_def)
  have oc: "(ucast (pos g div ucast (CLUSTER_SIZE f)) :: u32) = of_nat k"
    unfolding p using pos_words(1) [OF P(1)] small_clusters_sizes(3,5) [OF assms(5)] by simp
  let ?os = "ucast (pos g div ucast (SECTOR_SIZE f)) :: u32"
  obtain u where u: "read_loop rd nx m (of_nat k) ?os tb i m [] t = Ret u (take m (drop (k * ?B) (file_bytes f v cs)))"
    "inv (Suc 0) u" "view u = v" "fat u = f" "pageRecyc u = pageRecyc t" "pos (fd_at u tb i) = of_nat (k * ?B + m)"
    using read_loop_ok [OF assms(5,13,7,6) t(3,7,4) order_refl order_refl P(2), of tb i ?os "[]"] g p assms(8) by auto
  have "share_num (pageRecyc u j) = 1"
    unfolding u(5) t(6) by simp
  note k = give_page [OF u(2) t(2) this]
  have "(pageRecyc u)(j := (pageRecyc u j)\<lparr>share_num := 0\<rparr>) = pageRecyc s"
    unfolding u(5) t(6) using t(5) by (auto simp: fun_eq_iff)
  moreover have "read_file rd nx tb i cnt s = Ret (kfree (page_addr j) u) (int m, take m (drop (k * ?B) (file_bytes f v cs)))"
    unfolding read_file_def Let_def assms(4) t(1) obind.simps t(7) if_not_P [OF room(1)] cnt um oc using assms(9,10) u(1) by simp
  ultimately show ?thesis
    using k u(3,4,6) by (auto simp: fd_at_def)
qed

end

lemma fs_ok_fd: "fs_ok n (upd_fd tb i g s) = fs_ok n s" "disk_view (upd_fd tb i g s) = disk_view s" "sd_card (upd_fd tb i g s) = sd_card s"
proof -
  let ?t = "upd_fd tb i g s"
  have "bio_inv ?t = bio_inv s" and v: "disk_view ?t = disk_view s"
    by (rule bio_cong; simp add: upd_fd_def)+
  moreover have "mm_inv ?t = mm_inv s"
    by (simp add: mm_inv_def upd_fd_def)
  ultimately show "fs_ok n ?t = fs_ok n s" "disk_view ?t = disk_view s" "sd_card ?t = sd_card s"
    by (simp_all add: fs_ok_def upd_fd_def)
qed

interpretation cached: file_source disk_read next_cluster fs_ok disk_view
proof (unfold_locales, goal_cases)
  case (1 n s m sec)
  show ?case by (rule disk_read_ok [OF 1], intro exI conjI)
next
  case (2 n s c)
  then show ?case by (rule next_cluster_ok)
next
  case (5 n s)
  show ?case by (rule kmalloc_ok [OF 5], intro exI conjI)
next
  case (6 n s i)
  show ?case using kfree_ok [OF 6] by simp
qed (simp_all add: fs_ok_fd)

lemma sd_read_eq: "sd_read n sec s = Ret s (get_sectors n sec (sd_card s))"
proof -
  have "concat (map (\<lambda>k. v (sec + of_nat k)) [0..<n]) = get_sectors n sec v" for v :: "u32 \<Rightarrow> u8 list"
  proof (induction n arbitrary: sec)
    case (Suc n)
    have "map (\<lambda>k. v (sec + of_nat k)) [0..<Suc n] = v sec # map (\<lambda>k. v (sec + 1 + of_nat k)) [0..<n]"
      by (subst upt_conv_Cons) (simp_all add: map_Suc_upt [symmetric] o_def add.assoc del: upt_Suc)
    then show ?case
      using Suc.IH [of "sec + 1"] by simp
  qed simp
  then show ?thesis by (simp add: sd_read_def)
qed

interpretation uncached: file_source sd_read next_cluster_uncached fs_ok sd_card
proof (unfold_locales, goal_cases)
  case (1 n s m sec)
  then show ?case by (simp add: sd_read_eq)
next
  case (2 n s c)
  obtain t i where t: "kmalloc PAGE_SIZE s = Ret t (page_addr i)" "i < NUM_REC" "fs_ok n t" "disk_view t = disk_view s"
    "share_num (pageRecyc s i) = 0" "pageRecyc t = (pageRecyc s)(i := (pageRecyc s i)\<lparr>share_num := 1\<rparr>)"
    "fat t = fat s" "pfd_tab t = pfd_tab s" "sd_card t = sd_card s"
    using kmalloc_ok [OF 2] .
  have "share_num (pageRecyc t i) = 1" using t(6) by simp
  note k = kfree_ok [OF t(3,2) this]
  have "pageRecyc (kfree (page_addr i) t) = pageRecyc s"
    unfolding k(3) t(6) using t(5) by (auto simp: fun_eq_iff)
  then show ?case
    using t(1,7,8,9) k(1,4,5,6) by (auto simp: next_cluster_uncached_def sd_read_eq fat_entry_def fs_frame_def)
next
  case (5 n s)
  show ?case by (rule kmalloc_ok [OF 5], intro exI conjI)
next
  case (6 n s i)
  show ?case using kfree_ok [OF 6] by simp
qed (simp_all add: fs_ok_fd)

section \<open>Properties\<close>

text \<open>C6: Reading a file through \<open>fat32_read\<close> from the start of one of its clusters, into a buffer whose pages are present, on a
  volume with clusters of at most a page: it returns, the count is the smaller one of the count asked for and what is left of the
  file, and the bytes are exactly those of the file, as the clusters of its chain hold them on the disk. The position moves past
  the bytes, the disk shows the same sectors, and every page taken on the way is given back.\<close>

theorem fat32_read_reads_file:
  assumes "fs_ok 2 s" and "small_clusters (fat s)" and "sectors512 (disk_view s)" and "linked (fat s) (disk_view s) cs"
    and "fault_pages fat32_lseek read_into_page (page_steps buf (buf + cnt)) s = Ret s ()" and "status_ctx s = 0"
    and "get_fd_index n (get_current_running s) s = Some (Some i)" and "g = fd_at s (cur_table s) i" and "dev g = DEV_DEFAULT"
    and "\<not> kernel_file (fd_name g)" and "fd_flags g AND O_DIRECTORY = 0" and "fd_flags g AND O_WRONLY = 0"
    and "at_cluster (fat s) cs k g" and "k * clus_size (fat s) \<le> unat (fd_length g)"
    and "unat (fd_length g) \<le> length cs * clus_size (fat s)" and "length cs * clus_size (fat s) < 2 ^ 32"
    and "m = min (unat cnt) (unat (fd_length g) - k * clus_size (fat s))"
  shows "\<exists>t. fat32_read n buf cnt s = Ret t (int m, take m (drop (k * clus_size (fat s)) (file_bytes (fat s) (disk_view s) cs)))
    \<and> fs_ok 2 t \<and> disk_view t = disk_view s \<and> fat t = fat s \<and> pageRecyc t = pageRecyc s
    \<and> pos (fd_at t (cur_table s) i) = of_nat (k * clus_size (fat s) + m)"
proof -
  have ok: "fs_ok (Suc (Suc 0)) s"
    using assms(1) by (simp add: numeral_2_eq_2)
  have sp: "read_special_path fat32_lseek read_into_page (cur_table s) i buf cnt s = Ret s (-1, [])"
    using assms(8,9,10) by (simp add: read_special_path_def)
  have "fat32_read n buf cnt s = read_file disk_read next_cluster (cur_table s) i cnt s"
    unfolding fat32_read_def fat32_read_with_def Let_def assms(5) obind.simps using assms(6,7) sp by simp
  then show ?thesis
    using cached.read_file_ok [OF ok refl refl assms(8) [symmetric] assms(2-4,13,11,12,14-17)] by (simp add: numeral_2_eq_2)
qed

definition demo_file :: fd where
  "demo_file = demo_fd\<lparr>fd_num := 3, fd_used := 1, fd_length := 5000, first_clus_num := 2, cur_clus_num := 2, cur_sec := 2080\<rparr>"

definition demo_fs :: fsos where
  "demo_fs = os.extend (upd_fd 0 0 (\<lambda>_. demo_file) demo_disk)
    (let r = \<lparr>first_clus = 2, clus_num = 2, sector_num = 2080, inode_name = [47]\<rparr> in
     \<lparr>cwd = r, root = r, cwd_path = [47], elf_files = [], mount_clus = 0, mountpoint = []\<rparr>)"

lemma extend_simps [simp]:
  "bufs (os.extend s r) = bufs s" "bcache (os.extend s r) = bcache s" "lru (os.extend s r) = lru s" "sd_card (os.extend s r) = sd_card s"
  "actual_buf_num (os.extend s r) = actual_buf_num s" "sleeplocks (os.extend s r) = sleeplocks s" "page_lists (os.extend s r) = page_lists s"
  "pageRecyc (os.extend s r) = pageRecyc s" "source_num (os.extend s r) = source_num s" "fat (os.extend s r) = fat s"
  "pfd_tab (os.extend s r) = pfd_tab s" "pcb_tab (os.extend s r) = pcb_tab s" "mylimit (os.extend s r) = mylimit s"
  "status_ctx (os.extend s r) = status_ctx s" "tp (os.extend s r) = tp s" "current_running_master (os.extend s r) = current_running_master s"
  "current_running_slave (os.extend s r) = current_running_slave s"
  by (simp_all add: os.defs)

lemma fs_ok_extend [simp]: "disk_view (os.extend s r) = disk_view s" "fs_ok k (os.extend s r) = fs_ok k s"
  by (simp_all add: disk_view_def fun_eq_iff cong: option.case_cong)
    (simp add: fs_ok_def bio_inv_def cache_inv_def lru_inv_def hashed_def mm_inv_def)

lemma demo_fs_simps:
  "fs_ok 2 demo_fs" "disk_view demo_fs = demo_card" "fat demo_fs = demo_fat" "status_ctx demo_fs = 0" "cur_table demo_fs = 0"
  "fd_at demo_fs 0 0 = demo_file" "MAX_FILE_NUM demo_fs = 110" "get_current_running demo_fs = PCB 1" "pfd (pcb_tab demo_fs (PCB 1)) = 0"
  by (simp_all add: demo_fs_def fs_ok_fd demo_disk_ok) 
     (simp_all add: demo_os_simps demo_simps demo_fs_def upd_fd_def fd_at_def cur_table_def get_current_running_def get_current_cpu_id_def)

theorem fat32_read_reads_file_witness:
  "\<exists>t. fat32_read 3 0xffffffff80300000 6000 demo_fs = Ret t (5000, take 5000 (file_bytes demo_fat demo_card [2, 3]))
    \<and> pos (fd_at t 0 0) = 5000"
proof -
  have f: "fault_pages fat32_lseek read_into_page (page_steps 0xffffffff80300000 (0xffffffff80300000 + 6000)) demo_fs = Ret demo_fs ()"
  proof -
    have "is_kva 0xffffffff80301000"
      unfolding is_kva_def by code_simp
    then show ?thesis
      using demo_kva by (simp add: page_steps_def upt_rec handle_page_fault_store_def)
  qed
  have i: "get_fd_index 3 (get_current_running demo_fs) demo_fs = Some (Some 0)"
  proof -
    have u: "[0..<110] = 0 # [Suc 0..<110]"
      by (rule upt_conv_Cons) simp
    have "redirect 258 demo_fs 0 0 = redirect (Suc 257) demo_fs 0 0"
      by simp
    also have "\<dots> = Some 0"
      unfolding redirect.simps by (simp add: demo_fs_simps demo_file_def demo_fd_def)
    finally show ?thesis
      unfolding get_fd_index_def Let_def demo_fs_simps u by (simp add: demo_fs_simps demo_file_def)
  qed
  have c: "clus_size demo_fat = 4096" "small_clusters demo_fat" "first_sec_of_clus demo_fat 2 = 2080"
    by (simp_all add: clus_size_def small_clusters_def demo_fat_def first_sec_of_clus_def)
  have l: "linked demo_fat demo_card [2, 3]"
    by (simp add: linked_def demo_entries less_Suc_eq)
  have g: "dev demo_file = DEV_DEFAULT" "\<not> kernel_file (fd_name demo_file)" "fd_flags demo_file AND O_DIRECTORY = 0"
    "fd_flags demo_file AND O_WRONLY = 0" "at_cluster demo_fat [2, 3] 0 demo_file" "0 * clus_size demo_fat \<le> unat (fd_length demo_file)"
    "unat (fd_length demo_file) \<le> length [2, 3 :: u32] * clus_size demo_fat" "length [2, 3 :: u32] * clus_size demo_fat < 2 ^ 32"
    "5000 = min (unat (6000 :: u64)) (unat (fd_length demo_file) - 0 * clus_size demo_fat)"
    by (simp_all add: demo_file_def demo_fd_def kernel_file_def ascii_def at_cluster_def c)
  show ?thesis
    using fat32_read_reads_file [OF demo_fs_simps(1) _ _ _ f _ i refl, of "[2, 3]" 0 5000, unfolded demo_fs_simps,
        OF c(2) demo_geom(2) l refl g] by simp blast
qed

end
