(* ===== verification/FatCalls.thy ===== *)
theory FatCalls
  imports FatFile Time
begin

text \<open>
  The other calls of \<open>kernel/fat32/fat32.c\<close>: writing, opening by path, directories, duplicated descriptors, the vector and
  positioned forms, times, renaming, and the start of the file system.
\<close>

section \<open>Writing\<close>

definition grow_chain :: "u32 \<Rightarrow> 'a os_scheme \<Rightarrow> ('a os_scheme, unit) outcome" where
  "grow_chain c s =
    obind (next_cluster c s) (\<lambda>s nx.
      if nx = M_FAT32_EOC then obind (search_empty_cluster s) (\<lambda>s alloc_clus. write_fat_table c alloc_clus s)
      else Ret s ())"

text \<open>The loop of \<open>fat32_write\<close>: \<open>d\<close> are the bytes that are left. A chain that ends is extended before the buffer is
  written.\<close>

fun write_loop :: "nat \<Rightarrow> u32 \<Rightarrow> u32 \<Rightarrow> nat \<Rightarrow> nat \<Rightarrow> u8 list \<Rightarrow> 'a os_scheme \<Rightarrow> ('a os_scheme, unit) outcome" where
  "write_loop 0 old_clus old_sec t i d s = (if d = [] then Ret s () else Panic s)"
| "write_loop (Suc n) old_clus old_sec t i d s =
    (if d = [] then Ret s ()
     else
       let f = fd_at s t i; off = unat (pos f mod ucast (SECTOR_SIZE (fat s)));
           writesize = min (BUFSIZE (fat s) - off) (length d)
       in obind (disk_read (READ_MAX_SEC (fat s)) (cur_sec f) s) (\<lambda>s buffer.
          let crossed = ucast ((pos f + of_nat writesize) div ucast (CLUSTER_SIZE (fat s))) - old_clus \<noteq> 0
          in obind (if crossed then grow_chain (cur_clus_num f) s else Ret s ()) (\<lambda>s _.
             obind (disk_write (READ_MAX_SEC (fat s)) (cur_sec f) (put_bytes off (take writesize d) buffer) s) (\<lambda>s _.
             obind (advance next_cluster old_clus old_sec t i (of_nat writesize) s) (\<lambda>s _.
               write_loop n old_clus old_sec t i (drop writesize d) s)))))"

text \<open>A file without a cluster gets its first one.\<close>

definition first_cluster :: "nat \<Rightarrow> nat \<Rightarrow> 'a os_scheme \<Rightarrow> ('a os_scheme, bool) outcome" where
  "first_cluster t i s =
    (if first_clus_num (fd_at s t i) = 0 then
       obind (search_empty_cluster s) (\<lambda>s c.
         Ret (upd_fd t i (\<lambda>f. f\<lparr>first_clus_num := c, cur_clus_num := c, cur_sec := first_sec_of_clus (fat s) c\<rparr>) s) True)
     else Ret s False)"

text \<open>The new length goes into the directory entry and into the other descriptors of the file.\<close>

definition write_length :: "bool \<Rightarrow> u32 \<Rightarrow> nat \<Rightarrow> nat \<Rightarrow> 'a os_scheme \<Rightarrow> ('a os_scheme, unit) outcome" where
  "write_length first_flag final_length t i s =
    (let f = fd_at s t i; p = unat (dir_offset (fd_dir_pos f)); sec = dir_sec (fd_dir_pos f) in
     if final_length > fd_length f then
       obind (disk_read 1 sec s) (\<lambda>s d.
         let e = (dentry_at d p)\<lparr>file_size := final_length\<rparr>;
             e = (if first_flag then set_cluster_for_dentry (first_clus_num f) e else e)
         in obind (disk_write 1 sec (put_bytes p (dentry_bytes e) d) s) (\<lambda>s _.
            Ret (update_fd_length t i (upd_fd t i (\<lambda>f. f\<lparr>fd_length := file_size e\<rparr>) s)) ()))
     else Ret s ())"

text \<open>The test of \<open>O_RDONLY\<close>, which is 0, never holds. The result has the buffer of the caller.\<close>

definition write_file :: "nat \<Rightarrow> nat \<Rightarrow> u8 list \<Rightarrow> u64 \<Rightarrow> 'a os_scheme \<Rightarrow> ('a os_scheme, int \<times> u8 list) outcome" where
  "write_file t i d cnt s =
    (let f = fd_at s t i in
     if fd_flags f AND O_DIRECTORY \<noteq> 0 then Ret s (- EINVAL, d)
     else if cnt = 0 then Ret s (0, d)
     else obind (kmalloc PAGE_SIZE s) (\<lambda>s page.
          obind (first_cluster t i s) (\<lambda>s first_flag.
          obind (write_loop (unat cnt) (ucast (pos f div ucast (CLUSTER_SIZE (fat s))))
                   (ucast (pos f div ucast (SECTOR_SIZE (fat s)))) t i (take (unat cnt) d) s) (\<lambda>s _.
          obind (write_length first_flag (ucast (pos f + cnt)) t i s) (\<lambda>s _. Ret (kfree page s) (uint cnt, d))))))"

definition fat32_write :: "u32 \<Rightarrow> ptr \<Rightarrow> u8 list \<Rightarrow> u64 \<Rightarrow> 'a fsos_scheme \<Rightarrow> ('a fsos_scheme, int \<times> u8 list) outcome" where
  "fat32_write n buf d cnt s =
    obind (fault_pages fat32_lseek read_into_page (page_steps buf (buf + cnt + 1)) s) (\<lambda>s _.
      let t = cur_table s in
      if status_ctx s \<noteq> 0 then
        obind (write_cpt (ctx_pipes s (ctx_pipe_array (cur_pcb s)) (unat n)) d cnt s) (\<lambda>s v. Ret s (v, d))
      else case get_fd_index n (get_current_running s) s of
        None \<Rightarrow> Panic s
      | Some None \<Rightarrow> Ret s (- EBADF, d)
      | Some (Some i) \<Rightarrow>
          obind (write_special_path t i d cnt s) (\<lambda>s (special_return, d).
            if special_return \<noteq> -1 then Ret s (special_return, d) else write_file t i d cnt s))"

section \<open>Opening\<close>

text \<open>The descriptor for the directory the path itself names.\<close>

definition open_base :: "nat \<Rightarrow> nat \<Rightarrow> bool \<Rightarrow> u8 list \<Rightarrow> u32 \<Rightarrow> 'a fsos_scheme \<Rightarrow> ('a fsos_scheme, unit) outcome" where
  "open_base t i absolute pathname flags s =
    (let d = (if absolute then root s else cwd s) in
     if 50 \<le> length pathname then Panic s
     else Ret (upd_fd t i (\<lambda>f. f\<lparr>fd_name := pathname, fd_flags := flags OR S_IFDIR, nlink := 1, pos := 0, fd_length := 0,
       first_clus_num := first_clus d, cur_clus_num := clus_num d, cur_sec := sector_num d\<rparr>) s) ())"

text \<open>The last name of a path: found, created, or not there.\<close>

definition open_last :: "nat \<Rightarrow> nat \<Rightarrow> nat \<Rightarrow> u32 \<Rightarrow> u8 list \<Rightarrow> u32 \<Rightarrow> u32 \<Rightarrow> 'a fsos_scheme \<Rightarrow> ('a fsos_scheme, int) outcome" where
  "open_last n t i new dname clus flags s =
    (let default_type = (if flags AND O_DIRECTORY = 0 then FILE_FILE else FILE_DIR) in
     obind (if flags AND O_DIRECTORY = 0 then search3 n dname clus s else search n dname clus default_type s) (\<lambda>s r.
       case r of
         Some (e, p) \<Rightarrow> obind (set_fd_from_dentry t i dname e p s) (\<lambda>s _. Ret s (sint new))
       | None \<Rightarrow>
           if flags AND O_CREATE \<noteq> 0 then
             obind (create_new n dname clus default_type s) (\<lambda>s (e, p).
             obind (set_fd_from_dentry t i dname e p s) (\<lambda>s _. Ret s (sint new)))
           else obind (fat32_close new s) (\<lambda>s _. Ret s (- ENOENT))))"

text \<open>The names of a path one after the other; a directory that is missing is created when a file would be. Each step takes
  a slash away, so the length of the path bounds the depth \<open>k\<close>.\<close>

fun open_names :: "nat \<Rightarrow> nat \<Rightarrow> nat \<Rightarrow> nat \<Rightarrow> u32 \<Rightarrow> u8 list \<Rightarrow> u32 \<Rightarrow> u32 \<Rightarrow> 'a fsos_scheme \<Rightarrow> ('a fsos_scheme, int) outcome" where
  "open_names 0 n t i new name clus flags s = Panic s"
| "open_names (Suc k) n t i new name clus flags s =
    (let (dname, rest) = get_next_name name in
     case rest of
       None \<Rightarrow> open_last n t i new dname clus flags s
     | Some name' \<Rightarrow>
         obind (search n dname clus FILE_DIR s) (\<lambda>s r.
           case r of
             Some (e, _) \<Rightarrow> open_names k n t i new name' (get_cluster_from_dentry e) flags s
           | None \<Rightarrow>
               if flags AND O_CREATE \<noteq> 0 then
                 obind (create_new n dname clus FILE_DIR s) (\<lambda>s (e, _).
                   open_names k n t i new name' (get_cluster_from_dentry e) flags s)
               else obind (fat32_close new s) (\<lambda>s _. Ret s (- ENOENT))))"

definition fat32_openat :: "nat \<Rightarrow> u32 \<Rightarrow> u8 list \<Rightarrow> u32 \<Rightarrow> 'a fsos_scheme \<Rightarrow> ('a fsos_scheme, int) outcome" where
  "fat32_openat n fdn pathname flags s =
    (let cur = get_current_running s; t = cur_table s; absolute = is_ab_path pathname;
         base = (if absolute then Some (Some (first_clus (root s)))
                 else if fdn = AT_FDCWD then Some (Some (first_clus (cwd s)))
                 else map_option (map_option (\<lambda>i. first_clus_num (fd_at s t i))) (get_fd_index fdn cur s))
     in case base of
          None \<Rightarrow> Panic s
        | Some None \<Rightarrow> Ret s (- EBADF)
        | Some (Some base_clus) \<Rightarrow>
            (case get_one_fd cur s of
               None \<Rightarrow> Panic s
             | Some (s, new) \<Rightarrow>
                 if new = -1 then Ret s (- EMFILE)
                 else (case get_fd_index new cur s of
                   Some (Some i) \<Rightarrow>
                     obind (open_special_path t i pathname s) (\<lambda>s special.
                       if special then Ret s (sint new)
                       else
                         let copy_path = pre_path (clus_num (root s)) pathname base_clus
                         in obind (kmalloc PAGE_SIZE s) (\<lambda>s buff.
                            obind (if copy_path = []
                                   then obind (open_base t i absolute pathname flags s) (\<lambda>s _. Ret s (sint new))
                                   else open_names (length copy_path + 1) n t i new copy_path base_clus flags s) (\<lambda>s v.
                              Ret (kfree buff s) v)))
                 | _ \<Rightarrow> Panic s)))"

section \<open>The working directory\<close>

text \<open>The address \<open>buf\<close> and the bytes stored there, or NULL.\<close>

definition fat32_getcwd :: "ptr \<Rightarrow> u64 \<Rightarrow> 'a fsos_scheme \<Rightarrow> ptr \<times> u8 list" where
  "fat32_getcwd buf sz s = (if sz < 2 then (NULL, []) else (buf, cwd_path s @ [0]))"

fun strip_dots :: "u8 list \<Rightarrow> u8 list" where
  "strip_dots [] = []"
| "strip_dots [x] = [x]"
| "strip_dots (x # y # zs) = (if x = 46 \<and> y = 47 then strip_dots zs else x # strip_dots (y # zs))"

abbreviation (input) FAT32_MAX_PATH :: nat where "FAT32_MAX_PATH \<equiv> 260"

text \<open>The buffers have \<open>FAT32_MAX_PATH\<close> bytes. A relative path is appended to \<open>cwd_path\<close> as it is.\<close>

definition fat32_chdir :: "nat \<Rightarrow> u8 list \<Rightarrow> 'a fsos_scheme \<Rightarrow> ('a fsos_scheme, int) outcome" where
  "fat32_chdir n dest_path s =
    (let pathname = strip_dots dest_path in
     if FAT32_MAX_PATH \<le> length dest_path then Panic s
     else if pathname = [47] then Ret (s\<lparr>cwd_path := [47], cwd := (cwd s)\<lparr>first_clus := first_clus (root s)\<rparr>\<rparr>) 0
     else obind (if byte_at pathname 0 = 47 then find_dir n (root s) (drop 1 pathname) s else find_dir n (cwd s) pathname s) (\<lambda>s f_dir.
       if byte_at (inode_name f_dir) 0 = 0xff then Ret s (- ENOENT)
       else obind (kmalloc PAGE_SIZE s) (\<lambda>s buff.
         obind (search n (inode_name f_dir) (first_clus f_dir) FILE_DIR s) (\<lambda>s r.
           case r of
             None \<Rightarrow> Ret (kfree buff s) (- ENOENT)
           | Some (e, _) \<Rightarrow>
               let c = get_cluster_from_dentry e;
                   cp = (if byte_at dest_path 0 = 47 then dest_path else cwd_path s @ dest_path)
               in if FAT32_MAX_PATH \<le> length cp then Panic s
                  else Ret (kfree buff (s\<lparr>cwd := (cwd s)\<lparr>first_clus := c, sector_num := first_sec_of_clus (fat s) c,
                         inode_name := inode_name f_dir\<rparr>, cwd_path := cp\<rparr>)) 0))))"

text \<open>\<open>pfd[dirfd]\<close> is the element with this index, not the descriptor with this number. An empty path would read the byte
  before it.\<close>

definition dir_of :: "nat \<Rightarrow> u32 \<Rightarrow> u8 list \<Rightarrow> 'a fsos_scheme \<Rightarrow> ('a fsos_scheme, inode option) outcome" where
  "dir_of n dirfd pathname s =
    (let f = cur_fd s (unat dirfd); some = (\<lambda>r. obind r (\<lambda>s d. Ret s (Some d))) in
     if byte_at pathname 0 = 47 then some (find_dir n (root s) pathname s)
     else if dirfd = AT_FDCWD then some (find_dir n (cwd s) pathname s)
     else if MAX_FD_NUM \<le> unat dirfd then Panic s
     else if fd_used f \<noteq> 0 then some (find_dir n (dir_inode (first_clus_num f)) pathname s)
     else Ret s None)"

definition fat32_mkdirat :: "nat \<Rightarrow> u32 \<Rightarrow> u8 list \<Rightarrow> 'a fsos_scheme \<Rightarrow> ('a fsos_scheme, int) outcome" where
  "fat32_mkdirat n dirfd pathname s =
    obind (kmalloc PAGE_SIZE s) (\<lambda>s buf.
      if pathname = [47] then Ret (kfree buf s) 0
      else if pathname = [] then Panic s
      else
        obind (dir_of n dirfd (if last pathname = 47 then butlast pathname else pathname) s) (\<lambda>s d.
          case d of
            None \<Rightarrow> Ret (kfree buf s) (- EBADF)
          | Some dir \<Rightarrow>
              if byte_at (inode_name dir) 0 = 0xff then Ret (kfree buf s) (- ENOENT)
              else obind (search n (inode_name dir) (first_clus dir) FILE_DIR s) (\<lambda>s r.
                obind (if r = None then obind (create_new n (inode_name dir) (first_clus dir) FILE_DIR s) (\<lambda>s _. Ret s ())
                       else Ret s ()) (\<lambda>s _. Ret (kfree buf s) 0))))"

section \<open>Listing a directory\<close>

abbreviation (input) DT_DIR :: u8 where "DT_DIR \<equiv> 4"
abbreviation (input) DT_REG :: u8 where "DT_REG \<equiv> 8"
abbreviation (input) dirent64_size :: u32 where "dirent64_size \<equiv> 24"

text \<open>An entry of the result and its offset in the buffer of the caller; \<open>d_off\<close> is not stored.\<close>

record linux_dirent64 =
  d_offset :: u32
  d_ino :: u64
  d_reclen :: u16
  d_type :: u8
  d_name :: "u8 list"

text \<open>\<open>skip_deleted\<close> with the number of entries passed.\<close>

fun skip_counted :: "nat \<Rightarrow> cursor \<Rightarrow> nat \<Rightarrow> 'a os_scheme \<Rightarrow> ('a os_scheme, cursor \<times> nat) outcome" where
  "skip_counted 0 c k s = Panic s"
| "skip_counted (Suc n) c k s =
    (if cu_deleted c then obind (next_entry c s) (\<lambda>s c. skip_counted n c (k + 1) s) else Ret s (c, k))"

text \<open>\<open>entry->arributes & ATTR_DIRECTORY != 0\<close> is the lowest bit of the attributes.\<close>

definition mk_dirent :: "u64 \<Rightarrow> dentry \<Rightarrow> u8 list \<Rightarrow> u32 \<Rightarrow> u32 \<Rightarrow> linux_dirent64" where
  "mk_dirent ino e filename at new_len =
    \<lparr>d_offset = at, d_ino = ino, d_reclen = ucast (new_len - at),
     d_type = (if arributes e AND 1 \<noteq> 0 then DT_DIR else DT_REG), d_name = filename\<rparr>"

text \<open>The loop: the cursor, the length and the entries so far, and the number of directory entries passed.\<close>

fun dents_loop :: "nat \<Rightarrow> u32 \<Rightarrow> cursor \<Rightarrow> u32 \<Rightarrow> nat \<Rightarrow> linux_dirent64 list \<Rightarrow> 'a os_scheme \<Rightarrow>
    ('a os_scheme, cursor \<times> u32 \<times> nat \<times> linux_dirent64 list) outcome" where
  "dents_loop 0 len c read_len k out s = Panic s"
| "dents_loop (Suc n) len c read_len k out s =
    (if cu_empty c \<or> \<not> read_len < len then Ret s (c, read_len, k, out)
     else obind (skip_counted n c k s) (\<lambda>s (c, k).
       if cu_empty c then Ret s (c, read_len, k, out)
       else
         let ino = ucast (cu_clus c); longs = (if is_long c then long_num c else 0)
         in obind (entry_name short_name c s) (\<lambda>s (c, filename).
            let k = k + longs; need = read_len + dirent64_size + of_nat (length filename) + 1;
                new_len = need + (8 - need mod 8)
            in if need > len then Ret s (c, read_len, k, out)
               else obind (next_entry c s) (\<lambda>s c'.
                 dents_loop n len c' new_len (k + 1) (out @ [mk_dirent ino (cu_entry c) filename read_len new_len]) s))))"

definition fat32_getdents :: "nat \<Rightarrow> u32 \<Rightarrow> u32 \<Rightarrow> 'a os_scheme \<Rightarrow> ('a os_scheme, u32 \<times> linux_dirent64 list) outcome" where
  "fat32_getdents n fdn len s =
    (let t = cur_table s in
     case get_fd_index fdn (get_current_running s) s of
       Some (Some i) \<Rightarrow>
         let f = fd_at s t i in
         obind (kmalloc PAGE_SIZE s) (\<lambda>s buf.
         obind (read_dir (cur_sec f) \<lparr>cu_p = 0, cu_buf = replicate 4096 0, cu_clus = cur_clus_num f, cu_sec = 0\<rparr> s) (\<lambda>s c.
           let c = c\<lparr>cu_p := unat (pos f mod ucast (SECTOR_SIZE (fat s)))\<rparr> in
           if cu_empty c then Ret (kfree buf s) (0, [])
           else obind (dents_loop n len c 0 0 [] s) (\<lambda>s (c, read_len, k, out).
             let p = pos f + of_nat (32 * k); add_pos = of_nat (32 * k) + p mod ucast (SECTOR_SIZE (fat s))
             in Ret (kfree buf (upd_fd t i (\<lambda>f. f\<lparr>pos := p, cur_clus_num := cu_clus c,
                  cur_sec := cu_sec c + of_nat (unat add_pos div unat (SECTOR_SIZE (fat s)) mod READ_MAX_SEC (fat s))\<rparr>) s))
                  (read_len, out))))
     | _ \<Rightarrow> Panic s)"

section \<open>Status of files and of the volume\<close>

record stat =
  st_dev :: u64
  st_ino :: u64
  st_mode :: u32
  st_nlink :: u32
  st_uid :: u32
  st_gid :: u32
  st_rdev :: u64
  st_size :: i64
  st_blksize :: u32
  st_blocks :: u64
  st_atim :: timespec
  st_mtim :: timespec
  st_ctim :: timespec

definition fstat_of :: "fat_t \<Rightarrow> fd \<Rightarrow> stat" where
  "fstat_of g f = \<lparr>st_dev = ucast (dev f), st_ino = ucast (first_clus_num f), st_mode = fd_flags f, st_nlink = ucast (nlink f),
     st_uid = uid f, st_gid = gid f, st_rdev = rdev f, st_size = ucast (fd_length f), st_blksize = byts_per_clus g,
     st_blocks = ucast (fd_length f div byts_per_clus g), st_atim = \<lparr>ts_sec = atime_sec f, ts_nsec = 0\<rparr>,
     st_mtim = \<lparr>ts_sec = mtime_sec f, ts_nsec = 0\<rparr>, st_ctim = \<lparr>ts_sec = ctime_sec f, ts_nsec = 0\<rparr>\<rparr>"

text \<open>A descriptor that is not there is read at index \<open>-1\<close>.\<close>

definition fat32_fstat :: "u32 \<Rightarrow> 'a os_scheme \<Rightarrow> ('a os_scheme, int \<times> stat) outcome" where
  "fat32_fstat fdn s =
    (case get_fd_index fdn (get_current_running s) s of
       Some (Some i) \<Rightarrow> Ret s (0, fstat_of (fat s) (cur_fd s i))
     | _ \<Rightarrow> Panic s)"

definition fat32_link :: int where
  "fat32_link = - EPERM"

text \<open>What follows the last slash of a path.\<close>

definition last_name :: "u8 list \<Rightarrow> u8 list" where
  "last_name pathname = rev (takeWhile (\<lambda>c. c \<noteq> 47) (rev pathname))"

definition fat32_fstatat :: "nat \<Rightarrow> u32 \<Rightarrow> u8 list \<Rightarrow> 'a fsos_scheme \<Rightarrow> ('a fsos_scheme, int \<times> stat option) outcome" where
  "fat32_fstatat n dirfd pathname s =
    (let stat = (\<lambda>fdn s. obind (fat32_fstat fdn s) (\<lambda>s (_, st). Ret s (0, Some st))) in
     case first_index (\<lambda>i. fd_used (cur_fd s i) \<noteq> 0 \<and> fd_name (cur_fd s i) = last_name pathname) [0..<MAX_FILE_NUM s] of
       Some i \<Rightarrow> stat (fd_num (cur_fd s i)) s
     | None \<Rightarrow>
         obind (fat32_openat n dirfd pathname 0 s) (\<lambda>s fdn.
           if fdn \<ge> 0 then stat (word_of_int fdn) s
           else obind (fat32_openat n dirfd pathname O_DIRECTORY s) (\<lambda>s fdn.
             if fdn \<ge> 0 then obind (fat32_close (word_of_int fdn) s) (\<lambda>s _. Ret s (- EISDIR, None))
             else Ret s (- ENOENT, None))))"

record statfs =
  f_type :: i64
  f_bsize :: i64
  f_blocks :: i64
  f_bfree :: i64
  f_bavail :: i64
  f_files :: i64
  f_ffree :: i64
  f_fsid :: "i32 \<times> i32"
  f_namelen :: i64

definition mk_statfs :: "i64 \<Rightarrow> fat_t \<Rightarrow> statfs" where
  "mk_statfs nfiles g = (let bfree = ucast (data_clus_cnt g - next_free g) in
     \<lparr>f_type = 0x4d44, f_bsize = ucast (byts_per_clus g), f_blocks = ucast (data_clus_cnt g), f_bfree = bfree, f_bavail = bfree,
      f_files = nfiles, f_ffree = nfiles, f_fsid = (2064, 0), f_namelen = 1530\<rparr>)"

definition fat32_statfs :: "'a os_scheme \<Rightarrow> int \<times> statfs" where
  "fat32_statfs s = (0, mk_statfs 10 (fat s))"

definition fat32_fstatfs :: "'a os_scheme \<Rightarrow> int \<times> statfs" where
  "fat32_fstatfs s = (0, mk_statfs 0 (fat s))"

section \<open>Removing and renaming\<close>

abbreviation (input) AT_REMOVEDIR :: u32 where "AT_REMOVEDIR \<equiv> 0x200"

definition temp_file :: "u8 list \<Rightarrow> bool" where
  "temp_file pathname \<longleftrightarrow> take 13 pathname = ascii ''/var/tmp/lat_'' \<or> take 4 pathname = ascii ''lat_''
     \<or> 48 \<le> byte_at pathname 0 \<and> byte_at pathname 0 \<le> 57"

text \<open>The entries of a name are marked as deleted; its clusters stay in use.\<close>

definition remove_entries :: "dir_pos \<Rightarrow> 'a os_scheme \<Rightarrow> ('a os_scheme, unit) outcome" where
  "remove_entries p s =
    (let sec = dir_sec p in
     obind (read_dir sec \<lparr>cu_p = 0, cu_buf = replicate 4096 0, cu_clus = clus_of_sec (fat s) sec, cu_sec = sec\<rparr> s) (\<lambda>s c.
     obind (put_entries (replicate (unat (dir_len p)) [EMPTY_ENTRY]) (c\<lparr>cu_p := unat (dir_offset p)\<rparr>) s) (\<lambda>s c. write_dir c s)))"

text \<open>\<open>arg1\<close> is the second string of the command line of the process.\<close>

definition fat32_unlink :: "nat \<Rightarrow> u8 list \<Rightarrow> u32 \<Rightarrow> u8 list \<Rightarrow> u32 \<Rightarrow> 'a fsos_scheme \<Rightarrow> ('a fsos_scheme, int) outcome" where
  "fat32_unlink n arg1 dirfd pathname flags s =
    (if pid (cur_pcb s) \<noteq> 1 \<and> arg1 = ascii ''lat_fs'' \<and> temp_file pathname then Ret s 0
     else obind (kmalloc PAGE_SIZE s) (\<lambda>s buf.
       if dirfd \<noteq> AT_FDCWD then Ret (kfree buf s) (- EBADF)
       else obind (find_dir n (if byte_at pathname 0 = 47 then root s else cwd s) pathname s) (\<lambda>s dir.
         if byte_at (inode_name dir) 0 = 0xff then Ret (kfree buf s) (- ENOENT)
         else obind (search2 n (inode_name dir) (first_clus dir) (if flags AND AT_REMOVEDIR = 0 then FILE_FILE else FILE_DIR) s) (\<lambda>s r.
           case r of
             None \<Rightarrow> Ret (kfree buf s) (- ENOENT)
           | Some (_, p) \<Rightarrow> obind (remove_entries p s) (\<lambda>s _. Ret (kfree buf s) 0)))))"

text \<open>\<open>search2\<close> for a file and then for a directory.\<close>

definition search_any :: "nat \<Rightarrow> inode \<Rightarrow> 'a os_scheme \<Rightarrow> ('a os_scheme, (cursor \<times> dir_pos) option) outcome" where
  "search_any n dir s =
    obind (search2 n (inode_name dir) (first_clus dir) FILE_FILE s) (\<lambda>s r.
      if r = None then search2 n (inode_name dir) (first_clus dir) FILE_DIR s else Ret s r)"

text \<open>The number of sectors that are copied: the sum is the condition of the conditional expression.\<close>

definition file_sec :: "fat_t \<Rightarrow> dentry \<Rightarrow> nat" where
  "file_sec g e = (if file_size e div SECTOR_SIZE g + (if file_size e mod SECTOR_SIZE g = 0 then 1 else 0) \<noteq> 0 then 0 else 1)"

fun copy_sectors :: "nat \<Rightarrow> nat \<Rightarrow> u32 \<Rightarrow> u32 \<Rightarrow> 'a os_scheme \<Rightarrow> ('a os_scheme, unit) outcome" where
  "copy_sectors 0 copied old_clus new_clus s = Ret s ()"
| "copy_sectors (Suc n) copied old_clus new_clus s =
    (let read_count = of_nat (copied mod unat (SEC_PER_CLU (fat s))) in
     obind (disk_read 1 (first_sec_of_clus (fat s) old_clus + read_count) s) (\<lambda>s d.
     obind (disk_write 1 (first_sec_of_clus (fat s) new_clus + read_count) d s) (\<lambda>s _.
       if (copied + 1) mod unat (SEC_PER_CLU (fat s)) = 0 then
         obind (next_cluster old_clus s) (\<lambda>s old_clus.
         obind (next_cluster new_clus s) (\<lambda>s new_clus. copy_sectors n (copied + 1) old_clus new_clus s))
       else copy_sectors n (copied + 1) old_clus new_clus s)))"

text \<open>\<open>old_dentry\<close> is the first entry of the old name, a long one if the name is long, in the buffer as the search left
  it.\<close>

definition fat32_renameat2 :: "nat \<Rightarrow> u32 \<Rightarrow> u8 list \<Rightarrow> u32 \<Rightarrow> u8 list \<Rightarrow> u32 \<Rightarrow> 'a fsos_scheme \<Rightarrow> ('a fsos_scheme, int) outcome" where
  "fat32_renameat2 n olddirfd oldpath newdirfd newpath flags s =
    (if flags \<noteq> 0 then Panic s
     else obind (kmalloc PAGE_SIZE s) (\<lambda>s old_buf.
       if olddirfd \<noteq> AT_FDCWD then Ret (kfree old_buf s) (- EBADF)
       else obind (find_dir n (if byte_at oldpath 0 = 47 then root s else cwd s) oldpath s) (\<lambda>s old_dir.
         if byte_at (inode_name old_dir) 0 = 0xff then Ret (kfree old_buf s) (- ENOENT)
         else obind (search_any n old_dir s) (\<lambda>s r.
           case r of
             None \<Rightarrow> Ret (kfree old_buf s) (- ENOENT)
           | Some (oc, old_pos) \<Rightarrow>
               let old_dentry = dentry_at (cu_buf oc) (unat (dir_offset old_pos)) in
               obind (kmalloc PAGE_SIZE s) (\<lambda>s new_buf.
                 if newdirfd \<noteq> AT_FDCWD then Ret (kfree new_buf (kfree old_buf s)) (- EBADF)
                 else obind (find_dir n (if byte_at newpath 0 = 47 then root s else cwd s) newpath s) (\<lambda>s new_dir.
                   if byte_at (inode_name new_dir) 0 = 0xff then Ret (kfree new_buf (kfree old_buf s)) (- ENOENT)
                   else obind (search_any n new_dir s) (\<lambda>s r.
                     obind (case r of None \<Rightarrow> Ret s () | Some (_, new_pos) \<Rightarrow> remove_entries new_pos s) (\<lambda>s _.
                     obind (create_new n (inode_name new_dir) (first_clus new_dir)
                              (if arributes old_dentry = ATTR_DIRECTORY then FILE_DIR else FILE_FILE) s) (\<lambda>s (new_dentry, _).
                     obind (kmalloc PAGE_SIZE s) (\<lambda>s copy_buf.
                     obind (copy_sectors (file_sec (fat s) old_dentry) 0 (get_cluster_from_dentry old_dentry)
                              (get_cluster_from_dentry new_dentry) s) (\<lambda>s _.
                     obind (remove_entries old_pos (kfree copy_buf s)) (\<lambda>s _.
                       Ret (kfree new_buf (kfree old_buf s)) 0))))))))))))"

section \<open>Descriptors\<close>

definition fat32_dup :: "u32 \<Rightarrow> 'a os_scheme \<Rightarrow> ('a os_scheme, int) outcome" where
  "fat32_dup src_fd s =
    (let cur = get_current_running s; t = cur_table s in
     case get_fd_index src_fd cur s of
       None \<Rightarrow> Panic s
     | Some None \<Rightarrow> Ret s (- EBADF)
     | Some (Some i) \<Rightarrow>
         (case get_one_fd cur s of
            None \<Rightarrow> Panic s
          | Some (s, new) \<Rightarrow>
              if new = -1 then Ret s (- EMFILE)
              else (case get_fd_index new cur s of
                Some (Some j) \<Rightarrow>
                  Ret (upd_fd t j (\<lambda>f. f\<lparr>dev := dev (fd_at s t i), redirected := 1, redirected_fd_index := of_nat i\<rparr>) s) (sint new)
              | _ \<Rightarrow> Panic s)))"

text \<open>When no element of the table has the number, a new descriptor is taken and \<open>dev\<close> is stored in the element after the
  last one that may be used.\<close>

definition fat32_dup3 :: "u32 \<Rightarrow> u32 \<Rightarrow> 'a os_scheme \<Rightarrow> ('a os_scheme, int) outcome" where
  "fat32_dup3 src_fd dst_fd s =
    (if src_fd = dst_fd then Ret s (- EINVAL)
     else
       let cur = get_current_running s; t = cur_table s in
       case get_fd_index src_fd cur s of
         None \<Rightarrow> Panic s
       | Some None \<Rightarrow> Ret s (- EBADF)
       | Some (Some i) \<Rightarrow>
           (case get_fd_index dst_fd cur s of
              None \<Rightarrow> Panic s
            | Some dst \<Rightarrow>
                obind (if dst \<noteq> None then fat32_close dst_fd s else Ret s 0) (\<lambda>s _.
                  case first_index (\<lambda>j. fd_num (fd_at s t j) = dst_fd) [0..<MAX_FILE_NUM s] of
                    Some j \<Rightarrow>
                      Ret (upd_fd t j (\<lambda>f. f\<lparr>fd_used := 1, dev := dev (fd_at s t i), redirected := 1,
                        redirected_fd_index := of_nat i\<rparr>) s) (sint dst_fd)
                  | None \<Rightarrow>
                      (case get_one_fd cur s of
                         None \<Rightarrow> Panic s
                       | Some (s, new) \<Rightarrow>
                           (case get_fd_index new cur s of
                              Some (Some j) \<Rightarrow>
                                if MAX_FD_NUM \<le> MAX_FILE_NUM s then Panic s
                                else
                                  let s = upd_fd t j (\<lambda>f. f\<lparr>fd_num := dst_fd, redirected := 1\<rparr>) s;
                                      s = upd_fd t (MAX_FILE_NUM s) (\<lambda>f. f\<lparr>dev := dev (fd_at s t i)\<rparr>) s
                                  in Ret (upd_fd t j (\<lambda>f. f\<lparr>redirected_fd_index := of_nat i\<rparr>) s) (sint dst_fd)
                            | _ \<Rightarrow> Panic s)))))"

abbreviation (input) F_GETFD :: i32 where "F_GETFD \<equiv> 1"
abbreviation (input) F_SETFD :: i32 where "F_SETFD \<equiv> 2"
abbreviation (input) F_GETFL :: i32 where "F_GETFL \<equiv> 3"
abbreviation (input) F_SETFL :: i32 where "F_SETFL \<equiv> 4"
abbreviation (input) F_GETLK :: i32 where "F_GETLK \<equiv> 5"
abbreviation (input) F_SETLK :: i32 where "F_SETLK \<equiv> 6"

text \<open>\<open>lk\<close> is the structure at the address \<open>arg\<close>; the result has what \<open>F_GETLK\<close> stores there.\<close>

definition fat32_fcntl :: "u32 \<Rightarrow> i32 \<Rightarrow> i32 \<Rightarrow> flock \<Rightarrow> 'a os_scheme \<Rightarrow> ('a os_scheme, int \<times> flock option) outcome" where
  "fat32_fcntl fdn cmd arg lk s =
    (let t = cur_table s in
     case get_fd_index fdn (get_current_running s) s of
       None \<Rightarrow> Panic s
     | Some None \<Rightarrow> Ret s (- EBADF, None)
     | Some (Some i) \<Rightarrow>
         if cmd = F_GETFL then Ret s (sint (fd_flags (fd_at s t i)), None)
         else if cmd = F_GETFD then Ret s (sint (fd_mode (fd_at s t i)), None)
         else if cmd = F_SETFL then Ret (upd_fd t i (\<lambda>f. f\<lparr>fd_flags := arg\<rparr>) s) (0, None)
         else if cmd = F_SETFD then Ret (upd_fd t i (\<lambda>f. f\<lparr>fd_mode := arg\<rparr>) s) (0, None)
         else if cmd = F_SETLK then Ret (upd_fd t i (\<lambda>f. f\<lparr>fd_flock := lk\<rparr>) s) (0, None)
         else if cmd = F_GETLK then Ret s (0, Some (fd_flock (fd_at s t i)))
         else Ret s (0, None))"

section \<open>Properties\<close>

text \<open>C7: Writing past the end of a file extends its chain of clusters: with the last cluster of the chain as argument, the
  first free cluster of the volume is found whatever the size of the table, it is appended to the chain and marked as its
  end, and the entries of all other clusters and all sectors of data stay as they were. The second copy of the table gets
  the same two new entries and keeps all its other ones, so copies that agreed still agree.\<close>

theorem grow_chain_appends:
  assumes "fs_ok 2 s" and "fat_geom (fat s)" and "sectors512 (disk_view s)" and "is_chain (fat s) (disk_view s) cs"
    and "first_free (fat s) (disk_view s) m" and "m \<noteq> 0"
  shows "\<exists>t. grow_chain (last cs) s = Ret t () \<and> fs_ok 2 t \<and> fat t = fat s \<and> sectors512 (disk_view t)
    \<and> is_chain (fat s) (disk_view t) (cs @ [of_nat m])
    \<and> (\<forall>c. in_fat (fat s) c \<and> c \<noteq> last cs \<and> c \<noteq> of_nat m \<longrightarrow> fat_entry (fat s) (disk_view t) c = fat_entry (fat s) (disk_view s) c)
    \<and> (\<forall>c. in_fat (fat s) c \<longrightarrow> fat_entry2 (fat s) (disk_view t) c =
         (if c = last cs then of_nat m else if c = of_nat m then M_FAT32_EOC else fat_entry2 (fat s) (disk_view s) c))
    \<and> (\<forall>sec. unat (first_data_sec (fat s)) \<le> unat sec \<longrightarrow> disk_view t sec = disk_view s sec)"
proof -
  let ?f = "fat s" and ?v = "disk_view s" and ?c = "last cs" and ?m = "of_nat m :: u32"
  have ok: "fs_ok (Suc (Suc 0)) s"
    using assms(1) by (simp add: numeral_2_eq_2)
  have c: "?c \<noteq> 0" "in_fat ?f ?c" "fat_entry ?f ?v ?c = M_FAT32_EOC"
    using assms(4) last_in_set [of cs] by (auto simp: is_chain_def)
  have m: "in_fat ?f ?m" "unat ?m = m" "?m \<noteq> 0" "fat_entry ?f ?v ?m = 0"
    using first_free_in_fat [OF assms(5) order_refl] assms(5,6) by (auto simp: first_free_def)
  have new: "?m \<notin> set cs"
    using is_chain_used [OF assms(4)] m(4) by blast
  obtain t1 where t1: "next_cluster ?c s = Ret t1 (fat_entry ?f ?v ?c)" "fs_ok (Suc (Suc 0)) t1" "fs_frame s t1" "disk_view t1 = ?v"
    using next_cluster_ok [OF ok] by blast
  have f1: "fat t1 = ?f" using t1(3) by (simp add: fs_frame_def)
  obtain t2 where t2: "search_empty_cluster t1 = Ret t2 ?m" "fs_ok (Suc (Suc 0)) t2" "fs_frame t1 t2" "disk_view t2 = link_view ?f 0 ?m ?v"
    using search_empty_cluster_ok [OF t1(2), of m] assms(2,5) f1 t1(4) by auto
  have f2: "fat t2 = ?f" using t2(3) f1 by (simp add: fs_frame_def)
  obtain t3 where t3: "write_fat_table ?c ?m t2 = Ret t3 ()" "fs_ok (Suc (Suc 0)) t3" "fs_frame t2 t3" "disk_view t3 = link_view ?f ?c ?m (disk_view t2)"
    using write_fat_table_ok [OF t2(2)] f2 by metis
  have f3: "fat t3 = ?f" using t3(3) f2 by (simp add: fs_frame_def)
  note l1 = link_view_entry [OF assms(2) _ m(1) _ assms(3), of 0]
  have s2: "sectors512 (link_view ?f 0 ?m ?v)"
    using l1(2) [OF _ m(1)] by simp
  note l2 = link_view_entry [OF assms(2) _ m(1) _ s2, of ?c]
  have e: "fat_entry ?f (disk_view t3) x = (if x = ?c then ?m else if x = ?m then M_FAT32_EOC else fat_entry ?f ?v x)" if "in_fat ?f x" for x
    unfolding t3(4) t2(4) using l2(1) [OF _ that] l1(1) [OF _ that] c m FAT_MASK_small [of ?m] by (simp add: in_fat_def)
  have e2: "fat_entry2 ?f (disk_view t3) x = (if x = ?c then ?m else if x = ?m then M_FAT32_EOC else fat_entry2 ?f ?v x)" if "in_fat ?f x" for x
    unfolding t3(4) t2(4) using l2(4) [OF _ that] l1(4) [OF _ that] c m FAT_MASK_small [of ?m] by (simp add: in_fat_def)
  have "is_chain ?f (disk_view t3) (cs @ [?m])"
    using is_chain_append [OF assms(4) new m(3,1) e] .
  moreover have "sectors512 (disk_view t3)"
    unfolding t3(4) t2(4) using l2(2) [OF _ m(1)] c(2) by simp
  moreover have "disk_view t3 sec = ?v sec" if "unat (first_data_sec ?f) \<le> unat sec" for sec
    unfolding t3(4) t2(4) using l2(3) [OF _ m(1) that] l1(3) [OF _ m(1) that] c(2) by simp
  moreover have "grow_chain ?c s = Ret t3 ()"
    using t1(1) t2(1) t3(1) c(3) by (simp add: grow_chain_def)
  ultimately show ?thesis
    using t3(2) f3 e e2 by (intro exI [of _ t3]) (simp add: numeral_2_eq_2)
qed

theorem grow_chain_appends_witness:
  "\<exists>t. grow_chain 3 demo_disk = Ret t () \<and> is_chain demo_fat (disk_view t) [2, 3, 4] \<and> fat_entry2 demo_fat (disk_view t) 3 = 4"
  using grow_chain_appends [OF demo_disk_ok, of "[2, 3]" 4] demo_geom demo_chain demo_entries(4) by auto

end
