(* ===== verification/FatIo.thy ===== *)
theory FatIo
  imports FatCalls
begin

text \<open>
  The calls that are built from reading, writing, seeking and opening: the vector and positioned forms, \<open>sendfile\<close>, times and
  access (\<open>kernel/fat32/fat32.c\<close>), mappings of files (\<open>kernel/fat32/mmap.c\<close> and \<open>unmap_write_back\<close> of \<open>kernel/mm/mm.c\<close>), mounting
  (\<open>kernel/fat32/mount.c\<close>), and the start of the file system.
\<close>

section \<open>Vectors and positions\<close>

text \<open>An element of the vector is an address with a length; the result has the bytes stored at each address. When the first
  length is 0 the count is not set.\<close>

fun readv_loop :: "u32 \<Rightarrow> (ptr \<times> u64) list \<Rightarrow> int option \<Rightarrow> int \<Rightarrow> u8 list list \<Rightarrow> 'a fsos_scheme \<Rightarrow>
    ('a fsos_scheme, int \<times> u8 list list) outcome" where
  "readv_loop fdn [] cur_count tot out s = Ret s (tot, out)"
| "readv_loop fdn ((base, len) # iov) cur_count tot out s =
    obind (if len \<noteq> 0 then obind (fat32_read fdn base len s) (\<lambda>s (v, d). Ret s (Some v, d)) else Ret s (cur_count, [])) (\<lambda>s (c, d).
      case c of
        None \<Rightarrow> Panic s
      | Some v \<Rightarrow> if v < 0 then Ret s (v, out @ [d]) else readv_loop fdn iov c (tot + v) (out @ [d]) s)"

definition fat32_readv :: "u32 \<Rightarrow> (ptr \<times> u64) list \<Rightarrow> 'a fsos_scheme \<Rightarrow> ('a fsos_scheme, int \<times> u8 list list) outcome" where
  "fat32_readv fdn iov s = readv_loop fdn iov None 0 [] s"

text \<open>An element is an address with the bytes there. The count of one write is an \<open>int\<close>.\<close>

fun writev_loop :: "u32 \<Rightarrow> (ptr \<times> u8 list) list \<Rightarrow> int \<Rightarrow> 'a fsos_scheme \<Rightarrow> ('a fsos_scheme, int) outcome" where
  "writev_loop fdn [] tot s = Ret s tot"
| "writev_loop fdn ((base, d) # iov) tot s =
    obind (if d \<noteq> [] then obind (fat32_write fdn base d (of_nat (length d)) s) (\<lambda>s (v, _). Ret s (sint (word_of_int v :: i32)))
           else Ret s 0) (\<lambda>s cur_count.
      if cur_count < 0 then Ret s cur_count else writev_loop fdn iov (tot + cur_count) s)"

definition fat32_writev :: "u32 \<Rightarrow> (ptr \<times> u8 list) list \<Rightarrow> 'a fsos_scheme \<Rightarrow> ('a fsos_scheme, int) outcome" where
  "fat32_writev fdn iov s = writev_loop fdn iov 0 s"

definition fat32_pread :: "u32 \<Rightarrow> ptr \<Rightarrow> u64 \<Rightarrow> u64 \<Rightarrow> 'a fsos_scheme \<Rightarrow> ('a fsos_scheme, int \<times> u8 list) outcome" where
  "fat32_pread fdn buf cnt offset s =
    obind (fat32_lseek fdn 0 SEEK_CUR s) (\<lambda>s backup.
    obind (fat32_lseek fdn offset SEEK_SET s) (\<lambda>s _.
    obind (fat32_read fdn buf cnt s) (\<lambda>s r.
    obind (fat32_lseek fdn backup SEEK_SET s) (\<lambda>s _. Ret s r))))"

definition fat32_pwrite :: "u32 \<Rightarrow> ptr \<Rightarrow> u8 list \<Rightarrow> u64 \<Rightarrow> u64 \<Rightarrow> 'a fsos_scheme \<Rightarrow> ('a fsos_scheme, int \<times> u8 list) outcome" where
  "fat32_pwrite fdn buf d cnt offset s =
    obind (fat32_lseek fdn 0 SEEK_CUR s) (\<lambda>s backup.
    obind (fat32_lseek fdn offset SEEK_SET s) (\<lambda>s _.
    obind (fat32_write fdn buf d cnt s) (\<lambda>s r.
    obind (fat32_lseek fdn backup SEEK_SET s) (\<lambda>s _. Ret s r))))"

text \<open>The loop of \<open>fat32_sendfile\<close> moves whole pages; every round that goes on has read a byte.\<close>

fun send_loop :: "nat \<Rightarrow> u32 \<Rightarrow> u32 \<Rightarrow> ptr \<Rightarrow> u64 \<Rightarrow> i32 \<Rightarrow> 'a fsos_scheme \<Rightarrow> ('a fsos_scheme, i32) outcome" where
  "send_loop 0 out_fd in_fd buff cnt write_count s = (if scast write_count < cnt then Panic s else Ret s write_count)"
| "send_loop (Suc n) out_fd in_fd buff cnt write_count s =
    (if scast write_count < cnt then
       obind (fat32_read in_fd buff NORMAL_PAGE_SIZE s) (\<lambda>s (v, d).
         let read_count = word_of_int v :: i32 in
         if sint read_count \<le> 0 then Ret s write_count
         else obind (fat32_write out_fd buff d (scast read_count) s) (\<lambda>s _.
           send_loop n out_fd in_fd buff cnt (write_count + read_count) s))
     else Ret s write_count)"

definition fat32_sendfile :: "u32 \<Rightarrow> u32 \<Rightarrow> i64 option \<Rightarrow> u64 \<Rightarrow> 'a fsos_scheme \<Rightarrow> ('a fsos_scheme, int \<times> i64 option) outcome" where
  "fat32_sendfile out_fd in_fd offset cnt s =
    (case (get_fd_index out_fd (get_current_running s) s, get_fd_index in_fd (get_current_running s) s) of
       (Some (Some _), Some (Some _)) \<Rightarrow>
         obind (kmalloc PAGE_SIZE s) (\<lambda>s buff.
         obind (case offset of
                  None \<Rightarrow> Ret s 0
                | Some off \<Rightarrow> obind (fat32_lseek in_fd 0 SEEK_CUR s) (\<lambda>s old.
                    obind (fat32_lseek in_fd off SEEK_SET s) (\<lambda>s _. Ret s (ucast old :: i32)))) (\<lambda>s old.
         obind (send_loop (unat cnt) out_fd in_fd buff cnt 0 s) (\<lambda>s write_count.
         obind (case offset of None \<Rightarrow> Ret s None
                | Some off \<Rightarrow> obind (fat32_lseek in_fd (scast old) SEEK_SET s) (\<lambda>s _. Ret s (Some (off + scast write_count)))) (\<lambda>s off.
           Ret (kfree buff s) (sint write_count, off)))))
     | (Some None, _) \<Rightarrow> Ret s (- EBADF, offset)
     | (Some (Some _), Some None) \<Rightarrow> Ret s (- EBADF, offset)
     | _ \<Rightarrow> Panic s)"

section \<open>Times and access\<close>

abbreviation (input) UTIME_NOW :: u64 where "UTIME_NOW \<equiv> 0x3fffffff"
abbreviation (input) UTIME_OMIT :: u64 where "UTIME_OMIT \<equiv> 0x3ffffffe"

text \<open>The time that is stored, if any; the microseconds of \<open>do_gettimeofday\<close> go into the nanoseconds.\<close>

definition utime :: "timespec option \<Rightarrow> 'a kernel_scheme \<Rightarrow> timespec option" where
  "utime ts s =
    (let now = (let tv = fst (do_gettimeofday s) in \<lparr>ts_sec = tv_sec tv, ts_nsec = tv_usec tv\<rparr>) in
     case ts of None \<Rightarrow> Some now
     | Some x \<Rightarrow> if ts_nsec x = UTIME_NOW then Some now else if ts_nsec x \<noteq> UTIME_OMIT then Some x else None)"

definition set_times :: "(timespec \<times> timespec) option \<Rightarrow> nat \<Rightarrow> 'a os_scheme \<Rightarrow> 'a os_scheme" where
  "set_times utimes i s =
    (let t = cur_table s;
         s = (case utime (map_option fst utimes) s of None \<Rightarrow> s
              | Some x \<Rightarrow> upd_fd t i (\<lambda>f. f\<lparr>atime_sec := ts_sec x, atime_nsec := ts_nsec x\<rparr>) s)
     in case utime (map_option snd utimes) s of None \<Rightarrow> s
        | Some x \<Rightarrow> upd_fd t i (\<lambda>f. f\<lparr>mtime_sec := ts_sec x, mtime_nsec := ts_nsec x\<rparr>) s)"

definition utime_fd :: "bool \<Rightarrow> int \<Rightarrow> (timespec \<times> timespec) option \<Rightarrow> 'a os_scheme \<Rightarrow> ('a os_scheme, int) outcome" where
  "utime_fd futimens fdn utimes s =
    (if fdn < 0 then Ret s (- ENOENT)
     else case get_fd_index (word_of_int fdn) (get_current_running s) s of
       None \<Rightarrow> Panic s
     | Some None \<Rightarrow> Ret s (- EBADF)
     | Some (Some i) \<Rightarrow>
         let s = set_times utimes i s
         in if futimens then Ret s 0 else obind (fat32_close (word_of_int fdn) s) (\<lambda>s _. Ret s 0))"

definition fat32_utimensat :: "nat \<Rightarrow> u32 \<Rightarrow> u8 list option \<Rightarrow> (timespec \<times> timespec) option \<Rightarrow> 'a fsos_scheme \<Rightarrow> ('a fsos_scheme, int) outcome" where
  "fat32_utimensat n dirfd pathname utimes s =
    (case pathname of
       None \<Rightarrow> utime_fd True (sint dirfd) utimes s
     | Some p \<Rightarrow>
         obind (fat32_openat n dirfd p 0 s) (\<lambda>s fdn.
           if fdn \<ge> 0 then utime_fd False fdn utimes s
           else obind (fat32_openat n dirfd p O_DIRECTORY s) (\<lambda>s fdn.
             if fdn \<ge> 0 then utime_fd False fdn utimes s else Ret s fdn)))"

definition fat32_faccessat :: "nat \<Rightarrow> u32 \<Rightarrow> u8 list \<Rightarrow> u32 \<Rightarrow> 'a fsos_scheme \<Rightarrow> ('a fsos_scheme, int) outcome" where
  "fat32_faccessat n dirfd pathname flags s =
    obind (fat32_openat n dirfd pathname flags s) (\<lambda>s fdn.
      if fdn \<ge> 0 then obind (fat32_close (word_of_int fdn) s) (\<lambda>s _. Ret s 0) else Ret s fdn)"

definition fat32_fsync :: "'a os_scheme \<Rightarrow> 'a os_scheme \<times> int" where
  "fat32_fsync s = (bsync s, 0)"

definition fat32_readlinkat :: "u8 list \<Rightarrow> 'a os_scheme \<Rightarrow> ('a os_scheme, int \<times> u8 list) outcome" where
  "fat32_readlinkat pathname s =
    (if pathname = ascii ''/proc/self/exe'' then Ret s (int (length (ascii ''/lmbench_all'')), ascii ''/lmbench_all'' @ [0])
     else Panic s)"

section \<open>Mappings of files\<close>

abbreviation (input) MAP_ANONYMOUS :: i32 where "MAP_ANONYMOUS \<equiv> 0x20"

text \<open>Room at the program break for a mapping without an address.\<close>

definition map_at_break :: "u64 \<Rightarrow> u64 \<Rightarrow> 'a mmkernel_scheme \<Rightarrow> 'a mmkernel_scheme \<times> u64" where
  "map_at_break start len s =
    (if start = NULL then
       let (s, b) = lazy_brk 0 s; (s, b) = lazy_brk (ROUND b) s; (s, _) = lazy_brk (b + ROUND len) s in (s, b)
     else (s, start))"

definition fat32_mmap :: "ptr \<Rightarrow> u64 \<Rightarrow> i32 \<Rightarrow> i32 \<Rightarrow> u32 \<Rightarrow> i64 \<Rightarrow> 'a os_scheme \<Rightarrow> ('a os_scheme, i64) outcome" where
  "fat32_mmap start len prot flags fdn off s =
    (let t = cur_table s; off = (if off mod NORMAL_PAGE_SIZE \<noteq> 0 then off - off mod NORMAL_PAGE_SIZE + NORMAL_PAGE_SIZE else off) in
     if len = 0 \<or> start mod NORMAL_PAGE_SIZE \<noteq> 0 then Ret s (word_of_int (- EINVAL))
     else if flags AND MAP_ANONYMOUS \<noteq> 0 then
       if fdn \<noteq> -1 then Ret s (word_of_int (- EBADF))
       else let (s, start) = map_at_break start len s in Ret s start
     else case get_fd_index fdn (get_current_running s) s of
       None \<Rightarrow> Panic s
     | Some None \<Rightarrow> Ret s (word_of_int (- EBADF))
     | Some (Some i) \<Rightarrow>
         let (s, start) = map_at_break start len s
         in Ret (upd_fd t i (\<lambda>f. f\<lparr>fd_mmap := \<lparr>mmap_used = 1, mmap_start = start, mmap_len = len, mmap_prot = prot,
              mmap_flags = flags, mmap_off = off\<rparr>\<rparr>) s) start)"

text \<open>The bytes of a page from its words.\<close>

definition load_bytes :: "u64 \<Rightarrow> nat \<Rightarrow> mem64 \<Rightarrow> u8 list" where
  "load_bytes a k m = map (\<lambda>i. let b = a + of_nat i in ucast (drop_bit (8 * unat (b AND 7)) (m (b AND NOT 7)))) [0..<k]"

text \<open>\<open>unmap_write_back\<close> for the pages of a range; pages that are not mapped or not dirty are passed over.\<close>

fun write_back :: "nat \<Rightarrow> u64 \<Rightarrow> u64 \<Rightarrow> u64 list \<Rightarrow> 'a fsos_scheme \<Rightarrow> ('a fsos_scheme, unit) outcome" where
  "write_back i begin e [] s = Ret s ()"
| "write_back i begin e (p # ps) s =
    (let pgd = pgdir (cur_pcb s); pte = get_PTE_of (mem s) p pgd in
     if pte = NULL \<or> mem s pte AND PAGE_DIRTY = 0 then write_back i begin e ps s
     else
       let f = cur_fd s i; k = (if e - p < NORMAL_PAGE_SIZE then e - p else NORMAL_PAGE_SIZE)
       in obind (fat32_lseek (fd_num f) (mmap_off (fd_mmap f) + (p - begin)) SEEK_SET s) (\<lambda>s _.
          obind (fat32_write (fd_num f) p (load_bytes (get_kva_of (mem s) p pgd) (unat k) (mem s)) k s) (\<lambda>s _.
            write_back i begin e ps s)))"

definition unmap_write_back :: "u64 \<Rightarrow> u64 \<Rightarrow> nat \<Rightarrow> 'a fsos_scheme \<Rightarrow> ('a fsos_scheme, unit) outcome" where
  "unmap_write_back start len i s = write_back i start (start + len) (page_steps start (start + len)) s"

definition shrink_map :: "u64 \<Rightarrow> mmap_area \<Rightarrow> mmap_area" where
  "shrink_map len a =
    (if mmap_len a = len then a\<lparr>mmap_used := 0\<rparr>
     else if mmap_len a > len then a\<lparr>mmap_start := mmap_start a + len, mmap_len := mmap_len a - len, mmap_off := mmap_off a + len\<rparr>
     else a)"

definition fat32_munmap :: "ptr \<Rightarrow> u64 \<Rightarrow> 'a fsos_scheme \<Rightarrow> ('a fsos_scheme, int) outcome" where
  "fat32_munmap start len s =
    (let t = cur_table s; cur = get_current_running s in
     case first_index (\<lambda>i. fd_used (fd_at s t i) \<noteq> 0 \<and> mmap_used (fd_mmap (fd_at s t i)) \<noteq> 0
            \<and> mmap_start (fd_mmap (fd_at s t i)) = start) [0..<MAX_FILE_NUM s] of
       None \<Rightarrow> Ret s (- EINVAL)
     | Some i \<Rightarrow>
         obind (fat32_lseek (fd_num (fd_at s t i)) 0 SEEK_CUR s) (\<lambda>s old_seek.
         obind (unmap_write_back start len i s) (\<lambda>s _.
         obind (fat32_lseek (fd_num (fd_at s t i)) (scast (ucast old_seek :: i32)) SEEK_SET s) (\<lambda>s _.
           let s = upd_fd t i (\<lambda>f. f\<lparr>fd_mmap := shrink_map len (fd_mmap f)\<rparr>) s;
               s = fold (brk_free (pgdir (cur_pcb s))) (page_steps start (start + len)) s;
               s = (if edata (cur_pcb s) = start + ROUND len then upd_pcb cur (\<lambda>p. p\<lparr>edata := start\<rparr>) s else s)
           in if fd_used (fd_at s t i) = 2 then obind (fat32_close (fd_num (fd_at s t i)) s) (\<lambda>s _. Ret s 0) else Ret s 0))))"

definition fat32_mremap :: "ptr \<Rightarrow> u64 \<Rightarrow> u64 \<Rightarrow> i32 \<Rightarrow> ptr \<Rightarrow> 'a fsos_scheme \<Rightarrow> ('a fsos_scheme, i64) outcome" where
  "fat32_mremap old_address old_size new_size flags new_address s =
    (let t = cur_table s in
     case first_index (\<lambda>i. fd_used (fd_at s t i) \<noteq> 0 \<and> mmap_used (fd_mmap (fd_at s t i)) \<noteq> 0
            \<and> mmap_start (fd_mmap (fd_at s t i)) = old_address) [0..<MAX_FILE_NUM s] of
       None \<Rightarrow> Ret s (word_of_int (- EINVAL))
     | Some i \<Rightarrow>
         let a = fd_mmap (fd_at s t i) in
         obind (fat32_munmap old_address old_size s) (\<lambda>s _.
         obind (fat32_mmap new_address new_size (mmap_prot a) flags (fd_num (fd_at s t i)) (mmap_off a) s) (\<lambda>s _. Ret s new_address)))"

text \<open>The first descriptor in use with a mapping has to hold the range: otherwise \<open>assert(0)\<close>.\<close>

definition fat32_msync :: "ptr \<Rightarrow> u64 \<Rightarrow> 'a fsos_scheme \<Rightarrow> ('a fsos_scheme, int) outcome" where
  "fat32_msync addr len s =
    (let t = cur_table s in
     if addr mod PAGE_SIZE \<noteq> 0 then Ret s (- EINVAL)
     else case first_index (\<lambda>i. fd_used (fd_at s t i) \<noteq> 0 \<and> mmap_used (fd_mmap (fd_at s t i)) \<noteq> 0) [0..<MAX_FILE_NUM s] of
       None \<Rightarrow> Ret s (- EINVAL)
     | Some i \<Rightarrow>
         let f = fd_at s t i; a = fd_mmap f in
         if mmap_start a \<le> addr \<and> addr + len \<le> mmap_start a + mmap_len a then
           obind (fat32_lseek (fd_num f) 0 SEEK_CUR s) (\<lambda>s old_seek.
           obind (unmap_write_back addr len i s) (\<lambda>s _.
           obind (fat32_lseek (fd_num f) (scast (ucast old_seek :: i32)) SEEK_SET s) (\<lambda>s _. Ret s 0)))
         else Panic s)"

section \<open>Mounting\<close>

text \<open>The entry \<open>search\<close> finds, with the buffer. The sector of the entry is then read to the start of the buffer and
  written from there, while the entry is changed where it was found.\<close>

definition mount_entry :: "nat \<Rightarrow> u8 list \<Rightarrow> 'a fsos_scheme \<Rightarrow> ('a fsos_scheme, (inode \<times> cursor option)) outcome" where
  "mount_entry n pathname s =
    obind (if byte_at pathname 0 = 47 then find_dir n (dir_inode (first_clus (root s))) (drop 1 pathname) s
           else find_dir n (dir_inode (first_clus (cwd s))) pathname s) (\<lambda>s dir.
    obind (open_dir (first_clus dir) s) (\<lambda>s c.
    obind (search_loop n short_name (mode_ok (inode_name dir) FILE_DIR) c s) (\<lambda>s r.
      Ret s (dir, map_option (\<lambda>(_, c, _). c) r))))"

definition set_mount :: "cursor \<Rightarrow> u32 \<Rightarrow> 'a os_scheme \<Rightarrow> ('a os_scheme, unit) outcome" where
  "set_mount c clus s =
    (let sec = dir_sec (entry_pos c s) in
     obind (disk_read 1 sec s) (\<lambda>s d.
       let buf = put_bytes 0 d (cu_buf c);
           buf = put_bytes (cu_p c) (dentry_bytes (set_dentry_cluster clus (dentry_at buf (cu_p c)))) buf
       in disk_write 1 sec buf s))"

text \<open>Whether the directory is there is tested before the search only.\<close>

definition fat32_mount :: "nat \<Rightarrow> u8 list \<Rightarrow> 'a fsos_scheme \<Rightarrow> ('a fsos_scheme, int) outcome" where
  "fat32_mount n dir s =
    obind (kmalloc PAGE_SIZE s) (\<lambda>s buf.
    obind (if byte_at dir 0 = 47 then find_dir n (dir_inode (first_clus (root s))) (drop 1 dir) s
           else find_dir n (dir_inode (first_clus (cwd s))) dir s) (\<lambda>s dir_ino.
      if byte_at (inode_name dir_ino) 0 = 0xff then Ret (kfree buf s) (- ENOENT)
      else if 64 \<le> length dir then Panic s
      else
        let s = s\<lparr>mountpoint := dir\<rparr> in
        obind (open_dir (first_clus dir_ino) s) (\<lambda>s c.
        obind (search_loop n short_name (mode_ok (inode_name dir_ino) FILE_DIR) c s) (\<lambda>s r.
          case r of
            None \<Rightarrow> Panic s
          | Some (_, c, _) \<Rightarrow>
              obind (set_mount c (first_clus (root s)) (s\<lparr>mount_clus := get_cluster_from_dentry (cu_entry c)\<rparr>)) (\<lambda>s _.
                Ret (kfree buf s) 0)))))"

definition fat32_umount :: "nat \<Rightarrow> 'a fsos_scheme \<Rightarrow> ('a fsos_scheme, int) outcome" where
  "fat32_umount n s =
    obind (kmalloc PAGE_SIZE s) (\<lambda>s buf.
    obind (mount_entry n (mountpoint s) s) (\<lambda>s (_, r).
      case r of
        None \<Rightarrow> Ret (kfree buf s) (- ENOENT)
      | Some c \<Rightarrow> obind (set_mount c (mount_clus s) s) (\<lambda>s _. Ret (kfree buf s) 0)))"

section \<open>The start of the file system\<close>

text \<open>The parameters of the volume from its first sector. Without the name of the file system the kernel loops.\<close>

definition read_bpb :: "u8 list \<Rightarrow> fat_t \<Rightarrow> fat_t" where
  "read_bpb b g =
    (let bp = \<lparr>byts_per_sec = ucast (byte_at b 11) + ucast (byte_at b 12) * 256, sec_per_clus = byte_at b 13, rsvd_sec_cnt = le16 b 14,
               fat_cnt = byte_at b 16, hidd_sec = le32 b 28, tot_sec = le32 b 32, fat_sz = le32 b 36, root_clus = le32 b 44\<rparr>;
         first = ucast (rsvd_sec_cnt bp) + hidd_sec bp + ucast (fat_cnt bp) * fat_sz bp;
         data = tot_sec bp - first
     in g\<lparr>fat_bpb := bp, first_data_sec := first, data_sec_cnt := data, data_clus_cnt := data div ucast (sec_per_clus bp),
          byts_per_clus := ucast (sec_per_clus bp) * ucast (byts_per_sec bp)\<rparr>)"

definition fat32_init :: "'a fsos_scheme \<Rightarrow> ('a fsos_scheme, unit) outcome" where
  "fat32_init s =
    obind (kmalloc PAGE_SIZE (init_pipe s)) (\<lambda>s page.
      let b = sd_card s 0 in
      if take 5 (drop 82 b) \<noteq> ascii ''FAT32'' then Panic s
      else
        obind (search_empty_cluster (s\<lparr>fat := read_bpb b (fat s)\<rparr>)) (\<lambda>s c.
          let s = s\<lparr>fat := (fat s)\<lparr>next_free := c\<rparr>\<rparr>;
              rc = root_clus (fat_bpb (fat s));
              r = \<lparr>first_clus = rc, clus_num = rc, sector_num = first_sec_of_clus (fat s) rc, inode_name = [47]\<rparr>
          in Ret (kfree page (s\<lparr>cwd_path := cwd_path s @ [47], root := r, cwd := r\<lparr>inode_name := []\<rparr>\<rparr>)) ()))"

end
