(* ===== verification/Poll.thy ===== *)
theory Poll
  imports FatFile Time
begin

text \<open>
  Waiting for descriptors: \<open>do_ioctl\<close>, \<open>do_pselect6\<close> (\<open>kernel/system/io.c\<close>, \<open>include/os/io.h\<close>) and \<open>do_ppoll\<close>
  (\<open>kernel/fat32/poll.c\<close>). The words of a set of descriptors that a pointer names are an argument and a result, \<open>None\<close> for a
  null pointer. A process that waits gives up the processor (\<^const>\<open>Blocked\<close>) and comes back to the test of the buffer.
\<close>

type_synonym fd_set = "nat \<Rightarrow> u32"

datatype select_mode = SELECT_READ | SELECT_WRITE | SELECT_EXCEPTION

abbreviation (input) POLLIN :: u16 where "POLLIN \<equiv> 1"

text \<open>The shift of the macro is by \<open>num\<close> itself; the instruction \<open>srlw\<close> takes its lower five bits.\<close>

definition FD_ISSET :: "u32 \<Rightarrow> fd_set \<Rightarrow> bool" where
  "FD_ISSET num fds \<longleftrightarrow> drop_bit (unat num mod 32) (fds (unat num div 32)) AND 1 \<noteq> 0"

definition FD_CLR :: "u32 \<Rightarrow> fd_set \<Rightarrow> fd_set" where
  "FD_CLR fd fds = fds(unat fd div 32 := fds (unat fd div 32) AND NOT (push_bit (unat fd mod 32) 1))"

definition FD_SET :: "u32 \<Rightarrow> fd_set \<Rightarrow> fd_set" where
  "FD_SET fd fds = fds(unat fd div 32 := fds (unat fd div 32) OR push_bit (unat fd mod 32) 1)"

section \<open>ioctl and select\<close>

definition do_ioctl :: "u32 \<Rightarrow> 'a os_scheme \<Rightarrow> ('a os_scheme, int) outcome" where
  "do_ioctl fd s =
    (case get_fd_index fd (get_current_running s) s of
       None \<Rightarrow> Panic s
     | Some None \<Rightarrow> Ret s (- EBADF)
     | Some (Some _) \<Rightarrow> Ret s 0)"

text \<open>The two parts of \<open>handle_select\<close> differ in the kind of descriptor: its device, whether it is an end of a pipe, and the
  number of the pipe.\<close>

definition select_dev :: "u8 \<Rightarrow> bool \<Rightarrow> nat \<Rightarrow> select_mode \<Rightarrow> u64 \<Rightarrow> 'a os_scheme \<Rightarrow> ('a os_scheme, i32) outcome" where
  "select_dev d is_pipe p mode final_ticks s =
    (case mode of
       SELECT_READ \<Rightarrow>
         if d = DEV_STDIN then wait_ring_buffer_read (stdin_buf s) final_ticks s
         else if is_pipe then wait_ring_buffer_read (pipe_ring p s) final_ticks s
         else Panic s
     | SELECT_WRITE \<Rightarrow>
         if d = DEV_STDOUT then wait_ring_buffer_write (stdout_buf s) final_ticks s
         else if d = DEV_STDERR then wait_ring_buffer_write (stderr_buf s) final_ticks s
         else if is_pipe then wait_ring_buffer_write (pipe_ring p s) final_ticks s
         else Ret s 0
     | SELECT_EXCEPTION \<Rightarrow> if status_ctx s \<noteq> 0 then Panic s else Ret s (-1))"

definition handle_select :: "u32 \<Rightarrow> select_mode \<Rightarrow> u64 \<Rightarrow> 'a os_scheme \<Rightarrow> ('a os_scheme, i32) outcome" where
  "handle_select fd mode timeout_ticks s =
    (if status_ctx s \<noteq> 0 then
       let fdp = ctx_pipes s (ctx_pipe_array (cur_pcb s)) (unat fd)
       in select_dev (cpt_dev fdp) (pipe_type fdp \<noteq> 0) (unat (cpt_fd_num fdp)) mode (get_ticks s + timeout_ticks) s
     else
       case get_fd_index fd (get_current_running s) s of
         None \<Rightarrow> Panic s
       | Some None \<Rightarrow> Ret s (-1)
       | Some (Some i) \<Rightarrow>
           let fdp = fd_at s (cur_table s) i
           in select_dev (dev fdp) (is_pipe_read fdp \<noteq> 0 \<or> is_pipe_write fdp \<noteq> 0) (unat (pip_num fdp)) mode
                (get_ticks s + timeout_ticks) s)"

record fd_sets =
  readfds :: "fd_set option"
  writefds :: "fd_set option"
  exceptfds :: "fd_set option"

definition clear_all_fds :: "i32 \<Rightarrow> fd_sets \<Rightarrow> fd_sets" where
  "clear_all_fds nfds f =
    fold (\<lambda>fd f. f\<lparr>readfds := map_option (FD_CLR (of_nat fd)) (readfds f), writefds := map_option (FD_CLR (of_nat fd)) (writefds f),
      exceptfds := map_option (FD_CLR (of_nat fd)) (exceptfds f)\<rparr>) [0..<unat nfds] f"

text \<open>The test of a descriptor in one of the sets: \<open>Some v\<close> is a value to leave the loop with, together with the sets.\<close>

definition select_one :: "i32 \<Rightarrow> u64 \<Rightarrow> select_mode \<Rightarrow> (fd_sets \<Rightarrow> fd_set option) \<Rightarrow>
    ((fd_set option \<Rightarrow> fd_set option) \<Rightarrow> fd_sets \<Rightarrow> fd_sets) \<Rightarrow> u32 \<Rightarrow> fd_sets \<Rightarrow> 'a os_scheme \<Rightarrow>
    ('a os_scheme, int option \<times> fd_sets) outcome" where
  "select_one nfds timeout_ticks mode get upd fd f s =
    (case get f of
       None \<Rightarrow> Ret s (None, f)
     | Some fds \<Rightarrow>
         if FD_ISSET fd fds then
           obind (handle_select fd mode timeout_ticks s) (\<lambda>s ret.
             if sint ret < 0 then Ret s (Some (-1), f)
             else if ret = 0 then Ret s (Some 1, upd (map_option (FD_SET fd)) (clear_all_fds nfds f))
             else Ret s (None, upd (map_option (FD_CLR fd)) f))
         else Ret s (None, f))"

fun select_loop :: "i32 \<Rightarrow> u64 \<Rightarrow> nat list \<Rightarrow> fd_sets \<Rightarrow> 'a os_scheme \<Rightarrow> ('a os_scheme, int \<times> fd_sets) outcome" where
  "select_loop nfds timeout_ticks [] f s = Ret s (0, f)"
| "select_loop nfds timeout_ticks (k # ks) f s =
    obind (select_one nfds timeout_ticks SELECT_READ readfds readfds_update (of_nat k) f s) (\<lambda>s (r, f).
      case r of Some v \<Rightarrow> Ret s (v, f) | None \<Rightarrow>
    obind (select_one nfds timeout_ticks SELECT_WRITE writefds writefds_update (of_nat k) f s) (\<lambda>s (r, f).
      case r of Some v \<Rightarrow> Ret s (v, f) | None \<Rightarrow>
      select_loop nfds timeout_ticks ks
        (f\<lparr>exceptfds := map_option (\<lambda>e. if FD_ISSET (of_nat k) e then FD_CLR (of_nat k) e else e) (exceptfds f)\<rparr>) s))"

text \<open>\<open>timeout\<close> is read without a test for a null pointer.\<close>

definition do_pselect6 :: "i32 \<Rightarrow> fd_sets \<Rightarrow> timespec option \<Rightarrow> 'a os_scheme \<Rightarrow> ('a os_scheme, int \<times> fd_sets) outcome" where
  "do_pselect6 nfds f timeout s =
    (if sint nfds < 0 then Ret s (- EINVAL, f)
     else if nfds = 0 then Ret s (0, f)
     else case timeout of
       None \<Rightarrow> Panic s
     | Some ts \<Rightarrow> select_loop nfds (timespec_to_ticks (time_base s) ts) [0..<unat nfds] f s)"

section \<open>poll\<close>

record pollfd =
  poll_fd :: u32
  events :: u16
  revents :: u16

text \<open>\<open>fds->fd < 0\<close> compares an unsigned number and is never true. For a pipe the address of the local variable \<open>rbuf\<close> is taken
  for a ring buffer: what is read there is undefined.\<close>

definition poll_one :: "pollfd \<Rightarrow> 'a os_scheme \<Rightarrow> ('a os_scheme, pollfd \<times> u32) outcome" where
  "poll_one p s =
    (case get_fd_index (poll_fd p) (get_current_running s) s of
       Some (Some i) \<Rightarrow>
         let fd = fd_at s (cur_table s) i in
         if dev fd = DEV_STDIN \<and> events p AND POLLIN \<noteq> 0 then
           if ring_buffer_empty (stdin_buf s) then Blocked (do_scheduler s) else Ret s (p\<lparr>revents := POLLIN\<rparr>, 1)
         else if dev fd = DEV_PIPE \<and> events p AND POLLIN \<noteq> 0 then Panic s
         else Ret s (p, 0)
     | _ \<Rightarrow> Panic s)"

fun poll_loop :: "pollfd list \<Rightarrow> u32 \<Rightarrow> 'a os_scheme \<Rightarrow> ('a os_scheme, u32 \<times> pollfd list) outcome" where
  "poll_loop [] ret s = Ret s (ret, [])"
| "poll_loop (p # ps) ret s =
    obind (poll_one p s) (\<lambda>s (p, k). obind (poll_loop ps (ret + k) s) (\<lambda>s (ret, ps). Ret s (ret, p # ps)))"

definition do_ppoll :: "pollfd list \<Rightarrow> 'a os_scheme \<Rightarrow> ('a os_scheme, i32 \<times> pollfd list) outcome" where
  "do_ppoll fds s = poll_loop fds 0 s"

end
