(* ===== verification/Shm.thy ===== *)
theory Shm
  imports Fault
begin

text \<open>
  Shared pages by key (\<open>shm_page_get\<close>, \<open>shm_page_dt\<close>) and small helpers of the memory manager (\<open>kernel/mm/mm.c\<close>,
  \<open>check_addr_alloc\<close> of \<open>kernel/utils/utils.c\<close>). The list \<open>shareMemKey\<close> is an argument and a result. The random numbers the loops
  draw are the argument \<open>rs\<close>: a loop that comes to its end does not return.
\<close>

record share_page =
  shp_kva :: u64
  visted :: u32
  shp_key :: u32

abbreviation (input) sizeof_share_page :: u64 where "sizeof_share_page \<equiv> 32"

text \<open>The loops \<open>repeat\<close> and \<open>new\<close> draw until \<open>get_kva_of\<close> finds a page.\<close>

fun draw_va :: "u64 \<Rightarrow> u64 list \<Rightarrow> u64 \<Rightarrow> mem64 \<Rightarrow> u64 option" where
  "draw_va m [] pgd mm = None"
| "draw_va m (r # rs) pgd mm =
    (let vta = (r mod m) AND NOT 0xfff in if get_kva_of mm vta pgd = NULL then draw_va m rs pgd mm else Some vta)"

definition shm_page_get :: "u32 \<Rightarrow> u64 list \<Rightarrow> share_page list \<Rightarrow> 'a mmkernel_scheme \<Rightarrow> ('a mmkernel_scheme, u64 \<times> share_page list) outcome" where
  "shm_page_get key rs l s =
    (let pgd = pgdir (cur_pcb s) in
     case first_index (\<lambda>p. shp_key p = key) l of
       Some j \<Rightarrow>
         (case draw_va 0xf0000000 rs pgd (mem s) of
            None \<Rightarrow> Panic s
          | Some vta \<Rightarrow>
              obind (alloc_page_point_phyc vta pgd (shp_kva (l ! j)) MAP_USER s) (\<lambda>s _.
                Ret s (vta, l[j := (l ! j)\<lparr>visted := visted (l ! j) + 1\<rparr>])))
     | None \<Rightarrow>
         obind (kmalloc sizeof_share_page s) (\<lambda>s _.
           case draw_va 0x10000000 rs pgd (mem s) of
             None \<Rightarrow> Panic s
           | Some vta \<Rightarrow>
               obind (alloc_page_helper vta pgd MAP_USER s) (\<lambda>s kva.
                 Ret s (vta, \<lparr>shp_kva = kva, visted = 1, shp_key = key\<rparr> # l))))"

text \<open>A node that is taken out has a null pointer for its successor, through which the loop goes on.\<close>

fun detach_loop :: "u64 \<Rightarrow> u64 \<Rightarrow> share_page list \<Rightarrow> 'a mmkernel_scheme \<Rightarrow> ('a mmkernel_scheme, share_page list) outcome" where
  "detach_loop addr kva [] s = Ret s []"
| "detach_loop addr kva (p # ps) s =
    (if shp_kva p = kva then
       if visted p - 1 = 0 then Panic (freePage kva (upd_mem (get_PTE_of (mem s) addr (pgdir (cur_pcb s))) (\<lambda>_. 0) s))
       else obind (detach_loop addr kva ps s) (\<lambda>s ps. Ret s (p\<lparr>visted := visted p - 1\<rparr> # ps))
     else obind (detach_loop addr kva ps s) (\<lambda>s ps. Ret s (p # ps)))"

text \<open>With no key the function stays in \<open>while (1)\<close>.\<close>

definition shm_page_dt :: "u64 \<Rightarrow> share_page list \<Rightarrow> 'a mmkernel_scheme \<Rightarrow> ('a mmkernel_scheme, share_page list) outcome" where
  "shm_page_dt addr l s =
    (if l = [] then Panic s else detach_loop addr (get_pfn_of (mem s) addr (pgdir (cur_pcb s))) l s)"

definition visit_command_line :: "'a kernel_scheme \<Rightarrow> u64" where
  "visit_command_line s = user_stack_top (cur_pcb s) + 8"

text \<open>The pages \<open>for (i = vta; i <= vta + len; i += NORMAL_PAGE_SIZE)\<close> goes through when the sum does not wrap around.\<close>

fun alloc_missing :: "u64 list \<Rightarrow> 'a mmkernel_scheme \<Rightarrow> ('a mmkernel_scheme, unit) outcome" where
  "alloc_missing [] s = Ret s ()"
| "alloc_missing (i # is) s =
    (let pgd = pgdir (cur_pcb s) in
     if get_kva_of (mem s) i pgd = NULL then obind (alloc_page_helper i pgd MAP_USER s) (\<lambda>s _. alloc_missing is s)
     else alloc_missing is s)"

definition check_addr_alloc :: "u64 \<Rightarrow> u64 \<Rightarrow> 'a mmkernel_scheme \<Rightarrow> ('a mmkernel_scheme, int) outcome" where
  "check_addr_alloc vta len s =
    obind (alloc_missing (map (\<lambda>k. vta + NORMAL_PAGE_SIZE * of_nat k) [0..<Suc (unat len div 4096)]) s) (\<lambda>s _. Ret s 0)"

text \<open>Giving a page back for the last time ends in a fault of the kernel: no detach that brings a counter to 0 returns.\<close>

lemma last_detach_panics:
  assumes "p \<in> set l" and "shp_kva p = get_pfn_of (mem s) addr (pgdir (cur_pcb s))" and "visted p = 1"
  shows "\<exists>t. shm_page_dt addr l s = Panic t"
proof -
  have "\<exists>t. detach_loop addr kva l s = Panic t" if "p \<in> set l" "shp_kva p = kva" for kva
    using that by (induction l) (auto simp: assms(3) split: if_splits)
  then show ?thesis
    using assms(1,2) by (auto simp: shm_page_dt_def)
qed

text \<open>A new key is only ever mapped at an address that is in use already.\<close>

lemma draw_va_mapped:
  assumes "draw_va m rs pgd mm = Some vta"
  shows "get_kva_of mm vta pgd \<noteq> NULL"
  using assms by (induction rs) (auto simp: Let_def split: if_splits)

end
