(* ===== verification/Elf.thy ===== *)
theory Elf
  imports FatIo Recycle
begin

text \<open>
  Loading programs (\<open>kernel/elf/elf.c\<close>, \<open>fast_elf.c\<close>, \<open>dynamic.c\<close>, \<open>include/os/elf.h\<close>): from memory, from a file, and from the
  pages of a preloaded program. The bytes of an ELF header are read at their offsets. The loops over the pages of a segment take
  the number of their rounds as a first argument, which bounds it; the variable \<open>i\<close> is a C \<open>int\<close>, which is extended for the
  comparison with the sizes. The flag \<open>test\<close> is false after \<open>goto page_remain\<close>, which skips the test of the loop.
\<close>

record Elf64_Ehdr =
  e_ident :: "u8 list"
  e_entry :: u64
  e_phoff :: u64
  e_phentsize :: u16
  e_phnum :: u16

abbreviation (input) PT_LOAD :: u32 where "PT_LOAD \<equiv> 1"
abbreviation (input) PT_INTERP :: u32 where "PT_INTERP \<equiv> 3"
abbreviation (input) PF_W :: u32 where "PF_W \<equiv> 2"
abbreviation (input) sizeof_Ehdr :: u64 where "sizeof_Ehdr \<equiv> 64"
abbreviation (input) sizeof_Phdr :: u64 where "sizeof_Phdr \<equiv> 56"

definition le64 :: "u8 list \<Rightarrow> nat \<Rightarrow> u64" where
  "le64 d i = ucast (le32 d i) OR push_bit 32 (ucast (le32 d (i + 4)))"

definition ehdr_at :: "u8 list \<Rightarrow> Elf64_Ehdr" where
  "ehdr_at d = \<lparr>e_ident = map (byte_at d) [0..<16], e_entry = le64 d 24, e_phoff = le64 d 32, e_phentsize = le16 d 54, e_phnum = le16 d 56\<rparr>"

definition phdr_at :: "u8 list \<Rightarrow> nat \<Rightarrow> Elf64_Phdr" where
  "phdr_at d i = \<lparr>p_type = le32 d i, p_flags = le32 d (i + 4), p_offset = le64 d (i + 8), p_vaddr = le64 d (i + 16),
    p_paddr = le64 d (i + 24), p_filesz = le64 d (i + 32), p_memsz = le64 d (i + 40), p_align = le64 d (i + 48)\<rparr>"

text \<open>\<open>EI_MAG0\<close> to \<open>EI_MAG3\<close> are the indexes 0 to 3 and not the bytes of the magic number, and the results are exchanged.\<close>

definition is_elf_format :: "u8 list \<Rightarrow> bool" where
  "is_elf_format d \<longleftrightarrow> \<not> (byte_at d 0 = 0 \<and> byte_at d 1 = 1 \<and> byte_at d 2 = 2 \<and> byte_at d 3 = 3)"

section \<open>Pages of a segment\<close>

definition put_mem :: "u64 \<Rightarrow> u8 list \<Rightarrow> 'a mmkernel_scheme \<Rightarrow> 'a mmkernel_scheme" where
  "put_mem a d s = s\<lparr>mem := store_bytes a d (mem s)\<rparr>"

text \<open>\<open>for (j = e % NORMAL_PAGE_SIZE; j < NORMAL_PAGE_SIZE; ++j) bytes_of_page[j] = 0\<close>.\<close>

definition zero_tail :: "u64 \<Rightarrow> u64 \<Rightarrow> 'a mmkernel_scheme \<Rightarrow> 'a mmkernel_scheme" where
  "zero_tail bytes_of_page e s =
    (let j = unat (e mod NORMAL_PAGE_SIZE) in put_mem (bytes_of_page + of_nat j) (replicate (4096 - j) 0) s)"

text \<open>\<open>clear_begin\<close> is an offset in bytes, and \<open>j\<close> counts words of eight bytes.\<close>

definition clear_longs :: "u64 \<Rightarrow> 'a mmkernel_scheme \<Rightarrow> 'a mmkernel_scheme" where
  "clear_longs bytes_of_page s =
    fold (\<lambda>j. put_mem (bytes_of_page + 8 * of_nat j) (replicate 8 0)) [unat (bytes_of_page AND 0xfff)..<512] s"

abbreviation MIN_size :: "u64 \<Rightarrow> u64 \<Rightarrow> u64" where "MIN_size a b \<equiv> (if a < b then a else b)"

section \<open>Loading from memory and from a file\<close>

text \<open>\<open>load_elf\<close> and \<open>fat32_load_elf\<close> get the bytes of a page from \<open>get off k\<close>, and fill the rest of the last page from the
  offset \<open>e\<close> on.\<close>

fun load_pages :: "(u64 \<Rightarrow> u64 \<Rightarrow> 'a fsos_scheme \<Rightarrow> ('a fsos_scheme, u8 list) outcome) \<Rightarrow>
    (u64 \<Rightarrow> u64 \<Rightarrow> u64 \<Rightarrow> 'a fsos_scheme \<Rightarrow> ('a fsos_scheme, u64) outcome) \<Rightarrow> nat \<Rightarrow> u64 \<Rightarrow> u64 \<Rightarrow> Elf64_Phdr \<Rightarrow> i32 \<Rightarrow> bool \<Rightarrow>
    'a fsos_scheme \<Rightarrow> ('a fsos_scheme, unit) outcome" where
  "load_pages get prepare 0 e pgd ph i test s = Panic s"
| "load_pages get prepare (Suc n) e pgd ph i test s =
    (if test \<and> \<not> scast i < p_memsz ph then Ret s ()
     else obind (prepare (p_vaddr ph + scast i) pgd MAP_USER s) (\<lambda>s bytes_of_page.
       if scast i < p_filesz ph then
         let page_remain = ROUND bytes_of_page - bytes_of_page; left = p_filesz ph - scast i
         in if page_remain = 0 then
              obind (get (p_offset ph + scast i) (MIN_size left NORMAL_PAGE_SIZE) s) (\<lambda>s d.
                let s = put_mem bytes_of_page d s;
                    s = (if left < NORMAL_PAGE_SIZE then zero_tail bytes_of_page e s else s)
                in load_pages get prepare n e pgd ph (i + 4096) True s)
            else
              obind (get (p_offset ph + scast i) (MIN_size left page_remain) s) (\<lambda>s d.
                let s = put_mem bytes_of_page d s
                in if left < page_remain then load_pages get prepare n e pgd ph (i + 4096) True (zero_tail bytes_of_page e s)
                   else load_pages get prepare n e pgd ph (i + ucast page_remain) False s)
       else load_pages get prepare n e pgd ph (i + 4096) True (clear_longs bytes_of_page s)))"

text \<open>What a loaded segment leaves in the PCB.\<close>

definition note_segment :: "pcb_ref \<Rightarrow> bool \<Rightarrow> Elf64_Phdr \<Rightarrow> 'a kernel_scheme \<Rightarrow> 'a kernel_scheme" where
  "note_segment r is_first ph s =
    upd_pcb r (\<lambda>p. p\<lparr>elf := (elf p)\<lparr>elf_edata := p_vaddr ph + p_memsz ph, text_begin := if is_first then p_vaddr ph else text_begin (elf p)\<rparr>,
      edata := p_vaddr ph + p_memsz ph\<rparr>) s"

definition note_header :: "pcb_ref \<Rightarrow> Elf64_Ehdr \<Rightarrow> 'a kernel_scheme \<Rightarrow> 'a kernel_scheme" where
  "note_header r h s =
    upd_pcb r (\<lambda>p. p\<lparr>elf := (elf p)\<lparr>phoff := e_phoff h, phent := ucast (e_phentsize h), phnum := ucast (e_phnum h), entry := e_entry h\<rparr>\<rparr>) s"

fun load_segs :: "nat \<Rightarrow> u8 list \<Rightarrow> (u64 \<Rightarrow> u64 \<Rightarrow> u64 \<Rightarrow> 'a fsos_scheme \<Rightarrow> ('a fsos_scheme, u64) outcome) \<Rightarrow> u64 \<Rightarrow> pcb_ref \<Rightarrow>
    Elf64_Phdr list \<Rightarrow> bool \<Rightarrow> u64 \<Rightarrow> 'a fsos_scheme \<Rightarrow> ('a fsos_scheme, u64) outcome" where
  "load_segs n bin prepare pgd r [] is_first len s = Ret s len"
| "load_segs n bin prepare pgd r (ph # phs) is_first len s =
    (if p_type ph = PT_LOAD then
       obind (load_pages (\<lambda>off k s. Ret s (map (\<lambda>j. byte_at bin (unat off + j)) [0..<unat k])) prepare n
           (p_vaddr ph + p_filesz ph) pgd ph 0 True s) (\<lambda>s _.
         load_segs n bin prepare pgd r phs False (len + p_memsz ph) (note_segment r is_first ph s))
     else load_segs n bin prepare pgd r phs is_first (len + p_memsz ph) s)"

text \<open>The results are the entry point and the length of the file in memory.\<close>

definition load_elf :: "nat \<Rightarrow> u8 list \<Rightarrow> u32 \<Rightarrow> u64 \<Rightarrow> u64 \<Rightarrow> pcb_ref \<Rightarrow>
    (u64 \<Rightarrow> u64 \<Rightarrow> u64 \<Rightarrow> 'a fsos_scheme \<Rightarrow> ('a fsos_scheme, u64) outcome) \<Rightarrow> 'a fsos_scheme \<Rightarrow> ('a fsos_scheme, u64 \<times> u64) outcome" where
  "load_elf n elf_binary len pgd file_length r prepare s =
    (let s = upd_pcb r (\<lambda>p. p\<lparr>elf := (elf p)\<lparr>elf_edata := 0\<rparr>\<rparr>) s; h = ehdr_at elf_binary in
     if len < 4 \<or> \<not> is_elf_format elf_binary then Ret s (0, file_length)
     else obind (load_segs n elf_binary prepare pgd r
            (map (\<lambda>k. phdr_at elf_binary (unat (e_phoff h) + k * unat (e_phentsize h))) [0..<unat (e_phnum h)]) True file_length
            (note_header r h s)) (\<lambda>s len. Ret s (e_entry h, len)))"

text \<open>The buffer of a header is on the kernel stack.\<close>

definition read_at :: "u32 \<Rightarrow> u64 \<Rightarrow> ptr \<Rightarrow> u64 \<Rightarrow> 'a fsos_scheme \<Rightarrow> ('a fsos_scheme, u8 list) outcome" where
  "read_at fd off buf cnt s =
    obind (fat32_lseek fd off SEEK_SET s) (\<lambda>s _. obind (fat32_read fd buf cnt s) (\<lambda>s (_, d). Ret s d))"

text \<open>\<open>load_buff\<close> is filled by a read and then copied, also when the read was short.\<close>

definition read_buff :: "u32 \<Rightarrow> ptr \<Rightarrow> u64 \<Rightarrow> u64 \<Rightarrow> 'a fsos_scheme \<Rightarrow> ('a fsos_scheme, u8 list) outcome" where
  "read_buff fd load_buff off k s =
    obind (read_at fd off load_buff k s) (\<lambda>s d.
      let s = put_mem load_buff d s in Ret s (load_bytes load_buff (unat k) (mem s)))"

fun fat32_load_segs :: "nat \<Rightarrow> u32 \<Rightarrow> ptr \<Rightarrow> (u64 \<Rightarrow> u64 \<Rightarrow> u64 \<Rightarrow> 'a fsos_scheme \<Rightarrow> ('a fsos_scheme, u64) outcome) \<Rightarrow> u64 \<Rightarrow> pcb_ref \<Rightarrow>
    u64 list \<Rightarrow> bool \<Rightarrow> u64 \<Rightarrow> 'a fsos_scheme \<Rightarrow> ('a fsos_scheme, u64) outcome" where
  "fat32_load_segs n fd load_buff prepare pgd r [] is_first len s = Ret s len"
| "fat32_load_segs n fd load_buff prepare pgd r (off # offs) is_first len s =
    obind (read_at fd off (kernel_sp (cur_pcb s)) sizeof_Phdr s) (\<lambda>s d.
      let ph = phdr_at d 0 in
      if p_type ph = PT_LOAD then
        obind (load_pages (read_buff fd load_buff) prepare n (p_filesz ph) pgd ph 0 True s) (\<lambda>s _.
          fat32_load_segs n fd load_buff prepare pgd r offs False (len + p_memsz ph) (note_segment r is_first ph s))
      else fat32_load_segs n fd load_buff prepare pgd r offs is_first (len + p_memsz ph) s)"

definition fat32_load_elf :: "nat \<Rightarrow> u32 \<Rightarrow> u64 \<Rightarrow> u64 \<Rightarrow> pcb_ref \<Rightarrow>
    (u64 \<Rightarrow> u64 \<Rightarrow> u64 \<Rightarrow> 'a fsos_scheme \<Rightarrow> ('a fsos_scheme, u64) outcome) \<Rightarrow> 'a fsos_scheme \<Rightarrow> ('a fsos_scheme, u64 \<times> u64) outcome" where
  "fat32_load_elf n fd pgd file_length r prepare s =
    (case get_fd_index fd (get_current_running s) s of
       Some (Some i) \<Rightarrow>
         let t = cur_table s in
         obind (kmalloc PAGE_SIZE s) (\<lambda>s load_buff.
         obind (read_at fd 0 (kernel_sp (cur_pcb s)) sizeof_Ehdr s) (\<lambda>s d.
           let h = ehdr_at d in
           if fd_length (fd_at s t i) < 4 \<or> \<not> is_elf_format d then Ret s (0, file_length)
           else obind (fat32_load_segs n fd load_buff prepare pgd r
                  (map (\<lambda>k. e_phoff h + of_nat k * ucast (e_phentsize h)) [0..<unat (e_phnum h)]) True file_length (note_header r h s)) (\<lambda>s len.
                obind (fat32_close fd s) (\<lambda>s _. Ret (kfree load_buff s) (e_entry h, len)))))
     | _ \<Rightarrow> Panic s)"

section \<open>Preloading\<close>

text \<open>The pages of a segment are read one after the other into pages of the list of the program; pages end where those of the
  file do.\<close>

fun pre_pages :: "nat \<Rightarrow> u32 \<Rightarrow> nat \<Rightarrow> u64 \<Rightarrow> u64 \<Rightarrow> u64 \<Rightarrow> 'a fsos_scheme \<Rightarrow> ('a fsos_scheme, unit) outcome" where
  "pre_pages 0 fd e fd_base al_length len s = (if len = 0 then Ret s () else Panic s)"
| "pre_pages (Suc n) fd e fd_base al_length len s =
    (if len = 0 then Ret s ()
     else
       let offset_remain = ROUND fd_base - fd_base in
       obind (kmalloc PAGE_SIZE s) (\<lambda>s buffer.
         let k = GET_MEM_NODE buffer;
             s = s\<lparr>page_lists := q_add_tail k (preElfList e) (q_del k (page_lists s))\<rparr>;
             read_length = ucast (if offset_remain \<noteq> 0 then MIN_size offset_remain len else if len \<ge> PAGE_SIZE then PAGE_SIZE else len) :: u32
         in obind (fat32_read_uncached fd buffer (ucast read_length) s) (\<lambda>s (_, d).
              pre_pages n fd e (fd_base + ucast read_length) (al_length + ucast read_length) (len - ucast read_length)
                (put_mem buffer d s))))"

text \<open>\<open>phdr\<close> has \<open>LOAD_PHDR_NUM\<close> elements; a header stored past them goes over the members behind it.\<close>

fun pre_segs :: "u32 \<Rightarrow> nat \<Rightarrow> u64 list \<Rightarrow> nat \<Rightarrow> bool \<Rightarrow> 'a fsos_scheme \<Rightarrow> ('a fsos_scheme, unit) outcome" where
  "pre_segs fd e [] index is_first s = Ret s ()"
| "pre_segs fd e (off # offs) index is_first s =
    obind (fat32_lseek fd off SEEK_SET s) (\<lambda>s _.
    obind (fat32_read_uncached fd (kernel_sp (cur_pcb s)) sizeof_Phdr s) (\<lambda>s (_, d).
      let ph = phdr_at d 0;
          s = (if p_type ph = PT_INTERP then upd_elf e (\<lambda>x. x\<lparr>dynamic := 1\<rparr>) s else s)
      in if p_type ph = PT_LOAD then
           if index \<ge> LOAD_PHDR_NUM then Panic s
           else
             let s = upd_elf e (\<lambda>x. x\<lparr>phdr := (phdr x)(index := ph)\<rparr>) s
             in obind (fat32_lseek fd (p_offset ph) SEEK_SET s) (\<lambda>s _.
                obind (pre_pages (unat (p_filesz ph)) fd e (p_offset ph) 0 (p_filesz ph) s) (\<lambda>s _.
                  pre_segs fd e offs (Suc index) False
                    (upd_elf e (\<lambda>x. x\<lparr>load_info := (load_info x)\<lparr>elf_edata := p_vaddr ph + p_memsz ph,
                        text_begin := if is_first then p_vaddr ph else text_begin (load_info x)\<rparr>,
                      phdr_num := phdr_num x + 1\<rparr>) s)))
         else pre_segs fd e offs index is_first s))"

definition do_pre_elf_fat32 :: "u32 \<Rightarrow> nat \<Rightarrow> 'a fsos_scheme \<Rightarrow> ('a fsos_scheme, unit) outcome" where
  "do_pre_elf_fat32 fd e s =
    (case get_fd_index fd (get_current_running s) s of
       Some (Some i) \<Rightarrow>
         let t = cur_table s in
         obind (fat32_lseek fd 0 SEEK_SET s) (\<lambda>s _.
         obind (fat32_read_uncached fd (kernel_sp (cur_pcb s)) sizeof_Ehdr s) (\<lambda>s (_, d).
           let h = ehdr_at d in
           if fd_length (fd_at s t i) < 4 \<or> \<not> is_elf_format d then Ret s ()
           else
             let s = upd_elf e (\<lambda>x. x\<lparr>load_info := (load_info x)\<lparr>phoff := e_phoff h, phent := ucast (e_phentsize h),
                       phnum := ucast (e_phnum h), entry := e_entry h\<rparr>, phdr_num := 0\<rparr>) s
             in pre_segs fd e (map (\<lambda>k. e_phoff h + of_nat k * ucast (e_phentsize h)) [0..<unat (e_phnum h)]) 0 True s))
     | _ \<Rightarrow> Panic s)"

abbreviation (input) FREE :: i32 where "FREE \<equiv> 0"

definition do_pre_load :: "nat \<Rightarrow> u8 list \<Rightarrow> i32 \<Rightarrow> 'a fsos_scheme \<Rightarrow> ('a fsos_scheme, int) outcome" where
  "do_pre_load n filename how s =
    (if how = FREE then
       let i = find_name_elf filename s in if i = -1 then Ret s (-1) else Ret (do_free_elf (unat i) s) 1
     else
       let (s, i) = get_free_elf s in
       if i = -1 then Ret s (-1)
       else
         let s = upd_elf (unat i) (\<lambda>x. x\<lparr>load_name := filename\<rparr>) s
         in obind (fat32_openat n AT_FDCWD filename 0 s) (\<lambda>s fd.
            if fd < 0 then Ret s (-1)
            else obind (do_pre_elf_fat32 (of_int fd) (unat i) s) (\<lambda>s _.
                 obind (fat32_close (of_int fd) s) (\<lambda>s _. Ret s 1))))"

section \<open>Loading a preloaded program\<close>

text \<open>\<open>fast_load_elf\<close> and \<open>load_connector\<close> go through the pages \<open>nodes\<close> of the program. A page of a segment that is not written
  is shared, when \<open>share\<close> allows it; \<open>base\<close> is where the segment goes and \<open>e\<close> the end of its bytes, as the fill of the last page
  takes it. Past the last node \<open>list_entry\<close> takes the head of the list for a page.\<close>

fun fast_pages :: "nat \<Rightarrow> bool \<Rightarrow> u64 \<Rightarrow> u64 \<Rightarrow> u64 \<Rightarrow> Elf64_Phdr \<Rightarrow> i32 \<Rightarrow> bool \<Rightarrow> nat list \<Rightarrow> 'a mmkernel_scheme \<Rightarrow>
    ('a mmkernel_scheme, nat list) outcome" where
  "fast_pages 0 share base e pgd ph i test nodes s = Panic s"
| "fast_pages (Suc n) share base e pgd ph i test nodes s =
    (if test \<and> \<not> scast i < p_memsz ph then Ret s nodes
     else
       let v_base = base + scast i in
       if scast i < p_filesz ph then
         (case nodes of
            [] \<Rightarrow> Panic s
          | k # nodes \<Rightarrow>
              let buffer_begin = kva_begin (pageRecyc s k); page_remain = ROUND v_base - v_base; left = p_filesz ph - scast i
              in if page_remain = 0 then
                   obind (if p_flags ph AND PF_W = 0 \<and> share
                          then obind (alloc_page_point_phyc v_base pgd buffer_begin MAP_USER s) (\<lambda>s _. Ret s buffer_begin)
                          else obind (alloc_page_helper v_base pgd MAP_USER s) (\<lambda>s bytes_of_page.
                            Ret (put_mem bytes_of_page (load_bytes buffer_begin (unat (MIN_size left NORMAL_PAGE_SIZE)) (mem s)) s) bytes_of_page))
                     (\<lambda>s bytes_of_page.
                       fast_pages n share base e pgd ph (i + 4096) True nodes
                         (if left < NORMAL_PAGE_SIZE then zero_tail bytes_of_page e s else s))
                 else
                   obind (alloc_page_helper v_base pgd MAP_USER s) (\<lambda>s bytes_of_page.
                     let s = put_mem bytes_of_page (load_bytes buffer_begin (unat (MIN_size left page_remain)) (mem s)) s
                     in if left < page_remain then fast_pages n share base e pgd ph (i + 4096) True nodes (zero_tail bytes_of_page e s)
                        else fast_pages n share base e pgd ph (i + ucast page_remain) False nodes s))
       else obind (alloc_page_helper v_base pgd MAP_USER s) (\<lambda>s bytes_of_page.
         fast_pages n share base e pgd ph (i + 4096) True nodes (clear_longs bytes_of_page s)))"

fun fast_segs :: "nat \<Rightarrow> u64 \<Rightarrow> Elf64_Phdr list \<Rightarrow> nat list \<Rightarrow> 'a mmkernel_scheme \<Rightarrow> ('a mmkernel_scheme, unit) outcome" where
  "fast_segs n pgd [] nodes s = Ret s ()"
| "fast_segs n pgd (ph # phs) nodes s =
    obind (fast_pages n True (p_vaddr ph) (p_vaddr ph + p_filesz ph) pgd ph 0 True nodes s) (\<lambda>s nodes. fast_segs n pgd phs nodes s)"

definition fast_load_elf :: "nat \<Rightarrow> u8 list \<Rightarrow> u64 \<Rightarrow> pcb_ref \<Rightarrow> 'a os_scheme \<Rightarrow> ('a os_scheme, u64) outcome" where
  "fast_load_elf n filename pgd r s =
    (let s = upd_pcb r (\<lambda>p. p\<lparr>elf := (elf p)\<lparr>elf_edata := 0\<rparr>\<rparr>) s; elf_id = find_name_elf filename s in
     if elf_id = -1 then Ret s 0
     else
       let x = pre_elf s (unat elf_id) in
       obind (fast_segs n pgd (map (phdr x) [0..<unat (phdr_num x)]) (page_lists s (preElfList (unat elf_id))) s) (\<lambda>s _.
         Ret (upd_pcb r (\<lambda>p. p\<lparr>elf := load_info x, edata := elf_edata (load_info x)\<rparr>) s) (entry (load_info x))))"

fun connector_segs :: "nat \<Rightarrow> bool \<Rightarrow> u64 \<Rightarrow> Elf64_Phdr list \<Rightarrow> nat list \<Rightarrow> 'a mmkernel_scheme \<Rightarrow> ('a mmkernel_scheme, unit) outcome" where
  "connector_segs n share pgd [] nodes s = Ret s ()"
| "connector_segs n share pgd (ph # phs) nodes s =
    obind (fast_pages n share (p_vaddr ph + DYNAMIC_VADDR_PFFSET) (p_filesz ph) pgd ph 0 True nodes s) (\<lambda>s nodes.
      connector_segs n share pgd phs nodes s)"

definition load_connector :: "nat \<Rightarrow> u8 list \<Rightarrow> u64 \<Rightarrow> 'a os_scheme \<Rightarrow> ('a os_scheme, u64) outcome" where
  "load_connector n filename pgd s =
    (let elf_id = find_name_elf filename s in
     if elf_id = -1 then Ret s 0
     else
       let x = pre_elf s (unat elf_id) in
       obind (connector_segs n (dynamic x = 0) pgd (map (phdr x) [0..<unat (phdr_num x)]) (page_lists s (preElfList (unat elf_id))) s) (\<lambda>s _.
         Ret s (entry (load_info x) + DYNAMIC_VADDR_PFFSET)))"

end
