(* ===== verification/Exec.thy ===== *)
theory Exec
  imports Elf Process
begin

text \<open>
  New programs: \<open>do_exec\<close> and \<open>do_execve\<close> (\<open>kernel/sched/sched.c\<close>) with the stack of arguments, the pipes and redirections of the
  shell and the members of the PCB (\<open>kernel/sched/init.c\<close>, \<open>set_aux_vec\<close> of \<open>include/os/elf.h\<close>). The strings of \<open>argv\<close> and \<open>envp\<close>
  are arguments, without their zero.
\<close>

abbreviation (input) AUX_CNT :: nat where "AUX_CNT \<equiv> 38"
abbreviation (input) SIZE_RESTORE :: nat where "SIZE_RESTORE \<equiv> 8"
abbreviation (input) NUM_MAX_USTACK :: nat where "NUM_MAX_USTACK \<equiv> 2"

section \<open>The stack of a program\<close>

definition bytes64 :: "u64 \<Rightarrow> u8 list" where
  "bytes64 w = bytes32 (ucast w) @ bytes32 (ucast (drop_bit 32 w))"

definition set_aux_vec :: "ELF_info \<Rightarrow> u64 \<Rightarrow> u64 \<Rightarrow> (u64 \<times> u64) list" where
  "set_aux_vec x file_pointer random_ptr =
    [(0x28, 0), (0x29, 0), (0x2a, 0), (0x2b, 0), (0x2c, 0), (0x2d, 0), (16, 0x112d), (6, NORMAL_PAGE_SIZE), (17, 0x64),
     (3, text_begin x + phoff x), (4, phent x), (5, phnum x), (7, DYNAMIC_VADDR_PFFSET), (8, 0), (9, entry x), (11, 0), (12, 0),
     (13, 0), (14, 0), (23, 0), (25, random_ptr), (31, file_pointer), (0, 0)]"

text \<open>The instructions \<open>li a7, 139\<close> and \<open>ecall\<close> of \<open>__restore\<close>.\<close>

definition restore_code :: "u8 list" where
  "restore_code = bytes32 0x08b00893 @ bytes32 0x00000073"

definition get_num_from_parm :: "u8 list list option \<Rightarrow> nat" where
  "get_num_from_parm parm = (case parm of None \<Rightarrow> 0 | Some xs \<Rightarrow> length xs)"

text \<open>The pointers go to \<open>p\<close>, the strings to \<open>k\<close>, where the program finds them at \<open>u\<close>.\<close>

fun put_strings :: "u64 \<Rightarrow> u64 \<Rightarrow> u64 \<Rightarrow> u8 list list \<Rightarrow> mem64 \<Rightarrow> mem64 \<times> u64 \<times> u64" where
  "put_strings p k u [] m = (m, k, u)"
| "put_strings p k u (x # xs) m =
    put_strings (p + 8) (k + of_nat (length x) + 1) (u + of_nat (length x) + 1) xs (store_bytes k (x @ [0]) (store_bytes p (bytes64 u) m))"

definition point_length :: "int \<Rightarrow> nat \<Rightarrow> int" where
  "point_length argc envp_num = (argc + int envp_num + 3) * 8 + int (16 * (AUX_CNT + 1) + SIZE_RESTORE)"

definition tot_length :: "int \<Rightarrow> u8 list list \<Rightarrow> u8 list list \<Rightarrow> u8 list \<Rightarrow> int" where
  "tot_length argc args envs filename =
    (let n = point_length argc (length envs) + int (sum_list (map (\<lambda>x. length x + 1) args)) + int (sum_list (map (\<lambda>x. length x + 1) envs))
           + int (length filename + 1) + 0x10
     in (n + 0xff) div 0x100 * 0x100)"

definition copy_thing_user_stack :: "pcb_ref \<Rightarrow> int \<Rightarrow> u8 list list \<Rightarrow> u8 list list option \<Rightarrow> u8 list \<Rightarrow> 'a mmkernel_scheme \<Rightarrow>
    'a mmkernel_scheme \<times> u64" where
  "copy_thing_user_stack r argc argv envp filename s =
    (let p = pcb_tab s r; m = mem s;
         kustack_top = get_kva_of m (user_stack_top p - PAGE_SIZE) (pgdir p) + PAGE_SIZE;
         envs = (case envp of None \<Rightarrow> [] | Some xs \<Rightarrow> xs); args = take (nat argc) argv;
         tot = tot_length argc args envs filename; pl = point_length argc (length envs);
         kargv_pointer = kustack_top - of_int tot;
         m = store_bytes kargv_pointer (bytes64 (of_int argc)) m;
         kargv_pointer = kargv_pointer + 8;
         (m, kargv, new_argv) = put_strings kargv_pointer (kustack_top - of_int tot + of_int pl) (user_stack_top p - of_int tot + of_int pl) args m;
         m = store_bytes (kargv_pointer + 8 * of_int argc) (bytes64 0) m;
         kargv_pointer = kargv_pointer + 8 * (of_int argc + 1);
         (m, kargv, new_argv) = put_strings kargv_pointer kargv new_argv envs m;
         m = store_bytes (kargv_pointer + 8 * of_nat (length envs)) (bytes64 0) m;
         kargv_pointer = kargv_pointer + 8 * (of_nat (length envs) + 1);
         m = store_bytes kargv (filename @ [0]) m;
         file_pointer = new_argv; new_argv = new_argv + of_nat (length filename) + 1;
         m = store_bytes kargv_pointer (concat (map (\<lambda>(i, v). bytes64 i @ bytes64 v) (set_aux_vec (elf p) file_pointer new_argv))) m;
         m = store_bytes (kargv_pointer + 8 * of_nat (AUX_CNT + 1)) (bytes64 0) m;
         m = store_bytes (kustack_top - of_nat SIZE_RESTORE) restore_code m
     in (s\<lparr>mem := m\<rparr>, user_stack_top p - of_int tot))"

text \<open>The older stacks of arguments, which no function calls any more.\<close>

definition set_argc_argv :: "nat \<Rightarrow> u8 list list \<Rightarrow> pcb_ref \<Rightarrow> 'a mmkernel_scheme \<Rightarrow> 'a mmkernel_scheme" where
  "set_argc_argv argc argv r s =
    (let p = pcb_tab s r; kustack_top = get_kva_of (mem s) (user_stack_top p - PAGE_SIZE) (pgdir p) + PAGE_SIZE;
         m = store_bytes (kustack_top - 0x100) (bytes64 (of_nat argc)) (mem s)
     in s\<lparr>mem := fst (put_strings (kustack_top - 0x100 + 8) (kustack_top - 0xc0) (user_stack_top p - 0xc0) (drop 1 (take argc argv)) m)\<rparr>)"

definition set_argc_argv_std :: "nat \<Rightarrow> u8 list list \<Rightarrow> pcb_ref \<Rightarrow> 'a mmkernel_scheme \<Rightarrow> 'a mmkernel_scheme" where
  "set_argc_argv_std argc argv r s =
    (let p = pcb_tab s r; kustack_top = get_kva_of (mem s) (user_stack_top p - PAGE_SIZE) (pgdir p) + PAGE_SIZE
     in s\<lparr>mem := fst (put_strings (kustack_top - 0x100) (kustack_top - 0xc0) (user_stack_top p - 0xc0) (take argc argv) (mem s))\<rparr>)"

section \<open>The process control block of a program\<close>

text \<open>When no preloaded program has the name, \<open>exe_load\<close> stays as it was.\<close>

definition note_load :: "pcb_ref \<Rightarrow> 'a os_scheme \<Rightarrow> 'a os_scheme" where
  "note_load r s =
    (let i = find_name_elf (pname (pcb_tab s r)) s in if i = -1 then s else upd_pcb r (\<lambda>p. p\<lparr>exe_load := elf_ref (unat i)\<rparr>) s)"

definition init_pcb_member :: "pcb_ref \<Rightarrow> task_type \<Rightarrow> spawn_mode \<Rightarrow> 'a os_scheme \<Rightarrow> ('a os_scheme, unit) outcome" where
  "init_pcb_member r ty mode s =
    (let now = get_ticks s; n = process_id s; cur = get_current_running s;
         limit = \<lparr>rlim_cur = of_nat MAX_FD_NUM, rlim_max = of_nat MAX_FD_NUM\<rparr>;
         s = upd_pcb r (\<lambda>p. p\<lparr>pre_time := now, pid := n, used := 1, status := TASK_READY, ptype := ty, spawnmode := mode, flag := 0,
               parent := Some cur, user_sp := user_stack_top p, kernel_sp := kernel_stack_top p,
               kernel_stack_base := kernel_stack_top p - PAGE_SIZE, user_stack_base := user_stack_top p - PAGE_SIZE, execve := 0\<rparr>)
             (s\<lparr>process_id := n + 1\<rparr>);
         s = upd_pcb r (\<lambda>p. p\<lparr>fd_limit := limit\<rparr>) (clear_pcb_time r s);
         s = s\<lparr>mylimit := limit, queues := (queues s)(WaitQ (pcb_wait_list r) := [])\<rparr>
     in obind (if status_ctx s \<noteq> 0 then Ret (init_extend_fd (ctx_pipe_array (pcb_tab s r)) s) ()
               else obind (alloc_fd_table s) (\<lambda>s t. Ret (init_fd t (upd_pcb r (\<lambda>p. p\<lparr>pfd := t\<rparr>) s)) ())) (\<lambda>s _.
        obind (alloc_sig_table s) (\<lambda>s t.
          let s = upd_pcb r (\<lambda>p. p\<lparr>sigactions := t, is_handle_signal := 0, sig_recv := 0, sig_pend := 0, sig_mask := 0,
                    itimer := (itimer p)\<lparr>add_tick := 0\<rparr>\<rparr>) s
          in Ret (if pname (pcb_tab s r) = ascii ''shell'' then s else note_load r s) ())))"

definition init_execve_pcb :: "pcb_ref \<Rightarrow> task_type \<Rightarrow> spawn_mode \<Rightarrow> 'a os_scheme \<Rightarrow> 'a os_scheme" where
  "init_execve_pcb r ty mode s =
    (let s = upd_pcb r (\<lambda>p. p\<lparr>status := TASK_READY, ptype := ty,
               spawnmode := (if spawnmode p = AUTO_CLEANUP_ON_EXIT then mode else spawnmode p),
               user_sp := user_stack_top p, kernel_sp := kernel_stack_top p,
               kernel_stack_base := kernel_stack_top p - PAGE_SIZE, user_stack_base := user_stack_top p - PAGE_SIZE\<rparr>) s;
         s = upd_pcb r (\<lambda>p. p\<lparr>execve := 1, is_handle_signal := 0, sig_recv := 0, sig_pend := 0, sig_mask := 0\<rparr>) (clear_pcb_time r s)
     in note_load r s)"

definition load_process_memory :: "nat \<Rightarrow> u8 list \<Rightarrow> pcb_ref \<Rightarrow> 'a os_scheme \<Rightarrow> ('a os_scheme, u64) outcome" where
  "load_process_memory n path_name r s =
    obind (fast_load_elf n path_name (pgdir (pcb_tab s r)) r s) (\<lambda>s entry_point.
      Ret s (if entry_point = 0 then word_of_int (- ENOEXEC) else entry_point))"

fun map_user_stack :: "nat list \<Rightarrow> pcb_ref \<Rightarrow> 'a mmkernel_scheme \<Rightarrow> ('a mmkernel_scheme, unit) outcome" where
  "map_user_stack [] r s = Ret s ()"
| "map_user_stack (i # is) r s =
    obind (alloc_page_helper (user_stack_top (pcb_tab s r) - of_nat (i + 1) * PAGE_SIZE) (pgdir (pcb_tab s r)) MAP_USER s) (\<lambda>s _.
      map_user_stack is r s)"

text \<open>A dynamic program starts in \<open>libc.so\<close>. With no preloaded program \<open>exe_load\<close> is read through a null pointer.\<close>

definition dynamic_entry :: "nat \<Rightarrow> pcb_ref \<Rightarrow> u64 \<Rightarrow> 'a os_scheme \<Rightarrow> ('a os_scheme, u64) outcome" where
  "dynamic_entry n r entry_point s =
    (if exe_load (pcb_tab s r) = NULL then Panic s
     else if dynamic (pre_elf s (elf_index (exe_load (pcb_tab s r)))) \<noteq> 0 then load_connector n libc_so (pgdir (pcb_tab s r)) s
     else Ret s entry_point)"

section \<open>exec\<close>

text \<open>\<open>argv[k]\<close> for the indexes from \<open>-2\<close> on; \<open>below\<close> is what the two words below the array point to.\<close>

definition arg_at :: "(nat \<Rightarrow> u8 list) \<Rightarrow> u8 list list \<Rightarrow> int \<Rightarrow> u8 list" where
  "arg_at below argv k = (if k < 0 then below (nat (- k)) else argv ! nat k)"

text \<open>The part of \<open>handle_exec_pipe_redirect\<close> that starts the program behind the bar; \<open>exec\<close> is the call of \<open>do_exec\<close>. The result
  has the return value when the function ends there, and \<open>pipe_pid\<close>.\<close>

definition exec_pipe :: "((nat \<Rightarrow> u8 list) \<Rightarrow> u8 list \<Rightarrow> u8 list list \<Rightarrow> 'a fsos_scheme \<Rightarrow> ('a fsos_scheme, i32) outcome) \<Rightarrow> (nat \<Rightarrow> u8 list) \<Rightarrow> pcb_ref \<Rightarrow> nat \<Rightarrow>
    u8 list list \<Rightarrow> 'a fsos_scheme \<Rightarrow> ('a fsos_scheme, int option \<times> i32) outcome" where
  "exec_pipe exec below r mid argv s =
    (if mid = length argv then Ret s (None, 0)
     else if Suc mid \<ge> length argv then Panic s
     else if take 2 (argv ! Suc mid) \<noteq> ascii ''./'' then Panic s
     else
       let name = drop 2 (argv ! Suc mid) in
       obind (exec (\<lambda>k. arg_at below argv (int mid + 1 - int k)) name (name # drop (mid + 2) argv) s) (\<lambda>s pipe_pid.
         case first_index (\<lambda>i. pid (pcb_tab s (PCB i)) = pipe_pid) [0..<NUM_MAX_TASK] of
           None \<Rightarrow> Ret s (Some (- ENOMEM), pipe_pid)
         | Some i \<Rightarrow>
             obind (alloc_one_pipe s) (\<lambda>s p.
               if p = - ENFILE then Ret s (Some (- ENFILE), pipe_pid)
               else
                 let s = upd_fd (pfd (pcb_tab s (PCB i))) 0 (\<lambda>f. f\<lparr>dev := DEV_PIPE, pip_num := of_int p, is_pipe_read := 1, is_pipe_write := 0\<rparr>) s;
                     s = upd_fd (pfd (pcb_tab s r)) 1 (\<lambda>f. f\<lparr>dev := DEV_PIPE, pip_num := of_int p, is_pipe_read := 0, is_pipe_write := 1\<rparr>) s
                 in Ret s (None, pipe_pid))))"

text \<open>\<open>arg1\<close> is the second string of the command line of the caller, which \<open>fat32_unlink\<close> looks at.\<close>

definition exec_redirect :: "nat \<Rightarrow> u8 list \<Rightarrow> pcb_ref \<Rightarrow> bool \<Rightarrow> bool \<Rightarrow> u8 list \<Rightarrow> 'a fsos_scheme \<Rightarrow> ('a fsos_scheme, unit) outcome" where
  "exec_redirect n arg1 r redirect1 redirect2 redirect_file s =
    obind (fat32_close 1 s) (\<lambda>s _.
    obind (if redirect1 then
             obind (fat32_openat n AT_FDCWD redirect_file O_WRONLY s) (\<lambda>s fd.
               if fd \<noteq> - ENOENT then
                 obind (fat32_close (of_int fd) s) (\<lambda>s _.
                 obind (fat32_unlink n arg1 AT_FDCWD redirect_file 0 s) (\<lambda>s _. Ret s ()))
               else Ret s ())
           else Ret s ()) (\<lambda>s _.
    obind (fat32_openat n AT_FDCWD redirect_file (O_WRONLY OR O_CREATE) s) (\<lambda>s fd.
      case get_fd_index (of_int fd) (get_current_running s) s of
        Some (Some i) \<Rightarrow>
          let t = pfd (pcb_tab s r);
              s = upd_fd t 1 (\<lambda>f. f\<lparr>fd_num := 1\<rparr>) (copy_fd t 1 (cur_table s) i s)
          in obind (fat32_close (of_int fd) s) (\<lambda>s _.
             Ret (if redirect2 then upd_fd t 1 (\<lambda>f. f\<lparr>pos := ucast (fd_length f)\<rparr>) s else s) ())
      | _ \<Rightarrow> Panic s)))"

definition handle_exec_pipe_redirect :: "((nat \<Rightarrow> u8 list) \<Rightarrow> u8 list \<Rightarrow> u8 list list \<Rightarrow> 'a fsos_scheme \<Rightarrow> ('a fsos_scheme, i32) outcome) \<Rightarrow> nat \<Rightarrow>
    (nat \<Rightarrow> u8 list) \<Rightarrow> u8 list \<Rightarrow> pcb_ref \<Rightarrow> u8 list list \<Rightarrow> 'a fsos_scheme \<Rightarrow> ('a fsos_scheme, int \<times> i32) outcome" where
  "handle_exec_pipe_redirect exec n below arg1 r argv s =
    (let mid = length (takeWhile (\<lambda>x. x \<noteq> ascii ''|'') argv);
         redirect1 = (arg_at below argv (int mid - 2) = ascii ''>''); redirect2 = (arg_at below argv (int mid - 2) = ascii ''>>'');
         true_argc = (if redirect1 \<or> redirect2 then int mid - 2 else int mid)
     in obind (exec_pipe exec below r mid argv s) (\<lambda>s (ret, pipe_pid).
        case ret of
          Some v \<Rightarrow> Ret s (v, pipe_pid)
        | None \<Rightarrow>
            if redirect1 \<or> redirect2 then
              obind (exec_redirect n arg1 r redirect1 redirect2 (arg_at below argv (int mid - 1)) s) (\<lambda>s _. Ret s (true_argc, pipe_pid))
            else Ret s (true_argc, pipe_pid)))"

definition fixed_envp :: "u8 list list" where
  "fixed_envp = map ascii [''SHELL=/bin/bash'', ''PWD=/'', ''LOGNAME=root'', ''MOTD_SHOWN=pam'', ''HOME=/root'', ''LANG=C.UTF-8'',
    ''INVOCATION_ID=9f58417fca9d46d4a23cde1329404868'', ''TERM=vt220'', ''USER=root'', ''SHLVL=1'', ''JOURNAL_STREAM=8:9290'',
    ''HUSHLOGIN=FALSE'', ''PATH=.'', ''MAIL=/var/mail/root'', ''_=/usr/bin/bash'', ''OLDPWD=/root'', ''LD_LIBRARY_PATH=.'']"

text \<open>The PCB of a new program up to its image: page table, stacks, members and the name.\<close>

definition exec_setup :: "pcb_ref \<Rightarrow> u8 list \<Rightarrow> 'a os_scheme \<Rightarrow> ('a os_scheme, unit) outcome" where
  "exec_setup r name s =
    obind (allocPage s) (\<lambda>s pg.
    let s = upd_pcb r (\<lambda>p. p\<lparr>pgdir := pg - PAGE_SIZE\<rparr>) s in
    obind (allocPage s) (\<lambda>s st.
    let s = upd_pcb r (\<lambda>p. p\<lparr>kernel_stack_top := st, kernel_sp := st, user_stack_top := USER_STACK_ADDR\<rparr>) s;
        s = share_pgtable (pgdir (pcb_tab s r)) (pa2kva PGDIR_PA) s
    in obind (map_user_stack [0..<NUM_MAX_USTACK] r s) (\<lambda>s _.
       obind (init_pcb_member r USER_PROCESS AUTO_CLEANUP_ON_EXIT (upd_pcb r (\<lambda>p. p\<lparr>pname := name\<rparr>) s)) (\<lambda>s _.
         let cur = get_current_running s
         in Ret (upd_pcb r (\<lambda>p. p\<lparr>parent := Some cur, ppid := pid (pcb_tab s cur), cpu_mask := 3, priority := 3\<rparr>) s) ()))))"

text \<open>The first argument bounds the number of programs in a row of pipes. The result \<open>-1\<close> is the failure of the load.\<close>

fun do_exec :: "nat \<Rightarrow> linkage \<Rightarrow> nat \<Rightarrow> (nat \<Rightarrow> u8 list) \<Rightarrow> u8 list \<Rightarrow> u8 list \<Rightarrow> u8 list list \<Rightarrow> 'a fsos_scheme \<Rightarrow>
    ('a fsos_scheme, i32) outcome" where
  "do_exec 0 lk n below arg1 file_nm argv s = Panic s"
| "do_exec (Suc d) lk n below arg1 file_nm argv s =
    obind (get_free_pcb s) (\<lambda>s r.
    let s = (if length argv \<ge> 2 then s\<lparr>test_name := argv ! 1\<rparr> else s) in
    obind (exec_setup r file_nm s) (\<lambda>s _.
    obind (load_process_memory n file_nm r s) (\<lambda>s entry_point.
    obind (dynamic_entry n r entry_point s) (\<lambda>s entry_point.
      if entry_point = 0 then Ret s (-1)
      else obind (handle_exec_pipe_redirect (\<lambda>below. do_exec d lk n below arg1) n below arg1 r argv s) (\<lambda>s (true_argc, pipe_pid).
        let (s, sp) = copy_thing_user_stack r true_argc argv (Some fixed_envp) file_nm s;
            s = upd_pcb r (\<lambda>p. p\<lparr>user_sp := sp, user_stack_top := sp\<rparr>) s;
            s = klist_add r ready_queue (init_pcb_stack lk (kernel_sp (pcb_tab s r)) entry_point r s)
        in Ret s (if pipe_pid \<noteq> 0 then pipe_pid else pid (pcb_tab s r)))))))"

section \<open>execve\<close>

definition after_slash :: "u8 list \<Rightarrow> u8 list" where
  "after_slash x = (if 47 \<in> set x then drop 1 (dropWhile (\<lambda>c. c \<noteq> 47) x) else x)"

text \<open>The call does not return: the process that comes back from the scheduler starts in the new program.\<close>

definition do_execve :: "linkage \<Rightarrow> nat \<Rightarrow> u8 list \<Rightarrow> u8 list list option \<Rightarrow> u8 list list option \<Rightarrow> 'a os_scheme \<Rightarrow> ('a os_scheme, i32) outcome" where
  "do_execve lk n path_name argv envp s =
    (let r = get_current_running s; pre_pgdir = pgdir (pcb_tab s r); pre_edata = edata (pcb_tab s r);
         pre_exe_load = exe_load (pcb_tab s r); file_nm = after_slash path_name
     in obind (allocPage s) (\<lambda>s pg.
        let s = upd_pcb r (\<lambda>p. p\<lparr>pgdir := pg - PAGE_SIZE, user_stack_top := USER_STACK_ADDR, kernel_sp := kernel_stack_top p\<rparr>) s;
            s = share_pgtable (pgdir (pcb_tab s r)) (pa2kva PGDIR_PA) s
        in obind (map_user_stack [0..<NUM_MAX_USTACK] r s) (\<lambda>s _.
           let s = init_execve_pcb r USER_PROCESS AUTO_CLEANUP_ON_EXIT (upd_pcb r (\<lambda>p. p\<lparr>pname := file_nm\<rparr>) s);
               s = upd_pcb r (\<lambda>p. p\<lparr>cpu_mask := 3, priority := 3\<rparr>) s
           in obind (load_process_memory n file_nm r s) (\<lambda>s entry_point.
              if entry_point = 0 then Ret s (-1)
              else obind (dynamic_entry n r entry_point s) (\<lambda>s entry_point.
                let argc = get_num_from_parm argv;
                    (s, sp) = copy_thing_user_stack r (int argc) (case argv of None \<Rightarrow> [] | Some xs \<Rightarrow> xs) envp file_nm s;
                    s = upd_pcb r (\<lambda>p. p\<lparr>user_sp := sp, user_stack_top := sp\<rparr>) s;
                    save_core_id = get_current_cpu_id s;
                    s = init_pcb_stack lk (kernel_sp (pcb_tab s r)) entry_point r s;
                    s = upd_context (save_context (pcb_tab s r)) (\<lambda>c. c\<lparr>core_id := save_core_id\<rparr>) s;
                    s = klist_add r ready_queue s
                in obind (recycle_page_part pre_pgdir pre_exe_load pre_edata s) (\<lambda>s _. Blocked (do_scheduler s)))))))"

definition do_sched_setscheduler :: int where
  "do_sched_setscheduler = 0"

definition do_sched_getaffinity :: int where
  "do_sched_getaffinity = 0"

end
