(* ===== verification/ExecStack.thy ===== *)
theory ExecStack
  imports Exec
begin

text \<open>
  The stack of a new program: what \<open>copy_thing_user_stack\<close> (\<open>kernel/sched/init.c\<close>) leaves in memory, read back byte by byte. Stores of
  bytes into the words of the memory are first reduced to stores at offsets from the lower end of the area.
\<close>

section \<open>Bytes of the memory\<close>

definition byte_of :: "mem64 \<Rightarrow> u64 \<Rightarrow> u8" where
  "byte_of m a = ucast (drop_bit (8 * unat (a AND 7)) (m (a AND NOT 7)))"

lemma load_bytes_byte: "load_bytes a k m = map (\<lambda>i. byte_of m (a + of_nat i)) [0..<k]"
  by (simp add: load_bytes_def byte_of_def Let_def)

lemma and7: "unat (a AND 7 :: u64) < 8"
proof -
  have "a AND 7 = take_bit 3 a"
    by (simp add: take_bit_eq_mask mask_eq_exp_minus_1)
  then show ?thesis
    using take_bit_nat_less_exp [of 3 "unat a"] by (simp add: unsigned_take_bit_eq)
qed

lemma split_address: "(a AND NOT 7) OR (a AND 7) = (a :: u64)"
  by (rule bit_word_eqI) (auto simp: bit_simps)

lemma bit_ff: "bit (0xff :: u64) n \<longleftrightarrow> n < 8" "bit (0xff :: int) n \<longleftrightarrow> n < 8"
proof -
  have "bit (mask 8 :: u64) n \<longleftrightarrow> n < 8" "bit (mask 8 :: int) n \<longleftrightarrow> n < 8" unfolding bit_mask_iff by auto
  then show "bit (0xff :: u64) n \<longleftrightarrow> n < 8" "bit (0xff :: int) n \<longleftrightarrow> n < 8"
    by (simp_all add: mask_eq_exp_minus_1)
qed

lemma byte_of_store_byte: "byte_of (store_byte a b m) x = (if x = a then b else byte_of m x)"
proof (cases "x AND NOT 7 = a AND NOT 7")
  case False
  then have "x \<noteq> a" by auto
  with False show ?thesis
    by (simp add: byte_of_def store_byte_def Let_def)
next
  case True
  let ?k = "unat (x AND 7)" and ?l = "unat (a AND 7)"
  have k: "?k < 8" "?l < 8" by (rule and7)+
  have eq: "x = a \<longleftrightarrow> ?k = ?l"
    using True split_address [of x] split_address [of a] by (metis word_unat_eq_iff)
  have "bit (byte_of (store_byte a b m) x) n = bit (if x = a then b else byte_of m x) n" if "n < 8" for n
  proof (cases "?k = ?l")
    case True
    with k that eq \<open>x AND NOT 7 = a AND NOT 7\<close> show ?thesis
      by (simp add: byte_of_def store_byte_def Let_def bit_simps bit_ff)
  next
    case ne: False
    then have "8 * ?k + n < 8 * ?l \<or> 8 * ?l + 8 \<le> 8 * ?k + n"
      using that by linarith
    with ne k that eq True show ?thesis
      by (auto simp: byte_of_def store_byte_def Let_def bit_simps bit_ff dest: bit_imp_le_length)
  qed
  then show ?thesis
    by (intro bit_word_eqI) simp
qed

lemma byte_of_store_bytes:
  assumes "length d < 2 ^ 64"
  shows "byte_of (store_bytes a d m) x = (if unat (x - a) < length d then d ! unat (x - a) else byte_of m x)"
proof -
  have "byte_of (fold (\<lambda>i. store_byte (a + of_nat i) (d ! i)) [0..<n] m) x
      = (if unat (x - a) < n then d ! unat (x - a) else byte_of m x)" if "n < 2 ^ 64" for n
    using that
  proof (induction n)
    case (Suc n)
    have "x = a + of_nat n \<longleftrightarrow> x - a = of_nat n" by (auto simp: algebra_simps)
    also have "\<dots> \<longleftrightarrow> unat (x - a) = n"
      using Suc.prems by (auto simp: word_unat_eq_iff unat_of_nat_u64)
    finally show ?case
      using Suc by (auto simp: byte_of_store_byte less_Suc_eq)
  qed simp
  from this [OF assms] show ?thesis
    by (simp add: store_bytes_def)
qed

section \<open>An area of the memory\<close>

text \<open>The bytes at offsets from an address, a store into them, and the bytes found at an offset.\<close>

definition area :: "u64 \<Rightarrow> mem64 \<Rightarrow> nat \<Rightarrow> u8" where
  "area base m x = byte_of m (base + of_nat x)"

definition put_area :: "nat \<Rightarrow> u8 list \<Rightarrow> (nat \<Rightarrow> u8) \<Rightarrow> nat \<Rightarrow> u8" where
  "put_area a d f x = (if a \<le> x \<and> x < a + length d then d ! (x - a) else f x)"

definition holds_at :: "(nat \<Rightarrow> u8) \<Rightarrow> nat \<Rightarrow> u8 list \<Rightarrow> bool" where
  "holds_at f a d \<longleftrightarrow> (\<forall>j < length d. f (a + j) = d ! j)"

lemma area_store:
  assumes "a + length d \<le> 2 ^ 63" and "x < 2 ^ 63"
  shows "area base (store_bytes (base + of_nat a) d m) x = put_area a d (area base m) x"
proof -
  have "unat (of_nat x - of_nat a :: u64) = (if a \<le> x then x - a else 2 ^ 64 + x - a)"
  proof (cases "a \<le> x")
    case True
    then have "(of_nat x - of_nat a :: u64) = of_nat (x - a)" by simp
    with assms(2) True show ?thesis by (simp add: unat_of_nat_u64 del: of_nat_diff)
  next
    case False
    have "(of_nat x - of_nat a :: u64) = of_nat (2 ^ 64 + x - a)"
      using assms False by (simp add: of_nat_diff)
    with assms False show ?thesis by (simp add: unat_of_nat_u64 del: of_nat_diff)
  qed
  then show ?thesis
    using assms by (auto simp: area_def put_area_def byte_of_store_bytes)
qed

lemma holds_put: "holds_at (put_area a d f) a d"
  by (simp add: holds_at_def put_area_def)

lemma holds_put_other:
  assumes "b + length e \<le> a \<or> a + length d \<le> b"
  shows "holds_at (put_area a d f) b e = holds_at f b e"
proof -
  have "put_area a d f (b + j) = f (b + j)" if "j < length e" for j
    using assms that by (auto simp: put_area_def)
  then show ?thesis by (simp add: holds_at_def)
qed

lemma holds_load:
  assumes "holds_at (area base m) a d" and "base + of_nat a = y" and "length d = k"
  shows "load_bytes y k m = d"
  using assms by (intro nth_equalityI) (auto simp: load_bytes_byte holds_at_def area_def add.assoc)

lemma area_holds:
  assumes "a + length d \<le> 2 ^ 63"
  shows "holds_at (area base (store_bytes (base + of_nat a) d m)) a d"
  using assms holds_put [of a d] by (simp add: holds_at_def area_store)

lemma area_other:
  assumes "a + length d \<le> 2 ^ 63" and "b + length e \<le> 2 ^ 63" and "b + length e \<le> a \<or> a + length d \<le> b"
  shows "holds_at (area base (store_bytes (base + of_nat a) d m)) b e = holds_at (area base m) b e"
proof -
  have "area base (store_bytes (base + of_nat a) d m) (b + j) = put_area a d (area base m) (b + j)" if "j < length e" for j
    using assms that by (intro area_store) auto
  then show ?thesis
    using holds_put_other [OF assms(3), of "area base m"] by (simp add: holds_at_def)
qed

section \<open>The strings\<close>

definition strings_size :: "u8 list list \<Rightarrow> nat" where
  "strings_size xs = sum_list (map (\<lambda>x. length x + 1) xs)"

lemma strings_size_simps [simp]: "strings_size [] = 0" "strings_size (x # xs) = length x + 1 + strings_size xs"
  by (simp_all add: strings_size_def)

lemma length_bytes64 [simp]: "length (bytes64 w) = 8"
  by (simp add: bytes64_def bytes32_def)

lemma strings_size_take: "i < length xs \<Longrightarrow> strings_size (take i xs) + length (xs ! i) + 1 \<le> strings_size xs"
  by (induction xs arbitrary: i) (auto simp: nth_Cons' take_Cons' split: if_splits)

text \<open>What \<open>put_strings\<close> leaves: the pointers and, where they point to, the strings; other bytes are as before.\<close>

definition strings_at :: "(nat \<Rightarrow> u8) \<Rightarrow> nat \<Rightarrow> nat \<Rightarrow> u64 \<Rightarrow> u8 list list \<Rightarrow> bool" where
  "strings_at f p k u xs \<longleftrightarrow> (\<forall>i < length xs. holds_at f (p + 8 * i) (bytes64 (u + of_nat (strings_size (take i xs))))
    \<and> holds_at f (k + strings_size (take i xs)) (xs ! i @ [0]))"

lemma put_strings_result:
  "snd (put_strings p (base + of_nat k) u xs m) = (base + of_nat (k + strings_size xs), u + of_nat (strings_size xs))"
proof (induction xs arbitrary: p k u m)
  case (Cons x xs)
  have "base + of_nat k + of_nat (length x) + 1 = base + of_nat (k + length x + 1)"
    by simp
  then show ?case
    using Cons [of "p + 8" "k + length x + 1"] by (simp add: add_ac)
qed simp

lemma put_strings_other:
  assumes "p + 8 * length xs \<le> 2 ^ 63" and "k + strings_size xs \<le> 2 ^ 63" and "b + length e \<le> 2 ^ 63"
    and "b + length e \<le> p \<or> p + 8 * length xs \<le> b" and "b + length e \<le> k \<or> k + strings_size xs \<le> b"
  shows "holds_at (area base (fst (put_strings (base + of_nat p) (base + of_nat k) u xs m))) b e = holds_at (area base m) b e"
  using assms
proof (induction xs arbitrary: p k u m)
  case (Cons x xs)
  let ?m = "store_bytes (base + of_nat k) (x @ [0]) (store_bytes (base + of_nat p) (bytes64 u) m)"
  have "base + of_nat k + of_nat (length x) + 1 = base + of_nat (k + length x + 1)" "base + of_nat p + 8 = base + of_nat (p + 8)"
    by simp_all
  then have "put_strings (base + of_nat p) (base + of_nat k) u (x # xs) m
      = put_strings (base + of_nat (p + 8)) (base + of_nat (k + length x + 1)) (u + of_nat (length x) + 1) xs ?m"
    by (simp only: put_strings.simps)
  moreover have "holds_at (area base ?m) b e = holds_at (area base m) b e"
    using Cons.prems by (subst area_other; (subst area_other)?) auto
  ultimately show ?case
    using Cons.IH [of "p + 8" "k + length x + 1"] Cons.prems by auto
qed simp

lemma put_strings_at:
  assumes "p + 8 * length xs \<le> k" and "k + strings_size xs \<le> 2 ^ 63"
  shows "strings_at (area base (fst (put_strings (base + of_nat p) (base + of_nat k) u xs m))) p k u xs"
  using assms
proof (induction xs arbitrary: p k u m)
  case Nil
  then show ?case by (simp add: strings_at_def)
next
  case (Cons x xs)
  let ?m = "store_bytes (base + of_nat k) (x @ [0]) (store_bytes (base + of_nat p) (bytes64 u) m)"
    and ?k = "k + length x + 1" and ?u = "u + of_nat (length x) + 1"
  let ?r = "put_strings (base + of_nat (p + 8)) (base + of_nat ?k) ?u xs ?m"
  have "base + of_nat k + of_nat (length x) + 1 = base + of_nat ?k" "base + of_nat p + 8 = base + of_nat (p + 8)"
    by simp_all
  then have r: "put_strings (base + of_nat p) (base + of_nat k) u (x # xs) m = ?r"
    by (simp only: put_strings.simps)
  have "holds_at (area base ?m) p (bytes64 u)" "holds_at (area base ?m) k (x @ [0])"
    using Cons.prems by (auto simp: area_other intro!: area_holds)
  moreover have "holds_at (area base (fst ?r)) b e = holds_at (area base ?m) b e" if "(b, e) \<in> {(p, bytes64 u), (k, x @ [0])}" for b e
    using that Cons.prems by (intro put_strings_other) auto
  ultimately have z: "holds_at (area base (fst ?r)) p (bytes64 u)" "holds_at (area base (fst ?r)) k (x @ [0])"
    by auto
  have s: "strings_at (area base (fst ?r)) (p + 8) ?k ?u xs"
    using Cons.prems by (intro Cons.IH) auto
  show ?case
    unfolding r strings_at_def
  proof (intro allI impI)
    fix i assume i: "i < length (x # xs)"
    show "holds_at (area base (fst ?r)) (p + 8 * i) (bytes64 (u + of_nat (strings_size (take i (x # xs)))))
      \<and> holds_at (area base (fst ?r)) (k + strings_size (take i (x # xs))) ((x # xs) ! i @ [0])"
    proof (cases i)
      case 0
      with z show ?thesis by simp
    next
      case (Suc j)
      with s i show ?thesis by (auto simp: strings_at_def add_ac)
    qed
  qed
qed

lemma strings_at_cong:
  assumes "\<And>b e. (p \<le> b \<and> b + length e \<le> p + 8 * length xs) \<or> (k \<le> b \<and> b + length e \<le> k + strings_size xs) \<Longrightarrow>
    holds_at f b e = holds_at g b e"
  shows "strings_at f p k u xs = strings_at g p k u xs"
proof -
  have "holds_at f (p + 8 * i) (bytes64 v) = holds_at g (p + 8 * i) (bytes64 v)"
    "holds_at f (k + strings_size (take i xs)) (xs ! i @ [0]) = holds_at g (k + strings_size (take i xs)) (xs ! i @ [0])"
    if "i < length xs" for i v
    using that strings_size_take [OF that] by (auto intro!: assms)
  then show ?thesis by (auto simp: strings_at_def)
qed

lemma strings_at_store:
  assumes "a + length d \<le> 2 ^ 63" and "p + 8 * length xs \<le> 2 ^ 63" and "k + strings_size xs \<le> 2 ^ 63"
    and "p + 8 * length xs \<le> a \<or> a + length d \<le> p" and "k + strings_size xs \<le> a \<or> a + length d \<le> k"
  shows "strings_at (area base (store_bytes (base + of_nat a) d m)) p k u xs = strings_at (area base m) p k u xs"
  using assms by (intro strings_at_cong area_other) auto

lemma strings_at_put_strings:
  assumes "p' + 8 * length ys \<le> 2 ^ 63" and "k' + strings_size ys \<le> 2 ^ 63" and "p + 8 * length xs \<le> p'"
    and "p' + 8 * length ys \<le> k" and "k + strings_size xs \<le> k'"
  shows "strings_at (area base (fst (put_strings (base + of_nat p') (base + of_nat k') v ys m))) p k u xs = strings_at (area base m) p k u xs"
  using assms by (intro strings_at_cong put_strings_other) auto

lemmas kept_by_stores = area_holds area_other [THEN iffD2] put_strings_other [THEN iffD2] put_strings_at strings_at_store [THEN iffD2]
  strings_at_put_strings [THEN iffD2]

section \<open>The whole stack\<close>

text \<open>The stores of \<open>copy_thing_user_stack\<close> at offsets from the new stack pointer: \<open>q\<close> is the offset of the auxiliary vector, \<open>k\<close> that
  of the strings, and \<open>u\<close> their address for the program.\<close>

definition stack_mem :: "u64 \<Rightarrow> nat \<Rightarrow> u64 \<Rightarrow> u8 list list \<Rightarrow> u8 list list \<Rightarrow> u8 list \<Rightarrow> u8 list \<Rightarrow> mem64 \<Rightarrow> mem64" where
  "stack_mem base tot u argv envs filename aux m =
    (let n = length argv; q = 24 + 8 * n + 8 * length envs; k = q + 632; l = k + strings_size argv;
         m = store_bytes (base + of_nat 0) (bytes64 (of_nat n)) m;
         m = fst (put_strings (base + of_nat 8) (base + of_nat k) u argv m);
         m = store_bytes (base + of_nat (8 + 8 * n)) (bytes64 0) m;
         m = fst (put_strings (base + of_nat (16 + 8 * n)) (base + of_nat l) (u + of_nat (strings_size argv)) envs m);
         m = store_bytes (base + of_nat (q - 8)) (bytes64 0) m;
         m = store_bytes (base + of_nat (l + strings_size envs)) (filename @ [0]) m;
         m = store_bytes (base + of_nat q) aux m;
         m = store_bytes (base + of_nat (q + 312)) (bytes64 0) m
     in store_bytes (base + of_nat (tot - 8)) restore_code m)"

lemma length_restore [simp]: "length restore_code = 8"
  by (simp add: restore_code_def bytes32_def)

lemma holds_overwrite:
  assumes "holds_at (area base m) a d" and "i + length e \<le> length d" and "\<And>j. j < length e \<Longrightarrow> d ! (i + j) = e ! j" and "a + length d \<le> 2 ^ 63"
  shows "holds_at (area base (store_bytes (base + of_nat (a + i)) e m)) a d"
proof -
  have "area base (store_bytes (base + of_nat (a + i)) e m) (a + j) = d ! j" if j: "j < length d" for j
  proof -
    have "area base (store_bytes (base + of_nat (a + i)) e m) (a + j) = put_area (a + i) e (area base m) (a + j)"
      using assms(2,4) j by (intro area_store) auto
    then show ?thesis
      using assms(1) assms(3) [of "j - i"] j by (auto simp: put_area_def holds_at_def)
  qed
  then show ?thesis by (simp add: holds_at_def)
qed

lemma stack_mem_holds:
  fixes argv envs :: "u8 list list" and filename aux :: "u8 list" and base u :: u64 and m :: mem64 and tot :: nat
  defines "n \<equiv> length argv" and "q \<equiv> 24 + 8 * length argv + 8 * length envs"
  assumes tot: "q + 632 + strings_size argv + strings_size envs + length filename + 1 + 8 \<le> tot" "tot \<le> 4096"
    and aux: "length aux = 368" "\<And>j. j < 8 \<Longrightarrow> aux ! (312 + j) = 0"
  defines "f \<equiv> area base (stack_mem base tot u argv envs filename aux m)"
  shows "holds_at f 0 (bytes64 (of_nat n))" and "strings_at f 8 (q + 632) u argv" and "holds_at f (8 + 8 * n) (bytes64 0)"
    and "strings_at f (16 + 8 * n) (q + 632 + strings_size argv) (u + of_nat (strings_size argv)) envs" and "holds_at f (q - 8) (bytes64 0)"
    and "holds_at f (q + 632 + strings_size argv + strings_size envs) (filename @ [0])" and "holds_at f q aux"
proof -
  note defs = f_def stack_mem_def Let_def n_def q_def
  note bounds = tot [unfolded q_def]
  show "holds_at f 0 (bytes64 (of_nat n))"
    unfolding defs by (intro kept_by_stores) (use bounds aux(1) in auto)
  show "strings_at f 8 (q + 632) u argv"
    unfolding defs by (intro kept_by_stores) (use bounds aux(1) in auto)
  show "holds_at f (8 + 8 * n) (bytes64 0)"
    unfolding defs by (intro kept_by_stores) (use bounds aux(1) in auto)
  show "strings_at f (16 + 8 * n) (q + 632 + strings_size argv) (u + of_nat (strings_size argv)) envs"
    unfolding defs by (intro kept_by_stores) (use bounds aux(1) in auto)
  show "holds_at f (q - 8) (bytes64 0)"
    unfolding defs by (intro kept_by_stores) (use bounds aux(1) in auto)
  show "holds_at f (q + 632 + strings_size argv + strings_size envs) (filename @ [0])"
    unfolding defs by (intro kept_by_stores) (use bounds aux(1) in auto)
  have "bytes64 0 = replicate 8 0"
    by (simp add: bytes64_def bytes32_def eval_nat_numeral)
  then have "bytes64 0 ! j = aux ! (312 + j)" if "j < 8" for j
    using that aux(2) by simp
  then show "holds_at f q aux"
    unfolding defs by (intro area_other [THEN iffD2] holds_overwrite area_holds) (use bounds aux(1) in auto)
qed

lemma tot_length_nat:
  "\<exists>k. tot_length (int (length argv)) argv envs filename = int k
    \<and> 24 + 8 * length argv + 8 * length envs + 632 + strings_size argv + strings_size envs + length filename + 1 + 8 \<le> k"
proof -
  let ?n = "24 + 8 * length argv + 8 * length envs + 632 + strings_size argv + strings_size envs + length filename + 1 + 16"
  have "tot_length (int (length argv)) argv envs filename = (int ?n + 255) div 256 * 256"
    by (simp add: tot_length_def point_length_def Let_def strings_size_def algebra_simps)
  also have "\<dots> = int ((?n + 255) div 256 * 256)"
    by simp
  finally have "tot_length (int (length argv)) argv envs filename = int ((?n + 255) div 256 * 256)" .
  moreover have "?n \<le> (?n + 255) div 256 * 256"
    by linarith
  ultimately show ?thesis by (intro exI [of _ "(?n + 255) div 256 * 256"]) linarith
qed

definition aux_bytes :: "(u64 \<times> u64) list \<Rightarrow> u8 list" where
  "aux_bytes xs = concat (map (\<lambda>(i, v). bytes64 i @ bytes64 v) xs)"

lemma aux_bytes_vec:
  "length (aux_bytes (set_aux_vec x f w)) = 368"
  "j < 8 \<Longrightarrow> aux_bytes (set_aux_vec x f w) ! (312 + j) = 0"
proof -
  show "length (aux_bytes (set_aux_vec x f w)) = 368"
    by (simp add: aux_bytes_def set_aux_vec_def)
  have "\<exists>xs ys. length xs = 312 \<and> aux_bytes (set_aux_vec x f w) = xs @ bytes64 0 @ ys"
  proof (intro exI conjI)
    show "aux_bytes (set_aux_vec x f w) = (aux_bytes (take 19 (set_aux_vec x f w)) @ bytes64 23) @ bytes64 0 @ aux_bytes (drop 20 (set_aux_vec x f w))"
      by (simp add: aux_bytes_def set_aux_vec_def)
    show "length (aux_bytes (take 19 (set_aux_vec x f w)) @ bytes64 23) = 312"
      by (simp add: aux_bytes_def set_aux_vec_def)
  qed
  then obtain xs ys where "length xs = 312" "aux_bytes (set_aux_vec x f w) = xs @ bytes64 0 @ ys" by blast
  moreover have "bytes64 0 = replicate 8 0"
    by (simp add: bytes64_def bytes32_def eval_nat_numeral)
  ultimately show "aux_bytes (set_aux_vec x f w) ! (312 + j) = 0" if "j < 8"
    using that by (simp add: nth_append)
qed

lemma copy_thing_stack_mem:
  fixes s :: "'a mmkernel_scheme" and r :: pcb_ref
  assumes tot: "tot_length (int (length argv)) argv envs filename = int tot"
  defines "p \<equiv> pcb_tab s r"
  defines "kernel_top \<equiv> get_kva_of (mem s) (user_stack_top p - PAGE_SIZE) (pgdir p) + PAGE_SIZE" and "sp \<equiv> user_stack_top p - of_nat tot"
    and "k \<equiv> 24 + 8 * length argv + 8 * length envs + 632"
  defines "file \<equiv> sp + of_nat (k + strings_size argv + strings_size envs)"
  shows "copy_thing_user_stack r (int (length argv)) argv (Some envs) filename s =
    (s\<lparr>mem := stack_mem (kernel_top - of_nat tot) tot (sp + of_nat k) argv envs filename
        (aux_bytes (set_aux_vec (elf p) file (file + of_nat (length filename) + 1))) (mem s)\<rparr>, sp)"
proof -
  let ?base = "kernel_top - of_nat tot :: u64"
  have pl: "point_length (int (length argv)) (length envs) = int k"
    by (simp add: point_length_def k_def)
  have res: "fst (snd (put_strings a (?base + of_nat i) u xs m)) = ?base + of_nat (i + strings_size xs)"
    "snd (snd (put_strings a (?base + of_nat i) u xs m)) = u + of_nat (strings_size xs)" for a i u xs m
    by (simp_all add: put_strings_result)
  have adr: "?base + 8 + 8 * of_nat (length argv) = ?base + of_nat (8 + 8 * length argv)"
    "?base + 8 + 8 * (of_nat (length argv) + 1) = ?base + of_nat (16 + 8 * length argv)"
    "?base + of_nat (16 + 8 * length argv) + 8 * of_nat (length envs) = ?base + of_nat (24 + 8 * length argv + 8 * length envs - 8)"
    "?base + of_nat (16 + 8 * length argv) + 8 * (of_nat (length envs) + 1) = ?base + of_nat (24 + 8 * length argv + 8 * length envs)"
    "?base + of_nat (24 + 8 * length argv + 8 * length envs) + 8 * of_nat (38 + 1) = ?base + of_nat (24 + 8 * length argv + 8 * length envs + 312)"
    by (simp_all add: algebra_simps)
  have "8 \<le> tot"
    using tot_length_nat [of argv envs filename] tot by auto
  then have end_eq: "kernel_top - of_nat 8 = ?base + of_nat (tot - 8)"
    by simp
  show ?thesis
    unfolding copy_thing_user_stack_def stack_mem_def Let_def tot pl option.case nat_int take_all [OF order.refl] of_int_of_nat_eq
      kernel_top_def [symmetric] sp_def [symmetric] p_def [symmetric] case_prod_beta res adr end_eq
    by (simp add: aux_bytes_def case_prod_unfold file_def k_def add.assoc)
qed

section \<open>Properties\<close>

text \<open>The pointer at \<open>p\<close> points to the string \<open>x\<close>, for addresses read through \<open>to_kernel\<close>.\<close>

definition points_to :: "mem64 \<Rightarrow> (u64 \<Rightarrow> u64) \<Rightarrow> u64 \<Rightarrow> u8 list \<Rightarrow> bool" where
  "points_to m to_kernel p x \<longleftrightarrow>
    (\<exists>a. load_bytes (to_kernel p) 8 m = bytes64 a \<and> load_bytes (to_kernel a) (length x + 1) m = x @ [0])"

lemma strings_at_points_to:
  assumes "strings_at (area base m) p k u xs" and "i < length xs" and "\<And>j. to_kernel (sp + of_nat j) = base + of_nat j" and "u = sp + of_nat k"
  shows "points_to m to_kernel (sp + of_nat (p + 8 * i)) (xs ! i)"
proof -
  let ?a = "u + of_nat (strings_size (take i xs))"
  have "to_kernel ?a = base + of_nat (k + strings_size (take i xs))"
    using assms(3) [of "k + strings_size (take i xs)"] by (simp add: assms(4) add.assoc)
  moreover have "holds_at (area base m) (p + 8 * i) (bytes64 ?a)" "holds_at (area base m) (k + strings_size (take i xs)) (xs ! i @ [0])"
    using assms(1,2) by (auto simp: strings_at_def)
  ultimately have "load_bytes (to_kernel ?a) (length (xs ! i) + 1) m = xs ! i @ [0]"
    "load_bytes (to_kernel (sp + of_nat (p + 8 * i))) 8 m = bytes64 ?a"
    using holds_load assms(3) by (metis length_append_singleton Suc_eq_plus1, metis length_bytes64)
  then show ?thesis
    unfolding points_to_def by blast
qed

text \<open>C9: A new program finds its arguments on its stack. When everything fits into the top page of the stack,
  \<open>copy_thing_user_stack\<close> leaves at the new stack pointer the number of arguments, then a pointer for each argument to its
  string with its terminating zero, a null pointer, a pointer for each string of the environment, a null pointer, and the
  auxiliary vector, in which the name of the file is pointed to; nothing overwrites what was stored before it. The addresses
  are those of the program, which the kernel reaches through its own mapping of the page.\<close>

theorem exec_stack_layout:
  assumes "tot_length (int (length argv)) argv envs filename \<le> 4096"
    and "copy_thing_user_stack r (int (length argv)) argv (Some envs) filename s = (t, sp)"
    and "to_kernel = (\<lambda>a. a - user_stack_top (pcb_tab s r)
      + (get_kva_of (mem s) (user_stack_top (pcb_tab s r) - PAGE_SIZE) (pgdir (pcb_tab s r)) + PAGE_SIZE))"
  shows "sp = user_stack_top (pcb_tab s r) - of_int (tot_length (int (length argv)) argv envs filename)
    \<and> load_bytes (to_kernel sp) 8 (mem t) = bytes64 (of_nat (length argv))
    \<and> (\<forall>i < length argv. points_to (mem t) to_kernel (sp + of_nat (8 + 8 * i)) (argv ! i))
    \<and> load_bytes (to_kernel (sp + of_nat (8 + 8 * length argv))) 8 (mem t) = bytes64 0
    \<and> (\<forall>i < length envs. points_to (mem t) to_kernel (sp + of_nat (16 + 8 * length argv + 8 * i)) (envs ! i))
    \<and> load_bytes (to_kernel (sp + of_nat (16 + 8 * length argv + 8 * length envs))) 8 (mem t) = bytes64 0
    \<and> (\<exists>name random. load_bytes (to_kernel (sp + of_nat (24 + 8 * length argv + 8 * length envs))) 368 (mem t)
          = aux_bytes (set_aux_vec (elf (pcb_tab s r)) name random)
        \<and> load_bytes (to_kernel name) (length filename + 1) (mem t) = filename @ [0])"
proof -
  let ?q = "24 + 8 * length argv + 8 * length envs" and ?S = "strings_size argv" and ?E = "strings_size envs"
  obtain k where tot: "tot_length (int (length argv)) argv envs filename = int k"
      "?q + 632 + ?S + ?E + length filename + 1 + 8 \<le> k" "k \<le> 4096"
    using tot_length_nat [of argv envs filename] assms(1) by auto
  define base where "base = get_kva_of (mem s) (user_stack_top (pcb_tab s r) - PAGE_SIZE) (pgdir (pcb_tab s r)) + PAGE_SIZE - of_nat k"
  define u where "u = sp + of_nat (?q + 632)"
  define name where "name = sp + of_nat (?q + 632 + ?S + ?E)"
  define aux where "aux = aux_bytes (set_aux_vec (elf (pcb_tab s r)) name (name + of_nat (length filename) + 1))"
  note res = trans [OF assms(2) [symmetric] copy_thing_stack_mem [OF tot(1)], unfolded prod.inject]
  have sp: "sp = user_stack_top (pcb_tab s r) - of_nat k"
    using res by blast
  have "t = s\<lparr>mem := stack_mem base k u argv envs filename aux (mem s)\<rparr>"
    using res [folded sp] by (simp only: base_def u_def name_def aux_def)
  then have m: "mem t = stack_mem base k u argv envs filename aux (mem s)"
    by simp
  have tk: "to_kernel (sp + of_nat j) = base + of_nat j" for j
    by (simp add: assms(3) sp base_def)
  have a: "length aux = 368" "\<And>j. j < 8 \<Longrightarrow> aux ! (312 + j) = 0"
    by (simp_all add: aux_def aux_bytes_vec)
  note mem = stack_mem_holds [OF tot(2,3) a, where base = base and u = u and m = "mem s", folded m]
  have load: "load_bytes (to_kernel (sp + of_nat a)) (length d) (mem t) = d" if "holds_at (area base (mem t)) a d" for a d
    using holds_load [OF that] by (simp add: tk)
  have str: "points_to (mem t) to_kernel (sp + of_nat (p + 8 * i)) (xs ! i)"
    if "strings_at (area base (mem t)) p j (sp + of_nat j) xs" "i < length xs" for p j xs i
    by (rule strings_at_points_to [OF that tk refl])
  have envs: "u + of_nat ?S = sp + of_nat (?q + 632 + ?S)"
    by (simp add: u_def)
  have aux: "load_bytes (to_kernel (sp + of_nat ?q)) 368 (mem t) = aux"
    using load [OF mem(7)] by (simp add: aux_def aux_bytes_vec)
  show ?thesis
  proof (intro conjI allI impI exI)
    show "sp = user_stack_top (pcb_tab s r) - of_int (tot_length (int (length argv)) argv envs filename)"
      by (simp add: sp tot(1))
    show "load_bytes (to_kernel sp) 8 (mem t) = bytes64 (of_nat (length argv))"
      using load [OF mem(1)] by simp
    show "load_bytes (to_kernel (sp + of_nat (8 + 8 * length argv))) 8 (mem t) = bytes64 0"
      using load [OF mem(3)] by simp
    show "load_bytes (to_kernel (sp + of_nat (16 + 8 * length argv + 8 * length envs))) 8 (mem t) = bytes64 0"
      using load [OF mem(5)] by (simp add: add.assoc)
    show "points_to (mem t) to_kernel (sp + of_nat (8 + 8 * i)) (argv ! i)" if "i < length argv" for i
      using str [OF mem(2) [unfolded u_def] that] .
    show "points_to (mem t) to_kernel (sp + of_nat (16 + 8 * length argv + 8 * i)) (envs ! i)" if "i < length envs" for i
      using str [OF mem(4) [unfolded envs] that] .
    show "load_bytes (to_kernel (sp + of_nat ?q)) 368 (mem t)
        = aux_bytes (set_aux_vec (elf (pcb_tab s r)) name (name + of_nat (length filename) + 1))"
      using aux by (simp only: aux_def)
    show "load_bytes (to_kernel name) (length filename + 1) (mem t) = filename @ [0]"
      using load [OF mem(6)] by (simp add: name_def)
  qed
qed

theorem exec_stack_layout_witness:
  "\<exists>t sp. copy_thing_user_stack (PCB 1) 2 [[108, 115], [45, 108]] (Some [[80]]) [108, 115] demo_mm = (t, sp)
    \<and> points_to (mem t) (\<lambda>a. a - user_stack_top (pcb_tab demo_mm (PCB 1))
        + (get_kva_of (mem demo_mm) (user_stack_top (pcb_tab demo_mm (PCB 1)) - PAGE_SIZE) (pgdir (pcb_tab demo_mm (PCB 1))) + PAGE_SIZE))
      (sp + 16) [45, 108]"
proof -
  let ?argv = "[[108, 115], [45, 108]] :: u8 list list"
  obtain t sp where r: "copy_thing_user_stack (PCB 1) (int (length ?argv)) ?argv (Some [[80]]) [108, 115] demo_mm = (t, sp)"
    by (cases "copy_thing_user_stack (PCB 1) (int (length ?argv)) ?argv (Some [[80]]) [108, 115] demo_mm") blast
  have "tot_length (int (length ?argv)) ?argv [[80]] [108, 115] \<le> 4096"
    by (simp add: tot_length_def point_length_def)
  from exec_stack_layout [OF this r refl]
  have "\<forall>i < length ?argv. points_to (mem t) (\<lambda>a. a - user_stack_top (pcb_tab demo_mm (PCB 1))
        + (get_kva_of (mem demo_mm) (user_stack_top (pcb_tab demo_mm (PCB 1)) - PAGE_SIZE) (pgdir (pcb_tab demo_mm (PCB 1))) + PAGE_SIZE))
      (sp + of_nat (8 + 8 * i)) (?argv ! i)"
    by (elim conjE)
  from this [rule_format, of 1] r show ?thesis
    by (intro exI conjI) simp_all
qed

end
