(* ===== verification/Smp.thy ===== *)
theory Smp
  imports Locks
begin

text \<open>
  Spin locks between processors (\<open>kernel/smp/spinlock.c\<close>, \<open>include/os/spinlock.h\<close>, the kernel lock of \<open>kernel/smp/smp.c\<close> and
  \<open>atomic_cmpxchg\<close> of \<open>arch/riscv/include/atomic.h\<close>). The processors run interleaved; a step of a processor is one round of the loop
  of \<open>acquire\<close> or \<open>lock_kernel\<close>, whose only access to the status is the atomic exchange, or the store of \<open>release\<close>.
\<close>

record spinlock =
  spin_status :: u64
  spin_cpu :: u64

definition initlock :: "spinlock \<Rightarrow> spinlock" where
  "initlock l = l\<lparr>spin_status := 0, spin_cpu := 0\<rparr>"

text \<open>The word at the address afterwards, and the old word.\<close>

definition atomic_cmpxchg :: "u32 \<Rightarrow> u32 \<Rightarrow> u32 \<Rightarrow> u32 \<times> u32" where
  "atomic_cmpxchg old_val new_val w = (if w = old_val then new_val else w, w)"

text \<open>The exchange works on the lower word of \<open>status\<close>.\<close>

definition set_low :: "u32 \<Rightarrow> u64 \<Rightarrow> u64" where
  "set_low w x = (x AND NOT 0xffffffff) OR ucast w"

text \<open>One round of the loop: the lock afterwards, and whether the loop ends.\<close>

definition acquire :: "spinlock \<Rightarrow> spinlock \<times> bool" where
  "acquire l =
    (let (w, ret) = atomic_cmpxchg 0 1 (ucast (spin_status l)) in (l\<lparr>spin_status := set_low w (spin_status l)\<rparr>, ret = 0))"

definition release :: "spinlock \<Rightarrow> spinlock" where
  "release l = l\<lparr>spin_status := 0\<rparr>"

definition lock_kernel :: "spinlock \<Rightarrow> spinlock \<times> bool" where
  "lock_kernel l =
    (let (w, ret) = atomic_cmpxchg 0 1 (ucast (spin_status l)) in (l\<lparr>spin_status := set_low w (spin_status l)\<rparr>, ret = 0))"

definition unlock_kernel :: "spinlock \<Rightarrow> spinlock" where
  "unlock_kernel l = l\<lparr>spin_status := 0\<rparr>"

definition init_kernel_lock :: "spinlock \<Rightarrow> spinlock" where
  "init_kernel_lock l = l\<lparr>spin_status := 0\<rparr>"

section \<open>Processors around a lock\<close>

datatype phase = Outside | Spinning | Inside

text \<open>The steps of processors around a lock whose loop has the round \<open>turn\<close> and that is given up by \<open>give\<close>.\<close>

inductive lock_step :: "('l \<Rightarrow> 'l \<times> bool) \<Rightarrow> ('l \<Rightarrow> 'l) \<Rightarrow> 'l \<times> (nat \<Rightarrow> phase) \<Rightarrow> 'l \<times> (nat \<Rightarrow> phase) \<Rightarrow> bool"
  for turn :: "'l \<Rightarrow> 'l \<times> bool" and give :: "'l \<Rightarrow> 'l" where
  enter: "pc h = Outside \<Longrightarrow> lock_step turn give (l, pc) (l, pc(h := Spinning))"
| round: "pc h = Spinning \<Longrightarrow> lock_step turn give (l, pc) (fst (turn l), pc(h := if snd (turn l) then Inside else Spinning))"
| leave: "pc h = Inside \<Longrightarrow> lock_step turn give (l, pc) (give l, pc(h := Outside))"

inductive_cases lock_stepE: "lock_step turn give (l, pc) c"

definition exclusive :: "('l \<Rightarrow> bool) \<Rightarrow> ('l \<Rightarrow> bool) \<Rightarrow> 'l \<times> (nat \<Rightarrow> phase) \<Rightarrow> bool" where
  "exclusive ok free c \<longleftrightarrow> (case c of (l, pc) \<Rightarrow>
     ok l \<and> (\<forall>h k. pc h = Inside \<longrightarrow> pc k = Inside \<longrightarrow> h = k) \<and> (free l \<longleftrightarrow> (\<forall>h. pc h \<noteq> Inside)))"

text \<open>What a lock promises, one round at a time: it is taken only when it is free, and giving it up frees it.\<close>

locale spin =
  fixes turn :: "'l \<Rightarrow> 'l \<times> bool" and give :: "'l \<Rightarrow> 'l" and free :: "'l \<Rightarrow> bool" and inv :: "'l \<Rightarrow> bool"
  assumes turn_free: "inv l \<Longrightarrow> snd (turn l) = free l" and turn_takes: "inv l \<Longrightarrow> \<not> free (fst (turn l))"
    and turn_inv: "inv l \<Longrightarrow> inv (fst (turn l))" and give_free: "inv l \<Longrightarrow> free (give l)" and give_inv: "inv l \<Longrightarrow> inv (give l)"
begin

lemma exclusive_step:
  assumes "lock_step turn give c d" and "exclusive inv free c"
  shows "exclusive inv free d"
proof -
  obtain l pc where c: "c = (l, pc)" by (cases c)
  have i: "inv l" and one: "pc h = Inside \<Longrightarrow> pc k = Inside \<Longrightarrow> h = k" and fr: "free l \<longleftrightarrow> (\<forall>h. pc h \<noteq> Inside)" for h k
    using assms(2) unfolding c exclusive_def by auto
  show ?thesis
    using assms(1) unfolding c
  proof (elim lock_stepE, goal_cases)
    case (1 h)
    then have "(pc(h := Spinning)) k = Inside \<longleftrightarrow> pc k = Inside" for k by auto
    then show ?thesis using 1 i one fr unfolding exclusive_def by auto
  next
    case (2 h)
    show ?thesis
    proof (cases "free l")
      case True
      then have "\<forall>k. pc k \<noteq> Inside" using fr by blast
      then show ?thesis
        using 2 turn_free [OF i] turn_takes [OF i] turn_inv [OF i] True unfolding exclusive_def by (auto split: if_splits)
    next
      case False
      then obtain k where k: "pc k = Inside" using fr by blast
      have d: "d = (fst (turn l), pc(h := Spinning))" using 2 turn_free [OF i] False by simp
      have "(pc(h := Spinning)) j = Inside \<longleftrightarrow> pc j = Inside" for j using 2 by auto
      then show ?thesis
        using d k turn_takes [OF i] turn_inv [OF i] one unfolding exclusive_def by auto
    qed
  next
    case (3 h)
    then show ?thesis
      using give_free [OF i] give_inv [OF i] one unfolding exclusive_def by (auto split: if_splits)
  qed
qed

end

text \<open>The high half of the status stays 0, so that the status is one of the two constants.\<close>

definition spin_ok :: "spinlock \<Rightarrow> bool" where
  "spin_ok l \<longleftrightarrow> spin_status l = 0 \<or> spin_status l = 1"

interpretation spinlock: spin lock_kernel unlock_kernel "\<lambda>l. spin_status l = 0" spin_ok
  by unfold_locales (auto simp: spin_ok_def lock_kernel_def unlock_kernel_def atomic_cmpxchg_def set_low_def)

text \<open>The state of a run of the processors that share a lock.\<close>

inductive reachable :: "spinlock \<times> (nat \<Rightarrow> phase) \<Rightarrow> bool" where
  start: "reachable (init_kernel_lock l, \<lambda>_. Outside)"
| run: "reachable c \<Longrightarrow> lock_step lock_kernel unlock_kernel c d \<Longrightarrow> reachable d"

section \<open>Properties\<close>

text \<open>C13: The kernel lock excludes: however the processors interleave the rounds of \<open>lock_kernel\<close> and the stores of
  \<open>unlock_kernel\<close>, never two of them are between the two calls; and whenever none is, the next round of a processor that spins takes
  the lock.\<close>

theorem kernel_lock_excludes:
  assumes "reachable (l, pc)"
  shows "(pc h = Inside \<longrightarrow> pc k = Inside \<longrightarrow> h = k)
    \<and> ((\<forall>h. pc h \<noteq> Inside) \<longrightarrow> snd (lock_kernel l))
    \<and> (pc h = Inside \<longrightarrow> \<not> snd (lock_kernel l) \<and> fst (lock_kernel l) = l)"
proof -
  have "exclusive spin_ok (\<lambda>l. spin_status l = 0) c" if "reachable c" for c
    using that
  proof induction
    case (start l)
    then show ?case by (simp add: exclusive_def spin_ok_def init_kernel_lock_def)
  next
    case (run c d)
    then show ?case by (blast intro: spinlock.exclusive_step)
  qed
  from this [OF assms] have e: "spin_ok l" "pc h = Inside \<longrightarrow> pc k = Inside \<longrightarrow> h = k" "spin_status l = 0 \<longleftrightarrow> (\<forall>h. pc h \<noteq> Inside)"
    unfolding exclusive_def by auto
  have "fst (lock_kernel l) = l" if "spin_status l = 1"
    using that by (simp add: lock_kernel_def atomic_cmpxchg_def set_low_def)
  then show ?thesis
    using e spinlock.turn_free [OF e(1)] by (auto simp: spin_ok_def)
qed

theorem kernel_lock_excludes_witness:
  "\<exists>l. reachable (l, (\<lambda>_. Outside)(0 := Inside, 1 := Spinning)) \<and> \<not> snd (lock_kernel l)"
proof -
  let ?l = "\<lparr>spin_status = 0, spin_cpu = 0\<rparr>"
  have "reachable (init_kernel_lock ?l, \<lambda>_. Outside)" by (rule reachable.start)
  then have "reachable (init_kernel_lock ?l, (\<lambda>_. Outside)(0 := Spinning))"
    by (rule reachable.run) (rule lock_step.enter, simp)
  then have "reachable (fst (lock_kernel (init_kernel_lock ?l)), ((\<lambda>_. Outside)(0 := Spinning))(0 := if snd (lock_kernel (init_kernel_lock ?l)) then Inside else Spinning))"
    by (rule reachable.run) (rule lock_step.round, simp)
  moreover have "snd (lock_kernel (init_kernel_lock ?l))"
    by (simp add: lock_kernel_def atomic_cmpxchg_def init_kernel_lock_def)
  ultimately have "reachable (fst (lock_kernel (init_kernel_lock ?l)), (\<lambda>_. Outside)(0 := Inside))"
    by simp
  then have r: "reachable (fst (lock_kernel (init_kernel_lock ?l)), (\<lambda>_. Outside)(0 := Inside, 1 := Spinning))"
    by (rule reachable.run) (rule lock_step.enter, simp)
  show ?thesis
    using r kernel_lock_excludes [OF r, of 0 0] by auto
qed

end
