(* ===== verification/Trap.thy ===== *)
theory Trap
  imports Exec Socket
begin

text \<open>
  Entering the kernel: interrupts, exceptions and system calls (\<open>kernel/irq/irq.c\<close>, \<open>kernel/syscall/syscall.c\<close>, \<open>init_syscall\<close> and the
  first process of \<open>init/main.c\<close>), and the frame a signal handler gets (\<open>set_ucontext\<close> of \<open>kernel/sched/signal.c\<close>). The tables of
  handlers hold the names of functions. The bodies of the system calls are the argument \<open>call\<close>, from the name and the six argument
  registers: they are the operations of the other theories, which take what their pointers name as arguments. The timer of the
  machine and the console are not part of the state.
\<close>

abbreviation (input) SCAUSE_IRQ_FLAG :: u64 where "SCAUSE_IRQ_FLAG \<equiv> 0x8000000000000000"
abbreviation (input) SR_SPP :: u64 where "SR_SPP \<equiv> 0x100"
abbreviation (input) IRQC_COUNT :: nat where "IRQC_COUNT \<equiv> 12"
abbreviation (input) EXCC_COUNT :: nat where "EXCC_COUNT \<equiv> 16"
abbreviation (input) NUM_SYSCALLS :: nat where "NUM_SYSCALLS \<equiv> 512"

datatype irq_handler = Handle_other | Handle_int | Handle_syscall | Handle_page_fault_load | Handle_page_fault_store

section \<open>Tables\<close>

definition irq_table :: "irq_handler list" where
  "irq_table = (replicate IRQC_COUNT Handle_other)[5 := Handle_int]"

definition exc_table :: "irq_handler list" where
  "exc_table = (replicate EXCC_COUNT Handle_other)
    [8 := Handle_syscall, 5 := Handle_page_fault_load, 13 := Handle_page_fault_load, 15 := Handle_page_fault_store, 7 := Handle_page_fault_store]"

text \<open>The assignments of \<open>init_syscall\<close>: the number and the function.\<close>

definition syscall_entries :: "(nat \<times> string) list" where
  "syscall_entries =
    [(244, ''screen_write''), (245, ''screen_reflush''), (246, ''screen_clear''), (247, ''get_timer''), (248, ''get_ticks''),
     (243, ''do_exec''), (249, ''shm_page_get''), (250, ''shm_page_dt''), (252, ''disk_write''), (251, ''disk_read''),
     (253, ''do_pre_load''), (254, ''do_extend''), (172, ''do_getpid''), (173, ''do_getppid''), (169, ''do_gettimeofday''),
     (153, ''do_gettimes''), (93, ''do_exit''), (220, ''do_clone''), (260, ''do_wait4''), (101, ''do_nanosleep''),
     (221, ''do_execve''), (124, ''do_scheduler''), (160, ''do_uname''), (214, ''do_brk''), (56, ''fat32_openat''),
     (57, ''fat32_close''), (63, ''fat32_read''), (64, ''fat32_write''), (59, ''fat32_pipe2''), (23, ''fat32_dup''),
     (24, ''fat32_dup3''), (17, ''fat32_getcwd''), (49, ''fat32_chdir''), (34, ''fat32_mkdirat''), (61, ''fat32_getdents''),
     (37, ''fat32_link''), (35, ''fat32_unlink''), (40, ''fat32_mount''), (39, ''fat32_umount''), (80, ''fat32_fstat''),
     (222, ''fat32_mmap''), (215, ''fat32_munmap''), (25, ''fat32_fcntl''), (29, ''do_ioctl''), (65, ''fat32_readv''),
     (66, ''fat32_writev''), (67, ''fat32_pread''), (68, ''fat32_pwrite''), (62, ''fat32_lseek''), (79, ''fat32_fstatat''),
     (88, ''fat32_utimensat''), (94, ''do_exit_group''), (96, ''do_set_tid_address''), (113, ''do_clock_gettime''),
     (175, ''do_geteuid''), (177, ''do_getegid''), (178, ''do_gettid''), (157, ''do_setsid''), (179, ''do_sysinfo''),
     (43, ''fat32_statfs''), (44, ''fat32_fstatfs''), (163, ''do_getrlimit''), (164, ''do_setrlimit''), (261, ''do_prlimit''),
     (130, ''do_tkill''), (119, ''do_sched_setscheduler''), (123, ''do_sched_getaffinity''), (73, ''do_ppoll''), (129, ''do_kill''),
     (134, ''do_rt_sigaction''), (135, ''do_rt_sigprocmask''), (139, ''do_rt_sigreturn''), (137, ''do_rt_sigtimedwait''),
     (226, ''do_mprotect''), (98, ''do_futex''), (99, ''do_set_robust_list''), (100, ''do_get_robust_list''), (198, ''do_socket''),
     (200, ''do_bind''), (201, ''do_listen''), (203, ''do_connect''), (202, ''do_accept''), (204, ''do_getsockname''),
     (208, ''do_setsockopt''), (206, ''do_sendto''), (207, ''do_recvfrom''), (216, ''fat32_mremap''), (233, ''do_madvise''),
     (283, ''do_membarrier''), (131, ''do_tgkill''), (174, ''do_getuid''), (176, ''do_getgid''), (48, ''fat32_faccessat''),
     (82, ''fat32_fsync''), (116, ''do_syslog''), (166, ''do_vm86''), (78, ''fat32_readlinkat''), (165, ''do_getrusage''),
     (71, ''fat32_sendfile''), (72, ''do_pselect6''), (103, ''do_setitimer''), (227, ''fat32_msync''), (276, ''fat32_renameat2'')]"

definition handle_miss_name :: string where
  "handle_miss_name = ''handle_miss''"

definition init_syscall :: "string list" where
  "init_syscall = fold (\<lambda>(k, f) tab. tab[k := f]) syscall_entries (replicate NUM_SYSCALLS handle_miss_name)"

section \<open>Interrupts and exceptions\<close>

text \<open>A list of timers that goes round keeps \<open>itimer_check\<close> in its loop.\<close>

definition reset_irq_timer :: "'a os_scheme \<Rightarrow> ('a os_scheme, unit) outcome" where
  "reset_irq_timer s =
    (let s = check_futex_timeout (check_sleeping s) in
     case itimer_check (NUM_MAX_TASK + 2) s of
       None \<Rightarrow> Panic s
     | Some s \<Rightarrow> Blocked (do_scheduler s))"

definition handle_int :: "'a os_scheme \<Rightarrow> ('a os_scheme, unit) outcome" where
  "handle_int s = reset_irq_timer s"

text \<open>\<open>regs\<close> is the address of the trap frame. A number past the table reads what lies behind it.\<close>

definition handle_syscall :: "(string \<Rightarrow> u64 list \<Rightarrow> 'a fsos_scheme \<Rightarrow> ('a fsos_scheme, u64) outcome) \<Rightarrow> ptr \<Rightarrow> 'a fsos_scheme \<Rightarrow>
    ('a fsos_scheme, unit) outcome" where
  "handle_syscall call a s =
    (let s = upd_context a (\<lambda>c. c\<lparr>sepc := sepc c + 4\<rparr>) s; c = contexts s a; n = unat (regs c 17) in
     if n \<ge> NUM_SYSCALLS then Panic s
     else if init_syscall ! n = handle_miss_name then Panic s
     else obind (call (init_syscall ! n) (map (regs c) [10..<16]) s) (\<lambda>s r. Ret (upd_context a (set_reg 10 r) s) ()))"

definition run_handler :: "(string \<Rightarrow> u64 list \<Rightarrow> 'a fsos_scheme \<Rightarrow> ('a fsos_scheme, u64) outcome) \<Rightarrow> irq_handler \<Rightarrow> ptr \<Rightarrow> u64 \<Rightarrow>
    'a fsos_scheme \<Rightarrow> ('a fsos_scheme, unit) outcome" where
  "run_handler call h a stval s =
    (case h of
       Handle_other \<Rightarrow> Panic s
     | Handle_int \<Rightarrow> handle_int s
     | Handle_syscall \<Rightarrow> handle_syscall call a s
     | Handle_page_fault_load \<Rightarrow> handle_page_fault_load fat32_lseek read_into_page stval s
     | Handle_page_fault_store \<Rightarrow> handle_page_fault_store fat32_lseek read_into_page stval s)"

definition interrupt_helper :: "(string \<Rightarrow> u64 list \<Rightarrow> 'a fsos_scheme \<Rightarrow> ('a fsos_scheme, u64) outcome) \<Rightarrow> ptr \<Rightarrow> u64 \<Rightarrow> u64 \<Rightarrow>
    'a fsos_scheme \<Rightarrow> ('a fsos_scheme, unit) outcome" where
  "interrupt_helper call a stval cause s =
    (let s = update_utime s; c = contexts s a in
     obind (if cause AND SCAUSE_IRQ_FLAG = SCAUSE_IRQ_FLAG then
              let k = unat (scause c AND NOT SCAUSE_IRQ_FLAG)
              in if k < IRQC_COUNT then run_handler call (irq_table ! k) a stval s else Panic s
            else if sstatus c AND SR_SPP \<noteq> 0 \<and> pid (cur_pcb s) \<noteq> 0 then Panic s
            else if unat (scause c) < EXCC_COUNT then run_handler call (exc_table ! unat (scause c)) a stval s
            else Panic s)
       (\<lambda>s _. Ret (update_stime s) ()))"

section \<open>The context of a signal handler\<close>

abbreviation (input) SIGNAL_HANDLER_ADDR :: u64 where "SIGNAL_HANDLER_ADDR \<equiv> 0xf10010000"
abbreviation (input) sizeof_ucontext :: u64 where "sizeof_ucontext \<equiv> 960"

text \<open>The members \<open>uc_link\<close>, \<open>uc_sigmask\<close> and \<open>uc_mcontext\<close> are at the offsets 8, 40 and 176. The address of the page is
  stored in an \<open>int\<close>, which keeps its lower half.\<close>

definition set_ucontext :: "'a mmkernel_scheme \<Rightarrow> ('a mmkernel_scheme, u64) outcome" where
  "set_ucontext s =
    (let p = cur_pcb s; trap_sp = SIGNAL_HANDLER_ADDR; trap_sp_base = SIGNAL_HANDLER_ADDR - PAGE_SIZE in
     obind (if (ucast (get_kva_of (mem s) trap_sp_base (pgdir p)) :: i32) = 0
            then obind (alloc_page_helper trap_sp_base (pgdir p) MAP_USER s) (\<lambda>s _. Ret s ()) else Ret s ()) (\<lambda>s _.
       let u_cxt = get_kva_of (mem s) (trap_sp - sizeof_ucontext) (pgdir p);
           s = put_mem u_cxt (replicate (unat sizeof_ucontext) 0) s;
           s = put_mem (u_cxt + 8) (bytes64 (trap_sp - sizeof_ucontext)) s;
           s = put_mem (u_cxt + 40) (bytes64 (sig_mask p)) s;
           s = put_mem (u_cxt + 176) (bytes64 (sepc (contexts s (save_context p)))) s
       in Ret s ((trap_sp - sizeof_ucontext) AND NOT 0xf)))"

section \<open>Starting the system\<close>

definition init_pcb_queue :: "'a kernel_scheme \<Rightarrow> 'a kernel_scheme" where
  "init_pcb_queue s =
    fold (\<lambda>i s. klist_add_tail (PCB i) available_queue (upd_pcb (PCB i) (\<lambda>p. p\<lparr>used := 0, status := TASK_EXITED\<rparr>) s)) [1..<NUM_MAX_TASK]
      (s\<lparr>queues := (queues s)(available_queue := [], WaitQ available_wait_list := [])\<rparr>)"

text \<open>The page table is the one of the PCB whose number is that of the file; the shell is the first file.\<close>

definition init_shell :: "linkage \<Rightarrow> nat \<Rightarrow> 'a fsos_scheme \<Rightarrow> ('a fsos_scheme, unit) outcome" where
  "init_shell lk n s =
    obind (kmalloc PAGE_SIZE s) (\<lambda>s pg.
    let s = upd_pcb (PCB 0) (\<lambda>p. p\<lparr>pgdir := pg\<rparr>) s in
    obind (allocPage s) (\<lambda>s st.
    let s = upd_pcb (PCB 0) (\<lambda>p. p\<lparr>kernel_stack_top := st, user_stack_top := USER_STACK_ADDR\<rparr>) s;
        s = share_pgtable pg (pa2kva PGDIR_PA) s
    in obind (alloc_page_helper (USER_STACK_ADDR - PAGE_SIZE) pg MAP_USER s) (\<lambda>s _.
       let s = init_pcb_queue s; s = upd_pcb (PCB 0) (\<lambda>p. p\<lparr>pname := file_name (elf_files s ! 0)\<rparr>) s
       in obind (init_pcb_member (PCB 0) USER_PROCESS ENTER_ZOMBIE_ON_EXIT s) (\<lambda>s _.
          let s = upd_pcb (PCB 0) (\<lambda>p. p\<lparr>cpu_mask := 3, priority := 3\<rparr>) (init_pre_load s) in
          case get_file_from_kernel (ascii ''shell'') s of
            None \<Rightarrow> Panic s
          | Some k \<Rightarrow>
              obind (load_elf n (file_content (elf_files s ! k)) (of_nat (length (file_content (elf_files s ! k)))) (pgdir (pcb_tab s (PCB k))) 0
                  (PCB 0) alloc_page_helper s) (\<lambda>s (entry_point, _).
                let s = init_pcb_stack lk (kernel_stack_top (pcb_tab s (PCB 0))) entry_point (PCB 0) s;
                    s = klist_add (PCB 0) ready_queue s;
                    now = get_ticks s;
                    s = upd_pcb pid0_pcb_master (\<lambda>p. p\<lparr>end_time := 0, utime := 0, stime := 0\<rparr>) s;
                    s = upd_pcb pid0_pcb_slave (\<lambda>p. p\<lparr>end_time := 0, utime := 0, stime := 0\<rparr>) s
                in Ret (s\<lparr>sys_time_master := now, sys_time_slave := now, current_running_master := pid0_pcb_master,
                     current_running_slave := pid0_pcb_slave\<rparr>) ())))))"

section \<open>A timer interrupt keeps the processes\<close>

text \<open>The scheduling invariant, process numbers, and that a blocked process waits on a queue.\<close>

definition proc_ok :: "'a kernel_scheme \<Rightarrow> bool" where
  "proc_ok s \<longleftrightarrow> sched_inv s \<and> pids_ok s \<and> (\<forall>p. status (pcb_tab s p) = TASK_BLOCKED \<longrightarrow> (\<exists>w. p \<in> set (queues s (WaitQ w))))"

definition keeps :: "'a kernel_scheme \<Rightarrow> 'a kernel_scheme \<Rightarrow> bool" where
  "keeps s t \<longleftrightarrow> (proc_ok s \<longrightarrow> proc_ok t \<and> tasks t = tasks s)"

lemma keeps_refl [simp]: "keeps s s"
  by (simp add: keeps_def)

lemma keeps_trans: "keeps s t \<Longrightarrow> keeps t u \<Longrightarrow> keeps s u"
  by (simp add: keeps_def)

lemma keeps_fold: "(\<And>x s. keeps s (f x s)) \<Longrightarrow> keeps s (fold f xs s)"
  by (induction xs arbitrary: s) (auto intro: keeps_trans)

lemma keeps_frame:
  assumes p: "\<And>p. status (pcb_tab t p) = status (pcb_tab s p) \<and> pid (pcb_tab t p) = pid (pcb_tab s p)
      \<and> execve (pcb_tab t p) = execve (pcb_tab s p) \<and> save_context (pcb_tab t p) = save_context (pcb_tab s p)"
    and f: "queues t = queues s" "tp t = tp s" "current_running_master t = current_running_master s"
      "current_running_slave t = current_running_slave s" "contexts t = contexts s"
  shows "keeps s t"
proof -
  have "get_current_cpu_id t = get_current_cpu_id s"
    by (simp add: get_current_cpu_id_def get_current_running_def f p)
  then have r: "running t = running s" "other t = other s" "idle t = idle s"
    by (simp_all add: running_def other_def idle_def f)
  have "sched_inv t \<longleftrightarrow> sched_inv s"
    unfolding sched_inv_def sched_wf_def by (simp add: p f r) blast
  moreover have "tasks t = tasks s"
    by (simp add: tasks_def f)
  ultimately show ?thesis
    by (simp add: keeps_def proc_ok_def pids_ok_def p f)
qed

lemma keeps_upd_pcb:
  assumes "\<And>p. status (f p) = status p \<and> pid (f p) = pid p \<and> execve (f p) = execve p \<and> save_context (f p) = save_context p"
  shows "keeps s (upd_pcb r f s)"
  by (rule keeps_frame) (simp_all add: upd_pcb_def assms)

lemma keeps_do_unblock:
  assumes "proc_ok s \<Longrightarrow> \<exists>w. p \<in> set (queues s (WaitQ w))"
  shows "keeps s (do_unblock p s)"
  unfolding keeps_def
proof
  assume ok: "proc_ok s"
  then obtain w where w: "p \<in> set (queues s (WaitQ w))" using assms by blast
  have inv: "sched_inv s" "store_inv (queues s)"
    using ok sched_wfD(1) sched_invD(1) by (auto simp: proc_ok_def)
  have "r \<in> set (queues (do_unblock p s) (WaitQ v))" if "r \<in> set (queues s (WaitQ v))" "r \<noteq> p" for r v
    using that inv(2) by (simp add: q_add_def set_q_del)
  then have "\<forall>r. status (pcb_tab (do_unblock p s) r) = TASK_BLOCKED \<longrightarrow> (\<exists>w. r \<in> set (queues (do_unblock p s) (WaitQ w)))"
    using ok unfolding proc_ok_def by (auto split: if_splits simp del: do_unblock_simps(1)) blast
  then show "proc_ok (do_unblock p s) \<and> tasks (do_unblock p s) = tasks s"
    using ok sched_inv_do_unblock [OF inv(1) w] tasks_do_unblock [OF inv(2) w] by (simp add: proc_ok_def pids_ok_def)
qed

lemma keeps_wake_all: "keeps s (wake_all w s)"
proof (induction w s rule: wake_all.induct)
  case (1 w s)
  have "keeps s (do_unblock (klist_first (WaitQ w) s) s)" if "\<not> klist_empty (WaitQ w) s"
    using that by (intro keeps_do_unblock exI [of _ w]) (simp add: klist_empty_def)
  then show ?case
    using 1 by (subst wake_all.simps) (auto intro: keeps_trans)
qed

lemma keeps_do_scheduler: "keeps s (do_scheduler s)"
  unfolding keeps_def
proof
  assume ok: "proc_ok s"
  then have inv: "sched_inv s" "pids_ok s" by (auto simp: proc_ok_def)
  note eff = do_scheduler_effect [OF sched_invD(1) [OF inv(1)]]
  have "\<forall>r. status (pcb_tab (do_scheduler s) r) = TASK_BLOCKED \<longrightarrow> (\<exists>w. r \<in> set (queues (do_scheduler s) (WaitQ w)))"
    using ok unfolding proc_ok_def eff(2,3) by (auto split: if_splits)
  then show "proc_ok (do_scheduler s) \<and> tasks (do_scheduler s) = tasks s"
    using sched_step_inv [OF sched_step.preempt inv] by (simp add: proc_ok_def)
qed

lemma keeps_send_signal: "keeps s (send_signal n r s)"
proof -
  have wake: "keeps s (if status (pcb_tab s r) = TASK_BLOCKED then do_unblock r s else s)" for s :: "'a kernel_scheme"
    by (auto intro: keeps_do_unblock simp: proc_ok_def)
  have "keeps s (if sig_bit n AND sig_mask (pcb_tab s r) \<noteq> 0 then upd_pcb r (\<lambda>p. p\<lparr>sig_pend := sig_pend p OR sig_bit n\<rparr>) s
      else upd_pcb r (\<lambda>p. p\<lparr>sig_recv := sig_recv p OR sig_bit n\<rparr>) s)"
    by (simp add: keeps_upd_pcb)
  then show ?thesis
    unfolding send_signal_def Let_def using keeps_trans [OF _ wake] by simp
qed

lemma keeps_itimer_expire: "keeps s (itimer_expire now node s)"
proof -
  have upd: "keeps s (upd_timer r f s)" for s :: "'a os_scheme" and r f
    unfolding upd_timer_def by (rule keeps_upd_pcb) simp
  note sent = keeps_trans [OF keeps_send_signal upd]
  show ?thesis
    unfolding itimer_expire_def Let_def using sent keeps_trans [OF upd sent] by simp
qed

text \<open>A loop over a well formed list whose body leaves the links alone runs over its nodes.\<close>

lemma for_each_safe_fold:
  assumes "\<And>p s. heap (body p s) = heap s"
  shows "path (heap s) p ys head \<Longrightarrow> head \<notin> set ys \<Longrightarrow> length ys \<le> fuel \<Longrightarrow>
    list_for_each_safe fuel body heap (nxt (heap s p)) (nxt (heap s (nxt (heap s p)))) head s = Some (fold body ys s)"
proof (induction ys arbitrary: fuel p s)
  case Nil
  then show ?case by (cases fuel) auto
next
  case (Cons y ys)
  then obtain n where "fuel = Suc n" by (cases fuel) auto
  with Cons.prems Cons.IH [of "body y s" y n] assms show ?case by (auto simp: Let_def)
qed

lemma itimer_check_fold:
  assumes "dlist (timer_list s) timers xs" and "length xs \<le> fuel"
  shows "itimer_check fuel s = Some (fold (itimer_expire (get_ticks s)) xs s)"
  unfolding itimer_check_def list_for_each_entry_safe_def Let_def
  using assms links_path [of "timer_list s" timers xs timers "timer_list s"]
  by (intro for_each_safe_fold) (auto simp: dlist_def)

lemma keeps_futex_timeout: "keeps s (futex_timeout now i s)"
proof -
  have "keeps s (clear_timeout i s)"
    by (rule keeps_frame) (simp_all add: clear_timeout_def upd_futex_def)
  from keeps_trans [OF this keeps_wake_all] show ?thesis
    by (simp add: futex_timeout_def Let_def)
qed

lemma keeps_check_sleeping: "keeps s (check_sleeping s)"
proof -
  have "keeps s (fold wake_if_due xs s)" if "distinct xs" "set xs \<subseteq> set (queues s (WaitQ w))" for xs w and s :: "'a kernel_scheme"
    using that
  proof (induction xs arbitrary: s)
    case (Cons x xs)
    have q: "x \<in> set (queues s (WaitQ w))" and k: "keeps s (wake_if_due x s)"
      using Cons.prems unfolding wake_if_due_def by (auto intro!: keeps_do_unblock)
    show ?case
    proof (cases "proc_ok s")
      case True
      then have "store_inv (queues s)" by (auto simp: proc_ok_def dest: sched_invD(1) sched_wfD(1))
      then have "set xs \<subseteq> set (queues (wake_if_due x s) (WaitQ w))"
        using Cons.prems by (auto simp: wake_if_due_def q_add_def set_q_del)
      with Cons k show ?thesis by (auto intro: keeps_trans)
    qed (simp add: keeps_def)
  qed simp
  moreover have "distinct (queues s (WaitQ (sleep_list s)))" if "proc_ok s"
    using that store_invD(1) [OF sched_wfD(1) [OF sched_invD(1)], of s "WaitQ (sleep_list s)"] by (simp add: proc_ok_def)
  ultimately show ?thesis
    unfolding check_sleeping_def by (cases "proc_ok s") (auto simp: keeps_def)
qed

lemma timer_list_wake_all [simp]: "timer_list (wake_all w s) = timer_list s"
  by (induction w s rule: wake_all.induct; subst wake_all.simps; auto)

lemma timer_list_kept [simp]:
  "timer_list (check_sleeping s) = timer_list s" "timer_list (check_futex_timeout s) = timer_list s"
  "timer_list (update_utime s) = timer_list s"
proof -
  have "timer_list (fold wake_if_due xs s) = timer_list s" for xs and s :: "'a os_scheme"
    by (induction xs arbitrary: s) (auto simp: wake_if_due_def)
  then show "timer_list (check_sleeping s) = timer_list s"
    by (simp add: check_sleeping_def)
  have "timer_list (futex_timeout now i s) = timer_list s" for now i and s :: "'a os_scheme"
    by (simp add: futex_timeout_def Let_def clear_timeout_def upd_futex_def)
  then have "timer_list (fold (futex_timeout now) is s) = timer_list s" for now "is" and s :: "'a os_scheme"
    by (induction "is" arbitrary: s) auto
  then show "timer_list (check_futex_timeout s) = timer_list s"
    by (simp add: check_futex_timeout_def Let_def)
  show "timer_list (update_utime s) = timer_list s"
    by (simp add: update_utime_def Let_def set_sys_time_def)
qed

lemma keeps_update_utime: "keeps s (update_utime s)"
  by (rule keeps_frame) (simp_all add: update_utime_def Let_def set_sys_time_def upd_pcb_def)

lemma reset_irq_timer_keeps:
  assumes "dlist (timer_list s) timers xs" and "length xs \<le> NUM_MAX_TASK + 2"
  shows "\<exists>t. reset_irq_timer s = Blocked t \<and> keeps s t"
proof -
  let ?s = "check_futex_timeout (check_sleeping s)"
  let ?t = "fold (itimer_expire (get_ticks ?s)) xs ?s"
  have "keeps (check_sleeping s) ?s"
    unfolding check_futex_timeout_def Let_def by (intro keeps_fold keeps_futex_timeout)
  moreover have "keeps ?s ?t"
    by (intro keeps_fold keeps_itimer_expire)
  ultimately have "keeps s (do_scheduler ?t)"
    using keeps_trans keeps_check_sleeping keeps_do_scheduler by blast
  moreover have "itimer_check (NUM_MAX_TASK + 2) ?s = Some ?t"
    using assms by (intro itimer_check_fold) simp_all
  ultimately show ?thesis
    by (simp add: reset_irq_timer_def Let_def)
qed

end
