(* ===== verification/Boot.thy ===== *)
theory Boot
  imports Vm Recycle
begin

text \<open>
  The page tables the boot stage sets up (\<open>arch/riscv/kernel/boot.c\<close>): two levels with leaves for pages of 2 MB, in physical
  memory below the kernel. The clock set-up of the board and the messages are not part of the model.
\<close>

abbreviation (input) VA_MASK :: u64 where "VA_MASK \<equiv> 0x7fffffffff"
abbreviation (input) LARGE_PAGE_SIZE :: u64 where "LARGE_PAGE_SIZE \<equiv> 0x200000"
abbreviation (input) START_ENTRYPOINT :: u64 where "START_ENTRYPOINT \<equiv> 0xffffffc080000000"
abbreviation (input) BOOT_KERNEL :: u64 where "BOOT_KERNEL \<equiv> 0x80000000"
abbreviation (input) BOOT_KERNEL_END :: u64 where "BOOT_KERNEL_END \<equiv> 0x80800000"

text \<open>The memory, the variables \<open>pg_base\<close> and \<open>alloc_num\<close>, and the register \<open>satp\<close>.\<close>

record boot =
  boot_mem :: mem64
  pg_base :: u64
  alloc_num :: i32
  boot_satp :: u64

text \<open>The digits from the last to the first, and a line feed; a number below \<open>2 ^ 64\<close> has at most twenty.\<close>

definition itoa :: "u64 \<Rightarrow> u8 list" where
  "itoa num = map (\<lambda>k. of_nat (unat num div 10 ^ k mod 10) + 48) (takeWhile (\<lambda>k. unat num div 10 ^ k \<noteq> 0) [0..<20]) @ [10]"

section \<open>Mapping\<close>

definition alloc_page :: "boot \<Rightarrow> boot \<times> u64" where
  "alloc_page b = (let b = b\<lparr>pg_base := pg_base b + 0x1000, alloc_num := alloc_num b + 1\<rparr> in (b, pg_base b))"

definition map_page :: "u64 \<Rightarrow> u64 \<Rightarrow> u64 \<Rightarrow> boot \<Rightarrow> boot" where
  "map_page va pa pgd b =
    (let va = va AND VA_MASK; vpn2 = drop_bit (12 + 9 + 9) va; vpn1 = push_bit 9 vpn2 XOR drop_bit (12 + 9) va;
         e = pgd + 8 * vpn2;
         b = (if boot_mem b e = 0 then
                let (b, newpage) = alloc_page b;
                    m = (boot_mem b)(e := set_attribute (set_pfn (boot_mem b e) (drop_bit 12 newpage)) PAGE_PRESENT)
                in b\<lparr>boot_mem := clear_pgdir (get_pa (m e)) m\<rparr>
              else b);
         m = boot_mem b; pmd = get_pa (m e) + 8 * vpn1
     in b\<lparr>boot_mem := m(pmd := set_attribute (set_pfn (m pmd) (drop_bit 12 pa))
          (PAGE_PRESENT OR PAGE_READ OR PAGE_WRITE OR PAGE_EXEC OR PAGE_ACCESSED OR PAGE_DIRTY))\<rparr>)"

definition enable_vm :: "u64 \<Rightarrow> boot \<Rightarrow> boot" where
  "enable_vm pgd b = b\<lparr>boot_satp := get_satp SATP_MODE_SV39 0 (drop_bit 12 pgd)\<rparr>"

text \<open>The addresses of the loops from \<open>a\<close> below \<open>e\<close> in steps of a large page.\<close>

definition large_pages :: "u64 \<Rightarrow> u64 \<Rightarrow> u64 list" where
  "large_pages a e = map (\<lambda>i. a + of_nat i * LARGE_PAGE_SIZE) [0..<unat ((e - a + LARGE_PAGE_SIZE - 1) div LARGE_PAGE_SIZE)]"

definition setup_vm :: "boot \<Rightarrow> boot" where
  "setup_vm b =
    (let b = b\<lparr>boot_mem := clear_pgdir PGDIR_PA (boot_mem b)\<rparr>;
         b = fold (\<lambda>kva. map_page kva (kva2pa kva) PGDIR_PA) (large_pages START_ENTRYPOINT KERNEL_END) b
     in fold (\<lambda>pa. map_page pa pa PGDIR_PA) (large_pages BOOT_KERNEL BOOT_KERNEL_END) b)"

definition directmap :: "u64 \<Rightarrow> u64 \<Rightarrow> u64" where
  "directmap kva pgd = kva"

definition share_pgdir :: "u64 \<Rightarrow> u64 \<Rightarrow> mem64 \<Rightarrow> mem64" where
  "share_pgdir dest_pgdir src_pgdir m = fold (\<lambda>i m. m(dest_pgdir + 8 * of_nat i := m (src_pgdir + 8 * of_nat i))) [0..<512] m"

definition test_large :: "boot \<Rightarrow> boot" where
  "test_large b = b\<lparr>boot_mem := (boot_mem b)(0x80700000 := 0x19491001)\<rparr>"

text \<open>The loop does not advance the address.\<close>

definition ioremap :: "u64 \<Rightarrow> u64 \<Rightarrow> boot \<Rightarrow> boot" where
  "ioremap phys_addr sz b =
    (let page_num = (sz + LARGE_PAGE_SIZE - 1) div LARGE_PAGE_SIZE
     in fold (\<lambda>i. map_page phys_addr (kva2pa phys_addr) PGDIR_PA) [0..<unat page_num] b)"

text \<open>The devices of the k210: \<open>FPIOA\<close>, \<open>UARTHS\<close>, \<open>GPIOHS\<close>, \<open>GPIO\<close>, \<open>SPI_SLAVE\<close>, \<open>SPI0\<close>, \<open>SPI1\<close>, \<open>SPI2\<close>, again the first, \<open>CLINT\<close>
  and \<open>PLIC\<close>.\<close>

definition devices :: "(u64 \<times> u64) list" where
  "devices = [(0xffffffc0502B0000, 0x1000), (0xffffffc038000000, 0x1000), (0xffffffc038001000, 0x1000), (0xffffffc050200000, 0x1000),
     (0xffffffc050240000, 0x1000), (0xffffffc052000000, 0x1000), (0xffffffc053000000, 0x1000), (0xffffffc054000000, 0x1000),
     (0xffffffc0502B0000, 0x1000), (0xffffffc002000000, 0x10000), (0xffffffc00c200000, 0x400000)]"

definition total_ioremap :: "boot \<Rightarrow> boot" where
  "total_ioremap b = fold (\<lambda>(a, sz). ioremap a sz) devices b"

text \<open>\<open>boot_kernel\<close> up to the call of the kernel.\<close>

definition boot_kernel :: "u64 \<Rightarrow> boot \<Rightarrow> boot" where
  "boot_kernel mhartid b =
    (if mhartid = 0 then enable_vm PGDIR_PA (total_ioremap (setup_vm (test_large b))) else enable_vm PGDIR_PA b)"

text \<open>\<open>cancel_kernel_map\<close> of \<open>init/main.c\<close>, on the memory as the kernel addresses it.\<close>

definition cancel_kernel_map :: "mem64 \<Rightarrow> mem64" where
  "cancel_kernel_map m = m(pa2kva PGDIR_PA + 8 * drop_bit (12 + 9 + 9) BOOT_KERNEL := 0)"

section \<open>Translation\<close>

text \<open>How the processor translates an address with three levels of tables (Sv39 of the RISC-V privileged architecture), apart from
  the permissions. Bits 63 to 39 of the address have to agree with bit 38. A leaf on an upper level maps a large page, whose page
  number should be a multiple of its size: from version 1.10 of the architecture on it is a page fault when it is not, in the earlier
  1.9.1 the lower bits are not used. \<open>strict\<close> says which.\<close>

definition canonical :: "u64 \<Rightarrow> bool" where
  "canonical va \<longleftrightarrow> drop_bit 38 va = 0 \<or> drop_bit 38 va = mask 26"

definition pte_valid :: "u64 \<Rightarrow> bool" where
  "pte_valid e \<longleftrightarrow> e AND PAGE_PRESENT \<noteq> 0 \<and> \<not> (e AND PAGE_READ = 0 \<and> e AND PAGE_WRITE \<noteq> 0)"

definition pte_leaf :: "u64 \<Rightarrow> bool" where
  "pte_leaf e \<longleftrightarrow> e AND (PAGE_READ OR PAGE_WRITE OR PAGE_EXEC) \<noteq> 0"

definition in_page :: "bool \<Rightarrow> nat \<Rightarrow> u64 \<Rightarrow> u64 \<Rightarrow> u64 option" where
  "in_page strict k e va =
    (if strict \<and> get_pa e AND mask k \<noteq> 0 then None else Some ((get_pa e AND NOT (mask k)) OR (va AND mask k)))"

definition sv39 :: "bool \<Rightarrow> mem64 \<Rightarrow> u64 \<Rightarrow> u64 \<Rightarrow> u64 option" where
  "sv39 strict m pgd va =
    (let e2 = m (pgd + 8 * vpn 2 va) in
     if \<not> canonical va \<or> \<not> pte_valid e2 then None
     else if pte_leaf e2 then in_page strict 30 e2 va
     else let e1 = m (get_pa e2 + 8 * vpn 1 va) in
       if \<not> pte_valid e1 then None
       else if pte_leaf e1 then in_page strict 21 e1 va
       else let e0 = m (get_pa e1 + 8 * vpn 0 va) in
         if pte_valid e0 \<and> pte_leaf e0 then in_page strict 12 e0 va else None)"

section \<open>The tables as a map\<close>

text \<open>The tables are pages from \<open>PGDIR_PA\<close> on.\<close>

definition boot_table :: "nat \<Rightarrow> u64" where
  "boot_table i = PGDIR_PA + of_nat i * 0x1000"

definition leaf_of :: "u64 \<Rightarrow> u64" where
  "leaf_of pa = set_attribute (set_pfn 0 (drop_bit 12 pa)) 0xcf"

definition table_of_page :: "u64 \<Rightarrow> u64" where
  "table_of_page t = set_attribute (set_pfn 0 (drop_bit 12 t)) PAGE_PRESENT"

text \<open>\<open>tab\<close> has the number of the table of an entry of the first level, \<open>M\<close> the addresses mapped, and \<open>n\<close> tables are in use.\<close>

definition boot_inv :: "(u64 \<rightharpoonup> nat) \<Rightarrow> (u64 \<times> u64 \<rightharpoonup> u64) \<Rightarrow> nat \<Rightarrow> boot \<Rightarrow> bool" where
  "boot_inv tab M n b \<longleftrightarrow> pg_base b = boot_table n
    \<and> (\<forall>v i. tab v = Some i \<longrightarrow> 0 < i \<and> i \<le> n) \<and> (\<forall>v w i. tab v = Some i \<longrightarrow> tab w = Some i \<longrightarrow> v = w)
    \<and> (\<forall>v. slot v \<longrightarrow> boot_mem b (boot_table 0 + 8 * v) = (case tab v of None \<Rightarrow> 0 | Some i \<Rightarrow> table_of_page (boot_table i)))
    \<and> (\<forall>v i w. tab v = Some i \<longrightarrow> slot w \<longrightarrow>
        boot_mem b (boot_table i + 8 * w) = (case M (v, w) of None \<Rightarrow> 0 | Some pa \<Rightarrow> leaf_of pa))
    \<and> (\<forall>v w. tab v = None \<longrightarrow> M (v, w) = None)"

lemma boot_table_0: "boot_table 0 = PGDIR_PA"
  by (simp add: boot_table_def)

lemma boot_table_eq: "i < 1000 \<Longrightarrow> boot_table i = push_bit 12 (of_nat (0x80028 + i))"
  by (simp add: boot_table_def push_bit_eq_mult algebra_simps)

lemma page_aligned_table: "i < 1000 \<Longrightarrow> page_aligned (boot_table i)"
  unfolding page_aligned_def boot_table_eq by (intro bit_eqI) (auto simp: bit_simps)

lemma boot_table_inject: "i < 1000 \<Longrightarrow> j < 1000 \<Longrightarrow> boot_table i = boot_table j \<longleftrightarrow> i = j"
proof -
  assume a: "i < 1000" "j < 1000"
  have "unat (boot_table k) = 0x80028000 + k * 0x1000" if "k < 1000" for k
  proof -
    have "boot_table k = of_nat (0x80028000 + k * 0x1000)" by (simp add: boot_table_def)
    then show ?thesis using that by (simp add: unat_of_nat_u64 del: of_nat_add of_nat_mult)
  qed
  with a show ?thesis by (metis add_left_cancel mult_cancel2 zero_neq_numeral)
qed

lemma set_entry: "bits AND mask 10 = bits \<Longrightarrow> set_attribute (set_pfn e pfn) bits = set_attribute (set_pfn 0 pfn) bits"
  unfolding set_attribute_def set_pfn_def mask_64_10 by (intro bit_eqI) (auto simp: bit_simps)

lemma boot_table_pfn:
  assumes "i < 1000"
  shows "drop_bit 12 (boot_table i) = of_nat (0x80028 + i)" and "drop_bit 12 (boot_table i) AND mask 44 = drop_bit 12 (boot_table i)"
proof -
  have "boot_table i = of_nat (0x80028000 + i * 0x1000)" by (simp add: boot_table_def)
  then have "unat (boot_table i) = 0x80028000 + i * 0x1000"
    using assms by (simp add: unat_of_nat_u64 del: of_nat_add of_nat_mult)
  then have "unat (drop_bit 12 (boot_table i)) = 0x80028 + i"
    by (simp add: drop_bit_eq_div unat_div_distrib)
  then show "drop_bit 12 (boot_table i) = of_nat (0x80028 + i)"
    using assms by (simp add: word_unat_eq_iff unat_of_nat_u64 del: of_nat_add drop_bit_eq_div)
  with \<open>unat (drop_bit 12 (boot_table i)) = 0x80028 + i\<close> show "drop_bit 12 (boot_table i) AND mask 44 = drop_bit 12 (boot_table i)"
    using assms by (simp add: word_unat_eq_iff unsigned_take_bit_eq take_bit_nat_eq_self flip: take_bit_eq_mask)
qed

lemma get_pa_pfn: "get_pa e = push_bit 12 (get_pfn e)"
  by (simp add: get_pa_def get_pfn_def Let_def)

lemma attribute_masks: "PAGE_PRESENT AND mask 10 = PAGE_PRESENT" "0xcf AND mask 10 = (0xcf :: u64)"
  by (simp_all add: mask_eq_exp_minus_1)

lemma get_pa_table: "i < 1000 \<Longrightarrow> get_pa (table_of_page (boot_table i)) = boot_table i"
proof -
  assume i: "i < 1000"
  have "get_pfn (table_of_page (boot_table i)) = drop_bit 12 (boot_table i)"
    unfolding table_of_page_def
    by (simp add: get_pfn_set_attribute [OF attribute_masks(1)] get_pfn_set_pfn boot_table_pfn(2) i)
  moreover have "push_bit 12 (drop_bit 12 (boot_table i)) = boot_table i"
    unfolding boot_table_eq [OF i] by (intro bit_eqI) (auto simp: bit_simps)
  ultimately show ?thesis by (simp add: get_pa_pfn)
qed

lemma table_present [simp]: "table_of_page t AND PAGE_PRESENT = 1" "table_of_page t \<noteq> 0"
proof -
  have b: "bit (table_of_page t) 0"
    by (simp add: table_of_page_def set_attribute_def bit_simps)
  then show "table_of_page t \<noteq> 0" by auto
  show "table_of_page t AND PAGE_PRESENT = 1"
    using b by (simp only: and_one_eq odd_iff_mod_2_eq_one bit_0)
qed

lemma vpn_of_code:
  "drop_bit (12 + 9 + 9) (va AND VA_MASK) = vpn 2 va"
  "push_bit 9 (vpn 2 va) XOR drop_bit (12 + 9) (va AND VA_MASK) = vpn 1 va"
proof -
  have m: "VA_MASK = (mask 39 :: u64)" by (simp add: mask_eq_exp_minus_1)
  show "drop_bit (12 + 9 + 9) (va AND VA_MASK) = vpn 2 va"
    unfolding m vpn_def by (intro bit_eqI) (auto simp: bit_simps)
  show "push_bit 9 (vpn 2 va) XOR drop_bit (12 + 9) (va AND VA_MASK) = vpn 1 va"
    unfolding m vpn_def by (intro bit_eqI) (auto simp: bit_simps)
qed

lemma boot_invD:
  assumes "boot_inv tab M n b"
  shows "pg_base b = boot_table n" and "tab v = Some i \<Longrightarrow> 0 < i \<and> i \<le> n" and "tab v = Some i \<Longrightarrow> tab w = Some i \<Longrightarrow> v = w"
    and "slot v \<Longrightarrow> boot_mem b (boot_table 0 + 8 * v) = (case tab v of None \<Rightarrow> 0 | Some i \<Rightarrow> table_of_page (boot_table i))"
    and "tab v = Some i \<Longrightarrow> slot w \<Longrightarrow> boot_mem b (boot_table i + 8 * w) = (case M (v, w) of None \<Rightarrow> 0 | Some pa \<Rightarrow> leaf_of pa)"
    and "tab v = None \<Longrightarrow> M (v, w) = None"
  using assms unfolding boot_inv_def by blast+

lemma boot_invI:
  assumes "pg_base b = boot_table n" and "\<And>v i. tab v = Some i \<Longrightarrow> 0 < i \<and> i \<le> n" and "\<And>v i w. tab v = Some i \<Longrightarrow> tab w = Some i \<Longrightarrow> v = w"
    and "\<And>v. slot v \<Longrightarrow> boot_mem b (boot_table 0 + 8 * v) = (case tab v of None \<Rightarrow> 0 | Some i \<Rightarrow> table_of_page (boot_table i))"
    and "\<And>v i w. tab v = Some i \<Longrightarrow> slot w \<Longrightarrow> boot_mem b (boot_table i + 8 * w) = (case M (v, w) of None \<Rightarrow> 0 | Some pa \<Rightarrow> leaf_of pa)"
    and "\<And>v w. tab v = None \<Longrightarrow> M (v, w) = None"
  shows "boot_inv tab M n b"
  unfolding boot_inv_def using assms by blast

lemma slots_differ:
  assumes "i < 1000" "j < 1000" "slot v" "slot w"
  shows "boot_table i + 8 * v = boot_table j + 8 * w \<longleftrightarrow> i = j \<and> v = w"
  using slot_addr_inject [OF page_aligned_table [OF assms(1)] assms(3) page_aligned_table [OF assms(2)] assms(4)]
    boot_table_inject [OF assms(1,2)] by simp

lemma put_leaf_inv:
  assumes inv: "boot_inv tab M n b" and n: "n < 1000" and v: "tab v = Some i" and w: "slot w"
  shows "boot_inv tab (M((v, w) \<mapsto> pa)) n (b\<lparr>boot_mem := (boot_mem b)(boot_table i + 8 * w := leaf_of pa)\<rparr>)"
proof -
  note D = boot_invD [OF inv]
  have i: "0 < i" "i \<le> n" using D(2) [OF v] by simp_all
  have t0: "boot_table 0 + 8 * x \<noteq> boot_table i + 8 * w" if "slot x" for x
    using slots_differ [of 0 i x w] i n w that by simp
  have tj: "boot_table j + 8 * x = boot_table i + 8 * w \<longleftrightarrow> y = v \<and> x = w" if "tab y = Some j" "slot x" for j x y
  proof -
    have "j = i \<longleftrightarrow> y = v" using D(3) [of y j v] v that(1) by auto
    then show ?thesis
      using slots_differ [of j i x w] D(2) [OF that(1)] i n w that(2) by simp
  qed
  show ?thesis
  proof (rule boot_invI)
    show "tab y = None \<Longrightarrow> (M((v, w) \<mapsto> pa)) (y, x) = None" for y x
      using D(6) v by auto
    show "boot_mem (b\<lparr>boot_mem := (boot_mem b)(boot_table i + 8 * w := leaf_of pa)\<rparr>) (boot_table j + 8 * x)
        = (case (M((v, w) \<mapsto> pa)) (y, x) of None \<Rightarrow> 0 | Some pa \<Rightarrow> leaf_of pa)" if "tab y = Some j" "slot x" for y j x
      using tj [OF that] D(5) [OF that] by auto
    show "boot_mem (b\<lparr>boot_mem := (boot_mem b)(boot_table i + 8 * w := leaf_of pa)\<rparr>) (boot_table 0 + 8 * x)
        = (case tab x of None \<Rightarrow> 0 | Some i \<Rightarrow> table_of_page (boot_table i))" if "slot x" for x
      using t0 [OF that] D(4) [OF that] by simp
    show "tab y = Some j \<Longrightarrow> tab z = Some j \<Longrightarrow> y = z" for y j z
      by (rule D(3))
  qed (use D(1,2) in simp_all)
qed

lemma new_table_inv:
  assumes inv: "boot_inv tab M n b" and n: "n < 900" and v: "tab v = None" "slot v"
  shows "boot_inv (tab(v \<mapsto> n + 1)) M (n + 1) (b\<lparr>pg_base := boot_table (n + 1), alloc_num := k,
    boot_mem := clear_pgdir (boot_table (n + 1)) ((boot_mem b)(boot_table 0 + 8 * v := table_of_page (boot_table (n + 1))))\<rparr>)"
    (is "boot_inv _ _ _ (b\<lparr>pg_base := _, alloc_num := _, boot_mem := ?m\<rparr>)")
proof -
  note D = boot_invD [OF inv]
  have m: "?m (boot_table j + 8 * x) = (if j = n + 1 then 0 else if j = 0 \<and> x = v then table_of_page (boot_table (n + 1))
      else boot_mem b (boot_table j + 8 * x))" if "j < 1000" "slot x" for j x
  proof -
    have "n + 1 < 1000" using n by simp
    then have "(\<exists>k < 512. boot_table j + 8 * x = boot_table (n + 1) + 8 * of_nat k) \<longleftrightarrow> j = n + 1"
      using slots_differ [OF that(1) _ that(2) of_nat_slot] slot_of_nat [OF that(2)] by metis
    moreover have "boot_table j + 8 * x = boot_table 0 + 8 * v \<longleftrightarrow> j = 0 \<and> x = v"
      using slots_differ [OF that(1) _ that(2) v(2), of 0] by simp
    ultimately show ?thesis
      by (simp add: clear_pgdir_apply)
  qed
  have new: "?m (boot_table 0 + 8 * x) = (if x = v then table_of_page (boot_table (n + 1)) else boot_mem b (boot_table 0 + 8 * x))"
    "?m (boot_table (n + 1) + 8 * x) = 0" if "slot x" for x
    using m [of 0 x] m [of "n + 1" x] n that by simp_all
  have other: "?m (boot_table j + 8 * x) = boot_mem b (boot_table j + 8 * x)" if "tab y = Some j" "slot x" for y j x
    using m [of j x] D(2) [OF that(1)] n that(2) by simp
  show ?thesis
  proof (rule boot_invI)
    show "(tab(v \<mapsto> n + 1)) y = Some j \<Longrightarrow> 0 < j \<and> j \<le> n + 1" for y j
      using D(2) [of y j] by (auto split: if_splits)
    show "(tab(v \<mapsto> n + 1)) y = Some j \<Longrightarrow> (tab(v \<mapsto> n + 1)) z = Some j \<Longrightarrow> y = z" for y j z
      using D(2) [of y j] D(2) [of z j] D(3) [of y j z] by (auto split: if_splits)
    show "boot_mem (b\<lparr>pg_base := boot_table (n + 1), alloc_num := k, boot_mem := ?m\<rparr>) (boot_table j + 8 * x)
        = (case M (y, x) of None \<Rightarrow> 0 | Some pa \<Rightarrow> leaf_of pa)" if "(tab(v \<mapsto> n + 1)) y = Some j" "slot x" for y j x
      using that new(2) [OF that(2)] other [OF _ that(2)] D(5) [OF _ that(2)] D(6) [OF v(1)] by (auto split: if_splits)
    show "boot_mem (b\<lparr>pg_base := boot_table (n + 1), alloc_num := k, boot_mem := ?m\<rparr>) (boot_table 0 + 8 * x)
        = (case (tab(v \<mapsto> n + 1)) x of None \<Rightarrow> 0 | Some i \<Rightarrow> table_of_page (boot_table i))" if "slot x" for x
      using new(1) [OF that] D(4) [OF that] by simp
    show "M (y, x) = None" if "(tab(v \<mapsto> n + 1)) y = None" for y x
      using D(6) that by (auto split: if_splits)
  qed simp
qed

definition note_map :: "u64 \<Rightarrow> u64 \<Rightarrow> (u64 \<times> u64 \<rightharpoonup> u64) \<Rightarrow> (u64 \<times> u64 \<rightharpoonup> u64)" where
  "note_map va pa M = M((vpn 2 va, vpn 1 va) \<mapsto> pa)"

lemma map_page_inv:
  assumes inv: "boot_inv tab M n b" and n: "n < 900"
  shows "\<exists>tab' n'. boot_inv tab' (note_map va pa M) n' (map_page va pa PGDIR_PA b) \<and> n' \<le> n + 1"
proof -
  note D = boot_invD [OF inv]
  let ?v = "vpn 2 va" and ?w = "vpn 1 va"
  have attr: "PAGE_PRESENT OR PAGE_READ OR PAGE_WRITE OR PAGE_EXEC OR PAGE_ACCESSED OR PAGE_DIRTY = (0xcf :: u64)"
    by simp
  have leaf: "set_attribute (set_pfn e (drop_bit 12 pa)) 0xcf = leaf_of pa" for e
    unfolding leaf_of_def by (rule set_entry [OF attribute_masks(2)])
  have tbl: "set_attribute (set_pfn e (drop_bit 12 t)) PAGE_PRESENT = table_of_page t" for e t
    unfolding table_of_page_def by (rule set_entry [OF attribute_masks(1)])
  have next_page: "boot_table n + 0x1000 = boot_table (n + 1)"
    by (simp add: boot_table_def algebra_simps)
  show ?thesis
  proof (cases "tab ?v")
    case None
    let ?b = "b\<lparr>pg_base := boot_table (n + 1), alloc_num := alloc_num b + 1,
      boot_mem := clear_pgdir (boot_table (n + 1)) ((boot_mem b)(boot_table 0 + 8 * ?v := table_of_page (boot_table (n + 1))))\<rparr>"
    have new: "boot_inv (tab(?v \<mapsto> n + 1)) M (n + 1) ?b"
      by (rule new_table_inv [OF inv n None]) simp
    have e: "boot_mem ?b (boot_table 0 + 8 * ?v) = table_of_page (boot_table (n + 1))"
      using boot_invD(4) [OF new, of ?v] by simp
    have "map_page va pa PGDIR_PA b = ?b\<lparr>boot_mem := (boot_mem ?b)(boot_table (n + 1) + 8 * ?w := leaf_of pa)\<rparr>"
      using e D(4) [of ?v] None n
      unfolding map_page_def alloc_page_def Let_def vpn_of_code attr leaf tbl boot_table_0 [symmetric]
      by (simp add: D(1) next_page get_pa_table del: boot_table_0)
    then show ?thesis
      using put_leaf_inv [OF new _ _ slot_vpn, of ?v "n + 1" 1 va pa] n by (auto simp: note_map_def)
  next
    case (Some i)
    then have "map_page va pa PGDIR_PA b = b\<lparr>boot_mem := (boot_mem b)(boot_table i + 8 * ?w := leaf_of pa)\<rparr>"
      using D(4) [of ?v] D(2) [OF Some] n
      unfolding map_page_def Let_def vpn_of_code attr leaf boot_table_0 [symmetric]
      by (simp add: get_pa_table)
    then show ?thesis
      using put_leaf_inv [OF inv _ Some slot_vpn, of 1 va pa] n by (intro exI [of _ tab] exI [of _ n]) (simp add: note_map_def)
  qed
qed

lemma map_pages_inv:
  assumes "boot_inv tab M n b" and "n + length xs < 900"
  shows "\<exists>tab' n'. boot_inv tab' (fold (\<lambda>(va, pa). note_map va pa) xs M) n' (fold (\<lambda>(va, pa). map_page va pa PGDIR_PA) xs b)
    \<and> n' \<le> n + length xs"
  using assms
proof (induction xs arbitrary: tab M n b)
  case Nil
  then show ?case by auto
next
  case (Cons x xs)
  obtain va pa where x: "x = (va, pa)" by (cases x)
  have "n < 900" using Cons.prems(2) by simp
  from map_page_inv [OF Cons.prems(1) this]
  obtain tab' n' where i: "boot_inv tab' (note_map va pa M) n' (map_page va pa PGDIR_PA b)" "n' \<le> n + 1"
    by blast
  then have "n' + length xs < 900" using Cons.prems(2) by simp
  from Cons.IH [OF i(1) this]
  obtain tab'' n'' where "boot_inv tab'' (fold (\<lambda>(va, pa). note_map va pa) xs (note_map va pa M)) n''
      (fold (\<lambda>(va, pa). map_page va pa PGDIR_PA) xs (map_page va pa PGDIR_PA b))" "n'' \<le> n' + length xs"
    by blast
  with i(2) show ?case
    by (intro exI [of _ tab''] exI [of _ n'']) (simp add: x)
qed

lemma clear_boot_inv:
  "pg_base b = PGDIR_PA \<Longrightarrow> boot_inv Map.empty Map.empty 0 (b\<lparr>boot_mem := clear_pgdir PGDIR_PA (boot_mem b)\<rparr>)"
proof (rule boot_invI)
  fix v assume "slot v"
  then show "boot_mem (b\<lparr>boot_mem := clear_pgdir PGDIR_PA (boot_mem b)\<rparr>) (boot_table 0 + 8 * v)
      = (case Map.empty v of None \<Rightarrow> 0 | Some i \<Rightarrow> table_of_page (boot_table i))"
    using slot_of_nat [of v] by (auto simp: clear_pgdir_apply boot_table_0)
qed (simp_all add: boot_table_0)

lemma get_pa_leaf: "get_pa (leaf_of pa) = push_bit 12 (drop_bit 12 pa AND mask 44)"
proof -
  have "get_pfn (leaf_of pa) = get_pfn (set_pfn 0 (drop_bit 12 pa))"
    unfolding leaf_of_def by (rule get_pfn_set_attribute [OF attribute_masks(2)])
  also have "\<dots> = drop_bit 12 pa AND mask 44"
    unfolding get_pfn_def set_pfn_def mask_64_10 Let_def by (intro bit_eqI) (auto simp: bit_simps)
  finally show ?thesis by (simp add: get_pa_pfn)
qed

lemma pte_bits:
  "pte_valid (leaf_of pa)" "pte_leaf (leaf_of pa)" "pte_valid (table_of_page t)" "\<not> pte_leaf (table_of_page t)" "\<not> pte_valid 0"
proof -
  have b: "bit (leaf_of pa) 0" "bit (leaf_of pa) 1"
    by (simp_all add: leaf_of_def set_attribute_def bit_simps)
  have "bit (leaf_of pa AND PAGE_PRESENT) 0" "bit (leaf_of pa AND PAGE_READ) 1" "bit (leaf_of pa AND (PAGE_READ OR PAGE_WRITE OR PAGE_EXEC)) 1"
    by (simp_all add: leaf_of_def set_attribute_def bit_simps)
  then show "pte_valid (leaf_of pa)" "pte_leaf (leaf_of pa)"
    unfolding pte_valid_def pte_leaf_def by (metis bit_0_eq bot_apply bot_bool_def)+
  have t: "table_of_page t AND mask 10 = 1"
    unfolding table_of_page_def set_attribute_def set_pfn_def mask_64_10 by (intro bit_eqI) (auto simp: bit_simps)
  have "table_of_page t AND x = 0" if "mask 10 AND x = x" "1 AND x = 0" for x
    using t that by (metis and.assoc)
  from this [of PAGE_WRITE] this [of "PAGE_READ OR PAGE_WRITE OR PAGE_EXEC"]
  have "table_of_page t AND PAGE_WRITE = 0" "table_of_page t AND (PAGE_READ OR PAGE_WRITE OR PAGE_EXEC) = 0"
    by (simp_all add: mask_eq_exp_minus_1)
  then show "pte_valid (table_of_page t)" "\<not> pte_leaf (table_of_page t)"
    by (simp_all add: pte_valid_def pte_leaf_def)
qed (simp add: pte_valid_def)

lemma boot_translates:
  assumes inv: "boot_inv tab M n b" and n: "n < 1000" and va: "canonical va"
  shows "sv39 strict (boot_mem b) PGDIR_PA va =
    (case M (vpn 2 va, vpn 1 va) of None \<Rightarrow> None | Some pa \<Rightarrow> in_page strict 21 (leaf_of pa) va)"
proof -
  note D = boot_invD [OF inv]
  show ?thesis
  proof (cases "tab (vpn 2 va)")
    case None
    then show ?thesis
      using D(4) [of "vpn 2 va"] D(6) [of "vpn 2 va" "vpn 1 va"] by (simp add: sv39_def boot_table_0 pte_bits)
  next
    case (Some i)
    then have "boot_mem b (PGDIR_PA + 8 * vpn 2 va) = table_of_page (boot_table i)"
        "boot_mem b (boot_table i + 8 * vpn 1 va) = (case M (vpn 2 va, vpn 1 va) of None \<Rightarrow> 0 | Some pa \<Rightarrow> leaf_of pa)" "i < 1000"
      using D(4) [of "vpn 2 va"] D(5) [OF Some, of "vpn 1 va"] D(2) [OF Some] n by (simp_all add: boot_table_0)
    then show ?thesis
      using va by (simp add: sv39_def pte_bits get_pa_table split: option.split)
  qed
qed

section \<open>The calls of the boot stage\<close>

definition boot_calls :: "(u64 \<times> u64) list" where
  "boot_calls = map (\<lambda>kva. (kva, kva2pa kva)) (large_pages START_ENTRYPOINT KERNEL_END) @ map (\<lambda>pa. (pa, pa)) (large_pages BOOT_KERNEL BOOT_KERNEL_END)
    @ concat (map (\<lambda>(a, sz). replicate (unat ((sz + LARGE_PAGE_SIZE - 1) div LARGE_PAGE_SIZE)) (a, kva2pa a)) devices)"

lemma fold_concat: "fold f (concat xss) s = fold (fold f) xss s"
  by (induction xss arbitrary: s) simp_all

lemma fold_upt_const: "fold (\<lambda>i. f) [0..<n] s = (f ^^ n) s"
  by (induction n) simp_all

lemma boot_kernel_calls:
  "boot_mem (boot_kernel 0 b) = boot_mem (fold (\<lambda>(va, pa). map_page va pa PGDIR_PA) boot_calls
    ((test_large b)\<lparr>boot_mem := clear_pgdir PGDIR_PA (boot_mem (test_large b))\<rparr>))"
proof -
  have io: "ioremap a sz b = fold (\<lambda>(va, pa). map_page va pa PGDIR_PA)
      (replicate (unat ((sz + LARGE_PAGE_SIZE - 1) div LARGE_PAGE_SIZE)) (a, kva2pa a)) b" for a sz b
    unfolding ioremap_def Let_def fold_upt_const fold_replicate by simp
  have dev: "total_ioremap b = fold (\<lambda>(va, pa). map_page va pa PGDIR_PA)
      (concat (map (\<lambda>(a, sz). replicate (unat ((sz + LARGE_PAGE_SIZE - 1) div LARGE_PAGE_SIZE)) (a, kva2pa a)) devices)) b" for b
    unfolding total_ioremap_def fold_concat fold_map by (intro fold_cong refl) (auto simp: io fun_eq_iff)
  show ?thesis
    unfolding boot_kernel_def boot_calls_def enable_vm_def fold_append comp_def dev [symmetric]
    by (simp add: setup_vm_def Let_def fold_map comp_def)
qed

definition boot_slots :: "((u64 \<times> u64) \<times> u64) list" where
  "boot_slots = [((256, 97), 0x0c200000), ((256, 97), 0x0c200000), ((256, 16), 0x02000000), ((257, 129), 0x502B0000), ((257, 160), 0x54000000),
     ((257, 152), 0x53000000), ((257, 144), 0x52000000), ((257, 129), 0x50240000), ((257, 129), 0x50200000), ((256, 448), 0x38001000),
     ((256, 448), 0x38000000), ((257, 129), 0x502B0000), ((2, 3), 0x80600000), ((2, 2), 0x80400000), ((2, 1), 0x80200000), ((2, 0), 0x80000000),
     ((258, 3), 0x80600000), ((258, 2), 0x80400000), ((258, 1), 0x80200000), ((258, 0), 0x80000000)]"

lemma boot_slots_eq: "rev (map (\<lambda>(va, pa). ((vpn 2 va, vpn 1 va), pa)) boot_calls) = boot_slots"
  by code_simp

lemma note_maps: "fold (\<lambda>(va, pa). note_map va pa) xs M = M ++ map_of (rev (map (\<lambda>(va, pa). ((vpn 2 va, vpn 1 va), pa)) xs))"
  by (induction xs arbitrary: M) (auto simp: note_map_def map_add_def split: option.splits)

text \<open>The memory when the kernel starts, as a map of large pages.\<close>

lemma boot_kernel_inv:
  assumes "pg_base b = PGDIR_PA"
  shows "\<exists>tab n b'. boot_mem (boot_kernel 0 b) = boot_mem b' \<and> boot_inv tab (map_of boot_slots) n b' \<and> n < 1000"
proof -
  have "pg_base (test_large b) = PGDIR_PA"
    using assms by (simp add: test_large_def)
  from clear_boot_inv [OF this]
  have start: "boot_inv Map.empty Map.empty 0 ((test_large b)\<lparr>boot_mem := clear_pgdir PGDIR_PA (boot_mem (test_large b))\<rparr>)" .
  have "length (rev (map (\<lambda>(va, pa). ((vpn 2 va, vpn 1 va), pa)) boot_calls)) = 20"
    unfolding boot_slots_eq by (simp add: boot_slots_def)
  then have len: "length boot_calls = 20" by simp
  then have "0 + length boot_calls < 900" by simp
  from map_pages_inv [OF start this]
  obtain tab n where "boot_inv tab (fold (\<lambda>(va, pa). note_map va pa) boot_calls Map.empty) n (fold (\<lambda>(va, pa). map_page va pa PGDIR_PA) boot_calls
      ((test_large b)\<lparr>boot_mem := clear_pgdir PGDIR_PA (boot_mem (test_large b))\<rparr>))" "n \<le> 0 + length boot_calls"
    by blast
  then show ?thesis
    unfolding note_maps boot_slots_eq empty_map_add boot_kernel_calls
    by (intro exI conjI) (auto simp: len)
qed

text \<open>The large page of a proper address is known from the two upper indices.\<close>

lemma vpn_large: "vpn 1 va = drop_bit 21 va AND mask 9" "vpn 2 va = drop_bit 9 (drop_bit 21 va) AND mask 9"
  unfolding vpn_def by (intro bit_eqI; auto simp: bit_simps)+

definition large_page :: "u64 \<Rightarrow> u64 \<Rightarrow> u64" where
  "large_page v w = w OR push_bit 9 v OR (if bit v 8 then NOT (mask 18) AND mask 43 else 0)"

lemma large_page_vpn:
  assumes "canonical va"
  shows "drop_bit 21 va = large_page (vpn 2 va) (vpn 1 va)"
proof (rule bit_word_eqI)
  fix j assume j: "j < LENGTH(64)"
  have u: "bit (drop_bit 38 va) (k - 38) = bit (drop_bit 38 va) 0" if "38 \<le> k" "k < 64" for k
    using assms unfolding canonical_def by (elim disjE; simp only:; use that in \<open>auto simp: bit_mask_iff\<close>)
  have "bit va (21 + j) = bit va 38" if "17 \<le> j" "j < 43"
    using u [of "j + 21"] that by (simp add: bit_simps add.commute)
  moreover have "\<not> bit va (21 + j)" if "\<not> j < 43"
    using that bit_imp_le_length [of va "21 + j"] by auto
  ultimately show "bit (drop_bit 21 va) j = bit (large_page (vpn 2 va) (vpn 1 va)) j"
    using j unfolding large_page_def vpn_def by (cases "j < 9"; cases "j < 17"; cases "j < 18"; cases "j < 43") (auto simp: bit_simps)
qed

lemma unat_drop_21: "unat (drop_bit 21 (va :: u64)) = unat va div 0x200000"
  by (simp add: drop_bit_eq_div unat_div_distrib)

lemma in_large_pages:
  fixes va a e :: u64
  assumes "unat a = N * 0x200000" and "unat e = (N + k) * 0x200000"
  shows "a \<le> va \<and> va < e \<longleftrightarrow> N \<le> unat (drop_bit 21 va) \<and> unat (drop_bit 21 va) < N + k"
  unfolding word_le_nat_alt word_less_nat_alt assms unat_drop_21
  by (simp add: less_eq_div_iff_mult_less_eq div_less_iff_less_mult)

lemma kva2pa_large: "kva2pa va = push_bit 21 (drop_bit 21 va AND mask 11) OR (va AND mask 21)"
  unfolding kva2pa_def Let_def by (intro bit_eqI) (auto simp: bit_simps)

text \<open>The large pages: those of the kernel, those of the boot stage, those of the devices \<open>SPI0\<close>, \<open>SPI1\<close>, \<open>SPI2\<close>, \<open>CLINT\<close> and
  \<open>PLIC\<close>, and the two whose entry was last written for a device in the middle of a large page, \<open>FPIOA\<close> and \<open>GPIOHS\<close>.\<close>

definition aligned_pages :: "u64 list" where
  "aligned_pages = [0x7FFFFFE0400, 0x7FFFFFE0401, 0x7FFFFFE0402, 0x7FFFFFE0403, 0x400, 0x401, 0x402, 0x403,
     0x7FFFFFE0290, 0x7FFFFFE0298, 0x7FFFFFE02A0, 0x7FFFFFE0010, 0x7FFFFFE0061]"

definition misaligned_pages :: "u64 list" where
  "misaligned_pages = [0x7FFFFFE0281, 0x7FFFFFE01C0]"

definition page_spec :: "bool \<Rightarrow> u64 \<Rightarrow> u64 option" where
  "page_spec strict c = (if c \<in> set aligned_pages \<or> \<not> strict \<and> c \<in> set misaligned_pages then Some (c AND mask 11) else None)"

lemma slots_complete:
  "list_all (\<lambda>c. map_of boot_slots (drop_bit 9 c AND mask 9, c AND mask 9) \<noteq> None \<and> (drop_bit 17 c = 0 \<or> drop_bit 17 c = mask 26))
    (aligned_pages @ misaligned_pages)"
  by code_simp

lemma slots_sound:
  "list_all (\<lambda>((v, w), pa'). case map_of boot_slots (v, w) of None \<Rightarrow> False | Some pa \<Rightarrow>
    page_spec True (large_page v w) = (if get_pa (leaf_of pa) AND mask 21 \<noteq> 0 then None else Some (drop_bit 21 (get_pa (leaf_of pa))))
    \<and> page_spec False (large_page v w) = Some (drop_bit 21 (get_pa (leaf_of pa)))) boot_slots"
  by code_simp

lemma page_spec_slot:
  assumes "canonical va"
  shows "(case map_of boot_slots (vpn 2 va, vpn 1 va) of None \<Rightarrow> None | Some pa \<Rightarrow> in_page strict 21 (leaf_of pa) va)
    = map_option (\<lambda>p. push_bit 21 p OR (va AND mask 21)) (page_spec strict (drop_bit 21 va))"
proof (cases "map_of boot_slots (vpn 2 va, vpn 1 va)")
  case None
  have "drop_bit 21 va \<notin> set (aligned_pages @ misaligned_pages)"
    using slots_complete None unfolding list_all_iff vpn_large by blast
  then have "page_spec strict (drop_bit 21 va) = None"
    by (auto simp: page_spec_def)
  with None show ?thesis by simp
next
  case (Some pa)
  then have "((vpn 2 va, vpn 1 va), pa) \<in> set boot_slots"
    by (rule map_of_SomeD)
  from slots_sound [unfolded list_all_iff, rule_format, OF this] Some
  have spec: "page_spec strict (drop_bit 21 va) =
      (if strict \<and> get_pa (leaf_of pa) AND mask 21 \<noteq> 0 then None else Some (drop_bit 21 (get_pa (leaf_of pa))))"
    unfolding large_page_vpn [OF assms] by (cases strict) simp_all
  have "push_bit 21 (drop_bit 21 x) = x AND NOT (mask 21)" for x :: u64
    by (intro bit_eqI) (auto simp: bit_simps)
  then show ?thesis
    unfolding Some option.case in_page_def spec by simp
qed

lemma page_spec_canonical: "page_spec strict (drop_bit 21 va) \<noteq> None \<Longrightarrow> canonical va"
proof -
  assume "page_spec strict (drop_bit 21 va) \<noteq> None"
  then have "drop_bit 21 va \<in> set (aligned_pages @ misaligned_pages)"
    by (auto simp: page_spec_def split: if_splits)
  then have "drop_bit 17 (drop_bit 21 va) = 0 \<or> drop_bit 17 (drop_bit 21 va) = mask 26"
    using slots_complete unfolding list_all_iff by blast
  then show ?thesis
    by (simp add: canonical_def)
qed

lemma boot_walk:
  assumes "pg_base b = PGDIR_PA"
  shows "sv39 strict (boot_mem (boot_kernel 0 b)) PGDIR_PA va = map_option (\<lambda>_. kva2pa va) (page_spec strict (drop_bit 21 va))"
proof -
  obtain tab n b' where b': "boot_mem (boot_kernel 0 b) = boot_mem b'" "boot_inv tab (map_of boot_slots) n b'" "n < 1000"
    using boot_kernel_inv [OF assms] by blast
  have k: "map_option (\<lambda>_. kva2pa va) (page_spec strict (drop_bit 21 va))
      = map_option (\<lambda>p. push_bit 21 p OR (va AND mask 21)) (page_spec strict (drop_bit 21 va))"
    by (simp add: page_spec_def kva2pa_large)
  show ?thesis
  proof (cases "canonical va")
    case True
    then show ?thesis
      unfolding k b'(1) boot_translates [OF b'(2,3) True] by (rule page_spec_slot)
  next
    case False
    then show ?thesis
      using page_spec_canonical [of strict va] by (cases "page_spec strict (drop_bit 21 va)") (auto simp: sv39_def)
  qed
qed

lemma page_spec_ranges:
  "drop_bit 21 va \<in> set aligned_pages \<longleftrightarrow> START_ENTRYPOINT \<le> va \<and> va < KERNEL_END \<or> BOOT_KERNEL \<le> va \<and> va < BOOT_KERNEL_END
    \<or> (\<exists>d \<in> {0xffffffc052000000, 0xffffffc053000000, 0xffffffc054000000, 0xffffffc002000000, 0xffffffc00c200000}.
         d \<le> va \<and> va < d + LARGE_PAGE_SIZE)"
  "drop_bit 21 va \<in> set misaligned_pages \<longleftrightarrow> (\<exists>d \<in> {0xffffffc050200000, 0xffffffc038000000}. d \<le> va \<and> va < d + LARGE_PAGE_SIZE)"
proof -
  have one: "d \<le> va \<and> va < d + LARGE_PAGE_SIZE \<longleftrightarrow> unat (drop_bit 21 va) = N"
    if "unat d = N * 0x200000" "unat (d + LARGE_PAGE_SIZE) = (N + 1) * 0x200000" for d N
    using in_large_pages [OF that, of va] by auto
  have mem: "drop_bit 21 va = c \<longleftrightarrow> unat (drop_bit 21 va) = unat c" for c
    by (rule word_unat_eq_iff)
  note r = in_large_pages [of START_ENTRYPOINT "0x7FFFFFE0400" KERNEL_END 4 va] in_large_pages [of BOOT_KERNEL "0x400" BOOT_KERNEL_END 4 va]
  have four: "N \<le> x \<and> x < N + 4 \<longleftrightarrow> x = N \<or> x = N + 1 \<or> x = N + 2 \<or> x = N + 3" for N x :: nat
    by auto
  show "drop_bit 21 va \<in> set aligned_pages \<longleftrightarrow> START_ENTRYPOINT \<le> va \<and> va < KERNEL_END \<or> BOOT_KERNEL \<le> va \<and> va < BOOT_KERNEL_END
    \<or> (\<exists>d \<in> {0xffffffc052000000, 0xffffffc053000000, 0xffffffc054000000, 0xffffffc002000000, 0xffffffc00c200000}.
         d \<le> va \<and> va < d + LARGE_PAGE_SIZE)"
    using r four [of "0x7FFFFFE0400" "unat (drop_bit 21 va)"] four [of "0x400" "unat (drop_bit 21 va)"] one [of "0xffffffc052000000" "0x7FFFFFE0290"] one [of "0xffffffc053000000" "0x7FFFFFE0298"]
      one [of "0xffffffc054000000" "0x7FFFFFE02A0"] one [of "0xffffffc002000000" "0x7FFFFFE0010"] one [of "0xffffffc00c200000" "0x7FFFFFE0061"]
    by (simp add: aligned_pages_def mem del: unat_drop_bit_eq drop_bit_eq_div)
  show "drop_bit 21 va \<in> set misaligned_pages \<longleftrightarrow> (\<exists>d \<in> {0xffffffc050200000, 0xffffffc038000000}. d \<le> va \<and> va < d + LARGE_PAGE_SIZE)"
    using one [of "0xffffffc050200000" "0x7FFFFFE0281"] one [of "0xffffffc038000000" "0x7FFFFFE01C0"]
    by (simp add: misaligned_pages_def mem del: unat_drop_bit_eq drop_bit_eq_div)
qed

lemma kva2pa_low: "va < BOOT_KERNEL_END \<Longrightarrow> kva2pa va = va"
proof -
  assume "va < BOOT_KERNEL_END"
  then have "unat va < 2 ^ 32"
    by (simp add: word_less_nat_alt)
  moreover have "kva2pa va = take_bit 32 va"
    unfolding kva2pa_def Let_def by (intro bit_eqI) (auto simp: bit_simps)
  ultimately show ?thesis
    by (simp add: word_unat_eq_iff unsigned_take_bit_eq take_bit_nat_eq_self)
qed

section \<open>Properties\<close>

text \<open>C11: The tables the boot stage leaves, whatever was in memory before, translate exactly what the kernel relies on, and no other address: every kernel
  address from \<open>START_ENTRYPOINT\<close> to \<open>KERNEL_END\<close> to its physical address; every physical address of this memory to itself, so that the
  code can go on when paging is switched on; the large pages of \<open>SPI0\<close>, \<open>SPI1\<close>, \<open>SPI2\<close>, \<open>CLINT\<close> and the first one of \<open>PLIC\<close> to their physical
  addresses. The two large pages with \<open>FPIOA\<close>, \<open>GPIO\<close> and \<open>SPI_SLAVE\<close>, and with \<open>UARTHS\<close> and \<open>GPIOHS\<close>, have misaligned entries: they are translated by a
  processor that does not use the lower bits of the page number, and fault on one that checks them.\<close>

theorem boot_maps_kernel:
  assumes "pg_base b = PGDIR_PA"
  shows "sv39 strict (boot_mem (boot_kernel 0 b)) PGDIR_PA va =
    (if START_ENTRYPOINT \<le> va \<and> va < KERNEL_END then Some (kva2pa va)
     else if BOOT_KERNEL \<le> va \<and> va < BOOT_KERNEL_END then Some va
     else if \<exists>d \<in> {0xffffffc052000000, 0xffffffc053000000, 0xffffffc054000000, 0xffffffc002000000, 0xffffffc00c200000}.
         d \<le> va \<and> va < d + LARGE_PAGE_SIZE then Some (kva2pa va)
     else if \<not> strict \<and> (\<exists>d \<in> {0xffffffc050200000, 0xffffffc038000000}. d \<le> va \<and> va < d + LARGE_PAGE_SIZE) then Some (kva2pa va)
     else None)"
  unfolding boot_walk [OF assms] page_spec_def page_spec_ranges using kva2pa_low [of va] by auto

theorem boot_maps_kernel_witness:
  "sv39 True (boot_mem (boot_kernel 0 \<lparr>boot_mem = (\<lambda>_. 7), pg_base = PGDIR_PA, alloc_num = 0, boot_satp = 0\<rparr>)) PGDIR_PA 0xffffffc080456789
    = Some 0x80456789
   \<and> sv39 True (boot_mem (boot_kernel 0 \<lparr>boot_mem = (\<lambda>_. 7), pg_base = PGDIR_PA, alloc_num = 0, boot_satp = 0\<rparr>)) PGDIR_PA 0x1000 = None"
proof -
  let ?b = "\<lparr>boot_mem = (\<lambda>_. 7), pg_base = PGDIR_PA, alloc_num = 0, boot_satp = 0\<rparr>"
  have b: "pg_base ?b = PGDIR_PA" by simp
  have "kva2pa 0xffffffc080456789 = 0x80456789" by code_simp
  then show ?thesis
    using boot_maps_kernel [OF b, of True "0xffffffc080456789"] boot_maps_kernel [OF b, of True "0x1000"] by simp
qed

text \<open>The second large page of the interrupt controller, with its registers to claim an interrupt, is not mapped.\<close>

lemma plic_not_mapped:
  assumes "pg_base b = PGDIR_PA"
  shows "sv39 strict (boot_mem (boot_kernel 0 b)) PGDIR_PA (0xffffffc00c200000 + 0x200004) = None"
  unfolding boot_walk [OF assms] by (simp add: page_spec_def aligned_pages_def misaligned_pages_def)

text \<open>The registers of \<open>FPIOA\<close> and \<open>GPIOHS\<close> are behind misaligned entries.\<close>

lemma misaligned_devices:
  assumes "pg_base b = PGDIR_PA" and "va \<in> {0xffffffc0502B0000, 0xffffffc038001000}"
  shows "sv39 True (boot_mem (boot_kernel 0 b)) PGDIR_PA va = None"
  using assms(2) unfolding boot_walk [OF assms(1)] by (auto simp: page_spec_def aligned_pages_def misaligned_pages_def)

end
