(* ===== verification/Start.thy ===== *)
theory Start
  imports Trap Smp Boot
begin

text \<open>
  Starting the system (\<open>main\<close> of \<open>init/main.c\<close>) and the screen (\<open>drivers/screen/screen.c\<close>). The screen buffer, the kernel lock and the two flags of
  \<open>main\<close> are a record of their own. The functions that print return the characters. The set-up of the pins and of the
  card, the timer of the machine and the messages are not part of the model.
\<close>

section \<open>The screen\<close>

abbreviation (input) BUFFER_SIZE :: nat where "BUFFER_SIZE \<equiv> 4096"

record screen_buffer =
  scr_buffer :: "u8 list"
  scr_num :: i32
  scr_head :: i32
  scr_tail :: i32

definition screen_buffer_full :: "screen_buffer \<Rightarrow> bool" where
  "screen_buffer_full b \<longleftrightarrow> scr_num b = of_nat BUFFER_SIZE"

definition screen_clear :: "screen_buffer \<Rightarrow> screen_buffer" where
  "screen_clear b = \<lparr>scr_buffer = replicate BUFFER_SIZE 0, scr_num = 0, scr_head = 0, scr_tail = 0\<rparr>"

definition init_screen :: "'a os_scheme \<Rightarrow> 'a os_scheme \<times> screen_buffer" where
  "init_screen s =
    (s\<lparr>stdin_buf := init_ring_buffer, stdout_buf := init_ring_buffer, stderr_buf := init_ring_buffer\<rparr>,
     \<lparr>scr_buffer = replicate BUFFER_SIZE 0, scr_num = 0, scr_head = 0, scr_tail = 0\<rparr>)"

text \<open>A negative \<open>tail\<close> would store below the buffer.\<close>

definition screen_write_ch :: "u8 \<Rightarrow> screen_buffer \<Rightarrow> (screen_buffer, unit) outcome" where
  "screen_write_ch ch b =
    (let i = (sint (scr_tail b)) in
     if i < 0 then Panic b
     else Ret (b\<lparr>scr_buffer := (scr_buffer b)[nat (i mod int BUFFER_SIZE) := ch],
       scr_tail := of_int ((i + 1) mod int BUFFER_SIZE)\<rparr>) ())"

text \<open>These three only print: what follows their first \<open>return\<close> is not reached.\<close>

definition screen_write :: "u8 list \<Rightarrow> u8 list" where
  "screen_write str = str"

definition screen_stdout :: "u8 list \<Rightarrow> u8 list \<times> nat" where
  "screen_stdout buf = (buf, length buf)"

definition screen_stderror :: "u8 list \<Rightarrow> u8 list \<times> nat" where
  "screen_stderror buf = (buf, length buf)"

section \<open>Start\<close>

record start_data =
  kernel_lock :: spinlock
  SCREEN :: screen_buffer
  cancel_flag_m :: i32
  cancel_flag_s :: i32

text \<open>\<open>sd_preprocessing\<close> reads a sector into its own buffer and compares it.\<close>

definition sd_preprocessing :: "'a os_scheme \<Rightarrow> bool" where
  "sd_preprocessing s = (take 5 (drop 82 (sd_card s 0)) = ascii ''FAT32'')"

text \<open>The first processor, from the moment on at which the second has set \<open>cancel_flag_m\<close>; \<open>403000000 / 55\<close> is \<open>TIMEBASE\<close>.\<close>

definition main_master :: "linkage \<Rightarrow> nat \<Rightarrow> start_data \<Rightarrow> 'a fsos_scheme \<Rightarrow> ('a fsos_scheme, start_data) outcome" where
  "main_master lk n d s =
    (let d = d\<lparr>kernel_lock := init_kernel_lock (kernel_lock d)\<rparr>; s = init_mem s in
     if cancel_flag_m d = 0 then Panic s
     else obind (init_shell lk n (init_sig_table (init_fd_table s))) (\<lambda>s _.
       let s = upd_context (save_context (pcb_tab s pid0_pcb_master)) (\<lambda>c. c\<lparr>core_id := 0\<rparr>) s;
           s = s\<lparr>time_base := 403000000 div 55\<rparr>
       in obind (binit s) (\<lambda>s _.
          obind (fat32_init s) (\<lambda>s _.
            let (s, scr) = init_screen s;
                s = init_socket (init_system_futex s)
            in Ret s (d\<lparr>SCREEN := scr, cancel_flag_s := 1\<rparr>)))))"

text \<open>The second processor up to its loop, which it reaches when \<open>cancel_flag_s\<close> is set.\<close>

definition main_slave :: "start_data \<Rightarrow> 'a kernel_scheme \<Rightarrow> ('a kernel_scheme, start_data) outcome" where
  "main_slave d s =
    (let d = d\<lparr>cancel_flag_m := 1\<rparr> in
     if cancel_flag_s d = 0 then Panic s
     else Ret (upd_context (save_context (pcb_tab s pid0_pcb_slave)) (\<lambda>c. c\<lparr>core_id := 1\<rparr>) s) d)"

end
