(* ===== verification/Pins.thy ===== *)
theory Pins
  imports Prelude
begin

unbundle bit_operations_syntax

text \<open>
  The pins of the board: bits of device registers (\<open>drivers/sdcard/utils.c\<close>), the function of each of the 48 pins
  (\<open>fpioa.c\<close>), the high-speed port (\<open>gpiohs.c\<close>) and the interrupt controller (\<open>plic.c\<close>). The registers of these devices are the
  state, and a write to a register is an update. A bit field is a word of its width, which cuts what is stored into it.
\<close>

section \<open>Bits of registers\<close>

definition set_bit_mask :: "u32 \<Rightarrow> u32 \<Rightarrow> u32 \<Rightarrow> u32" where
  "set_bit_mask bits msk val = (bits AND NOT msk) OR (val AND msk)"

definition set_bit_offset :: "u32 \<Rightarrow> u32 \<Rightarrow> nat \<Rightarrow> u32 \<Rightarrow> u32" where
  "set_bit_offset bits msk off val = set_bit_mask bits (push_bit off msk) (push_bit off val)"

definition set_gpio_bit :: "u32 \<Rightarrow> nat \<Rightarrow> u32 \<Rightarrow> u32" where
  "set_gpio_bit bits off val = set_bit_offset bits 1 off val"

definition get_bit :: "u32 \<Rightarrow> u32 \<Rightarrow> nat \<Rightarrow> u32" where
  "get_bit bits msk off = drop_bit off (bits AND push_bit off msk)"

definition get_gpio_bit :: "u32 \<Rightarrow> nat \<Rightarrow> u32" where
  "get_gpio_bit bits off = get_bit bits 1 off"

section \<open>Functions of the pins\<close>

abbreviation (input) FPIOA_NUM_IO :: nat where "FPIOA_NUM_IO \<equiv> 48"
abbreviation (input) FUNC_MAX :: nat where "FUNC_MAX \<equiv> 256"
abbreviation (input) FUNC_RESV0 :: nat where "FUNC_RESV0 \<equiv> 120"
abbreviation (input) FUNC_SPI0_D0 :: nat where "FUNC_SPI0_D0 \<equiv> 4"
abbreviation (input) FUNC_SPI0_D1 :: nat where "FUNC_SPI0_D1 \<equiv> 5"
abbreviation (input) FUNC_SPI0_SS0 :: nat where "FUNC_SPI0_SS0 \<equiv> 12"
abbreviation (input) FUNC_SPI0_SCLK :: nat where "FUNC_SPI0_SCLK \<equiv> 17"
abbreviation (input) FUNC_GPIOHS0 :: nat where "FUNC_GPIOHS0 \<equiv> 24"

record fpioa_io_config =
  ch_sel :: u8
  ds :: "4 word"
  oe_en :: "1 word"
  oe_inv :: "1 word"
  do_sel :: "1 word"
  do_inv :: "1 word"
  pu :: "1 word"
  pd :: "1 word"
  io_resv0 :: "1 word"
  sl :: "1 word"
  ie_en :: "1 word"
  ie_inv :: "1 word"
  di_inv :: "1 word"
  st :: "1 word"
  io_resv1 :: "7 word"
  pad_di :: "1 word"

text \<open>The reserved fields and \<open>pad_di\<close> of a cell of the table are 0 and not used.\<close>

record fpioa_assign =
  as_ch_sel :: u8
  as_ds :: "4 word"
  as_oe_en :: "1 word"
  as_oe_inv :: "1 word"
  as_do_sel :: "1 word"
  as_do_inv :: "1 word"
  as_pu :: "1 word"
  as_pd :: "1 word"
  as_sl :: "1 word"
  as_ie_en :: "1 word"
  as_ie_inv :: "1 word"
  as_di_inv :: "1 word"
  as_st :: "1 word"
  as_tie_en :: "1 word"
  as_tie_val :: "1 word"

text \<open>The ten cells the table is made of, up to the channel.\<close>

definition in_cell :: "u8 \<Rightarrow> fpioa_assign" where
  "in_cell ch = \<lparr>as_ch_sel = ch, as_ds = 0x0, as_oe_en = 0, as_oe_inv = 0, as_do_sel = 0, as_do_inv = 0, 
     as_pu = 0, as_pd = 0, as_sl = 0, as_ie_en = 1, as_ie_inv = 0, as_di_inv = 0, as_st = 1, as_tie_en = 0, as_tie_val = 0\<rparr>"

definition out_cell :: "u8 \<Rightarrow> fpioa_assign" where
  "out_cell ch = \<lparr>as_ch_sel = ch, as_ds = 0xf, as_oe_en = 1, as_oe_inv = 0, as_do_sel = 0, as_do_inv = 0, 
     as_pu = 0, as_pd = 0, as_sl = 0, as_ie_en = 0, as_ie_inv = 0, as_di_inv = 0, as_st = 0, as_tie_en = 0, as_tie_val = 0\<rparr>"

definition data_cell :: "u8 \<Rightarrow> fpioa_assign" where
  "data_cell ch = \<lparr>as_ch_sel = ch, as_ds = 0xf, as_oe_en = 1, as_oe_inv = 1, as_do_sel = 0, as_do_inv = 0, 
     as_pu = 0, as_pd = 0, as_sl = 0, as_ie_en = 1, as_ie_inv = 1, as_di_inv = 0, as_st = 1, as_tie_en = 0, as_tie_val = 0\<rparr>"

definition tied_cell :: "u8 \<Rightarrow> fpioa_assign" where
  "tied_cell ch = \<lparr>as_ch_sel = ch, as_ds = 0x0, as_oe_en = 0, as_oe_inv = 0, as_do_sel = 0, as_do_inv = 0, 
     as_pu = 0, as_pd = 0, as_sl = 0, as_ie_en = 1, as_ie_inv = 0, as_di_inv = 0, as_st = 1, as_tie_en = 1, as_tie_val = 1\<rparr>"

definition gpio_cell :: "u8 \<Rightarrow> fpioa_assign" where
  "gpio_cell ch = \<lparr>as_ch_sel = ch, as_ds = 0xf, as_oe_en = 1, as_oe_inv = 0, as_do_sel = 0, as_do_inv = 0, 
     as_pu = 0, as_pd = 0, as_sl = 0, as_ie_en = 1, as_ie_inv = 0, as_di_inv = 0, as_st = 1, as_tie_en = 0, as_tie_val = 0\<rparr>"

definition no_cell :: "u8 \<Rightarrow> fpioa_assign" where
  "no_cell ch = \<lparr>as_ch_sel = ch, as_ds = 0x0, as_oe_en = 0, as_oe_inv = 0, as_do_sel = 0, as_do_inv = 0, 
     as_pu = 0, as_pd = 0, as_sl = 0, as_ie_en = 0, as_ie_inv = 0, as_di_inv = 0, as_st = 0, as_tie_en = 0, as_tie_val = 0\<rparr>"

definition i2c_cell :: "u8 \<Rightarrow> fpioa_assign" where
  "i2c_cell ch = \<lparr>as_ch_sel = ch, as_ds = 0x0, as_oe_en = 1, as_oe_inv = 0, as_do_sel = 0, as_do_inv = 0, 
     as_pu = 1, as_pd = 0, as_sl = 1, as_ie_en = 1, as_ie_inv = 0, as_di_inv = 0, as_st = 1, as_tie_en = 0, as_tie_val = 0\<rparr>"

definition sccb_cell :: "u8 \<Rightarrow> fpioa_assign" where
  "sccb_cell ch = \<lparr>as_ch_sel = ch, as_ds = 0x0, as_oe_en = 1, as_oe_inv = 1, as_do_sel = 0, as_do_inv = 0, 
     as_pu = 1, as_pd = 0, as_sl = 1, as_ie_en = 1, as_ie_inv = 0, as_di_inv = 0, as_st = 1, as_tie_en = 0, as_tie_val = 0\<rparr>"

definition in_up_cell :: "u8 \<Rightarrow> fpioa_assign" where
  "in_up_cell ch = \<lparr>as_ch_sel = ch, as_ds = 0x0, as_oe_en = 0, as_oe_inv = 0, as_do_sel = 0, as_do_inv = 0, 
     as_pu = 1, as_pd = 0, as_sl = 0, as_ie_en = 1, as_ie_inv = 0, as_di_inv = 0, as_st = 1, as_tie_en = 0, as_tie_val = 0\<rparr>"

definition io_up_cell :: "u8 \<Rightarrow> fpioa_assign" where
  "io_up_cell ch = \<lparr>as_ch_sel = ch, as_ds = 0xf, as_oe_en = 1, as_oe_inv = 0, as_do_sel = 0, as_do_inv = 0, 
     as_pu = 1, as_pd = 0, as_sl = 1, as_ie_en = 1, as_ie_inv = 0, as_di_inv = 0, as_st = 1, as_tie_en = 0, as_tie_val = 0\<rparr>"

text \<open>The table, by the devices the functions belong to.\<close>

definition jtag_functions :: "fpioa_assign list" where
  "jtag_functions =
    [in_cell 0, in_cell 1, in_cell 2, out_cell 3]"

definition spi0_functions :: "fpioa_assign list" where
  "spi0_functions =
    [data_cell 4, data_cell 5, data_cell 6, data_cell 7, data_cell 8, data_cell 9, data_cell 10, data_cell 11, out_cell 12,
     out_cell 13, out_cell 14, out_cell 15, tied_cell 16, out_cell 17]"

definition uarths_functions :: "fpioa_assign list" where
  "uarths_functions =
    [in_cell 18, out_cell 19, in_cell 20, in_cell 21, out_cell 22, out_cell 23]"

definition gpiohs_functions :: "fpioa_assign list" where
  "gpiohs_functions =
    [gpio_cell 24, gpio_cell 25, gpio_cell 26, gpio_cell 27, gpio_cell 28, gpio_cell 29, gpio_cell 30, gpio_cell 31,
     gpio_cell 32, gpio_cell 33, gpio_cell 34, gpio_cell 35, gpio_cell 36, gpio_cell 37, gpio_cell 38, gpio_cell 39,
     gpio_cell 40, gpio_cell 41, gpio_cell 42, gpio_cell 43, gpio_cell 44, gpio_cell 45, gpio_cell 46, gpio_cell 47,
     gpio_cell 48, gpio_cell 49, gpio_cell 50, gpio_cell 51, gpio_cell 52, gpio_cell 53, gpio_cell 54, gpio_cell 55]"

definition gpio_functions :: "fpioa_assign list" where
  "gpio_functions =
    [gpio_cell 56, gpio_cell 57, gpio_cell 58, gpio_cell 59, gpio_cell 60, gpio_cell 61, gpio_cell 62, gpio_cell 63]"

definition uart_functions :: "fpioa_assign list" where
  "uart_functions =
    [in_cell 64, out_cell 65, in_cell 66, out_cell 67, in_cell 68, out_cell 69]"

definition spi1_functions :: "fpioa_assign list" where
  "spi1_functions =
    [data_cell 70, data_cell 71, data_cell 72, data_cell 73, data_cell 74, data_cell 75, data_cell 76, data_cell 77,
     out_cell 78, out_cell 79, out_cell 80, out_cell 81, tied_cell 82, out_cell 83]"

definition spi_slave_functions :: "fpioa_assign list" where
  "spi_slave_functions =
    [data_cell 84, in_cell 85, in_cell 86]"

definition i2s0_functions :: "fpioa_assign list" where
  "i2s0_functions =
    [out_cell 87, out_cell 88, out_cell 89, in_cell 90, in_cell 91, in_cell 92, in_cell 93, out_cell 94, out_cell 95,
     out_cell 96, out_cell 97]"

definition i2s1_functions :: "fpioa_assign list" where
  "i2s1_functions =
    [out_cell 98, out_cell 99, out_cell 100, in_cell 101, in_cell 102, in_cell 103, in_cell 104, out_cell 105,
     out_cell 106, out_cell 107, out_cell 108]"

definition i2s2_functions :: "fpioa_assign list" where
  "i2s2_functions =
    [out_cell 109, out_cell 110, out_cell 111, in_cell 112, in_cell 113, in_cell 114, in_cell 115, out_cell 116,
     out_cell 117, out_cell 118, out_cell 119]"

definition resv_functions :: "fpioa_assign list" where
  "resv_functions =
    [no_cell 120, no_cell 121, no_cell 122, no_cell 123, no_cell 124, no_cell 125]"

definition i2c_functions :: "fpioa_assign list" where
  "i2c_functions =
    [i2c_cell 126, i2c_cell 127, i2c_cell 128, i2c_cell 129, i2c_cell 130, i2c_cell 131]"

definition cmos_functions :: "fpioa_assign list" where
  "cmos_functions =
    [out_cell 132, out_cell 133, out_cell 134, in_cell 135, in_cell 136, in_cell 137, in_cell 138, in_cell 139,
     in_cell 140, in_cell 141, in_cell 142, in_cell 143, in_cell 144, in_cell 145, sccb_cell 146, sccb_cell 147]"

definition uart1_functions :: "fpioa_assign list" where
  "uart1_functions =
    [in_cell 148, in_cell 149, in_cell 150, in_cell 151, in_cell 152, out_cell 153, out_cell 154, out_cell 155,
     out_cell 156, out_cell 157, out_cell 158, out_cell 159, out_cell 160, out_cell 161]"

definition uart2_functions :: "fpioa_assign list" where
  "uart2_functions =
    [in_cell 162, in_cell 163, in_cell 164, in_cell 165, in_cell 166, out_cell 167, out_cell 168, out_cell 169,
     out_cell 170, out_cell 171, out_cell 172, out_cell 173, out_cell 174, out_cell 175]"

definition uart3_functions :: "fpioa_assign list" where
  "uart3_functions =
    [in_cell 176, in_cell 177, in_cell 178, in_cell 179, in_cell 180, out_cell 181, out_cell 182, out_cell 183,
     out_cell 184, out_cell 185, out_cell 186, out_cell 187, out_cell 188, out_cell 189]"

definition timer_functions :: "fpioa_assign list" where
  "timer_functions =
    [out_cell 190, out_cell 191, out_cell 192, out_cell 193, out_cell 194, out_cell 195, out_cell 196, out_cell 197,
     out_cell 198, out_cell 199, out_cell 200, out_cell 201]"

definition clk_functions :: "fpioa_assign list" where
  "clk_functions =
    [out_cell 202, out_cell 203]"

definition internal_functions :: "fpioa_assign list" where
  "internal_functions =
    [out_cell 204, out_cell 205, out_cell 206, out_cell 207, out_cell 208, out_cell 209, out_cell 210, out_cell 211,
     out_cell 212, in_cell 213, in_cell 214, in_cell 215, in_cell 216, in_up_cell 217, io_up_cell 218, in_cell 219,
     in_cell 220, in_cell 221, no_cell 222, in_cell 223]"

definition debug_functions :: "fpioa_assign list" where
  "debug_functions =
    [out_cell 224, out_cell 225, out_cell 226, out_cell 227, out_cell 228, out_cell 229, out_cell 230, out_cell 231,
     out_cell 232, out_cell 233, out_cell 234, out_cell 235, out_cell 236, out_cell 237, out_cell 238, out_cell 239,
     out_cell 240, out_cell 241, out_cell 242, out_cell 243, out_cell 244, out_cell 245, out_cell 246, out_cell 247,
     out_cell 248, out_cell 249, out_cell 250, out_cell 251, out_cell 252, out_cell 253, out_cell 254, out_cell 255]"

definition function_config :: "fpioa_assign list" where
  "function_config =
    jtag_functions @ spi0_functions @ uarths_functions @ gpiohs_functions @ gpio_functions @ uart_functions @ spi1_functions @
      spi_slave_functions @ i2s0_functions @ i2s1_functions @ i2s2_functions @ resv_functions @ i2c_functions @ cmos_functions @
      uart1_functions @ uart2_functions @ uart3_functions @ timer_functions @ clk_functions @ internal_functions @ debug_functions"

datatype fpioa_pull = FPIOA_PULL_NONE | FPIOA_PULL_DOWN | FPIOA_PULL_UP | FPIOA_PULL_MAX

record gpiohs_raw =
  input_val :: u32
  input_en :: u32
  output_en :: u32
  output_val :: u32
  pullup_en :: u32
  drive :: u32
  rise_ie :: u32
  rise_ip :: u32
  fall_ie :: u32
  fall_ip :: u32
  high_ie :: u32
  high_ip :: u32
  low_ie :: u32
  low_ip :: u32
  iof_en :: u32
  iof_sel :: u32
  output_xor :: u32

record gpiohs_pin_instance =
  gp_pin :: u64
  gp_edge :: u32
  gp_callback :: ptr
  gpiohs_callback :: ptr
  gp_context :: ptr

text \<open>The registers of the multiplexer, of the port and of the interrupt controller by address, and the table of pins of the
  driver.\<close>

record pins =
  fp_io :: "nat \<Rightarrow> fpioa_io_config"
  tie_en :: "nat \<Rightarrow> u32"
  tie_val :: "nat \<Rightarrow> u32"
  gpiohs :: gpiohs_raw
  pin_instance :: "nat \<Rightarrow> gpiohs_pin_instance"
  plic_regs :: "u64 \<Rightarrow> u32"

definition put_io :: "nat \<Rightarrow> fpioa_io_config \<Rightarrow> pins \<Rightarrow> pins" where
  "put_io k cfg p = p\<lparr>fp_io := (fp_io p)(k := cfg)\<rparr>"

definition fpioa_init :: "pins \<Rightarrow> pins" where
  "fpioa_init p =
    (let en = fold (\<lambda>i f. f(i div 32 := f (i div 32) OR push_bit (i mod 32) (ucast (as_tie_en (function_config ! i)))))
           [0..<FUNC_MAX] (\<lambda>_. 0);
         val = fold (\<lambda>i f. f(i div 32 := f (i div 32) OR push_bit (i mod 32) (ucast (as_tie_val (function_config ! i)))))
           [0..<FUNC_MAX] (\<lambda>_. 0)
     in fold (\<lambda>i p. p\<lparr>tie_val := (tie_val p)(i := val i), tie_en := (tie_en p)(i := en i)\<rparr>) [0..<FUNC_MAX div 32] p)"

text \<open>\<open>None\<close> is the result \<open>-1\<close>; the pointer \<open>cfg\<close> is not null.\<close>

definition pin_ok :: "int \<Rightarrow> bool" where
  "pin_ok number \<longleftrightarrow> \<not> (number < 0 \<or> number \<ge> int FPIOA_NUM_IO)"

definition fpioa_get_io :: "int \<Rightarrow> pins \<Rightarrow> fpioa_io_config option" where
  "fpioa_get_io number p = (if \<not> pin_ok number then None else Some (fp_io p (nat number)))"

definition fpioa_set_io :: "int \<Rightarrow> fpioa_io_config \<Rightarrow> pins \<Rightarrow> pins \<times> int" where
  "fpioa_set_io number cfg p = (if \<not> pin_ok number then (p, -1) else (put_io (nat number) cfg p, 0))"

definition fpioa_set_io_pull :: "int \<Rightarrow> fpioa_pull \<Rightarrow> pins \<Rightarrow> pins \<times> int" where
  "fpioa_set_io_pull number pull p =
    (if \<not> pin_ok number \<or> pull = FPIOA_PULL_MAX then (p, -1)
     else
       let cfg = fp_io p (nat number);
           cfg = (case pull of
               FPIOA_PULL_NONE \<Rightarrow> cfg\<lparr>pu := 0, pd := 0\<rparr>
             | FPIOA_PULL_DOWN \<Rightarrow> cfg\<lparr>pu := 0, pd := 1\<rparr>
             | FPIOA_PULL_UP \<Rightarrow> cfg\<lparr>pu := 1, pd := 0\<rparr>
             | _ \<Rightarrow> cfg)
       in (put_io (nat number) cfg p, 0))"

definition fpioa_get_io_pull :: "int \<Rightarrow> pins \<Rightarrow> fpioa_pull option" where
  "fpioa_get_io_pull number p =
    (if \<not> pin_ok number then None
     else
       let cfg = fp_io p (nat number)
       in if pu cfg = 0 \<and> pd cfg = 1 then Some FPIOA_PULL_DOWN
          else if pu cfg = 1 \<and> pd cfg = 0 then Some FPIOA_PULL_UP
          else Some FPIOA_PULL_NONE)"

definition fpioa_set_io_driving :: "int \<Rightarrow> u32 \<Rightarrow> pins \<Rightarrow> pins \<times> int" where
  "fpioa_set_io_driving number driving p =
    (if \<not> pin_ok number \<or> driving \<ge> 16 then (p, -1)
     else (put_io (nat number) ((fp_io p (nat number))\<lparr>ds := ucast driving\<rparr>) p, 0))"

definition fpioa_set_sl :: "int \<Rightarrow> u8 \<Rightarrow> pins \<Rightarrow> pins \<times> int" where
  "fpioa_set_sl number sl_enable p =
    (if \<not> pin_ok number then (p, -1) else (put_io (nat number) ((fp_io p (nat number))\<lparr>sl := ucast sl_enable\<rparr>) p, 0))"

definition fpioa_set_st :: "int \<Rightarrow> u8 \<Rightarrow> pins \<Rightarrow> pins \<times> int" where
  "fpioa_set_st number st_enable p =
    (if \<not> pin_ok number then (p, -1) else (put_io (nat number) ((fp_io p (nat number))\<lparr>st := ucast st_enable\<rparr>) p, 0))"

definition fpioa_set_oe_inv :: "int \<Rightarrow> u8 \<Rightarrow> pins \<Rightarrow> pins \<times> int" where
  "fpioa_set_oe_inv number inv_enable p =
    (if \<not> pin_ok number then (p, -1) else (put_io (nat number) ((fp_io p (nat number))\<lparr>oe_inv := ucast inv_enable\<rparr>) p, 0))"

definition fpioa_get_io_driving :: "int \<Rightarrow> pins \<Rightarrow> int" where
  "fpioa_get_io_driving number p = (if \<not> pin_ok number then -1 else uint (ds (fp_io p (nat number))))"

definition fpioa_set_function_raw :: "int \<Rightarrow> nat \<Rightarrow> pins \<Rightarrow> pins \<times> int" where
  "fpioa_set_function_raw number fn p =
    (if \<not> pin_ok number \<or> fn \<ge> FUNC_MAX then (p, -1)
     else
       let c = function_config ! fn
       in (put_io (nat number)
             \<lparr>ch_sel = as_ch_sel c, ds = as_ds c, oe_en = as_oe_en c, oe_inv = as_oe_inv c, do_sel = as_do_sel c, do_inv = as_do_inv c,
              pu = as_pu c, pd = as_pd c, io_resv0 = 0, sl = as_sl c, ie_en = as_ie_en c, ie_inv = as_ie_inv c, di_inv = as_di_inv c,
              st = as_st c, io_resv1 = 0, pad_di = 0\<rparr> p, 0))"

definition fpioa_set_function :: "int \<Rightarrow> nat \<Rightarrow> pins \<Rightarrow> pins \<times> int" where
  "fpioa_set_function number fn p =
    (if \<not> pin_ok number \<or> fn \<ge> FUNC_MAX then (p, -1)
     else if fn = FUNC_RESV0 then (fst (fpioa_set_function_raw number FUNC_RESV0 p), 0)
     else
       let p = fold (\<lambda>i p. if unat (ch_sel (fp_io p i)) = fn \<and> int i \<noteq> number
                           then fst (fpioa_set_function_raw (int i) FUNC_RESV0 p) else p) [0..<FPIOA_NUM_IO] p
       in (fst (fpioa_set_function_raw number fn p), 0))"

definition fpioa_set_tie_enable :: "nat \<Rightarrow> int \<Rightarrow> pins \<Rightarrow> pins \<times> int" where
  "fpioa_set_tie_enable fn enable p =
    (if fn \<ge> FUNC_MAX then (p, -1)
     else
       let w = tie_en p (fn div 32)
       in (p\<lparr>tie_en := (tie_en p)(fn div 32 :=
             if enable \<noteq> 0 then w OR push_bit (fn mod 32) 1 else w AND NOT (push_bit (fn mod 32) 1))\<rparr>, 0))"

definition fpioa_set_tie_value :: "nat \<Rightarrow> int \<Rightarrow> pins \<Rightarrow> pins \<times> int" where
  "fpioa_set_tie_value fn val p =
    (if fn \<ge> FUNC_MAX then (p, -1)
     else
       let w = tie_val p (fn div 32)
       in (p\<lparr>tie_val := (tie_val p)(fn div 32 :=
             if val \<noteq> 0 then w OR push_bit (fn mod 32) 1 else w AND NOT (push_bit (fn mod 32) 1))\<rparr>, 0))"

definition fpioa_get_io_by_function :: "nat \<Rightarrow> pins \<Rightarrow> int" where
  "fpioa_get_io_by_function fn p =
    (case find (\<lambda>i. unat (ch_sel (fp_io p i)) = fn) [0..<FPIOA_NUM_IO] of None \<Rightarrow> -1 | Some i \<Rightarrow> int i)"

definition fpioa_pin_init :: "pins \<Rightarrow> pins" where
  "fpioa_pin_init p =
    fst (fpioa_set_function 29 FUNC_SPI0_SS0 (fst (fpioa_set_function 26 FUNC_SPI0_D1
      (fst (fpioa_set_function 28 FUNC_SPI0_D0 (fst (fpioa_set_function 27 FUNC_SPI0_SCLK p)))))))"

section \<open>The high-speed port\<close>

datatype gpio_drive_mode = GPIO_DM_INPUT | GPIO_DM_INPUT_PULL_DOWN | GPIO_DM_INPUT_PULL_UP | GPIO_DM_OUTPUT

abbreviation (input) GPIO_PE_FALLING :: u32 where "GPIO_PE_FALLING \<equiv> 1"
abbreviation (input) GPIO_PE_RISING :: u32 where "GPIO_PE_RISING \<equiv> 2"
abbreviation (input) GPIO_PE_LOW :: u32 where "GPIO_PE_LOW \<equiv> 4"
abbreviation (input) GPIO_PE_HIGH :: u32 where "GPIO_PE_HIGH \<equiv> 8"

text \<open>A pin is below 32. \<open>dir\<close> chooses the register whose bit is set after that of the other was cleared.\<close>

definition upd_port :: "(gpiohs_raw \<Rightarrow> gpiohs_raw) \<Rightarrow> pins \<Rightarrow> pins" where
  "upd_port f p = p\<lparr>gpiohs := f (gpiohs p)\<rparr>"

definition gpiohs_set_drive_mode :: "nat \<Rightarrow> gpio_drive_mode \<Rightarrow> pins \<Rightarrow> pins" where
  "gpiohs_set_drive_mode pin mode p =
    (let io_number = fpioa_get_io_by_function (FUNC_GPIOHS0 + pin) p;
         (pull, dir) = (case mode of
             GPIO_DM_INPUT \<Rightarrow> (FPIOA_PULL_NONE, False)
           | GPIO_DM_INPUT_PULL_DOWN \<Rightarrow> (FPIOA_PULL_DOWN, False)
           | GPIO_DM_INPUT_PULL_UP \<Rightarrow> (FPIOA_PULL_UP, False)
           | GPIO_DM_OUTPUT \<Rightarrow> (FPIOA_PULL_DOWN, True));
         p = fst (fpioa_set_io_pull io_number pull p)
     in upd_port (\<lambda>g.
          if dir then g\<lparr>input_en := set_gpio_bit (input_en g) pin 0, output_en := set_gpio_bit (output_en g) pin 1\<rparr>
          else g\<lparr>output_en := set_gpio_bit (output_en g) pin 0, input_en := set_gpio_bit (input_en g) pin 1\<rparr>) p)"

definition gpiohs_get_pin :: "nat \<Rightarrow> pins \<Rightarrow> u32" where
  "gpiohs_get_pin pin p = get_gpio_bit (input_val (gpiohs p)) pin"

definition gpiohs_set_pin :: "nat \<Rightarrow> u32 \<Rightarrow> pins \<Rightarrow> pins" where
  "gpiohs_set_pin pin val p = upd_port (\<lambda>g. g\<lparr>output_val := set_gpio_bit (output_val g) pin val\<rparr>) p"

text \<open>A write of 1 to a pending register clears the pending bit in the device; the registers keep what was written.\<close>

definition gpiohs_set_pin_edge :: "nat \<Rightarrow> u32 \<Rightarrow> pins \<Rightarrow> pins" where
  "gpiohs_set_pin_edge pin edge p =
    (let p = upd_port (\<lambda>g. g\<lparr>rise_ie := set_gpio_bit (rise_ie g) pin 0, rise_ip := set_gpio_bit (rise_ip g) pin 1,
             fall_ie := set_gpio_bit (fall_ie g) pin 0, fall_ip := set_gpio_bit (fall_ip g) pin 1,
             low_ie := set_gpio_bit (low_ie g) pin 0, low_ip := set_gpio_bit (low_ip g) pin 1,
             high_ie := set_gpio_bit (high_ie g) pin 0, high_ip := set_gpio_bit (high_ip g) pin 1\<rparr>) p;
         p = upd_port (\<lambda>g. g\<lparr>fall_ie := set_gpio_bit (fall_ie g) pin (if edge AND GPIO_PE_FALLING \<noteq> 0 then 1 else 0)\<rparr>) p;
         p = upd_port (\<lambda>g. g\<lparr>rise_ie := set_gpio_bit (rise_ie g) pin (if edge AND GPIO_PE_RISING \<noteq> 0 then 1 else 0)\<rparr>) p;
         p = upd_port (\<lambda>g. g\<lparr>low_ie := set_gpio_bit (low_ie g) pin (if edge AND GPIO_PE_LOW \<noteq> 0 then 1 else 0)\<rparr>) p;
         p = upd_port (\<lambda>g. g\<lparr>high_ie := set_gpio_bit (high_ie g) pin (if edge AND GPIO_PE_HIGH \<noteq> 0 then 1 else 0)\<rparr>) p
     in p\<lparr>pin_instance := (pin_instance p)(pin := (pin_instance p pin)\<lparr>gp_edge := edge\<rparr>)\<rparr>)"

text \<open>The handler of a pin; the calls it makes through pointers are a result, with the argument each gets.\<close>

definition gpiohs_pin_onchange_isr :: "gpiohs_pin_instance \<Rightarrow> pins \<Rightarrow> pins \<times> (ptr \<times> ptr option) list" where
  "gpiohs_pin_onchange_isr ctx p =
    (let pin = unat (gp_pin ctx); e = gp_edge ctx;
         p = upd_port (\<lambda>g. if e AND GPIO_PE_FALLING \<noteq> 0 then
               g\<lparr>fall_ie := set_gpio_bit (set_gpio_bit (fall_ie g) pin 0) pin 1, fall_ip := set_gpio_bit (fall_ip g) pin 1\<rparr> else g) p;
         p = upd_port (\<lambda>g. if e AND GPIO_PE_RISING \<noteq> 0 then
               g\<lparr>rise_ie := set_gpio_bit (set_gpio_bit (rise_ie g) pin 0) pin 1, rise_ip := set_gpio_bit (rise_ip g) pin 1\<rparr> else g) p;
         p = upd_port (\<lambda>g. if e AND GPIO_PE_LOW \<noteq> 0 then
               g\<lparr>low_ie := set_gpio_bit (set_gpio_bit (low_ie g) pin 0) pin 1, low_ip := set_gpio_bit (low_ip g) pin 1\<rparr> else g) p;
         p = upd_port (\<lambda>g. if e AND GPIO_PE_HIGH \<noteq> 0 then
               g\<lparr>high_ie := set_gpio_bit (set_gpio_bit (high_ie g) pin 0) pin 1, high_ip := set_gpio_bit (high_ip g) pin 1\<rparr> else g) p
     in (p, (if gp_callback ctx \<noteq> 0 then [(gp_callback ctx, None)] else []) @
            (if gpiohs_callback ctx \<noteq> 0 then [(gpiohs_callback ctx, Some (gp_context ctx))] else [])))"

definition gpiohs_set_irq :: "nat \<Rightarrow> ptr \<Rightarrow> pins \<Rightarrow> pins" where
  "gpiohs_set_irq pin func p =
    p\<lparr>pin_instance := (pin_instance p)(pin := (pin_instance p pin)\<lparr>gp_pin := of_nat pin, gp_callback := func\<rparr>)\<rparr>"

definition gpiohs_irq_register :: "nat \<Rightarrow> ptr \<Rightarrow> ptr \<Rightarrow> pins \<Rightarrow> pins" where
  "gpiohs_irq_register pin callback ctx p =
    p\<lparr>pin_instance := (pin_instance p)(pin :=
        (pin_instance p pin)\<lparr>gp_pin := of_nat pin, gpiohs_callback := callback, gp_context := ctx\<rparr>)\<rparr>"

text \<open>The members that are not named get 0.\<close>

definition gpiohs_irq_unregister :: "nat \<Rightarrow> pins \<Rightarrow> pins" where
  "gpiohs_irq_unregister pin p =
    (let p = p\<lparr>pin_instance := (pin_instance p)(pin :=
           \<lparr>gp_pin = 0, gp_edge = 0, gp_callback = 0, gpiohs_callback = 0, gp_context = 0\<rparr>)\<rparr>
     in upd_port (\<lambda>g. g\<lparr>rise_ie := set_gpio_bit (rise_ie g) pin 0, fall_ie := set_gpio_bit (fall_ie g) pin 0,
          low_ie := set_gpio_bit (low_ie g) pin 0, high_ie := set_gpio_bit (high_ie g) pin 0\<rparr>) p)"

section \<open>The interrupt controller\<close>

abbreviation (input) PLIC :: u64 where "PLIC \<equiv> 0xffffffc00c200000"
abbreviation (input) DISK_IRQ :: nat where "DISK_IRQ \<equiv> 1"
abbreviation (input) UART_IRQ :: nat where "UART_IRQ \<equiv> 10"

definition PLIC_MENABLE :: "u64 \<Rightarrow> u64" where
  "PLIC_MENABLE hart = PLIC + 0x2000 + hart * 0x100"

definition PLIC_MCLAIM :: "u64 \<Rightarrow> u64" where
  "PLIC_MCLAIM hart = PLIC + 0x200004 + hart * 0x2000"

definition plicinit :: "pins \<Rightarrow> pins" where
  "plicinit p = p\<lparr>plic_regs := (plic_regs p)(PLIC + of_nat (DISK_IRQ * 4) := 1, PLIC + of_nat (UART_IRQ * 4) := 1)\<rparr>"

text \<open>\<open>hart\<close> is the number of the processor (\<open>get_current_cpu_id\<close>).\<close>

definition plicinithart :: "u64 \<Rightarrow> pins \<Rightarrow> pins" where
  "plicinithart hart p =
    (let m = plic_regs p; e = PLIC_MENABLE hart;
         m = m(e := m e OR push_bit DISK_IRQ 1);
         m = m(e + 4 := m (e + 4) OR push_bit (UART_IRQ mod 32) 1)
     in p\<lparr>plic_regs := m\<rparr>)"

text \<open>Reading the register claims the interrupt, which is up to the device.\<close>

definition plic_claim :: "u64 \<Rightarrow> pins \<Rightarrow> u32" where
  "plic_claim hart p = plic_regs p (PLIC_MCLAIM hart)"

definition plic_complete :: "u64 \<Rightarrow> u32 \<Rightarrow> pins \<Rightarrow> pins" where
  "plic_complete hart irq p = p\<lparr>plic_regs := (plic_regs p)(PLIC_MCLAIM hart := irq)\<rparr>"

section \<open>A function has one pin\<close>

lemma function_config_channels: "map as_ch_sel function_config = map of_nat [0..<256]"
  by code_simp

lemma function_config_ch_sel: "fn < 256 \<Longrightarrow> as_ch_sel (function_config ! fn) = of_nat fn"
  using arg_cong [OF function_config_channels, of "\<lambda>xs. xs ! fn"] arg_cong [OF function_config_channels, of length]
  by simp

lemma set_function_raw_io:
  assumes "number < 48" and "fn < 256"
  shows "\<exists>c. fst (fpioa_set_function_raw (int number) fn p) = put_io number c p \<and> ch_sel c = of_nat fn"
  using assms by (auto simp: fpioa_set_function_raw_def Let_def pin_ok_def function_config_ch_sel)

lemma put_io_simps [simp]:
  "fp_io (put_io k c p) = (fp_io p)(k := c)" "gpiohs (put_io k c p) = gpiohs p" "tie_en (put_io k c p) = tie_en p"
  "tie_val (put_io k c p) = tie_val p" "pin_instance (put_io k c p) = pin_instance p" "plic_regs (put_io k c p) = plic_regs p"
  by (simp_all add: put_io_def)

text \<open>The loop takes the function from every other pin below the index.\<close>

definition take_function :: "int \<Rightarrow> nat \<Rightarrow> nat \<Rightarrow> pins \<Rightarrow> pins" where
  "take_function number fn i p =
    (if unat (ch_sel (fp_io p i)) = fn \<and> int i \<noteq> number then fst (fpioa_set_function_raw (int i) FUNC_RESV0 p) else p)"

lemma take_function_loop:
  assumes "n \<le> 48" and "fn < 256" and "fn \<noteq> 120"
  shows "let q = fold (take_function number fn) [0..<n] p in \<forall>k. (k < n \<and> int k \<noteq> number \<and> unat (ch_sel (fp_io p k)) = fn \<longrightarrow> ch_sel (fp_io q k) = 120) \<and>
    (\<not> (k < n \<and> int k \<noteq> number \<and> unat (ch_sel (fp_io p k)) = fn) \<longrightarrow> fp_io q k = fp_io p k)"
  using assms(1) unfolding Let_def
proof (induction n)
  case (Suc n)
  let ?q = "fold (take_function number fn) [0..<n] p"
  have n: "fp_io ?q n = fp_io p n"
    using Suc by simp
  from set_function_raw_io [of n 120 ?q] Suc.prems
  obtain c where c: "fst (fpioa_set_function_raw (int n) 120 ?q) = put_io n c ?q" "ch_sel c = 120"
    by auto
  have "take_function number fn n ?q = (if unat (ch_sel (fp_io p n)) = fn \<and> int n \<noteq> number then put_io n c ?q else ?q)"
    by (simp add: take_function_def [of number fn n] n c)
  then show ?case
    using Suc c(2) by (auto simp: less_Suc_eq)
qed simp

lemma fpioa_set_function_step:
  assumes "number < 48" and "fn < 256" and "fn \<noteq> 120"
  shows "fpioa_set_function (int number) fn p =
    (fst (fpioa_set_function_raw (int number) fn (fold (take_function (int number) fn) [0..<48] p)), 0)"
  using assms by (simp add: fpioa_set_function_def pin_ok_def take_function_def [abs_def])

lemma find_first: "k < n \<Longrightarrow> P k \<Longrightarrow> (\<And>i. i < n \<Longrightarrow> i \<noteq> k \<Longrightarrow> \<not> P i) \<Longrightarrow> find P [0..<n] = Some k"
  by (auto simp: find_Some_iff intro!: exI [of _ k])

text \<open>C39: Giving a function to a pin takes it from every other pin: afterwards exactly this pin has the function and is the one
  found for it, the pins that had it are reserved, and the configuration of all other pins is as it was.\<close>

theorem fpioa_set_function_exclusive:
  assumes "number < 48" and "fn < 256" and "fn \<noteq> 120" and "fpioa_set_function (int number) fn p = (q, r)"
  shows "r = 0 \<and> unat (ch_sel (fp_io q number)) = fn \<and> fpioa_get_io_by_function fn q = int number
    \<and> (\<forall>k. k < 48 \<and> k \<noteq> number \<longrightarrow> unat (ch_sel (fp_io q k)) \<noteq> fn
        \<and> (unat (ch_sel (fp_io p k)) = fn \<longrightarrow> ch_sel (fp_io q k) = 120) \<and> (unat (ch_sel (fp_io p k)) \<noteq> fn \<longrightarrow> fp_io q k = fp_io p k))"
proof -
  let ?l = "fold (take_function (int number) fn) [0..<48] p"
  from set_function_raw_io [OF assms(1,2)]
  obtain c where c: "fst (fpioa_set_function_raw (int number) fn ?l) = put_io number c ?l" "ch_sel c = of_nat fn"
    by blast
  have q: "q = put_io number c ?l" "r = 0"
    using assms(4) c(1) fpioa_set_function_step [OF assms(1-3)] by auto
  have u: "unat (of_nat fn :: u8) = fn"
    using assms(2) by (simp add: unat_of_nat)
  note loop = take_function_loop [OF le_refl assms(2,3), of "int number" p, unfolded Let_def]
  have k: "unat (ch_sel (fp_io q k)) \<noteq> fn
      \<and> (unat (ch_sel (fp_io p k)) = fn \<longrightarrow> ch_sel (fp_io q k) = 120) \<and> (unat (ch_sel (fp_io p k)) \<noteq> fn \<longrightarrow> fp_io q k = fp_io p k)"
    if "k < 48" "k \<noteq> number" for k
    using spec [OF loop, of k] that assms(3) by (auto simp: q)
  moreover have "find (\<lambda>i. unat (ch_sel (fp_io q i)) = fn) [0..<48] = Some number"
    by (rule find_first) (use k assms(1) in \<open>auto simp: q c(2) u\<close>)
  ultimately show ?thesis
    by (simp add: q(2)) (simp add: q(1) c(2) u fpioa_get_io_by_function_def)
qed

definition demo_pins :: pins where
  "demo_pins =
    (let c = \<lparr>ch_sel = 120, ds = 0, oe_en = 0, oe_inv = 0, do_sel = 0, do_inv = 0, pu = 0, pd = 0, io_resv0 = 0, sl = 0, ie_en = 0,
         ie_inv = 0, di_inv = 0, st = 0, io_resv1 = 0, pad_di = 0\<rparr>;
         g = \<lparr>input_val = 0, input_en = 0, output_en = 0, output_val = 0, pullup_en = 0, drive = 0, rise_ie = 0, rise_ip = 0, fall_ie = 0,
         fall_ip = 0, high_ie = 0, high_ip = 0, low_ie = 0, low_ip = 0, iof_en = 0, iof_sel = 0, output_xor = 0\<rparr>
     in \<lparr>fp_io = (\<lambda>k. if k = 3 then c\<lparr>ch_sel := 17\<rparr> else c), tie_en = (\<lambda>_. 0), tie_val = (\<lambda>_. 0), gpiohs = g,
         pin_instance = (\<lambda>_. \<lparr>gp_pin = 0, gp_edge = 0, gp_callback = 0, gpiohs_callback = 0, gp_context = 0\<rparr>), plic_regs = (\<lambda>_. 0)\<rparr>)"

theorem fpioa_set_function_exclusive_witness:
  "\<exists>q. fpioa_set_function 27 17 demo_pins = (q, 0) \<and> fpioa_get_io_by_function 17 q = 27 \<and> ch_sel (fp_io q 3) = 120"
proof -
  obtain q r where q: "fpioa_set_function (int 27) 17 demo_pins = (q, r)"
    by (cases "fpioa_set_function (int 27) 17 demo_pins")
  have "unat (ch_sel (fp_io demo_pins 3)) = 17"
    by (simp add: demo_pins_def Let_def)
  with fpioa_set_function_exclusive [OF _ _ _ q] q show ?thesis
    by simp
qed

section \<open>The chip select\<close>

lemma set_function_other:
  assumes "number < 48" and "fn < 256" and "fn \<noteq> 120" and "g \<noteq> fn" and "g \<noteq> 120"
    and "\<And>k. k < 48 \<Longrightarrow> unat (ch_sel (fp_io p k)) \<noteq> g" and "k < 48"
  shows "unat (ch_sel (fp_io (fst (fpioa_set_function (int number) fn p)) k)) \<noteq> g"
proof -
  let ?l = "fold (take_function (int number) fn) [0..<48] p"
  from set_function_raw_io [OF assms(1,2)]
  obtain c where c: "fst (fpioa_set_function_raw (int number) fn ?l) = put_io number c ?l" "ch_sel c = of_nat fn"
    by blast
  have u: "unat (of_nat fn :: u8) = fn"
    using assms(2) by (simp add: unat_of_nat)
  show ?thesis
    using spec [OF take_function_loop [OF le_refl assms(2,3), of "int number" p, unfolded Let_def], of k] assms(4,5,7) assms(6) [OF assms(7)]
    by (cases "int k \<noteq> int number \<and> unat (ch_sel (fp_io p k)) = fn") (auto simp: fpioa_set_function_step [OF assms(1-3)] c u)
qed

text \<open>\<open>fpioa_pin_init\<close> gives no pin to the output 7 of the port, which \<open>SD_CS_HIGH\<close> and \<open>SD_CS_LOW\<close> set: unless it had one before, the
  chip select of the card is that of the SPI controller alone.\<close>

lemma pin_init_no_chip_select:
  assumes "\<And>k. k < 48 \<Longrightarrow> unat (ch_sel (fp_io p k)) \<noteq> FUNC_GPIOHS0 + 7"
  shows "fpioa_get_io_by_function (FUNC_GPIOHS0 + 7) (fpioa_pin_init p) = -1"
proof -
  note oth = set_function_other [where g = "FUNC_GPIOHS0 + 7"]
  have "unat (ch_sel (fp_io (fpioa_pin_init p) k)) \<noteq> FUNC_GPIOHS0 + 7" if "k < 48" for k
    using that oth [of 27 17 p] oth [of 28 4 "fst (fpioa_set_function 27 17 p)"]
      oth [of 26 5 "fst (fpioa_set_function 28 4 (fst (fpioa_set_function 27 17 p)))"]
      oth [of 29 12 "fst (fpioa_set_function 26 5 (fst (fpioa_set_function 28 4 (fst (fpioa_set_function 27 17 p)))))"] assms
    by (simp add: fpioa_pin_init_def)
  then have "find (\<lambda>i. unat (ch_sel (fp_io (fpioa_pin_init p) i)) = FUNC_GPIOHS0 + 7) [0..<48] = None"
    by (auto simp: find_None_iff)
  then show ?thesis
    by (simp add: fpioa_get_io_by_function_def)
qed

section \<open>Bits of the port\<close>

lemma set_gpio_bit_bit:
  assumes "pin < 32"
  shows "bit (set_gpio_bit w pin v) k \<longleftrightarrow> (if k = pin then bit v 0 else bit w k)"
  using assms by (auto simp: set_gpio_bit_def set_bit_offset_def set_bit_mask_def bit_simps dest: bit_imp_le_length)

lemma gpiohs_set_pin_output:
  assumes "pin < 32"
  shows "bit (output_val (gpiohs (gpiohs_set_pin pin v p))) k \<longleftrightarrow> (if k = pin then bit v 0 else bit (output_val (gpiohs p)) k)"
    and "fp_io (gpiohs_set_pin pin v p) = fp_io p"
  using set_gpio_bit_bit [OF assms] by (simp_all add: gpiohs_set_pin_def upd_port_def)

lemma gpiohs_set_drive_mode_output:
  assumes "pin < 32" and "q = gpiohs (gpiohs_set_drive_mode pin GPIO_DM_OUTPUT p)"
  shows "bit (output_en q) k \<longleftrightarrow> k = pin \<or> bit (output_en (gpiohs p)) k"
    and "bit (input_en q) k \<longleftrightarrow> k \<noteq> pin \<and> bit (input_en (gpiohs p)) k"
  using assms set_gpio_bit_bit [OF assms(1)]
  by (auto simp: gpiohs_set_drive_mode_def Let_def upd_port_def fpioa_set_io_pull_def)

end
