(* ===== verification/Spi.thy ===== *)
theory Spi
  imports Pins Mm
begin

unbundle bit_operations_syntax

text \<open>
  The SPI controller of the board (\<open>drivers/sdcard/spi.c\<close>). The controller is a device: \<open>d\<close> gives the effect of writing one of its
  registers and of reading one, which changes the device too, as for the data register. What the controller is taken to do is the
  predicate \<open>controller\<close>, with the device on the other side of the wire as a state that takes and gives bytes; the level of the select line is
  not part of it. The loops that wait for
  the controller have the number of their rounds as a first argument; \<open>None\<close> is a loop that has not ended.
\<close>

section \<open>Registers\<close>

datatype spi_reg = Ctrlr0 | Ctrlr1 | Ssienr | Ser | Baudr | Txflr | Rxflr | Sr | Imr | Dmacr | Dmatdlr | Dmardlr | Dr | Spi_ctrlr0 | Endian

record 'h spi_dev =
  reg_write :: "nat \<Rightarrow> spi_reg \<Rightarrow> u32 \<Rightarrow> 'h \<Rightarrow> 'h"
  reg_read :: "nat \<Rightarrow> spi_reg \<Rightarrow> 'h \<Rightarrow> u32 \<times> 'h"

abbreviation (input) SPI_DEVICE_0 :: nat where "SPI_DEVICE_0 \<equiv> 0"
abbreviation (input) SPI_WORK_MODE_0 :: u32 where "SPI_WORK_MODE_0 \<equiv> 0"
abbreviation (input) SPI_FF_STANDARD :: u32 where "SPI_FF_STANDARD \<equiv> 0"
abbreviation (input) SPI_CHIP_SELECT_0 :: nat where "SPI_CHIP_SELECT_0 \<equiv> 0"
abbreviation (input) SPI_TMOD_TRANS :: u32 where "SPI_TMOD_TRANS \<equiv> 1"
abbreviation (input) SPI_TMOD_RECV :: u32 where "SPI_TMOD_RECV \<equiv> 2"
abbreviation (input) SPI_TMOD_EEROM :: u32 where "SPI_TMOD_EEROM \<equiv> 3"

section \<open>Operations\<close>

definition dfs_offset :: "nat \<Rightarrow> nat" where
  "dfs_offset spi_num = (if spi_num \<in> {0, 1} then 16 else 0)"

definition spi_init :: "'h spi_dev \<Rightarrow> nat \<Rightarrow> u32 \<Rightarrow> u32 \<Rightarrow> u64 \<Rightarrow> u32 \<Rightarrow> 'h \<Rightarrow> 'h" where
  "spi_init d spi_num work_mode frame_format data_bit_length endian h =
    (let (frf_offset, work_mode_offset) =
           (if spi_num \<in> {0, 1} then (21, 6) else if spi_num = 2 then (0, 0) else (22, 8));
         w = reg_write d spi_num;
         (b, h) = reg_read d spi_num Baudr h;
         h = (if b = 0 then w Baudr 0x14 h else h);
         h = w Ser 0 (w Dmardlr 0 (w Dmatdlr 0x10 (w Dmacr 0 (w Imr 0 h))));
         h = w Ssienr 0 h;
         h = w Ctrlr0 (push_bit work_mode_offset work_mode OR push_bit frf_offset frame_format OR
               ucast (push_bit (dfs_offset spi_num) (data_bit_length - 1))) h
     in w Endian endian (w Spi_ctrlr0 0 h))"

definition spi_set_tmod :: "'h spi_dev \<Rightarrow> nat \<Rightarrow> u32 \<Rightarrow> 'h \<Rightarrow> 'h" where
  "spi_set_tmod d spi_num tmod h =
    (let tmod_offset = (if spi_num \<in> {0, 1, 2} then 8 else 10);
         (c, h) = reg_read d spi_num Ctrlr0 h
     in reg_write d spi_num Ctrlr0 (set_bit_mask c (push_bit tmod_offset 3) (push_bit tmod_offset tmod)) h)"

text \<open>The width of a frame in bytes.\<close>

definition spi_get_frame_size :: "u32 \<Rightarrow> nat" where
  "spi_get_frame_size data_bit_length = (if data_bit_length < 8 then 1 else if data_bit_length < 16 then 2 else 4)"

text \<open>The frames of a buffer, least byte first, and the bytes of a frame.\<close>

definition frame_of :: "u8 list \<Rightarrow> u32" where
  "frame_of bs = foldr (\<lambda>b w. ucast b OR push_bit 8 w) bs 0"

definition frame_bytes :: "nat \<Rightarrow> u32 \<Rightarrow> u8 list" where
  "frame_bytes w v = map (\<lambda>i. ucast (drop_bit (8 * i) v)) [0..<w]"

text \<open>The inner loops of the transmission: \<open>k\<close> frames of width \<open>w\<close>. Copying a frame with \<open>kmemmove\<close> from a buffer that is not aligned, or
  loading it as one number, gives the same frame.\<close>

fun push_frames :: "'h spi_dev \<Rightarrow> nat \<Rightarrow> nat \<Rightarrow> nat \<Rightarrow> u8 list \<Rightarrow> 'h \<Rightarrow> 'h" where
  "push_frames d spi_num w 0 bs h = h"
| "push_frames d spi_num w (Suc k) bs h = push_frames d spi_num w k (drop w bs) (reg_write d spi_num Dr (frame_of (take w bs)) h)"

fun send_loop :: "nat \<Rightarrow> 'h spi_dev \<Rightarrow> nat \<Rightarrow> nat \<Rightarrow> u8 list \<Rightarrow> 'h \<Rightarrow> 'h option" where
  "send_loop 0 d spi_num w bs h = (if bs = [] then Some h else None)"
| "send_loop (Suc n) d spi_num w bs h =
    (if bs = [] then Some h
     else
       let (lvl, h) = reg_read d spi_num Txflr h;
           fifo_len = min (unat (32 - lvl)) (length bs);
           k = fifo_len div w
       in send_loop n d spi_num w (drop (k * w) bs) (push_frames d spi_num w k bs h))"

fun wait_idle :: "nat \<Rightarrow> 'h spi_dev \<Rightarrow> nat \<Rightarrow> 'h \<Rightarrow> 'h option" where
  "wait_idle 0 d spi_num h = None"
| "wait_idle (Suc n) d spi_num h =
    (let (sr, h) = reg_read d spi_num Sr h in if sr AND 5 \<noteq> 4 then wait_idle n d spi_num h else Some h)"

definition frame_width :: "'h spi_dev \<Rightarrow> nat \<Rightarrow> 'h \<Rightarrow> nat \<times> 'h" where
  "frame_width d spi_num h =
    (let (c, h) = reg_read d spi_num Ctrlr0 h in (spi_get_frame_size (drop_bit (dfs_offset spi_num) c AND 0x1f), h))"

definition spi_send_data_normal :: "nat \<Rightarrow> 'h spi_dev \<Rightarrow> nat \<Rightarrow> nat \<Rightarrow> u8 list \<Rightarrow> 'h \<Rightarrow> 'h option" where
  "spi_send_data_normal n d spi_num chip_select tx h =
    (let h = spi_set_tmod d spi_num SPI_TMOD_TRANS h;
         (w, h) = frame_width d spi_num h;
         h = reg_write d spi_num Ssienr 1 h;
         h = reg_write d spi_num Ser (push_bit chip_select 1) h
     in case send_loop n d spi_num w tx h of
          None \<Rightarrow> None
        | Some h \<Rightarrow>
            (case wait_idle n d spi_num h of
               None \<Rightarrow> None
             | Some h \<Rightarrow> Some (reg_write d spi_num Ssienr 0 (reg_write d spi_num Ser 0 h))))"

text \<open>The bytes are copied to a page, sent, and the page is given back; what the page holds in between is not read by anyone else. The state is the device
  and the kernel.\<close>

definition spi_send_data_standard :: "nat \<Rightarrow> 'h spi_dev \<Rightarrow> nat \<Rightarrow> nat \<Rightarrow> u8 list \<Rightarrow> u8 list \<Rightarrow> 'h \<times> 'a mmkernel_scheme \<Rightarrow>
    ('h \<times> 'a mmkernel_scheme, unit) outcome" where
  "spi_send_data_standard n d spi_num chip_select cmd tx s =
    (case allocPage (snd s) of
       Ret k p \<Rightarrow>
         (case spi_send_data_normal n d spi_num chip_select (cmd @ tx) (fst s) of
            None \<Rightarrow> Panic (fst s, k)
          | Some h \<Rightarrow> Ret (h, freePage (p - PAGE_SIZE) k) ())
     | Blocked k \<Rightarrow> Blocked (fst s, k)
     | r \<Rightarrow> Panic (fst s, out_state r))"

text \<open>The command of a reception, and the bytes that come in.\<close>

fun cmd_loop :: "nat \<Rightarrow> 'h spi_dev \<Rightarrow> nat \<Rightarrow> nat \<Rightarrow> nat \<Rightarrow> nat \<Rightarrow> u8 list \<Rightarrow> 'h \<Rightarrow> 'h option" where
  "cmd_loop 0 d spi_num chip_select w v_cmd_len cmd h = (if v_cmd_len = 0 then Some h else None)"
| "cmd_loop (Suc n) d spi_num chip_select w v_cmd_len cmd h =
    (if v_cmd_len = 0 then Some h
     else
       let (lvl, h) = reg_read d spi_num Txflr h;
           k = min (unat (32 - lvl)) v_cmd_len;
           h = push_frames d spi_num w k cmd h
       in cmd_loop n d spi_num chip_select w (v_cmd_len - k) (drop (k * w) cmd) (reg_write d spi_num Ser (push_bit chip_select 1) h))"

fun pop_frames :: "'h spi_dev \<Rightarrow> nat \<Rightarrow> nat \<Rightarrow> nat \<Rightarrow> 'h \<Rightarrow> u8 list \<times> 'h" where
  "pop_frames d spi_num w 0 h = ([], h)"
| "pop_frames d spi_num w (Suc k) h =
    (let (v, h) = reg_read d spi_num Dr h; (bs, h) = pop_frames d spi_num w k h in (frame_bytes w v @ bs, h))"

fun recv_loop :: "nat \<Rightarrow> 'h spi_dev \<Rightarrow> nat \<Rightarrow> nat \<Rightarrow> nat \<Rightarrow> 'h \<Rightarrow> ('h \<times> u8 list) option" where
  "recv_loop 0 d spi_num w v_rx_len h = (if v_rx_len = 0 then Some (h, []) else None)"
| "recv_loop (Suc n) d spi_num w v_rx_len h =
    (if v_rx_len = 0 then Some (h, [])
     else
       let (lvl, h) = reg_read d spi_num Rxflr h;
           k = min (unat lvl) v_rx_len;
           (bs, h) = pop_frames d spi_num w k h
       in map_option (\<lambda>(h, cs). (h, bs @ cs)) (recv_loop n d spi_num w (v_rx_len - k) h))"

definition spi_receive_data_standard :: "nat \<Rightarrow> 'h spi_dev \<Rightarrow> nat \<Rightarrow> nat \<Rightarrow> u8 list \<Rightarrow> nat \<Rightarrow> 'h \<Rightarrow> ('h \<times> u8 list) option" where
  "spi_receive_data_standard n d spi_num chip_select cmd rx_len h =
    (let h = spi_set_tmod d spi_num (if cmd = [] then SPI_TMOD_RECV else SPI_TMOD_EEROM) h;
         (w, h) = frame_width d spi_num h;
         v_rx_len = rx_len div w;
         h = reg_write d spi_num Ctrlr1 (of_nat v_rx_len - 1) h;
         h = reg_write d spi_num Ssienr 1 h
     in case cmd_loop n d spi_num chip_select w (length cmd div w) cmd h of
          None \<Rightarrow> None
        | Some h \<Rightarrow>
            let h = (if cmd = [] then reg_write d spi_num Ser (push_bit chip_select 1) (reg_write d spi_num Dr 0xffffffff h) else h)
            in map_option (\<lambda>(h, bs). (reg_write d spi_num Ssienr 0 (reg_write d spi_num Ser 0 h), bs)) (recv_loop n d spi_num w v_rx_len h))"

section \<open>What the controller does\<close>

text \<open>The device on the wire, one byte at a time in either direction, and the state of the controller: the two queues, the number of bytes
  that a reception still has to fetch, and what was last written to the control registers.\<close>

record 'c chip =
  give :: "u8 \<Rightarrow> 'c \<Rightarrow> 'c"
  fetch :: "'c \<Rightarrow> u8 \<times> 'c"

record 'c spi_view =
  sv_ctrl :: u32
  sv_count :: u32
  sv_on :: bool
  sv_sel :: bool
  sv_tx :: "u8 list"
  sv_rx :: "u8 list"
  sv_left :: nat
  sv_chip :: 'c

definition tmod_of :: "'c spi_view \<Rightarrow> u32" where
  "tmod_of v = drop_bit 8 (sv_ctrl v) AND 3"

text \<open>There is a byte to move over the wire.\<close>

definition movable :: "'c spi_view \<Rightarrow> bool" where
  "movable v \<longleftrightarrow> sv_on v \<and> sv_sel v \<and> (tmod_of v = SPI_TMOD_TRANS \<and> sv_tx v \<noteq> [] \<or> tmod_of v = SPI_TMOD_RECV \<and> 0 < sv_left v)"

text \<open>One byte over the wire, in the direction of the mode. A byte that comes in while the queue of 32 bytes is full is lost.\<close>

definition shift :: "'c chip \<Rightarrow> 'c spi_view \<Rightarrow> 'c spi_view" where
  "shift C v =
    (if \<not> movable v then v
     else if tmod_of v = SPI_TMOD_TRANS then v\<lparr>sv_tx := tl (sv_tx v), sv_chip := give C (hd (sv_tx v)) (sv_chip v)\<rparr>
     else v\<lparr>sv_rx := (if length (sv_rx v) < 32 then sv_rx v @ [fst (fetch C (sv_chip v))] else sv_rx v),
            sv_left := sv_left v - 1, sv_chip := snd (fetch C (sv_chip v))\<rparr>)"

fun reg_effect :: "spi_reg \<Rightarrow> u32 \<Rightarrow> 'c spi_view \<Rightarrow> 'c spi_view" where
  "reg_effect Ctrlr0 x v = v\<lparr>sv_ctrl := x\<rparr>"
| "reg_effect Ctrlr1 x v = v\<lparr>sv_count := x\<rparr>"
| "reg_effect Ssienr x v = (if x = 0 then v\<lparr>sv_on := False, sv_tx := [], sv_rx := [], sv_left := 0\<rparr> else v\<lparr>sv_on := True\<rparr>)"
| "reg_effect Ser x v = v\<lparr>sv_sel := (x \<noteq> 0)\<rparr>"
| "reg_effect Dr x v =
    (if tmod_of v = SPI_TMOD_RECV then v\<lparr>sv_left := unat (sv_count v) + 1\<rparr>
     else if length (sv_tx v) < 32 then v\<lparr>sv_tx := sv_tx v @ [ucast x]\<rparr> else v)"
| "reg_effect _ x v = v"

text \<open>The status says idle only when the queue is empty.\<close>

fun reg_value :: "spi_reg \<Rightarrow> 'c spi_view \<Rightarrow> u32 \<Rightarrow> bool" where
  "reg_value Ctrlr0 v x \<longleftrightarrow> x = sv_ctrl v"
| "reg_value Txflr v x \<longleftrightarrow> x = of_nat (length (sv_tx v))"
| "reg_value Rxflr v x \<longleftrightarrow> x = of_nat (length (sv_rx v))"
| "reg_value Sr v x \<longleftrightarrow> (x AND 5 = 4 \<longrightarrow> sv_tx v = [])"
| "reg_value Dr v x \<longleftrightarrow> sv_rx v = [] \<or> ucast x = hd (sv_rx v)"
| "reg_value _ v x \<longleftrightarrow> True"

text \<open>The controller works at its own speed, within two bounds. It is not faster than the processor: between two accesses to its registers
  it moves one byte or none; a byte takes eight times the divider of the clock, 20 or more, a register access a few cycles. And it does not stop: while
  there is a byte to move, or the status says busy with an empty queue, fewer than \<open>slow\<close> polls in a row find that nothing has happened; \<open>lag\<close> is how many are still to come.\<close>

definition controller :: "'h spi_dev \<Rightarrow> 'c chip \<Rightarrow> ('h \<Rightarrow> 'c spi_view) \<Rightarrow> ('h \<Rightarrow> nat) \<Rightarrow> nat \<Rightarrow> bool" where
  "controller d C view lag slow \<longleftrightarrow>
    (\<forall>h. lag h < slow)
    \<and> (\<forall>r x h. view (reg_write d SPI_DEVICE_0 r x h) \<in> {reg_effect r x (view h), shift C (reg_effect r x (view h))})
    \<and> (\<forall>r h x h'. reg_read d SPI_DEVICE_0 r h = (x, h') \<longrightarrow>
        (\<exists>v \<in> {view h, shift C (view h)}. reg_value r v x \<and> view h' = (if r = Dr then v\<lparr>sv_rx := tl (sv_rx v)\<rparr> else v)
          \<and> (r \<in> {Txflr, Rxflr, Sr} \<and> (movable (view h) \<or> r = Sr \<and> sv_tx (view h) = [] \<and> x AND 5 \<noteq> 4) \<longrightarrow> v \<noteq> view h \<or> lag h' < lag h)))"

lemma controller_lag: "controller d C view lag slow \<Longrightarrow> lag h < slow"
  by (simp add: controller_def)

lemma controller_write:
  assumes "controller d C view lag slow"
  shows "view (reg_write d 0 r x h) = reg_effect r x (view h) \<or> view (reg_write d 0 r x h) = shift C (reg_effect r x (view h))"
  using assms unfolding controller_def by blast

lemma controller_read:
  assumes "controller d C view lag slow" and "reg_read d 0 r h = (x, h')"
  obtains v where "v = view h \<or> v = shift C (view h)" and "reg_value r v x"
    and "view h' = (if r = Dr then v\<lparr>sv_rx := tl (sv_rx v)\<rparr> else v)"
  using assms unfolding controller_def by (metis empty_iff insert_iff)

lemma level_read:
  assumes "controller d C view lag slow" and "reg_read d 0 r h = (x, h')" and "r \<in> {Txflr, Rxflr, Sr}"
  shows "view h' = view h \<or> view h' = shift C (view h)" and "reg_value r (view h') x"
    and "movable (view h) \<or> r = Sr \<and> sv_tx (view h) = [] \<and> x AND 5 \<noteq> 4 \<Longrightarrow> view h' = view h \<Longrightarrow> lag h' < lag h"
proof -
  obtain v where v: "v \<in> {view h, shift C (view h)}" "reg_value r v x" "view h' = (if r = Dr then v\<lparr>sv_rx := tl (sv_rx v)\<rparr> else v)"
    "r \<in> {Txflr, Rxflr, Sr} \<and> (movable (view h) \<or> r = Sr \<and> sv_tx (view h) = [] \<and> x AND 5 \<noteq> 4) \<longrightarrow> v \<noteq> view h \<or> lag h' < lag h"
    using assms(1,2) unfolding controller_def by blast
  moreover have "view h' = v"
    using v(3) assms(3) by auto
  ultimately show "view h' = view h \<or> view h' = shift C (view h)" "reg_value r (view h') x"
    "movable (view h) \<or> r = Sr \<and> sv_tx (view h) = [] \<and> x AND 5 \<noteq> 4 \<Longrightarrow> view h' = view h \<Longrightarrow> lag h' < lag h"
    using assms(3) by auto
qed

lemma shift_off: "\<not> sv_on v \<or> \<not> sv_sel v \<Longrightarrow> shift C v = v"
  by (auto simp: shift_def movable_def)

text \<open>A controller that is disabled, with nothing in its queues.\<close>

definition resting :: "'c spi_view \<Rightarrow> bool" where
  "resting v \<longleftrightarrow> \<not> sv_on v \<and> sv_tx v = [] \<and> sv_rx v = [] \<and> sv_left v = 0"

lemma resting_write:
  assumes "controller d C view lag slow" and "\<not> sv_on (view h)" and "r \<notin> {Ssienr, Dr}"
  shows "view (reg_write d 0 r x h) = reg_effect r x (view h)"
proof -
  have "\<not> sv_on (reg_effect r x (view h))"
    using assms(2,3) by (cases r) auto
  then show ?thesis
    using controller_write [OF assms(1), of r x h] shift_off [where v = "reg_effect r x (view h)" and C = C] by metis
qed

lemma off_read:
  assumes "controller d C view lag slow" and "\<not> sv_on (view h)" and "reg_read d 0 r h = (x, h')" and "r \<noteq> Dr"
  shows "view h' = view h \<and> reg_value r (view h) x"
  using controller_read [OF assms(1,3)] shift_off [where v = "view h" and C = C] assms(2,4) by metis

lemma disable_view:
  assumes "controller d C view lag slow"
  shows "view (reg_write d 0 Ssienr 0 h) = (view h)\<lparr>sv_on := False, sv_tx := [], sv_rx := [], sv_left := 0\<rparr>"
  using controller_write [OF assms, of Ssienr 0 h] by (auto simp: shift_off)

lemma spi_init_view:
  assumes c: "controller d C view lag slow" and r: "resting (view h)"
  shows "view (spi_init d 0 0 0 8 0 h) = (view h)\<lparr>sv_sel := False, sv_ctrl := 0x70000\<rparr>"
proof -
  obtain b h1 where b: "reg_read d 0 Baudr h = (b, h1)"
    by (cases "reg_read d 0 Baudr h")
  have v1: "view h1 = view h"
    using off_read [OF c _ b] r by (simp add: resting_def)
  define h2 where "h2 = (if b = 0 then reg_write d 0 Baudr 0x14 h1 else h1)"
  note w = resting_write [OF c]
  have v2: "view h2 = view h"
    using w [of h1 Baudr] r by (simp add: h2_def v1 resting_def)
  define h3 where "h3 = reg_write d 0 Ser 0 (reg_write d 0 Dmardlr 0 (reg_write d 0 Dmatdlr 0x10 (reg_write d 0 Dmacr 0 (reg_write d 0 Imr 0 h2))))"
  have v3: "view h3 = (view h)\<lparr>sv_sel := False\<rparr>"
    using r unfolding h3_def by (simp add: w v2 resting_def)
  define h4 where "h4 = reg_write d 0 Ssienr 0 h3"
  have v4: "view h4 = (view h)\<lparr>sv_sel := False\<rparr>"
    using r by (simp add: h4_def disable_view [OF c] v3 resting_def)
  have "view (reg_write d 0 Endian 0 (reg_write d 0 Spi_ctrlr0 0 (reg_write d 0 Ctrlr0 0x70000 h4))) = (view h)\<lparr>sv_sel := False, sv_ctrl := 0x70000\<rparr>"
    using r by (simp add: w v4 resting_def)
  then show ?thesis
    unfolding spi_init_def by (simp add: b Let_def h2_def [symmetric] h3_def [symmetric] h4_def [symmetric] dfs_offset_def push_bit_eq_mult)
qed

lemma spi_set_tmod_view:
  assumes c: "controller d C view lag slow" and "\<not> sv_on (view h)" and "sv_ctrl (view h) = 0x70000" and "t \<in> {1, 2}"
  shows "view (spi_set_tmod d 0 t h) = (view h)\<lparr>sv_ctrl := 0x70000 + 0x100 * t\<rparr>"
proof -
  obtain x h1 where x: "reg_read d 0 Ctrlr0 h = (x, h1)"
    by (cases "reg_read d 0 Ctrlr0 h")
  have v: "view h1 = view h" "x = 0x70000"
    using off_read [OF c assms(2) x] assms(3) by auto
  have "set_bit_mask 0x70000 (push_bit 8 3) (push_bit 8 t) = 0x70000 + 0x100 * t"
    using assms(4) by (auto simp: set_bit_mask_def push_bit_eq_mult)
  then show ?thesis
    using resting_write [OF c, of h1 Ctrlr0] assms(2) by (simp add: spi_set_tmod_def x v)
qed

lemma frame_width_view:
  assumes c: "controller d C view lag slow" and "\<not> sv_on (view h)" and "sv_ctrl (view h) = 0x70000 + 0x100 * t" and "t \<in> {1, 2}"
  obtains h' where "frame_width d 0 h = (1, h')" and "view h' = view h"
proof -
  obtain x h1 where x: "reg_read d 0 Ctrlr0 h = (x, h1)"
    by (cases "reg_read d 0 Ctrlr0 h")
  have v: "view h1 = view h" "x = 0x70000 + 0x100 * t"
    using off_read [OF c assms(2) x] assms(3) by auto
  have "spi_get_frame_size (drop_bit 16 x AND 0x1f) = 1"
    using assms(4) by (auto simp: v spi_get_frame_size_def drop_bit_eq_div)
  then show thesis
    using that [of h1] by (simp add: frame_width_def x v(1) dfs_offset_def)
qed

text \<open>The end of a transfer: the device is deselected and the controller disabled.\<close>

lemma close_view:
  assumes c: "controller d C view lag slow" and "sv_chip (view h) = e"
  shows "resting (view (reg_write d 0 Ssienr 0 (reg_write d 0 Ser 0 h))) \<and> sv_chip (view (reg_write d 0 Ssienr 0 (reg_write d 0 Ser 0 h))) = e"
proof -
  have "view (reg_write d 0 Ser 0 h) = (view h)\<lparr>sv_sel := False\<rparr>"
    using controller_write [OF c, of Ser 0 h] by (auto simp: shift_off)
  then show ?thesis
    using assms(2) by (simp add: disable_view [OF c] resting_def)
qed

lemma enable_view:
  assumes c: "controller d C view lag slow" and "\<not> sv_sel (view h)"
  shows "view (reg_write d 0 Ssienr 1 h) = (view h)\<lparr>sv_on := True\<rparr>"
  using controller_write [OF c, of Ssienr 1 h] assms(2) by (auto simp: shift_off)

text \<open>A controller that is set up for a mode.\<close>

lemma mode_view:
  assumes c: "controller d C view lag slow" and r: "resting (view h)" and "t \<in> {1, 2}"
  obtains h' where "frame_width d 0 (spi_set_tmod d 0 t (spi_init d 0 0 0 8 0 h)) = (1, h')"
    and "view h' = (view h)\<lparr>sv_sel := False, sv_ctrl := 0x70000 + 0x100 * t\<rparr>" and "tmod_of (view h') = t"
proof -
  let ?h = "spi_set_tmod d 0 t (spi_init d 0 0 0 8 0 h)"
  have v: "view ?h = (view h)\<lparr>sv_sel := False, sv_ctrl := 0x70000 + 0x100 * t\<rparr>"
    using spi_set_tmod_view [OF c _ _ assms(3)] r by (simp add: spi_init_view [OF c r] resting_def)
  moreover have "tmod_of (view ?h) = t"
    using assms(3) by (auto simp: v tmod_of_def drop_bit_eq_div)
  ultimately show thesis
    using frame_width_view [OF c _ _ assms(3), of ?h] r that by (auto simp: resting_def)
qed

text \<open>Polls: when the rounds suffice for \<open>b\<close> items and one is done, they suffice for the others.\<close>

lemma rounds_left:
  fixes slow :: nat
  assumes "(b - 1) * slow + l < Suc n" and "b' < b" and "l' < slow"
  shows "b' = 0 \<or> (b' - 1) * slow + l' < n"
proof (cases b')
  case (Suc k)
  have "Suc k * slow \<le> (b - 1) * slow"
    using assms(2) Suc by (intro mult_le_mono1) simp
  then show ?thesis
    using assms(1,3) Suc by simp
qed simp

lemma rounds_enough: "b * slow \<le> n \<Longrightarrow> l < slow \<Longrightarrow> b = 0 \<or> (b - 1) * slow + l < (n :: nat)"
  by (cases b) auto

section \<open>Transmission\<close>

text \<open>While bytes are sent the device on the wire is on its way to \<open>c\<close>: it gets there when the queue is empty.\<close>

definition sending :: "'c chip \<Rightarrow> 'c \<Rightarrow> 'c spi_view \<Rightarrow> bool" where
  "sending C c v \<longleftrightarrow> tmod_of v = 1 \<and> sv_on v \<and> sv_sel v \<and> length (sv_tx v) \<le> 32 \<and> fold (give C) (sv_tx v) (sv_chip v) = c"

lemma sending_shift: "sending C c v \<Longrightarrow> sending C c (shift C v) \<and> sv_tx (shift C v) = tl (sv_tx v)"
  by (cases "sv_tx v") (auto simp: sending_def shift_def movable_def tmod_of_def)

lemma sending_movable: "sending C c v \<Longrightarrow> movable v \<longleftrightarrow> sv_tx v \<noteq> []"
  by (simp add: sending_def movable_def)

lemma ucast_frame [simp]: "ucast (frame_of [b]) = b"
  by (rule bit_word_eqI) (auto simp: frame_of_def bit_simps)

lemma push_frames_sending:
  assumes c: "controller d C view lag slow"
  shows "sending C e (view h) \<Longrightarrow> length (sv_tx (view h)) + k \<le> 32 \<Longrightarrow> k \<le> length bs \<Longrightarrow>
    sending C (fold (give C) (take k bs) e) (view (push_frames d 0 1 k bs h))"
proof (induction k arbitrary: e bs h)
  case (Suc k)
  obtain b bs' where b: "bs = b # bs'"
    using Suc.prems(3) by (cases bs) auto
  let ?h = "reg_write d 0 Dr (frame_of [b]) h" and ?v = "reg_effect Dr (frame_of [b]) (view h)"
  have e: "sending C (give C b e) ?v" "sv_tx ?v = sv_tx (view h) @ [b]"
    using Suc.prems by (auto simp: sending_def tmod_of_def)
  have "sending C (give C b e) (view ?h)" "length (sv_tx (view ?h)) \<le> Suc (length (sv_tx (view h)))"
    using controller_write [OF c, of Dr "frame_of [b]" h] sending_shift [OF e(1)] e by auto
  then show ?case
    using Suc.IH [of "give C b e" ?h bs'] Suc.prems by (simp add: b)
qed simp

text \<open>A round finds room for a byte, or the queue is full and the controller has come closer to moving one.\<close>

lemma send_loop_sending:
  assumes c: "controller d C view lag slow"
  shows "sending C e (view h) \<Longrightarrow> length bs = 0 \<or> (length bs - 1) * slow + lag h < n \<Longrightarrow>
    \<exists>h'. send_loop n d 0 1 bs h = Some h' \<and> sending C (fold (give C) bs e) (view h')"
proof (induction n arbitrary: bs e h)
  case (Suc n)
  show ?case
  proof (cases "bs = []")
    case False
    obtain x h1 where x: "reg_read d 0 Txflr h = (x, h1)"
      by (cases "reg_read d 0 Txflr h")
    have rd: "view h1 = view h \<or> view h1 = shift C (view h)" "x = of_nat (length (sv_tx (view h1)))"
      "movable (view h) \<Longrightarrow> view h1 = view h \<Longrightarrow> lag h1 < lag h"
      using level_read [OF c x] by auto
    have s: "sending C e (view h1)"
      using rd(1) sending_shift [OF Suc.prems(1)] Suc.prems(1) by auto
    then have l: "length (sv_tx (view h1)) \<le> 32"
      by (simp add: sending_def)
    let ?k = "min (unat (32 - x)) (length bs)"
    have u: "unat (32 - x) = 32 - length (sv_tx (view h1))"
      using l by (simp add: rd(2) unat_sub word_le_nat_alt unat_of_nat take_bit_nat_eq_self)
    have p: "sending C (fold (give C) (take ?k bs) e) (view (push_frames d 0 1 ?k bs h1))"
      using push_frames_sending [OF c s, of ?k bs] u l by simp
    have r: "(length bs - 1) * slow + lag h < Suc n"
      using Suc.prems(2) False by simp
    have "length (drop ?k bs) = 0 \<or> (length (drop ?k bs) - 1) * slow + lag (push_frames d 0 1 ?k bs h1) < n"
    proof (cases "length (sv_tx (view h1)) = 32")
      case True
      then have "view h1 = view h"
        using rd(1) sending_shift [OF Suc.prems(1)] Suc.prems(1) by (auto simp: sending_def)
      moreover have "movable (view h)"
        using True calculation sending_movable [OF Suc.prems(1)] by auto
      ultimately have "lag h1 < lag h"
        using rd(3) by blast
      then show ?thesis
        using r True u by simp
    next
      case False
      then have "length (drop ?k bs) < length bs"
        using l u \<open>bs \<noteq> []\<close> by auto
      then show ?thesis
        using rounds_left [OF r] controller_lag [OF c] by blast
    qed
    from Suc.IH [OF p this] obtain h' where h': "send_loop n d 0 1 (drop ?k bs) (push_frames d 0 1 ?k bs h1) = Some h'"
      "sending C (fold (give C) (drop ?k bs) (fold (give C) (take ?k bs) e)) (view h')"
      by blast
    have "fold (give C) (drop ?k bs) (fold (give C) (take ?k bs) e) = fold (give C) bs e"
      by (metis append_take_drop_id comp_apply fold_append)
    with h' show ?thesis
      using False by (simp add: x Let_def)
  qed (use Suc.prems in simp)
qed simp

lemma wait_idle_sending:
  assumes c: "controller d C view lag slow"
  shows "sending C e (view h) \<Longrightarrow> length (sv_tx (view h)) * slow + lag h < n \<Longrightarrow>
    \<exists>h'. wait_idle n d 0 h = Some h' \<and> sending C e (view h') \<and> sv_tx (view h') = []"
proof (induction n arbitrary: h)
  case (Suc n)
  obtain x h1 where x: "reg_read d 0 Sr h = (x, h1)"
    by (cases "reg_read d 0 Sr h")
  have rd: "view h1 = view h \<or> view h1 = shift C (view h)" "x AND 5 = 4 \<longrightarrow> sv_tx (view h1) = []"
    "x AND 5 \<noteq> 4 \<Longrightarrow> view h1 = view h \<Longrightarrow> lag h1 < lag h"
    using level_read [OF c x] sending_movable [OF Suc.prems(1)] by auto
  have s: "sending C e (view h1)" "view h1 = view h \<or> sv_tx (view h) \<noteq> [] \<and> sv_tx (view h1) = tl (sv_tx (view h))"
    using rd(1) sending_shift [OF Suc.prems(1)] Suc.prems(1) sending_movable [OF Suc.prems(1)] by (auto simp: shift_def)
  show ?case
  proof (cases "x AND 5 = 4")
    case False
    have "length (sv_tx (view h1)) * slow + lag h1 < n"
    proof (cases "view h1 = view h")
      case True
      then show ?thesis
        using rd(3) [OF False] Suc.prems(2) by simp
    next
      case moved: False
      then obtain b bs where "sv_tx (view h) = b # bs" "sv_tx (view h1) = bs"
        using s(2) by (cases "sv_tx (view h)") auto
      then show ?thesis
        using Suc.prems(2) controller_lag [OF c, of h1] by simp
    qed
    then show ?thesis
      using Suc.IH [of h1] s(1) False by (simp add: x)
  qed (use s(1) rd(2) in \<open>simp add: x\<close>)
qed simp

lemma spi_send_ok:
  assumes c: "controller d C view lag slow" and r: "resting (view h)" and "length bs * slow \<le> n" and "33 * slow \<le> n"
  shows "\<exists>h'. spi_send_data_normal n d 0 0 bs (spi_init d 0 0 0 8 0 h) = Some h' \<and> resting (view h')
    \<and> sv_chip (view h') = fold (give C) bs (sv_chip (view h))"
proof -
  obtain h1 where h1: "frame_width d 0 (spi_set_tmod d 0 1 (spi_init d 0 0 0 8 0 h)) = (1, h1)"
    "view h1 = (view h)\<lparr>sv_sel := False, sv_ctrl := 0x70000 + 0x100 * 1\<rparr>" "tmod_of (view h1) = 1"
    using mode_view [OF c r, of 1] by blast
  let ?h2 = "reg_write d 0 Ssienr 1 h1"
  have v2: "view ?h2 = (view h1)\<lparr>sv_on := True\<rparr>"
    by (rule enable_view [OF c]) (simp add: h1(2))
  let ?h3 = "reg_write d 0 Ser 1 ?h2"
  have "sending C (sv_chip (view h)) (reg_effect Ser 1 (view ?h2))"
    using r h1(3) by (simp add: sending_def v2 h1(2) resting_def tmod_of_def)
  then have "sending C (sv_chip (view h)) (view ?h3)"
    using controller_write [OF c, of Ser 1 ?h2] sending_shift by fastforce
  then obtain h4 where h4: "send_loop n d 0 1 bs ?h3 = Some h4" "sending C (fold (give C) bs (sv_chip (view h))) (view h4)"
    using send_loop_sending [OF c _ rounds_enough [OF assms(3) controller_lag [OF c]]] by blast
  have "length (sv_tx (view h4)) * slow \<le> 32 * slow"
    using h4(2) by (intro mult_le_mono1) (simp add: sending_def)
  then have "length (sv_tx (view h4)) * slow + lag h4 < n"
    using controller_lag [OF c, of h4] assms(4) by linarith
  then obtain h5 where h5: "wait_idle n d 0 h4 = Some h5" "sending C (fold (give C) bs (sv_chip (view h))) (view h5)" "sv_tx (view h5) = []"
    using wait_idle_sending [OF c h4(2)] by blast
  have "sv_chip (view h5) = fold (give C) bs (sv_chip (view h))"
    using h5(2,3) by (simp add: sending_def)
  from close_view [OF c this] show ?thesis
    by (simp add: spi_send_data_normal_def h1(1) h4(1) h5(1) Let_def del: One_nat_def)
qed

section \<open>Reception\<close>

primrec fetches :: "'c chip \<Rightarrow> nat \<Rightarrow> 'c \<Rightarrow> u8 list \<times> 'c" where
  "fetches C 0 c = ([], c)"
| "fetches C (Suc n) c = (let (b, c) = fetch C c; (bs, c) = fetches C n c in (b # bs, c))"

lemma length_fetches [simp]: "length (fst (fetches C n c)) = n"
  by (induction n arbitrary: c) (auto simp: split_beta)

text \<open>While bytes are received, \<open>bs\<close> are those that the driver has still to take, and \<open>c\<close> is the device after the last of them. No
  byte is lost as long as there is room in the queue.\<close>

definition receiving :: "'c chip \<Rightarrow> u8 list \<Rightarrow> 'c \<Rightarrow> 'c spi_view \<Rightarrow> bool" where
  "receiving C bs c v \<longleftrightarrow> tmod_of v = 2 \<and> sv_on v \<and> sv_sel v \<and> sv_rx v @ fst (fetches C (sv_left v) (sv_chip v)) = bs
    \<and> snd (fetches C (sv_left v) (sv_chip v)) = c"

lemma receiving_length: "receiving C bs c v \<Longrightarrow> length bs = length (sv_rx v) + sv_left v"
  by (auto simp: receiving_def)

lemma receiving_movable: "receiving C bs c v \<Longrightarrow> movable v \<longleftrightarrow> 0 < sv_left v"
  by (simp add: receiving_def movable_def)

lemma receiving_shift:
  assumes "receiving C bs c v" and "length (sv_rx v) < 32"
  shows "receiving C bs c (shift C v)" and "\<exists>ys. sv_rx (shift C v) = sv_rx v @ ys \<and> length ys = (if 0 < sv_left v then 1 else 0)"
proof -
  have "receiving C bs c (shift C v) \<and> (\<exists>ys. sv_rx (shift C v) = sv_rx v @ ys \<and> length ys = (if 0 < sv_left v then 1 else 0))"
  proof (cases "sv_left v")
    case 0
    then have "shift C v = v"
      using receiving_movable [OF assms(1)] by (simp add: shift_def)
    then show ?thesis
      using assms(1) 0 by simp
  next
    case (Suc n)
    then have "shift C v = v\<lparr>sv_rx := sv_rx v @ [fst (fetch C (sv_chip v))], sv_left := n, sv_chip := snd (fetch C (sv_chip v))\<rparr>"
      using assms receiving_movable [OF assms(1)] by (simp add: shift_def receiving_def)
    then show ?thesis
      using assms(1) Suc by (auto simp: receiving_def split_beta tmod_of_def)
  qed
  then show "receiving C bs c (shift C v)" "\<exists>ys. sv_rx (shift C v) = sv_rx v @ ys \<and> length ys = (if 0 < sv_left v then 1 else 0)"
    by simp_all
qed

text \<open>Taking bytes out of a queue that is not full keeps it from filling up: each access brings one byte at most and takes one.\<close>

lemma pop_frames_receiving:
  assumes c: "controller d C view lag slow"
  shows "receiving C bs e (view h) \<Longrightarrow> k \<le> length (sv_rx (view h)) \<Longrightarrow> length (sv_rx (view h)) < 32 \<Longrightarrow>
    \<exists>h'. pop_frames d 0 1 k h = (take k bs, h') \<and> receiving C (drop k bs) e (view h') \<and> length (sv_rx (view h')) \<le> length (sv_rx (view h))"
proof (induction k arbitrary: bs h)
  case (Suc k)
  obtain x h1 where x: "reg_read d 0 Dr h = (x, h1)"
    by (cases "reg_read d 0 Dr h")
  obtain v where v: "v = view h \<or> v = shift C (view h)" "reg_value Dr v x" "view h1 = v\<lparr>sv_rx := tl (sv_rx v)\<rparr>"
    by (rule controller_read [OF c x]) simp
  note sh = receiving_shift [OF Suc.prems(1,3)]
  obtain ys where s: "receiving C bs e v" "sv_rx v = sv_rx (view h) @ ys" "length ys \<le> 1"
    using v(1) sh Suc.prems(1) by (auto split: if_splits)
  obtain b rx where b: "sv_rx v = b # rx" "k \<le> length rx" "length rx \<le> length (sv_rx (view h))"
    using Suc.prems(2) s(2,3) by (cases "sv_rx (view h)") auto
  have bs: "bs = b # tl bs" "ucast x = b"
    using s(1) b(1) v(2) by (auto simp: receiving_def)
  have h1: "receiving C (tl bs) e (view h1)" "k \<le> length (sv_rx (view h1))" "length (sv_rx (view h1)) < 32"
    using s(1) b Suc.prems(3) by (auto simp: receiving_def v(3) tmod_of_def)
  from Suc.IH [OF h1] obtain h' where h': "pop_frames d 0 1 k h1 = (take k (tl bs), h')" "receiving C (drop k (tl bs)) e (view h')"
    "length (sv_rx (view h')) \<le> length (sv_rx (view h1))"
    by blast
  moreover have "length (sv_rx (view h1)) \<le> length (sv_rx (view h))"
    using b(1,3) by (simp add: v(3))
  ultimately show ?case
    using bs by (cases bs) (auto simp: x frame_bytes_def)
qed simp

text \<open>How full the queue can be when \<open>p\<close> of at most 512 bytes have been taken: the more, the longer the rounds before were, and the more bytes
  they took.\<close>

lemma queue_bound:
  fixes R L p :: nat
  assumes "R * R + R \<le> 2 * p + 2" and "R \<le> L" and "L \<le> R + 1" and "L + p \<le> 512"
  shows "L < 32" and "L' \<le> L \<Longrightarrow> L' * L' + L' \<le> 2 * (p + L) + 2"
proof -
  have l: "L * L \<le> 2 * p + 2 + L"
  proof (cases "L = R")
    case True
    then show ?thesis using assms(1) by simp
  next
    case False
    then have "L = R + 1" using assms(2,3) by simp
    then show ?thesis using assms(1) by simp
  qed
  show "L < 32"
  proof (rule ccontr)
    assume "\<not> L < 32"
    then have "32 * L \<le> L * L"
      by (intro mult_le_mono1) simp
    with l assms(4) \<open>\<not> L < 32\<close> show False
      by linarith
  qed
  assume "L' \<le> L"
  then have "L' * L' + L' \<le> L * L + L"
    by (intro add_mono mult_le_mono)
  also have "\<dots> \<le> 2 * (p + L) + 2"
    using l by simp
  finally show "L' * L' + L' \<le> 2 * (p + L) + 2" .
qed

lemma recv_loop_receiving:
  assumes c: "controller d C view lag slow" and m: "m \<le> 512"
  shows "receiving C bs e (view h) \<Longrightarrow> length bs = 0 \<or> (length bs - 1) * slow + lag h < n \<Longrightarrow> length bs \<le> m \<Longrightarrow>
    length (sv_rx (view h)) * length (sv_rx (view h)) + length (sv_rx (view h)) \<le> 2 * (m - length bs) + 2 \<Longrightarrow>
    \<exists>h'. recv_loop n d 0 1 (length bs) h = Some (h', bs) \<and> receiving C [] e (view h')"
proof (induction n arbitrary: bs h)
  case (Suc n)
  show ?case
  proof (cases "bs = []")
    case False
    let ?p = "m - length bs"
    obtain x h1 where x: "reg_read d 0 Rxflr h = (x, h1)"
      by (cases "reg_read d 0 Rxflr h")
    have rd: "view h1 = view h \<or> view h1 = shift C (view h)" "x = of_nat (length (sv_rx (view h1)))"
      "movable (view h) \<Longrightarrow> view h1 = view h \<Longrightarrow> lag h1 < lag h"
      using level_read [OF c x] by auto
    have "length (sv_rx (view h)) + ?p \<le> 512"
      using receiving_length [OF Suc.prems(1)] Suc.prems(3) m by linarith
    then have R: "length (sv_rx (view h)) < 32"
      using queue_bound(1) [OF Suc.prems(4), of "length (sv_rx (view h))"] by simp
    note sh = receiving_shift [OF Suc.prems(1) R]
    have s: "receiving C bs e (view h1)" "length (sv_rx (view h)) \<le> length (sv_rx (view h1))"
      "length (sv_rx (view h1)) \<le> length (sv_rx (view h)) + 1" "sv_rx (view h1) = [] \<Longrightarrow> view h1 = view h \<and> movable (view h)"
      using rd(1) sh Suc.prems(1) receiving_movable [OF Suc.prems(1)] receiving_length [OF Suc.prems(1)] False by (auto split: if_splits)
    have l: "length (sv_rx (view h1)) \<le> length bs"
      using receiving_length [OF s(1)] by simp
    then have "length (sv_rx (view h1)) + ?p \<le> 512"
      using Suc.prems(3) m by linarith
    note q = queue_bound [OF Suc.prems(4) s(2,3) this]
    have u: "unat x = length (sv_rx (view h1))"
      using q(1) by (simp add: rd(2) unat_of_nat take_bit_nat_eq_self)
    let ?k = "min (unat x) (length bs)"
    have k: "?k = length (sv_rx (view h1))"
      using l u by simp
    obtain h2 where h2: "pop_frames d 0 1 ?k h1 = (take ?k bs, h2)" "receiving C (drop ?k bs) e (view h2)"
      "length (sv_rx (view h2)) \<le> length (sv_rx (view h1))"
      using pop_frames_receiving [OF c s(1), of ?k] q(1) k by auto
    have r: "(length bs - 1) * slow + lag h < Suc n"
      using Suc.prems(2) False by simp
    have fuel: "length (drop ?k bs) = 0 \<or> (length (drop ?k bs) - 1) * slow + lag h2 < n"
    proof (cases "sv_rx (view h1) = []")
      case True
      then have "lag h1 < lag h" "h2 = h1"
        using rd(3) s(4) h2(1) k by auto
      then show ?thesis
        using r True k by simp
    next
      case nonempty: False
      then have "length (drop ?k bs) < length bs"
        using False k by simp
      then show ?thesis
        using rounds_left [OF r] controller_lag [OF c] by blast
    qed
    have "m - length (drop ?k bs) = ?p + length (sv_rx (view h1))"
      using k l Suc.prems(3) by simp
    then have "length (sv_rx (view h2)) * length (sv_rx (view h2)) + length (sv_rx (view h2)) \<le> 2 * (m - length (drop ?k bs)) + 2"
      using q(2) [OF h2(3)] by (simp only:)
    from Suc.IH [OF h2(2) fuel _ this] obtain h' where h': "recv_loop n d 0 1 (length (drop ?k bs)) h2 = Some (h', drop ?k bs)" "receiving C [] e (view h')"
      using Suc.prems(3) le_trans [OF diff_le_self] by auto
    then show ?thesis
      using False h2(1) by (simp add: x Let_def)
  qed (use Suc.prems in simp)
qed simp

lemma spi_receive_ok:
  assumes c: "controller d C view lag slow" and r: "resting (view h)" and "1 \<le> m" and "m \<le> 512" and "m * slow \<le> n"
  shows "\<exists>h'. spi_receive_data_standard n d 0 0 [] m (spi_init d 0 0 0 8 0 h) = Some (h', fst (fetches C m (sv_chip (view h))))
    \<and> resting (view h') \<and> sv_chip (view h') = snd (fetches C m (sv_chip (view h)))"
proof -
  obtain h1 where h1: "frame_width d 0 (spi_set_tmod d 0 2 (spi_init d 0 0 0 8 0 h)) = (1, h1)"
    "view h1 = (view h)\<lparr>sv_sel := False, sv_ctrl := 0x70000 + 0x100 * 2\<rparr>" "tmod_of (view h1) = 2"
    using mode_view [OF c r, of 2] by blast
  let ?h2 = "reg_write d 0 Ctrlr1 (of_nat m - 1) h1"
  have v2: "view ?h2 = (view h1)\<lparr>sv_count := of_nat m - 1\<rparr>"
    using resting_write [OF c, of h1 Ctrlr1] r by (simp add: h1(2) resting_def)
  let ?h3 = "reg_write d 0 Ssienr 1 ?h2"
  have v3: "view ?h3 = (view ?h2)\<lparr>sv_on := True\<rparr>"
    by (rule enable_view [OF c]) (simp add: v2 h1(2))
  have "unat (of_nat m - 1 :: u32) + 1 = m"
    using assms(3,4) by (simp add: unat_sub word_le_nat_alt unat_of_nat take_bit_nat_eq_self)
  then have e: "reg_effect Dr 0xffffffff (view ?h3) = (view ?h3)\<lparr>sv_left := m\<rparr>"
    using h1(3) by (simp add: v3 v2 tmod_of_def)
  let ?h4 = "reg_write d 0 Dr 0xffffffff ?h3"
  have v4: "view ?h4 = (view ?h3)\<lparr>sv_left := m\<rparr>"
    using controller_write [OF c, of Dr "0xffffffff" ?h3] unfolding e by (auto simp: shift_off v3 v2 h1(2))
  let ?h5 = "reg_write d 0 Ser 1 ?h4" and ?v = "reg_effect Ser 1 (view (reg_write d 0 Dr 0xffffffff (reg_write d 0 Ssienr 1 (reg_write d 0 Ctrlr1 (of_nat m - 1) h1))))"
  let ?f = "fetches C m (sv_chip (view h))"
  have "receiving C (fst ?f) (snd ?f) ?v" "sv_rx ?v = []"
    using r h1(3) by (simp_all add: receiving_def v4 v3 v2 h1(2) resting_def tmod_of_def)
  then have h5: "receiving C (fst ?f) (snd ?f) (view ?h5)" "length (sv_rx (view ?h5)) \<le> 1"
    using controller_write [OF c, of Ser 1 ?h4] receiving_shift [of C "fst ?f" "snd ?f" ?v] by (auto split: if_splits)
  have "length (sv_rx (view ?h5)) * length (sv_rx (view ?h5)) + length (sv_rx (view ?h5)) \<le> 2 * (m - length (fst ?f)) + 2"
    using h5(2) by (cases "length (sv_rx (view ?h5))") auto
  from recv_loop_receiving [OF c assms(4) h5(1) _ _ this] obtain h6 where
    h6: "recv_loop n d 0 1 m ?h5 = Some (h6, fst ?f)" "receiving C [] (snd ?f) (view h6)"
    using rounds_enough [OF assms(5) controller_lag [OF c]] by auto
  have "sv_left (view h6) = 0"
    using receiving_length [OF h6(2)] by simp
  then have "sv_chip (view h6) = snd ?f"
    using h6(2) by (simp add: receiving_def)
  note close = close_view [OF c this]
  have "cmd_loop n d 0 0 1 0 [] h' = Some h'" for h'
    by (cases n) auto
  then show ?thesis
    using h6(1) close by (simp add: spi_receive_data_standard_def h1(1) Let_def del: One_nat_def)
qed

text \<open>C10: The SPI driver moves bytes in order and without loss, and its waits end. Take device 0 with frames of eight bits and a controller that has 32-byte queues, moves at
  most one byte between two accesses to its registers, drops a byte that comes in while the queue is full, and never stalls for \<open>slow\<close> polls or more. When the
  controller rests and each wait may poll \<open>512 * slow\<close> times, then after \<open>spi_init\<close> a call of \<open>spi_send_data_normal\<close> with at most 512 bytes
  returns, the device has been given exactly these bytes in this order, and the controller rests again; a call of \<open>spi_receive_data_standard\<close> for 1 to
  512 bytes returns exactly the next bytes of the device in order, and the controller rests again. This is about the data lines; the level of the select line is not part of it.\<close>

theorem spi_transfers_in_order:
  assumes "controller d C view lag slow" and "resting (view h)" and "512 * slow \<le> n"
  shows "(\<forall>bs. length bs \<le> 512 \<longrightarrow>
      (\<exists>h'. spi_send_data_normal n d 0 0 bs (spi_init d 0 0 0 8 0 h) = Some h' \<and> resting (view h')
        \<and> sv_chip (view h') = fold (give C) bs (sv_chip (view h))))
    \<and> (\<forall>m. 1 \<le> m \<and> m \<le> 512 \<longrightarrow>
      (\<exists>h'. spi_receive_data_standard n d 0 0 [] m (spi_init d 0 0 0 8 0 h) = Some (h', fst (fetches C m (sv_chip (view h))))
        \<and> resting (view h') \<and> sv_chip (view h') = snd (fetches C m (sv_chip (view h)))))"
proof -
  have "m * slow \<le> n" if "m \<le> 512" for m
    using mult_le_mono1 [OF that, of slow] assms(3) by linarith
  then show ?thesis
    using spi_send_ok [OF assms(1,2)] spi_receive_ok [OF assms(1,2)] assms(3) by simp
qed

section \<open>A controller\<close>

text \<open>A controller that moves a byte at every third poll.\<close>

type_synonym 'c demo_spi = "'c spi_view \<times> nat"

definition demo_dev :: "'c chip \<Rightarrow> 'c demo_spi spi_dev" where
  "demo_dev C = \<lparr>reg_write = (\<lambda>i r x (v, l). (reg_effect r x v, l)),
     reg_read = (\<lambda>i r (v, l).
       let (v, l) = (if r \<notin> {Txflr, Rxflr, Sr} then (v, l) else if l = 0 then (shift C v, 2) else (v, min l 2 - 1)) in
       (case r of Ctrlr0 \<Rightarrow> sv_ctrl v | Txflr \<Rightarrow> of_nat (length (sv_tx v)) | Rxflr \<Rightarrow> of_nat (length (sv_rx v))
          | Sr \<Rightarrow> if sv_tx v = [] then 4 else 0 | Dr \<Rightarrow> if sv_rx v = [] then 0 else ucast (hd (sv_rx v)) | _ \<Rightarrow> 0,
        (if r = Dr then v\<lparr>sv_rx := tl (sv_rx v)\<rparr> else v, l)))\<rparr>"

definition demo_lag :: "'c demo_spi \<Rightarrow> nat" where
  "demo_lag h = min (snd h) 2"

lemma byte_cast: "ucast (ucast b :: u32) = (b :: u8)"
  by (rule bit_word_eqI) (auto simp: bit_simps)

lemma shift_moves: "movable v \<Longrightarrow> shift C v \<noteq> v"
proof
  assume m: "movable v" and "shift C v = v"
  then have "sv_tx (shift C v) = sv_tx v" "sv_left (shift C v) = sv_left v"
    by simp_all
  then show False
    using m by (cases "sv_tx v") (auto simp: shift_def movable_def split: if_splits)
qed

lemma demo_controller:
  fixes C :: "'c chip"
  shows "controller (demo_dev C) C fst demo_lag 3"
  unfolding controller_def
proof (intro conjI allI impI)
  fix h :: "'c demo_spi"
  show "demo_lag h < 3"
    by (simp add: demo_lag_def)
next
  fix r x and h :: "'c demo_spi"
  show "fst (reg_write (demo_dev C) 0 r x h) \<in> {reg_effect r x (fst h), shift C (reg_effect r x (fst h))}"
    by (simp add: demo_dev_def split_beta)
next
  fix r x and h h' :: "'c demo_spi"
  assume "reg_read (demo_dev C) 0 r h = (x, h')"
  then show "\<exists>v\<in>{fst h, shift C (fst h)}. reg_value r v x \<and> fst h' = (if r = Dr then v\<lparr>sv_rx := tl (sv_rx v)\<rparr> else v)
      \<and> (r \<in> {Txflr, Rxflr, Sr} \<and> (movable (fst h) \<or> r = Sr \<and> sv_tx (fst h) = [] \<and> x AND 5 \<noteq> 4) \<longrightarrow> v \<noteq> fst h \<or> demo_lag h' < demo_lag h)"
    by (intro bexI [of _ "if r \<in> {Txflr, Rxflr, Sr} \<and> snd h = 0 then shift C (fst h) else fst h"])
      (cases h; cases r; auto simp: demo_dev_def Let_def byte_cast demo_lag_def shift_moves split: if_splits)+
qed

text \<open>A device that keeps the bytes it is given and gives one number after the other.\<close>

definition counter_chip :: "(u8 list \<times> u8) chip" where
  "counter_chip = \<lparr>give = (\<lambda>b (bs, k). (bs @ [b], k)), fetch = (\<lambda>(bs, k). (k, (bs, k + 1)))\<rparr>"

definition demo_spi0 :: "'c \<Rightarrow> 'c demo_spi" where
  "demo_spi0 c = (\<lparr>sv_ctrl = 0, sv_count = 0, sv_on = False, sv_sel = False, sv_tx = [], sv_rx = [], sv_left = 0, sv_chip = c\<rparr>, 0)"

theorem spi_transfers_in_order_witness:
  "(\<exists>h'. spi_send_data_normal 1536 (demo_dev counter_chip) 0 0 [0x51, 0, 0xff] (spi_init (demo_dev counter_chip) 0 0 0 8 0 (demo_spi0 ([], 7))) = Some h'
      \<and> sv_chip (fst h') = ([0x51, 0, 0xff], 7))
    \<and> (\<exists>h'. spi_receive_data_standard 1536 (demo_dev counter_chip) 0 0 [] 4 (spi_init (demo_dev counter_chip) 0 0 0 8 0 (demo_spi0 ([], 7))) = Some (h', [7, 8, 9, 10])
      \<and> sv_chip (fst h') = ([], 11))"
proof -
  have "resting (fst (demo_spi0 ([], 7)))"
    by (simp add: resting_def demo_spi0_def)
  note t = spi_transfers_in_order [OF demo_controller [of counter_chip] this, of 1536]
  have f: "fetches counter_chip 4 ([], 7) = ([7, 8, 9, 10], ([], 11))"
    by (simp add: counter_chip_def eval_nat_numeral)
  have "length [0x51, 0, 0xff :: u8] \<le> 512"
    by simp
  then obtain h1 where h1: "spi_send_data_normal 1536 (demo_dev counter_chip) 0 0 [0x51, 0, 0xff] (spi_init (demo_dev counter_chip) 0 0 0 8 0 (demo_spi0 ([], 7))) = Some h1"
    "sv_chip (fst h1) = fold (give counter_chip) [0x51, 0, 0xff] (sv_chip (fst (demo_spi0 ([], 7))))"
    using spec [OF conjunct1 [OF t]] by fastforce
  obtain h2 where h2: "spi_receive_data_standard 1536 (demo_dev counter_chip) 0 0 [] 4 (spi_init (demo_dev counter_chip) 0 0 0 8 0 (demo_spi0 ([], 7))) =
      Some (h2, fst (fetches counter_chip 4 (sv_chip (fst (demo_spi0 ([], 7))))))"
    "sv_chip (fst h2) = snd (fetches counter_chip 4 (sv_chip (fst (demo_spi0 ([], 7)))))"
    using spec [OF conjunct2 [OF t], of 4] by fastforce
  have c: "sv_chip (fst (demo_spi0 ([], 7))) = ([], 7)"
    by (simp add: demo_spi0_def)
  have "fold (give counter_chip) [0x51, 0, 0xff] ([], 7) = ([0x51, 0, 0xff], 7)"
    by (simp add: counter_chip_def)
  then show ?thesis
    using h1 h2 unfolding c f by auto
qed

end
