(* ===== verification/SdCard.thy ===== *)
theory SdCard
  imports Spi
begin

unbundle bit_operations_syntax

text \<open>
  The protocol of the SD card over the SPI controller (\<open>drivers/sdcard/sdcard.c\<close>), in the version for the k210. A buffer is given by its
  bytes. The argument \<open>n\<close> bounds the loops that wait for the controller or for the card; a loop that has not ended with it is a
  \<open>Panic\<close>, as is \<open>assert(0)\<close>. The numbers that \<open>sd_init\<close> prints are left out. The state is the controller with the card behind it, the pins,
  the kernel, and what is known of the card.
\<close>

section \<open>Data\<close>

abbreviation (input) SD_START_DATA_SINGLE_BLOCK_READ :: u8 where "SD_START_DATA_SINGLE_BLOCK_READ \<equiv> 0xfe"
abbreviation (input) SD_START_DATA_SINGLE_BLOCK_WRITE :: u8 where "SD_START_DATA_SINGLE_BLOCK_WRITE \<equiv> 0xfe"
abbreviation (input) SD_START_DATA_MULTIPLE_BLOCK_WRITE :: u8 where "SD_START_DATA_MULTIPLE_BLOCK_WRITE \<equiv> 0xfc"

record SD_CSD =
  CSDStruct :: u8
  SysSpecVersion :: u8
  csd_Reserved1 :: u8
  TAAC :: u8
  NSAC :: u8
  MaxBusClkFrec :: u8
  CardComdClasses :: u16
  RdBlockLen :: u8
  PartBlockRead :: u8
  WrBlockMisalign :: u8
  RdBlockMisalign :: u8
  DSRImpl :: u8
  csd_Reserved2 :: u8
  DeviceSize :: u32
  MaxRdCurrentVDDMin :: u8
  MaxRdCurrentVDDMax :: u8
  MaxWrCurrentVDDMin :: u8
  MaxWrCurrentVDDMax :: u8
  DeviceSizeMul :: u8
  EraseGrSize :: u8
  EraseGrMul :: u8
  WrProtectGrSize :: u8
  WrProtectGrEnable :: u8
  ManDeflECC :: u8
  WrSpeedFact :: u8
  MaxWrBlockLen :: u8
  WriteBlockPaPartial :: u8
  csd_Reserved3 :: u8
  ContentProtectAppli :: u8
  FileFormatGrouop :: u8
  CopyFlag :: u8
  PermWrProtect :: u8
  TempWrProtect :: u8
  FileFormat :: u8
  csd_ECC :: u8
  CSD_CRC :: u8
  csd_Reserved4 :: u8

record SD_CID =
  ManufacturerID :: u8
  OEM_AppliID :: u16
  ProdName1 :: u32
  ProdName2 :: u8
  ProdRev :: u8
  ProdSN :: u32
  cid_Reserved1 :: u8
  ManufactDate :: u16
  CID_CRC :: u8
  cid_Reserved2 :: u8

record SD_CardInfo =
  SD_csd :: SD_CSD
  SD_cid :: SD_CID
  CardCapacity :: u64
  CardBlockSize :: u32

record ('h, 'k) sdio =
  sd_hw :: 'h
  sd_pins :: pins
  sd_kernel :: 'k
  cardinfo :: SD_CardInfo

section \<open>Bytes to and from the card\<close>

definition SD_CS_HIGH :: "('h, 'k) sdio \<Rightarrow> ('h, 'k) sdio" where
  "SD_CS_HIGH s = s\<lparr>sd_pins := gpiohs_set_pin 7 1 (sd_pins s)\<rparr>"

definition SD_CS_LOW :: "('h, 'k) sdio \<Rightarrow> ('h, 'k) sdio" where
  "SD_CS_LOW s = s\<lparr>sd_pins := gpiohs_set_pin 7 0 (sd_pins s)\<rparr>"

definition sd_lowlevel_init :: "('h, 'k) sdio \<Rightarrow> ('h, 'k) sdio" where
  "sd_lowlevel_init s = s\<lparr>sd_pins := gpiohs_set_drive_mode 7 GPIO_DM_OUTPUT (sd_pins s)\<rparr>"

definition sd_write_data :: "nat \<Rightarrow> 'h spi_dev \<Rightarrow> u8 list \<Rightarrow> ('h, 'a mmkernel_scheme) sdio \<Rightarrow> (('h, 'a mmkernel_scheme) sdio, unit) outcome" where
  "sd_write_data n d bs s =
    (let h = spi_init d SPI_DEVICE_0 SPI_WORK_MODE_0 SPI_FF_STANDARD 8 0 (sd_hw s) in
     case spi_send_data_standard n d SPI_DEVICE_0 SPI_CHIP_SELECT_0 [] bs (h, sd_kernel s) of
       Ret (h, k) _ \<Rightarrow> Ret (s\<lparr>sd_hw := h, sd_kernel := k\<rparr>) ()
     | Blocked (h, k) \<Rightarrow> Blocked (s\<lparr>sd_hw := h, sd_kernel := k\<rparr>)
     | r \<Rightarrow> Panic (s\<lparr>sd_hw := fst (out_state r), sd_kernel := snd (out_state r)\<rparr>))"

definition sd_read_data :: "nat \<Rightarrow> 'h spi_dev \<Rightarrow> nat \<Rightarrow> ('h, 'k) sdio \<Rightarrow> (('h, 'k) sdio, u8 list) outcome" where
  "sd_read_data n d len s =
    (let h = spi_init d SPI_DEVICE_0 SPI_WORK_MODE_0 SPI_FF_STANDARD 8 0 (sd_hw s) in
     case spi_receive_data_standard n d SPI_DEVICE_0 SPI_CHIP_SELECT_0 [] len h of
       None \<Rightarrow> Panic s
     | Some (h, bs) \<Rightarrow> Ret (s\<lparr>sd_hw := h\<rparr>) bs)"

definition cmd_frame :: "u8 \<Rightarrow> u32 \<Rightarrow> u8 \<Rightarrow> u8 list" where
  "cmd_frame cmd arg crc = [cmd OR 0x40, ucast (drop_bit 24 arg), ucast (drop_bit 16 arg), ucast (drop_bit 8 arg), ucast arg, crc]"

definition sd_send_cmd :: "nat \<Rightarrow> 'h spi_dev \<Rightarrow> u8 \<Rightarrow> u32 \<Rightarrow> u8 \<Rightarrow> ('h, 'a mmkernel_scheme) sdio \<Rightarrow> (('h, 'a mmkernel_scheme) sdio, unit) outcome" where
  "sd_send_cmd n d cmd arg crc s = sd_write_data n d (cmd_frame cmd arg crc) (SD_CS_LOW s)"

definition sd_end_cmd :: "nat \<Rightarrow> 'h spi_dev \<Rightarrow> ('h, 'a mmkernel_scheme) sdio \<Rightarrow> (('h, 'a mmkernel_scheme) sdio, unit) outcome" where
  "sd_end_cmd n d s = sd_write_data n d [0xff] (SD_CS_HIGH s)"

fun response_loop :: "nat \<Rightarrow> nat \<Rightarrow> 'h spi_dev \<Rightarrow> ('h, 'k) sdio \<Rightarrow> (('h, 'k) sdio, u8) outcome" where
  "response_loop 0 n d s = Ret s 0xff"
| "response_loop (Suc timeout) n d s =
    obind (sd_read_data n d 1 s) (\<lambda>s result. if hd result \<noteq> 0xff then Ret s (hd result) else response_loop timeout n d s)"

definition sd_get_response :: "nat \<Rightarrow> 'h spi_dev \<Rightarrow> ('h, 'k) sdio \<Rightarrow> (('h, 'k) sdio, u8) outcome" where
  "sd_get_response n d s = response_loop 0x0fff n d s"

text \<open>The loop while the card holds the line at 0.\<close>

fun busy_loop :: "nat \<Rightarrow> nat \<Rightarrow> 'h spi_dev \<Rightarrow> ('h, 'k) sdio \<Rightarrow> (('h, 'k) sdio, unit) outcome" where
  "busy_loop 0 n d s = Panic s"
| "busy_loop (Suc m) n d s =
    obind (sd_read_data n d 1 s) (\<lambda>s response. if hd response = 0 then busy_loop m n d s else Ret s ())"

definition sd_get_dataresponse :: "nat \<Rightarrow> 'h spi_dev \<Rightarrow> ('h, 'k) sdio \<Rightarrow> (('h, 'k) sdio, u8) outcome" where
  "sd_get_dataresponse n d s =
    obind (sd_read_data n d 1 s) (\<lambda>s response.
      if hd response AND 0x1f \<noteq> 0x05 then Ret s 0xff
      else obind (busy_loop n n d s) (\<lambda>s _. Ret s 0))"

section \<open>The registers of the card\<close>

text \<open>The loop that asks for a register. \<open>None\<close> is the return of \<open>0xff\<close>; otherwise the result is \<open>index\<close> behind the loop, which has wrapped around
  when no attempt succeeded.\<close>

fun register_loop :: "nat \<Rightarrow> nat \<Rightarrow> 'h spi_dev \<Rightarrow> u8 \<Rightarrow> ('h, 'a mmkernel_scheme) sdio \<Rightarrow> (('h, 'a mmkernel_scheme) sdio, u32 option) outcome" where
  "register_loop 0 n d cmd s = Ret s (Some (-1))"
| "register_loop (Suc index) n d cmd s =
    obind (sd_send_cmd n d cmd 0 0 s) (\<lambda>s _.
    obind (sd_get_response n d s) (\<lambda>s r.
      if r \<noteq> 0 then obind (sd_end_cmd n d s) (\<lambda>s _. Ret s None)
      else obind (sd_get_response n d s) (\<lambda>s r.
        if r \<noteq> SD_START_DATA_SINGLE_BLOCK_READ then obind (sd_end_cmd n d s) (\<lambda>s _. register_loop index n d cmd s)
        else Ret s (Some (of_nat index)))))"

text \<open>The 18 bytes of a register, or \<open>None\<close>.\<close>

definition sd_get_register :: "nat \<Rightarrow> 'h spi_dev \<Rightarrow> u8 \<Rightarrow> ('h, 'a mmkernel_scheme) sdio \<Rightarrow> (('h, 'a mmkernel_scheme) sdio, u8 list option) outcome" where
  "sd_get_register n d cmd s =
    obind (register_loop 255 n d cmd s) (\<lambda>s r.
      case r of
        None \<Rightarrow> Ret s None
      | Some index \<Rightarrow>
          if index = 0 then Panic s
          else obind (sd_read_data n d 18 s) (\<lambda>s tab. obind (sd_end_cmd n d s) (\<lambda>s _. Ret s (Some tab))))"

definition fill_csd :: "u8 list \<Rightarrow> SD_CSD \<Rightarrow> SD_CSD" where
  "fill_csd tab c = c\<lparr>
     CSDStruct := drop_bit 6 (tab ! 0 AND 0xc0), SysSpecVersion := drop_bit 2 (tab ! 0 AND 0x3c), csd_Reserved1 := tab ! 0 AND 0x03,
     TAAC := tab ! 1, NSAC := tab ! 2, MaxBusClkFrec := tab ! 3,
     CardComdClasses := push_bit 4 (ucast (tab ! 4)) OR ucast (drop_bit 4 (tab ! 5 AND 0xf0)), RdBlockLen := tab ! 5 AND 0x0f,
     PartBlockRead := drop_bit 7 (tab ! 6 AND 0x80), WrBlockMisalign := drop_bit 6 (tab ! 6 AND 0x40),
     RdBlockMisalign := drop_bit 5 (tab ! 6 AND 0x20), DSRImpl := drop_bit 4 (tab ! 6 AND 0x10), csd_Reserved2 := 0,
     DeviceSize := push_bit 16 (ucast (tab ! 7 AND 0x3f)) OR push_bit 8 (ucast (tab ! 8)) OR ucast (tab ! 9),
     EraseGrSize := drop_bit 6 (tab ! 10 AND 0x40),
     EraseGrMul := push_bit 1 (tab ! 10 AND 0x3f) OR drop_bit 7 (tab ! 11 AND 0x80), WrProtectGrSize := tab ! 11 AND 0x7f,
     WrProtectGrEnable := drop_bit 7 (tab ! 12 AND 0x80), ManDeflECC := drop_bit 5 (tab ! 12 AND 0x60),
     WrSpeedFact := drop_bit 2 (tab ! 12 AND 0x1c),
     MaxWrBlockLen := push_bit 2 (tab ! 12 AND 0x03) OR drop_bit 6 (tab ! 13 AND 0xc0),
     WriteBlockPaPartial := drop_bit 5 (tab ! 13 AND 0x20), csd_Reserved3 := 0, ContentProtectAppli := tab ! 13 AND 0x01,
     FileFormatGrouop := drop_bit 7 (tab ! 14 AND 0x80), CopyFlag := drop_bit 6 (tab ! 14 AND 0x40),
     PermWrProtect := drop_bit 5 (tab ! 14 AND 0x20), TempWrProtect := drop_bit 4 (tab ! 14 AND 0x10),
     FileFormat := drop_bit 2 (tab ! 14 AND 0x0c), csd_ECC := tab ! 14 AND 0x03,
     CSD_CRC := drop_bit 1 (tab ! 15 AND 0xfe), csd_Reserved4 := 1\<rparr>"

definition sd_get_csdregister :: "nat \<Rightarrow> 'h spi_dev \<Rightarrow> ('h, 'a mmkernel_scheme) sdio \<Rightarrow> (('h, 'a mmkernel_scheme) sdio, u8) outcome" where
  "sd_get_csdregister n d s =
    obind (sd_get_register n d 9 s) (\<lambda>s r.
      case r of
        None \<Rightarrow> Ret s 0xff
      | Some tab \<Rightarrow> Ret (s\<lparr>cardinfo := (cardinfo s)\<lparr>SD_csd := fill_csd tab (SD_csd (cardinfo s))\<rparr>\<rparr>) 0)"

text \<open>\<open>Reserved1\<close> is or-ed to what was there.\<close>

definition fill_cid :: "u8 list \<Rightarrow> SD_CID \<Rightarrow> SD_CID" where
  "fill_cid tab c = c\<lparr>
     ManufacturerID := tab ! 0, OEM_AppliID := push_bit 8 (ucast (tab ! 1)) OR ucast (tab ! 2),
     ProdName1 := push_bit 24 (ucast (tab ! 3)) OR push_bit 16 (ucast (tab ! 4)) OR push_bit 8 (ucast (tab ! 5)) OR ucast (tab ! 6),
     ProdName2 := tab ! 7, ProdRev := tab ! 8,
     ProdSN := push_bit 24 (ucast (tab ! 9)) OR push_bit 16 (ucast (tab ! 10)) OR push_bit 8 (ucast (tab ! 11)) OR ucast (tab ! 12),
     cid_Reserved1 := cid_Reserved1 c OR drop_bit 4 (tab ! 13 AND 0xf0),
     ManufactDate := push_bit 8 (ucast (tab ! 13 AND 0x0f)) OR ucast (tab ! 14),
     CID_CRC := drop_bit 1 (tab ! 15 AND 0xfe), cid_Reserved2 := 1\<rparr>"

definition sd_get_cidregister :: "nat \<Rightarrow> 'h spi_dev \<Rightarrow> ('h, 'a mmkernel_scheme) sdio \<Rightarrow> (('h, 'a mmkernel_scheme) sdio, u8) outcome" where
  "sd_get_cidregister n d s =
    obind (sd_get_register n d 10 s) (\<lambda>s r.
      case r of
        None \<Rightarrow> Ret s 0xff
      | Some tab \<Rightarrow> Ret (s\<lparr>cardinfo := (cardinfo s)\<lparr>SD_cid := fill_cid tab (SD_cid (cardinfo s))\<rparr>\<rparr>) 0)"

text \<open>The capacity is computed in 32 bits before it is multiplied with the size of a block.\<close>

definition sd_get_cardinfo :: "nat \<Rightarrow> 'h spi_dev \<Rightarrow> ('h, 'a mmkernel_scheme) sdio \<Rightarrow> (('h, 'a mmkernel_scheme) sdio, u8) outcome" where
  "sd_get_cardinfo n d s =
    obind (sd_get_csdregister n d s) (\<lambda>s r.
      if r \<noteq> 0 then Ret s 0xff
      else obind (sd_get_cidregister n d s) (\<lambda>s r.
        if r \<noteq> 0 then Ret s 0xff
        else
          let i = cardinfo s; bl = push_bit (unat (RdBlockLen (SD_csd i))) 1 :: u32;
              cap = ucast ((DeviceSize (SD_csd i) + 1) * 1024) * ucast bl
          in Ret (s\<lparr>cardinfo := i\<lparr>CardCapacity := cap, CardBlockSize := bl\<rparr>\<rparr>) 0))"

section \<open>Starting the card\<close>

text \<open>A loop \<open>while (index--)\<close> with an index of eight bits: the body says whether it leaves the loop, \<open>None\<close> for a return of \<open>0xff\<close>, and gives the
  bytes it has read. The result is \<open>index\<close> behind the loop.\<close>

fun try_loop :: "nat \<Rightarrow> ('s \<Rightarrow> ('s, bool option \<times> u8 list) outcome) \<Rightarrow> u8 list \<Rightarrow> 's \<Rightarrow> ('s, u8 option \<times> u8 list) outcome" where
  "try_loop 0 body frame s = Ret s (Some (-1), frame)"
| "try_loop (Suc index) body frame s =
    obind (body s) (\<lambda>s (leave, frame).
      case leave of
        None \<Rightarrow> Ret s (None, frame)
      | Some True \<Rightarrow> Ret s (Some (of_nat index), frame)
      | Some False \<Rightarrow> try_loop index body frame s)"

definition cmd0_round :: "nat \<Rightarrow> 'h spi_dev \<Rightarrow> ('h, 'a mmkernel_scheme) sdio \<Rightarrow> (('h, 'a mmkernel_scheme) sdio, bool option \<times> u8 list) outcome" where
  "cmd0_round n d s =
    obind (sd_send_cmd n d 0 0 0x95 s) (\<lambda>s _. obind (sd_get_response n d s) (\<lambda>s result.
    obind (sd_end_cmd n d s) (\<lambda>s _. Ret s (Some (result = 0x01), []))))"

definition cmd8_round :: "nat \<Rightarrow> 'h spi_dev \<Rightarrow> ('h, 'a mmkernel_scheme) sdio \<Rightarrow> (('h, 'a mmkernel_scheme) sdio, bool option \<times> u8 list) outcome" where
  "cmd8_round n d s =
    obind (sd_send_cmd n d 8 0x01aa 0x87 s) (\<lambda>s _. obind (sd_get_response n d s) (\<lambda>s result.
    obind (sd_read_data n d 4 s) (\<lambda>s frame. obind (sd_end_cmd n d s) (\<lambda>s _. Ret s (Some (result = 0x01), frame)))))"

definition acmd41_round :: "nat \<Rightarrow> 'h spi_dev \<Rightarrow> ('h, 'a mmkernel_scheme) sdio \<Rightarrow> (('h, 'a mmkernel_scheme) sdio, bool option \<times> u8 list) outcome" where
  "acmd41_round n d s =
    obind (sd_send_cmd n d 55 0 0 s) (\<lambda>s _. obind (sd_get_response n d s) (\<lambda>s result.
    obind (sd_end_cmd n d s) (\<lambda>s _.
      if result \<noteq> 0x01 then Ret s (None, [])
      else obind (sd_send_cmd n d 41 0x40000000 0 s) (\<lambda>s _. obind (sd_get_response n d s) (\<lambda>s result.
           obind (sd_end_cmd n d s) (\<lambda>s _. Ret s (Some (result = 0), [])))))))"

definition cmd58_round :: "nat \<Rightarrow> 'h spi_dev \<Rightarrow> ('h, 'a mmkernel_scheme) sdio \<Rightarrow> (('h, 'a mmkernel_scheme) sdio, bool option \<times> u8 list) outcome" where
  "cmd58_round n d s =
    obind (sd_send_cmd n d 58 0 1 s) (\<lambda>s _. obind (sd_get_response n d s) (\<lambda>s result.
    obind (sd_read_data n d 4 s) (\<lambda>s frame. obind (sd_end_cmd n d s) (\<lambda>s _. Ret s (Some (result = 0), frame)))))"

text \<open>An index of 0 behind a loop is \<open>assert(0)\<close>.\<close>

definition check_index :: "('s \<Rightarrow> u8 list \<Rightarrow> ('s, u8) outcome) \<Rightarrow> ('s, u8 option \<times> u8 list) outcome \<Rightarrow> ('s, u8) outcome" where
  "check_index k r =
    obind r (\<lambda>s (index, frame).
      case index of None \<Rightarrow> Ret s 0xff | Some index \<Rightarrow> if index = 0 then Panic s else k s frame)"

definition sd_init :: "nat \<Rightarrow> 'h spi_dev \<Rightarrow> ('h, 'a mmkernel_scheme) sdio \<Rightarrow> (('h, 'a mmkernel_scheme) sdio, u8) outcome" where
  "sd_init n d s =
    obind (sd_write_data n d (replicate 10 0xff) (SD_CS_HIGH (sd_lowlevel_init s))) (\<lambda>s _.
    check_index (\<lambda>s _.
    check_index (\<lambda>s _.
    check_index (\<lambda>s _.
    check_index (\<lambda>s frame. if hd frame AND 0x40 = 0 then Ret s 0xff else sd_get_cardinfo n d s)
      (try_loop 255 (cmd58_round n d) [] s))
      (try_loop 255 (acmd41_round n d) [] s))
      (try_loop 255 (cmd8_round n d) [] s))
      (try_loop 255 (cmd0_round n d) [] s))"

definition sdcard_init :: "nat \<Rightarrow> 'h spi_dev \<Rightarrow> ptr \<Rightarrow> ('h, 'a mmkernel_scheme) sdio \<Rightarrow> (('h, 'a mmkernel_scheme) sdio, unit) outcome" where
  "sdcard_init n d sdcard_lock s =
    obind (sd_init n d s) (\<lambda>s r.
      let s = s\<lparr>sd_kernel := initsleeplock sdcard_lock (sd_kernel s)\<rparr> in if r \<noteq> 0 then Panic s else Ret s ())"

section \<open>Sectors\<close>

text \<open>The loop of a reading: the blocks, and what is left of \<open>count\<close>.\<close>

fun read_blocks :: "nat \<Rightarrow> nat \<Rightarrow> 'h spi_dev \<Rightarrow> ('h, 'k) sdio \<Rightarrow> (('h, 'k) sdio, nat \<times> u8 list list) outcome" where
  "read_blocks 0 n d s = Ret s (0, [])"
| "read_blocks (Suc cnt) n d s =
    obind (sd_get_response n d s) (\<lambda>s r.
      if r \<noteq> SD_START_DATA_SINGLE_BLOCK_READ then Ret s (Suc cnt, [])
      else obind (sd_read_data n d 512 s) (\<lambda>s data. obind (sd_read_data n d 2 s) (\<lambda>s frame.
           obind (read_blocks cnt n d s) (\<lambda>s (left, blks). Ret s (left, data # blks)))))"

text \<open>Both functions for reading: \<open>sectorno\<close> is that of the first buffer in \<open>sd_read_sector_bio\<close>, where the blocks go to one buffer each.\<close>

definition read_sectors :: "nat \<Rightarrow> 'h spi_dev \<Rightarrow> u32 \<Rightarrow> nat \<Rightarrow> ('h, 'a mmkernel_scheme) sdio \<Rightarrow> (('h, 'a mmkernel_scheme) sdio, u8 \<times> u8 list list) outcome" where
  "read_sectors n d sector cnt s =
    obind (sd_send_cmd n d (if cnt = 1 then 17 else 18) sector 0 s) (\<lambda>s _.
    obind (sd_get_response n d s) (\<lambda>s r.
      if r \<noteq> 0 then obind (sd_end_cmd n d s) (\<lambda>s _. Ret s (0xff, []))
      else
        obind (read_blocks cnt n d s) (\<lambda>s (left, blks).
        obind (sd_end_cmd n d s) (\<lambda>s _.
        obind (if cnt = 1 then Ret s ()
               else obind (sd_send_cmd n d 12 0 0 s) (\<lambda>s _. obind (sd_get_response n d s) (\<lambda>s _.
                    obind (sd_end_cmd n d s) (\<lambda>s _. sd_end_cmd n d s)))) (\<lambda>s _.
          Ret s (if 0 < left then 0xff else 0, blks))))))"

definition sd_read_sector :: "nat \<Rightarrow> 'h spi_dev \<Rightarrow> u32 \<Rightarrow> nat \<Rightarrow> ('h, 'a mmkernel_scheme) sdio \<Rightarrow> (('h, 'a mmkernel_scheme) sdio, u8 \<times> u8 list) outcome" where
  "sd_read_sector n d sector cnt s = obind (read_sectors n d sector cnt s) (\<lambda>s (r, blks). Ret s (r, concat blks))"

definition sd_read_sector_bio :: "nat \<Rightarrow> 'h spi_dev \<Rightarrow> u32 \<Rightarrow> nat \<Rightarrow> ('h, 'a mmkernel_scheme) sdio \<Rightarrow> (('h, 'a mmkernel_scheme) sdio, u8 \<times> u8 list list) outcome" where
  "sd_read_sector_bio n d sectorno cnt s = read_sectors n d sectorno cnt s"

text \<open>The loop of a writing; the two bytes behind a block are those before it again.\<close>

fun write_blocks :: "u8 list list \<Rightarrow> nat \<Rightarrow> 'h spi_dev \<Rightarrow> u8 list \<Rightarrow> ('h, 'a mmkernel_scheme) sdio \<Rightarrow> (('h, 'a mmkernel_scheme) sdio, bool) outcome" where
  "write_blocks [] n d frame s = Ret s True"
| "write_blocks (b # bs) n d frame s =
    obind (sd_write_data n d frame s) (\<lambda>s _. obind (sd_write_data n d b s) (\<lambda>s _. obind (sd_write_data n d frame s) (\<lambda>s _.
    obind (sd_get_dataresponse n d s) (\<lambda>s r.
      if r \<noteq> 0 then obind (sd_end_cmd n d s) (\<lambda>s _. Ret s False) else write_blocks bs n d frame s))))"

definition write_sectors :: "nat \<Rightarrow> 'h spi_dev \<Rightarrow> u32 \<Rightarrow> u8 list list \<Rightarrow> ('h, 'a mmkernel_scheme) sdio \<Rightarrow> (('h, 'a mmkernel_scheme) sdio, u8) outcome" where
  "write_sectors n d sector blks s =
    (let cnt = length blks;
         frame = [0xff, if cnt = 1 then SD_START_DATA_SINGLE_BLOCK_WRITE else SD_START_DATA_MULTIPLE_BLOCK_WRITE]
     in obind (if cnt = 1 then sd_send_cmd n d 24 sector 0 s
               else obind (sd_send_cmd n d 23 (of_nat cnt) 0 s) (\<lambda>s _. obind (sd_get_response n d s) (\<lambda>s _.
                    obind (sd_end_cmd n d s) (\<lambda>s _. sd_send_cmd n d 25 sector 0 s)))) (\<lambda>s _.
        obind (sd_get_response n d s) (\<lambda>s r.
          if r \<noteq> 0 then obind (sd_end_cmd n d s) (\<lambda>s _. Ret s 0xff)
          else
            obind (write_blocks blks n d frame s) (\<lambda>s ok.
              if \<not> ok then Ret s 0xff
              else obind (sd_end_cmd n d s) (\<lambda>s _. obind (sd_end_cmd n d s) (\<lambda>s _. Ret s 0))))))"

definition sd_write_sector :: "nat \<Rightarrow> 'h spi_dev \<Rightarrow> u8 list \<Rightarrow> u32 \<Rightarrow> nat \<Rightarrow> ('h, 'a mmkernel_scheme) sdio \<Rightarrow> (('h, 'a mmkernel_scheme) sdio, u8) outcome" where
  "sd_write_sector n d data sector cnt s =
    write_sectors n d sector (map (\<lambda>i. take 512 (drop (512 * i) data)) [0..<cnt]) s"

definition sd_write_sector_bio :: "nat \<Rightarrow> 'h spi_dev \<Rightarrow> u32 \<Rightarrow> u8 list list \<Rightarrow> ('h, 'a mmkernel_scheme) sdio \<Rightarrow> (('h, 'a mmkernel_scheme) sdio, u8) outcome" where
  "sd_write_sector_bio n d sectorno blks s = write_sectors n d sectorno blks s"

section \<open>The wire under the protocol\<close>

lemma fetches_add:
  "fetches C (m + k) c = (fst (fetches C m c) @ fst (fetches C k (snd (fetches C m c))), snd (fetches C k (snd (fetches C m c))))"
  by (induction m arbitrary: c) (auto simp: split_beta)

lemma fetches_split:
  assumes "fetches C (length xs + k) c = (xs @ ys, e)"
  obtains f where "fetches C (length xs) c = (xs, f)" and "fetches C k f = (ys, e)"
proof -
  have "length (fst (fetches C (length xs) c)) = length xs"
    by simp
  then have "fst (fetches C (length xs) c) = xs" "fst (fetches C k (snd (fetches C (length xs) c))) = ys"
    using assms unfolding fetches_add by (simp_all add: append_eq_append_conv)
  then show thesis
    using assms that [of "snd (fetches C (length xs) c)"] unfolding fetches_add by (metis prod.collapse snd_conv)
qed

text \<open>Between two commands the controller rests and the kernel has a page to lend.\<close>

definition wire_ok :: "('h \<Rightarrow> 'c spi_view) \<Rightarrow> ('h, 'a mmkernel_scheme) sdio \<Rightarrow> bool" where
  "wire_ok view s \<longleftrightarrow> resting (view (sd_hw s)) \<and> mm_inv (sd_kernel s) \<and> page_lists (sd_kernel s) free_source_list \<noteq> []"

definition chip_of :: "('h \<Rightarrow> 'c spi_view) \<Rightarrow> ('h, 'k) sdio \<Rightarrow> 'c" where
  "chip_of view s = sv_chip (view (sd_hw s))"

lemma page_lent:
  assumes "mm_inv k" and "page_lists k free_source_list \<noteq> []"
  obtains t p where "allocPage k = Ret t p" and "mm_inv (freePage (p - PAGE_SIZE) t)"
    and "page_lists (freePage (p - PAGE_SIZE) t) free_source_list \<noteq> []"
proof -
  obtain t p where t: "allocPage k = Ret t p"
    using allocPage_returns [OF assms(2)] by blast
  obtain i where i: "i < NUM_REC" "p = page_addr i + PAGE_SIZE" "pageRecyc t = (pageRecyc k)(i := (pageRecyc k i)\<lparr>share_num := 1\<rparr>)" "mm_inv t"
    using allocPage_effect [OF assms(1) t] by metis
  have n: "share_num (pageRecyc t i) \<noteq> 0"
    by (simp add: i(3))
  have f: "mm_inv (freePage (page_addr i) t)" "share_num (pageRecyc (freePage (page_addr i) t) i) = 0"
    using mm_inv_freePage [OF i(4,1) n] by (simp_all add: i(3))
  then have "i \<in> set (page_lists (freePage (page_addr i) t) free_source_list)"
    using mm_invD(4) [OF f(1) i(1)] by blast
  then have "page_lists (freePage (page_addr i) t) free_source_list \<noteq> []"
    by (metis empty_iff empty_set)
  then show thesis
    using that t f(1) by (simp add: i(2))
qed

lemma enough_polls: "512 * slow \<le> n \<Longrightarrow> m \<le> 512 \<Longrightarrow> m * slow \<le> (n :: nat)"
  using mult_le_mono1 [of m 512 slow] by linarith

lemma sd_write_data_ok:
  assumes c: "controller d C view lag slow" and w: "wire_ok view s" and "length bs \<le> 512" and "512 * slow \<le> n"
  shows "\<exists>t. sd_write_data n d bs s = Ret t () \<and> wire_ok view t \<and> chip_of view t = fold (give C) bs (chip_of view s)"
proof -
  obtain h where h: "spi_send_data_normal n d 0 0 bs (spi_init d 0 0 0 8 0 (sd_hw s)) = Some h" "resting (view h)"
    "sv_chip (view h) = fold (give C) bs (sv_chip (view (sd_hw s)))"
    using spi_send_ok [OF c _ enough_polls [OF assms(4,3)] enough_polls [OF assms(4), of 33]] w by (auto simp: wire_ok_def)
  obtain k p where k: "allocPage (sd_kernel s) = Ret k p" "mm_inv (freePage (p - PAGE_SIZE) k)"
    "page_lists (freePage (p - PAGE_SIZE) k) free_source_list \<noteq> []"
    using page_lent [of "sd_kernel s"] w by (auto simp: wire_ok_def)
  show ?thesis
    using h k by (simp add: sd_write_data_def spi_send_data_standard_def Let_def wire_ok_def chip_of_def)
qed

lemma sd_read_data_ok:
  assumes c: "controller d C view lag slow" and w: "wire_ok view s" and "fetches C m (chip_of view s) = (bs, e)" and "1 \<le> m" and "m \<le> 512" and "512 * slow \<le> n"
  shows "\<exists>t. sd_read_data n d m s = Ret t bs \<and> wire_ok view t \<and> chip_of view t = e"
proof -
  obtain h where "spi_receive_data_standard n d 0 0 [] m (spi_init d 0 0 0 8 0 (sd_hw s)) = Some (h, bs)" "resting (view h)" "sv_chip (view h) = e"
    using spi_receive_ok [OF c _ assms(4,5) enough_polls [OF assms(6,5)], of "sd_hw s"] w assms(3) by (auto simp: wire_ok_def chip_of_def)
  then show ?thesis
    using w by (simp add: sd_read_data_def Let_def wire_ok_def chip_of_def)
qed

lemma wire_ok_pins [simp]:
  "wire_ok view (SD_CS_HIGH s) = wire_ok view s" "wire_ok view (SD_CS_LOW s) = wire_ok view s"
  "chip_of view (SD_CS_HIGH s) = chip_of view s" "chip_of view (SD_CS_LOW s) = chip_of view s"
  by (simp_all add: wire_ok_def chip_of_def SD_CS_HIGH_def SD_CS_LOW_def)

lemma sd_send_cmd_ok:
  assumes "controller d C view lag slow" and "wire_ok view s" and "512 * slow \<le> n"
  shows "\<exists>t. sd_send_cmd n d cmd arg crc s = Ret t () \<and> wire_ok view t \<and> chip_of view t = fold (give C) (cmd_frame cmd arg crc) (chip_of view s)"
  using sd_write_data_ok [OF assms(1), of "SD_CS_LOW s" "cmd_frame cmd arg crc" n] assms(2,3) by (simp add: sd_send_cmd_def cmd_frame_def)

lemma sd_end_cmd_ok:
  assumes "controller d C view lag slow" and "wire_ok view s" and "512 * slow \<le> n"
  shows "\<exists>t. sd_end_cmd n d s = Ret t () \<and> wire_ok view t \<and> chip_of view t = give C 0xff (chip_of view s)"
  using sd_write_data_ok [OF assms(1), of "SD_CS_HIGH s" "[0xff]" n] assms(2,3) by (simp add: sd_end_cmd_def)

text \<open>The answer of the card may take its time.\<close>

lemma response_loop_ok:
  assumes c: "controller d C view lag slow" and "512 * slow \<le> n" and "r \<noteq> 0xff"
  shows "wire_ok view s \<Longrightarrow> fetches C (p + 1) (chip_of view s) = (replicate p 0xff @ [r], e) \<Longrightarrow> p < m \<Longrightarrow>
    \<exists>t. response_loop m n d s = Ret t r \<and> wire_ok view t \<and> chip_of view t = e"
proof (induction p arbitrary: m s)
  case 0
  then show ?case
    using sd_read_data_ok [OF c 0(1), of 1 "[r]" e n] assms(2,3) by (cases m) auto
next
  case (Suc p)
  obtain j where m: "m = Suc j" "p < j"
    using Suc.prems(3) by (cases m) auto
  obtain f where f: "fetches C 1 (chip_of view s) = ([0xff], f)" "fetches C (p + 1) f = (replicate p 0xff @ [r], e)"
    using fetches_split [of C "[0xff]" "p + 1" "chip_of view s" "replicate p 0xff @ [r]" e] Suc.prems(2) by auto
  obtain t where t: "sd_read_data n d 1 s = Ret t [0xff]" "wire_ok view t" "chip_of view t = f"
    using sd_read_data_ok [OF c Suc.prems(1) f(1)] assms(2) by auto
  show ?case
    using Suc.IH [of t j] t f(2) m by simp
qed

lemmas sd_get_response_ok = response_loop_ok [where m = "0x0fff", folded sd_get_response_def]

lemma busy_loop_ok:
  assumes c: "controller d C view lag slow" and "512 * slow \<le> n" and "b \<noteq> 0"
  shows "wire_ok view s \<Longrightarrow> fetches C (z + 1) (chip_of view s) = (replicate z 0 @ [b], e) \<Longrightarrow> z < m \<Longrightarrow>
    \<exists>t. busy_loop m n d s = Ret t () \<and> wire_ok view t \<and> chip_of view t = e"
proof (induction z arbitrary: m s)
  case 0
  then show ?case
    using sd_read_data_ok [OF c 0(1), of 1 "[b]" e n] assms(2,3) by (cases m) auto
next
  case (Suc z)
  obtain j where m: "m = Suc j" "z < j"
    using Suc.prems(3) by (cases m) auto
  obtain f where f: "fetches C 1 (chip_of view s) = ([0], f)" "fetches C (z + 1) f = (replicate z 0 @ [b], e)"
    using fetches_split [of C "[0]" "z + 1" "chip_of view s" "replicate z 0 @ [b]" e] Suc.prems(2) by auto
  obtain t where t: "sd_read_data n d 1 s = Ret t [0]" "wire_ok view t" "chip_of view t = f"
    using sd_read_data_ok [OF c Suc.prems(1) f(1)] assms(2) by auto
  show ?case
    using Suc.IH [of t j] t f(2) m by simp
qed

section \<open>What the card does\<close>

text \<open>A card that is ready answers a reading of one block with 0 after at most 4094 idle bytes, then after at most 4094 idle bytes with the token, the block and
  two bytes more, and is ready again behind one more byte. It answers a writing with 0, takes the token, the block and two bytes,
  accepts them, holds the line at 0 for less than \<open>busy\<close> bytes, and is ready again with the new block behind two more bytes.\<close>

definition block_command :: "u8 \<Rightarrow> u32 \<Rightarrow> u8 list" where
  "block_command code a = [code, ucast (drop_bit 24 a), ucast (drop_bit 16 a), ucast (drop_bit 8 a), ucast a, 0]"

lemma cmd_frame_block: "cmd_frame 17 a 0 = block_command 0x51 a" "cmd_frame 24 a 0 = block_command 0x58 a"
  by (simp_all add: cmd_frame_def block_command_def)

definition reads_block :: "'c chip \<Rightarrow> ('c \<Rightarrow> bool) \<Rightarrow> ('c \<Rightarrow> u32 \<Rightarrow> u8 list) \<Rightarrow> bool" where
  "reads_block C ready blocks \<longleftrightarrow> (\<forall>c a. ready c \<longrightarrow> (\<exists>p q crc e. p < 4095 \<and> q < 4095 \<and> length crc = 2
    \<and> fetches C (p + 1 + (q + 1 + (512 + 2))) (fold (give C) (block_command 0x51 a) c) =
        ((replicate p 0xff @ [0]) @ (replicate q 0xff @ [0xfe]) @ blocks c a @ crc, e)
    \<and> ready (give C 0xff e) \<and> blocks (give C 0xff e) = blocks c))"

definition writes_block :: "'c chip \<Rightarrow> ('c \<Rightarrow> bool) \<Rightarrow> ('c \<Rightarrow> u32 \<Rightarrow> u8 list) \<Rightarrow> nat \<Rightarrow> bool" where
  "writes_block C ready blocks busy \<longleftrightarrow> (\<forall>c a data. ready c \<and> length data = 512 \<longrightarrow> (\<exists>p e r z b f. p < 4095
    \<and> fetches C (p + 1) (fold (give C) (block_command 0x58 a) c) = (replicate p 0xff @ [0], e)
    \<and> r AND 0x1f = 0x05 \<and> z < busy \<and> b \<noteq> 0
    \<and> fetches C (1 + (z + 1)) (fold (give C) ([0xff, 0xfe] @ data @ [0xff, 0xfe]) e) = ([r] @ replicate z 0 @ [b], f)
    \<and> ready (give C 0xff (give C 0xff f)) \<and> blocks (give C 0xff (give C 0xff f)) = (blocks c)(a := data)))"

lemma sd_read_sector_ok:
  assumes c: "controller d C view lag slow" and card: "reads_block C ready blocks" and w: "wire_ok view s" and r: "ready (chip_of view s)" and n: "512 * slow \<le> n"
  shows "\<exists>t. sd_read_sector n d a 1 s = Ret t (0, blocks (chip_of view s) a) \<and> wire_ok view t \<and> ready (chip_of view t)
    \<and> blocks (chip_of view t) = blocks (chip_of view s)"
proof -
  obtain p q crc e where p: "p < 4095" "q < 4095" "length crc = 2"
    and f: "fetches C (p + 1 + (q + 1 + (512 + 2))) (fold (give C) (block_command 0x51 a) (chip_of view s)) =
        ((replicate p 0xff @ [0]) @ (replicate q 0xff @ [0xfe]) @ blocks (chip_of view s) a @ crc, e)"
    and e: "ready (give C 0xff e)" "blocks (give C 0xff e) = blocks (chip_of view s)"
    using card r unfolding reads_block_def by metis
  let ?b = "blocks (chip_of view s) a"
  have l: "length ?b = 512"
    using arg_cong [OF f, of "\<lambda>x. length (fst x)"] p(3) by simp
  obtain t1 where t1: "sd_send_cmd n d 17 a 0 s = Ret t1 ()" "wire_ok view t1" "chip_of view t1 = fold (give C) (block_command 0x51 a) (chip_of view s)"
    using sd_send_cmd_ok [OF c w, of n 17 a 0] n by (auto simp: cmd_frame_block)
  have idle: "length (replicate m 0xff @ [x]) = m + 1" for m and x :: u8
    by simp
  obtain f1 where f1: "fetches C (p + 1) (chip_of view t1) = (replicate p 0xff @ [0], f1)"
    "fetches C (q + 1 + (512 + 2)) f1 = ((replicate q 0xff @ [0xfe]) @ ?b @ crc, e)"
    by (rule fetches_split [of C "replicate p 0xff @ [0]" "q + 1 + (512 + 2)" "chip_of view t1" "(replicate q 0xff @ [0xfe]) @ ?b @ crc" e,
          unfolded idle, OF f [folded t1(3)]])
  obtain f2 where f2: "fetches C (q + 1) f1 = (replicate q 0xff @ [0xfe], f2)" "fetches C (512 + 2) f2 = (?b @ crc, e)"
    by (rule fetches_split [of C "replicate q 0xff @ [0xfe]" "512 + 2" f1 "?b @ crc" e, unfolded idle, OF f1(2)])
  obtain f3 where f3: "fetches C 512 f2 = (?b, f3)" "fetches C 2 f3 = (crc, e)"
    by (rule fetches_split [of C ?b 2 f2 crc e, unfolded l, OF f2(2)])
  obtain t2 where t2: "sd_get_response n d t1 = Ret t2 0" "wire_ok view t2" "chip_of view t2 = f1"
    using sd_get_response_ok [OF c _ _ t1(2) f1(1) p(1), of n] n by auto
  obtain t3 where t3: "sd_get_response n d t2 = Ret t3 0xfe" "wire_ok view t3" "chip_of view t3 = f2"
    using sd_get_response_ok [OF c _ _ t2(2), of n "0xfe" q f2] f2(1) t2(3) p(2) n by auto
  obtain t4 where t4: "sd_read_data n d 512 t3 = Ret t4 ?b" "wire_ok view t4" "chip_of view t4 = f3"
    using sd_read_data_ok [OF c t3(2), of 512 ?b f3 n] f3(1) t3(3) n by auto
  obtain t5 where t5: "sd_read_data n d 2 t4 = Ret t5 crc" "wire_ok view t5" "chip_of view t5 = e"
    using sd_read_data_ok [OF c t4(2), of 2 crc e n] f3(2) t4(3) n by auto
  obtain t6 where t6: "sd_end_cmd n d t5 = Ret t6 ()" "wire_ok view t6" "chip_of view t6 = give C 0xff e"
    using sd_end_cmd_ok [OF c t5(2), of n] t5(3) n by auto
  have "read_blocks 1 n d t2 = Ret t5 (0, [?b])"
    by (simp add: t3(1) t4(1) t5(1))
  then have "sd_read_sector n d a 1 s = Ret t6 (0, ?b)"
    by (simp add: sd_read_sector_def read_sectors_def t1(1) t2(1) t6(1) del: read_blocks.simps One_nat_def)
  then show ?thesis
    using t6 e by auto
qed

lemma sd_write_sector_ok:
  assumes c: "controller d C view lag slow" and card: "writes_block C ready blocks busy" and w: "wire_ok view s" and r: "ready (chip_of view s)"
    and n: "512 * slow \<le> n" "busy \<le> n" and l: "length data = 512"
  shows "\<exists>t. sd_write_sector n d data a 1 s = Ret t 0 \<and> wire_ok view t \<and> ready (chip_of view t)
    \<and> blocks (chip_of view t) = (blocks (chip_of view s))(a := data)"
proof -
  obtain p e x z b f where p: "p < 4095" "x AND 0x1f = 0x05" "z < busy" "b \<noteq> 0"
    and f: "fetches C (p + 1) (fold (give C) (block_command 0x58 a) (chip_of view s)) = (replicate p 0xff @ [0], e)"
      "fetches C (1 + (z + 1)) (fold (give C) ([0xff, 0xfe] @ data @ [0xff, 0xfe]) e) = ([x] @ replicate z 0 @ [b], f)"
    and e: "ready (give C 0xff (give C 0xff f))" "blocks (give C 0xff (give C 0xff f)) = (blocks (chip_of view s))(a := data)"
    using card r l unfolding writes_block_def by metis
  obtain t1 where t1: "sd_send_cmd n d 24 a 0 s = Ret t1 ()" "wire_ok view t1" "chip_of view t1 = fold (give C) (block_command 0x58 a) (chip_of view s)"
    using sd_send_cmd_ok [OF c w, of n 24 a 0] n by (auto simp: cmd_frame_block)
  obtain t2 where t2: "sd_get_response n d t1 = Ret t2 0" "wire_ok view t2" "chip_of view t2 = e"
    using sd_get_response_ok [OF c _ _ t1(2), of n 0 p e] f(1) t1(3) p(1) n by auto
  obtain t3 where t3: "sd_write_data n d [0xff, 0xfe] t2 = Ret t3 ()" "wire_ok view t3" "chip_of view t3 = fold (give C) [0xff, 0xfe] e"
    using sd_write_data_ok [OF c t2(2), of "[0xff, 0xfe]" n] t2(3) n by auto
  obtain t4 where t4: "sd_write_data n d data t3 = Ret t4 ()" "wire_ok view t4" "chip_of view t4 = fold (give C) ([0xff, 0xfe] @ data) e"
    using sd_write_data_ok [OF c t3(2), of data n] t3(3) n l by auto
  obtain t5 where t5: "sd_write_data n d [0xff, 0xfe] t4 = Ret t5 ()" "wire_ok view t5"
    "chip_of view t5 = fold (give C) ([0xff, 0xfe] @ data @ [0xff, 0xfe]) e"
    using sd_write_data_ok [OF c t4(2), of "[0xff, 0xfe]" n] t4(3) n by auto
  obtain g where g: "fetches C 1 (chip_of view t5) = ([x], g)" "fetches C (z + 1) g = (replicate z 0 @ [b], f)"
    using fetches_split [of C "[x]" "z + 1" "chip_of view t5" "replicate z 0 @ [b]" f] f(2) t5(3) by auto
  obtain t6 where t6: "sd_read_data n d 1 t5 = Ret t6 [x]" "wire_ok view t6" "chip_of view t6 = g"
    using sd_read_data_ok [OF c t5(2) g(1), of n] n by auto
  obtain t7 where t7: "busy_loop n n d t6 = Ret t7 ()" "wire_ok view t7" "chip_of view t7 = f"
    using busy_loop_ok [OF c _ p(4) t6(2), of n z f n] g(2) t6(3) p(3) n by auto
  obtain t8 where t8: "sd_end_cmd n d t7 = Ret t8 ()" "wire_ok view t8" "chip_of view t8 = give C 0xff f"
    using sd_end_cmd_ok [OF c t7(2), of n] t7(3) n by auto
  obtain t9 where t9: "sd_end_cmd n d t8 = Ret t9 ()" "wire_ok view t9" "chip_of view t9 = give C 0xff (give C 0xff f)"
    using sd_end_cmd_ok [OF c t8(2), of n] t8(3) n by auto
  have "sd_get_dataresponse n d t5 = Ret t7 0"
    by (simp add: sd_get_dataresponse_def t6(1) p(2) t7(1) del: One_nat_def)
  then have "write_blocks [data] n d [0xff, 0xfe] t2 = Ret t7 True"
    by (simp add: t3(1) t4(1) t5(1))
  then have "sd_write_sector n d data a 1 s = Ret t9 0"
    by (simp add: sd_write_sector_def write_sectors_def l t1(1) t2(1) t8(1) t9(1) del: write_blocks.simps)
  then show ?thesis
    using t9 e by auto
qed

text \<open>A sector that is written to the card is read back: on such a controller and a card that follows the protocol for single blocks, with delays below the
  time limits of the driver, \<open>sd_write_sector\<close> returns 0 and stores the 512 bytes in their block and in no other, and \<open>sd_read_sector\<close> of any block afterwards
  returns 0 and what the card then holds there. The card is taken not to mind that the driver lets go of its select line after every transfer, in the
  middle of a command; the standard asks for the line to be held.\<close>

lemma sd_sector_round_trip:
  assumes "controller d C view lag slow" and "reads_block C ready blocks" and "writes_block C ready blocks busy" and "wire_ok view s"
    and "ready (chip_of view s)" and "512 * slow \<le> n" and "busy \<le> n" and "length data = 512"
  shows "\<exists>t. sd_write_sector n d data a 1 s = Ret t 0 \<and> blocks (chip_of view t) = (blocks (chip_of view s))(a := data)
    \<and> (\<forall>b. \<exists>u. sd_read_sector n d b 1 t = Ret u (0, if b = a then data else blocks (chip_of view s) b)
        \<and> wire_ok view u \<and> ready (chip_of view u) \<and> blocks (chip_of view u) = blocks (chip_of view t))"
proof -
  obtain t where t: "sd_write_sector n d data a 1 s = Ret t 0" "wire_ok view t" "ready (chip_of view t)"
    "blocks (chip_of view t) = (blocks (chip_of view s))(a := data)"
    using sd_write_sector_ok [OF assms(1,3-8)] by blast
  have "\<exists>u. sd_read_sector n d b 1 t = Ret u (0, if b = a then data else blocks (chip_of view s) b)
      \<and> wire_ok view u \<and> ready (chip_of view u) \<and> blocks (chip_of view u) = blocks (chip_of view t)" for b
    using sd_read_sector_ok [OF assms(1,2) t(2,3) assms(6), of b] by (auto simp: t(4))
  with t show ?thesis
    by blast
qed

section \<open>A card\<close>

text \<open>A card that answers at once.\<close>

record demo_card =
  dc_blocks :: "u32 \<Rightarrow> u8 list"
  dc_write :: "u32 option"
  dc_in :: "u8 list"
  dc_out :: "u8 list"

definition frame_arg :: "u8 list \<Rightarrow> u32" where
  "frame_arg f = push_bit 24 (ucast (f ! 1)) OR push_bit 16 (ucast (f ! 2)) OR push_bit 8 (ucast (f ! 3)) OR ucast (f ! 4)"

definition demo_give :: "u8 \<Rightarrow> demo_card \<Rightarrow> demo_card" where
  "demo_give b c =
    (let i = dc_in c @ [b] in
     case dc_write c of
       Some a \<Rightarrow>
         if length i < 516 then c\<lparr>dc_in := i\<rparr>
         else c\<lparr>dc_blocks := (dc_blocks c)(a := take 512 (drop 2 i)), dc_write := None, dc_in := [], dc_out := [5, 0, 0xff]\<rparr>
     | None \<Rightarrow>
         if dc_in c = [] \<and> b = 0xff then c
         else if length i < 6 then c\<lparr>dc_in := i\<rparr>
         else if hd i = 0x51 then c\<lparr>dc_in := [], dc_out := 0 # 0xff # 0xfe # dc_blocks c (frame_arg i) @ [0, 0]\<rparr>
         else c\<lparr>dc_write := Some (frame_arg i), dc_in := [], dc_out := [0]\<rparr>)"

definition demo_chip :: "demo_card chip" where
  "demo_chip = \<lparr>give = demo_give, fetch = (\<lambda>c. case dc_out c of [] \<Rightarrow> (0xff, c) | b # bs \<Rightarrow> (b, c\<lparr>dc_out := bs\<rparr>))\<rparr>"

definition demo_ready :: "demo_card \<Rightarrow> bool" where
  "demo_ready c \<longleftrightarrow> dc_write c = None \<and> dc_in c = [] \<and> dc_out c = [] \<and> (\<forall>a. length (dc_blocks c a) = 512)"

lemma frame_arg_command: "frame_arg (block_command code a) = a"
proof (rule bit_word_eqI)
  fix n
  assume "n < LENGTH(32)"
  then consider "n < 8" | "8 \<le> n" "n < 16" | "16 \<le> n" "n < 24" | "24 \<le> n" "n < 32"
    by fastforce
  then show "bit (frame_arg (block_command code a)) n = bit a n"
    by cases (auto simp: frame_arg_def block_command_def bit_simps)
qed

lemma demo_fetches: "dc_out c = xs @ ys \<Longrightarrow> fetches demo_chip (length xs) c = (xs, c\<lparr>dc_out := ys\<rparr>)"
  by (induction xs arbitrary: c) (auto simp: demo_chip_def)

lemma demo_collect:
  "dc_write c = Some a \<Longrightarrow> length (dc_in c) + length bs < 516 \<Longrightarrow> fold demo_give bs c = c\<lparr>dc_in := dc_in c @ bs\<rparr>"
  by (induction bs arbitrary: c) (auto simp: demo_give_def)

lemma demo_start:
  "dc_write c = None \<Longrightarrow> dc_in c \<noteq> [] \<or> hd bs \<noteq> 0xff \<Longrightarrow> length (dc_in c) + length bs < 6 \<Longrightarrow> fold demo_give bs c = c\<lparr>dc_in := dc_in c @ bs\<rparr>"
  by (induction bs arbitrary: c) (auto simp: demo_give_def)

lemma demo_command:
  assumes "demo_ready c" and "code \<in> {0x51, 0x58}"
  shows "fold demo_give (block_command code a) c =
    (if code = 0x51 then c\<lparr>dc_out := 0 # 0xff # 0xfe # dc_blocks c a @ [0, 0]\<rparr> else c\<lparr>dc_write := Some a, dc_out := [0]\<rparr>)"
proof -
  obtain f where f: "block_command code a = f @ [0]" "length f = 5" "hd f = code" "f \<noteq> []"
  proof (rule that)
    show "block_command code a = butlast (block_command code a) @ [0]" "length (butlast (block_command code a)) = 5"
      "hd (butlast (block_command code a)) = code" "butlast (block_command code a) \<noteq> []"
      using assms(2) by (auto simp: block_command_def)
  qed
  have "fold demo_give f c = c\<lparr>dc_in := f\<rparr>"
    using demo_start [of c f] assms f(2,3) by (auto simp: demo_ready_def)
  then have "fold demo_give (block_command code a) c = demo_give 0 (c\<lparr>dc_in := f\<rparr>)"
    by (simp add: f(1))
  moreover have "frame_arg (f @ [0]) = a"
    using frame_arg_command [of code a] by (simp add: f(1))
  ultimately show ?thesis
    using assms f(2-4) by (auto simp: demo_give_def demo_ready_def Let_def)
qed

lemma demo_reads: "reads_block demo_chip demo_ready dc_blocks"
  unfolding reads_block_def
proof (intro allI impI)
  fix c a
  assume c: "demo_ready c"
  let ?x = "fold (give demo_chip) (block_command 0x51 a) c"
  have g: "?x = c\<lparr>dc_out := 0 # 0xff # 0xfe # dc_blocks c a @ [0, 0]\<rparr>"
    using demo_command [OF c, of "0x51" a] by (simp add: demo_chip_def)
  have l: "length ((replicate 0 0xff @ [0]) @ (replicate 1 0xff @ [0xfe]) @ dc_blocks c a @ [0, 0 :: u8]) = 0 + 1 + (1 + 1 + (512 + 2))"
    using c by (simp add: demo_ready_def)
  have "dc_out ?x = ((replicate 0 0xff @ [0]) @ (replicate 1 0xff @ [0xfe]) @ dc_blocks c a @ [0, 0]) @ []"
    by (simp add: g)
  note f = demo_fetches [OF this, unfolded l]
  have "?x\<lparr>dc_out := []\<rparr> = c" "give demo_chip 0xff c = c"
    unfolding g using c by (simp_all add: demo_chip_def demo_give_def demo_ready_def)
  with c f show "\<exists>p q crc e. p < 4095 \<and> q < 4095 \<and> length crc = 2 \<and>
      fetches demo_chip (p + 1 + (q + 1 + (512 + 2))) ?x = ((replicate p 0xff @ [0]) @ (replicate q 0xff @ [0xfe]) @ dc_blocks c a @ crc, e) \<and>
      demo_ready (give demo_chip 0xff e) \<and> dc_blocks (give demo_chip 0xff e) = dc_blocks c"
    by (intro exI [of _ 0] exI [of _ 1] exI [of _ "[0, 0]"] exI [of _ c] conjI) (simp_all only: f, simp_all)
qed

lemma demo_writes: "writes_block demo_chip demo_ready dc_blocks 512"
  unfolding writes_block_def
proof (intro allI impI)
  fix c a data
  assume c: "demo_ready c \<and> length (data :: u8 list) = 512"
  let ?x = "fold (give demo_chip) (block_command 0x58 a) c"
  have g: "?x = c\<lparr>dc_write := Some a, dc_out := [0]\<rparr>"
    using demo_command [of c "0x58" a] c by (simp add: demo_chip_def)
  have f: "fetches demo_chip (0 + 1) ?x = (replicate 0 0xff @ [0], c\<lparr>dc_write := Some a\<rparr>)"
    unfolding g using c by (simp add: demo_chip_def demo_ready_def)
  let ?e = "c\<lparr>dc_write := Some a\<rparr>" and ?d = "c\<lparr>dc_blocks := (dc_blocks c)(a := data)\<rparr>"
  have "fold demo_give ([0xff, 0xfe] @ data @ [0xff]) ?e = ?e\<lparr>dc_in := [0xff, 0xfe] @ data @ [0xff]\<rparr>"
    using demo_collect [of ?e a "[0xff, 0xfe] @ data @ [0xff]"] c by (simp add: demo_ready_def)
  moreover have "fold demo_give ([0xff, 0xfe] @ data @ [0xff, 0xfe]) ?e = demo_give 0xfe (fold demo_give ([0xff, 0xfe] @ data @ [0xff]) ?e)"
    by simp
  ultimately have "fold (give demo_chip) ([0xff, 0xfe] @ data @ [0xff, 0xfe]) ?e = demo_give 0xfe (?e\<lparr>dc_in := [0xff, 0xfe] @ data @ [0xff]\<rparr>)"
    by (simp only: demo_chip_def chip.simps)
  also have "\<dots> = ?d\<lparr>dc_out := [5, 0, 0xff]\<rparr>"
    using c by (simp add: demo_ready_def demo_give_def)
  finally have "fold (give demo_chip) ([0xff, 0xfe] @ data @ [0xff, 0xfe]) ?e = ?d\<lparr>dc_out := [5, 0, 0xff]\<rparr>" .
  then have h: "fetches demo_chip (1 + (1 + 1)) (fold (give demo_chip) ([0xff, 0xfe] @ data @ [0xff, 0xfe]) ?e) = ([5] @ replicate 1 0 @ [0xff], ?d)"
    by (simp only:) (use c in \<open>simp add: demo_chip_def demo_ready_def\<close>)
  have d: "give demo_chip 0xff ?d = ?d" "demo_ready ?d" "dc_blocks ?d = (dc_blocks c)(a := data)"
    using c by (auto simp: demo_chip_def demo_give_def demo_ready_def)
  show "\<exists>p e r z b f. p < 4095 \<and> fetches demo_chip (p + 1) ?x = (replicate p 0xff @ [0], e) \<and> r AND 0x1f = 0x05 \<and> z < 512 \<and> b \<noteq> 0 \<and>
      fetches demo_chip (1 + (z + 1)) (fold (give demo_chip) ([0xff, 0xfe] @ data @ [0xff, 0xfe]) e) = ([r] @ replicate z 0 @ [b], f) \<and>
      demo_ready (give demo_chip 0xff (give demo_chip 0xff f)) \<and> dc_blocks (give demo_chip 0xff (give demo_chip 0xff f)) = (dc_blocks c)(a := data)"
    by (rule exI [of _ 0], rule exI [of _ ?e], rule exI [of _ 5], rule exI [of _ 1], rule exI [of _ "0xff"], rule exI [of _ ?d], intro conjI)
      (use f h d in simp_all)
qed

definition demo_sd :: "(demo_card demo_spi, mmkernel) sdio" where
  "demo_sd = \<lparr>sd_hw = demo_spi0 \<lparr>dc_blocks = (\<lambda>_. replicate 512 0), dc_write = None, dc_in = [], dc_out = []\<rparr>,
     sd_pins = demo_pins, sd_kernel = init_mem demo_mm,
     cardinfo = \<lparr>SD_csd = \<lparr>CSDStruct = 0, SysSpecVersion = 0, csd_Reserved1 = 0, TAAC = 0, NSAC = 0, MaxBusClkFrec = 0,
         CardComdClasses = 0, RdBlockLen = 0, PartBlockRead = 0, WrBlockMisalign = 0, RdBlockMisalign = 0, DSRImpl = 0,
         csd_Reserved2 = 0, DeviceSize = 0, MaxRdCurrentVDDMin = 0, MaxRdCurrentVDDMax = 0, MaxWrCurrentVDDMin = 0,
         MaxWrCurrentVDDMax = 0, DeviceSizeMul = 0, EraseGrSize = 0, EraseGrMul = 0, WrProtectGrSize = 0,
         WrProtectGrEnable = 0, ManDeflECC = 0, WrSpeedFact = 0, MaxWrBlockLen = 0, WriteBlockPaPartial = 0,
         csd_Reserved3 = 0, ContentProtectAppli = 0, FileFormatGrouop = 0, CopyFlag = 0, PermWrProtect = 0,
         TempWrProtect = 0, FileFormat = 0, csd_ECC = 0, CSD_CRC = 0, csd_Reserved4 = 0\<rparr>,
       SD_cid = \<lparr>ManufacturerID = 0, OEM_AppliID = 0, ProdName1 = 0, ProdName2 = 0, ProdRev = 0, ProdSN = 0, cid_Reserved1 = 0,
         ManufactDate = 0, CID_CRC = 0, cid_Reserved2 = 0\<rparr>,
        CardCapacity = 0, CardBlockSize = 0\<rparr>\<rparr>"

lemma sd_sector_round_trip_demo:
  "\<exists>t u. sd_write_sector 1536 (demo_dev demo_chip) (replicate 512 7) 2080 1 demo_sd = Ret t 0
    \<and> sd_read_sector 1536 (demo_dev demo_chip) 2080 1 t = Ret u (0, replicate 512 7)"
proof -
  have "\<forall>q. q \<noteq> free_source_list \<longrightarrow> page_lists demo_mm q = []"
    by (simp add: demo_mm_def lockkernel.defs)
  then have "wire_ok fst demo_sd"
    using mm_inv_init_mem [of demo_mm] by (simp add: wire_ok_def demo_sd_def demo_spi0_def resting_def)
  moreover have "demo_ready (chip_of fst demo_sd)"
    by (simp add: demo_ready_def chip_of_def demo_sd_def demo_spi0_def)
  moreover have "length (replicate 512 (7 :: u8)) = 512"
    by simp
  ultimately obtain t where t: "sd_write_sector 1536 (demo_dev demo_chip) (replicate 512 7) 2080 1 demo_sd = Ret t 0"
    "\<forall>b. \<exists>u. sd_read_sector 1536 (demo_dev demo_chip) b 1 t =
      Ret u (0, if b = 2080 then replicate 512 7 else dc_blocks (chip_of fst demo_sd) b)"
    using sd_sector_round_trip [OF demo_controller demo_reads demo_writes, of demo_sd 1536 "replicate 512 7" 2080] by force
  then show ?thesis
    using spec [OF t(2), of 2080] by auto
qed

section \<open>The end of the attempts\<close>

text \<open>The loops of \<open>sd_init\<close> count an index of eight bits down to 0 and test it for 0 afterwards. When no attempt succeeds the index has gone on to 255, and the
  initialisation continues; when the last attempt is the one that succeeds the index is 0, and the kernel stops.\<close>

lemma try_loop_fails:
  assumes "\<And>t. \<exists>u x. body t = Ret u (Some False, x)"
  shows "\<exists>u x. try_loop m body frame s = Ret u (Some 255, x)"
proof (induction m arbitrary: frame s)
  case (Suc m)
  then show ?case
    using assms [of s] by auto
qed simp

lemma failed_attempts_go_on:
  assumes "\<And>t. \<exists>u x. body t = Ret u (Some False, x)"
  shows "\<exists>u x. check_index k (try_loop 255 body frame s) = k u x"
proof -
  obtain u x where "try_loop 255 body frame s = Ret u (Some 255, x)"
    using try_loop_fails [where body = body] assms by blast
  then have "check_index k (try_loop 255 body frame s) = k u x"
    by (simp add: check_index_def)
  then show ?thesis
    by blast
qed

lemma last_attempt_stops:
  assumes "body s = Ret u (Some True, x)"
  shows "check_index k (try_loop 1 body frame s) = Panic u"
  using assms by (simp add: check_index_def)

end
