(* ===== verification/VirtioDisk.thy ===== *)
theory VirtioDisk
  imports Smp PageTable
begin

unbundle bit_operations_syntax

text \<open>
  The virtio disk (\<open>drivers/sdcard/virtio_disk.c\<close>): eight descriptors that the kernel shares with the device, the queue of requests
  and the interrupt. The members \<open>used\<close> are written by the device. \<open>rd\<close> gives what the device registers read, and the writes to
  registers are kept in the order they are made. A buffer is its index; its member \<open>disk\<close> is used by this driver only and is kept here.
  A spinning processor is \<open>None\<close>.
\<close>

section \<open>Data\<close>

abbreviation (input) NUM :: nat where "NUM \<equiv> 8"
abbreviation (input) VRING_DESC_F_NEXT :: u16 where "VRING_DESC_F_NEXT \<equiv> 1"
abbreviation (input) VRING_DESC_F_WRITE :: u16 where "VRING_DESC_F_WRITE \<equiv> 2"
abbreviation (input) VIRTIO_BLK_T_IN :: u32 where "VIRTIO_BLK_T_IN \<equiv> 0"
abbreviation (input) VIRTIO_BLK_T_OUT :: u32 where "VIRTIO_BLK_T_OUT \<equiv> 1"
abbreviation (input) VIRTIO_MMIO_MAGIC_VALUE :: u32 where "VIRTIO_MMIO_MAGIC_VALUE \<equiv> 0x000"
abbreviation (input) VIRTIO_MMIO_VERSION :: u32 where "VIRTIO_MMIO_VERSION \<equiv> 0x004"
abbreviation (input) VIRTIO_MMIO_DEVICE_ID :: u32 where "VIRTIO_MMIO_DEVICE_ID \<equiv> 0x008"
abbreviation (input) VIRTIO_MMIO_VENDOR_ID :: u32 where "VIRTIO_MMIO_VENDOR_ID \<equiv> 0x00c"
abbreviation (input) VIRTIO_MMIO_DEVICE_FEATURES :: u32 where "VIRTIO_MMIO_DEVICE_FEATURES \<equiv> 0x010"
abbreviation (input) VIRTIO_MMIO_DRIVER_FEATURES :: u32 where "VIRTIO_MMIO_DRIVER_FEATURES \<equiv> 0x020"
abbreviation (input) VIRTIO_MMIO_GUEST_PAGE_SIZE :: u32 where "VIRTIO_MMIO_GUEST_PAGE_SIZE \<equiv> 0x028"
abbreviation (input) VIRTIO_MMIO_QUEUE_SEL :: u32 where "VIRTIO_MMIO_QUEUE_SEL \<equiv> 0x030"
abbreviation (input) VIRTIO_MMIO_QUEUE_NUM_MAX :: u32 where "VIRTIO_MMIO_QUEUE_NUM_MAX \<equiv> 0x034"
abbreviation (input) VIRTIO_MMIO_QUEUE_NUM :: u32 where "VIRTIO_MMIO_QUEUE_NUM \<equiv> 0x038"
abbreviation (input) VIRTIO_MMIO_QUEUE_PFN :: u32 where "VIRTIO_MMIO_QUEUE_PFN \<equiv> 0x040"
abbreviation (input) VIRTIO_MMIO_QUEUE_NOTIFY :: u32 where "VIRTIO_MMIO_QUEUE_NOTIFY \<equiv> 0x050"
abbreviation (input) VIRTIO_MMIO_INTERRUPT_STATUS :: u32 where "VIRTIO_MMIO_INTERRUPT_STATUS \<equiv> 0x060"
abbreviation (input) VIRTIO_MMIO_INTERRUPT_ACK :: u32 where "VIRTIO_MMIO_INTERRUPT_ACK \<equiv> 0x064"
abbreviation (input) VIRTIO_MMIO_STATUS :: u32 where "VIRTIO_MMIO_STATUS \<equiv> 0x070"

record VRingDesc =
  vd_addr :: u64
  vd_len :: u32
  vd_flags :: u16
  vd_next :: u16

record UsedArea =
  ua_flags :: u16
  ua_id :: u16
  ua_elems :: "nat \<Rightarrow> u32"

record virtio_blk_outhdr =
  oh_type :: u32
  oh_reserved :: u32
  oh_sector :: u64

record vdisk =
  desc :: "nat \<Rightarrow> VRingDesc"
  avail :: "nat \<Rightarrow> u16"
  used_area :: UsedArea
  desc_free :: "nat \<Rightarrow> u8"
  used_idx :: u16
  info_b :: "nat \<Rightarrow> nat option"
  info_status :: "nat \<Rightarrow> u8"
  vdisk_lock :: spinlock
  buf_disk :: "nat \<Rightarrow> u8"
  mmio_writes :: "(u32 \<times> u32) list"

text \<open>Addresses the linker and the stack choose: of \<open>pages\<close>, of \<open>free\<close>, of the status bytes, of the data of a buffer and of \<open>buf0\<close>.\<close>

record vdisk_addrs =
  at_pages :: u64
  at_free :: u64
  at_status :: "nat \<Rightarrow> u64"
  at_data :: "nat \<Rightarrow> u64"
  at_buf0 :: u64

definition mmio_write :: "u32 \<Rightarrow> u32 \<Rightarrow> vdisk \<Rightarrow> vdisk" where
  "mmio_write r v d = d\<lparr>mmio_writes := mmio_writes d @ [(r, v)]\<rparr>"

section \<open>Operations\<close>

text \<open>\<open>None\<close> is \<open>panic\<close>. \<open>~(1 << k)\<close> is extended with its sign.\<close>

definition virtio_disk_init :: "vdisk_addrs \<Rightarrow> (u32 \<Rightarrow> u32) \<Rightarrow> vdisk \<Rightarrow> vdisk option" where
  "virtio_disk_init a rd d =
    (let d = d\<lparr>vdisk_lock := initlock (vdisk_lock d)\<rparr> in
     if rd VIRTIO_MMIO_MAGIC_VALUE \<noteq> 0x74726976 \<or> rd VIRTIO_MMIO_VERSION \<noteq> 1 \<or> rd VIRTIO_MMIO_DEVICE_ID \<noteq> 2
       \<or> rd VIRTIO_MMIO_VENDOR_ID \<noteq> 0x554d4551 then None
     else
       let d = mmio_write VIRTIO_MMIO_STATUS (1 OR 2) (mmio_write VIRTIO_MMIO_STATUS 1 d);
           features = fold (\<lambda>k f. f AND NOT (push_bit k 1)) [5, 7, 11, 12, 27, 29, 28] (ucast (rd VIRTIO_MMIO_DEVICE_FEATURES) :: u64);
           d = mmio_write VIRTIO_MMIO_DRIVER_FEATURES (ucast features) d;
           d = mmio_write VIRTIO_MMIO_STATUS (1 OR 2 OR 8) d;
           d = mmio_write VIRTIO_MMIO_STATUS (1 OR 2 OR 8 OR 4) d;
           d = mmio_write VIRTIO_MMIO_GUEST_PAGE_SIZE 4096 d;
           d = mmio_write VIRTIO_MMIO_QUEUE_SEL 0 d;
           mx = rd VIRTIO_MMIO_QUEUE_NUM_MAX
       in if mx = 0 \<or> mx < of_nat NUM then None
          else
            let d = mmio_write VIRTIO_MMIO_QUEUE_NUM (of_nat NUM) d;
                d = d\<lparr>desc := (\<lambda>_. \<lparr>vd_addr = 0, vd_len = 0, vd_flags = 0, vd_next = 0\<rparr>), avail := (\<lambda>_. 0),
                    used_area := \<lparr>ua_flags = 0, ua_id = 0, ua_elems = (\<lambda>_. 0)\<rparr>\<rparr>;
                d = mmio_write VIRTIO_MMIO_QUEUE_PFN (ucast (drop_bit 12 (at_pages a))) d
            in Some (d\<lparr>desc_free := (\<lambda>i. if i < NUM then 1 else desc_free d i)\<rparr>))"

text \<open>\<open>None\<close> is the result \<open>-1\<close>.\<close>

definition alloc_desc :: "vdisk \<Rightarrow> vdisk \<times> nat option" where
  "alloc_desc d =
    (case find (\<lambda>i. desc_free d i \<noteq> 0) [0..<NUM] of
       None \<Rightarrow> (d, None)
     | Some i \<Rightarrow> (d\<lparr>desc_free := (desc_free d)(i := 0)\<rparr>, Some i))"

text \<open>\<open>wakeup\<close> takes its argument for the head of a list, whose first member is the pointer to the first node: here the eight bytes of
  \<open>free\<close>. Unless they are the address of \<open>free\<close> itself, the list is not empty and its first node is at the address they form. A
  null or unmapped node is a fault in the kernel.\<close>

definition free_word :: "vdisk \<Rightarrow> u64" where
  "free_word d = fold (\<lambda>i w. w OR push_bit (8 * i) (ucast (desc_free d i))) [0..<8] 0"

definition free_desc :: "vdisk_addrs \<Rightarrow> nat \<Rightarrow> vdisk \<Rightarrow> (vdisk, unit) outcome" where
  "free_desc a i d =
    (if i \<ge> NUM then Panic d
     else if desc_free d i \<noteq> 0 then Panic d
     else
       let d = d\<lparr>desc := (desc d)(i := (desc d i)\<lparr>vd_addr := 0\<rparr>), desc_free := (desc_free d)(i := 1)\<rparr>
       in if free_word d = at_free a then Ret d () else Panic d)"

text \<open>A descriptor that was freed is not freed again, so that nine rounds are enough.\<close>

fun free_chain_loop :: "nat \<Rightarrow> vdisk_addrs \<Rightarrow> nat \<Rightarrow> vdisk \<Rightarrow> (vdisk, unit) outcome" where
  "free_chain_loop 0 a i d = Panic d"
| "free_chain_loop (Suc n) a i d =
    obind (free_desc a i d) (\<lambda>d _.
      if vd_flags (desc d i) AND VRING_DESC_F_NEXT \<noteq> 0 then free_chain_loop n a (unat (vd_next (desc d i))) d else Ret d ())"

definition free_chain :: "vdisk_addrs \<Rightarrow> nat \<Rightarrow> vdisk \<Rightarrow> (vdisk, unit) outcome" where
  "free_chain a i d = free_chain_loop (NUM + 1) a i d"

text \<open>The three indexes, or \<open>None\<close> for the result \<open>-1\<close>, after the ones that were taken are freed.\<close>

definition alloc3_desc :: "vdisk_addrs \<Rightarrow> vdisk \<Rightarrow> (vdisk, (nat \<times> nat \<times> nat) option) outcome" where
  "alloc3_desc a d =
    (case alloc_desc d of
       (d, None) \<Rightarrow> Ret d None
     | (d, Some i0) \<Rightarrow>
         (case alloc_desc d of
            (d, None) \<Rightarrow> obind (free_desc a i0 d) (\<lambda>d _. Ret d None)
          | (d, Some i1) \<Rightarrow>
              (case alloc_desc d of
                 (d, None) \<Rightarrow> obind (free_desc a i0 d) (\<lambda>d _. obind (free_desc a i1 d) (\<lambda>d _. Ret d None))
               | (d, Some i2) \<Rightarrow> Ret d (Some (i0, i1, i2)))))"

text \<open>The part of \<open>virtio_disk_rw\<close> that fills the descriptors and tells the device, with the header \<open>buf0\<close> as a result.\<close>

definition submit :: "vdisk_addrs \<Rightarrow> nat \<Rightarrow> u32 \<Rightarrow> bool \<Rightarrow> nat \<times> nat \<times> nat \<Rightarrow> vdisk \<Rightarrow> vdisk \<times> virtio_blk_outhdr" where
  "submit a b sector write idx d =
    (let (i0, i1, i2) = idx;
         buf0 = \<lparr>oh_type = if write then VIRTIO_BLK_T_OUT else VIRTIO_BLK_T_IN, oh_reserved = 0, oh_sector = ucast sector\<rparr>;
         ds = (desc d)(i0 := \<lparr>vd_addr = kva2pa (at_buf0 a), vd_len = 16, vd_flags = VRING_DESC_F_NEXT, vd_next = of_nat i1\<rparr>);
         ds = ds(i1 := \<lparr>vd_addr = at_data a b, vd_len = 512, vd_flags = (if write then 0 else VRING_DESC_F_WRITE) OR VRING_DESC_F_NEXT,
              vd_next = of_nat i2\<rparr>);
         ds = ds(i2 := \<lparr>vd_addr = at_status a i0, vd_len = 1, vd_flags = VRING_DESC_F_WRITE, vd_next = 0\<rparr>);
         d = d\<lparr>desc := ds, info_status := (info_status d)(i0 := 0), buf_disk := (buf_disk d)(b := 1),
               info_b := (info_b d)(i0 := Some b)\<rparr>;
         d = d\<lparr>avail := (avail d)(2 + unat (avail d 1) mod NUM := of_nat i0)\<rparr>;
         d = d\<lparr>avail := (avail d)(1 := avail d 1 + 1)\<rparr>
     in (mmio_write VIRTIO_MMIO_QUEUE_NOTIFY 0 d, buf0))"

text \<open>\<open>virtio_disk_rw\<close> up to the wait for the device. When there are no three descriptors the processor is given up with the lock held, and the
  loop goes on when the process runs again.\<close>

definition virtio_disk_rw_take :: "vdisk_addrs \<Rightarrow> nat \<Rightarrow> u32 \<Rightarrow> bool \<Rightarrow> vdisk \<times> 'a kernel_scheme \<Rightarrow>
    (vdisk \<times> 'a kernel_scheme, nat \<times> virtio_blk_outhdr) outcome" where
  "virtio_disk_rw_take a b sector write s =
    (case alloc3_desc a (fst s) of
       Ret d None \<Rightarrow> Blocked (d, do_scheduler (snd s))
     | Ret d (Some idx) \<Rightarrow> (let (d, buf0) = submit a b sector write idx d in Ret (d, snd s) (fst idx, buf0))
     | r \<Rightarrow> Panic (out_state r, snd s))"

definition virtio_disk_rw :: "vdisk_addrs \<Rightarrow> nat \<Rightarrow> u32 \<Rightarrow> bool \<Rightarrow> vdisk \<times> 'a kernel_scheme \<Rightarrow>
    (vdisk \<times> 'a kernel_scheme, nat \<times> virtio_blk_outhdr) outcome option" where
  "virtio_disk_rw a b sector write s =
    (case acquire (vdisk_lock (fst s)) of
       (l, False) \<Rightarrow> None
     | (l, True) \<Rightarrow> Some (virtio_disk_rw_take a b sector write ((fst s)\<lparr>vdisk_lock := l\<rparr>, snd s)))"

text \<open>The rest of \<open>virtio_disk_rw\<close>, each time the process runs: while the device has the buffer the processor is given up.\<close>

definition virtio_disk_rw_wait :: "vdisk_addrs \<Rightarrow> nat \<Rightarrow> nat \<Rightarrow> vdisk \<times> 'a kernel_scheme \<Rightarrow> (vdisk \<times> 'a kernel_scheme, unit) outcome" where
  "virtio_disk_rw_wait a b i0 s =
    (let d = fst s in
     if buf_disk d b = 1 then Blocked (d, do_scheduler (snd s))
     else
       case free_chain a i0 (d\<lparr>info_b := (info_b d)(i0 := None)\<rparr>) of
         Ret d _ \<Rightarrow> Ret (d\<lparr>vdisk_lock := release (vdisk_lock d)\<rparr>, snd s) ()
       | r \<Rightarrow> Panic (out_state r, snd s))"

text \<open>The loop of the interrupt: \<open>used_idx\<close> counts modulo 8, so that eight rounds are enough.\<close>

fun intr_loop :: "nat \<Rightarrow> vdisk \<Rightarrow> (vdisk, unit) outcome" where
  "intr_loop n d =
    (if unat (used_idx d) mod NUM = unat (ua_id (used_area d)) mod NUM then Ret d ()
     else
       case n of
         0 \<Rightarrow> Panic d
       | Suc m \<Rightarrow>
           let i = unat (ua_elems (used_area d) (unat (used_idx d)))
           in if i \<ge> NUM then Panic d
              else if info_status d i \<noteq> 0 then Panic d
              else
                case info_b d i of
                  None \<Rightarrow> Panic d
                | Some b \<Rightarrow>
                    intr_loop m (d\<lparr>buf_disk := (buf_disk d)(b := 0), used_idx := (used_idx d + 1) mod of_nat NUM\<rparr>))"

definition virtio_disk_intr :: "(u32 \<Rightarrow> u32) \<Rightarrow> vdisk \<Rightarrow> (vdisk, unit) outcome option" where
  "virtio_disk_intr rd d =
    (case acquire (vdisk_lock d) of
       (l, False) \<Rightarrow> None
     | (l, True) \<Rightarrow>
         Some (obind (intr_loop NUM (d\<lparr>vdisk_lock := l\<rparr>)) (\<lambda>d _.
           Ret ((mmio_write VIRTIO_MMIO_INTERRUPT_ACK (rd VIRTIO_MMIO_INTERRUPT_STATUS AND 3) d)\<lparr>vdisk_lock := release (vdisk_lock d)\<rparr>) ())))"

section \<open>The request the device finds\<close>

lemma alloc_desc_cases:
  shows "(\<exists>i. alloc_desc d = (d\<lparr>desc_free := (desc_free d)(i := 0)\<rparr>, Some i) \<and> i < 8 \<and> desc_free d i \<noteq> 0 \<and> (\<forall>j<i. desc_free d j = 0))
    \<or> alloc_desc d = (d, None) \<and> (\<forall>i<8. desc_free d i = 0)"
proof (cases "find (\<lambda>i. desc_free d i \<noteq> 0) [0..<8]")
  case None
  then have "alloc_desc d = (d, None)"
    by (simp add: alloc_desc_def)
  then show ?thesis
    using None by (auto simp: find_None_iff)
next
  case (Some i)
  then have "alloc_desc d = (d\<lparr>desc_free := (desc_free d)(i := 0)\<rparr>, Some i)"
    by (simp add: alloc_desc_def)
  then show ?thesis
    using Some by (auto simp: find_Some_iff)
qed

text \<open>The next descriptor, when one of those below 8 is free.\<close>

lemma alloc_desc_next:
  assumes "k < 8" and "desc_free d k \<noteq> 0"
  obtains i where "alloc_desc d = (d\<lparr>desc_free := (desc_free d)(i := 0)\<rparr>, Some i)" and "i < 8" and "desc_free d i \<noteq> 0"
  using alloc_desc_cases [of d] assms by blast

lemma three_members: "card F \<ge> 3 \<Longrightarrow> (\<exists>k. k \<in> F) \<and> (\<forall>i. \<exists>k. k \<in> F - {i}) \<and> (\<forall>i j. \<exists>k. k \<in> F - {i, j})"
proof (intro conjI allI)
  assume c: "card F \<ge> 3"
  have d: "F - {i, j} \<noteq> {}" for i j
  proof
    assume "F - {i, j} = {}"
    then have "card F \<le> card {i, j}"
      by (intro card_mono) auto
    with c show False
      by (auto simp: card_insert_if split: if_splits)
  qed
  show "\<exists>k. k \<in> F" and "\<exists>k. k \<in> F - {i}" and "\<exists>k. k \<in> F - {i, j}" for i j
    using d [of i i] d [of i j] by auto
qed

lemma alloc3_desc_ok:
  assumes "card {i. i < 8 \<and> desc_free d i \<noteq> 0} \<ge> 3"
  obtains i0 i1 i2 where "alloc3_desc a d = Ret (d\<lparr>desc_free := (desc_free d)(i0 := 0, i1 := 0, i2 := 0)\<rparr>) (Some (i0, i1, i2))"
    and "distinct [i0, i1, i2]" and "\<forall>i\<in>{i0, i1, i2}. i < 8 \<and> desc_free d i \<noteq> 0"
proof -
  note m = three_members [OF assms]
  from m obtain k where "k < 8" "desc_free d k \<noteq> 0" by auto
  then obtain i0 where a0: "alloc_desc d = (d\<lparr>desc_free := (desc_free d)(i0 := 0)\<rparr>, Some i0)" "i0 < 8" "desc_free d i0 \<noteq> 0"
    by (rule alloc_desc_next)
  let ?d = "d\<lparr>desc_free := (desc_free d)(i0 := 0)\<rparr>"
  from spec [OF conjunct1 [OF conjunct2 [OF m]], of i0] obtain k where "k < 8" "desc_free ?d k \<noteq> 0"
    by auto
  then obtain i1 where a1: "alloc_desc ?d = (?d\<lparr>desc_free := (desc_free ?d)(i1 := 0)\<rparr>, Some i1)" "i1 < 8" "desc_free ?d i1 \<noteq> 0"
    by (rule alloc_desc_next)
  let ?e = "d\<lparr>desc_free := (desc_free d)(i0 := 0, i1 := 0)\<rparr>"
  from spec [OF spec [OF conjunct2 [OF conjunct2 [OF m]], of i0], of i1] obtain k where "k < 8" "desc_free ?e k \<noteq> 0"
    by auto
  then obtain i2 where a2: "alloc_desc ?e = (?e\<lparr>desc_free := (desc_free ?e)(i2 := 0)\<rparr>, Some i2)" "i2 < 8" "desc_free ?e i2 \<noteq> 0"
    by (rule alloc_desc_next)
  show ?thesis
    using a0 a1 a2 by (intro that [of i0 i1 i2]) (auto simp: alloc3_desc_def split: if_splits)
qed

lemma acquire_free: "spin_status l = 0 \<Longrightarrow> acquire l = (l\<lparr>spin_status := 1\<rparr>, True)"
  by (simp add: acquire_def atomic_cmpxchg_def set_low_def)

text \<open>C40: With three free descriptors and a free lock a request is entered as one chain: the head, published in the queue, leads through three
  different descriptors that were free and now are taken; they are for the header with the direction and the sector, for the 512 bytes of
  the buffer, to be written by the device exactly for a read, and for the status byte. The header is given by its physical
  address, the buffer and the status byte by the kernel addresses \<open>at_data\<close> and \<open>at_status\<close>, which the code does not translate. The other
  descriptors are untouched, the device is notified, and the lock is held.\<close>

theorem virtio_request_chain:
  assumes "card {i. i < 8 \<and> desc_free d i \<noteq> 0} \<ge> 3" and "spin_status (vdisk_lock d) = 0"
  shows "\<exists>e h i1 i2 oh. virtio_disk_rw a b sector write (d, s) = Some (Ret (e, s) (h, oh))
    \<and> distinct [h, i1, i2] \<and> (\<forall>i\<in>{h, i1, i2}. i < 8 \<and> desc_free d i \<noteq> 0 \<and> desc_free e i = 0)
    \<and> avail e (2 + unat (avail d 1) mod 8) = of_nat h \<and> avail e 1 = avail d 1 + 1 \<and> info_b e h = Some b
    \<and> desc e h = \<lparr>vd_addr = kva2pa (at_buf0 a), vd_len = 16, vd_flags = 1, vd_next = of_nat i1\<rparr>
    \<and> desc e i1 = \<lparr>vd_addr = at_data a b, vd_len = 512, vd_flags = if write then 1 else 3, vd_next = of_nat i2\<rparr>
    \<and> desc e i2 = \<lparr>vd_addr = at_status a h, vd_len = 1, vd_flags = 2, vd_next = 0\<rparr>
    \<and> oh = \<lparr>oh_type = if write then 1 else 0, oh_reserved = 0, oh_sector = ucast sector\<rparr>
    \<and> (\<forall>i. i \<notin> {h, i1, i2} \<longrightarrow> desc e i = desc d i \<and> desc_free e i = desc_free d i)
    \<and> mmio_writes e = mmio_writes d @ [(0x050, 0)] \<and> spin_status (vdisk_lock e) = 1"
proof -
  let ?d = "d\<lparr>vdisk_lock := (vdisk_lock d)\<lparr>spin_status := 1\<rparr>\<rparr>"
  have "card {i. i < 8 \<and> desc_free ?d i \<noteq> 0} \<ge> 3"
    using assms(1) by simp
  then obtain i0 i1 i2 where al: "alloc3_desc a ?d = Ret (?d\<lparr>desc_free := (desc_free ?d)(i0 := 0, i1 := 0, i2 := 0)\<rparr>) (Some (i0, i1, i2))"
    "distinct [i0, i1, i2]" "\<forall>i\<in>{i0, i1, i2}. i < 8 \<and> desc_free ?d i \<noteq> 0"
    by (rule alloc3_desc_ok)
  have "virtio_disk_rw a b sector write (d, s) = Some (virtio_disk_rw_take a b sector write (?d, s))"
    by (simp add: virtio_disk_rw_def acquire_free [OF assms(2)])
  moreover let ?r = "submit a b sector write (i0, i1, i2) (?d\<lparr>desc_free := (desc_free ?d)(i0 := 0, i1 := 0, i2 := 0)\<rparr>)"
  have "virtio_disk_rw_take a b sector write (?d, s) = Ret (fst ?r, s) (i0, snd ?r)"
    by (simp add: virtio_disk_rw_take_def al(1) split_beta Let_def)
  ultimately have r: "virtio_disk_rw a b sector write (d, s) = Some (Ret (fst ?r, s) (i0, snd ?r))"
    by simp
  show ?thesis
    by (rule exI [of _ "fst ?r"], rule exI [of _ i0], rule exI [of _ i1], rule exI [of _ i2], rule exI [of _ "snd ?r"], intro conjI, rule r)
      (use al(2,3) in \<open>auto simp: submit_def Let_def mmio_write_def\<close>)
qed

definition demo_vdisk :: vdisk where
  "demo_vdisk = \<lparr>desc = (\<lambda>_. \<lparr>vd_addr = 0, vd_len = 0, vd_flags = 0, vd_next = 0\<rparr>), avail = (\<lambda>_. 0),
     used_area = \<lparr>ua_flags = 0, ua_id = 0, ua_elems = (\<lambda>_. 0)\<rparr>, desc_free = (\<lambda>i. if i < 3 then 1 else 0), used_idx = 0, info_b = (\<lambda>_. None),
     info_status = (\<lambda>_. 0), vdisk_lock = \<lparr>spin_status = 0, spin_cpu = 0\<rparr>, buf_disk = (\<lambda>_. 0), mmio_writes = []\<rparr>"

definition demo_addrs :: vdisk_addrs where
  "demo_addrs = \<lparr>at_pages = 0xffffffc080200000, at_free = 0xffffffc080202018, at_status = (\<lambda>i. 0xffffffc080202030 + 16 * of_nat i),
     at_data = (\<lambda>b. 0xffffffc080300000 + 1024 * of_nat b), at_buf0 = 0xffffffc080400000\<rparr>"

theorem virtio_request_chain_witness:
  "\<exists>e h i1 i2 oh. virtio_disk_rw demo_addrs 5 2080 False (demo_vdisk, demo_kernel) = Some (Ret (e, demo_kernel) (h, oh))
    \<and> distinct [h, i1, i2] \<and> vd_next (desc e h) = of_nat i1 \<and> vd_next (desc e i1) = of_nat i2 \<and> vd_flags (desc e i1) = 3 \<and> oh_sector oh = 2080"
proof -
  have "{i. i < 8 \<and> desc_free demo_vdisk i \<noteq> 0} = {0, 1, 2}"
    by (auto simp: demo_vdisk_def)
  then have "card {i. i < 8 \<and> desc_free demo_vdisk i \<noteq> 0} \<ge> 3"
    by simp
  moreover have "spin_status (vdisk_lock demo_vdisk) = 0"
    by (simp add: demo_vdisk_def)
  ultimately show ?thesis
    using virtio_request_chain [of demo_vdisk demo_addrs 5 2080 False demo_kernel] by fastforce
qed

section \<open>A request that is not finished\<close>

text \<open>The addresses of the buffer and of the status byte in a request are not the physical ones, which the device needs, when they are
  addresses of the kernel window.\<close>

lemma virtio_addresses_not_physical:
  assumes "0xffffffc000000000 \<le> at_data a b" and "0xffffffc000000000 \<le> at_status a i0" and "distinct [i0, i1, i2]"
  shows "vd_addr (desc (fst (submit a b sector write (i0, i1, i2) d)) i0) = kva2pa (at_buf0 a)
    \<and> vd_addr (desc (fst (submit a b sector write (i0, i1, i2) d)) i1) \<noteq> kva2pa (at_data a b)
    \<and> vd_addr (desc (fst (submit a b sector write (i0, i1, i2) d)) i2) \<noteq> kva2pa (at_status a i0)"
proof -
  have "x \<noteq> kva2pa x" if "0xffffffc000000000 \<le> x" for x
  proof
    assume "x = kva2pa x"
    moreover have "kva2pa x = take_bit 32 x"
      unfolding kva2pa_def Let_def by (intro bit_eqI) (auto simp: bit_simps)
    ultimately have "unat x < 2 ^ 32"
      using take_bit_nat_less_exp [of 32 "unat x"] by (simp add: word_unat_eq_iff unsigned_take_bit_eq)
    with that show False
      by (simp add: word_le_nat_alt)
  qed
  with assms show ?thesis
    by (auto simp: submit_def Let_def mmio_write_def)
qed

text \<open>The lock is held while the process waits for the device, and the interrupt that would end the wait spins on it: whatever the
  device has done, no round of \<open>acquire\<close> in \<open>virtio_disk_intr\<close> ends, and the buffer stays with the device.\<close>

lemma virtio_interrupt_spins:
  assumes "virtio_disk_rw a b sector write (d, s) = Some (Ret (e, t) (h, oh))"
  shows "buf_disk e b = 1 \<and> virtio_disk_intr rd (e\<lparr>used_area := u, info_status := st\<rparr>) = None
    \<and> virtio_disk_rw_wait a b h (e\<lparr>used_area := u, info_status := st\<rparr>, t) = Blocked (e\<lparr>used_area := u, info_status := st\<rparr>, do_scheduler t)"
proof -
  obtain l where l: "acquire (vdisk_lock d) = (l, True)" "virtio_disk_rw_take a b sector write (d\<lparr>vdisk_lock := l\<rparr>, s) = Ret (e, t) (h, oh)"
    using assms by (auto simp: virtio_disk_rw_def split: prod.splits bool.splits)
  have z: "ucast (spin_status (vdisk_lock d)) = (0 :: u32)" "l = (vdisk_lock d)\<lparr>spin_status := set_low 1 (spin_status (vdisk_lock d))\<rparr>"
    using l(1) by (auto simp: acquire_def atomic_cmpxchg_def)
  have m: "(0xffffffff :: u64) = mask 32"
    by (simp add: mask_eq_exp_minus_1)
  have "ucast (set_low 1 x) = (1 :: u32)" for x
    unfolding set_low_def m by (rule bit_word_eqI) (auto simp: bit_simps)
  with z have nl: "acquire l = (m, True) \<Longrightarrow> False" for m
    by (auto simp: acquire_def atomic_cmpxchg_def)
  have al: "vdisk_lock f = vdisk_lock d'" if "alloc3_desc a d' = Ret f r" for d' f r
    using that by (auto simp: alloc3_desc_def alloc_desc_def free_desc_def Let_def split: option.splits if_splits)
  obtain f i1 i2 where f: "alloc3_desc a (d\<lparr>vdisk_lock := l\<rparr>) = Ret f (Some (h, i1, i2))" "e = fst (submit a b sector write (h, i1, i2) f)"
    using l(2) by (auto simp: virtio_disk_rw_take_def split: outcome.splits option.splits prod.splits)
  then have e: "vdisk_lock e = l" "buf_disk e b = 1"
    using al [OF f(1)] by (simp_all add: submit_def mmio_write_def)
  then show ?thesis
    using nl by (auto simp: virtio_disk_intr_def virtio_disk_rw_wait_def split: prod.splits bool.splits)
qed

text \<open>\<open>free_desc\<close> wakes up a list whose head is the array of bytes: while the bytes are 0 or 1 and the array is at a kernel
  address, the bytes are not that address, and the wake-up follows them as a pointer.\<close>

lemma free_word_small:
  assumes "\<And>i. desc_free d i \<le> 1"
  shows "\<not> bit (free_word d) 63"
proof -
  have b: "bit (desc_free d i) k \<Longrightarrow> k = 0" for i k
  proof -
    have "desc_free d i = 0 \<or> desc_free d i = 1"
      using assms [of i] by (auto simp: word_le_nat_alt word_unat_eq_iff)
    then show "bit (desc_free d i) k \<Longrightarrow> k = 0"
      by (auto simp: bit_simps)
  qed
  show ?thesis
    by (auto simp: free_word_def upt_rec bit_simps dest!: b)
qed

lemma free_desc_faults:
  assumes "\<And>i. desc_free d i \<le> 1" and "bit (at_free a) 63"
  shows "\<exists>e. free_desc a i d = Panic e"
proof -
  let ?e = "d\<lparr>desc := (desc d)(i := (desc d i)\<lparr>vd_addr := 0\<rparr>), desc_free := (desc_free d)(i := 1)\<rparr>"
  have "\<not> bit (free_word ?e) 63"
    by (rule free_word_small) (simp add: assms(1))
  then have "free_word ?e \<noteq> at_free a"
    using assms(2) by metis
  then show ?thesis
    by (simp add: free_desc_def Let_def)
qed

end
