(* ===== verification/Spec2Isabelle.thy ===== *)
theory Spec2Isabelle
  imports Klist Sched Signal Locks RingBuffer Mm Vm FatLayout Kstring Printk Time System BufferCache Swap Fault Recycle Files Futex SpecialCtx Process
    Socket FatTable FatDir FatFile FatCalls FatIo Poll Shm Elf Exec ExecStack Smp Trap Boot Start Pins Spi SdCard VirtioDisk
begin

text \<open>
  A verification library for the C-core kernel under \<open>src/\<close>: a multi-process RISC-V kernel for the k210 board and for qemu, with
  page tables and demand paging, a second-chance swap to the card, signals, futexes, pipes, local sockets and a FAT32 file
  system above a block buffer cache. Where the source has code for both boards, the model takes the k210.

  \<^bold>\<open>How the program is put together.\<close> The boot stage builds page tables and enters \<open>main\<close>, which sets up the tables of the
  kernel and the first process. From then on the kernel runs in traps: \<open>interrupt_helper\<close> dispatches a timer interrupt, a page fault
  or a system call. The timer interrupt wakes sleepers and futexes and sends the signals of timers, and calls the scheduler; a
  page fault allocates, copies, reads back from swap or from a mapped file; a system call ends in one of the components below. Every
  component that makes a process wait uses the queues of the scheduler, everything that needs memory the pages of \<open>mm.c\<close>, and every
  access to the file system the buffer cache.

  \<^bold>\<open>State and effects.\<close> The state of the kernel is one record, extended from theory to theory: \<open>kernel\<close> (process control blocks,
  queues, contexts, processors; theory \<open>Pcb\<close>), \<open>sigkernel\<close> (action tables; \<open>Signal\<close>), \<open>lockkernel\<close> (mutexes and sleep locks; \<open>Locks\<close>),
  \<open>mmkernel\<close> (memory words, pages, swap; \<open>Mm\<close>), \<open>os\<close> (all other tables; \<open>Globals\<close>) and \<open>fsos\<close> (the working directory and the programs in
  the kernel image; \<open>FatFile\<close>). An operation is a function on the schemes of such a record, so that it applies to every larger
  state. An operation that can give up the processor or fail has an \<open>outcome\<close> (\<open>Prelude\<close>): it returns, it has switched to another
  process, it has hit an assertion or a null pointer, the process has ended, or it has gone to user mode; \<open>obind\<close> composes two of them.
  System calls return the negative error numbers of the source. Machine integers are words of their width. A pointer to an
  element of a static table is its index, and the linked lists of processes are queues of a functional store, which \<open>Klist\<close> shows to
  be implemented by the linked lists of \<open>list.h\<close>. What a user pointer of a call names (strings, structures, bytes to write)
  is an argument, and what is stored through one is a result, except where memory itself is the subject.

  \<^bold>\<open>Theories and sources.\<close>
  \<^item> \<open>Prelude\<close>: machine types, error numbers, outcomes, facts on lists and words that all theories share.
  \<^item> \<open>Klist\<close> (\<open>include/os/list.h\<close>): list nodes in a heap, all operations and the safe iteration. The locale \<open>queue_api\<close> is the contract
    of a list; the heap and the store of queues interpret it, and sequences of operations on the one refine those on the other.
  \<^item> \<open>Pcb\<close>, \<open>Sched\<close> (\<open>include/os/sched.h\<close>, \<open>kernel/sched/sched.c\<close>): scheduling, blocking and waking. Runs of scheduler steps keep every
    process on the queue its status calls for, lose no process, and serve the ready queue in turn.
  \<^item> \<open>Signal\<close> (\<open>kernel/sched/signal.c\<close>): masks, actions, sending, delivery and return. Signals are not lost, a handler returns to
    the context it interrupted, and what an ignored signal does to the delivery.
  \<^item> \<open>Locks\<close> (\<open>kernel/locking/lock.c\<close>, \<open>kernel/smp/sleeplock.c\<close>): locales \<open>blocking_lock\<close> and \<open>releasing_lock\<close>, interpreted by the mutex and
    the sleep lock: the sleep lock is handed over; the mutex with waiters is not, and stays locked in all runs (\<open>mutex_step\<close>).
  \<^item> \<open>Smp\<close> (\<open>kernel/smp/\<close>, \<open>atomic.h\<close>): spin locks under all interleavings of processors (\<open>lock_step\<close>), with the locale \<open>spin\<close> for a lock whose
    loop tries once per round; the kernel lock excludes.
  \<^item> \<open>RingBuffer\<close> (\<open>ring_buffer.h\<close>, \<open>ring_buffer.c\<close>): the locale \<open>byte_fifo\<close> and its interpretation; a byte queue with the wrap-around arithmetic
    of the source.
  \<^item> \<open>PageTable\<close>, \<open>Mm\<close>, \<open>Vm\<close> (\<open>pgtable.h\<close>, \<open>kernel/mm/mm.c\<close>): entries and walks, pages with share counters, mapping and
    unmapping. Counters count references; the operations change the translation of one page and of no other.
  \<^item> \<open>Fault\<close> (\<open>kernel/mm/mmirq.c\<close>, \<open>kernel/irq/irq.c\<close>, \<open>kernel/mm/mmap.c\<close>), \<open>Swap\<close> (\<open>kernel/swap/swap.c\<close>), \<open>Recycle\<close> (\<open>kernel/mm/recycle.c\<close>),
    \<open>Shm\<close> (keys of shared pages): page faults with copy on write, the clock, tearing down an address space.
  \<^item> \<open>Kstring\<close>, \<open>Printk\<close> (\<open>libs/\<close>): string routines on a byte memory, number conversion and the format interpreter, which stays in
    its two buffers when no number is padded beyond the smaller one.
  \<^item> \<open>Time\<close> (\<open>kernel/time/\<close>), \<open>System\<close> (\<open>kernel/sched/id.c\<close>, \<open>kernel/system/\<close>): conversions, accounting, sleeping, interval timers,
    identities and limits.
  \<^item> \<open>BufferCache\<close> (\<open>drivers/sdcard/bio.c\<close>, \<open>disk.c\<close>): the locale \<open>disk_api\<close>; reads and writes through the cache are those of a disk.
  \<^item> \<open>FatLayout\<close>, \<open>FatTable\<close>, \<open>FatDir\<close>, \<open>FatFile\<close>, \<open>FatCalls\<close>, \<open>FatIo\<close> (\<open>include/fs/fat32.h\<close>, \<open>kernel/utils/utils.c\<close>, \<open>kernel/fat32/\<close>): the volume, the
    allocation table, directories and names, reading and writing, the other calls, mappings and mounts. The locale \<open>file_source\<close> is what a
    reader needs of the disk; it is interpreted with the cache and past it. Reads give the bytes of the chain of clusters,
    a file grows by a free cluster, long names are read back.
  \<^item> \<open>Files\<close> (\<open>file.c\<close>, \<open>pipe.c\<close>), \<open>SpecialCtx\<close> (\<open>special_ctx.c\<close>), \<open>Poll\<close> (\<open>io.c\<close>, \<open>poll.c\<close>), \<open>Socket\<close> (\<open>socket.c\<close>), \<open>Futex\<close> (\<open>futex.c\<close>):
    descriptors, pipes, waiting for descriptors, sockets and futexes on the queues of the scheduler.
  \<^item> \<open>Process\<close>, \<open>Elf\<close>, \<open>Exec\<close>, \<open>ExecStack\<close> (\<open>kernel/sched/\<close>, \<open>kernel/elf/\<close>): fork, exit, wait, loading and execution of programs; the stack
    a new program finds.
  \<^item> \<open>Pins\<close> (\<open>drivers/sdcard/fpioa.c\<close>, \<open>gpiohs.c\<close>, \<open>plic.c\<close>, \<open>utils.c\<close>), \<open>VirtioDisk\<close> (\<open>virtio_disk.c\<close>), \<open>Spi\<close> (\<open>spi.c\<close>), \<open>SdCard\<close> (\<open>sdcard.c\<close>): the drivers, on the
    registers of their devices. A device that changes by itself is a parameter; what it is taken to do is a hypothesis. A function of the
    multiplexer has one pin, a request to the virtio disk is one chain of descriptors, two of which hold addresses that are not physical, and the bytes of an SPI transfer
    go over the data lines in order and without loss on a controller that is neither faster than the register accesses nor stalls. Over it, a sector written to a
    card that follows the protocol for single blocks is read back, if the card does not mind its select line being let go within a command; the line is
    not part of the model. The cache above takes the card as a map of sectors.
  \<^item> \<open>Trap\<close>, \<open>Boot\<close>, \<open>Start\<close> (\<open>kernel/irq/irq.c\<close>, \<open>kernel/syscall/syscall.c\<close>, \<open>arch/riscv/kernel/boot.c\<close>, \<open>init/main.c\<close>, \<open>drivers/screen/\<close>): entering the
    kernel, its tables, the page tables at boot and the start. What the tables at boot translate is given for every address, for processors that
    check the alignment of large pages and for those that do not use the lower bits (\<open>sv39\<close>). This theory holds what spans the components: a timer interrupt keeps
    the whole state well formed.

  \<^bold>\<open>Bounds.\<close> A loop over a table is a recursion over its indexes and has no bound of its own. Loops over linked structures and chains
  have a first argument that bounds their rounds, and running out of it is \<open>None\<close> or a panic, never a result:
  the iteration over timers has one round for each process control block, redirections of descriptors one more than there are
  descriptors, the clock two turns of its ring and one step, exit of a process with its sons one level for each control block, loops over clusters
  as many rounds as there are cluster numbers. Where a theorem says that such an operation returns, the bound is shown to be enough.
  Loops over directory entries and segments take the bound as an argument, as do the waits of the drivers; the time limits of the card protocol
  (4095 attempts for an answer, 255 for a command) are those of the source.

  \<^bold>\<open>Not modelled.\<close> The assembly of the trap entry and the boot heads saves registers and enters the C functions, and has no
  state of its own beyond the frames that the model keeps in \<open>contexts\<close>. The clock and reset set-up
  of the board (\<open>sysctl.c\<close>) sets registers whose effect is outside the program. The firmware calls
  (timer, console) have no effect on the state. Concurrency between processors is modelled for the
  spin locks; all other code runs under the kernel lock, one processor at a time. The \<open>tiny_libc\<close>, the tests and the tools are
  not part of the kernel.
\<close>

section \<open>A timer interrupt\<close>

text \<open>A state for the witness: \<open>PCB 1\<close> runs, \<open>PCB 2\<close> is ready, and \<open>PCB 3\<close> waits for a page with an interval timer that has
  expired. The trap frame of \<open>PCB 1\<close> names the timer interrupt.\<close>

definition demo_timer :: fsos where
  "demo_timer = os.extend (demo_os\<lparr>queues := demo_queues, ticks := 500,
      contexts := (\<lambda>_. demo_context\<lparr>scause := SCAUSE_IRQ_FLAG OR 5\<rparr>),
      timer_list := list_add (timer_node (PCB 3)) timers (init_list timers (\<lambda>_. \<lparr>nxt = NULL, prv = NULL\<rparr>)),
      pcb_tab := (\<lambda>p. case p of
          PCB n \<Rightarrow> if n \<in> {1, 2} then demo_tab p
            else if n = 3 then (demo_tab p)\<lparr>itimer := \<lparr>set_itime = \<lparr>it_interval = \<lparr>tv_sec = 0, tv_usec = 0\<rparr>,
              it_value = \<lparr>tv_sec = 0, tv_usec = 0\<rparr>\<rparr>, add_tick = 100, last_send_tick = 0, value_valid = 1\<rparr>\<rparr>
            else (demo_tab p)\<lparr>status := TASK_EXITED\<rparr>
        | _ \<Rightarrow> demo_tab p)\<rparr>)
    (let r = \<lparr>first_clus = 2, clus_num = 2, sector_num = 2080, inode_name = [47]\<rparr> in
     \<lparr>cwd = r, root = r, cwd_path = [47], elf_files = [], mount_clus = 0, mountpoint = []\<rparr>)"

lemma demo_timer_parts:
  "queues demo_timer = demo_queues" "tp demo_timer = PCB 1" "current_running_master demo_timer = PCB 1"
  "current_running_slave demo_timer = pid0_pcb_slave" "contexts demo_timer = (\<lambda>_. demo_context\<lparr>scause := SCAUSE_IRQ_FLAG OR 5\<rparr>)"
  "timer_list demo_timer = list_add (timer_node (PCB 3)) timers (init_list timers (\<lambda>_. \<lparr>nxt = NULL, prv = NULL\<rparr>))"
  "status (pcb_tab demo_timer (PCB n)) = (if n \<in> {1, 2} then status (demo_tab (PCB n)) else if n = 3 then TASK_BLOCKED else TASK_EXITED)"
  "status (pcb_tab demo_timer pid0_pcb_master) = TASK_READY" "status (pcb_tab demo_timer pid0_pcb_slave) = TASK_READY"
  "pid (pcb_tab demo_timer p) = pid (demo_tab p)" "execve (pcb_tab demo_timer p) = 0"
  by (simp_all add: demo_timer_def demo_os_simps demo_simps split: pcb_ref.split)

lemma demo_timer_ok: "proc_ok demo_timer"
proof -
  have "get_current_cpu_id demo_timer = 0"
    by (simp add: get_current_cpu_id_def demo_timer_parts demo_context_def)
  moreover have "store_inv demo_queues"
    by (rule store_invI) (auto simp: demo_queues_def split: if_splits)
  ultimately have "sched_wf demo_timer"
    by (intro sched_wfI)
      (auto simp: demo_timer_parts demo_queues_def demo_tab_def demo_pcb_def queued_def running_def other_def idle_def split: if_splits)
  then have "sched_inv demo_timer"
    by (simp add: sched_inv_def demo_timer_parts demo_tab_def demo_pcb_def)
  moreover have "pids_ok demo_timer"
    by (auto simp: pids_ok_def tasks_iff demo_timer_parts demo_queues_def demo_tab_def demo_pcb_def split: if_splits)
  moreover have "\<exists>w. p \<in> set (queues demo_timer (WaitQ w))" if "status (pcb_tab demo_timer p) = TASK_BLOCKED" for p
    using that by (cases p)
      (auto simp: demo_timer_parts demo_queues_def demo_tab_def demo_pcb_def intro: exI [of _ page_wait_list] split: if_splits)
  ultimately show ?thesis
    by (simp add: proc_ok_def)
qed

text \<open>C3: A timer interrupt keeps the kernel state well formed and loses no process. From a state in which every process is on
  at most one queue and on the one its status calls for, every blocked process waits on a queue and the list of timers is a
  list, the handler charges the time, wakes the sleepers, the futexes and the timers that are due (a timer signal unblocks its
  process) and gives the processor away, whatever their number; it comes to the end of every loop, the state it leaves is well
  formed in the same sense, and the running, ready and waiting processes are the same as before.\<close>

theorem timer_interrupt_keeps_processes:
  assumes "proc_ok s" and "dlist (timer_list s) timers xs" and "length xs \<le> NUM_MAX_TASK + 2"
    and "cause AND SCAUSE_IRQ_FLAG = SCAUSE_IRQ_FLAG" and "scause (contexts s a) = SCAUSE_IRQ_FLAG OR 5"
  shows "\<exists>t. interrupt_helper call a stval cause s = Blocked t \<and> proc_ok t \<and> tasks t = tasks s"
proof -
  have "dlist (timer_list (update_utime s)) timers xs"
    using assms(2) by simp
  from reset_irq_timer_keeps [OF this assms(3)]
  obtain t where t: "reset_irq_timer (update_utime s) = Blocked t" "keeps (update_utime s) t" by blast
  have "unat (scause (contexts (update_utime s) a) AND NOT SCAUSE_IRQ_FLAG) = 5"
    by (simp add: assms(5) update_utime_def Let_def set_sys_time_def)
  then have "interrupt_helper call a stval cause s = Blocked t"
    using assms(4) t(1) by (simp add: interrupt_helper_def Let_def run_handler_def irq_table_def handle_int_def)
  moreover have "keeps s t"
    using keeps_trans [OF keeps_update_utime t(2)] .
  ultimately show ?thesis
    using assms(1) by (simp add: keeps_def)
qed

theorem timer_interrupt_keeps_processes_witness:
  "\<exists>t. interrupt_helper (\<lambda>_ _ s. Ret s 0) 1 0 (SCAUSE_IRQ_FLAG OR 5) demo_timer = Blocked t \<and> proc_ok t
    \<and> tasks t = tasks demo_timer"
proof (rule timer_interrupt_keeps_processes [OF demo_timer_ok, of "[timer_node (PCB 3)]"])
  show "dlist (timer_list demo_timer) timers [timer_node (PCB 3)]"
    by (simp add: demo_timer_parts dlist_def links_simps list_add_def list_add_between_def init_list_def timer_node_def)
qed (simp_all add: demo_timer_parts)

end
